(* ===== verification/Prelude.thy ===== *)
theory Prelude
  imports Complex_Main "HOL-Library.AList" "HOL-Library.Sublist"
    "HOL-Library.Char_ord" "HOL-Library.List_Lexorder"
begin

text \<open>
  What every component shares: the errors Python raises, a small error monad, dictionaries
  (association lists in insertion order, read with \<open>map_of\<close>), truthiness of optional values,
  Python's rounding and ceiling division, string helpers, and the theorem collections
  \<open>dict_simps\<close> and \<open>err_simps\<close>.
\<close>

named_theorems dict_simps \<open>lookup after update, delete and map over a dictionary\<close>
named_theorems err_simps \<open>running the error monad\<close>

section \<open>Errors\<close>

text \<open>
  The exceptions and HTTP errors the modelled code raises. \<open>HTTPError code detail\<close> is FastAPI's
  \<open>HTTPException\<close>; the structured details are built in the component that raises them.
\<close>

datatype py_error =
    ValueError string
  | ZeroDivisionError
  | KeyError string
  | IndexError
  | TypeError string
  | RuntimeError string

type_synonym 'a result = "py_error + 'a"

definition bind_err :: "'e + 'a \<Rightarrow> ('a \<Rightarrow> 'e + 'b) \<Rightarrow> 'e + 'b" where
  "bind_err m f = (case m of Inl e \<Rightarrow> Inl e | Inr x \<Rightarrow> f x)"

lemma bind_err_Inl [simp, err_simps]: "bind_err (Inl e) f = Inl e"
  by (simp add: bind_err_def)

lemma bind_err_Inr [simp, err_simps]: "bind_err (Inr x) f = f x"
  by (simp add: bind_err_def)

lemma bind_err_eq_Inr [err_simps]: "bind_err m f = Inr y \<longleftrightarrow> (\<exists>x. m = Inr x \<and> f x = Inr y)"
  by (cases m) auto

lemma bind_err_eq_Inl: "bind_err m f = Inl e \<longleftrightarrow> m = Inl e \<or> (\<exists>x. m = Inr x \<and> f x = Inl e)"
  by (cases m) auto

lemma map_sum_Inr_iff: "map_sum f g r = Inr b \<longleftrightarrow> (\<exists>a. r = Inr a \<and> g a = b)"
  by (cases r) simp_all

text \<open>A list comprehension whose element expression may raise: the first error wins.\<close>

fun map_err :: "('a \<Rightarrow> 'e + 'b) \<Rightarrow> 'a list \<Rightarrow> 'e + 'b list" where
  "map_err f [] = Inr []"
| "map_err f (x # xs) = bind_err (f x) (\<lambda>y. bind_err (map_err f xs) (\<lambda>ys. Inr (y # ys)))"

fun filter_err :: "('a \<Rightarrow> 'e + bool) \<Rightarrow> 'a list \<Rightarrow> 'e + 'a list" where
  "filter_err p [] = Inr []"
| "filter_err p (x # xs) =
     bind_err (p x) (\<lambda>b. bind_err (filter_err p xs) (\<lambda>ys. Inr (if b then x # ys else ys)))"

fun fold_err :: "('s \<Rightarrow> 'a \<Rightarrow> 'e + 's) \<Rightarrow> 's \<Rightarrow> 'a list \<Rightarrow> 'e + 's" where
  "fold_err f s [] = Inr s"
| "fold_err f s (x # xs) = bind_err (f s x) (\<lambda>s'. fold_err f s' xs)"

lemma map_err_total: "(\<And>x. x \<in> set xs \<Longrightarrow> f x = Inr (g x)) \<Longrightarrow> map_err f xs = Inr (map g xs)"
  by (induction xs) auto

lemma filter_err_total:
  "(\<And>x. x \<in> set xs \<Longrightarrow> p x = Inr (q x)) \<Longrightarrow> filter_err p xs = Inr (filter q xs)"
  by (induction xs) auto

lemma map_err_length: "map_err f xs = Inr ys \<Longrightarrow> length ys = length xs"
  by (induction xs arbitrary: ys) (auto simp: bind_err_eq_Inr)

lemma filter_err_subset: "filter_err p xs = Inr ys \<Longrightarrow> set ys \<subseteq> set xs"
  by (induction xs arbitrary: ys) (auto simp: bind_err_eq_Inr split: if_splits)

lemma filter_err_sat: "filter_err p xs = Inr ys \<Longrightarrow> y \<in> set ys \<Longrightarrow> p y = Inr True"
  by (induction xs arbitrary: ys) (auto simp: bind_err_eq_Inr split: if_splits)

section \<open>Dictionaries\<close>

text \<open>
  A Python dictionary is an association list with distinct keys, kept in insertion order:
  \<open>AList.update\<close> overwrites in place or appends, as \<open>d[k] = v\<close> does; \<open>map_of d k\<close> is
  \<open>d.get(k)\<close>.
\<close>

type_synonym 'v dict = "(string \<times> 'v) list"

abbreviation dkeys :: "('k \<times> 'v) list \<Rightarrow> 'k list" where
  "dkeys d \<equiv> map fst d"

definition dset :: "'k \<Rightarrow> 'v \<Rightarrow> ('k \<times> 'v) list \<Rightarrow> ('k \<times> 'v) list" where
  "dset k v d = AList.update k v d"

definition ddel :: "'k \<Rightarrow> ('k \<times> 'v) list \<Rightarrow> ('k \<times> 'v) list" where
  "ddel k d = AList.delete k d"

definition dsetdefault :: "'k \<Rightarrow> 'v \<Rightarrow> ('k \<times> 'v) list \<Rightarrow> ('k \<times> 'v) list" where
  "dsetdefault k v d = (case map_of d k of None \<Rightarrow> dset k v d | Some _ \<Rightarrow> d)"

lemma dset_Nil [simp]: "dset k v [] = [(k, v)]"
  by (simp add: dset_def)

lemma dset_Cons [simp]: "dset k v (p # ps) = (if fst p = k then (k, v) # ps else p # dset k v ps)"
  by (simp add: dset_def)

lemma map_of_dset [simp, dict_simps]: "map_of (dset k v d) k' = (if k' = k then Some v else map_of d k')"
  by (simp add: dset_def AList.update_conv')

lemma map_of_ddel [simp, dict_simps]: "map_of (ddel k d) k' = (if k' = k then None else map_of d k')"
  by (simp add: ddel_def AList.delete_conv')

lemma map_of_dsetdefault [simp, dict_simps]:
  "map_of (dsetdefault k v d) k' =
     (if k' = k then Some (case map_of d k of None \<Rightarrow> v | Some w \<Rightarrow> w) else map_of d k')"
  by (simp add: dsetdefault_def split: option.splits)

lemma distinct_dset [simp, intro]: "distinct (dkeys d) \<Longrightarrow> distinct (dkeys (dset k v d))"
  by (simp add: dset_def AList.distinct_update)

lemma distinct_ddel [simp, intro]: "distinct (dkeys d) \<Longrightarrow> distinct (dkeys (ddel k d))"
  by (simp add: ddel_def AList.distinct_delete)

lemma distinct_dsetdefault [simp, intro]:
  "distinct (dkeys d) \<Longrightarrow> distinct (dkeys (dsetdefault k v d))"
  by (auto simp: dsetdefault_def split: option.splits)

lemma keys_dset [simp, dict_simps]: "set (dkeys (dset k v d)) = insert k (set (dkeys d))"
  by (simp add: dset_def AList.dom_update)

lemma dset_triv: "map_of d k = Some v \<Longrightarrow> dset k v d = d"
  by (simp add: dset_def AList.update_triv)

lemma in_dset: "x \<in> set (dset k v d) \<Longrightarrow> x = (k, v) \<or> x \<in> set d"
  by (induction d) (auto split: if_splits)

lemma map_of_mem: "distinct (dkeys d) \<Longrightarrow> (k, v) \<in> set d \<longleftrightarrow> map_of d k = Some v"
  by auto

text \<open>Python's \<open>{k: f(k, v) for ...}\<close> over every entry: keys and order stay.\<close>

definition dmap :: "('k \<Rightarrow> 'v \<Rightarrow> 'w) \<Rightarrow> ('k \<times> 'v) list \<Rightarrow> ('k \<times> 'w) list" where
  "dmap f d = map (\<lambda>(k, v). (k, f k v)) d"

lemma dkeys_dmap [simp]: "dkeys (dmap f d) = dkeys d"
  by (induction d) (auto simp: dmap_def)

lemma map_of_dmap [simp, dict_simps]: "map_of (dmap f d) k = map_option (f k) (map_of d k)"
  by (induction d) (auto simp: dmap_def)

lemma dmap_cong_id: "(\<And>k v. (k, v) \<in> set d \<Longrightarrow> f k v = v) \<Longrightarrow> dmap f d = d"
  by (induction d) (auto simp: dmap_def)

text \<open>Sums over the values of a dictionary when one entry is replaced.\<close>

lemma sum_list_dset_new:
  "map_of d k = None \<Longrightarrow> (\<Sum>p\<leftarrow>dset k v d. f (snd p)) = (\<Sum>p\<leftarrow>d. f (snd p)) + (f v :: int)"
  by (induction d) (auto split: if_splits)

lemma sum_list_dset_old:
  "map_of d k = Some w \<Longrightarrow>
     (\<Sum>p\<leftarrow>dset k v d. f (snd p)) = (\<Sum>p\<leftarrow>d. f (snd p)) - f w + (f v :: int)"
  by (induction d) (auto split: if_splits)

section \<open>Optional values\<close>

text \<open>\<open>bool(d.get(k))\<close> for a string: \<open>None\<close> and the empty string are falsy.\<close>

definition truthy :: "string option \<Rightarrow> bool" where
  "truthy s = (case s of None \<Rightarrow> False | Some t \<Rightarrow> t \<noteq> [])"

lemma truthy_simps [simp]: "\<not> truthy None" "truthy (Some t) \<longleftrightarrow> t \<noteq> []"
  by (simp_all add: truthy_def)

lemma truthy_Some: "truthy s \<Longrightarrow> \<exists>t. s = Some t \<and> t \<noteq> []"
  by (cases s) auto

definition get_or :: "'a \<Rightarrow> 'a option \<Rightarrow> 'a" where
  "get_or d x = (case x of None \<Rightarrow> d | Some v \<Rightarrow> v)"

lemma get_or_simps [simp]: "get_or d None = d" "get_or d (Some v) = v"
  by (simp_all add: get_or_def)

section \<open>Numbers\<close>

text \<open>\<open>math.ceil(a / b)\<close> on integers with \<open>b > 0\<close>, and \<open>round(x)\<close>, which sends ties to even.\<close>

definition ceil_div :: "int \<Rightarrow> int \<Rightarrow> int" where
  "ceil_div a b = - ((- a) div b)"

lemma ceil_div_upper: "0 < b \<Longrightarrow> a \<le> ceil_div a b * b"
proof -
  assume b: "0 < b"
  have "(- a) div b * b \<le> - a"
    using pos_mod_sign [OF b, of "- a"] by (simp add: minus_mod_eq_div_mult [symmetric])
  then show ?thesis by (simp add: ceil_div_def)
qed

lemma ceil_div_lower: "0 < b \<Longrightarrow> (ceil_div a b - 1) * b < a"
proof -
  assume b: "0 < b"
  have "- a < ((- a) div b + 1) * b"
    using b by (metis add.commute mult.commute pos_mod_bound add_less_cancel_left
        distrib_left mult.right_neutral mult_div_mod_eq)
  then show ?thesis by (simp add: ceil_div_def algebra_simps)
qed

lemma ceil_div_nonneg: "0 < b \<Longrightarrow> 0 \<le> a \<Longrightarrow> 0 \<le> ceil_div a b"
  using ceil_div_upper [of b a] by (meson dual_order.trans mult_less_0_iff not_less)

lemma ceil_div_least: "0 < b \<Longrightarrow> a \<le> k * b \<Longrightarrow> ceil_div a b \<le> k"
proof -
  assume b: "0 < b" and ak: "a \<le> k * b"
  have "(ceil_div a b - 1) * b < k * b" using ceil_div_lower [OF b, of a] ak by linarith
  then have "ceil_div a b - 1 < k" using b by (simp add: mult_less_cancel_right)
  then show ?thesis by simp
qed

definition py_round :: "real \<Rightarrow> int" where
  "py_round x =
     (let f = \<lfloor>x\<rfloor>; d = x - of_int f
      in if d < 1 / 2 then f else if 1 / 2 < d then f + 1 else if even f then f else f + 1)"

lemma py_round_bounds: "x - 1 / 2 \<le> of_int (py_round x) \<and> of_int (py_round x) \<le> x + 1 / 2"
  unfolding py_round_def Let_def by (auto; linarith)

lemma py_round_le: "x \<le> of_int n \<Longrightarrow> py_round x \<le> n"
proof -
  assume "x \<le> of_int n"
  then have "of_int (py_round x) \<le> (of_int n :: real) + 1 / 2"
    using py_round_bounds [of x] by linarith
  then show ?thesis by linarith
qed

lemma py_round_ge: "of_int n \<le> x \<Longrightarrow> n \<le> py_round x"
proof -
  assume "of_int n \<le> x"
  then have "(of_int n :: real) - 1 / 2 \<le> of_int (py_round x)"
    using py_round_bounds [of x] by linarith
  then show ?thesis by linarith
qed

section \<open>Strings\<close>

text \<open>
  Python strings as lists of (ASCII) characters: \<open>s.split(sep)[-1]\<close> is the part after the last
  separator, \<open>s.isdigit()\<close> a non-empty run of decimal digits, \<open>int(s)\<close> its value.
\<close>

definition is_digit :: "char \<Rightarrow> bool" where
  "is_digit c \<longleftrightarrow> 48 \<le> (of_char c :: nat) \<and> (of_char c :: nat) \<le> 57"

definition isdigit :: "string \<Rightarrow> bool" where
  "isdigit s \<longleftrightarrow> s \<noteq> [] \<and> list_all is_digit s"

definition int_of_digits :: "string \<Rightarrow> int" where
  "int_of_digits s = foldl (\<lambda>n c. 10 * n + (of_char c - 48)) 0 s"

definition after_last :: "char \<Rightarrow> string \<Rightarrow> string" where
  "after_last sep s = rev (takeWhile (\<lambda>c. c \<noteq> sep) (rev s))"

definition before_last :: "char \<Rightarrow> string \<Rightarrow> string" where
  "before_last sep s =
     (if sep \<in> set s then rev (tl (dropWhile (\<lambda>c. c \<noteq> sep) (rev s))) else s)"

definition before_first :: "char \<Rightarrow> string \<Rightarrow> string" where
  "before_first sep s = takeWhile (\<lambda>c. c \<noteq> sep) s"

definition removeprefix :: "string \<Rightarrow> string \<Rightarrow> string" where
  "removeprefix p s = (if prefix p s then drop (length p) s else s)"

text \<open>\<open>", ".join(xs)\<close> and \<open>str(xs)\<close> of a list of strings without quotes in them.\<close>

fun join_strings :: "string \<Rightarrow> string list \<Rightarrow> string" where
  "join_strings sep [] = []"
| "join_strings sep [x] = x"
| "join_strings sep (x # y # xs) = x @ sep @ join_strings sep (y # xs)"

definition str_of_list :: "string list \<Rightarrow> string" where
  "str_of_list xs = ''['' @ join_strings '', '' (map (\<lambda>x. [CHR 0x27] @ x @ [CHR 0x27]) xs) @ '']''"

text \<open>Decimal digits of a number, \<open>str(n)\<close>.\<close>

fun digits_of_nat :: "nat \<Rightarrow> string" where
  "digits_of_nat n =
     (if n < 10 then [char_of (48 + n)] else digits_of_nat (n div 10) @ [char_of (48 + n mod 10)])"

declare digits_of_nat.simps [simp del]

end
