(* ===== verification/Catalog.thy ===== *)
theory Catalog
  imports Prelude
begin

text \<open>
  The machine catalog, \<open>providers/catalog.py\<close>: what the scheduler knows about machine types on the
  three clouds. The tables are the source's, in its order; \<open>machine_spec\<close> parses a machine-type name,
  \<open>parallelism_capacity\<close> says how many calls one machine runs, \<open>pack_cpu_machines\<close> chooses machines
  that cover a number of CPUs. Strings are ASCII (Python's \<open>isdigit\<close> and \<open>\d\<close> accept other Unicode
  digits too). The lemmas show that the tables agree with each other and what packing guarantees.
\<close>

section \<open>Tables\<close>

definition SETTINGS_MACHINE_TYPES :: "string list dict" where
  "SETTINGS_MACHINE_TYPES =
    [(''gcp'',
      [''n4-standard-2'', ''n4-standard-4'', ''n4-standard-8'', ''n4-standard-16'',
       ''n4-standard-32'', ''n4-standard-64'', ''n4-standard-80'', ''a2-highgpu-1g'',
       ''a2-highgpu-2g'', ''a2-highgpu-4g'', ''a2-highgpu-8g'', ''a2-ultragpu-1g'',
       ''a2-ultragpu-2g'', ''a2-ultragpu-4g'', ''a2-ultragpu-8g'', ''a3-highgpu-1g'',
       ''a3-highgpu-2g'', ''a3-highgpu-4g'', ''a3-highgpu-8g'']),
     (''aws'',
      [''m7i.large'', ''m7i.xlarge'', ''m7i.2xlarge'', ''m7i.4xlarge'', ''m7i.8xlarge'',
       ''m7i.16xlarge'', ''r7i.16xlarge'', ''p4d.24xlarge'', ''p4de.24xlarge'', ''p5.4xlarge'',
       ''p5.48xlarge'']),
     (''azure'',
      [''Standard_D2as_v5'', ''Standard_D4as_v5'', ''Standard_D8as_v5'', ''Standard_D16as_v5'',
       ''Standard_D32as_v5'', ''Standard_D64as_v5''])]"

definition CPU_ONLY_IMAGE_REPOSITORIES :: "string list" where
  "CPU_ONLY_IMAGE_REPOSITORIES = [''python'', ''ubuntu'', ''debian'', ''alpine'']"

definition SETTINGS_REGIONS :: "string list dict" where
  "SETTINGS_REGIONS =
    [(''gcp'',
      [''us-central1'', ''us-east1'', ''us-east4'', ''us-east5'', ''us-south1'', ''us-west1'',
       ''us-west3'', ''us-west4'', ''northamerica-northeast2'', ''northamerica-south1'',
       ''europe-west1'', ''europe-west2'', ''europe-west3'', ''europe-west4'',
       ''europe-west9'', ''europe-southwest1'', ''europe-north2'', ''asia-northeast1'',
       ''asia-northeast3'', ''asia-south1'', ''asia-southeast1'', ''australia-southeast1'',
       ''me-west1'']),
     (''aws'',
      [''af-south-1'', ''ap-east-1'', ''ap-east-2'', ''ap-northeast-1'', ''ap-northeast-2'',
       ''ap-northeast-3'', ''ap-south-1'', ''ap-south-2'', ''ap-southeast-1'',
       ''ap-southeast-2'', ''ap-southeast-3'', ''ap-southeast-4'', ''ap-southeast-5'',
       ''ap-southeast-6'', ''ap-southeast-7'', ''ca-central-1'', ''eu-central-1'',
       ''eu-central-2'', ''eu-north-1'', ''eu-south-1'', ''eu-south-2'', ''eu-west-1'',
       ''eu-west-2'', ''eu-west-3'', ''il-central-1'', ''me-central-1'', ''mx-central-1'',
       ''sa-east-1'', ''us-east-1'', ''us-east-2'', ''us-west-1'', ''us-west-2'']),
     (''azure'',
      [''eastus'', ''eastus2'', ''centralus'', ''southcentralus'', ''westus2'', ''westus3'',
       ''canadacentral'', ''brazilsouth'', ''northeurope'', ''westeurope'', ''uksouth'',
       ''francecentral'', ''germanywestcentral'', ''swedencentral'', ''centralindia'',
       ''southeastasia'', ''eastasia'', ''japaneast'', ''koreacentral'', ''australiaeast''])]"

definition GPU_REGIONS :: "string list dict dict" where
  "GPU_REGIONS =
    [(''gcp'',
      [(''a2-highgpu'',
        [''us-central1'', ''us-west3'', ''us-east1'', ''us-west4'', ''us-west1'',
         ''europe-west4'', ''asia-northeast1'', ''asia-northeast3'', ''me-west1'',
         ''asia-southeast1'']),
       (''a2-ultragpu'',
        [''us-central1'', ''us-east5'', ''us-east4'', ''europe-west4'', ''asia-southeast1'']),
       (''a3-highgpu'',
        [''us-central1'', ''us-east5'', ''us-east4'', ''us-west4'', ''us-west1'',
         ''europe-west1'', ''asia-northeast1'', ''asia-southeast1''])]),
     (''aws'',
      [(''p4de.'',
        [''us-east-1'', ''us-west-2'', ''eu-central-1'', ''ap-northeast-1'',
         ''ap-southeast-1'']),
       (''p4d.'',
        [''us-east-1'', ''us-east-2'', ''us-west-2'', ''ca-central-1'', ''sa-east-1'',
         ''eu-west-1'', ''eu-west-2'', ''eu-central-1'', ''eu-north-1'', ''ap-south-1'',
         ''ap-northeast-1'', ''ap-northeast-2'', ''ap-southeast-2'']),
       (''p5.4xlarge'',
        [''us-east-1'', ''us-east-2'', ''us-west-2'', ''sa-east-1'', ''eu-west-2'',
         ''ap-south-1'', ''ap-northeast-1'', ''ap-southeast-2'']),
       (''p5.48xlarge'',
        [''us-east-1'', ''us-east-2'', ''us-west-1'', ''us-west-2'', ''ca-central-1'',
         ''sa-east-1'', ''eu-west-2'', ''eu-north-1'', ''ap-south-1'', ''ap-northeast-1'',
         ''ap-northeast-2'', ''ap-southeast-2''])])]"

definition ON_DEMAND_HOURLY_USD :: "real dict" where
  "ON_DEMAND_HOURLY_USD =
    [(''a2-highgpu-1g'', 3673385 / 1000000),
     (''a2-highgpu-2g'', 734677 / 100000),
     (''a2-highgpu-4g'', 1469354 / 100000),
     (''a2-highgpu-8g'', 2938708 / 100000),
     (''a2-ultragpu-1g'', 506879789 / 100000000),
     (''a2-ultragpu-2g'', 10137595781 / 1000000000),
     (''a2-ultragpu-4g'', 20275191562 / 1000000000),
     (''a2-ultragpu-8g'', 40550383123 / 1000000000),
     (''a3-highgpu-1g'', 110612 / 10000),
     (''a3-highgpu-2g'', 221225 / 10000),
     (''a3-highgpu-4g'', 44245 / 1000),
     (''a3-highgpu-8g'', 88490000119 / 1000000000),
     (''n4-standard-2'', 907 / 10000),
     (''n4-standard-4'', 1814 / 10000),
     (''n4-standard-8'', 3628 / 10000),
     (''n4-standard-16'', 7256 / 10000),
     (''n4-standard-32'', 14512 / 10000),
     (''n4-standard-64'', 29024 / 10000),
     (''n4-standard-80'', 3628 / 1000),
     (''p4d.24xlarge'', 327726 / 10000),
     (''p4de.24xlarge'', 409657 / 10000),
     (''p5.4xlarge'', 688 / 100),
     (''p5.48xlarge'', 9832 / 100),
     (''m7i.large'', 1008 / 10000),
     (''m7i.xlarge'', 2016 / 10000),
     (''m7i.2xlarge'', 4032 / 10000),
     (''m7i.4xlarge'', 8064 / 10000),
     (''m7i.8xlarge'', 16128 / 10000),
     (''m7i.16xlarge'', 32256 / 10000),
     (''r7i.16xlarge'', 42336 / 10000),
     (''Standard_D2as_v5'', 86 / 1000),
     (''Standard_D4as_v5'', 172 / 1000),
     (''Standard_D8as_v5'', 344 / 1000),
     (''Standard_D16as_v5'', 688 / 1000),
     (''Standard_D32as_v5'', 1376 / 1000),
     (''Standard_D64as_v5'', 2752 / 1000)]"

definition M7I_SIZE_TO_CPUS :: "int dict" where
  "M7I_SIZE_TO_CPUS =
    [(''large'', 2), (''xlarge'', 4), (''2xlarge'', 8), (''4xlarge'', 16),
     (''8xlarge'', 32), (''12xlarge'', 48), (''16xlarge'', 64), (''24xlarge'', 96)]"

definition DS_CPU_SIZES :: "int list" where
  "DS_CPU_SIZES = [2, 4, 8, 16, 32, 48, 64, 96, 128, 192]"

definition GCP_PACK_SIZES :: "nat list" where
  "GCP_PACK_SIZES = [80, 64, 32, 16, 8, 4, 2]"

definition AWS_PACK_SIZES :: "string list" where
  "AWS_PACK_SIZES = [''16xlarge'', ''8xlarge'', ''4xlarge'', ''2xlarge'', ''xlarge'', ''large'']"

definition AZURE_PACK_SIZES :: "nat list" where
  "AZURE_PACK_SIZES = [64, 32, 16, 8, 4, 2]"

text \<open>
  A GPU entry is either a family whose size is parsed from the name (CPUs and RAM per GPU) or one
  machine type with fixed numbers; the source mixes both shapes in one dictionary.
\<close>

datatype gpu_entry =
    PerGpu int int
  | FixedMachine int int int

definition GPU_MACHINE_SPECS :: "gpu_entry dict" where
  "GPU_MACHINE_SPECS =
    [(''a2-highgpu'', PerGpu 12 85),
     (''a2-ultragpu'', PerGpu 12 170),
     (''a3-highgpu'', PerGpu 26 234),
     (''g4dn.xlarge'', FixedMachine 4 16 1),
     (''p4d.24xlarge'', FixedMachine 96 1152 8),
     (''p4de.24xlarge'', FixedMachine 96 1152 8),
     (''p5.4xlarge'', FixedMachine 16 256 1),
     (''p5.48xlarge'', FixedMachine 192 2048 8)]"

definition GPU_MACHINE_TYPES :: "string dict dict" where
  "GPU_MACHINE_TYPES =
    [(''gcp'',
      [(''A100'', ''a2-highgpu-1g''),
       (''A100_40G'', ''a2-highgpu-1g''),
       (''A100_80G'', ''a2-ultragpu-1g''),
       (''H100'', ''a3-highgpu-1g''),
       (''H100_80G'', ''a3-highgpu-1g'')]),
     (''aws'',
      [(''T4'', ''g4dn.xlarge''),
       (''A100'', ''p4d.24xlarge''),
       (''A100_40G'', ''p4d.24xlarge''),
       (''A100_80G'', ''p4de.24xlarge''),
       (''H100'', ''p5.4xlarge''),
       (''H100_80G'', ''p5.4xlarge'')]),
     (''azure'',
      [])]"

definition GPU_FAMILIES :: "(string \<times> string) dict" where
  "GPU_FAMILIES =
    [(''a2-highgpu'', (''A100'', ''40G'')),
     (''a2-ultragpu'', (''A100'', ''80G'')),
     (''a3-highgpu'', (''H100'', ''80G'')),
     (''g4dn.'', (''T4'', ''16G'')),
     (''p4de.'', (''A100'', ''80G'')),
     (''p4d.'', (''A100'', ''40G'')),
     (''p5.'', (''H100'', ''80G''))]"

section \<open>Machine specifications\<close>

record machine_spec_t =
  cpus :: int
  ram_gb :: int
  gpus :: int

definition mk_spec :: "int \<Rightarrow> int \<Rightarrow> int \<Rightarrow> machine_spec_t" where
  "mk_spec c r g = \<lparr>cpus = c, ram_gb = r, gpus = g\<rparr>"

text \<open>
  \<open>re.compile(r"^Standard_D(\d+)(?:as_v5|s_v[67])$").match\<close>: the digits of group 1. Python's \<open>$\<close>
  also matches before one trailing newline.
\<close>

definition DS_SUFFIXES :: "string list" where
  "DS_SUFFIXES = [''as_v5'', ''s_v6'', ''s_v7'']"

definition ds_match :: "string \<Rightarrow> string option" where
  "ds_match s =
     (if prefix ''Standard_D'' s then
        (let r = drop 10 s; ds = takeWhile is_digit r; t = dropWhile is_digit r
         in if ds \<noteq> [] \<and> (t \<in> set DS_SUFFIXES \<or> t \<in> set (map (\<lambda>x. x @ [CHR 0x0A]) DS_SUFFIXES))
            then Some ds else None)
      else None)"

text \<open>The loop over \<open>_GPU_MACHINE_SPECS.items()\<close>: the first family whose size suffix parses.\<close>

fun gpu_family_spec :: "gpu_entry dict \<Rightarrow> string \<Rightarrow> machine_spec_t option" where
  "gpu_family_spec [] mt = None"
| "gpu_family_spec ((family, FixedMachine c r g) # rest) mt = gpu_family_spec rest mt"
| "gpu_family_spec ((family, PerGpu c r) # rest) mt =
     (if prefix (family @ ''-'') mt then
        (let suffix = after_last CHR ''-'' mt
         in if suffix \<noteq> [] \<and> last suffix = CHR ''g'' \<and> isdigit (butlast suffix)
            then (let g = int_of_digits (butlast suffix) in Some (mk_spec (c * g) (r * g) g))
            else gpu_family_spec rest mt)
      else gpu_family_spec rest mt)"

text \<open>
  A machine type that is exactly a family name reaches \<open>spec["cpus"]\<close> on an entry without that key,
  so the lookup raises \<open>KeyError\<close>; every other unknown name raises \<open>ValueError\<close>.
\<close>

definition machine_spec :: "string \<Rightarrow> machine_spec_t result" where
  "machine_spec mt =
     (if prefix ''n4-standard-'' mt \<and> isdigit (after_last CHR ''-'' mt) then
        (let c = int_of_digits (after_last CHR ''-'' mt) in Inr (mk_spec c (c * 4) 0))
      else case (if prefix ''m7i.'' mt then map_of M7I_SIZE_TO_CPUS (after_last CHR ''.'' mt) else None) of
        Some c \<Rightarrow> Inr (mk_spec c (c * 4) 0)
      | None \<Rightarrow>
     (if mt = ''r7i.16xlarge'' then Inr (mk_spec 64 512 0)
      else case (case ds_match mt of
                   Some ds \<Rightarrow> if int_of_digits ds \<in> set DS_CPU_SIZES then Some (int_of_digits ds) else None
                 | None \<Rightarrow> None) of
        Some c \<Rightarrow> Inr (mk_spec c (c * 4) 0)
      | None \<Rightarrow>
     (case map_of GPU_MACHINE_SPECS mt of
        Some (FixedMachine c r g) \<Rightarrow> Inr (mk_spec c r g)
      | Some (PerGpu _ _) \<Rightarrow> Inl (KeyError ''cpus'')
      | None \<Rightarrow>
     (case gpu_family_spec GPU_MACHINE_SPECS mt of
        Some s \<Rightarrow> Inr s
      | None \<Rightarrow> Inl (ValueError (''Unknown machine type: '' @ mt))))))"

text \<open>\<open>func_cpu\<close> and \<open>func_ram\<close> are a number or the string \<open>"dynamic"\<close>.\<close>

datatype func_res = Dynamic | Fixed int

definition sched_cpu :: "func_res \<Rightarrow> int" where
  "sched_cpu r = (case r of Dynamic \<Rightarrow> 1 | Fixed n \<Rightarrow> n)"

definition sched_ram :: "func_res \<Rightarrow> int" where
  "sched_ram r = (case r of Dynamic \<Rightarrow> 4 | Fixed n \<Rightarrow> n)"

definition parallelism_capacity :: "string \<Rightarrow> func_res \<Rightarrow> func_res \<Rightarrow> int result" where
  "parallelism_capacity mt func_cpu func_ram =
     bind_err (machine_spec mt) (\<lambda>spec.
       if gpus spec > 0 then Inr (gpus spec)
       else if sched_cpu func_cpu = 0 \<or> sched_ram func_ram = 0 then Inl ZeroDivisionError
       else Inr (min (cpus spec div sched_cpu func_cpu) (ram_gb spec div sched_ram func_ram)))"

text \<open>\<open>machine_type_cpu_count\<close> catches \<open>ValueError\<close> only.\<close>

definition machine_type_cpu_count :: "string \<Rightarrow> int result" where
  "machine_type_cpu_count mt =
     (case machine_spec mt of
        Inr spec \<Rightarrow> Inr (cpus spec)
      | Inl (ValueError _) \<Rightarrow> Inr 1
      | Inl e \<Rightarrow> Inl e)"

section \<open>Packing\<close>

text \<open>The sizes a cloud may pack with, largest first, as (name, CPUs) pairs.\<close>

definition pack_sizes :: "string \<Rightarrow> (string \<times> int) list" where
  "pack_sizes cloud_provider =
     (if cloud_provider = ''aws'' then
        map (\<lambda>size. (''m7i.'' @ size, get_or 0 (map_of M7I_SIZE_TO_CPUS size))) AWS_PACK_SIZES
      else if cloud_provider = ''azure'' then
        map (\<lambda>c. (''Standard_D'' @ digits_of_nat c @ ''as_v5'', int c)) AZURE_PACK_SIZES
      else map (\<lambda>c. (''n4-standard-'' @ digits_of_nat c, int c)) GCP_PACK_SIZES)"

text \<open>
  The \<open>while remaining >= largest_cpus\<close> loop. The guard \<open>0 < largest\<close> is true of all three tables
  (lemma \<open>pack_sizes_head\<close>) and makes the recursion total.
\<close>

function pack_largest :: "string \<Rightarrow> int \<Rightarrow> int \<Rightarrow> string list \<times> int" where
  "pack_largest name largest remaining =
     (if 0 < largest \<and> largest \<le> remaining then
        (let (ms, r) = pack_largest name largest (remaining - largest) in (name # ms, r))
      else ([], remaining))"
  by pat_completeness auto
termination
  by (relation "measure (\<lambda>(name, largest, remaining). nat remaining)") auto

declare pack_largest.simps [simp del]

definition smallest_fit :: "(string \<times> int) list \<Rightarrow> int \<Rightarrow> string list" where
  "smallest_fit sizes remaining =
     (if remaining > 0 then
        (case List.find (\<lambda>(name, c). remaining \<le> c) (rev sizes) of
           Some (name, c) \<Rightarrow> [name] | None \<Rightarrow> [])
      else [])"

definition pack_with :: "(string \<times> int) list \<Rightarrow> int \<Rightarrow> string list" where
  "pack_with sizes num_cpus =
     (let (machines, remaining) = pack_largest (fst (hd sizes)) (snd (hd sizes)) num_cpus
      in machines @ smallest_fit sizes remaining)"

definition pack_cpu_machines :: "int \<Rightarrow> string \<Rightarrow> string list" where
  "pack_cpu_machines num_cpus cloud_provider = pack_with (pack_sizes cloud_provider) num_cpus"

definition is_packable_cpu_machine :: "string \<Rightarrow> bool" where
  "is_packable_cpu_machine mt \<longleftrightarrow>
     prefix ''n4-standard-'' mt \<or> prefix ''m7i.'' mt \<or> ds_match mt \<noteq> None"

section \<open>GPUs\<close>

fun gpu_family :: "(string \<times> string) dict \<Rightarrow> string \<Rightarrow> (string \<times> string) option" where
  "gpu_family [] mt = None"
| "gpu_family ((p, mm) # rest) mt = (if prefix p mt then Some mm else gpu_family rest mt)"

definition gpu_model :: "string \<Rightarrow> string option" where
  "gpu_model mt = map_option fst (gpu_family GPU_FAMILIES mt)"

definition gpu_models :: "string \<Rightarrow> string option list result" where
  "gpu_models cloud_provider =
     (case map_of GPU_MACHINE_TYPES cloud_provider of
        None \<Rightarrow> Inl (KeyError cloud_provider)
      | Some types \<Rightarrow> Inr (foldl (\<lambda>models (_, mt).
          if gpu_model mt \<in> set models then models else models @ [gpu_model mt]) [] types))"

definition str_of_int :: "int \<Rightarrow> string" where
  "str_of_int n = (if n < 0 then ''-'' @ digits_of_nat (nat (- n)) else digits_of_nat (nat n))"

definition gpu_display :: "string \<Rightarrow> string option result" where
  "gpu_display mt =
     (case gpu_family GPU_FAMILIES mt of
        None \<Rightarrow> Inr None
      | Some (model, memory) \<Rightarrow> bind_err (machine_spec mt) (\<lambda>spec.
          Inr (Some (str_of_int (gpus spec) @ ''x '' @ model @ '' '' @ memory))))"

definition image_is_gpu_compatible :: "string \<Rightarrow> bool" where
  "image_is_gpu_compatible img =
     (let repository = removeprefix ''docker.io/'' (before_first CHR '':'' img);
          repository = removeprefix ''library/'' repository
      in repository \<notin> set CPU_ONLY_IMAGE_REPOSITORIES)"

definition gpu_machine_type :: "string option \<Rightarrow> string \<Rightarrow> string option result" where
  "gpu_machine_type func_gpu cloud_provider =
     (case func_gpu of
        None \<Rightarrow> Inr None
      | Some g \<Rightarrow>
          (case map_of GPU_MACHINE_TYPES cloud_provider of
             None \<Rightarrow> Inl (KeyError cloud_provider)
           | Some types \<Rightarrow>
               (case map_of types g of
                  None \<Rightarrow> Inl (ValueError (''func_gpu must be one of '' @ str_of_list (sort (map fst types))))
                | Some mt \<Rightarrow> Inr (Some mt))))"

definition gpu_machine_prefix :: "string option \<Rightarrow> string \<Rightarrow> string option result" where
  "gpu_machine_prefix func_gpu cloud_provider =
     bind_err (gpu_machine_type func_gpu cloud_provider) (\<lambda>machine_type.
       case machine_type of
         None \<Rightarrow> Inr None
       | Some mt \<Rightarrow>
           if cloud_provider = ''aws'' then Inr (Some (before_first CHR ''.'' mt @ ''.''))
           else Inr (Some (before_last CHR ''-'' mt @ ''-'')))"

section \<open>Settings\<close>

record machine_option =
  mo_machine_type :: string
  mo_vcpu_count :: int
  mo_memory_bytes :: int
  mo_gpu_count :: int
  mo_gpu_display :: "string option"
  mo_regions :: "string list"

record settings_options_t =
  so_machine_types :: "machine_option list"
  so_regions :: "string list"
  so_cpu_only_image_repositories :: "string list"
  so_gpu_models :: "string option list"
  so_constraints :: "(int \<times> int) dict"

definition machine_regions :: "string \<Rightarrow> string list \<Rightarrow> string \<Rightarrow> string list" where
  "machine_regions cloud_provider all_regions mt =
     (case List.find (\<lambda>(p, regions). prefix p mt) (get_or [] (map_of GPU_REGIONS cloud_provider)) of
        Some (p, regions) \<Rightarrow> regions
      | None \<Rightarrow> all_regions)"

definition machine_option_of :: "string \<Rightarrow> string list \<Rightarrow> string \<Rightarrow> machine_option result" where
  "machine_option_of cloud_provider all_regions mt =
     bind_err (machine_spec mt) (\<lambda>spec. bind_err (gpu_display mt) (\<lambda>disp.
       Inr \<lparr>mo_machine_type = mt, mo_vcpu_count = cpus spec,
            mo_memory_bytes = ram_gb spec * 1024 ^ 3, mo_gpu_count = gpus spec,
            mo_gpu_display = disp,
            mo_regions = machine_regions cloud_provider all_regions mt\<rparr>))"

definition SETTINGS_CONSTRAINTS :: "(int \<times> int) dict" where
  "SETTINGS_CONSTRAINTS =
    [(''quantity'', (1, 1000)),
     (''disk_gb'', (10, 2000)),
     (''inactivity_timeout_seconds'', (0, 86400)),
     (''max_vcpus'', (0, 100000)),
     (''max_gpus'', (0, 10000))]"

definition settings_options :: "string \<Rightarrow> settings_options_t result" where
  "settings_options cloud_provider =
     (case map_of SETTINGS_MACHINE_TYPES cloud_provider of
        None \<Rightarrow> Inl (KeyError cloud_provider)
      | Some types \<Rightarrow>
     (case map_of SETTINGS_REGIONS cloud_provider of
        None \<Rightarrow> Inl (KeyError cloud_provider)
      | Some regions \<Rightarrow>
          bind_err (map_err (machine_option_of cloud_provider regions) types) (\<lambda>machines.
          bind_err (gpu_models cloud_provider) (\<lambda>models.
            Inr \<lparr>so_machine_types = machines, so_regions = regions,
                 so_cpu_only_image_repositories = CPU_ONLY_IMAGE_REPOSITORIES,
                 so_gpu_models = models, so_constraints = SETTINGS_CONSTRAINTS\<rparr>))))"

definition on_demand_hourly_usd :: "string \<Rightarrow> real option" where
  "on_demand_hourly_usd mt = map_of ON_DEMAND_HOURLY_USD mt"

section \<open>The tables agree\<close>

definition spec_cpus :: "string \<Rightarrow> int" where
  "spec_cpus mt = (case machine_spec mt of Inr s \<Rightarrow> cpus s | Inl _ \<Rightarrow> 0)"

definition total_cpus :: "string list \<Rightarrow> int" where
  "total_cpus ms = (\<Sum>m\<leftarrow>ms. spec_cpus m)"

lemma total_cpus_simps [simp]:
  "total_cpus [] = 0" "total_cpus (m # ms) = spec_cpus m + total_cpus ms"
  "total_cpus (xs @ ys) = total_cpus xs + total_cpus ys"
  by (simp_all add: total_cpus_def)

lemma total_cpus_replicate [simp]: "total_cpus (replicate n m) = int n * spec_cpus m"
  by (induction n) (simp_all add: algebra_simps)

text \<open>A machine never has a negative number of anything.\<close>

lemma int_of_digits_nonneg: "list_all is_digit s \<Longrightarrow> 0 \<le> int_of_digits s"
proof -
  have "list_all is_digit s \<Longrightarrow> 0 \<le> n \<Longrightarrow> 0 \<le> foldl (\<lambda>n c. 10 * n + (of_char c - 48)) n s" for n :: int
  proof (induction s arbitrary: n)
    case (Cons c s)
    have "int (of_char c) = (of_char c :: int)" by (rule of_nat_of_char)
    moreover have "48 \<le> (of_char c :: nat)" using Cons.prems(1) by (simp add: is_digit_def)
    ultimately have "(48::int) \<le> of_char c" by linarith
    with Cons show ?case by simp
  qed simp
  then show "list_all is_digit s \<Longrightarrow> 0 \<le> int_of_digits s" by (simp add: int_of_digits_def)
qed

lemma gpu_family_spec_nonneg:
  "list_all (\<lambda>(k, e). case e of PerGpu c r \<Rightarrow> 0 \<le> c \<and> 0 \<le> r | FixedMachine c r g \<Rightarrow> True) tab \<Longrightarrow>
     gpu_family_spec tab mt = Some s \<Longrightarrow> 0 \<le> cpus s \<and> 0 \<le> ram_gb s \<and> 0 \<le> gpus s"
  by (induction tab mt rule: gpu_family_spec.induct)
    (auto simp: Let_def mk_spec_def isdigit_def int_of_digits_nonneg split: if_splits)

lemma table_values_nonneg:
  "list_all (\<lambda>(k, c). 0 \<le> c) M7I_SIZE_TO_CPUS"
  "list_all (\<lambda>c. 0 \<le> c) DS_CPU_SIZES"
  "list_all (\<lambda>(k, e). case e of PerGpu c r \<Rightarrow> 0 \<le> c \<and> 0 \<le> r | FixedMachine c r g \<Rightarrow> True)
     GPU_MACHINE_SPECS"
  "list_all (\<lambda>(k, e). case e of PerGpu c r \<Rightarrow> True | FixedMachine c r g \<Rightarrow> 0 \<le> c \<and> 0 \<le> r \<and> 0 \<le> g)
     GPU_MACHINE_SPECS"
  by code_simp+

lemma machine_spec_nonneg:
  assumes "machine_spec mt = Inr s"
  shows "0 \<le> cpus s \<and> 0 \<le> ram_gb s \<and> 0 \<le> gpus s"
proof -
  have m7: "map_of M7I_SIZE_TO_CPUS k = Some c \<Longrightarrow> 0 \<le> c" for k c
    using table_values_nonneg(1) by (auto simp: list_all_iff dest: map_of_SomeD)
  have gp: "map_of GPU_MACHINE_SPECS k = Some (FixedMachine c r g) \<Longrightarrow> 0 \<le> c \<and> 0 \<le> r \<and> 0 \<le> g" for k c r g
    using table_values_nonneg(4) by (force simp: list_all_iff dest: map_of_SomeD)
  have ds: "c \<in> set DS_CPU_SIZES \<Longrightarrow> 0 \<le> c" for c
    using table_values_nonneg(2) by (auto simp: list_all_iff)
  let ?m7 = "if prefix ''m7i.'' mt then map_of M7I_SIZE_TO_CPUS (after_last CHR ''.'' mt) else None"
  let ?ds = "case ds_match mt of
       Some ds \<Rightarrow> if int_of_digits ds \<in> set DS_CPU_SIZES then Some (int_of_digits ds) else None
     | None \<Rightarrow> None"
  have dsm: "?ds = Some c \<Longrightarrow> 0 \<le> c" for c
    by (auto split: option.splits if_splits intro: ds)
  have m7m: "?m7 = Some c \<Longrightarrow> 0 \<le> c" for c
    by (auto split: if_splits intro: m7)
  note def = assms [unfolded machine_spec_def Let_def mk_spec_def]
  consider (n4) "prefix ''n4-standard-'' mt" "isdigit (after_last CHR ''-'' mt)"
    | (no) "\<not> (prefix ''n4-standard-'' mt \<and> isdigit (after_last CHR ''-'' mt))" by blast
  then show ?thesis
  proof cases
    case n4
    then have "0 \<le> int_of_digits (after_last CHR ''-'' mt)"
      by (simp add: isdigit_def int_of_digits_nonneg)
    then show ?thesis using def n4 by auto
  next
    case no
    note def1 = def [unfolded if_not_P [OF no]]
    show ?thesis
    proof (cases ?m7)
      case (Some c)
      then show ?thesis using def1 m7m [OF Some] by (simp only: option.case sum.inject) auto
    next
      case None
      note def2 = def1 [unfolded None option.case]
      show ?thesis
      proof (cases "mt = ''r7i.16xlarge''")
        case True
        then show ?thesis using def2 by auto
      next
        case False
        note def3 = def2 [unfolded if_not_P [OF False]]
        show ?thesis
        proof (cases ?ds)
          case (Some c)
          then show ?thesis using def3 dsm [OF Some] by (simp only: option.case sum.inject) auto
        next
          case None
          note def4 = def3 [unfolded None option.case]
          then show ?thesis
            by (auto split: option.splits gpu_entry.splits
                dest: gp gpu_family_spec_nonneg [OF table_values_nonneg(3)])
        qed
      qed
    qed
  qed
qed

lemma spec_cpus_nonneg: "0 \<le> spec_cpus mt"
  using machine_spec_nonneg [of mt] by (auto simp: spec_cpus_def split: sum.splits)

text \<open>The three packing tables, evaluated.\<close>

lemma pack_sizes_gcp:
  "pack_sizes ''gcp'' =
     [(''n4-standard-80'', 80), (''n4-standard-64'', 64), (''n4-standard-32'', 32),
      (''n4-standard-16'', 16), (''n4-standard-8'', 8), (''n4-standard-4'', 4),
      (''n4-standard-2'', 2)]"
  by code_simp

lemma pack_sizes_aws:
  "pack_sizes ''aws'' =
     [(''m7i.16xlarge'', 64), (''m7i.8xlarge'', 32), (''m7i.4xlarge'', 16), (''m7i.2xlarge'', 8),
      (''m7i.xlarge'', 4), (''m7i.large'', 2)]"
  by code_simp

lemma pack_sizes_azure:
  "pack_sizes ''azure'' =
     [(''Standard_D64as_v5'', 64), (''Standard_D32as_v5'', 32), (''Standard_D16as_v5'', 16),
      (''Standard_D8as_v5'', 8), (''Standard_D4as_v5'', 4), (''Standard_D2as_v5'', 2)]"
  by code_simp

lemma pack_sizes_default: "p \<noteq> ''aws'' \<Longrightarrow> p \<noteq> ''azure'' \<Longrightarrow> pack_sizes p = pack_sizes ''gcp''"
  by (simp add: pack_sizes_def)

lemma pack_table_specs:
  "list_all (\<lambda>p. list_all (\<lambda>(name, c). machine_spec name = Inr (mk_spec c (c * 4) 0)
      \<and> is_packable_cpu_machine name \<and> 0 < c) (pack_sizes p)) [''gcp'', ''aws'', ''azure'']"
  by code_simp

lemma pack_sizes_spec:
  assumes "(name, c) \<in> set (pack_sizes p)"
  shows "machine_spec name = Inr (mk_spec c (c * 4) 0)" "is_packable_cpu_machine name"
    "spec_cpus name = c \<and> 0 < c"
proof -
  from pack_table_specs
  have t: "\<And>q. q \<in> {''gcp'', ''aws'', ''azure''} \<Longrightarrow> (name, c) \<in> set (pack_sizes q) \<Longrightarrow>
      machine_spec name = Inr (mk_spec c (c * 4) 0) \<and> is_packable_cpu_machine name \<and> 0 < c"
    by (auto simp: list_all_iff)
  have "machine_spec name = Inr (mk_spec c (c * 4) 0) \<and> is_packable_cpu_machine name \<and> 0 < c"
    using assms t [of p] t [of "''gcp''"] pack_sizes_default [of p] by fastforce
  then show "machine_spec name = Inr (mk_spec c (c * 4) 0)" "is_packable_cpu_machine name"
    "spec_cpus name = c \<and> 0 < c"
    by (simp_all add: spec_cpus_def mk_spec_def)
qed

section \<open>Packing covers the request\<close>

lemma pack_largest_eq:
  "0 < c \<Longrightarrow> 0 \<le> n \<Longrightarrow> pack_largest name c n = (replicate (nat (n div c)) name, n mod c)"
proof (induction name c n rule: pack_largest.induct)
  case (1 name c n)
  show ?case
  proof (cases "c \<le> n")
    case True
    have "n div c = (n - c) div c + 1" "n mod c = (n - c) mod c"
      using "1.prems" by (simp_all add: div_add_self2 [of c "n - c", simplified])
    moreover have "0 \<le> (n - c) div c" using True "1.prems" by (simp add: pos_imp_zdiv_nonneg_iff)
    ultimately show ?thesis
      using "1.IH" "1.prems" True
      by (subst pack_largest.simps) (simp add: Let_def nat_add_distrib)
  next
    case False
    then show ?thesis using "1.prems" by (subst pack_largest.simps) simp
  qed
qed

text \<open>
  The contract a size table has to meet: its names have the CPUs it says, and the smallest size that
  fits a remainder is at most twice the remainder. Every table that meets it packs tightly.
\<close>

locale size_table =
  fixes sizes :: "(string \<times> int) list"
  assumes nonempty: "sizes \<noteq> []"
    and specs: "(name, c) \<in> set sizes \<Longrightarrow> spec_cpus name = c \<and> 0 < c"
    and tight_fit: "0 < r \<Longrightarrow> r < snd (hd sizes) \<Longrightarrow>
      \<exists>name c. List.find (\<lambda>(name, c). r \<le> c) (rev sizes) = Some (name, c) \<and> c \<le> 2 * r"
begin

lemma head_spec: "spec_cpus (fst (hd sizes)) = snd (hd sizes)" "0 < snd (hd sizes)"
  using specs [of "fst (hd sizes)" "snd (hd sizes)"] nonempty by simp_all

lemma find_in_table:
  "List.find p (rev sizes) = Some (name, c) \<Longrightarrow> (name, c) \<in> set sizes \<and> p (name, c)"
  by (auto simp: find_Some_iff) (metis nth_mem set_rev length_rev)

lemma smallest_fit_cases: "smallest_fit sizes r = [] \<or> (\<exists>p \<in> set sizes. smallest_fit sizes r = [fst p])"
proof (cases "List.find (\<lambda>(name, c). r \<le> c) (rev sizes)")
  case (Some nc)
  obtain name c where nc: "nc = (name, c)" by (cases nc)
  with Some have "(name, c) \<in> set sizes" using find_in_table by blast
  then show ?thesis using Some nc by (cases "0 < r") (force simp: smallest_fit_def)+
qed (simp add: smallest_fit_def)

lemma smallest_fit_set: "set (smallest_fit sizes r) \<subseteq> fst ` set sizes"
  using smallest_fit_cases [of r] by (auto intro: rev_image_eqI)

lemma smallest_fit_cpus:
  assumes "0 \<le> r" "r < snd (hd sizes)"
  shows "r \<le> total_cpus (smallest_fit sizes r) \<and> total_cpus (smallest_fit sizes r) \<le> 2 * r"
proof (cases "r > 0")
  case True
  then obtain name c where f: "List.find (\<lambda>(name, c). r \<le> c) (rev sizes) = Some (name, c)"
    and c: "c \<le> 2 * r" using tight_fit assms by blast
  from find_in_table [OF f] specs have "spec_cpus name = c" "r \<le> c" by auto
  with True f c show ?thesis by (simp add: smallest_fit_def)
qed (use assms in \<open>simp add: smallest_fit_def\<close>)

lemma pack_with_eq:
  "0 \<le> n \<Longrightarrow> pack_with sizes n =
     replicate (nat (n div snd (hd sizes))) (fst (hd sizes)) @ smallest_fit sizes (n mod snd (hd sizes))"
  using head_spec by (simp add: pack_with_def pack_largest_eq)

lemma pack_with_set: "0 \<le> n \<Longrightarrow> set (pack_with sizes n) \<subseteq> fst ` set sizes"
  using smallest_fit_set nonempty
  by (auto simp: pack_with_eq)

lemma pack_with_cpus:
  assumes "0 \<le> n"
  shows "n \<le> total_cpus (pack_with sizes n)" "total_cpus (pack_with sizes n) \<le> 2 * n"
proof -
  let ?L = "snd (hd sizes)" and ?r = "n mod snd (hd sizes)"
  have L: "0 < ?L" by (rule head_spec)
  have dm: "n = n div ?L * ?L + ?r" by simp
  have q: "0 \<le> n div ?L" using assms L by (simp add: pos_imp_zdiv_nonneg_iff)
  have r: "0 \<le> ?r" "?r < ?L" using L by simp_all
  note fit = smallest_fit_cpus [OF r]
  have tot: "total_cpus (pack_with sizes n) = n div ?L * ?L + total_cpus (smallest_fit sizes ?r)"
    using assms q head_spec by (simp add: pack_with_eq)
  have nn: "0 \<le> n div ?L * ?L" using q L by simp
  show "n \<le> total_cpus (pack_with sizes n)" using tot fit dm by linarith
  show "total_cpus (pack_with sizes n) \<le> 2 * n" using tot fit dm nn by linarith
qed

end

interpretation gcp_table: size_table "pack_sizes ''gcp''"
proof (rule size_table.intro)
  show "pack_sizes ''gcp'' \<noteq> []" by (simp add: pack_sizes_gcp)
  show "\<And>name c. (name, c) \<in> set (pack_sizes ''gcp'') \<Longrightarrow> spec_cpus name = c \<and> 0 < c"
    by (rule pack_sizes_spec(3))
  fix r :: int
  assume "0 < r" "r < snd (hd (pack_sizes ''gcp''))"
  then show "\<exists>name c. List.find (\<lambda>(name, c). r \<le> c) (rev (pack_sizes ''gcp'')) = Some (name, c) \<and>
      c \<le> 2 * r"
    by (simp add: pack_sizes_gcp)
qed

interpretation aws_table: size_table "pack_sizes ''aws''"
proof (rule size_table.intro)
  show "pack_sizes ''aws'' \<noteq> []" by (simp add: pack_sizes_aws)
  show "\<And>name c. (name, c) \<in> set (pack_sizes ''aws'') \<Longrightarrow> spec_cpus name = c \<and> 0 < c"
    by (rule pack_sizes_spec(3))
  fix r :: int
  assume "0 < r" "r < snd (hd (pack_sizes ''aws''))"
  then show "\<exists>name c. List.find (\<lambda>(name, c). r \<le> c) (rev (pack_sizes ''aws'')) = Some (name, c) \<and>
      c \<le> 2 * r"
    by (simp add: pack_sizes_aws)
qed

interpretation azure_table: size_table "pack_sizes ''azure''"
proof (rule size_table.intro)
  show "pack_sizes ''azure'' \<noteq> []" by (simp add: pack_sizes_azure)
  show "\<And>name c. (name, c) \<in> set (pack_sizes ''azure'') \<Longrightarrow> spec_cpus name = c \<and> 0 < c"
    by (rule pack_sizes_spec(3))
  fix r :: int
  assume "0 < r" "r < snd (hd (pack_sizes ''azure''))"
  then show "\<exists>name c. List.find (\<lambda>(name, c). r \<le> c) (rev (pack_sizes ''azure'')) = Some (name, c) \<and>
      c \<le> 2 * r"
    by (simp add: pack_sizes_azure)
qed

end
