(* ===== verification/Scaling.thy ===== *)
theory Scaling
  imports Catalog
begin

text \<open>
  Machine planning, \<open>scaling.py\<close>: how "N more slots" becomes a list of machines to boot. The module
  constants \<open>CLOUD_PROVIDER\<close> and \<open>IN_LOCAL_DEV_MODE\<close> are the fields of \<open>head_env\<close>; \<open>uuid4\<close> is a
  parameter, a supply of hex names read once per planned node. \<open>max_additional_cpus\<close> and
  \<open>max_additional_gpus\<close> are budgets, \<open>None\<close> for "uncapped".
\<close>

record head_env =
  CLOUD_PROVIDER :: string
  IN_LOCAL_DEV_MODE :: bool

text \<open>One entry of the cluster configuration's \<open>"Nodes"\<close> list, and the configuration.\<close>

record node_spec =
  ns_machine_type :: string
  ns_gcp_region :: "string option"
  ns_quantity :: int
  ns_disk_size_gb :: "int option"
  ns_inactivity_shutdown_time_sec :: "int option"
  ns_images :: "string list"

record cluster_config =
  cfg_nodes :: "node_spec list"
  cfg_max_vcpus :: "int option"
  cfg_max_gpus :: "int dict option"

record planned_node =
  pl_instance_name :: string
  pl_machine_type :: string
  pl_target_parallelism :: int

section \<open>The planner\<close>

definition required_cpus_per_call :: "func_res \<Rightarrow> func_res \<Rightarrow> int" where
  "required_cpus_per_call func_cpu func_ram =
     max (sched_cpu func_cpu) ((sched_ram func_ram + 3) div 4)"

definition planned_name :: "(nat \<Rightarrow> string) \<Rightarrow> nat \<Rightarrow> string" where
  "planned_name uuid i = ''burla-node-'' @ take 8 (uuid i)"

text \<open>
  The loop of the measured-capacity branch: \<open>for nodes_left in range(n_nodes, 0, -1)\<close>, each node
  taking the ceiling of its share of what remains.
\<close>

fun spread_slots :: "(nat \<Rightarrow> string) \<Rightarrow> string \<Rightarrow> nat \<Rightarrow> nat \<Rightarrow> int \<Rightarrow> planned_node list" where
  "spread_slots uuid mt i 0 remaining = []"
| "spread_slots uuid mt i (Suc k) remaining =
     (let p = ceil_div remaining (int (Suc k))
      in \<lparr>pl_instance_name = planned_name uuid i, pl_machine_type = mt,
          pl_target_parallelism = p\<rparr> # spread_slots uuid mt (Suc i) k (remaining - p))"

definition plan_by_slots ::
  "(nat \<Rightarrow> string) \<Rightarrow> int \<Rightarrow> int option \<Rightarrow> int \<Rightarrow> string \<Rightarrow> planned_node list result" where
  "plan_by_slots uuid missing_slots max_additional_cpus slots_per_node mt =
     (let n_nodes = ceil_div missing_slots slots_per_node
      in case max_additional_cpus of
           None \<Rightarrow> Inr (spread_slots uuid mt 0 (nat n_nodes) missing_slots)
         | Some budget \<Rightarrow> bind_err (machine_type_cpu_count mt) (\<lambda>c.
             if c = 0 then Inl ZeroDivisionError
             else Inr (spread_slots uuid mt 0 (nat (min n_nodes (max 0 budget div c))) missing_slots)))"

text \<open>The last loop: each machine takes what it can run of the parallelism still to place.\<close>

fun assign_slots ::
  "(nat \<Rightarrow> string) \<Rightarrow> func_res \<Rightarrow> func_res \<Rightarrow> nat \<Rightarrow> string list \<Rightarrow> int \<Rightarrow> planned_node list result" where
  "assign_slots uuid fc fr i [] remaining = Inr []"
| "assign_slots uuid fc fr i (mt # mts) remaining =
     bind_err (parallelism_capacity mt fc fr) (\<lambda>cap.
       let p = min remaining cap
       in bind_err (assign_slots uuid fc fr (Suc i) mts (remaining - p)) (\<lambda>rest.
            Inr (\<lparr>pl_instance_name = planned_name uuid i, pl_machine_type = mt,
                  pl_target_parallelism = p\<rparr> # rest)))"

definition fits_a_call :: "func_res \<Rightarrow> func_res \<Rightarrow> string \<Rightarrow> bool result" where
  "fits_a_call fc fr mt = bind_err (parallelism_capacity mt fc fr) (\<lambda>cap. Inr (cap > 0))"

definition place_on_machines ::
  "(nat \<Rightarrow> string) \<Rightarrow> func_res \<Rightarrow> func_res \<Rightarrow> string list \<Rightarrow> int \<Rightarrow> planned_node list result" where
  "place_on_machines uuid fc fr node_machine_types parallelism_to_add =
     bind_err (filter_err (fits_a_call fc fr) node_machine_types) (\<lambda>mts.
       if mts = [] then Inr [] else assign_slots uuid fc fr 0 mts parallelism_to_add)"

definition plan_gpu_nodes ::
  "(nat \<Rightarrow> string) \<Rightarrow> int \<Rightarrow> func_res \<Rightarrow> func_res \<Rightarrow> int option \<Rightarrow> string \<Rightarrow> planned_node list result" where
  "plan_gpu_nodes uuid missing_slots fc fr max_additional_gpus gpu_mt =
     bind_err (parallelism_capacity gpu_mt fc fr) (\<lambda>per_node.
       if per_node = 0 then Inl ZeroDivisionError
       else
         (let n = ceil_div missing_slots per_node;
              n_nodes = (case max_additional_gpus of
                           None \<Rightarrow> n | Some b \<Rightarrow> min n (max 0 b div per_node))
          in if n_nodes \<le> 0 then Inr []
             else place_on_machines uuid fc fr (replicate (nat n_nodes) gpu_mt)
                    (min missing_slots (n_nodes * per_node))))"

text \<open>The machines of a CPU plan: packed from the family's sizes, or all of the configured type.\<close>

definition cpu_machines :: "head_env \<Rightarrow> string \<Rightarrow> int \<Rightarrow> string list result" where
  "cpu_machines env configured num_cpus_to_add =
     (if \<not> IN_LOCAL_DEV_MODE env \<and> is_packable_cpu_machine configured
      then Inr (pack_cpu_machines num_cpus_to_add (CLOUD_PROVIDER env))
      else bind_err (machine_type_cpu_count configured) (\<lambda>cpu_per_node.
        if cpu_per_node = 0 then Inl ZeroDivisionError
        else Inr (replicate (nat (ceil_div num_cpus_to_add cpu_per_node)) configured)))"

definition cpus_to_add :: "int \<Rightarrow> int \<Rightarrow> int option \<Rightarrow> int" where
  "cpus_to_add missing_slots cpus_per_call max_additional_cpus =
     (case max_additional_cpus of
        None \<Rightarrow> missing_slots * cpus_per_call
      | Some b \<Rightarrow> min (missing_slots * cpus_per_call) (max 0 b))"

definition plan_cpu_nodes ::
  "head_env \<Rightarrow> (nat \<Rightarrow> string) \<Rightarrow> int \<Rightarrow> func_res \<Rightarrow> func_res \<Rightarrow> cluster_config \<Rightarrow> int option
    \<Rightarrow> planned_node list result" where
  "plan_cpu_nodes env uuid missing_slots fc fr config max_additional_cpus =
     (let cpus_per_call = required_cpus_per_call fc fr;
          num_cpus_to_add = cpus_to_add missing_slots cpus_per_call max_additional_cpus
      in if cpus_per_call = 0 then Inl ZeroDivisionError
         else
           (let parallelism_to_add = num_cpus_to_add div cpus_per_call
            in if parallelism_to_add \<le> 0 then Inr []
               else case cfg_nodes config of
                 [] \<Rightarrow> Inl IndexError
               | node_spec # _ \<Rightarrow>
                   bind_err (cpu_machines env (ns_machine_type node_spec) num_cpus_to_add) (\<lambda>mts.
                     place_on_machines uuid fc fr mts parallelism_to_add)))"

definition plan_grow_nodes ::
  "head_env \<Rightarrow> (nat \<Rightarrow> string) \<Rightarrow> int \<Rightarrow> func_res \<Rightarrow> func_res \<Rightarrow> string option \<Rightarrow> cluster_config
    \<Rightarrow> int option \<Rightarrow> int option \<Rightarrow> int option \<Rightarrow> string \<Rightarrow> planned_node list result" where
  "plan_grow_nodes env uuid missing_slots fc fr func_gpu config max_additional_cpus
     max_additional_gpus slots_per_node mt =
     bind_err (gpu_machine_type func_gpu (CLOUD_PROVIDER env)) (\<lambda>gpu_mt.
       if get_or 0 slots_per_node \<noteq> 0
       then plan_by_slots uuid missing_slots max_additional_cpus (get_or 0 slots_per_node) mt
       else if truthy gpu_mt
       then plan_gpu_nodes uuid missing_slots fc fr max_additional_gpus (the gpu_mt)
       else plan_cpu_nodes env uuid missing_slots fc fr config max_additional_cpus)"

definition planned_cpu_count :: "planned_node list \<Rightarrow> int result" where
  "planned_cpu_count planned =
     bind_err (map_err (\<lambda>p. machine_type_cpu_count (pl_machine_type p)) planned)
       (\<lambda>cs. Inr (sum_list cs))"

definition planned_gpu_count :: "planned_node list \<Rightarrow> int result" where
  "planned_gpu_count planned =
     bind_err (map_err (\<lambda>p. bind_err (machine_spec (pl_machine_type p)) (\<lambda>s. Inr (gpus s))) planned)
       (\<lambda>gs. Inr (sum_list gs))"

section \<open>What a plan promises\<close>

definition plan_slots :: "planned_node list \<Rightarrow> int" where
  "plan_slots ps = (\<Sum>p\<leftarrow>ps. pl_target_parallelism p)"

lemma plan_slots_simps [simp]:
  "plan_slots [] = 0" "plan_slots (p # ps) = pl_target_parallelism p + plan_slots ps"
  by (simp_all add: plan_slots_def)

lemma spread_slots_length [simp]: "length (spread_slots uuid mt i k r) = k"
  by (induction k arbitrary: i r) (simp_all add: Let_def)

text \<open>Spreading hands out every slot, and no two nodes differ by more than one.\<close>

lemma spread_slots_total: "0 < k \<Longrightarrow> plan_slots (spread_slots uuid mt i k r) = r"
proof (induction k arbitrary: i r)
  case (Suc k)
  show ?case
  proof (cases "k = 0")
    case True
    then show ?thesis by (simp add: ceil_div_def)
  next
    case False
    then show ?thesis using Suc.IH by (simp add: Let_def)
  qed
qed simp

lemma spread_slots_bounds:
  assumes "p \<in> set (spread_slots uuid mt i k r)" "int k * lo \<le> r" "r \<le> int k * hi"
  shows "lo \<le> pl_target_parallelism p \<and> pl_target_parallelism p \<le> hi"
  using assms
proof (induction k arbitrary: i r)
  case (Suc k)
  let ?q = "ceil_div r (int (Suc k))"
  have pos: "(0::int) < int (Suc k)" by simp
  have up: "?q \<le> hi"
    using ceil_div_least [OF pos, of r hi] Suc.prems(3) by (simp add: mult.commute)
  have lo: "lo \<le> ?q"
  proof (rule ccontr)
    assume "\<not> lo \<le> ?q"
    then have "?q * int (Suc k) < lo * int (Suc k)"
      by (intro mult_strict_right_mono) simp_all
    also have "\<dots> \<le> r" using Suc.prems(2) by (simp add: mult.commute)
    finally show False using ceil_div_upper [OF pos, of r] by simp
  qed
  have l: "(?q - 1) * int (Suc k) < r" by (rule ceil_div_lower [OF pos])
  have u: "r \<le> ?q * int (Suc k)" by (rule ceil_div_upper [OF pos])
  have rest_hi: "r - ?q \<le> int k * hi"
  proof -
    have "r - ?q \<le> ?q * int k" using u by (simp add: algebra_simps)
    also have "\<dots> \<le> hi * int k" by (rule mult_right_mono [OF up]) simp
    finally show ?thesis by (simp add: mult.commute)
  qed
  have rest_lo: "int k * lo \<le> r - ?q"
  proof (cases "lo = ?q")
    case True
    then show ?thesis using Suc.prems(2) by (simp add: algebra_simps)
  next
    case False
    with lo have "lo \<le> ?q - 1" by simp
    then have "int k * lo \<le> int k * (?q - 1)" by (rule mult_left_mono) simp
    also have "\<dots> \<le> r - ?q" using l by (simp add: algebra_simps)
    finally show ?thesis .
  qed
  show ?case
    using Suc.prems(1) Suc.IH [OF _ rest_lo rest_hi] up lo by (auto simp: Let_def)
qed simp

text \<open>The placement loop never hands out more than it was given or than a machine can run.\<close>

lemma assign_slots_machines:
  "assign_slots uuid fc fr i mts r = Inr ps \<Longrightarrow> map pl_machine_type ps = mts"
  by (induction mts arbitrary: i r ps) (auto simp: bind_err_eq_Inr Let_def)

lemma assign_slots_capacity:
  "assign_slots uuid fc fr i mts r = Inr ps \<Longrightarrow> p \<in> set ps \<Longrightarrow>
     \<exists>cap. parallelism_capacity (pl_machine_type p) fc fr = Inr cap \<and> pl_target_parallelism p \<le> cap"
  by (induction mts arbitrary: i r ps) (auto simp: bind_err_eq_Inr Let_def)

lemma assign_slots_bounds:
  assumes "assign_slots uuid fc fr i mts r = Inr ps" "0 \<le> r"
    "\<forall>mt \<in> set mts. fits_a_call fc fr mt = Inr True"
  shows "plan_slots ps \<le> r \<and> (\<forall>p \<in> set ps. 0 \<le> pl_target_parallelism p)"
  using assms
proof (induction mts arbitrary: i r ps)
  case (Cons mt mts)
  from Cons.prems(1) obtain cap rest where cap: "parallelism_capacity mt fc fr = Inr cap"
    and rest: "assign_slots uuid fc fr (Suc i) mts (r - min r cap) = Inr rest"
    and ps: "ps = \<lparr>pl_instance_name = planned_name uuid i, pl_machine_type = mt,
        pl_target_parallelism = min r cap\<rparr> # rest"
    by (auto simp: bind_err_eq_Inr Let_def)
  have "0 < cap" using Cons.prems(3) cap by (auto simp: fits_a_call_def bind_err_eq_Inr)
  then show ?case using Cons.IH [OF rest] Cons.prems ps by auto
qed simp

text \<open>When the machines can run everything, everything is placed.\<close>

definition capacity_sum :: "func_res \<Rightarrow> func_res \<Rightarrow> string list \<Rightarrow> int" where
  "capacity_sum fc fr mts =
     (\<Sum>mt\<leftarrow>mts. case parallelism_capacity mt fc fr of Inr c \<Rightarrow> c | Inl _ \<Rightarrow> 0)"

lemma capacity_sum_simps [simp]:
  "capacity_sum fc fr [] = 0"
  "capacity_sum fc fr (mt # mts) =
     (case parallelism_capacity mt fc fr of Inr c \<Rightarrow> c | Inl _ \<Rightarrow> 0) + capacity_sum fc fr mts"
  by (simp_all add: capacity_sum_def)

lemma assign_slots_total:
  assumes "assign_slots uuid fc fr i mts r = Inr ps" "0 \<le> r"
    "\<forall>mt \<in> set mts. fits_a_call fc fr mt = Inr True"
  shows "plan_slots ps = min r (capacity_sum fc fr mts)"
  using assms
proof (induction mts arbitrary: i r ps)
  case (Cons mt mts)
  from Cons.prems(1) obtain cap rest where cap: "parallelism_capacity mt fc fr = Inr cap"
    and rest: "assign_slots uuid fc fr (Suc i) mts (r - min r cap) = Inr rest"
    and ps: "ps = \<lparr>pl_instance_name = planned_name uuid i, pl_machine_type = mt,
        pl_target_parallelism = min r cap\<rparr> # rest"
    by (auto simp: bind_err_eq_Inr Let_def)
  have "0 < cap" using Cons.prems(3) cap by (auto simp: fits_a_call_def bind_err_eq_Inr)
  moreover have "0 \<le> capacity_sum fc fr mts"
    using Cons.prems(3) unfolding capacity_sum_def
    by (intro sum_list_nonneg) (auto simp: fits_a_call_def bind_err_eq_Inr)
  ultimately show ?case using Cons.IH [OF rest] Cons.prems(2,3) cap ps by (auto simp: min_def)
qed simp

text \<open>A machine the filter drops can run nothing, so dropping it costs no capacity.\<close>

lemma parallelism_capacity_nonneg:
  "parallelism_capacity mt fc fr = Inr c \<Longrightarrow> 0 < sched_cpu fc \<Longrightarrow> 0 < sched_ram fr \<Longrightarrow> 0 \<le> c"
  using machine_spec_nonneg [of mt]
  by (auto simp: parallelism_capacity_def bind_err_eq_Inr pos_imp_zdiv_nonneg_iff split: if_splits)

lemma filter_fits_capacity:
  assumes "filter_err (fits_a_call fc fr) mts = Inr ms" "0 < sched_cpu fc" "0 < sched_ram fr"
  shows "capacity_sum fc fr ms = capacity_sum fc fr mts"
  using assms(1)
proof (induction mts arbitrary: ms)
  case (Cons mt mts)
  then obtain b ys where b: "fits_a_call fc fr mt = Inr b"
    and ys: "filter_err (fits_a_call fc fr) mts = Inr ys" and ms: "ms = (if b then mt # ys else ys)"
    by (auto simp: bind_err_eq_Inr)
  from b obtain cap where cap: "parallelism_capacity mt fc fr = Inr cap" "b = (cap > 0)"
    by (auto simp: fits_a_call_def bind_err_eq_Inr)
  with parallelism_capacity_nonneg assms(2,3) have "0 \<le> cap" by blast
  with Cons.IH [OF ys] cap ms show ?case by auto
qed simp

lemma filter_fits_cpus:
  "filter_err (fits_a_call fc fr) mts = Inr ms \<Longrightarrow> total_cpus ms \<le> total_cpus mts"
proof (induction mts arbitrary: ms)
  case (Cons mt mts)
  then obtain b ys where "filter_err (fits_a_call fc fr) mts = Inr ys"
    and "ms = (if b then mt # ys else ys)"
    by (auto simp: bind_err_eq_Inr)
  with Cons.IH [of ys] spec_cpus_nonneg [of mt] show ?case by auto
qed simp

lemma place_on_machines_correct:
  assumes "place_on_machines uuid fc fr mts r = Inr ps" "0 \<le> r"
  shows "plan_slots ps \<le> r" "total_cpus (map pl_machine_type ps) \<le> total_cpus mts"
    "set (map pl_machine_type ps) \<subseteq> set mts"
    "p \<in> set ps \<Longrightarrow> 0 \<le> pl_target_parallelism p \<and>
       (\<exists>cap. parallelism_capacity (pl_machine_type p) fc fr = Inr cap \<and> 0 < cap \<and>
          pl_target_parallelism p \<le> cap)"
proof -
  from assms(1) obtain ms where ms: "filter_err (fits_a_call fc fr) mts = Inr ms"
    and ps: "ps = [] \<and> ms = [] \<or> assign_slots uuid fc fr 0 ms r = Inr ps"
    by (auto simp: place_on_machines_def bind_err_eq_Inr split: if_splits)
  note sat = filter_err_sat [OF ms] and sub = filter_err_subset [OF ms]
  have b: "plan_slots ps \<le> r \<and> (\<forall>p \<in> set ps. 0 \<le> pl_target_parallelism p)"
    using ps assign_slots_bounds [of uuid fc fr 0 ms r ps] sat assms(2) by auto
  have m: "map pl_machine_type ps = ms" using ps assign_slots_machines by auto
  show "plan_slots ps \<le> r" using b by simp
  show "total_cpus (map pl_machine_type ps) \<le> total_cpus mts"
    unfolding m by (rule filter_fits_cpus [OF ms])
  show "set (map pl_machine_type ps) \<subseteq> set mts" unfolding m by (rule sub)
  assume p: "p \<in> set ps"
  then have "pl_machine_type p \<in> set ms" using m by auto
  with sat have "fits_a_call fc fr (pl_machine_type p) = Inr True" by blast
  then have "\<exists>cap. parallelism_capacity (pl_machine_type p) fc fr = Inr cap \<and> 0 < cap"
    by (auto simp: fits_a_call_def bind_err_eq_Inr)
  with p ps b assign_slots_capacity [of uuid fc fr 0 ms r ps p]
  show "0 \<le> pl_target_parallelism p \<and>
       (\<exists>cap. parallelism_capacity (pl_machine_type p) fc fr = Inr cap \<and> 0 < cap \<and>
          pl_target_parallelism p \<le> cap)" by auto
qed

lemma place_on_machines_total:
  assumes "place_on_machines uuid fc fr mts r = Inr ps" "0 \<le> r" "0 < sched_cpu fc"
    "0 < sched_ram fr"
  shows "plan_slots ps = min r (capacity_sum fc fr mts)"
proof -
  from assms(1) obtain ms where ms: "filter_err (fits_a_call fc fr) mts = Inr ms"
    and ps: "ps = [] \<and> ms = [] \<or> assign_slots uuid fc fr 0 ms r = Inr ps"
    by (auto simp: place_on_machines_def bind_err_eq_Inr split: if_splits)
  note eq = filter_fits_capacity [OF ms assms(3,4)]
  from ps show ?thesis
  proof
    assume "ps = [] \<and> ms = []"
    then show ?thesis using eq assms(2) by (simp flip: eq)
  next
    assume "assign_slots uuid fc fr 0 ms r = Inr ps"
    from assign_slots_total [OF this assms(2)] filter_err_sat [OF ms] eq show ?thesis by simp
  qed
qed

text \<open>The CPUs a plan really boots.\<close>

lemma planned_cpu_count_total:
  assumes "\<And>p. p \<in> set ps \<Longrightarrow> \<exists>s. machine_spec (pl_machine_type p) = Inr s"
  shows "planned_cpu_count ps = Inr (total_cpus (map pl_machine_type ps))"
proof -
  have "map_err (\<lambda>p. machine_type_cpu_count (pl_machine_type p)) ps
      = Inr (map (\<lambda>p. spec_cpus (pl_machine_type p)) ps)"
    using assms
    by (intro map_err_total) (fastforce simp: machine_type_cpu_count_def spec_cpus_def)
  then show ?thesis by (simp add: planned_cpu_count_def total_cpus_def comp_def)
qed

lemma capacity_spec: "parallelism_capacity mt fc fr = Inr c \<Longrightarrow> \<exists>s. machine_spec mt = Inr s"
  by (auto simp: parallelism_capacity_def bind_err_eq_Inr)

text \<open>Every cloud's packing table meets the contract of \<open>size_table\<close>.\<close>

lemma pack_size_table: "size_table (pack_sizes p)"
  using gcp_table.size_table_axioms aws_table.size_table_axioms azure_table.size_table_axioms
    pack_sizes_default [of p] by (cases "p = ''aws''"; cases "p = ''azure''") auto

lemma pack_cpu_machines_cpus:
  assumes "0 \<le> n"
  shows "n \<le> total_cpus (pack_cpu_machines n p)" "total_cpus (pack_cpu_machines n p) \<le> 2 * n"
    "m \<in> set (pack_cpu_machines n p) \<Longrightarrow> \<exists>c. (m, c) \<in> set (pack_sizes p)"
  using size_table.pack_with_cpus [OF pack_size_table assms]
    size_table.pack_with_set [OF pack_size_table assms]
  unfolding pack_cpu_machines_def by force+

text \<open>A packed machine runs at least one call per \<open>required_cpus_per_call\<close> CPUs.\<close>

lemma packed_capacity:
  assumes "(m, c) \<in> set (pack_sizes p)" "0 < sched_cpu fc" "0 < sched_ram fr"
  shows "\<exists>cap. parallelism_capacity m fc fr = Inr cap \<and> c div required_cpus_per_call fc fr \<le> cap"
proof -
  let ?k = "required_cpus_per_call fc fr"
  have k: "sched_cpu fc \<le> ?k" "sched_ram fr \<le> ?k * 4"
    unfolding required_cpus_per_call_def by linarith+
  have c: "0 < c" using pack_sizes_spec(3) [OF assms(1)] by simp
  have "c div ?k \<le> c div sched_cpu fc" using c k assms(2) by (intro zdiv_mono2) simp_all
  moreover have "c div ?k \<le> (c * 4) div sched_ram fr"
  proof -
    have "c div ?k = (c * 4) div (?k * 4)" by simp
    also have "\<dots> \<le> (c * 4) div sched_ram fr" using c k assms(3) by (intro zdiv_mono2) simp_all
    finally show ?thesis .
  qed
  ultimately show ?thesis
    using pack_sizes_spec(1) [OF assms(1)] assms(2,3)
    by (simp add: parallelism_capacity_def mk_spec_def)
qed

text \<open>Whole CPU plans, on a cluster whose machines are packed.\<close>

lemma plan_cpu_nodes_cases:
  assumes "plan_cpu_nodes env uuid missing fc fr config budget = Inr ps"
    "\<not> IN_LOCAL_DEV_MODE env" "cfg_nodes config = spec # specs"
    "is_packable_cpu_machine (ns_machine_type spec)"
  shows "ps = [] \<or>
     (let n = cpus_to_add missing (required_cpus_per_call fc fr) budget;
          r = n div required_cpus_per_call fc fr
      in 0 < r \<and>
         place_on_machines uuid fc fr (pack_cpu_machines n (CLOUD_PROVIDER env)) r = Inr ps)"
  using assms by (auto simp: plan_cpu_nodes_def cpu_machines_def Let_def split: if_splits)

lemma plan_cpu_nodes_budget:
  assumes plan: "plan_cpu_nodes env uuid missing fc fr config (Some budget) = Inr ps"
    and packed: "\<not> IN_LOCAL_DEV_MODE env" "cfg_nodes config = spec # specs"
      "is_packable_cpu_machine (ns_machine_type spec)"
    and k: "0 < required_cpus_per_call fc fr"
  shows "\<exists>c. planned_cpu_count ps = Inr c \<and> 0 \<le> c \<and> c \<le> 2 * max 0 budget"
    and "plan_slots ps * required_cpus_per_call fc fr \<le> max 0 budget"
proof -
  let ?k = "required_cpus_per_call fc fr"
  let ?n = "cpus_to_add missing ?k (Some budget)"
  have nb: "?n \<le> max 0 budget" by (simp add: cpus_to_add_def)
  show "\<exists>c. planned_cpu_count ps = Inr c \<and> 0 \<le> c \<and> c \<le> 2 * max 0 budget"
    and "plan_slots ps * ?k \<le> max 0 budget"
  proof (atomize (full), cases "ps = []")
    case True
    then show "(\<exists>c. planned_cpu_count ps = Inr c \<and> 0 \<le> c \<and> c \<le> 2 * max 0 budget) \<and>
        plan_slots ps * ?k \<le> max 0 budget"
      by (simp add: planned_cpu_count_def)
  next
    case False
    with plan_cpu_nodes_cases [OF plan packed] have r: "0 < ?n div ?k"
      and pl: "place_on_machines uuid fc fr (pack_cpu_machines ?n (CLOUD_PROVIDER env)) (?n div ?k) = Inr ps"
      by (simp_all add: Let_def)
    from r k have n: "0 \<le> ?n" using pos_imp_zdiv_pos_iff [OF k, of ?n] by linarith
    note pc = place_on_machines_correct [OF pl less_imp_le [OF r]]
    have specs: "\<And>p. p \<in> set ps \<Longrightarrow> \<exists>s. machine_spec (pl_machine_type p) = Inr s"
      using pc(4) capacity_spec by blast
    have "total_cpus (map pl_machine_type ps) \<le> 2 * max 0 budget"
      using pc(2) pack_cpu_machines_cpus(2) [OF n, of "CLOUD_PROVIDER env"] nb by linarith
    moreover have "0 \<le> total_cpus (map pl_machine_type ps)"
      unfolding total_cpus_def by (intro sum_list_nonneg) (auto simp: spec_cpus_nonneg)
    moreover have "plan_slots ps * ?k \<le> ?n div ?k * ?k" using pc(1) k by (intro mult_right_mono) simp_all
    moreover have "?n div ?k * ?k \<le> ?n" using pos_mod_sign [OF k, of ?n]
      by (simp add: minus_mod_eq_div_mult [symmetric])
    ultimately show "(\<exists>c. planned_cpu_count ps = Inr c \<and> 0 \<le> c \<and> c \<le> 2 * max 0 budget) \<and>
        plan_slots ps * ?k \<le> max 0 budget"
      using planned_cpu_count_total [OF specs] nb by auto
  qed
qed

text \<open>
  With one or two CPUs per call every packed size is used in full, so an uncapped plan covers all
  the missing slots.
\<close>

lemma packed_sizes_even: "list_all (\<lambda>p. list_all (\<lambda>(name, c). even c) (pack_sizes p)) [''gcp'', ''aws'', ''azure'']"
  by code_simp

lemma pack_sizes_even: "(m, c) \<in> set (pack_sizes p) \<Longrightarrow> even c"
  using packed_sizes_even pack_sizes_default [of p]
  by (cases "p = ''aws''"; cases "p = ''azure''") (auto simp: list_all_iff)

lemma packed_capacity_sum:
  assumes "0 < sched_cpu fc" "0 < sched_ram fr" "required_cpus_per_call fc fr \<in> {1, 2}"
    and "\<And>m. m \<in> set ms \<Longrightarrow> \<exists>c. (m, c) \<in> set (pack_sizes p)"
  shows "total_cpus ms \<le> capacity_sum fc fr ms * required_cpus_per_call fc fr"
  using assms(4)
proof (induction ms)
  case (Cons m ms)
  obtain c where c: "(m, c) \<in> set (pack_sizes p)" using Cons.prems by auto
  obtain cap where cap: "parallelism_capacity m fc fr = Inr cap"
    "c div required_cpus_per_call fc fr \<le> cap"
    using packed_capacity [OF c assms(1,2)] by blast
  have "c = c div required_cpus_per_call fc fr * required_cpus_per_call fc fr"
    using assms(3) pack_sizes_even [OF c] by auto
  also have "\<dots> \<le> cap * required_cpus_per_call fc fr"
    using cap(2) assms(3) by (intro mult_right_mono) auto
  finally show ?case
    using Cons.IH Cons.prems cap(1) pack_sizes_spec(3) [OF c] by (simp add: algebra_simps)
qed simp

lemma plan_cpu_nodes_covers:
  assumes plan: "plan_cpu_nodes env uuid missing fc fr config None = Inr ps"
    and packed: "\<not> IN_LOCAL_DEV_MODE env" "cfg_nodes config = spec # specs"
      "is_packable_cpu_machine (ns_machine_type spec)"
    and pos: "0 < missing" "0 < sched_cpu fc" "0 < sched_ram fr"
    and k: "required_cpus_per_call fc fr \<in> {1, 2}"
  shows "plan_slots ps = missing"
proof -
  let ?k = "required_cpus_per_call fc fr"
  let ?ms = "pack_cpu_machines (missing * ?k) (CLOUD_PROVIDER env)"
  have kp: "0 < ?k" using k by auto
  have pl: "place_on_machines uuid fc fr ?ms missing = Inr ps"
    using plan packed pos kp
    by (auto simp: plan_cpu_nodes_def cpu_machines_def cpus_to_add_def Let_def)
  have n: "0 \<le> missing * ?k" using pos kp by simp
  have "missing * ?k \<le> capacity_sum fc fr ?ms * ?k"
    using pack_cpu_machines_cpus(1) [OF n, of "CLOUD_PROVIDER env"]
      packed_capacity_sum [OF pos(2,3) k pack_cpu_machines_cpus(3) [OF n, of _ "CLOUD_PROVIDER env"]]
    by (meson order_trans)
  then have "missing \<le> capacity_sum fc fr ?ms" using kp by simp
  then show ?thesis using place_on_machines_total [OF pl _ pos(2,3)] pos by simp
qed

section \<open>Properties of the planner\<close>

lemma plan_grow_cpu:
  "plan_grow_nodes env uuid missing fc fr None config mc mg None mt =
     plan_cpu_nodes env uuid missing fc fr config mc"
  by (simp add: plan_grow_nodes_def gpu_machine_type_def)

lemma plan_grow_slots:
  "s \<noteq> 0 \<Longrightarrow> plan_grow_nodes env uuid missing fc fr None config mc mg (Some s) mt =
     plan_by_slots uuid missing mc s mt"
  by (simp add: plan_grow_nodes_def gpu_machine_type_def)

lemma cpus_to_add_div_le: "0 \<le> missing \<Longrightarrow> cpus_to_add missing k b div k \<le> missing"
proof (cases "0 < k")
  case True
  assume "0 \<le> missing"
  have "cpus_to_add missing k b \<le> missing * k" by (auto simp: cpus_to_add_def split: option.splits)
  then have "cpus_to_add missing k b div k \<le> (missing * k) div k"
    using True by (intro zdiv_mono1) simp_all
  then show ?thesis using True by simp
next
  case False
  assume m: "0 \<le> missing"
  have "missing * k \<le> 0" using m False by (simp add: mult_nonneg_nonpos)
  then have "cpus_to_add missing k b = missing * k"
    by (auto simp: cpus_to_add_def split: option.splits)
  then show ?thesis using m by (cases "k = 0") simp_all
qed

text \<open>Every node of a plan is asked for what its machine can run, and never for a negative share.\<close>

definition plan_ok :: "func_res \<Rightarrow> func_res \<Rightarrow> int \<Rightarrow> planned_node list \<Rightarrow> bool" where
  "plan_ok fc fr missing ps \<longleftrightarrow> plan_slots ps \<le> missing \<and>
     list_all (\<lambda>p. 0 \<le> pl_target_parallelism p \<and>
       (case parallelism_capacity (pl_machine_type p) fc fr of
          Inr cap \<Rightarrow> 0 < cap \<and> pl_target_parallelism p \<le> cap | Inl _ \<Rightarrow> False)) ps"

lemma plan_ok_Nil [simp]: "plan_ok fc fr missing [] \<longleftrightarrow> 0 \<le> missing"
  by (simp add: plan_ok_def)

lemma place_on_machines_ok:
  assumes "place_on_machines uuid fc fr mts r = Inr ps" "0 \<le> r" "r \<le> missing"
  shows "plan_ok fc fr missing ps"
  using place_on_machines_correct(1) [OF assms(1,2)] place_on_machines_correct(4) [OF assms(1,2)]
    assms(3)
  unfolding plan_ok_def list_all_iff by fastforce

lemma plan_cpu_nodes_ok:
  assumes "plan_cpu_nodes env uuid missing fc fr config mc = Inr ps" "0 \<le> missing"
  shows "plan_ok fc fr missing ps"
proof -
  let ?k = "required_cpus_per_call fc fr"
  let ?r = "cpus_to_add missing ?k mc div ?k"
  from assms(1) have "ps = [] \<or> (\<exists>mts. 0 \<le> ?r \<and> place_on_machines uuid fc fr mts ?r = Inr ps)"
    unfolding plan_cpu_nodes_def Let_def
    by (auto simp: bind_err_eq_Inr split: if_splits list.splits)
  then show ?thesis
    using place_on_machines_ok cpus_to_add_div_le [OF assms(2)] assms(2) by fastforce
qed

lemma plan_gpu_nodes_ok:
  assumes "plan_gpu_nodes uuid missing fc fr mg gpu_mt = Inr ps" "0 \<le> missing"
    "0 < sched_cpu fc" "0 < sched_ram fr"
  shows "plan_ok fc fr missing ps"
proof -
  from assms(1) obtain cap where cap: "parallelism_capacity gpu_mt fc fr = Inr cap"
    by (auto simp: plan_gpu_nodes_def bind_err_eq_Inr)
  define n where "n = (case mg of None \<Rightarrow> ceil_div missing cap
      | Some b \<Rightarrow> min (ceil_div missing cap) (max 0 b div cap))"
  have c: "ps = [] \<or>
      place_on_machines uuid fc fr (replicate (nat n) gpu_mt) (min missing (n * cap)) = Inr ps \<and> 0 < n"
    using assms(1) cap unfolding plan_gpu_nodes_def by (auto simp: Let_def n_def split: if_splits)
  have "0 \<le> cap" using parallelism_capacity_nonneg [OF cap(1) assms(3,4)] .
  with c place_on_machines_ok assms(2) show ?thesis by fastforce
qed

text \<open>
  A plan made from calls (not from measured capacity) never hands out more slots than were
  missing, asks no machine for more than \<open>parallelism_capacity\<close> says it can run, and books only
  machines that can run at least one call.
\<close>

theorem plan_grow_nodes_ok:
  assumes "plan_grow_nodes env uuid missing fc fr func_gpu config mc mg None mt = Inr ps"
    and "0 \<le> missing" "0 < sched_cpu fc" "0 < sched_ram fr"
  shows "plan_ok fc fr missing ps"
proof -
  from assms(1) have "plan_cpu_nodes env uuid missing fc fr config mc = Inr ps
      \<or> (\<exists>g. plan_gpu_nodes uuid missing fc fr mg g = Inr ps)"
    unfolding plan_grow_nodes_def by (auto simp: bind_err_eq_Inr split: if_splits)
  then show ?thesis using plan_cpu_nodes_ok plan_gpu_nodes_ok assms(2-4) by blast
qed

definition example_env :: head_env where
  "example_env = \<lparr>CLOUD_PROVIDER = ''gcp'', IN_LOCAL_DEV_MODE = False\<rparr>"

definition example_config :: cluster_config where
  "example_config =
     \<lparr>cfg_nodes = [\<lparr>ns_machine_type = ''n4-standard-4'', ns_gcp_region = Some ''us-central1'',
        ns_quantity = 1, ns_disk_size_gb = Some 20, ns_inactivity_shutdown_time_sec = Some 600,
        ns_images = [''python:3.12'']\<rparr>],
      cfg_max_vcpus = Some 2560, cfg_max_gpus = None\<rparr>"

definition example_uuid :: "nat \<Rightarrow> string" where
  "example_uuid i = ''0123456789'' @ digits_of_nat i"

definition example_plan :: "planned_node list" where
  "example_plan =
     (case plan_grow_nodes example_env example_uuid 95 (Fixed 1) (Fixed 4) None example_config
        None None None [] of Inr ps \<Rightarrow> ps | Inl _ \<Rightarrow> [])"

lemma example_plan_eq:
  "plan_grow_nodes example_env example_uuid 95 (Fixed 1) (Fixed 4) None example_config
     None None None [] = Inr example_plan"
  "map pl_machine_type example_plan = [''n4-standard-80'', ''n4-standard-16'']"
  "map pl_target_parallelism example_plan = [80, 15]"
  by code_simp+

theorem plan_grow_nodes_ok_witness:
  "plan_ok (Fixed 1) (Fixed 4) 95 example_plan \<and> length example_plan = 2"
  using plan_grow_nodes_ok [OF example_plan_eq(1)] arg_cong [OF example_plan_eq(3), of length]
  by (simp add: sched_cpu_def sched_ram_def)

text \<open>
  With one or two CPUs per call, an uncapped plan on a packed CPU cluster covers all the missing
  slots: \<open>plan_grow_nodes\<close> plans "machines covering \<open>missing_slots\<close> more parallelism".
\<close>

theorem plan_grow_nodes_covers:
  assumes "plan_grow_nodes env uuid missing fc fr None config None mg None mt = Inr ps"
    and "\<not> IN_LOCAL_DEV_MODE env" "cfg_nodes config = spec # specs"
      "is_packable_cpu_machine (ns_machine_type spec)"
    and "0 < missing" "0 < sched_cpu fc" "0 < sched_ram fr"
      "required_cpus_per_call fc fr \<in> {1, 2}"
  shows "plan_slots ps = missing"
  using plan_cpu_nodes_covers [OF _ assms(2-8)] assms(1) by (simp add: plan_grow_cpu)

theorem plan_grow_nodes_covers_witness: "plan_slots example_plan = 95"
proof -
  have "is_packable_cpu_machine ''n4-standard-4''" by code_simp
  then show ?thesis
    using plan_grow_nodes_covers [OF example_plan_eq(1)]
    by (simp add: example_env_def example_config_def sched_cpu_def sched_ram_def
        required_cpus_per_call_def)
qed

text \<open>
  A plan under a CPU budget never places more calls than the budget pays for, and the machines it
  boots have at most twice the budget's CPUs. (Not at most the budget: see \<open>plan_can_exceed_budget\<close>.)
\<close>

theorem plan_grow_nodes_budget:
  assumes "plan_grow_nodes env uuid missing fc fr None config (Some budget) mg None mt = Inr ps"
    and "\<not> IN_LOCAL_DEV_MODE env" "cfg_nodes config = spec # specs"
      "is_packable_cpu_machine (ns_machine_type spec)"
    and "0 < required_cpus_per_call fc fr"
  shows "\<exists>c. planned_cpu_count ps = Inr c \<and> 0 \<le> c \<and> c \<le> 2 * max 0 budget \<and>
    plan_slots ps * required_cpus_per_call fc fr \<le> max 0 budget"
  using plan_cpu_nodes_budget [OF _ assms(2-5), of uuid missing budget ps] assms(1)
  by (auto simp: plan_grow_cpu)

lemma example_budget_plan:
  "\<exists>ps. plan_grow_nodes example_env example_uuid 3 (Fixed 1) (Fixed 4) None example_config
     (Some 3) None None [] = Inr ps \<and> planned_cpu_count ps = Inr 4 \<and> plan_slots ps = 3"
proof -
  have "case plan_grow_nodes example_env example_uuid 3 (Fixed 1) (Fixed 4) None example_config
     (Some 3) None None [] of Inr ps \<Rightarrow> planned_cpu_count ps = Inr 4 \<and> plan_slots ps = 3 | Inl _ \<Rightarrow> False"
    by code_simp
  then show ?thesis by (auto split: sum.splits)
qed

theorem plan_grow_nodes_budget_witness:
  "\<exists>ps c. planned_cpu_count ps = Inr c \<and> c = 4 \<and> c \<le> 2 * max 0 (3 :: int) \<and> plan_slots ps = 3"
proof -
  obtain ps where ps: "plan_grow_nodes example_env example_uuid 3 (Fixed 1) (Fixed 4) None
      example_config (Some 3) None None [] = Inr ps"
    "planned_cpu_count ps = Inr 4" "plan_slots ps = 3"
    using example_budget_plan by blast
  have "is_packable_cpu_machine ''n4-standard-4''" by code_simp
  then show ?thesis
    using plan_grow_nodes_budget [OF ps(1)] ps(2,3)
    by (auto simp: example_env_def example_config_def sched_cpu_def sched_ram_def
        required_cpus_per_call_def)
qed

text \<open>
  Planning by measured capacity without a budget: the slots are spread over the fewest nodes
  that hold them at \<open>slots_per_node\<close> each, all slots are handed out, no node gets more than
  \<open>slots_per_node\<close>, none gets nothing, and any two nodes differ by at most one slot.
\<close>

theorem plan_by_measured_capacity:
  assumes "plan_grow_nodes env uuid missing fc fr None config None mg (Some s) mt = Inr ps"
    and "0 < missing" "0 < s"
  shows "plan_slots ps = missing \<and> int (length ps) = ceil_div missing s \<and>
    list_all (\<lambda>p. 0 < pl_target_parallelism p \<and> pl_target_parallelism p \<le> s \<and>
      missing div int (length ps) \<le> pl_target_parallelism p \<and>
      pl_target_parallelism p \<le> missing div int (length ps) + 1) ps"
proof -
  let ?n = "ceil_div missing s"
  have ps: "ps = spread_slots uuid mt 0 (nat ?n) missing"
    using assms by (simp add: plan_grow_slots plan_by_slots_def)
  have up: "missing \<le> ?n * s" by (rule ceil_div_upper [OF assms(3)])
  have n: "0 < ?n"
  proof (rule ccontr)
    assume "\<not> 0 < ?n"
    then have "?n * s \<le> 0" using assms(3) by (simp add: mult_nonpos_nonneg)
    with up assms(2) show False by simp
  qed
  have le: "?n \<le> missing" using assms(2,3) by (intro ceil_div_least) (auto simp: mult_le_cancel_left1)
  let ?q = "missing div ?n"
  have q: "?n * ?q \<le> missing" "missing \<le> ?n * (?q + 1)"
  proof -
    have dm: "?n * ?q + missing mod ?n = missing" by simp
    show "?n * ?q \<le> missing" using dm pos_mod_sign [OF n, of missing] by linarith
    have "?n * (?q + 1) = ?n * ?q + ?n" by (simp add: distrib_left)
    then show "missing \<le> ?n * (?q + 1)" using dm pos_mod_bound [OF n, of missing] by linarith
  qed
  have q1: "1 \<le> ?q" using le n by (simp add: pos_imp_zdiv_pos_iff int_one_le_iff_zero_less)
  have "\<And>p. p \<in> set ps \<Longrightarrow> ?q \<le> pl_target_parallelism p \<and> pl_target_parallelism p \<le> ?q + 1"
    unfolding ps using q n by (intro spread_slots_bounds) auto
  moreover have "\<And>p. p \<in> set ps \<Longrightarrow> ?q \<le> pl_target_parallelism p \<and> pl_target_parallelism p \<le> s"
    unfolding ps using q n up by (intro spread_slots_bounds) auto
  ultimately show ?thesis
    using ps n q1 spread_slots_total [of "nat ?n"] by (fastforce simp: list_all_iff)
qed

theorem plan_by_measured_capacity_witness:
  "\<exists>ps. plan_grow_nodes example_env example_uuid 49 Dynamic Dynamic None example_config
      None None (Some 15) ''n4-standard-16'' = Inr ps \<and> plan_slots ps = 49 \<and>
    map pl_target_parallelism ps = [13, 12, 12, 12]"
proof -
  let ?ps = "spread_slots example_uuid ''n4-standard-16'' 0 4 49"
  have c: "ceil_div 49 15 = 4" by (simp add: ceil_div_def)
  have e: "plan_grow_nodes example_env example_uuid 49 Dynamic Dynamic None example_config
      None None (Some 15) ''n4-standard-16'' = Inr ?ps"
    by (simp add: plan_grow_slots plan_by_slots_def c)
  have "map pl_target_parallelism ?ps = [13, 12, 12, 12]" by code_simp
  with e plan_by_measured_capacity [OF e] show ?thesis by auto
qed

section \<open>Where the planner misses what it says\<close>

text \<open>
  The CPU budget can be exceeded: three CPUs are left and a four-CPU machine is booted, because the
  remainder is covered by the smallest size that fits.
\<close>

lemma plan_can_exceed_budget:
  "\<exists>ps c. plan_grow_nodes example_env example_uuid 3 (Fixed 1) (Fixed 4) None example_config
     (Some 3) None None [] = Inr ps \<and> planned_cpu_count ps = Inr c \<and> 3 < c"
  using example_budget_plan by fastforce

text \<open>
  A node can be booted with zero slots: with 5 GB per call the planner counts two CPUs per call, the
  80-CPU machine runs all 60 calls, and the 64-CPU machine booted for the rest gets none.
\<close>

lemma plan_can_book_an_idle_node:
  "case plan_grow_nodes example_env example_uuid 60 (Fixed 1) (Fixed 5) None example_config
     None None None [] of
     Inr ps \<Rightarrow> map pl_machine_type ps = [''n4-standard-80'', ''n4-standard-64''] \<and>
       map pl_target_parallelism ps = [60, 0]
   | Inl _ \<Rightarrow> False"
  by code_simp

text \<open>
  A plan can cover less than what is missing, with no budget at all: three 80-CPU machines cover
  240 CPUs but run only one 48-CPU call each.
\<close>

lemma plan_can_undercover:
  "case plan_grow_nodes example_env example_uuid 5 (Fixed 48) (Fixed 4) None example_config
     None None None [] of
     Inr ps \<Rightarrow> map pl_machine_type ps = replicate 3 ''n4-standard-80'' \<and> plan_slots ps = 3
   | Inl _ \<Rightarrow> False"
  by code_simp

text \<open>
  Under a budget, the measured-capacity branch boots fewer nodes but still spreads all the slots
  over them: a machine measured to sustain 15 calls is asked for 49.
\<close>

lemma capped_measured_plan_overloads:
  "case plan_grow_nodes example_env example_uuid 49 Dynamic Dynamic None example_config
     (Some 16) None (Some 15) ''n4-standard-16'' of
     Inr ps \<Rightarrow> map pl_target_parallelism ps = [49]
   | Inl _ \<Rightarrow> False"
  by code_simp

end
