(* ===== verification/Cluster_State.thy ===== *)
theory Cluster_State
  imports Scaling
begin

text \<open>
  The head's live state, \<open>cluster_state.py\<close>: the node and job dictionaries, the operations on them and
  the part of the SQLite history (\<open>history.py\<close>) they write through to. Every operation runs under the
  module's lock, so it is one atomic function from a \<open>head\<close> to a \<open>head\<close>; \<open>time()\<close> is read once per
  operation and passed in as \<open>now\<close>. Published events, log documents and debug-trail threads are
  recorded in the state. A dictionary of updates is a list of field assignments.
\<close>

section \<open>Nodes\<close>

datatype node_status = BOOTING | READY | RUNNING | FAILED | DELETED

datatype reason = Reason (r_code: string) (r_source: string) (r_message: string)

text \<open>A node's dictionary. An absent key and \<open>None\<close> read the same through \<open>get\<close>, so both are \<open>None\<close>.\<close>

record node =
  n_instance_name :: string
  n_status :: "node_status option"
  n_host :: "string option"
  n_public_ip :: "string option"
  n_private_ip :: "string option"
  n_zone :: "string option"
  n_machine_type :: "string option"
  n_gcp_region :: "string option"
  n_images :: "string list"
  n_current_job :: "string option"
  n_reserved_for_job :: "string option"
  n_job_scope_id :: "string option"
  n_target_parallelism :: "int option"
  n_port :: "int option"
  n_started_booting_at :: "real option"
  n_ended_at :: "real option"
  n_last_push_at :: "real option"
  n_loaded_from_history :: bool
  n_terminal_reason :: "reason option"

definition empty_node :: "string \<Rightarrow> node" where
  "empty_node name =
     \<lparr>n_instance_name = name, n_status = None, n_host = None, n_public_ip = None,
      n_private_ip = None, n_zone = None, n_machine_type = None, n_gcp_region = None,
      n_images = [], n_current_job = None, n_reserved_for_job = None, n_job_scope_id = None,
      n_target_parallelism = None, n_port = None, n_started_booting_at = None, n_ended_at = None,
      n_last_push_at = None, n_loaded_from_history = False, n_terminal_reason = None\<rparr>"

text \<open>One \<open>key: value\<close> of an update; \<open>node_key\<close> is its key.\<close>

datatype node_field =
    NStatus "node_status option"
  | NHost "string option"
  | NPublicIp "string option"
  | NPrivateIp "string option"
  | NZone "string option"
  | NMachineType "string option"
  | NRegion "string option"
  | NImages "string list"
  | NCurrentJob "string option"
  | NReservedForJob "string option"
  | NJobScope "string option"
  | NTargetParallelism "int option"
  | NPort "int option"
  | NStartedBootingAt "real option"
  | NEndedAt "real option"
  | NLastPushAt "real option"
  | NLoadedFromHistory bool
  | NTerminalReason "reason option"

fun node_key :: "node_field \<Rightarrow> string" where
  "node_key (NStatus _) = ''status''"
| "node_key (NHost _) = ''host''"
| "node_key (NPublicIp _) = ''public_ip''"
| "node_key (NPrivateIp _) = ''private_ip''"
| "node_key (NZone _) = ''zone''"
| "node_key (NMachineType _) = ''machine_type''"
| "node_key (NRegion _) = ''gcp_region''"
| "node_key (NImages _) = ''containers''"
| "node_key (NCurrentJob _) = ''current_job''"
| "node_key (NReservedForJob _) = ''reserved_for_job''"
| "node_key (NJobScope _) = ''job_scope_id''"
| "node_key (NTargetParallelism _) = ''target_parallelism''"
| "node_key (NPort _) = ''port''"
| "node_key (NStartedBootingAt _) = ''started_booting_at''"
| "node_key (NEndedAt _) = ''ended_at''"
| "node_key (NLastPushAt _) = ''last_push_at''"
| "node_key (NLoadedFromHistory _) = ''loaded_from_history''"
| "node_key (NTerminalReason _) = ''terminal_reason''"

fun set_node_field :: "node_field \<Rightarrow> node \<Rightarrow> node" where
  "set_node_field (NStatus v) n = n\<lparr>n_status := v\<rparr>"
| "set_node_field (NHost v) n = n\<lparr>n_host := v\<rparr>"
| "set_node_field (NPublicIp v) n = n\<lparr>n_public_ip := v\<rparr>"
| "set_node_field (NPrivateIp v) n = n\<lparr>n_private_ip := v\<rparr>"
| "set_node_field (NZone v) n = n\<lparr>n_zone := v\<rparr>"
| "set_node_field (NMachineType v) n = n\<lparr>n_machine_type := v\<rparr>"
| "set_node_field (NRegion v) n = n\<lparr>n_gcp_region := v\<rparr>"
| "set_node_field (NImages v) n = n\<lparr>n_images := v\<rparr>"
| "set_node_field (NCurrentJob v) n = n\<lparr>n_current_job := v\<rparr>"
| "set_node_field (NReservedForJob v) n = n\<lparr>n_reserved_for_job := v\<rparr>"
| "set_node_field (NJobScope v) n = n\<lparr>n_job_scope_id := v\<rparr>"
| "set_node_field (NTargetParallelism v) n = n\<lparr>n_target_parallelism := v\<rparr>"
| "set_node_field (NPort v) n = n\<lparr>n_port := v\<rparr>"
| "set_node_field (NStartedBootingAt v) n = n\<lparr>n_started_booting_at := v\<rparr>"
| "set_node_field (NEndedAt v) n = n\<lparr>n_ended_at := v\<rparr>"
| "set_node_field (NLastPushAt v) n = n\<lparr>n_last_push_at := v\<rparr>"
| "set_node_field (NLoadedFromHistory v) n = n\<lparr>n_loaded_from_history := v\<rparr>"
| "set_node_field (NTerminalReason v) n = n\<lparr>n_terminal_reason := v\<rparr>"

text \<open>\<open>node.update(updates)\<close> and \<open>updates.get("status")\<close>: a later assignment wins.\<close>

definition apply_node_updates :: "node_field list \<Rightarrow> node \<Rightarrow> node" where
  "apply_node_updates us n = foldl (\<lambda>n u. set_node_field u n) n us"

fun status_step :: "node_status option \<Rightarrow> node_field \<Rightarrow> node_status option" where
  "status_step acc (NStatus s) = s"
| "status_step acc _ = acc"

definition updates_status :: "node_field list \<Rightarrow> node_status option" where
  "updates_status us = foldl status_step None us"

definition has_key :: "string \<Rightarrow> node_field list \<Rightarrow> bool" where
  "has_key k us \<longleftrightarrow> k \<in> set (map node_key us)"

definition drop_status :: "node_field list \<Rightarrow> node_field list" where
  "drop_status us = filter (\<lambda>u. node_key u \<noteq> ''status'') us"

definition is_live :: "node \<Rightarrow> bool" where
  "is_live n \<longleftrightarrow> n_status n \<in> {Some BOOTING, Some READY, Some RUNNING}"

section \<open>Jobs\<close>

datatype job_status = JOB_RUNNING | JOB_COMPLETED | JOB_FAILED | JOB_CANCELED

definition TERMINAL_JOB_STATUSES :: "job_status list" where
  "TERMINAL_JOB_STATUSES = [JOB_COMPLETED, JOB_FAILED, JOB_CANCELED]"

text \<open>One entry of \<open>assigned_nodes\<close>: what a node last reported about its part of the job.\<close>

record progress =
  p_current_num_results :: int
  p_client_contact_last_1s :: bool
  p_alive_workers :: "int option"
  p_busy_workers :: "int option"
  p_last_push_at :: "real option"

text \<open>The parts of a start response, and a recorded replacement request.\<close>

record ready_choice =
  rc_instance_name :: string
  rc_host :: "string option"
  rc_machine_type :: string
  rc_target_parallelism :: int

record start_response =
  sr_ready_nodes :: "ready_choice list"
  sr_booting_nodes :: "(string \<times> int) list"

record replacement =
  rp_request_id :: string
  rp_booted :: "planned_node list"
  rp_slots_booted :: int

record job =
  j_status :: "job_status option"
  j_n_inputs :: "int option"
  j_func_cpu :: func_res
  j_func_ram :: func_res
  j_image :: "string option"
  j_func_gpu :: "string option"
  j_region :: "string option"
  j_disk_gb :: "int option"
  j_grow :: bool
  j_grow_cpus_remaining :: "int option"
  j_grow_gpus_remaining :: "int option"
  j_target_parallelism :: int
  j_max_parallelism :: int
  j_user :: "string option"
  j_function_name :: "string option"
  j_started_at :: "real option"
  j_ended_at :: "real option"
  j_is_background_job :: bool
  j_parent_job_id :: "string option"
  j_all_inputs_uploaded :: bool
  j_client_has_all_results :: bool
  j_dashboard_canceled :: bool
  j_cluster_shutdown :: bool
  j_cluster_restarted :: bool
  j_fail_reason :: "string list"
  j_terminal_reason :: "reason option"
  j_start_response :: "start_response option"
  j_replacement_requests :: "replacement dict"
  j_assigned_nodes :: "progress dict"

datatype job_field =
    JStatus "job_status option"
  | JEndedAt "real option"
  | JTerminalReason "reason option"
  | JAllInputsUploaded bool
  | JClientHasAllResults bool
  | JDashboardCanceled bool
  | JClusterShutdown bool
  | JClusterRestarted bool

fun is_status_field :: "job_field \<Rightarrow> bool" where
  "is_status_field (JStatus _) = True"
| "is_status_field _ = False"

fun set_job_field :: "job_field \<Rightarrow> job \<Rightarrow> job" where
  "set_job_field (JStatus v) j = j\<lparr>j_status := v\<rparr>"
| "set_job_field (JEndedAt v) j = j\<lparr>j_ended_at := v\<rparr>"
| "set_job_field (JTerminalReason v) j = j\<lparr>j_terminal_reason := v\<rparr>"
| "set_job_field (JAllInputsUploaded v) j = j\<lparr>j_all_inputs_uploaded := v\<rparr>"
| "set_job_field (JClientHasAllResults v) j = j\<lparr>j_client_has_all_results := v\<rparr>"
| "set_job_field (JDashboardCanceled v) j = j\<lparr>j_dashboard_canceled := v\<rparr>"
| "set_job_field (JClusterShutdown v) j = j\<lparr>j_cluster_shutdown := v\<rparr>"
| "set_job_field (JClusterRestarted v) j = j\<lparr>j_cluster_restarted := v\<rparr>"

definition apply_job_updates :: "job_field list \<Rightarrow> job \<Rightarrow> job" where
  "apply_job_updates us j = foldl (\<lambda>j u. set_job_field u j) j us"

fun job_status_step :: "job_status option \<Rightarrow> job_field \<Rightarrow> job_status option" where
  "job_status_step acc (JStatus s) = s"
| "job_status_step acc _ = acc"

definition job_updates_status :: "job_field list \<Rightarrow> job_status option" where
  "job_updates_status us = foldl job_status_step None us"

definition job_terminal :: "job \<Rightarrow> bool" where
  "job_terminal j \<longleftrightarrow> (\<exists>s \<in> set TERMINAL_JOB_STATUSES. j_status j = Some s)"

record job_summary_t =
  js_status :: "job_status option"
  js_user :: string
  js_function_name :: string
  js_n_inputs :: int
  js_n_results :: int
  js_started_at :: "real option"
  js_ended_at :: "real option"
  js_parent_job_id :: "string option"

definition sum_results :: "progress dict \<Rightarrow> int" where
  "sum_results d = (\<Sum>p\<leftarrow>d. p_current_num_results (snd p))"

definition job_summary_of :: "job \<Rightarrow> job_summary_t" where
  "job_summary_of j =
     \<lparr>js_status = j_status j, js_user = get_or ''Unknown'' (j_user j),
      js_function_name = get_or ''Unknown'' (j_function_name j),
      js_n_inputs = get_or 0 (j_n_inputs j),
      js_n_results = sum_results (j_assigned_nodes j), js_started_at = j_started_at j,
      js_ended_at = j_ended_at j, js_parent_job_id = j_parent_job_id j\<rparr>"

section \<open>The head\<close>

datatype event =
    NodeEvent bool node
  | JobEvent string job_summary_t

record head =
  NODES :: "node dict"
  JOBS :: "job dict"
  hist_nodes :: "node dict"
  hist_jobs :: "job dict"
  hist_results :: "int dict"
  hist_job_logs :: "(string \<times> string) list"
  admission_paused :: bool
  counts_flushed_at :: "real dict"
  keep_awake_active :: bool
  published :: "event list"
  debug_shipped :: "string list"


text \<open>The writes and reads of the history database this module uses.\<close>

definition history_upsert_node :: "string \<Rightarrow> node \<Rightarrow> head \<Rightarrow> head" where
  "history_upsert_node name n h = h\<lparr>hist_nodes := dset name n (hist_nodes h)\<rparr>"

definition history_upsert_job :: "string \<Rightarrow> job \<Rightarrow> head \<Rightarrow> head" where
  "history_upsert_job job_id j h =
     (let n_results = sum_results (j_assigned_nodes j);
          stored = (case map_of (hist_results h) job_id of
                      None \<Rightarrow> n_results | Some old \<Rightarrow> max old n_results)
      in h\<lparr>hist_jobs := dset job_id (j\<lparr>j_assigned_nodes := []\<rparr>) (hist_jobs h),
           hist_results := dset job_id stored (hist_results h)\<rparr>)"

definition history_upsert_job_and_nodes :: "string \<Rightarrow> job \<Rightarrow> node list \<Rightarrow> head \<Rightarrow> head" where
  "history_upsert_job_and_nodes job_id j ns h =
     foldl (\<lambda>h n. history_upsert_node (n_instance_name n) n h) (history_upsert_job job_id j h) ns"

definition history_active_nodes :: "head \<Rightarrow> node list" where
  "history_active_nodes h =
     filter (\<lambda>n. n_status n \<in> {Some BOOTING, Some READY, Some RUNNING, Some FAILED})
       (map snd (hist_nodes h))"

definition history_running_jobs :: "head \<Rightarrow> job dict" where
  "history_running_jobs h = filter (\<lambda>(k, j). j_status j = Some JOB_RUNNING) (hist_jobs h)"

definition publish :: "event list \<Rightarrow> head \<Rightarrow> head" where
  "publish es h = h\<lparr>published := published h @ es\<rparr>"

section \<open>Node operations\<close>

definition has_live_nodes :: "head \<Rightarrow> bool" where
  "has_live_nodes h \<longleftrightarrow> (\<exists>n \<in> set (map snd (NODES h)). is_live n)"

definition load_from_history :: "head \<Rightarrow> head" where
  "load_from_history h =
     (let nodes = foldl (\<lambda>d n. dsetdefault (n_instance_name n)
            (n\<lparr>n_last_push_at := None, n_loaded_from_history := True\<rparr>) d)
            (NODES h) (history_active_nodes h);
          jobs = foldl (\<lambda>d (k, j). dsetdefault k (j\<lparr>j_assigned_nodes := []\<rparr>) d)
            (JOBS h) (history_running_jobs h);
          h1 = h\<lparr>NODES := nodes, JOBS := jobs\<rparr>
      in h1\<lparr>keep_awake_active := has_live_nodes h1\<rparr>)"

definition list_nodes :: "head \<Rightarrow> node list" where
  "list_nodes h = filter (\<lambda>n. n_status n \<noteq> Some DELETED) (map snd (NODES h))"

text \<open>One step of the loop in \<open>fleet_resources\<close>; \<open>node["machine_type"]\<close> raises on an absent key.\<close>

definition fleet_step ::
  "int \<times> (string option \<times> int) list \<Rightarrow> node \<Rightarrow> (int \<times> (string option \<times> int) list) result" where
  "fleet_step acc n =
     (if \<not> is_live n then Inr acc
      else case n_machine_type n of
        None \<Rightarrow> Inl (KeyError ''machine_type'')
      | Some mt \<Rightarrow> bind_err (machine_spec mt) (\<lambda>spec.
          if gpus spec > 0
          then Inr (fst acc, dset (gpu_model mt)
                 (get_or 0 (map_of (snd acc) (gpu_model mt)) + gpus spec) (snd acc))
          else Inr (fst acc + cpus spec, snd acc)))"

definition fleet_resources :: "head \<Rightarrow> (int \<times> (string option \<times> int) list) result" where
  "fleet_resources h = fold_err fleet_step (0, []) (map snd (NODES h))"

definition get_node :: "head \<Rightarrow> string \<Rightarrow> node option" where
  "get_node h name =
     (case map_of (NODES h) name of
        None \<Rightarrow> None
      | Some n \<Rightarrow> if n_status n = Some DELETED then None else Some n)"

definition node_status_of :: "head \<Rightarrow> string \<Rightarrow> node_status option" where
  "node_status_of h name = (case map_of (NODES h) name of None \<Rightarrow> None | Some n \<Rightarrow> n_status n)"

definition NODE_FRESHNESS_SEC :: real where
  "NODE_FRESHNESS_SEC = 15"

definition node_is_fresh :: "real \<Rightarrow> node \<Rightarrow> bool" where
  "node_is_fresh now n \<longleftrightarrow> now - get_or 0 (n_last_push_at n) \<le> NODE_FRESHNESS_SEC"

definition durable_fields :: "string list" where
  "durable_fields =
     [''host'', ''public_ip'', ''private_ip'', ''zone'', ''current_job'', ''reserved_for_job'',
      ''job_scope_id'']"

text \<open>Whether the merge rules refuse a requested status.\<close>

definition status_refused :: "node_status option \<Rightarrow> node_status option \<Rightarrow> bool" where
  "status_refused current requested \<longleftrightarrow>
     (current \<in> {Some DELETED, Some FAILED} \<and> requested \<in> {Some BOOTING, Some READY, Some RUNNING})
     \<or> (requested = Some DELETED \<and> current = Some FAILED)"

definition update_node :: "head \<Rightarrow> string \<Rightarrow> node_field list \<Rightarrow> head \<times> node" where
  "update_node h name us =
     (let n = get_or (empty_node name) (map_of (NODES h) name);
          current = n_status n;
          refused = status_refused current (updates_status us);
          us' = (if refused then drop_status us else us);
          new_status = (if refused then None else updates_status us);
          merged = apply_node_updates us' n;
          status_changed = (new_status \<noteq> None \<and> new_status \<noteq> current);
          durable_changed = (status_changed \<or> list_ex (\<lambda>k. has_key k us') durable_fields);
          h1 = (if durable_changed then history_upsert_node name merged h else h);
          h2 = h1\<lparr>NODES := dset name merged (NODES h1)\<rparr>;
          h3 = (if status_changed then h2\<lparr>keep_awake_active := has_live_nodes h2\<rparr> else h2);
          h4 = (if status_changed \<or> has_key ''host'' us' \<or> has_key ''current_job'' us'
                then publish [NodeEvent (n_status merged = Some DELETED) merged] h3 else h3)
      in (h4, merged))"

definition record_node_push :: "real \<Rightarrow> head \<Rightarrow> string \<Rightarrow> node_field list \<Rightarrow> head \<times> node" where
  "record_node_push now h name us =
     update_node h name (us @ [NLastPushAt (Some now), NLoadedFromHistory False])"

definition remove_node :: "head \<Rightarrow> string \<Rightarrow> head" where
  "remove_node h name =
     (let h1 = h\<lparr>NODES := ddel name (NODES h)\<rparr>;
          h2 = h1\<lparr>keep_awake_active := has_live_nodes h1\<rparr>
      in case map_of (NODES h) name of
           None \<Rightarrow> h2
         | Some n \<Rightarrow> publish [NodeEvent True n] h2)"

section \<open>Job admission\<close>

definition pause_job_admission_if_idle :: "head \<Rightarrow> head \<times> bool" where
  "pause_job_admission_if_idle h =
     (if list_ex (\<lambda>(k, j). j_status j = Some JOB_RUNNING) (JOBS h) then (h, False)
      else (h\<lparr>admission_paused := True\<rparr>, True))"

definition resume_job_admission :: "head \<Rightarrow> head" where
  "resume_job_admission h = h\<lparr>admission_paused := False\<rparr>"

definition job_lookup :: "head \<Rightarrow> string \<Rightarrow> job option" where
  "job_lookup h job_id =
     (case map_of (JOBS h) job_id of
        Some j \<Rightarrow> Some j
      | None \<Rightarrow> map_option (\<lambda>j. j\<lparr>j_assigned_nodes := []\<rparr>) (map_of (hist_jobs h) job_id))"

definition get_or_load_job :: "head \<Rightarrow> string \<Rightarrow> head \<times> job option" where
  "get_or_load_job h job_id =
     (case map_of (JOBS h) job_id of
        Some j \<Rightarrow> (h, Some j)
      | None \<Rightarrow>
          (case map_of (hist_jobs h) job_id of
             None \<Rightarrow> (h, None)
           | Some stored \<Rightarrow>
               (let j = stored\<lparr>j_assigned_nodes := []\<rparr>
                in (h\<lparr>JOBS := dset job_id j (JOBS h)\<rparr>, Some j))))"

definition claimable :: "real \<Rightarrow> node option \<Rightarrow> bool" where
  "claimable now n \<longleftrightarrow>
     (case n of
        None \<Rightarrow> False
      | Some n \<Rightarrow> n_status n = Some READY \<and> \<not> truthy (n_current_job n)
          \<and> \<not> truthy (n_reserved_for_job n) \<and> \<not> truthy (n_job_scope_id n) \<and> node_is_fresh now n)"

definition admit_job ::
  "real \<Rightarrow> head \<Rightarrow> string \<Rightarrow> job \<Rightarrow> string list \<Rightarrow> head \<times> bool \<times> start_response option" where
  "admit_job now h job_id job_in selected =
     (let job0 = job_in\<lparr>j_assigned_nodes := []\<rparr>;
          (h1, existing) = get_or_load_job h job_id
      in case existing of
           Some j \<Rightarrow> (h1, False, j_start_response j)
         | None \<Rightarrow>
             if admission_paused h1 then (h1, False, None)
             else if list_ex (\<lambda>name. \<not> claimable now (map_of (NODES h1) name)) selected
             then (h1, False, None)
             else
               (let snapshots = map (\<lambda>name. (the (map_of (NODES h1) name))
                      \<lparr>n_reserved_for_job := Some job_id\<rparr>) selected;
                    h2 = history_upsert_job_and_nodes job_id job0 snapshots h1;
                    h3 = h2\<lparr>NODES := foldl (\<lambda>d n. dset (n_instance_name n) n d) (NODES h2) snapshots,
                            JOBS := dset job_id job0 (JOBS h2)\<rparr>;
                    h4 = publish (map (NodeEvent False) snapshots
                           @ [JobEvent job_id (job_summary_of job0)]) h3
                in (h4, True, j_start_response job0)))"

text \<open>\<open>get_job\<close> returns the job without its private keys, and its result count.\<close>

definition get_job :: "head \<Rightarrow> string \<Rightarrow> head \<times> (job \<times> int) option" where
  "get_job h job_id =
     (case get_or_load_job h job_id of
        (h1, None) \<Rightarrow> (h1, None)
      | (h1, Some j) \<Rightarrow>
          (h1, Some (j\<lparr>j_assigned_nodes := [], j_start_response := None\<rparr>,
                     sum_results (j_assigned_nodes j))))"

definition get_job_start_response :: "head \<Rightarrow> string \<Rightarrow> head \<times> start_response option" where
  "get_job_start_response h job_id =
     (case get_or_load_job h job_id of
        (h1, None) \<Rightarrow> (h1, None)
      | (h1, Some j) \<Rightarrow> (h1, j_start_response j))"

section \<open>Job updates\<close>

definition cancelable_child_ids :: "head \<Rightarrow> string \<Rightarrow> string list" where
  "cancelable_child_ids h job_id =
     map fst (filter (\<lambda>(child_id, child).
         j_parent_job_id child = Some job_id \<and> j_status child = Some JOB_RUNNING
         \<and> \<not> (j_is_background_job child \<and> j_all_inputs_uploaded child)) (JOBS h))"

text \<open>The job after the merge: the status rule, the end time, the appended failure reason.\<close>

definition merged_job :: "real \<Rightarrow> job \<Rightarrow> job_field list \<Rightarrow> string option \<Rightarrow> job" where
  "merged_job now j us append_fail_reason =
     (let us' = (if job_updates_status us = Some JOB_COMPLETED \<and> j_status j \<noteq> Some JOB_RUNNING
                 then filter (\<lambda>u. \<not> is_status_field u) us else us);
          j1 = apply_job_updates us' j;
          j2 = (if job_terminal j1 \<and> \<not> job_terminal j \<and> j_ended_at j1 = None
                then j1\<lparr>j_ended_at := Some now\<rparr> else j1)
      in case append_fail_reason of
           None \<Rightarrow> j2
         | Some r \<Rightarrow> if r \<in> set (j_fail_reason j2) then j2
                     else j2\<lparr>j_fail_reason := j_fail_reason j2 @ [r]\<rparr>)"

definition release_node :: "string \<Rightarrow> node \<Rightarrow> node" where
  "release_node job_id n =
     (if n_reserved_for_job n = Some job_id then n\<lparr>n_reserved_for_job := None\<rparr> else n)"

definition reserved_nodes :: "head \<Rightarrow> string \<Rightarrow> node list" where
  "reserved_nodes h job_id =
     filter (\<lambda>n. n_reserved_for_job n = Some job_id) (map snd (NODES h))"

text \<open>
  Everything \<open>update_job\<close> does to one job, without the cascade: \<open>None\<close> when the job does not exist,
  else the new head and the children to cancel.
\<close>

definition update_job_step ::
  "real \<Rightarrow> head \<Rightarrow> string \<Rightarrow> job_field list \<Rightarrow> string option \<Rightarrow> (head \<times> job \<times> string list) option" where
  "update_job_step now h job_id us append_fail_reason =
     (case get_or_load_job h job_id of
        (h1, None) \<Rightarrow> None
      | (h1, Some j) \<Rightarrow>
          (let j' = merged_job now j us append_fail_reason;
               entered_terminal = (job_terminal j' \<and> \<not> job_terminal j);
               h2 = h1\<lparr>JOBS := dset job_id j' (JOBS h1)\<rparr>;
               released = (if job_terminal j'
                  then map (release_node job_id) (reserved_nodes h2 job_id) else []);
               h3 = (if job_terminal j'
                  then h2\<lparr>NODES := dmap (\<lambda>_. release_node job_id) (NODES h2)\<rparr> else h2);
               children = (if entered_terminal \<and> j_status j' \<in> {Some JOB_FAILED, Some JOB_CANCELED}
                  then cancelable_child_ids h3 job_id else []);
               h4 = history_upsert_job_and_nodes job_id j' released h3;
               h5 = publish (map (NodeEvent False) released
                  @ [JobEvent job_id (job_summary_of j')]) h4;
               became_failed = (job_updates_status us = Some JOB_FAILED \<and> j_status j \<noteq> Some JOB_FAILED);
               h6 = (if became_failed then h5\<lparr>debug_shipped := debug_shipped h5 @ [job_id]\<rparr> else h5)
           in Some (h6, j', children)))"

fun status_lower :: "job_status option \<Rightarrow> string" where
  "status_lower None = ''none''"
| "status_lower (Some JOB_RUNNING) = ''running''"
| "status_lower (Some JOB_COMPLETED) = ''completed''"
| "status_lower (Some JOB_FAILED) = ''failed''"
| "status_lower (Some JOB_CANCELED) = ''canceled''"

text \<open>One cancellation the cascade owes: the child, its parent and the parent's status word.\<close>

type_synonym cancellation = "string \<times> string \<times> string"

definition cascade_log :: "cancellation \<Rightarrow> head \<Rightarrow> head" where
  "cascade_log c h =
     h\<lparr>hist_job_logs := hist_job_logs h
        @ [(fst c, ''Job canceled because its parent job was '' @ snd (snd c) @ ''.'')]\<rparr>"

definition cascade_updates :: "cancellation \<Rightarrow> job_field list" where
  "cascade_updates c =
     [JStatus (Some JOB_CANCELED), JDashboardCanceled True,
      JTerminalReason (Some (Reason ''parent_terminated'' ''cascade''
        (''The parent job '' @ fst (snd c) @ '' was '' @ snd (snd c) @ ''.'')))]"

definition pending_jobs :: "head \<Rightarrow> string set" where
  "pending_jobs h = {k. \<exists>j. job_lookup h k = Some j \<and> \<not> job_terminal j}"

definition cancellations :: "string \<Rightarrow> job \<Rightarrow> string list \<Rightarrow> cancellation list" where
  "cancellations parent j children = map (\<lambda>c. (c, parent, status_lower (j_status j))) children"

subsection \<open>What the building blocks leave alone\<close>

lemma history_upsert_node_frame [simp]:
  "NODES (history_upsert_node name n h) = NODES h" "JOBS (history_upsert_node name n h) = JOBS h"
  "hist_jobs (history_upsert_node name n h) = hist_jobs h"
  "hist_results (history_upsert_node name n h) = hist_results h"
  "admission_paused (history_upsert_node name n h) = admission_paused h"
  "hist_nodes (history_upsert_node name n h) = dset name n (hist_nodes h)"
  by (simp_all add: history_upsert_node_def)

lemma history_upsert_job_frame [simp]:
  "NODES (history_upsert_job k j h) = NODES h" "JOBS (history_upsert_job k j h) = JOBS h"
  "hist_nodes (history_upsert_job k j h) = hist_nodes h"
  "hist_jobs (history_upsert_job k j h) = dset k (j\<lparr>j_assigned_nodes := []\<rparr>) (hist_jobs h)"
  "admission_paused (history_upsert_job k j h) = admission_paused h"
  by (simp_all add: history_upsert_job_def Let_def)

lemma fold_upsert_node_frame:
  "NODES (foldl (\<lambda>h n. history_upsert_node (n_instance_name n) n h) h ns) = NODES h"
  "JOBS (foldl (\<lambda>h n. history_upsert_node (n_instance_name n) n h) h ns) = JOBS h"
  "hist_jobs (foldl (\<lambda>h n. history_upsert_node (n_instance_name n) n h) h ns) = hist_jobs h"
  "hist_results (foldl (\<lambda>h n. history_upsert_node (n_instance_name n) n h) h ns) = hist_results h"
  "admission_paused (foldl (\<lambda>h n. history_upsert_node (n_instance_name n) n h) h ns)
     = admission_paused h"
  "hist_nodes (foldl (\<lambda>h n. history_upsert_node (n_instance_name n) n h) h ns)
     = foldl (\<lambda>d n. dset (n_instance_name n) n d) (hist_nodes h) ns"
  by (induction ns arbitrary: h) simp_all

lemma history_upsert_job_and_nodes_frame [simp]:
  "NODES (history_upsert_job_and_nodes k j ns h) = NODES h"
  "JOBS (history_upsert_job_and_nodes k j ns h) = JOBS h"
  "hist_jobs (history_upsert_job_and_nodes k j ns h) = dset k (j\<lparr>j_assigned_nodes := []\<rparr>) (hist_jobs h)"
  "hist_results (history_upsert_job_and_nodes k j ns h) = hist_results (history_upsert_job k j h)"
  "admission_paused (history_upsert_job_and_nodes k j ns h) = admission_paused h"
  "hist_nodes (history_upsert_job_and_nodes k j ns h)
     = foldl (\<lambda>d n. dset (n_instance_name n) n d) (hist_nodes h) ns"
  by (simp_all add: history_upsert_job_and_nodes_def fold_upsert_node_frame)

lemma publish_frame [simp]:
  "NODES (publish es h) = NODES h" "JOBS (publish es h) = JOBS h"
  "hist_nodes (publish es h) = hist_nodes h" "hist_jobs (publish es h) = hist_jobs h"
  "hist_results (publish es h) = hist_results h"
  "admission_paused (publish es h) = admission_paused h"
  by (simp_all add: publish_def)

lemma cascade_log_frame [simp]:
  "NODES (cascade_log c h) = NODES h" "JOBS (cascade_log c h) = JOBS h"
  "hist_nodes (cascade_log c h) = hist_nodes h" "hist_jobs (cascade_log c h) = hist_jobs h"
  "hist_results (cascade_log c h) = hist_results h"
  "admission_paused (cascade_log c h) = admission_paused h"
  by (simp_all add: cascade_log_def)

lemma job_lookup_cong: "JOBS h = JOBS h' \<Longrightarrow> hist_jobs h = hist_jobs h' \<Longrightarrow> job_lookup h k = job_lookup h' k"
  by (simp add: job_lookup_def cong: option.case_cong)

lemma pending_jobs_cascade_log [simp]: "pending_jobs (cascade_log c h) = pending_jobs h"
  by (simp add: pending_jobs_def job_lookup_cong [of "cascade_log c h" h])

lemma get_or_load_job_lookup:
  "snd (get_or_load_job h k) = job_lookup h k"
  "job_lookup (fst (get_or_load_job h k)) k' = job_lookup h k'"
  "NODES (fst (get_or_load_job h k)) = NODES h"
  "hist_nodes (fst (get_or_load_job h k)) = hist_nodes h"
  "hist_jobs (fst (get_or_load_job h k)) = hist_jobs h"
  "hist_results (fst (get_or_load_job h k)) = hist_results h"
  "admission_paused (fst (get_or_load_job h k)) = admission_paused h"
  by (auto simp: get_or_load_job_def job_lookup_def Let_def split: option.splits)

lemma get_or_load_job_JOBS:
  "map_of (JOBS (fst (get_or_load_job h k))) k' = (if k' = k then job_lookup h k else map_of (JOBS h) k')"
  by (auto simp: get_or_load_job_def job_lookup_def Let_def split: option.splits)

lemma distinct_get_or_load_job [simp]:
  "distinct (dkeys (JOBS h)) \<Longrightarrow> distinct (dkeys (JOBS (fst (get_or_load_job h k))))"
  by (auto simp: get_or_load_job_def Let_def split: option.splits)

text \<open>The update of one job, in one statement: who changes, and to what.\<close>

lemma update_job_step_None: "update_job_step now h k us r = None \<longleftrightarrow> job_lookup h k = None"
  using get_or_load_job_lookup(1) [of h k]
  by (cases "get_or_load_job h k") (auto simp: update_job_step_def Let_def split: option.splits)

lemma update_job_step_Some:
  assumes "update_job_step now h k us r = Some (h', j', kids)"
  obtains j where "job_lookup h k = Some j" "j' = merged_job now j us r"
    "map_of (JOBS h') k = Some j'"
    "\<And>k'. k' \<noteq> k \<Longrightarrow> map_of (JOBS h') k' = map_of (JOBS h) k'"
    "\<And>k'. job_lookup h' k' = (if k' = k then Some j' else job_lookup h k')"
    "NODES h' = (if job_terminal j' then dmap (\<lambda>_. release_node k) (NODES h) else NODES h)"
    "hist_jobs h' = dset k (j'\<lparr>j_assigned_nodes := []\<rparr>) (hist_jobs h)"
    "admission_paused h' = admission_paused h"
    "kids = (if job_terminal j' \<and> \<not> job_terminal j \<and> j_status j' \<in> {Some JOB_FAILED, Some JOB_CANCELED}
       then cancelable_child_ids h' k else [])"
    "hist_nodes h' = foldl (\<lambda>d n. dset (n_instance_name n) n d) (hist_nodes h)
       (if job_terminal j' then map (release_node k) (reserved_nodes h k) else [])"
proof -
  obtain h1 where g: "get_or_load_job h k = (h1, job_lookup h k)"
    by (metis get_or_load_job_lookup(1) prod.collapse)
  then obtain j where j: "job_lookup h k = Some j"
    using assms update_job_step_None [of now h k us r] by (cases "job_lookup h k") auto
  have f1: "NODES h1 = NODES h" "hist_jobs h1 = hist_jobs h" "hist_nodes h1 = hist_nodes h"
    "admission_paused h1 = admission_paused h"
    using get_or_load_job_lookup [of h k] g by auto
  have f2: "map_of (JOBS h1) k' = (if k' = k then Some j else map_of (JOBS h) k')" for k'
    using get_or_load_job_JOBS [of h k k'] g j by simp
  have jk: "j' = merged_job now j us r"
    using assms g j by (auto simp: update_job_step_def Let_def split: if_splits)
  have JO: "JOBS h' = dset k j' (JOBS h1)"
    using assms g j by (auto simp: update_job_step_def Let_def split: if_splits)
  have HJ: "hist_jobs h' = dset k (j'\<lparr>j_assigned_nodes := []\<rparr>) (hist_jobs h)"
    using assms g j f1 by (auto simp: update_job_step_def Let_def split: if_splits)
  have look: "job_lookup h' k' = (if k' = k then Some j' else job_lookup h k')" for k'
    using JO HJ f2 by (auto simp: job_lookup_def cong: option.case_cong)
  show thesis
  proof (rule that [OF j jk])
    show "map_of (JOBS h') k = Some j'" using JO by simp
    show "\<And>k'. k' \<noteq> k \<Longrightarrow> map_of (JOBS h') k' = map_of (JOBS h) k'" using JO f2 by simp
    show "\<And>k'. job_lookup h' k' = (if k' = k then Some j' else job_lookup h k')" by (rule look)
    show "NODES h' = (if job_terminal j' then dmap (\<lambda>_. release_node k) (NODES h) else NODES h)"
      using assms g j f1 by (auto simp: update_job_step_def Let_def split: if_splits)
    show "hist_jobs h' = dset k (j'\<lparr>j_assigned_nodes := []\<rparr>) (hist_jobs h)" by (rule HJ)
    show "admission_paused h' = admission_paused h"
      using assms g j f1 by (auto simp: update_job_step_def Let_def split: if_splits)
    show "kids = (if job_terminal j' \<and> \<not> job_terminal j
        \<and> j_status j' \<in> {Some JOB_FAILED, Some JOB_CANCELED} then cancelable_child_ids h' k else [])"
      using assms g j jk JO
      by (auto simp: update_job_step_def Let_def cancelable_child_ids_def split: if_splits)
    show "hist_nodes h' = foldl (\<lambda>d n. dset (n_instance_name n) n d) (hist_nodes h)
       (if job_terminal j' then map (release_node k) (reserved_nodes h k) else [])"
      using assms g j f1
      by (auto simp: update_job_step_def Let_def reserved_nodes_def split: if_splits)
  qed
qed

subsection \<open>The status of a merged job\<close>

lemma no_status_fold: "\<not> list_ex is_status_field us \<Longrightarrow> foldl job_status_step acc us = acc"
proof (induction us arbitrary: acc)
  case (Cons u us)
  then show ?case by (cases u) auto
qed simp

lemma no_status_apply:
  "\<not> list_ex is_status_field us \<Longrightarrow> j_status (foldl (\<lambda>j u. set_job_field u j) j us) = j_status j"
proof (induction us arbitrary: j)
  case (Cons u us)
  then show ?case by (cases u) auto
qed simp

lemma apply_job_updates_status:
  "j_status (apply_job_updates us j) =
     (if list_ex is_status_field us then job_updates_status us else j_status j)"
proof -
  have "j_status (foldl (\<lambda>j u. set_job_field u j) j us) =
      (if list_ex is_status_field us then foldl job_status_step acc us else j_status j)" for acc
  proof (induction us arbitrary: j acc)
    case (Cons u us)
    show ?case
    proof (cases "is_status_field u")
      case True
      then obtain v where u: "u = JStatus v" by (cases u) auto
      show ?thesis
        using Cons.IH [of "set_job_field u j" v] u
        by (cases "list_ex is_status_field us") (auto simp: no_status_fold)
    next
      case False
      then have "j_status (set_job_field u j) = j_status j" "job_status_step acc u = acc"
        by (cases u; simp)+
      with False Cons.IH [of "set_job_field u j" acc] show ?thesis by simp
    qed
  qed simp
  from this [of None] show ?thesis by (simp add: apply_job_updates_def job_updates_status_def)
qed

lemma merged_job_status:
  "j_status (merged_job now j us r) =
     (if \<not> list_ex is_status_field us then j_status j
      else if job_updates_status us = Some JOB_COMPLETED \<and> j_status j \<noteq> Some JOB_RUNNING then j_status j
      else job_updates_status us)"
proof -
  let ?c = "job_updates_status us = Some JOB_COMPLETED \<and> j_status j \<noteq> Some JOB_RUNNING"
  let ?us = "if ?c then filter (\<lambda>u. \<not> is_status_field u) us else us"
  have "j_status (merged_job now j us r) = j_status (apply_job_updates ?us j)"
    unfolding merged_job_def Let_def by (cases r) auto
  moreover have "\<not> list_ex is_status_field (filter (\<lambda>u. \<not> is_status_field u) us)"
    by (auto simp: list_ex_iff)
  ultimately show ?thesis by (cases ?c) (auto simp: apply_job_updates_status)
qed

lemma cascade_updates_status [simp]:
  "list_ex is_status_field (cascade_updates c)" "job_updates_status (cascade_updates c) = Some JOB_CANCELED"
  by (simp_all add: cascade_updates_def job_updates_status_def)

lemma cascade_merged_status [simp]:
  "j_status (merged_job now j (cascade_updates c) r) = Some JOB_CANCELED"
  by (simp add: merged_job_status)

lemma job_terminal_iff:
  "job_terminal j \<longleftrightarrow> j_status j \<in> {Some JOB_COMPLETED, Some JOB_FAILED, Some JOB_CANCELED}"
  by (auto simp: job_terminal_def TERMINAL_JOB_STATUSES_def)

lemma pending_jobs_finite [simp]: "finite (pending_jobs h)"
proof (rule finite_subset)
  show "pending_jobs h \<subseteq> set (dkeys (JOBS h)) \<union> set (dkeys (hist_jobs h))"
    by (force simp: pending_jobs_def job_lookup_def split: option.splits dest: map_of_SomeD)
qed simp

text \<open>A cancellation either finds the job already over, and owes nothing, or ends one more job.\<close>

lemma cancel_step_pending:
  assumes "update_job_step now h k us r = Some (h', j', kids)" "job_terminal j'"
  shows "pending_jobs h' = pending_jobs h - {k}" "kids \<noteq> [] \<Longrightarrow> k \<in> pending_jobs h"
proof -
  from assms(1) obtain j where j: "job_lookup h k = Some j"
    and look: "\<And>k'. job_lookup h' k' = (if k' = k then Some j' else job_lookup h k')"
    and kids: "kids = (if job_terminal j' \<and> \<not> job_terminal j
        \<and> j_status j' \<in> {Some JOB_FAILED, Some JOB_CANCELED} then cancelable_child_ids h' k else [])"
    by (rule update_job_step_Some) blast
  show "pending_jobs h' = pending_jobs h - {k}" using assms(2) by (auto simp: pending_jobs_def look)
  show "kids \<noteq> [] \<Longrightarrow> k \<in> pending_jobs h"
    using j kids by (auto simp: pending_jobs_def split: if_splits)
qed

lemma cascade_step_terminal:
  "update_job_step now h k (cascade_updates c) r = Some (h', j', kids) \<Longrightarrow>
     j_status j' = Some JOB_CANCELED \<and> job_terminal j'"
  by (elim update_job_step_Some) (simp add: job_terminal_iff)

section \<open>The cascade\<close>

text \<open>
  \<open>update_job\<close> calls itself on each child in turn, so the cancellations run depth first: the
  children a cancellation finds go in front of the siblings still waiting. Written with the call
  stack as a list; each step ends a pending job or shortens the list.
\<close>

function cascade :: "real \<Rightarrow> head \<Rightarrow> cancellation list \<Rightarrow> head" where
  "cascade now h [] = h"
| "cascade now h (c # cs) =
     (case update_job_step now (cascade_log c h) (fst c) (cascade_updates c) None of
        None \<Rightarrow> cascade now (cascade_log c h) cs
      | Some (h', j', kids) \<Rightarrow> cascade now h' (cancellations (fst c) j' kids @ cs))"
  by pat_completeness auto
termination
proof (relation "measures [\<lambda>(now, h, cs). card (pending_jobs h), \<lambda>(now, h, cs). length cs]", goal_cases)
  case (3 now h c cs r h' p j' kids)
  then have st: "update_job_step now (cascade_log c h) (fst c) (cascade_updates c) None = Some (h', j', kids)"
    by simp
  note trm = conjunct2 [OF cascade_step_terminal [OF st]]
  note pend = cancel_step_pending [OF st trm]
  show ?case
  proof (cases "kids = []")
    case True
    have "card (pending_jobs h') \<le> card (pending_jobs h)"
      using pend(1) by (intro card_mono) auto
    then show ?thesis using True by (auto simp: cancellations_def)
  next
    case False
    then have "pending_jobs h' \<subset> pending_jobs h" using pend by auto
    then have "card (pending_jobs h') < card (pending_jobs h)" by (intro psubset_card_mono) auto
    then show ?thesis by simp
  qed
qed auto

definition update_job ::
  "real \<Rightarrow> head \<Rightarrow> string \<Rightarrow> job_field list \<Rightarrow> string option \<Rightarrow> head \<times> bool" where
  "update_job now h job_id us append_fail_reason =
     (case update_job_step now h job_id us append_fail_reason of
        None \<Rightarrow> (h, False)
      | Some (h', j', kids) \<Rightarrow> (cascade now h' (cancellations job_id j' kids), True))"

end
