(* ===== verification/Job_Tracking.thy ===== *)
theory Job_Tracking
  imports Cluster_State
begin

text \<open>
  The rest of \<open>cluster_state.py\<close>: the progress nodes report about a job, the views of it the head
  sends back (\<open>job_view\<close>, \<open>peers_for_job\<close>, \<open>nodes_for_job\<close>), the replacement ledger, and one tick of
  each reaper loop. The cloud provider and the resource-metrics table are parameters of the reapers.
\<close>

section \<open>Progress\<close>

definition COUNTS_FLUSH_INTERVAL_SEC :: real where
  "COUNTS_FLUSH_INTERVAL_SEC = 5"

definition new_progress :: progress where
  "new_progress = \<lparr>p_current_num_results = 0, p_client_contact_last_1s = True,
     p_alive_workers = None, p_busy_workers = None, p_last_push_at = None\<rparr>"

record progress_report =
  pr_current_num_results :: "int option"
  pr_client_contact_last_1s :: "bool option"
  pr_alive_workers :: "int option"
  pr_busy_workers :: "int option"

definition report_progress :: "real \<Rightarrow> progress_report \<Rightarrow> progress \<Rightarrow> progress" where
  "report_progress now r p =
     p\<lparr>p_current_num_results := get_or (p_current_num_results p) (pr_current_num_results r),
       p_client_contact_last_1s := get_or (p_client_contact_last_1s p) (pr_client_contact_last_1s r),
       p_alive_workers :=
         (case pr_alive_workers r of None \<Rightarrow> p_alive_workers p | Some w \<Rightarrow> Some w),
       p_busy_workers := (case pr_busy_workers r of None \<Rightarrow> p_busy_workers p | Some w \<Rightarrow> Some w),
       p_last_push_at := Some now\<rparr>"

definition update_job_progress ::
  "real \<Rightarrow> head \<Rightarrow> string \<Rightarrow> string \<Rightarrow> progress_report \<Rightarrow> head" where
  "update_job_progress now h job_id name r =
     (case get_or_load_job h job_id of
        (h1, None) \<Rightarrow> h1
      | (h1, Some j) \<Rightarrow>
          (let p = get_or new_progress (map_of (j_assigned_nodes j) name);
               j' = j\<lparr>j_assigned_nodes := dset name (report_progress now r p) (j_assigned_nodes j)\<rparr>;
               h2 = h1\<lparr>JOBS := dset job_id j' (JOBS h1)\<rparr>
           in if now - get_or 0 (map_of (counts_flushed_at h2) job_id) \<ge> COUNTS_FLUSH_INTERVAL_SEC
              then history_upsert_job_and_nodes job_id j' []
                     (h2\<lparr>counts_flushed_at := dset job_id now (counts_flushed_at h2)\<rparr>)
              else h2))"

section \<open>Views\<close>

definition progress_is_fresh :: "real \<Rightarrow> progress \<Rightarrow> bool" where
  "progress_is_fresh now p \<longleftrightarrow> now - get_or 0 (p_last_push_at p) \<le> NODE_FRESHNESS_SEC"

definition fresh_workers :: "real \<Rightarrow> (progress \<Rightarrow> int option) \<Rightarrow> progress dict \<Rightarrow> int" where
  "fresh_workers now count d =
     (\<Sum>p\<leftarrow>d. if progress_is_fresh now (snd p) then get_or 0 (count (snd p)) else 0)"

definition job_mint_inputs :: "real \<Rightarrow> head \<Rightarrow> (string \<times> int \<times> int \<times> int) list" where
  "job_mint_inputs now h =
     map (\<lambda>(job_id, j). (job_id, sum_results (j_assigned_nodes j),
          fresh_workers now p_alive_workers (j_assigned_nodes j),
          fresh_workers now p_busy_workers (j_assigned_nodes j)))
       (filter (\<lambda>(job_id, j). j_status j = Some JOB_RUNNING) (JOBS h))"

record job_view_t =
  jv_status :: "job_status option"
  jv_grow :: bool
  jv_all_inputs_uploaded :: bool
  jv_client_has_all_results :: bool
  jv_dashboard_canceled :: bool
  jv_cluster_shutdown :: bool
  jv_cluster_restarted :: bool
  jv_any_node_client_contact :: bool
  jv_total_num_results :: int
  jv_n_inputs :: "int option"

text \<open>\<open>{"exists": False}\<close> is \<open>None\<close>.\<close>

definition job_view :: "real \<Rightarrow> head \<Rightarrow> string \<Rightarrow> head \<times> job_view_t option" where
  "job_view now h job_id =
     (case get_or_load_job h job_id of
        (h1, None) \<Rightarrow> (h1, None)
      | (h1, Some j) \<Rightarrow>
          (h1, Some \<lparr>jv_status = j_status j, jv_grow = j_grow j,
             jv_all_inputs_uploaded = j_all_inputs_uploaded j,
             jv_client_has_all_results = j_client_has_all_results j,
             jv_dashboard_canceled = j_dashboard_canceled j,
             jv_cluster_shutdown = j_cluster_shutdown j,
             jv_cluster_restarted = j_cluster_restarted j,
             jv_any_node_client_contact =
               list_ex (\<lambda>(k, p). p_client_contact_last_1s p \<and> progress_is_fresh now p)
                 (j_assigned_nodes j),
             jv_total_num_results = sum_results (j_assigned_nodes j),
             jv_n_inputs = j_n_inputs j\<rparr>))"

definition running_job_ids :: "head \<Rightarrow> string list" where
  "running_job_ids h = map fst (filter (\<lambda>(job_id, j). j_status j = Some JOB_RUNNING) (JOBS h))"

record job_node_row =
  jn_instance_name :: string
  jn_status :: "node_status option"
  jn_host :: "string option"
  jn_machine_type :: "string option"
  jn_target_parallelism :: "int option"

definition nodes_for_job :: "head \<Rightarrow> string \<Rightarrow> job_node_row list" where
  "nodes_for_job h job_id =
     map (\<lambda>(name, n). \<lparr>jn_instance_name = name, jn_status = n_status n, jn_host = n_host n,
          jn_machine_type = n_machine_type n, jn_target_parallelism = n_target_parallelism n\<rparr>)
       (filter (\<lambda>(name, n). n_status n \<noteq> Some DELETED
          \<and> (n_current_job n = Some job_id \<or> n_reserved_for_job n = Some job_id)) (NODES h))"

definition spend :: "int option \<Rightarrow> int \<Rightarrow> int option" where
  "spend budget used = map_option (\<lambda>b. max 0 (b - used)) budget"

definition record_replacement_request ::
  "head \<Rightarrow> string \<Rightarrow> string \<Rightarrow> replacement \<Rightarrow> int \<Rightarrow> int \<Rightarrow> head" where
  "record_replacement_request h job_id requesting_node request cpus_booted gpus_booted =
     (case get_or_load_job h job_id of
        (h1, None) \<Rightarrow> h1
      | (h1, Some j) \<Rightarrow>
          (let j' = j\<lparr>j_replacement_requests := dset requesting_node request (j_replacement_requests j),
                      j_grow_cpus_remaining := spend (j_grow_cpus_remaining j) cpus_booted,
                      j_grow_gpus_remaining := spend (j_grow_gpus_remaining j) gpus_booted\<rparr>
           in history_upsert_job_and_nodes job_id j' [] (h1\<lparr>JOBS := dset job_id j' (JOBS h1)\<rparr>)))"

record peer =
  pe_instance_name :: string
  pe_host :: "string option"

definition on_job :: "real \<Rightarrow> string \<Rightarrow> node \<Rightarrow> bool" where
  "on_job now job_id n \<longleftrightarrow>
     n_status n = Some RUNNING \<and> n_current_job n = Some job_id \<and> node_is_fresh now n"

definition peers_for_job :: "real \<Rightarrow> head \<Rightarrow> string \<Rightarrow> peer list \<times> string list" where
  "peers_for_job now h job_id =
     (map (\<lambda>(name, n). \<lparr>pe_instance_name = name, pe_host = n_host n\<rparr>)
        (filter (\<lambda>(name, n). on_job now job_id n) (sort_key fst (NODES h))),
      map fst (filter (\<lambda>(name, n). n_status n = Some BOOTING \<and> \<not> n_loaded_from_history n) (NODES h)))"

definition job_summary :: "head \<Rightarrow> string \<Rightarrow> job_summary_t option" where
  "job_summary h job_id = map_option job_summary_of (map_of (JOBS h) job_id)"

section \<open>The job reaper\<close>

definition REAPER_JOB_SILENCE_SEC :: real where
  "REAPER_JOB_SILENCE_SEC = 150"

definition last_push :: "progress dict \<Rightarrow> real" where
  "last_push d = (case map (\<lambda>p. get_or 0 (p_last_push_at (snd p))) d of
     [] \<Rightarrow> 0 | t # ts \<Rightarrow> foldl max t ts)"

text \<open>The verdict on one job: \<open>None\<close> leaves it alone.\<close>

definition reaper_verdict :: "real \<Rightarrow> head \<Rightarrow> string \<Rightarrow> job \<Rightarrow> job_status option" where
  "reaper_verdict now h job_id j =
     (if j_status j \<noteq> Some JOB_RUNNING then None
      else if now - (case j_started_at j of None \<Rightarrow> now | Some t \<Rightarrow> if t = 0 then now else t)
              < REAPER_JOB_SILENCE_SEC then None
      else
        (let n_results = sum_results (j_assigned_nodes j);
             n_inputs = get_or 0 (j_n_inputs j);
             all_results_in = (n_inputs > 0 \<and> n_results \<ge> n_inputs);
             fresh_nodes_on_job = list_ex (\<lambda>(name, n). on_job now job_id n) (NODES h);
             dead = (now - last_push (j_assigned_nodes j) > REAPER_JOB_SILENCE_SEC
                     \<and> \<not> fresh_nodes_on_job)
         in if \<not> dead then None
            else if j_client_has_all_results j
                \<or> (j_is_background_job j \<and> j_all_inputs_uploaded j \<and> all_results_in)
            then Some JOB_COMPLETED else Some JOB_FAILED))"

definition reap_updates :: "job_status \<Rightarrow> real \<Rightarrow> job_field list" where
  "reap_updates status ended_at =
     (if status = JOB_COMPLETED then
        [JStatus (Some JOB_COMPLETED), JEndedAt (Some ended_at),
         JTerminalReason (Some (Reason ''reaped_completed'' ''job_reaper''
           ''The job had produced all results when its nodes stopped reporting.''))]
      else
        [JStatus (Some JOB_FAILED), JEndedAt (Some ended_at),
         JTerminalReason (Some (Reason ''nodes_lost'' ''job_reaper''
           ''No node remained available to finish the job.''))])"

definition reap_job ::
  "(string \<Rightarrow> real option) \<Rightarrow> real \<Rightarrow> head \<Rightarrow> string \<times> job_status \<Rightarrow> head" where
  "reap_job last_metrics now h c =
     (let (job_id, status) = c;
          ended_at = (case last_metrics job_id of None \<Rightarrow> now | Some t \<Rightarrow> if t = 0 then now else t)
      in if status = JOB_COMPLETED
         then fst (update_job now h job_id (reap_updates status ended_at) None)
         else
           (let h1 = fst (update_job now h job_id (reap_updates status ended_at)
                  (Some (''main_svc: job is '' @ [CHR 0x22] @ ''running'' @ [CHR 0x22] @ '' but no nodes working on it ???'')))
            in h1\<lparr>hist_job_logs := hist_job_logs h1
                 @ [(job_id, ''Job failed due to internal cluster error.'')]\<rparr>))"

definition reaper_candidates :: "real \<Rightarrow> head \<Rightarrow> (string \<times> job_status) list" where
  "reaper_candidates now h =
     List.map_filter (\<lambda>(job_id, j). map_option (Pair job_id) (reaper_verdict now h job_id j)) (JOBS h)"

definition job_reaper_tick ::
  "(string \<Rightarrow> real option) \<Rightarrow> real \<Rightarrow> real \<Rightarrow> head \<Rightarrow> head" where
  "job_reaper_tick last_metrics loop_started_at now h =
     (if now - loop_started_at < REAPER_JOB_SILENCE_SEC then h
      else foldl (reap_job last_metrics now) h (reaper_candidates now h))"

section \<open>The node reaper\<close>

definition REAPER_NODE_SILENCE_SEC :: real where
  "REAPER_NODE_SILENCE_SEC = 150"

definition REAPER_BOOTING_NODE_AGE_SEC :: real where
  "REAPER_BOOTING_NODE_AGE_SEC = 15 * 60"

definition node_dead :: "real \<Rightarrow> node \<Rightarrow> bool result" where
  "node_dead now n =
     (case n_status n of
        Some BOOTING \<Rightarrow>
          (case n_started_booting_at n of
             None \<Rightarrow> Inl (KeyError ''started_booting_at'')
           | Some t \<Rightarrow> Inr (now - t > REAPER_BOOTING_NODE_AGE_SEC))
      | Some READY \<Rightarrow> Inr (now - get_or 0 (n_last_push_at n) > REAPER_NODE_SILENCE_SEC)
      | Some RUNNING \<Rightarrow> Inr (now - get_or 0 (n_last_push_at n) > REAPER_NODE_SILENCE_SEC)
      | _ \<Rightarrow> Inr False)"

definition group_step :: "node list dict \<Rightarrow> node \<Rightarrow> node list dict result" where
  "group_step d n =
     (case n_gcp_region n of
        None \<Rightarrow> Inl (KeyError ''gcp_region'')
      | Some region \<Rightarrow> Inr (dset region (get_or [] (map_of d region) @ [n]) d))"

definition reap_reason :: "bool \<Rightarrow> bool \<Rightarrow> reason" where
  "reap_reason boot_timed_out vm_existed =
     (if boot_timed_out then Reason ''boot_timeout'' ''node_reaper''
        ''The node did not finish booting before its timeout.''
      else if vm_existed then Reason ''silent_vm_deleted'' ''node_reaper''
        ''The node stopped reporting and its VM was deleted.''
      else Reason ''vm_missing'' ''node_reaper''
        ''The node stopped reporting and its VM no longer existed.'')"

text \<open>
  One dead node of a region: its VM is deleted first if it still exists; if that call raises
  (\<open>delete_ok\<close> is false) the node is left for the next tick.
\<close>

definition reap_node :: "string list \<Rightarrow> (string \<Rightarrow> bool) \<Rightarrow> real \<Rightarrow> head \<Rightarrow> node \<Rightarrow> head" where
  "reap_node existing delete_ok now h n =
     (let name = n_instance_name n; vm_existed = (name \<in> set existing)
      in if vm_existed \<and> \<not> delete_ok name then h
         else fst (update_node h name
           [NStatus (Some DELETED), NEndedAt (Some now),
            NTerminalReason (Some (reap_reason (n_status n = Some BOOTING) vm_existed))]))"

definition reap_region ::
  "(string list \<Rightarrow> string \<Rightarrow> string list option) \<Rightarrow> (string \<Rightarrow> bool) \<Rightarrow> real \<Rightarrow> head
    \<Rightarrow> string \<times> node list \<Rightarrow> head" where
  "reap_region existing_instances delete_ok now h g =
     (case existing_instances (map n_instance_name (snd g)) (fst g) of
        None \<Rightarrow> h
      | Some existing \<Rightarrow> foldl (reap_node existing delete_ok now) h (snd g))"

definition node_reaper_tick ::
  "(string list \<Rightarrow> string \<Rightarrow> string list option) \<Rightarrow> (string \<Rightarrow> bool) \<Rightarrow> real \<Rightarrow> real \<Rightarrow> head
    \<Rightarrow> head result" where
  "node_reaper_tick existing_instances delete_ok loop_started_at now h =
     (if now - loop_started_at < REAPER_NODE_SILENCE_SEC then Inr h
      else bind_err (filter_err (node_dead now) (map snd (NODES h))) (\<lambda>candidates.
        bind_err (fold_err group_step [] candidates) (\<lambda>by_region.
          Inr (foldl (reap_region existing_instances delete_ok now) h by_region))))"

end
