(* ===== verification/Head_Steps.thy ===== *)
theory Head_Steps
  imports Job_Tracking
begin

text \<open>
  The head as a transition system: \<open>head_step\<close> is one locked operation on the live state,
  \<open>restart\<close> a new process that reloads the history, \<open>head_life\<close> every state a head can be in.
  The invariant says what the history holds while the process runs: the durable part of every node
  that has a status, and every job except its per-node progress.
\<close>

section \<open>What one node update does\<close>

definition durable_view ::
  "node \<Rightarrow> string option \<times> string option \<times> string option \<times> string option \<times> string option
    \<times> string option \<times> string option" where
  "durable_view n = (n_host n, n_public_ip n, n_private_ip n, n_zone n, n_current_job n,
     n_reserved_for_job n, n_job_scope_id n)"

definition node_before :: "head \<Rightarrow> string \<Rightarrow> node" where
  "node_before h name = get_or (empty_node name) (map_of (NODES h) name)"

lemma apply_node_updates_Nil [simp]: "apply_node_updates [] n = n"
  by (simp add: apply_node_updates_def)

lemma apply_node_updates_Cons [simp]:
  "apply_node_updates (u # us) n = apply_node_updates us (set_node_field u n)"
  by (simp add: apply_node_updates_def)

lemma apply_node_updates_name [simp]: "n_instance_name (apply_node_updates us n) = n_instance_name n"
proof (induction us arbitrary: n)
  case (Cons u us)
  then show ?case by (cases u) auto
qed simp

lemma has_key_Cons [simp]: "has_key k (u # us) \<longleftrightarrow> node_key u = k \<or> has_key k us"
  by (auto simp: has_key_def)

lemma has_key_Nil [simp]: "\<not> has_key k []"
  by (simp add: has_key_def)

lemma durable_view_kept:
  "\<not> list_ex (\<lambda>k. has_key k us) durable_fields \<Longrightarrow> durable_view (apply_node_updates us n) = durable_view n"
proof (induction us arbitrary: n)
  case (Cons u us)
  then have "\<not> list_ex (\<lambda>k. has_key k us) durable_fields" by (auto simp: durable_fields_def)
  with Cons.IH have "durable_view (apply_node_updates (u # us) n) = durable_view (set_node_field u n)"
    by simp
  also have "\<dots> = durable_view n"
    using Cons.prems by (cases u) (auto simp: durable_fields_def durable_view_def)
  finally show ?case .
qed simp

lemma foldl_status_step:
  "foldl status_step acc us =
     (if has_key ''status'' us then foldl status_step None us else acc)"
proof (induction us arbitrary: acc)
  case (Cons u us)
  show ?case
    using Cons [of "status_step acc u"] Cons [of "status_step None u"] by (cases u) auto
qed simp

lemma apply_status:
  "n_status (apply_node_updates us n) = (if has_key ''status'' us then updates_status us else n_status n)"
proof (induction us arbitrary: n)
  case (Cons u us)
  show ?case
    using Cons [of "set_node_field u n"] foldl_status_step [of "status_step None u" us]
    by (cases u) (auto simp: updates_status_def)
qed (simp add: updates_status_def)

lemma updates_status_Some:
  "NStatus None \<notin> set us \<Longrightarrow> has_key ''status'' us \<longleftrightarrow> updates_status us \<noteq> None"
proof (induction us)
  case (Cons u us)
  then show ?case
    using foldl_status_step [of "status_step None u" us]
    by (cases u) (auto simp: updates_status_def not_None_eq [symmetric] simp del: not_None_eq split: if_splits)
qed (simp add: updates_status_def)

lemma drop_status_key [simp]: "\<not> has_key ''status'' (drop_status us)"
  by (auto simp: has_key_def drop_status_def)

text \<open>The status an update leaves, and where it is written.\<close>

definition next_status :: "node_status option \<Rightarrow> node_status option \<Rightarrow> node_status option" where
  "next_status current requested =
     (if requested = None \<or> status_refused current requested then current else requested)"

lemma update_node_status:
  assumes "NStatus None \<notin> set us"
  shows "n_status (snd (update_node h name us)) = next_status (n_status (node_before h name)) (updates_status us)"
  using updates_status_Some [OF assms]
  by (auto simp: update_node_def Let_def node_before_def next_status_def apply_status)

lemma update_node_frame:
  "NODES (fst (update_node h name us)) = dset name (snd (update_node h name us)) (NODES h)"
  "JOBS (fst (update_node h name us)) = JOBS h"
  "hist_jobs (fst (update_node h name us)) = hist_jobs h"
  "hist_results (fst (update_node h name us)) = hist_results h"
  "admission_paused (fst (update_node h name us)) = admission_paused h"
  by (simp_all add: update_node_def Let_def)

lemma update_node_name [simp]:
  "n_instance_name (snd (update_node h name us)) = n_instance_name (node_before h name)"
  by (simp add: update_node_def Let_def node_before_def)

lemma update_node_hist:
  assumes "NStatus None \<notin> set us"
  shows "hist_nodes (fst (update_node h name us)) = dset name (snd (update_node h name us)) (hist_nodes h)
    \<or> hist_nodes (fst (update_node h name us)) = hist_nodes h
      \<and> n_status (snd (update_node h name us)) = n_status (node_before h name)
      \<and> durable_view (snd (update_node h name us)) = durable_view (node_before h name)"
proof -
  define n where "n = node_before h name"
  define ref where "ref = status_refused (n_status n) (updates_status us)"
  define us' where "us' = (if ref then drop_status us else us)"
  define new where "new = (if ref then None else updates_status us)"
  define m where "m = apply_node_updates us' n"
  define chg where "chg = (new \<noteq> None \<and> new \<noteq> n_status n)"
  define dur where "dur = (chg \<or> list_ex (\<lambda>k. has_key k us') durable_fields)"
  define h1 where "h1 = (if dur then history_upsert_node name m h else h)"
  define h2 where "h2 = h1\<lparr>NODES := dset name m (NODES h1)\<rparr>"
  define h3 where "h3 = (if chg then h2\<lparr>keep_awake_active := has_live_nodes h2\<rparr> else h2)"
  define b where "b = (chg \<or> has_key ''host'' us' \<or> has_key ''current_job'' us')"
  have u: "update_node h name us =
      (if b then publish [NodeEvent (n_status m = Some DELETED) m] h3 else h3, m)"
    by (simp only: update_node_def Let_def n_def ref_def us'_def new_def m_def chg_def dur_def
        h1_def h2_def h3_def b_def node_before_def)
  have hist: "hist_nodes (fst (update_node h name us)) = (if dur then dset name m (hist_nodes h) else hist_nodes h)"
    by (simp add: u h1_def h2_def h3_def)
  show ?thesis
  proof (cases dur)
    case False
    then have "durable_view m = durable_view n"
      unfolding m_def dur_def by (intro durable_view_kept) blast
    moreover have "n_status m = n_status n"
      using False update_node_status [OF assms, of h name] u
      by (auto simp: next_status_def dur_def chg_def new_def ref_def n_def [symmetric] split: if_splits)
    ultimately show ?thesis using False hist u by (simp add: n_def)
  qed (use hist u in simp)
qed

section \<open>What the other operations do\<close>

lemma map_of_foldl_upsert:
  "(\<And>n. n \<in> set ns \<Longrightarrow> n = g (f n)) \<Longrightarrow>
     map_of (foldl (\<lambda>d n. dset (f n) n d) d ns) k = (if k \<in> f ` set ns then Some (g k) else map_of d k)"
proof (induction ns rule: rev_induct)
  case (snoc n ns)
  then have "n = g (f n)" by simp
  with snoc show ?case by auto
qed simp

lemma distinct_foldl_upsert:
  "distinct (dkeys d) \<Longrightarrow> distinct (dkeys (foldl (\<lambda>d n. dset (f n) n d) d ns))"
  by (induction ns arbitrary: d) auto

lemma job_lookup_None: "job_lookup h k = None \<longleftrightarrow> map_of (JOBS h) k = None \<and> map_of (hist_jobs h) k = None"
  by (auto simp: job_lookup_def split: option.splits)

lemma get_or_load_None: "job_lookup h k = None \<Longrightarrow> get_or_load_job h k = (h, None)"
  by (auto simp: job_lookup_None get_or_load_job_def)

text \<open>An admission either is refused, changing nothing but a lazily loaded job, or claims every node.\<close>

definition claimed :: "head \<Rightarrow> string \<Rightarrow> string \<Rightarrow> node" where
  "claimed h job_id name = (the (map_of (NODES h) name))\<lparr>n_reserved_for_job := Some job_id\<rparr>"

definition admissible :: "real \<Rightarrow> head \<Rightarrow> string \<Rightarrow> string list \<Rightarrow> bool" where
  "admissible now h job_id sel \<longleftrightarrow> job_lookup h job_id = None \<and> \<not> admission_paused h
     \<and> (\<forall>name \<in> set sel. claimable now (map_of (NODES h) name))"

lemma admit_job_refused:
  assumes "\<not> admissible now h k sel"
  shows "fst (admit_job now h k j sel) = fst (get_or_load_job h k)"
    "fst (snd (admit_job now h k j sel)) = False"
    "snd (snd (admit_job now h k j sel)) = (case job_lookup h k of None \<Rightarrow> None | Some e \<Rightarrow> j_start_response e)"
proof -
  obtain h1 where g: "get_or_load_job h k = (h1, job_lookup h k)"
    by (metis get_or_load_job_lookup(1) prod.collapse)
  have "admission_paused h1 = admission_paused h" "NODES h1 = NODES h"
    using get_or_load_job_lookup [of h k] g by auto
  then show "fst (admit_job now h k j sel) = fst (get_or_load_job h k)"
    "fst (snd (admit_job now h k j sel)) = False"
    "snd (snd (admit_job now h k j sel)) = (case job_lookup h k of None \<Rightarrow> None | Some e \<Rightarrow> j_start_response e)"
    using g assms by (auto simp: admit_job_def admissible_def list_ex_iff Let_def split: option.splits)
qed

lemma admit_job_accepted:
  assumes "admissible now h k sel"
  shows "fst (snd (admit_job now h k j sel))"
    "snd (snd (admit_job now h k j sel)) = j_start_response j"
    "NODES (fst (admit_job now h k j sel)) =
       foldl (\<lambda>d n. dset (n_instance_name n) n d) (NODES h) (map (claimed h k) sel)"
    "hist_nodes (fst (admit_job now h k j sel)) =
       foldl (\<lambda>d n. dset (n_instance_name n) n d) (hist_nodes h) (map (claimed h k) sel)"
    "JOBS (fst (admit_job now h k j sel)) = dset k (j\<lparr>j_assigned_nodes := []\<rparr>) (JOBS h)"
    "hist_jobs (fst (admit_job now h k j sel)) = dset k (j\<lparr>j_assigned_nodes := []\<rparr>) (hist_jobs h)"
    "admission_paused (fst (admit_job now h k j sel)) = admission_paused h"
proof -
  have g: "get_or_load_job h k = (h, None)" using assms by (simp add: admissible_def get_or_load_None)
  have ok: "\<not> list_ex (\<lambda>name. \<not> claimable now (map_of (NODES h) name)) sel" "\<not> admission_paused h"
    using assms by (auto simp: admissible_def list_ex_iff)
  note d = admit_job_def g ok Let_def claimed_def [abs_def]
  show "fst (snd (admit_job now h k j sel))" using ok by (simp add: d)
  show "snd (snd (admit_job now h k j sel)) = j_start_response j" using ok by (simp add: d)
  show "NODES (fst (admit_job now h k j sel)) =
       foldl (\<lambda>d n. dset (n_instance_name n) n d) (NODES h) (map (claimed h k) sel)"
    using ok by (simp add: d)
  show "hist_nodes (fst (admit_job now h k j sel)) =
       foldl (\<lambda>d n. dset (n_instance_name n) n d) (hist_nodes h) (map (claimed h k) sel)"
    using ok by (simp add: d)
  show "JOBS (fst (admit_job now h k j sel)) = dset k (j\<lparr>j_assigned_nodes := []\<rparr>) (JOBS h)"
    using ok by (simp add: d)
  show "hist_jobs (fst (admit_job now h k j sel)) = dset k (j\<lparr>j_assigned_nodes := []\<rparr>) (hist_jobs h)"
    using ok by (simp add: d)
  show "admission_paused (fst (admit_job now h k j sel)) = admission_paused h"
    using ok by (simp add: d)
qed

lemma status_field_in: "list_ex is_status_field us \<Longrightarrow> JStatus (job_updates_status us) \<in> set us"
proof (induction us rule: rev_induct)
  case (snoc u us)
  then show ?case by (cases u) (auto simp: job_updates_status_def)
qed simp

lemma merged_job_status_clean:
  assumes "JStatus None \<notin> set us" "JStatus (Some JOB_RUNNING) \<notin> set us"
    and "j_status (merged_job now j us r) = Some JOB_RUNNING"
  shows "j_status j = Some JOB_RUNNING"
  using assms status_field_in [of us] by (auto simp: merged_job_status split: if_splits)

lemma update_job_step_distinct:
  "update_job_step now h k us r = Some (h', j', kids) \<Longrightarrow> distinct (dkeys (JOBS h)) \<Longrightarrow>
     distinct (dkeys (JOBS h'))"
  using distinct_get_or_load_job [of h k]
  by (cases "get_or_load_job h k") (auto simp: update_job_step_def Let_def split: option.splits if_splits)

section \<open>The transition system\<close>

definition clean :: "job_field list \<Rightarrow> bool" where
  "clean us \<longleftrightarrow> JStatus None \<notin> set us \<and> JStatus (Some JOB_RUNNING) \<notin> set us"

text \<open>
  One step is one section of the code under the lock; \<open>update_job\<close> releases it between a job and
  each child it cancels, so its steps are \<open>job_updated\<close> and \<open>job_logged\<close>. No caller sends a node
  the status \<open>null\<close>, nor sets a job back to RUNNING.
\<close>

inductive head_step :: "head \<Rightarrow> head \<Rightarrow> bool" where
  node_updated: "NStatus None \<notin> set us \<Longrightarrow> head_step h (fst (update_node h name us))"
| job_admitted: "j_status j = Some JOB_RUNNING \<Longrightarrow> head_step h (fst (admit_job now h k j sel))"
| job_updated: "clean us \<Longrightarrow> update_job_step now h k us r = Some (h', j', kids) \<Longrightarrow> head_step h h'"
| job_logged: "head_step h (h\<lparr>hist_job_logs := l\<rparr>)"
| progressed: "head_step h (update_job_progress now h k name p)"
| replaced: "head_step h (record_replacement_request h k name req c g)"
| job_read: "head_step h (fst (get_or_load_job h k))"
| paused: "head_step h (fst (pause_job_admission_if_idle h))"
| resumed: "head_step h (resume_job_admission h)"

text \<open>A new head process: empty globals, then \<open>load_from_history\<close>.\<close>

definition restart :: "head \<Rightarrow> head" where
  "restart h = load_from_history
     (h\<lparr>NODES := [], JOBS := [], admission_paused := False, counts_flushed_at := [],
        keep_awake_active := False, published := [], debug_shipped := []\<rparr>)"

definition first_head :: head where
  "first_head =
     \<lparr>NODES = [], JOBS = [], hist_nodes = [], hist_jobs = [], hist_results = [], hist_job_logs = [],
      admission_paused = False, counts_flushed_at = [], keep_awake_active = False, published = [],
      debug_shipped = []\<rparr>"

inductive head_life :: "head \<Rightarrow> bool" where
  life_start: "head_life first_head"
| life_step: "head_life h \<Longrightarrow> head_step h h' \<Longrightarrow> head_life h'"
| life_restart: "head_life h \<Longrightarrow> head_life (restart h)"

end
