(* ===== verification/Head_Invariants.thy ===== *)
theory Head_Invariants
  imports Head_Steps
begin

text \<open>
  The invariant of every head (\<open>head_inv\<close>), preserved by every step and by restart: what is in
  memory is in the history, up to the fields the code treats as transient; an admission pause means
  no job is running. From it, what a restart recovers.
\<close>

section \<open>Nodes in memory and in the history\<close>

definition nodes_ok :: "node dict \<Rightarrow> node dict \<Rightarrow> bool" where
  "nodes_ok N H \<longleftrightarrow>
     distinct (dkeys N) \<and> distinct (dkeys H)
     \<and> (\<forall>k n. map_of N k = Some n \<longrightarrow> n_instance_name n = k)
     \<and> (\<forall>k n. map_of H k = Some n \<longrightarrow> n_instance_name n = k)
     \<and> (\<forall>k n. map_of N k = Some n \<and> n_status n \<noteq> None \<longrightarrow>
          (\<exists>m. map_of H k = Some m \<and> n_status m = n_status n \<and> durable_view m = durable_view n))"

lemma nodes_okI:
  assumes "distinct (dkeys N)" "distinct (dkeys H)"
    "\<And>k n. map_of N k = Some n \<Longrightarrow> n_instance_name n = k"
    "\<And>k n. map_of H k = Some n \<Longrightarrow> n_instance_name n = k"
    "\<And>k n. map_of N k = Some n \<Longrightarrow> n_status n \<noteq> None \<Longrightarrow>
       \<exists>m. map_of H k = Some m \<and> n_status m = n_status n \<and> durable_view m = durable_view n"
  shows "nodes_ok N H"
  using assms by (simp add: nodes_ok_def)

lemma nodes_ok_names: "nodes_ok N H \<Longrightarrow> map_of N k = Some n \<Longrightarrow> n_instance_name n = k"
  by (simp add: nodes_ok_def)

lemma nodes_ok_hist_names: "nodes_ok N H \<Longrightarrow> map_of H k = Some n \<Longrightarrow> n_instance_name n = k"
  by (simp add: nodes_ok_def)

lemma nodes_ok_durable:
  "nodes_ok N H \<Longrightarrow> map_of N k = Some n \<Longrightarrow> n_status n \<noteq> None \<Longrightarrow>
     \<exists>m. map_of H k = Some m \<and> n_status m = n_status n \<and> durable_view m = durable_view n"
  unfolding nodes_ok_def by blast

lemma nodes_ok_distinct: "nodes_ok N H \<Longrightarrow> distinct (dkeys N)" "nodes_ok N H \<Longrightarrow> distinct (dkeys H)"
  by (simp_all add: nodes_ok_def)

lemma nodes_ok_written:
  assumes ok: "nodes_ok N H" and d: "distinct (dkeys N')" "distinct (dkeys H')"
    and N': "\<And>k. map_of N' k = (if k \<in> S then Some (g k) else map_of N k)"
    and H': "\<And>k. map_of H' k = (if k \<in> S then Some (g k) else map_of H k)"
    and name: "\<And>k. k \<in> S \<Longrightarrow> n_instance_name (g k) = k"
  shows "nodes_ok N' H'"
proof (rule nodes_okI [OF d])
  show "n_instance_name n = k" if "map_of N' k = Some n" for k n
    using that name nodes_ok_names [OF ok] by (cases "k \<in> S") (auto simp: N')
  show "n_instance_name n = k" if "map_of H' k = Some n" for k n
    using that name nodes_ok_hist_names [OF ok] by (cases "k \<in> S") (auto simp: H')
  show "\<exists>m. map_of H' k = Some m \<and> n_status m = n_status n \<and> durable_view m = durable_view n"
    if "map_of N' k = Some n" "n_status n \<noteq> None" for k n
    using that nodes_ok_durable [OF ok, of k n] by (cases "k \<in> S") (auto simp: N' H')
qed

lemma nodes_ok_transient:
  assumes ok: "nodes_ok N H" and "n_instance_name m = k"
    and old: "n_status m = n_status (get_or (empty_node k) (map_of N k))"
      "durable_view m = durable_view (get_or (empty_node k) (map_of N k))"
  shows "nodes_ok (dset k m N) H"
proof (rule nodes_okI)
  show "distinct (dkeys (dset k m N))" "distinct (dkeys H)"
    using nodes_ok_distinct [OF ok] by auto
  show "n_instance_name n = k'" if "map_of (dset k m N) k' = Some n" for k' n
    using that assms(2) nodes_ok_names [OF ok] by (auto split: if_splits)
  show "n_instance_name n = k'" if "map_of H k' = Some n" for k' n
    using that nodes_ok_hist_names [OF ok] by blast
  show "\<exists>x. map_of H k' = Some x \<and> n_status x = n_status n \<and> durable_view x = durable_view n"
    if n: "map_of (dset k m N) k' = Some n" "n_status n \<noteq> None" for k' n
  proof (cases "k' = k")
    case True
    then have "n = m" using n by simp
    show ?thesis
    proof (cases "map_of N k")
      case None
      then show ?thesis using n old \<open>n = m\<close> by (simp add: empty_node_def)
    next
      case (Some a)
      then have "n_status a \<noteq> None" using n old \<open>n = m\<close> by simp
      from nodes_ok_durable [OF ok Some this] show ?thesis using Some old \<open>n = m\<close> True by simp
    qed
  next
    case False
    with n nodes_ok_durable [OF ok, of k'] show ?thesis by simp
  qed
qed

lemma nodes_ok_update_node:
  assumes ok: "nodes_ok (NODES h) (hist_nodes h)" and us: "NStatus None \<notin> set us"
  shows "nodes_ok (NODES (fst (update_node h k us))) (hist_nodes (fst (update_node h k us)))"
proof -
  let ?m = "snd (update_node h k us)"
  have name: "n_instance_name ?m = k"
    using nodes_ok_names [OF ok, of k]
    by (cases "map_of (NODES h) k") (auto simp: node_before_def empty_node_def)
  from update_node_hist [OF us, of h k] show ?thesis
  proof
    assume "hist_nodes (fst (update_node h k us)) = dset k ?m (hist_nodes h)"
    then show ?thesis
      using nodes_ok_distinct [OF ok] name
      by (intro nodes_ok_written [OF ok, where S = "{k}" and g = "\<lambda>_. ?m"]) (auto simp: update_node_frame)
  next
    assume "hist_nodes (fst (update_node h k us)) = hist_nodes h
      \<and> n_status ?m = n_status (node_before h k) \<and> durable_view ?m = durable_view (node_before h k)"
    then show ?thesis
      using nodes_ok_transient [OF ok name] by (simp add: update_node_frame node_before_def)
  qed
qed

lemma claimable_name:
  "nodes_ok (NODES h) H \<Longrightarrow> claimable now (map_of (NODES h) k) \<Longrightarrow> n_instance_name (claimed h j k) = k"
  using nodes_ok_names [of "NODES h" H k] by (auto simp: claimable_def claimed_def split: option.splits)

lemma claimed_lookup:
  assumes "nodes_ok (NODES h) H" "\<forall>k \<in> set sel. claimable now (map_of (NODES h) k)"
  shows "map_of (foldl (\<lambda>d n. dset (n_instance_name n) n d) d (map (claimed h j) sel)) k =
    (if k \<in> set sel then Some (claimed h j k) else map_of d k)"
proof -
  have names: "n_instance_name (claimed h j x) = x" if "x \<in> set sel" for x
    using claimable_name [OF assms(1)] assms(2) that by blast
  have "map_of (foldl (\<lambda>d n. dset (n_instance_name n) n d) d (map (claimed h j) sel)) k =
    (if k \<in> n_instance_name ` set (map (claimed h j) sel) then Some (claimed h j k) else map_of d k)"
    by (rule map_of_foldl_upsert) (auto simp: names)
  moreover have "n_instance_name ` set (map (claimed h j) sel) = set sel"
    by (force simp: names)
  ultimately show ?thesis by simp
qed

lemma nodes_ok_admit_job:
  assumes ok: "nodes_ok (NODES h) (hist_nodes h)"
  shows "nodes_ok (NODES (fst (admit_job now h k j sel))) (hist_nodes (fst (admit_job now h k j sel)))"
proof (cases "admissible now h k sel")
  case True
  then have sel: "\<forall>x \<in> set sel. claimable now (map_of (NODES h) x)" by (simp add: admissible_def)
  show ?thesis
    unfolding admit_job_accepted [OF True]
    by (rule nodes_ok_written [OF ok _ _ claimed_lookup [OF ok sel] claimed_lookup [OF ok sel]])
      (use nodes_ok_distinct [OF ok] sel claimable_name [OF ok] in \<open>auto intro!: distinct_foldl_upsert\<close>)
next
  case False
  then show ?thesis using ok by (simp add: admit_job_refused get_or_load_job_lookup)
qed

lemma release_node_simps [simp]:
  "n_instance_name (release_node k n) = n_instance_name n" "n_status (release_node k n) = n_status n"
  "n_current_job (release_node k n) = n_current_job n"
  "n_last_push_at (release_node k n) = n_last_push_at n"
  by (simp_all add: release_node_def)

lemma reserved_names:
  assumes "nodes_ok (NODES h) H"
  shows "n_instance_name ` set (reserved_nodes h k) =
      {x. \<exists>n. map_of (NODES h) x = Some n \<and> n_reserved_for_job n = Some k}" (is "?L = ?R")
    and "\<And>n. n \<in> set (reserved_nodes h k) \<Longrightarrow> map_of (NODES h) (n_instance_name n) = Some n"
proof -
  show in_map: "\<And>n. n \<in> set (reserved_nodes h k) \<Longrightarrow> map_of (NODES h) (n_instance_name n) = Some n"
  proof -
    fix n assume "n \<in> set (reserved_nodes h k)"
    then obtain x where "(x, n) \<in> set (NODES h)" by (auto simp: reserved_nodes_def)
    then have x: "map_of (NODES h) x = Some n" using nodes_ok_distinct(1) [OF assms] by simp
    then show "map_of (NODES h) (n_instance_name n) = Some n"
      using nodes_ok_names [OF assms x] by simp
  qed
  show "?L = ?R"
  proof
    show "?L \<subseteq> ?R" using in_map by (auto simp: reserved_nodes_def)
    show "?R \<subseteq> ?L"
    proof
      fix x assume "x \<in> ?R"
      then obtain n where n: "map_of (NODES h) x = Some n" "n_reserved_for_job n = Some k" by auto
      then have "n \<in> set (reserved_nodes h k)"
        by (force simp: reserved_nodes_def dest: map_of_SomeD)
      moreover have "n_instance_name n = x" by (rule nodes_ok_names [OF assms n(1)])
      ultimately show "x \<in> ?L" by force
    qed
  qed
qed

lemma nodes_ok_update_job_step:
  assumes ok: "nodes_ok (NODES h) (hist_nodes h)"
    and st: "update_job_step now h k us r = Some (h', j', kids)"
  shows "nodes_ok (NODES h') (hist_nodes h')"
proof -
  from st have N: "NODES h' = (if job_terminal j' then dmap (\<lambda>_. release_node k) (NODES h) else NODES h)"
    and H: "hist_nodes h' = foldl (\<lambda>d n. dset (n_instance_name n) n d) (hist_nodes h)
       (if job_terminal j' then map (release_node k) (reserved_nodes h k) else [])"
    by (rule update_job_step_Some; blast)+
  show ?thesis
  proof (cases "job_terminal j'")
    case True
    let ?S = "{x. \<exists>n. map_of (NODES h) x = Some n \<and> n_reserved_for_job n = Some k}"
    let ?g = "\<lambda>x. release_node k (the (map_of (NODES h) x))"
    note in_map = reserved_names(2) [OF ok, of _ k]
    have img: "n_instance_name ` set (map (release_node k) (reserved_nodes h k)) = ?S"
      using reserved_names(1) [OF ok, of k] by (simp add: image_image)
    show ?thesis
    proof (rule nodes_ok_written [OF ok, where S = ?S and g = ?g])
      show "distinct (dkeys (NODES h'))" "distinct (dkeys (hist_nodes h'))"
        using nodes_ok_distinct [OF ok] by (auto simp: N H intro!: distinct_foldl_upsert)
      show "map_of (NODES h') x = (if x \<in> ?S then Some (?g x) else map_of (NODES h) x)" for x
        using True by (cases "map_of (NODES h) x") (auto simp: N release_node_def)
      show "map_of (hist_nodes h') x = (if x \<in> ?S then Some (?g x) else map_of (hist_nodes h) x)" for x
      proof -
        have "map_of (foldl (\<lambda>d n. dset (n_instance_name n) n d) (hist_nodes h)
            (map (release_node k) (reserved_nodes h k))) x =
          (if x \<in> n_instance_name ` set (map (release_node k) (reserved_nodes h k))
           then Some (?g x) else map_of (hist_nodes h) x)"
          by (rule map_of_foldl_upsert) (auto simp: in_map)
        then show ?thesis unfolding img using True by (simp add: H)
      qed
      show "n_instance_name (?g x) = x" if "x \<in> ?S" for x
        using that nodes_ok_names [OF ok] by auto
    qed
  next
    case False
    then show ?thesis using ok by (simp add: N H)
  qed
qed

section \<open>Jobs in memory and in the history\<close>

abbreviation strip :: "job \<Rightarrow> job" where
  "strip j \<equiv> j\<lparr>j_assigned_nodes := []\<rparr>"

definition jobs_ok :: "job dict \<Rightarrow> job dict \<Rightarrow> bool \<Rightarrow> bool" where
  "jobs_ok J H stop \<longleftrightarrow>
     distinct (dkeys J) \<and> distinct (dkeys H)
     \<and> (\<forall>k j. map_of H k = Some j \<longrightarrow> j_assigned_nodes j = [])
     \<and> (\<forall>k j. map_of J k = Some j \<longrightarrow> map_of H k = Some (strip j))
     \<and> (\<forall>k j. map_of H k = Some j \<and> j_status j = Some JOB_RUNNING \<longrightarrow> map_of J k \<noteq> None)
     \<and> (stop \<longrightarrow> (\<forall>k j. map_of H k = Some j \<longrightarrow> j_status j \<noteq> Some JOB_RUNNING))"

lemma jobs_okI:
  assumes "distinct (dkeys J)" "distinct (dkeys H)"
    "\<And>k j. map_of H k = Some j \<Longrightarrow> j_assigned_nodes j = []"
    "\<And>k j. map_of J k = Some j \<Longrightarrow> map_of H k = Some (strip j)"
    "\<And>k j. map_of H k = Some j \<Longrightarrow> j_status j = Some JOB_RUNNING \<Longrightarrow> map_of J k \<noteq> None"
    "\<And>k j. stop \<Longrightarrow> map_of H k = Some j \<Longrightarrow> j_status j \<noteq> Some JOB_RUNNING"
  shows "jobs_ok J H stop"
  unfolding jobs_ok_def using assms by blast

lemma jobs_okD:
  assumes "jobs_ok J H stop"
  shows "distinct (dkeys J)" "distinct (dkeys H)"
    "map_of H k = Some j \<Longrightarrow> j_assigned_nodes j = []"
    "map_of J k = Some j \<Longrightarrow> map_of H k = Some (strip j)"
    "map_of H k = Some j \<Longrightarrow> j_status j = Some JOB_RUNNING \<Longrightarrow> map_of J k \<noteq> None"
    "stop \<Longrightarrow> map_of H k = Some j \<Longrightarrow> j_status j \<noteq> Some JOB_RUNNING"
  using assms unfolding jobs_ok_def by blast+

lemma strip_id: "j_assigned_nodes j = [] \<Longrightarrow> strip j = j"
  by simp

lemma jobs_ok_written:
  assumes ok: "jobs_ok J H stop" and stop: "stop \<Longrightarrow> j_status j \<noteq> Some JOB_RUNNING"
  shows "jobs_ok (dset k j J) (dset k (strip j) H) stop"
  by (rule jobs_okI)
    (use jobs_okD [OF ok] stop in \<open>auto split: if_splits simp del: map_of_eq_Some_iff\<close>)

lemma jobs_ok_loaded:
  assumes ok: "jobs_ok J H stop" and H: "map_of H k = Some s"
  shows "jobs_ok (dset k (strip s) J) H stop"
proof -
  have "strip s = s" using jobs_okD(3) [OF ok H] by (rule strip_id)
  then show ?thesis
    by (intro jobs_okI) (use jobs_okD [OF ok] H in \<open>auto split: if_splits simp del: map_of_eq_Some_iff\<close>)
qed

lemma jobs_ok_progress:
  assumes ok: "jobs_ok J H stop" and J: "map_of J k = Some j"
  shows "jobs_ok (dset k (j\<lparr>j_assigned_nodes := a\<rparr>) J) H stop"
  by (intro jobs_okI) (use jobs_okD [OF ok] J in \<open>auto split: if_splits simp del: map_of_eq_Some_iff\<close>)

lemma jobs_ok_weaken: "jobs_ok J H stop \<Longrightarrow> (stop' \<Longrightarrow> stop) \<Longrightarrow> jobs_ok J H stop'"
  unfolding jobs_ok_def by blast

lemma jobs_ok_stopped:
  "jobs_ok J H stop \<Longrightarrow> (\<And>k j. map_of H k = Some j \<Longrightarrow> j_status j \<noteq> Some JOB_RUNNING) \<Longrightarrow> jobs_ok J H True"
  unfolding jobs_ok_def by (elim conjE, intro conjI) (assumption | simp del: map_of_eq_Some_iff)+

lemma jobs_ok_load:
  assumes ok: "jobs_ok (JOBS h) (hist_jobs h) stop"
  shows "jobs_ok (JOBS (fst (get_or_load_job h k))) (hist_jobs h) stop"
  using ok jobs_ok_loaded [OF ok, of k]
  by (auto simp: get_or_load_job_def Let_def simp del: map_of_eq_Some_iff split: option.splits)

section \<open>The invariant\<close>

definition head_inv :: "head \<Rightarrow> bool" where
  "head_inv h \<longleftrightarrow> nodes_ok (NODES h) (hist_nodes h) \<and> jobs_ok (JOBS h) (hist_jobs h) (admission_paused h)"

lemma head_inv_node: "head_inv h \<Longrightarrow> NStatus None \<notin> set us \<Longrightarrow> head_inv (fst (update_node h k us))"
  using nodes_ok_update_node by (simp add: head_inv_def update_node_frame)

lemma head_inv_read: "head_inv h \<Longrightarrow> head_inv (fst (get_or_load_job h k))"
  using jobs_ok_load by (simp add: head_inv_def get_or_load_job_lookup)

lemma head_inv_admit:
  assumes inv: "head_inv h"
  shows "head_inv (fst (admit_job now h k j sel))"
proof (cases "admissible now h k sel")
  case True
  then have p: "\<not> admission_paused h" by (simp add: admissible_def)
  have "jobs_ok (dset k (strip j) (JOBS h)) (dset k (strip (strip j)) (hist_jobs h)) (admission_paused h)"
    using inv p by (intro jobs_ok_written) (auto simp: head_inv_def)
  then show ?thesis
    using inv nodes_ok_admit_job [of h now k j sel] True
    by (simp add: head_inv_def admit_job_accepted)
next
  case False
  then show ?thesis using head_inv_read [OF inv] by (simp add: admit_job_refused)
qed

lemma head_inv_job_lookup:
  assumes "head_inv h" "job_lookup h k = Some j"
  shows "map_of (hist_jobs h) k = Some (strip j)"
proof -
  have ok: "jobs_ok (JOBS h) (hist_jobs h) (admission_paused h)" using assms(1) by (simp add: head_inv_def)
  show ?thesis
    using assms(2) jobs_okD(3, 4) [OF ok, of k]
    by (auto simp: job_lookup_def simp del: map_of_eq_Some_iff split: option.splits)
qed

lemma head_inv_job_step:
  assumes inv: "head_inv h" and us: "clean us"
    and st: "update_job_step now h k us r = Some (h', j', kids)"
  shows "head_inv h'"
proof -
  have ok: "jobs_ok (JOBS h) (hist_jobs h) (admission_paused h)" using inv by (simp add: head_inv_def)
  from st obtain j where j: "job_lookup h k = Some j" and j': "j' = merged_job now j us r"
    and J: "map_of (JOBS h') k = Some j'" "\<And>x. x \<noteq> k \<Longrightarrow> map_of (JOBS h') x = map_of (JOBS h) x"
    and H: "hist_jobs h' = dset k (strip j') (hist_jobs h)" and p: "admission_paused h' = admission_paused h"
    by (rule update_job_step_Some) blast
  have stop: "j_status j' \<noteq> Some JOB_RUNNING" if "admission_paused h"
    using merged_job_status_clean [of us now j r] us jobs_okD(6) [OF ok that head_inv_job_lookup [OF inv j]]
    by (auto simp: clean_def j')
  have d: "distinct (dkeys (JOBS h'))"
    using st jobs_okD(1) [OF ok] by (rule update_job_step_distinct)
  have "jobs_ok (JOBS h') (hist_jobs h') (admission_paused h')"
    unfolding H p
    by (rule jobs_okI) (use jobs_okD [OF ok] J stop d in
        \<open>auto split: if_splits simp del: map_of_eq_Some_iff\<close>)
  then show ?thesis
    using nodes_ok_update_job_step [OF _ st] inv by (simp add: head_inv_def)
qed

lemma head_inv_progress:
  assumes inv: "head_inv h"
  shows "head_inv (update_job_progress now h k name p)"
proof -
  obtain h1 where g: "get_or_load_job h k = (h1, job_lookup h k)"
    by (metis get_or_load_job_lookup(1) prod.collapse)
  have inv1: "head_inv h1" using head_inv_read [OF inv, of k] g by simp
  then have ok: "jobs_ok (JOBS h1) (hist_jobs h1) (admission_paused h1)" by (simp add: head_inv_def)
  show ?thesis
  proof (cases "job_lookup h k")
    case None
    then show ?thesis using inv by (simp add: update_job_progress_def get_or_load_None)
  next
    case (Some j)
    have J: "map_of (JOBS h1) k = Some j" using get_or_load_job_JOBS [of h k k] Some g by simp
    have H: "dset k (strip j) (hist_jobs h1) = hist_jobs h1"
      by (rule dset_triv) (rule jobs_okD(4) [OF ok J])
    show ?thesis
      using jobs_ok_progress [OF ok J] inv1 H
      by (simp add: update_job_progress_def g Some head_inv_def Let_def)
  qed
qed

lemma head_inv_replacement:
  assumes inv: "head_inv h"
  shows "head_inv (record_replacement_request h k name req c g)"
proof -
  obtain h1 where g: "get_or_load_job h k = (h1, job_lookup h k)"
    by (metis get_or_load_job_lookup(1) prod.collapse)
  have inv1: "head_inv h1" using head_inv_read [OF inv, of k] g by simp
  then have ok: "jobs_ok (JOBS h1) (hist_jobs h1) (admission_paused h1)" by (simp add: head_inv_def)
  show ?thesis
  proof (cases "job_lookup h k")
    case None
    then show ?thesis using inv by (simp add: record_replacement_request_def get_or_load_None)
  next
    case (Some j)
    have J: "map_of (JOBS h1) k = Some j" using get_or_load_job_JOBS [of h k k] Some g by simp
    have stop: "admission_paused h1 \<Longrightarrow> j_status j \<noteq> Some JOB_RUNNING"
      using jobs_okD(6) [OF ok _ jobs_okD(4) [OF ok J]] by simp
    show ?thesis
      using jobs_ok_written [OF ok, of "j\<lparr>j_replacement_requests := dset name req (j_replacement_requests j),
            j_grow_cpus_remaining := spend (j_grow_cpus_remaining j) c,
            j_grow_gpus_remaining := spend (j_grow_gpus_remaining j) g\<rparr>" k] stop inv1
      by (simp add: record_replacement_request_def g Some head_inv_def Let_def)
  qed
qed

lemma head_inv_pause:
  assumes inv: "head_inv h"
  shows "head_inv (fst (pause_job_admission_if_idle h))"
proof (cases "list_ex (\<lambda>(k, j). j_status j = Some JOB_RUNNING) (JOBS h)")
  case True
  then show ?thesis using inv by (simp add: pause_job_admission_if_idle_def)
next
  case False
  have ok: "jobs_ok (JOBS h) (hist_jobs h) (admission_paused h)" using inv by (simp add: head_inv_def)
  have idle: "j_status j \<noteq> Some JOB_RUNNING" if H: "map_of (hist_jobs h) k = Some j" for k j
  proof
    assume r: "j_status j = Some JOB_RUNNING"
    then obtain i where i: "map_of (JOBS h) k = Some i" using jobs_okD(5) [OF ok H] by blast
    then have "strip i = j" using jobs_okD(4) [OF ok i] H by simp
    then have "j_status i = Some JOB_RUNNING" using r by auto
    then show False using False i by (auto simp: list_ex_iff dest!: map_of_SomeD)
  qed
  have "jobs_ok (JOBS h) (hist_jobs h) True"
    by (rule jobs_ok_stopped [OF ok idle])
  then show ?thesis using inv False by (simp add: pause_job_admission_if_idle_def head_inv_def)
qed

lemma head_inv_resume: "head_inv h \<Longrightarrow> head_inv (resume_job_admission h)"
  by (auto simp: head_inv_def resume_job_admission_def intro: jobs_ok_weaken)

lemma head_inv_step: "head_step h h' \<Longrightarrow> head_inv h \<Longrightarrow> head_inv h'"
proof (induction rule: head_step.induct)
  case (node_updated us h name)
  then show ?case by (simp add: head_inv_node)
next
  case (job_admitted j h now k sel)
  then show ?case by (simp add: head_inv_admit)
next
  case (job_updated us now h k r h' j' kids)
  then show ?case by (blast intro: head_inv_job_step)
next
  case (job_logged h l)
  then show ?case by (simp add: head_inv_def)
qed (simp_all add: head_inv_progress head_inv_replacement head_inv_read head_inv_pause head_inv_resume)

section \<open>Restarting\<close>

lemma map_of_foldl_setdefault:
  "map_of (foldl (\<lambda>d x. dsetdefault (f x) (g x) d) d xs) k =
     (case map_of d k of Some v \<Rightarrow> Some v | None \<Rightarrow> map_option g (List.find (\<lambda>x. f x = k) xs))"
  by (induction xs arbitrary: d) (auto split: option.splits)

lemma find_by_name:
  assumes "distinct (dkeys H)" "\<And>k n. map_of H k = Some n \<Longrightarrow> f n = k"
  shows "List.find (\<lambda>n. f n = k) (filter p (map snd H)) =
    (case map_of H k of None \<Rightarrow> None | Some n \<Rightarrow> if p n then Some n else None)"
  using assms
proof (induction H)
  case (Cons a H)
  obtain x n where a: "a = (x, n)" by fastforce
  have fn: "f n = x" using Cons.prems(2) [of x n] a by simp
  have IH: "List.find (\<lambda>n. f n = k) (filter p (map snd H)) =
      (case map_of H k of None \<Rightarrow> None | Some n \<Rightarrow> if p n then Some n else None)"
  proof (rule Cons.IH)
    show "distinct (dkeys H)" using Cons.prems(1) by simp
    show "f m = k'" if "map_of H k' = Some m" for k' m
    proof -
      have "k' \<noteq> x" using that Cons.prems(1) a by (force dest: map_of_SomeD)
      then show ?thesis using Cons.prems(2) [of k' m] that a by simp
    qed
  qed
  have "map_of H x = None" using Cons.prems(1) a by (simp add: map_of_eq_None_iff)
  with IH fn show ?case by (auto simp: a)
qed simp

definition recovered :: "node \<Rightarrow> node" where
  "recovered n = n\<lparr>n_last_push_at := None, n_loaded_from_history := True\<rparr>"

lemma restart_nodes:
  assumes "head_inv h"
  shows "map_of (NODES (restart h)) k =
    (case map_of (hist_nodes h) k of
       None \<Rightarrow> None
     | Some n \<Rightarrow> if n_status n \<in> {Some BOOTING, Some READY, Some RUNNING, Some FAILED}
               then Some (recovered n) else None)"
proof -
  have ok: "nodes_ok (NODES h) (hist_nodes h)" using assms by (simp add: head_inv_def)
  have "map_of (NODES (restart h)) k =
      map_option recovered (List.find (\<lambda>n. n_instance_name n = k)
        (filter (\<lambda>n. n_status n \<in> {Some BOOTING, Some READY, Some RUNNING, Some FAILED})
          (map snd (hist_nodes h))))"
    by (simp add: restart_def load_from_history_def Let_def history_active_nodes_def
        map_of_foldl_setdefault recovered_def [abs_def])
  also have "\<dots> = map_option recovered (case map_of (hist_nodes h) k of None \<Rightarrow> None
      | Some n \<Rightarrow> if n_status n \<in> {Some BOOTING, Some READY, Some RUNNING, Some FAILED} then Some n else None)"
    by (subst find_by_name [OF nodes_ok_distinct(2) [OF ok], of n_instance_name])
      (use nodes_ok_hist_names [OF ok] in auto)
  finally show ?thesis by (auto split: option.splits)
qed

lemma find_by_key:
  assumes "distinct (dkeys H)"
  shows "List.find (\<lambda>p. fst p = k) (filter (\<lambda>(x, j). q j) H) =
    (case map_of H k of None \<Rightarrow> None | Some j \<Rightarrow> if q j then Some (k, j) else None)"
  using assms
proof (induction H)
  case (Cons a H)
  have "map_of H (fst a) = None" using Cons.prems by (simp add: map_of_eq_None_iff)
  with Cons show ?case by (cases a) auto
qed simp

lemma restart_jobs:
  assumes "head_inv h"
  shows "map_of (JOBS (restart h)) k =
    (case map_of (hist_jobs h) k of
       None \<Rightarrow> None | Some j \<Rightarrow> if j_status j = Some JOB_RUNNING then Some (strip j) else None)"
proof -
  have ok: "jobs_ok (JOBS h) (hist_jobs h) (admission_paused h)" using assms by (simp add: head_inv_def)
  have "map_of (JOBS (restart h)) k =
      map_option (\<lambda>p. strip (snd p)) (List.find (\<lambda>p. fst p = k)
        (filter (\<lambda>(x, j). j_status j = Some JOB_RUNNING) (hist_jobs h)))"
    using map_of_foldl_setdefault [of fst "\<lambda>p. strip (snd p)" "[]"
        "filter (\<lambda>(x, j). j_status j = Some JOB_RUNNING) (hist_jobs h)" k]
    by (simp add: restart_def load_from_history_def Let_def history_running_jobs_def split_def)
  then show ?thesis
    using find_by_key [OF jobs_okD(2) [OF ok], of k "\<lambda>j. j_status j = Some JOB_RUNNING"]
    by (auto split: option.splits)
qed

lemma restart_hist [simp]:
  "hist_nodes (restart h) = hist_nodes h" "hist_jobs (restart h) = hist_jobs h"
  "hist_results (restart h) = hist_results h" "admission_paused (restart h) = False"
  by (simp_all add: restart_def load_from_history_def Let_def)

lemma distinct_foldl_setdefault:
  "distinct (dkeys d) \<Longrightarrow> distinct (dkeys (foldl (\<lambda>d x. dsetdefault (f x) (g x) d) d xs))"
  by (induction xs arbitrary: d) auto

lemma head_inv_restart:
  assumes inv: "head_inv h"
  shows "head_inv (restart h)"
proof -
  have nok: "nodes_ok (NODES h) (hist_nodes h)" and jok: "jobs_ok (JOBS h) (hist_jobs h) (admission_paused h)"
    using inv by (simp_all add: head_inv_def)
  have "nodes_ok (NODES (restart h)) (hist_nodes h)"
  proof (rule nodes_okI)
    show "distinct (dkeys (NODES (restart h)))" "distinct (dkeys (hist_nodes h))"
      using nodes_ok_distinct [OF nok] distinct_foldl_setdefault [of "[]"]
      by (simp_all add: restart_def load_from_history_def Let_def)
    show "n_instance_name n = k" if "map_of (NODES (restart h)) k = Some n" for k n
      using that nodes_ok_hist_names [OF nok, of k]
      by (auto simp: restart_nodes [OF inv] recovered_def split: option.splits if_splits)
    show "n_instance_name n = k" if "map_of (hist_nodes h) k = Some n" for k n
      using that by (rule nodes_ok_hist_names [OF nok])
    show "\<exists>m. map_of (hist_nodes h) k = Some m \<and> n_status m = n_status n \<and> durable_view m = durable_view n"
      if "map_of (NODES (restart h)) k = Some n" for k n
      using that
      by (cases "map_of (hist_nodes h) k")
        (auto simp: restart_nodes [OF inv] recovered_def durable_view_def split: if_splits)
  qed
  moreover have "jobs_ok (JOBS (restart h)) (hist_jobs h) False"
  proof (rule jobs_okI)
    show "distinct (dkeys (JOBS (restart h)))"
      using distinct_foldl_setdefault [of "[]" fst "\<lambda>p. strip (snd p)"]
      by (simp add: restart_def load_from_history_def Let_def split_def)
    show "distinct (dkeys (hist_jobs h))" by (rule jobs_okD(2) [OF jok])
    show "j_assigned_nodes j = []" if "map_of (hist_jobs h) k = Some j" for k j
      using that by (rule jobs_okD(3) [OF jok])
    show "map_of (hist_jobs h) k = Some (strip j)" if "map_of (JOBS (restart h)) k = Some j" for k j
      using that jobs_okD(3) [OF jok, of k]
      by (cases "map_of (hist_jobs h) k") (auto simp: restart_jobs [OF inv] split: if_splits)
    show "map_of (JOBS (restart h)) k \<noteq> None"
      if "map_of (hist_jobs h) k = Some j" "j_status j = Some JOB_RUNNING" for k j
      using that by (simp add: restart_jobs [OF inv])
  qed simp
  ultimately show ?thesis by (simp add: head_inv_def)
qed

end
