(* ===== verification/Lifecycles.thy ===== *)
theory Lifecycles
  imports Head_Invariants
begin

text \<open>
  How the statuses of nodes and jobs move. \<open>lifecycle\<close> is the contract: every step moves the
  status of each entity along an edge; its lemmas say which sets of statuses are never left. It is
  interpreted for the nodes of one head process and for the jobs of a head across restarts.
\<close>

locale lifecycle =
  fixes step :: "'s \<Rightarrow> 's \<Rightarrow> bool"
    and status :: "'s \<Rightarrow> 'k \<Rightarrow> 'a"
    and edge :: "'a \<Rightarrow> 'a \<Rightarrow> bool"
  assumes moves: "step s s' \<Longrightarrow> edge (status s k) (status s' k)"
begin

definition closed_set :: "'a set \<Rightarrow> bool" where
  "closed_set T \<longleftrightarrow> (\<forall>x y. x \<in> T \<longrightarrow> edge x y \<longrightarrow> y \<in> T)"

lemma absorbing:
  assumes "closed_set T" "step\<^sup>*\<^sup>* s s'" "status s k \<in> T"
  shows "status s' k \<in> T"
  using assms(2,3)
proof (induction rule: rtranclp_induct)
  case (step y z)
  then show ?case using moves [of y z k] assms(1) by (auto simp: closed_set_def)
qed

lemma closed_set_inter: "closed_set S \<Longrightarrow> closed_set T \<Longrightarrow> closed_set (S \<inter> T)"
  by (auto simp: closed_set_def)

text \<open>A status outside a closed set was outside it all along.\<close>

lemma never_entered: "closed_set T \<Longrightarrow> step\<^sup>*\<^sup>* s s' \<Longrightarrow> status s' k \<notin> T \<Longrightarrow> status s k \<notin> T"
  using absorbing by blast

end

section \<open>Nodes\<close>

definition live_step :: "head \<Rightarrow> head \<Rightarrow> bool" where
  "live_step h h' \<longleftrightarrow> head_inv h \<and> head_step h h'"

lemma live_steps: "head_step\<^sup>*\<^sup>* h h' \<Longrightarrow> head_inv h \<Longrightarrow> live_step\<^sup>*\<^sup>* h h' \<and> head_inv h'"
proof (induction rule: rtranclp_induct)
  case (step y z)
  then have "live_step y z" by (simp add: live_step_def)
  with step show ?case using head_inv_step by (meson rtranclp.rtrancl_into_rtrancl)
qed simp

definition node_edge :: "node_status option \<Rightarrow> node_status option \<Rightarrow> bool" where
  "node_edge x y \<longleftrightarrow> y = x \<or> y \<noteq> None \<and> \<not> status_refused x y"

lemma progress_nodes [simp]: "NODES (update_job_progress now h k name p) = NODES h"
  using get_or_load_job_lookup(3) [of h k]
  by (cases "get_or_load_job h k") (auto simp: update_job_progress_def Let_def split: option.splits)

lemma replacement_nodes [simp]: "NODES (record_replacement_request h k name req c g) = NODES h"
  using get_or_load_job_lookup(3) [of h k]
  by (cases "get_or_load_job h k") (auto simp: record_replacement_request_def Let_def split: option.splits)

lemma node_status_admit:
  assumes "head_inv h"
  shows "node_status_of (fst (admit_job now h k j sel)) x = node_status_of h x"
proof (cases "admissible now h k sel")
  case True
  have ok: "nodes_ok (NODES h) (hist_nodes h)" using assms by (simp add: head_inv_def)
  have sel: "\<forall>x \<in> set sel. claimable now (map_of (NODES h) x)" using True by (simp add: admissible_def)
  show ?thesis
  proof (cases "x \<in> set sel")
    case True
    then obtain n where "map_of (NODES h) x = Some n"
      using sel by (auto simp: claimable_def split: option.splits)
    then show ?thesis
      using \<open>x \<in> set sel\<close> claimed_lookup [OF ok sel, of "NODES h" k x] \<open>admissible now h k sel\<close>
      by (simp add: node_status_of_def admit_job_accepted claimed_def)
  next
    case False
    then show ?thesis
      using claimed_lookup [OF ok sel, of "NODES h" k x] \<open>admissible now h k sel\<close>
      by (simp add: node_status_of_def admit_job_accepted)
  qed
next
  case False
  then show ?thesis by (simp add: node_status_of_def admit_job_refused get_or_load_job_lookup)
qed

lemma node_moves: "live_step h h' \<Longrightarrow> node_edge (node_status_of h x) (node_status_of h' x)"
proof -
  assume st: "live_step h h'"
  then have inv: "head_inv h" by (simp add: live_step_def)
  from st have "head_step h h'" by (simp add: live_step_def)
  then show ?thesis using inv
  proof (induction rule: head_step.induct)
    case (node_updated us h name)
    have "n_status (node_before h name) = node_status_of h name"
      by (simp add: node_before_def node_status_of_def empty_node_def split: option.splits)
    then show ?case
      using update_node_status [OF node_updated.hyps, of h name]
      by (auto simp: node_edge_def node_status_of_def update_node_frame next_status_def)
  next
    case (job_admitted j h now k sel)
    then show ?case by (simp add: node_status_admit node_edge_def)
  next
    case (job_updated us now h k r h' j' kids)
    from job_updated.hyps(2) have "NODES h' = (if job_terminal j' then dmap (\<lambda>_. release_node k) (NODES h) else NODES h)"
      by (rule update_job_step_Some) blast
    then show ?case by (auto simp: node_edge_def node_status_of_def split: option.splits)
  qed (auto simp: node_edge_def node_status_of_def get_or_load_job_lookup pause_job_admission_if_idle_def
      resume_job_admission_def)
qed

interpretation nodes: lifecycle live_step node_status_of node_edge
  by unfold_locales (rule node_moves)

lemma failed_closed: "nodes.closed_set {Some FAILED}"
  by (auto simp: nodes.closed_set_def node_edge_def status_refused_def) (metis node_status.exhaust)

lemma dead_closed: "nodes.closed_set {Some FAILED, Some DELETED}"
  by (auto simp: nodes.closed_set_def node_edge_def status_refused_def) (metis node_status.exhaust)+

section \<open>Jobs\<close>

definition job_status_of :: "head \<Rightarrow> string \<Rightarrow> job_status option" where
  "job_status_of h k = (case job_lookup h k of None \<Rightarrow> None | Some j \<Rightarrow> j_status j)"

definition any_step :: "head \<Rightarrow> head \<Rightarrow> bool" where
  "any_step h h' \<longleftrightarrow> head_inv h \<and> (head_step h h' \<or> h' = restart h)"

definition job_edge :: "job_status option \<Rightarrow> job_status option \<Rightarrow> bool" where
  "job_edge x y \<longleftrightarrow> y = x \<or> y \<in> {Some JOB_FAILED, Some JOB_CANCELED}
     \<or> x = Some JOB_RUNNING \<and> y = Some JOB_COMPLETED \<or> x = None \<and> y = Some JOB_RUNNING"

lemma restart_job_lookup:
  assumes inv: "head_inv h"
  shows "job_lookup (restart h) k = map_option strip (job_lookup h k)"
proof (cases "job_lookup h k")
  case None
  then have "map_of (hist_jobs h) k = None" by (simp add: job_lookup_None)
  then show ?thesis using None restart_jobs [OF inv, of k] by (simp add: job_lookup_def)
next
  case (Some j)
  from head_inv_job_lookup [OF inv Some] show ?thesis
    using Some restart_jobs [OF inv, of k] by (simp add: job_lookup_def)
qed

lemma job_lookup_admit:
  "job_lookup (fst (admit_job now h k j sel)) x =
     (if admissible now h k sel \<and> x = k then Some (strip j) else job_lookup h x)"
proof (cases "admissible now h k sel")
  case True
  then show ?thesis by (simp add: admit_job_accepted job_lookup_def cong: option.case_cong)
qed (simp add: admit_job_refused get_or_load_job_lookup)

lemma job_lookup_progress:
  "map_option strip (job_lookup (update_job_progress now h k name p) x) = map_option strip (job_lookup h x)"
proof (cases "job_lookup h k")
  case None
  then show ?thesis by (simp add: update_job_progress_def get_or_load_None)
next
  case (Some j)
  obtain h1 where g: "get_or_load_job h k = (h1, Some j)"
    by (metis Some get_or_load_job_lookup(1) prod.collapse)
  have J: "map_of (JOBS h1) k' = (if k' = k then Some j else map_of (JOBS h) k')" for k'
    using get_or_load_job_JOBS [of h k k'] g Some by simp
  have H: "hist_jobs h1 = hist_jobs h" using get_or_load_job_lookup [of h k] g by simp
  show ?thesis
    using Some by (auto simp: update_job_progress_def g Let_def job_lookup_def J H split: option.splits)
qed

lemma job_lookup_replacement:
  "job_lookup (record_replacement_request h k name req c g) x =
     (if x = k then map_option (\<lambda>j. j\<lparr>j_replacement_requests := dset name req (j_replacement_requests j),
          j_grow_cpus_remaining := spend (j_grow_cpus_remaining j) c,
          j_grow_gpus_remaining := spend (j_grow_gpus_remaining j) g\<rparr>) (job_lookup h k)
      else job_lookup h x)"
proof (cases "job_lookup h k")
  case None
  then show ?thesis by (simp add: record_replacement_request_def get_or_load_None)
next
  case (Some j)
  obtain h1 where g: "get_or_load_job h k = (h1, Some j)"
    by (metis Some get_or_load_job_lookup(1) prod.collapse)
  have J: "map_of (JOBS h1) k' = (if k' = k then Some j else map_of (JOBS h) k')" for k'
    using get_or_load_job_JOBS [of h k k'] g Some by simp
  have H: "hist_jobs h1 = hist_jobs h" using get_or_load_job_lookup [of h k] g by simp
  show ?thesis
    using Some by (auto simp: record_replacement_request_def g Let_def job_lookup_def J H split: option.splits)
qed

lemma status_strip: "job_status_of h k = (case map_option strip (job_lookup h k) of None \<Rightarrow> None | Some j \<Rightarrow> j_status j)"
  by (simp add: job_status_of_def split: option.splits)

lemma clean_edge:
  assumes "clean us"
  shows "job_edge (j_status j) (j_status (merged_job now j us r))"
proof (cases "list_ex is_status_field us")
  case True
  then have "job_updates_status us \<notin> {None, Some JOB_RUNNING}"
    using status_field_in [OF True] assms unfolding clean_def by (metis insert_iff empty_iff)
  then have "job_updates_status us \<in> {Some JOB_COMPLETED, Some JOB_FAILED, Some JOB_CANCELED}"
    by (cases "job_updates_status us"; cases "the (job_updates_status us)") auto
  then show ?thesis by (auto simp: merged_job_status job_edge_def)
qed (simp add: merged_job_status job_edge_def)

lemma job_moves: "any_step h h' \<Longrightarrow> job_edge (job_status_of h x) (job_status_of h' x)"
proof -
  assume st: "any_step h h'"
  then have inv: "head_inv h" by (simp add: any_step_def)
  show ?thesis
  proof (cases "h' = restart h")
    case True
    then show ?thesis
      using restart_job_lookup [OF inv, of x] by (auto simp: job_edge_def job_status_of_def split: option.splits)
  next
    case False
    then have "head_step h h'" using st by (simp add: any_step_def)
    then show ?thesis
    proof (induction rule: head_step.induct)
      case (node_updated us h name)
      then show ?case by (simp add: job_edge_def job_status_of_def job_lookup_def update_node_frame cong: option.case_cong)
    next
      case (job_admitted j h now k sel)
      then show ?case
        by (auto simp: job_edge_def job_status_of_def job_lookup_admit admissible_def)
    next
      case (job_updated us now h k r h' j' kids)
      from job_updated.hyps(2) obtain j where j: "job_lookup h k = Some j" "j' = merged_job now j us r"
        and l: "\<And>x. job_lookup h' x = (if x = k then Some j' else job_lookup h x)"
        by (rule update_job_step_Some) blast
      then show ?case
        using clean_edge [OF job_updated.hyps(1), of j now r] by (auto simp: job_status_of_def job_edge_def)
    next
      case (progressed now h k name p)
      then show ?case by (simp add: job_edge_def status_strip job_lookup_progress)
    next
      case (replaced h k name req c g)
      then show ?case by (simp add: job_edge_def job_status_of_def job_lookup_replacement split: option.splits)
    qed (auto simp: job_edge_def job_status_of_def job_lookup_def get_or_load_job_lookup(2) [unfolded job_lookup_def]
        pause_job_admission_if_idle_def resume_job_admission_def cong: option.case_cong)
  qed
qed

interpretation jobs: lifecycle any_step job_status_of job_edge
  by unfold_locales (rule job_moves)

lemma job_terminal_closed: "jobs.closed_set {Some JOB_COMPLETED, Some JOB_FAILED, Some JOB_CANCELED}"
  by (auto simp: jobs.closed_set_def job_edge_def)

lemma job_failed_closed: "jobs.closed_set {Some JOB_FAILED, Some JOB_CANCELED}"
  by (auto simp: jobs.closed_set_def job_edge_def)

lemma job_present_closed: "jobs.closed_set (- {None})"
  by (auto simp: jobs.closed_set_def job_edge_def)

end
