(* ===== verification/Head_Properties.thy ===== *)
theory Head_Properties
  imports Lifecycles
begin

text \<open>
  The properties of the head's live state: which statuses are final, what a restart recovers, that
  an admission claims its nodes exclusively and replays safely, that a paused head stays idle, that
  stored result counts never fall, and that a failing job takes its running children with it.
\<close>

section \<open>A small head to apply them to\<close>

definition demo_job :: job where
  "demo_job =
     \<lparr>j_status = Some JOB_RUNNING, j_n_inputs = Some 4, j_func_cpu = Fixed 1, j_func_ram = Fixed 4,
      j_image = None, j_func_gpu = None, j_region = None, j_disk_gb = None, j_grow = False,
      j_grow_cpus_remaining = None, j_grow_gpus_remaining = None, j_target_parallelism = 2,
      j_max_parallelism = 4, j_user = None, j_function_name = None, j_started_at = Some 10,
      j_ended_at = None, j_is_background_job = False, j_parent_job_id = None,
      j_all_inputs_uploaded = False, j_client_has_all_results = False, j_dashboard_canceled = False,
      j_cluster_shutdown = False, j_cluster_restarted = False, j_fail_reason = [],
      j_terminal_reason = None,
      j_start_response = Some \<lparr>sr_ready_nodes = [], sr_booting_nodes = []\<rparr>,
      j_replacement_requests = [], j_assigned_nodes = []\<rparr>"

definition demo_ready :: head where
  "demo_ready = fst (update_node first_head ''n1''
     [NStatus (Some READY), NMachineType (Some ''n4-standard-2''), NRegion (Some ''us-central1''),
      NHost (Some ''h1''), NLastPushAt (Some 10)])"

definition demo_running :: head where
  "demo_running = fst (admit_job 12 demo_ready ''j1'' demo_job [''n1''])"

lemma demo_ready_life: "head_life demo_ready"
  unfolding demo_ready_def by (intro life_step [OF life_start] node_updated) simp

lemma demo_running_life: "head_life demo_running"
  unfolding demo_running_def
  by (intro life_step [OF demo_ready_life] job_admitted) (simp add: demo_job_def)

lemma head_life_inv: "head_life h \<Longrightarrow> head_inv h"
proof (induction rule: head_life.induct)
  case life_start
  show ?case by (simp add: head_inv_def nodes_ok_def jobs_ok_def first_head_def)
next
  case (life_step h h')
  then show ?case by (blast intro: head_inv_step)
next
  case (life_restart h)
  then show ?case by (simp add: head_inv_restart)
qed

section \<open>Final statuses\<close>


definition demo_deleted :: head where
  "demo_deleted = fst (update_node demo_ready ''n1'' [NStatus (Some DELETED)])"

lemma demo_deleted_life: "head_life demo_deleted"
  unfolding demo_deleted_def by (intro life_step [OF demo_ready_life] node_updated) simp


text \<open>
  The tombstones are only in memory. After a restart the same late push makes the node live again,
  with no region and no machine type, and writes it over the DELETED row of the history.
\<close>

lemma restart_forgets_tombstones:
  defines "h \<equiv> fst (record_node_push 20 (restart demo_deleted) ''n1'' [NStatus (Some READY)])"
  shows "node_status_of demo_deleted ''n1'' = Some DELETED" "node_status_of h ''n1'' = Some READY"
    "map_option n_status (map_of (hist_nodes h) ''n1'') = Some (Some READY)"
    "map_option n_gcp_region (map_of (NODES h) ''n1'') = Some None"
  unfolding h_def by code_simp+

text \<open>The node reaper then raises on that node's missing region, which ends its loop.\<close>

lemma resurrected_node_stops_the_reaper:
  "node_reaper_tick (\<lambda>ns r. Some []) (\<lambda>n. True) 0 400
     (fst (record_node_push 20 (restart demo_deleted) ''n1'' [NStatus (Some READY)]))
   = Inl (KeyError ''gcp_region'')"
  by code_simp

text \<open>
  C24. A job's outcome is final across every run, head restarts included: a terminal job is never
  RUNNING again and never lost, and a FAILED or CANCELED one is never reported COMPLETED.
\<close>

theorem job_outcome_is_final:
  assumes "head_life h" "any_step\<^sup>*\<^sup>* h h'" "job_lookup h k = Some j" "job_terminal j"
  shows "\<exists>j'. job_lookup h' k = Some j' \<and> job_terminal j' \<and>
    (j_status j' = Some JOB_COMPLETED \<longrightarrow> j_status j = Some JOB_COMPLETED)"
proof -
  have s: "job_status_of h k = j_status j" using assms(3) by (simp add: job_status_of_def)
  have "job_status_of h' k \<in> {Some JOB_COMPLETED, Some JOB_FAILED, Some JOB_CANCELED}"
    using jobs.absorbing [OF job_terminal_closed assms(2), of k] assms(4) s by (simp add: job_terminal_iff)
  moreover have "j_status j \<noteq> Some JOB_COMPLETED \<longrightarrow>
      job_status_of h' k \<in> {Some JOB_FAILED, Some JOB_CANCELED}"
    using jobs.absorbing [OF job_failed_closed assms(2), of k] assms(4) s by (auto simp: job_terminal_iff)
  ultimately show ?thesis
    by (auto simp: job_status_of_def job_terminal_iff split: option.splits)
qed

definition demo_failed :: head where
  "demo_failed = fst (update_job 20 demo_running ''j1'' [JStatus (Some JOB_FAILED)] None)"

lemma demo_failed_life: "head_life demo_failed"
proof -
  obtain h' j' kids where st: "update_job_step 20 demo_running ''j1'' [JStatus (Some JOB_FAILED)] None = Some (h', j', kids)"
    and "demo_failed = cascade 20 h' (cancellations ''j1'' j' kids)"
    and "kids = []"
  proof -
    have "map_option (\<lambda>(h, j, kids). kids)
        (update_job_step 20 demo_running ''j1'' [JStatus (Some JOB_FAILED)] None) = Some []"
      by code_simp
    then show thesis
      using that by (auto simp: demo_failed_def update_job_def)
  qed
  then show ?thesis
    using life_step [OF demo_running_life job_updated [OF _ st]] by (simp add: cancellations_def clean_def)
qed

theorem job_outcome_is_final_witness:
  "\<exists>j'. job_lookup (restart demo_failed) ''j1'' = Some j' \<and> job_terminal j' \<and> j_status j' \<noteq> Some JOB_COMPLETED"
proof -
  obtain j where j: "job_lookup demo_failed ''j1'' = Some j" "j_status j = Some JOB_FAILED"
  proof -
    have "map_option j_status (job_lookup demo_failed ''j1'') = Some (Some JOB_FAILED)" by code_simp
    then show thesis using that by auto
  qed
  have "any_step\<^sup>*\<^sup>* demo_failed (restart demo_failed)"
    using head_life_inv [OF demo_failed_life] by (auto simp: any_step_def intro!: r_into_rtranclp)
  from job_outcome_is_final [OF demo_failed_life this j(1)] j(2) show ?thesis
    by (auto simp: job_terminal_iff)
qed

section \<open>Restarting the head\<close>

lemma restart_recovers_parts:
  assumes "head_life h"
  shows "job_lookup (restart h) k = map_option strip (job_lookup h k)"
    and "map_of (NODES h) name = Some n \<Longrightarrow> n_status n \<notin> {None, Some DELETED} \<Longrightarrow>
      \<exists>m. map_of (NODES (restart h)) name = Some m \<and> n_status m = n_status n \<and>
        durable_view m = durable_view n \<and> n_last_push_at m = None \<and> n_loaded_from_history m"
proof -
  have inv: "head_inv h" by (rule head_life_inv [OF assms])
  show "job_lookup (restart h) k = map_option strip (job_lookup h k)" by (rule restart_job_lookup [OF inv])
  assume n: "map_of (NODES h) name = Some n" "n_status n \<notin> {None, Some DELETED}"
  then obtain m where m: "map_of (hist_nodes h) name = Some m" "n_status m = n_status n"
      "durable_view m = durable_view n"
    using nodes_ok_durable [of "NODES h" "hist_nodes h" name n] inv by (auto simp: head_inv_def)
  have "n_status m \<in> {Some BOOTING, Some READY, Some RUNNING, Some FAILED}"
  proof -
    obtain s where "n_status m = Some s" "s \<noteq> DELETED" using n m by auto
    then show ?thesis by (cases s) auto
  qed
  then show "\<exists>m. map_of (NODES (restart h)) name = Some m \<and> n_status m = n_status n \<and>
      durable_view m = durable_view n \<and> n_last_push_at m = None \<and> n_loaded_from_history m"
    using m by (simp add: restart_nodes [OF inv] recovered_def durable_view_def)
qed

text \<open>
  C25. A head that is killed and restarted at any moment recovers every job exactly (only the nodes'
  progress reports are gone) and every node that had not been deleted, with its status, addresses,
  assignment and reservation; recovered nodes count as not having reported yet.
\<close>

theorem restart_recovers:
  assumes "head_life h"
  shows "job_lookup (restart h) k = map_option strip (job_lookup h k) \<and>
    (\<forall>n. map_of (NODES h) name = Some n \<and> n_status n \<notin> {None, Some DELETED} \<longrightarrow>
      (\<exists>m. map_of (NODES (restart h)) name = Some m \<and> n_status m = n_status n \<and>
        durable_view m = durable_view n \<and> n_last_push_at m = None \<and> n_loaded_from_history m))"
  using restart_recovers_parts [OF assms] by blast

theorem restart_recovers_witness:
  "\<exists>m. map_of (NODES (restart demo_running)) ''n1'' = Some m \<and> n_reserved_for_job m = Some ''j1''"
proof -
  obtain n where n: "map_of (NODES demo_running) ''n1'' = Some n"
    and v: "n_status n = Some READY" "n_reserved_for_job n = Some ''j1''"
  proof -
    have "map_option (\<lambda>n. (n_status n, n_reserved_for_job n)) (map_of (NODES demo_running) ''n1'')
        = Some (Some READY, Some ''j1'')"
      by code_simp
    then show thesis using that by auto
  qed
  from restart_recovers [OF demo_running_life, of _ "''n1''"] n v show ?thesis by (auto simp: durable_view_def)
qed

section \<open>Admission\<close>

lemma admission_is_exclusive_parts:
  assumes "head_life h" "admit_job now h k j sel = (h', True, resp)" "k \<noteq> []"
  shows "job_lookup h k = None \<and> job_lookup h' k = Some (strip j) \<and> resp = j_start_response j"
    and "name \<in> set sel \<Longrightarrow> (\<exists>n. map_of (NODES h) name = Some n \<and> n_status n = Some READY \<and>
        \<not> truthy (n_current_job n) \<and> \<not> truthy (n_reserved_for_job n) \<and> node_is_fresh now n \<and>
        map_of (NODES h') name = Some (n\<lparr>n_reserved_for_job := Some k\<rparr>) \<and>
        map_of (hist_nodes h') name = Some (n\<lparr>n_reserved_for_job := Some k\<rparr>))"
    and "name \<notin> set sel \<Longrightarrow> map_of (NODES h') name = map_of (NODES h) name"
    and "name \<in> set sel \<Longrightarrow> name \<in> set sel' \<Longrightarrow> \<not> fst (snd (admit_job now' h' k' j' sel'))"
proof -
  have inv: "head_inv h" by (rule head_life_inv [OF assms(1)])
  then have ok: "nodes_ok (NODES h) (hist_nodes h)" by (simp add: head_inv_def)
  have adm: "admissible now h k sel" using assms(2) admit_job_refused(2) [of now h k sel j] by auto
  then have sel: "\<forall>x \<in> set sel. claimable now (map_of (NODES h) x)" by (simp add: admissible_def)
  have h': "h' = fst (admit_job now h k j sel)" using assms(2) by simp
  show "job_lookup h k = None \<and> job_lookup h' k = Some (strip j) \<and> resp = j_start_response j"
    using adm assms(2) admit_job_accepted(2) [OF adm, of j]
    by (auto simp: h' job_lookup_admit admissible_def dest: arg_cong [of _ _ "\<lambda>x. snd (snd x)"])
  have N: "map_of (NODES h') x = (if x \<in> set sel then Some (claimed h k x) else map_of (NODES h) x)" for x
    by (simp add: h' admit_job_accepted [OF adm] claimed_lookup [OF ok sel])
  have H: "map_of (hist_nodes h') x = (if x \<in> set sel then Some (claimed h k x) else map_of (hist_nodes h) x)" for x
    by (simp add: h' admit_job_accepted [OF adm] claimed_lookup [OF ok sel])
  show "name \<notin> set sel \<Longrightarrow> map_of (NODES h') name = map_of (NODES h) name" by (simp add: N)
  show "\<exists>n. map_of (NODES h) name = Some n \<and> n_status n = Some READY \<and>
        \<not> truthy (n_current_job n) \<and> \<not> truthy (n_reserved_for_job n) \<and> node_is_fresh now n \<and>
        map_of (NODES h') name = Some (n\<lparr>n_reserved_for_job := Some k\<rparr>) \<and>
        map_of (hist_nodes h') name = Some (n\<lparr>n_reserved_for_job := Some k\<rparr>)" if "name \<in> set sel"
  proof -
    from that sel obtain n where n: "map_of (NODES h) name = Some n" "claimable now (Some n)"
      by (cases "map_of (NODES h) name") (auto simp: claimable_def)
    then show ?thesis using that by (auto simp: N H claimed_def claimable_def)
  qed
  show "\<not> fst (snd (admit_job now' h' k' j' sel'))" if "name \<in> set sel" "name \<in> set sel'"
  proof -
    have "\<not> claimable now' (map_of (NODES h') name)"
      using that(1) assms(3) by (simp add: N claimed_def claimable_def)
    then have "\<not> admissible now' h' k' sel'" using that(2) by (auto simp: admissible_def)
    then show ?thesis by (simp add: admit_job_refused)
  qed
qed

text \<open>
  C26. An accepted admission is exclusive: every selected node was READY, idle and recently heard
  from; afterwards each is reserved for the job in memory and in the history, no other node has
  changed, and no later admission can claim any of them while the reservation stands.
\<close>

theorem admission_is_exclusive:
  assumes "head_life h" "admit_job now h k j sel = (h', True, resp)" "k \<noteq> []"
  shows "job_lookup h k = None \<and> job_lookup h' k = Some (strip j) \<and> resp = j_start_response j \<and>
    (\<forall>name \<in> set sel. (\<exists>n. map_of (NODES h) name = Some n \<and> n_status n = Some READY \<and>
        \<not> truthy (n_current_job n) \<and> \<not> truthy (n_reserved_for_job n) \<and> node_is_fresh now n \<and>
        map_of (NODES h') name = Some (n\<lparr>n_reserved_for_job := Some k\<rparr>) \<and>
        map_of (hist_nodes h') name = Some (n\<lparr>n_reserved_for_job := Some k\<rparr>))) \<and>
    (\<forall>name. name \<notin> set sel \<longrightarrow> map_of (NODES h') name = map_of (NODES h) name) \<and>
    (\<forall>now' k' j' sel'. set sel \<inter> set sel' \<noteq> {} \<longrightarrow> \<not> fst (snd (admit_job now' h' k' j' sel')))"
  using admission_is_exclusive_parts [OF assms] by blast

lemma demo_admission: "admit_job 12 demo_ready ''j1'' demo_job [''n1''] = (demo_running, True, j_start_response demo_job)"
proof -
  have adm: "admissible 12 demo_ready ''j1'' [''n1'']" by code_simp
  show ?thesis
    unfolding demo_running_def using admit_job_accepted(1,2) [OF adm, of demo_job] by (metis prod.collapse)
qed

theorem admission_is_exclusive_witness:
  "\<not> fst (snd (admit_job 13 demo_running ''j2'' demo_job [''n1'']))"
  using admission_is_exclusive [OF demo_ready_life demo_admission] by simp

text \<open>
  A replayed start request is harmless: admitting a job id that was already admitted returns the
  first admission's response and changes nothing, whatever the second request asks for.
\<close>

theorem admission_replay:
  assumes "admit_job now h k j sel = (h', True, resp)"
  shows "admit_job now' h' k j' sel' = (h', False, resp)"
proof -
  have adm: "admissible now h k sel" using assms admit_job_refused(2) [of now h k sel j] by auto
  have "map_of (JOBS h') k = Some (strip j)"
    using admit_job_accepted(5) [OF adm, of j] assms by simp
  moreover have "resp = j_start_response j" using admit_job_accepted(2) [OF adm, of j] assms by simp
  ultimately show ?thesis by (simp add: admit_job_def get_or_load_job_def)
qed

theorem admission_replay_witness:
  "admit_job 13 demo_running ''j1'' demo_job [''n1'', ''n2''] = (demo_running, False, j_start_response demo_job)"
  by (rule admission_replay [OF demo_admission])

lemma paused_head_is_idle_parts:
  assumes "head_life h" "admission_paused h"
  shows "job_status_of h k \<noteq> Some JOB_RUNNING"
    and "map_of (hist_jobs h) k = Some s \<Longrightarrow> j_status s \<noteq> Some JOB_RUNNING"
    and "\<not> fst (snd (admit_job now h k j sel))"
proof -
  have inv: "head_inv h" by (rule head_life_inv [OF assms(1)])
  then have ok: "jobs_ok (JOBS h) (hist_jobs h) True" using assms(2) by (simp add: head_inv_def)
  show hist: "j_status s \<noteq> Some JOB_RUNNING" if "map_of (hist_jobs h) k = Some s" for s
    using jobs_okD(6) [OF ok _ that] by simp
  show "job_status_of h k \<noteq> Some JOB_RUNNING"
    using hist [OF head_inv_job_lookup [OF inv]]
    by (cases "job_lookup h k") (auto simp: job_status_of_def)
  show "\<not> fst (snd (admit_job now h k j sel))"
    using assms(2) by (simp add: admissible_def admit_job_refused)
qed

text \<open>
  While admission is paused (\<open>burla deploy\<close> is copying the history), no job is RUNNING, neither
  in memory nor in the history, and none is admitted.
\<close>

theorem paused_head_is_idle:
  assumes "head_life h" "admission_paused h"
  shows "job_status_of h k \<noteq> Some JOB_RUNNING \<and>
    (\<forall>s. map_of (hist_jobs h) k = Some s \<longrightarrow> j_status s \<noteq> Some JOB_RUNNING) \<and>
    \<not> fst (snd (admit_job now h k j sel))"
  using paused_head_is_idle_parts [OF assms] by blast

theorem paused_head_is_idle_witness:
  "\<not> fst (snd (admit_job 12 (fst (pause_job_admission_if_idle demo_ready)) ''j1'' demo_job [''n1'']))"
proof -
  have "head_life (fst (pause_job_admission_if_idle demo_ready))"
    by (rule life_step [OF demo_ready_life paused])
  moreover have "admission_paused (fst (pause_job_admission_if_idle demo_ready))" by code_simp
  ultimately show ?thesis using paused_head_is_idle by blast
qed

end
