(* ===== verification/Job_Cascade.thy ===== *)
theory Job_Cascade
  imports Head_Properties
begin

text \<open>
  \<open>update_job\<close> as a whole: what it makes of the job it is given, and what its cascade of
  cancellations reaches and leaves alone.
\<close>

section \<open>What a cascade does to each job\<close>

lemma cascade_step_facts:
  assumes "update_job_step now (cascade_log c h) (fst c) (cascade_updates c) None = Some (h', j', kids)"
  obtains j where "job_lookup h (fst c) = Some j" "j' = merged_job now j (cascade_updates c) None"
    "\<And>k. job_lookup h' k = (if k = fst c then Some j' else job_lookup h k)"
    "j_status j' = Some JOB_CANCELED"
    "kids = (if job_terminal j then [] else cancelable_child_ids h' (fst c))"
    "NODES h' = dmap (\<lambda>_. release_node (fst c)) (NODES h)"
proof -
  have l: "job_lookup (cascade_log c h) k = job_lookup h k" for k
    by (rule job_lookup_cong) simp_all
  have t: "j_status j' = Some JOB_CANCELED" "job_terminal j'"
    using cascade_step_terminal [OF assms] by auto
  from assms obtain j where *: "job_lookup h (fst c) = Some j" "j' = merged_job now j (cascade_updates c) None"
    "\<And>k. job_lookup h' k = (if k = fst c then Some j' else job_lookup h k)"
    "kids = (if job_terminal j' \<and> \<not> job_terminal j \<and> j_status j' \<in> {Some JOB_FAILED, Some JOB_CANCELED}
       then cancelable_child_ids h' (fst c) else [])"
    "NODES h' = (if job_terminal j' then dmap (\<lambda>_. release_node (fst c)) (NODES h) else NODES h)"
    by (rule update_job_step_Some) (simp add: l)
  show thesis by (rule that [OF *(1,2,3) t(1)]) (use * t in simp_all)
qed

text \<open>Induction along a cascade: nothing left, a job that is gone, a cancellation.\<close>

lemma cascade_induct [case_names nil gone cancel]:
  assumes "\<And>h. P h []"
    and "\<And>h c cs. update_job_step now (cascade_log c h) (fst c) (cascade_updates c) None = None \<Longrightarrow>
      P (cascade_log c h) cs \<Longrightarrow> P h (c # cs)"
    and "\<And>h c cs h1 j1 kids.
      update_job_step now (cascade_log c h) (fst c) (cascade_updates c) None = Some (h1, j1, kids) \<Longrightarrow>
      P h1 (cancellations (fst c) j1 kids @ cs) \<Longrightarrow> P h (c # cs)"
  shows "P h cs"
proof -
  have "now' = now \<Longrightarrow> P h cs" for now'
  proof (induction now' h cs rule: cascade.induct)
    case (2 now' h c cs)
    show ?case
    proof (cases "update_job_step now (cascade_log c h) (fst c) (cascade_updates c) None")
      case None
      then show ?thesis using assms(2) 2(1) [OF None [folded 2(3)] 2(3)] by blast
    next
      case (Some t)
      obtain h1 j1 kids where "t = (h1, j1, kids)" by (cases t)
      have "P h1 (cancellations (fst c) j1 kids @ cs)"
        using 2(2) [OF Some [unfolded \<open>t = (h1, j1, kids)\<close>, folded 2(3)] refl refl 2(3)] .
      then show ?thesis using assms(3) Some \<open>t = (h1, j1, kids)\<close> by blast
    qed
  qed (rule assms(1))
  then show ?thesis by simp
qed

lemma log_lookup [simp]: "job_lookup (cascade_log c h) k = job_lookup h k"
  by (rule job_lookup_cong) simp_all

lemma cancelable_running:
  "distinct (dkeys (JOBS h)) \<Longrightarrow> x \<in> set (cancelable_child_ids h p) \<longleftrightarrow>
     (\<exists>c. map_of (JOBS h) x = Some c \<and> j_parent_job_id c = Some p \<and> j_status c = Some JOB_RUNNING
        \<and> \<not> (j_is_background_job c \<and> j_all_inputs_uploaded c))"
  by (force simp: cancelable_child_ids_def simp del: map_of_eq_Some_iff
      simp: map_of_mem [symmetric])

lemma kid_running:
  "x \<in> set (cancelable_child_ids h p) \<Longrightarrow> distinct (dkeys (JOBS h)) \<Longrightarrow>
     \<exists>c. job_lookup h x = Some c \<and> j_status c = Some JOB_RUNNING \<and> j_parent_job_id c = Some p"
  by (auto simp: cancelable_running job_lookup_def simp del: map_of_eq_Some_iff)

lemma cascade_log_inv: "head_inv h \<Longrightarrow> head_inv (cascade_log c h)"
  by (simp add: head_inv_def)

lemma cascade_updates_clean [simp]: "clean (cascade_updates c)"
  by (simp add: clean_def cascade_updates_def)

lemma cascade_step_inv:
  "update_job_step now (cascade_log c h) k (cascade_updates c) None = Some (h', j', kids) \<Longrightarrow>
     head_inv h \<Longrightarrow> head_inv h'"
  using head_inv_job_step [OF cascade_log_inv cascade_updates_clean] by blast

lemma head_inv_distinct: "head_inv h \<Longrightarrow> distinct (dkeys (JOBS h))"
  by (auto simp: head_inv_def jobs_ok_def)

lemma fst_cancellations [simp]: "fst ` set (cancellations p j kids) = set kids"
  by (force simp: cancellations_def)

lemma apply_job_updates_parent [simp]:
  "j_parent_job_id (apply_job_updates us j) = j_parent_job_id j"
  "j_is_background_job (apply_job_updates us j) = j_is_background_job j"
proof -
  have "j_parent_job_id (set_job_field u j) = j_parent_job_id j
      \<and> j_is_background_job (set_job_field u j) = j_is_background_job j" for u j
    by (cases u) auto
  then show "j_parent_job_id (apply_job_updates us j) = j_parent_job_id j"
    "j_is_background_job (apply_job_updates us j) = j_is_background_job j"
    unfolding apply_job_updates_def by (induction us arbitrary: j) auto
qed

lemma merged_job_parent [simp]:
  "j_parent_job_id (merged_job now j us r) = j_parent_job_id j"
  "j_is_background_job (merged_job now j us r) = j_is_background_job j"
  by (auto simp: merged_job_def Let_def split: option.splits)

lemma cascade_merged_uploaded [simp]:
  "j_all_inputs_uploaded (merged_job now j (cascade_updates c) r) = j_all_inputs_uploaded j"
  by (auto simp: merged_job_def Let_def cascade_updates_def apply_job_updates_def split: option.splits)

text \<open>Every job keeps its status or is canceled, and keeps its place in the tree of jobs.\<close>

lemma cascade_job:
  assumes "job_lookup (cascade now h cs) k = Some j'"
  shows "\<exists>j. job_lookup h k = Some j \<and> (j_status j' = j_status j \<or> j_status j' = Some JOB_CANCELED)
    \<and> j_parent_job_id j' = j_parent_job_id j \<and> j_is_background_job j' = j_is_background_job j
    \<and> j_all_inputs_uploaded j' = j_all_inputs_uploaded j"
  using assms
proof (induction h cs arbitrary: j' rule: cascade_induct [where now = now])
  case (cancel h c cs h1 j1 kids)
  from cascade_step_facts [OF cancel(1)] obtain j where f: "job_lookup h (fst c) = Some j"
    "j1 = merged_job now j (cascade_updates c) None" "j_status j1 = Some JOB_CANCELED"
    "\<And>k. job_lookup h1 k = (if k = fst c then Some j1 else job_lookup h k)"
    by blast
  from cancel(3) have "job_lookup (cascade now h1 (cancellations (fst c) j1 kids @ cs)) k = Some j'"
    by (simp add: cancel(1))
  from cancel(2) [OF this] show ?case using f by (cases "k = fst c") auto
qed simp_all

lemma cascade_lookup_None: "job_lookup (cascade now h cs) k = None \<longleftrightarrow> job_lookup h k = None"
proof (induction h cs rule: cascade_induct [where now = now])
  case (cancel h c cs h1 j1 kids)
  from cascade_step_facts [OF cancel(1)] obtain j where "job_lookup h (fst c) = Some j"
    "\<And>k. job_lookup h1 k = (if k = fst c then Some j1 else job_lookup h k)"
    by blast
  then show ?case using cancel by auto
qed simp_all

lemma cascade_status:
  "job_status_of (cascade now h cs) k = job_status_of h k
     \<or> job_status_of (cascade now h cs) k = Some JOB_CANCELED"
proof (cases "job_lookup (cascade now h cs) k")
  case None
  then have "job_lookup h k = None" by (simp add: cascade_lookup_None)
  then show ?thesis using None by (simp add: job_status_of_def)
next
  case (Some j')
  from cascade_job [OF this] show ?thesis using Some by (auto simp: job_status_of_def)
qed

lemma cascade_cancels:
  "k \<in> fst ` set cs \<Longrightarrow> job_lookup h k \<noteq> None \<Longrightarrow> job_status_of (cascade now h cs) k = Some JOB_CANCELED"
proof (induction h cs rule: cascade_induct [where now = now])
  case (gone h c cs)
  then have "job_lookup h (fst c) = None" by (simp add: update_job_step_None)
  then have "k \<noteq> fst c" using gone(4) by auto
  then show ?case using gone by auto
next
  case (cancel h c cs h1 j1 kids)
  from cascade_step_facts [OF cancel(1)] obtain j where f: "job_lookup h (fst c) = Some j"
    "\<And>k. job_lookup h1 k = (if k = fst c then Some j1 else job_lookup h k)" "j_status j1 = Some JOB_CANCELED"
    by blast
  show ?case
  proof (cases "k = fst c")
    case True
    then have "job_status_of h1 k = Some JOB_CANCELED" using f by (simp add: job_status_of_def)
    then show ?thesis
      using cascade_status [of now h1 "cancellations (fst c) j1 kids @ cs" k] by (simp add: cancel(1))
  next
    case False
    then show ?thesis using cancel f by auto
  qed
qed simp

text \<open>A finished job is out of a cascade's reach, and so is a job without a parent.\<close>

lemma cascade_spares:
  assumes "job_lookup h k = Some j" "job_terminal j \<or> j_parent_job_id j = None"
    "k \<notin> fst ` set cs" "head_inv h"
  shows "job_lookup (cascade now h cs) k = Some j"
  using assms
proof (induction h cs rule: cascade_induct [where now = now])
  case (gone h c cs)
  then show ?case by (simp add: cascade_log_inv)
next
  case (cancel h c cs h1 j1 kids)
  from cascade_step_facts [OF cancel(1)] obtain i where f:
    "\<And>k. job_lookup h1 k = (if k = fst c then Some j1 else job_lookup h k)"
    "kids = (if job_terminal i then [] else cancelable_child_ids h1 (fst c))"
    by blast
  have inv1: "head_inv h1" by (rule cascade_step_inv [OF cancel(1,6)])
  have k: "job_lookup h1 k = Some j" using cancel(3,5) f by auto
  have "k \<notin> set kids"
  proof
    assume "k \<in> set kids"
    then have "k \<in> set (cancelable_child_ids h1 (fst c))" using f(2) by (simp split: if_splits)
    from kid_running [OF this head_inv_distinct [OF inv1]] k cancel(4) show False
      by (auto simp: job_terminal_iff)
  qed
  then have "k \<notin> fst ` set (cancellations (fst c) j1 kids @ cs)" using cancel(5) by (simp add: image_Un)
  from cancel(2) [OF k cancel(4) this inv1] show ?case by (simp add: cancel(1))
qed simp

lemma cascade_inv: "head_inv h \<Longrightarrow> head_inv (cascade now h cs)"
proof (induction h cs rule: cascade_induct [where now = now])
  case (cancel h c cs h1 j1 kids)
  then show ?case using cascade_step_inv [OF cancel(1,3)] by simp
qed (simp_all add: cascade_log_inv)

section \<open>No running orphans, no stale reservations\<close>

definition running_child :: "head \<Rightarrow> string \<Rightarrow> string \<Rightarrow> bool" where
  "running_child h p x \<longleftrightarrow> (\<exists>c. job_lookup h x = Some c \<and> j_parent_job_id c = Some p
     \<and> j_status c = Some JOB_RUNNING \<and> \<not> (j_is_background_job c \<and> j_all_inputs_uploaded c))"

definition reserved_for :: "head \<Rightarrow> string \<Rightarrow> bool" where
  "reserved_for h p \<longleftrightarrow> (\<exists>name n. map_of (NODES h) name = Some n \<and> n_reserved_for_job n = Some p)"

lemma running_child_in: "head_inv h \<Longrightarrow> running_child h p x \<Longrightarrow> x \<in> set (cancelable_child_ids h p)"
proof -
  assume inv: "head_inv h" and "running_child h p x"
  then obtain c where c: "job_lookup h x = Some c" "j_parent_job_id c = Some p" "j_status c = Some JOB_RUNNING"
    "\<not> (j_is_background_job c \<and> j_all_inputs_uploaded c)"
    by (auto simp: running_child_def)
  have ok: "jobs_ok (JOBS h) (hist_jobs h) (admission_paused h)" using inv by (simp add: head_inv_def)
  have "map_of (JOBS h) x \<noteq> None"
    using jobs_okD(5) [OF ok head_inv_job_lookup [OF inv c(1)]] c(3) by simp
  then have "map_of (JOBS h) x = Some c" using c(1) by (auto simp: job_lookup_def)
  then show "x \<in> set (cancelable_child_ids h p)"
    using c by (auto simp: cancelable_running [OF head_inv_distinct [OF inv]])
qed

lemma cascade_running_child: "running_child (cascade now h cs) p x \<Longrightarrow> running_child h p x \<and> x \<notin> fst ` set cs"
proof -
  assume "running_child (cascade now h cs) p x"
  then obtain c where c: "job_lookup (cascade now h cs) x = Some c" "j_parent_job_id c = Some p"
    "j_status c = Some JOB_RUNNING" "\<not> (j_is_background_job c \<and> j_all_inputs_uploaded c)"
    by (auto simp: running_child_def)
  from cascade_job [OF c(1)] have "running_child h p x" using c by (auto simp: running_child_def)
  moreover have "x \<notin> fst ` set cs"
  proof
    assume "x \<in> fst ` set cs"
    moreover have "job_lookup h x \<noteq> None" using cascade_lookup_None [of now h cs x] c(1) by simp
    ultimately have "job_status_of (cascade now h cs) x = Some JOB_CANCELED" by (rule cascade_cancels)
    then show False using c by (simp add: job_status_of_def)
  qed
  ultimately show ?thesis by blast
qed

lemma cascade_reserved: "reserved_for (cascade now h cs) p \<Longrightarrow> reserved_for h p"
proof (induction h cs rule: cascade_induct [where now = now])
  case (cancel h c cs h1 j1 kids)
  from cascade_step_facts [OF cancel(1)] have "NODES h1 = dmap (\<lambda>_. release_node (fst c)) (NODES h)" by blast
  then have "reserved_for h1 p \<Longrightarrow> reserved_for h p"
    by (auto simp: reserved_for_def release_node_def simp del: map_of_eq_Some_iff split: if_splits)
  then show ?case using cancel by simp
qed (simp_all add: reserved_for_def)

lemma cascade_ends_cleanly:
  assumes "job_lookup h p = Some jp" "\<not> job_terminal jp" "head_inv h"
    and "job_status_of (cascade now h cs) p = Some JOB_CANCELED"
  shows "\<not> running_child (cascade now h cs) p x \<and> \<not> reserved_for (cascade now h cs) p"
  using assms
proof (induction h cs rule: cascade_induct [where now = now])
  case (nil h)
  then show ?case by (simp add: job_status_of_def job_terminal_iff)
next
  case (gone h c cs)
  then show ?case by (simp add: cascade_log_inv)
next
  case (cancel h c cs h1 j1 kids)
  let ?r = "cascade now h1 (cancellations (fst c) j1 kids @ cs)"
  from cascade_step_facts [OF cancel(1)] obtain j where f: "job_lookup h (fst c) = Some j"
    "\<And>k. job_lookup h1 k = (if k = fst c then Some j1 else job_lookup h k)"
    "kids = (if job_terminal j then [] else cancelable_child_ids h1 (fst c))"
    "NODES h1 = dmap (\<lambda>_. release_node (fst c)) (NODES h)"
    by blast
  have inv1: "head_inv h1" by (rule cascade_step_inv [OF cancel(1,5)])
  have r: "cascade now h (c # cs) = ?r" by (simp add: cancel(1))
  show ?case
  proof (cases "p = fst c")
    case True
    then have kids: "kids = cancelable_child_ids h1 p" using f cancel(3,4) by simp
    have "\<not> running_child ?r p x"
      using cascade_running_child [of now h1 _ p x] running_child_in [OF inv1, of p x] kids
      by (force simp: image_Un)
    moreover have "\<not> reserved_for h1 p"
      using True by (auto simp: reserved_for_def f(4) release_node_def simp del: map_of_eq_Some_iff split: if_splits)
    ultimately show ?thesis using cascade_reserved r by auto
  next
    case False
    then show ?thesis using cancel(2-6) f(2) inv1 r by simp
  qed
qed

lemma update_job_cases:
  assumes "job_lookup h k = Some j"
  obtains h1 kids where "update_job_step now h k us r = Some (h1, merged_job now j us r, kids)"
    "update_job now h k us r = (cascade now h1 (cancellations k (merged_job now j us r) kids), True)"
proof -
  from assms have "update_job_step now h k us r \<noteq> None" by (simp add: update_job_step_None)
  then obtain h1 j' kids where st: "update_job_step now h k us r = Some (h1, j', kids)" by auto
  moreover from st have "j' = merged_job now j us r" by (rule update_job_step_Some) (use assms in simp)
  ultimately show thesis using that by (simp add: update_job_def)
qed

lemma merged_job_fail_reason:
  "j_fail_reason (merged_job now j us r) =
     (case r of None \<Rightarrow> j_fail_reason j
      | Some x \<Rightarrow> if x \<in> set (j_fail_reason j) then j_fail_reason j else j_fail_reason j @ [x])"
proof -
  have "j_fail_reason (set_job_field u j) = j_fail_reason j" for u j by (cases u) auto
  then have "j_fail_reason (apply_job_updates us j) = j_fail_reason j" for us
    unfolding apply_job_updates_def by (induction us arbitrary: j) auto
  then show ?thesis by (auto simp: merged_job_def Let_def split: option.splits)
qed

lemma update_job_missing: "job_lookup h k = None \<Longrightarrow> update_job now h k us r = (h, False)"
  using update_job_step_None [of now h k us r] by (simp add: update_job_def)

lemma update_job_inv: "head_inv h \<Longrightarrow> clean us \<Longrightarrow> head_inv (fst (update_job now h k us r))"
proof (cases "job_lookup h k")
  case (Some j)
  assume inv: "head_inv h" and us: "clean us"
  from update_job_cases [OF Some, of now us r] obtain h1 kids
    where st: "update_job_step now h k us r = Some (h1, merged_job now j us r, kids)"
      and u: "update_job now h k us r = (cascade now h1 (cancellations k (merged_job now j us r) kids), True)"
    by blast
  from head_inv_job_step [OF inv us st] show ?thesis by (simp add: u cascade_inv)
qed (simp add: update_job_missing)

text \<open>The job the update names ends up as the merge says, whatever the cascade does.\<close>

lemma update_job_self:
  assumes inv: "head_inv h" and us: "clean us" and j: "job_lookup h k = Some j"
  shows "job_lookup (fst (update_job now h k us r)) k = Some (merged_job now j us r)"
proof -
  let ?m = "merged_job now j us r"
  obtain h1 kids where st: "update_job_step now h k us r = Some (h1, ?m, kids)"
    and u: "update_job now h k us r = (cascade now h1 (cancellations k ?m kids), True)"
    by (rule update_job_cases [OF j])
  from st have l: "job_lookup h1 k = Some ?m"
    and kids: "kids = [] \<or> job_terminal ?m \<and> kids = cancelable_child_ids h1 k"
    by (rule update_job_step_Some; simp)+
  have inv1: "head_inv h1" by (rule head_inv_job_step [OF inv us st])
  from kids show ?thesis
  proof
    assume "kids = []"
    then show ?thesis by (simp add: u l cancellations_def)
  next
    assume t: "job_terminal ?m \<and> kids = cancelable_child_ids h1 k"
    have "k \<notin> set kids"
    proof
      assume "k \<in> set kids"
      with t kid_running [OF _ head_inv_distinct [OF inv1], of k k] l show False by (auto simp: job_terminal_iff)
    qed
    then show ?thesis using t by (simp add: u cascade_spares [OF l _ _ inv1])
  qed
qed

section \<open>The properties\<close>

definition demo_tree :: head where
  "demo_tree = fst (admit_job 13 demo_running ''j2'' (demo_job\<lparr>j_parent_job_id := Some ''j1''\<rparr>) [])"

lemma demo_tree_life: "head_life demo_tree"
  unfolding demo_tree_def
  by (intro life_step [OF demo_running_life] job_admitted) (simp add: demo_job_def)

text \<open>
  \<open>update_job\<close>'s status rule: a requested FAILED or CANCELED always applies, COMPLETED applies
  only to a RUNNING job, and the result is what is both in memory and in the history when the call
  returns, its cascade included. A job that becomes terminal has an end time and its failure reason
  is recorded once.
\<close>

theorem update_job_status_rule:
  assumes "head_life h" "clean us" "job_lookup h k = Some j"
  shows "\<exists>j'. job_lookup (fst (update_job now h k us r)) k = Some j' \<and>
    map_of (hist_jobs (fst (update_job now h k us r))) k = Some (strip j') \<and>
    j_status j' =
      (if \<not> list_ex is_status_field us then j_status j
       else if job_updates_status us = Some JOB_COMPLETED \<and> j_status j \<noteq> Some JOB_RUNNING then j_status j
       else job_updates_status us) \<and>
    (job_terminal j' \<and> \<not> job_terminal j \<longrightarrow> j_ended_at j' \<noteq> None) \<and>
    (case r of None \<Rightarrow> True | Some x \<Rightarrow>
      count_list (j_fail_reason j) x \<le> 1 \<longrightarrow> count_list (j_fail_reason j') x = 1)"
proof (intro exI conjI)
  let ?m = "merged_job now j us r"
  have inv: "head_inv h" by (rule head_life_inv [OF assms(1)])
  show l: "job_lookup (fst (update_job now h k us r)) k = Some ?m"
    by (rule update_job_self [OF inv assms(2,3)])
  show "map_of (hist_jobs (fst (update_job now h k us r))) k = Some (strip ?m)"
    by (rule head_inv_job_lookup [OF update_job_inv [OF inv assms(2)] l])
  show "j_status ?m =
      (if \<not> list_ex is_status_field us then j_status j
       else if job_updates_status us = Some JOB_COMPLETED \<and> j_status j \<noteq> Some JOB_RUNNING then j_status j
       else job_updates_status us)"
    by (rule merged_job_status)
  show "job_terminal ?m \<and> \<not> job_terminal j \<longrightarrow> j_ended_at ?m \<noteq> None"
    by (auto simp: merged_job_def Let_def job_terminal_def split: option.splits if_splits)
  show "case r of None \<Rightarrow> True | Some x \<Rightarrow>
      count_list (j_fail_reason j) x \<le> 1 \<longrightarrow> count_list (j_fail_reason ?m) x = 1"
    by (cases r) (simp_all add: merged_job_fail_reason count_list_0_iff le_Suc_eq)
qed

theorem update_job_status_rule_witness:
  "job_status_of (fst (update_job 30 demo_failed ''j1'' [JStatus (Some JOB_COMPLETED)] None)) ''j1''
     = Some JOB_FAILED"
proof -
  obtain j where j: "job_lookup demo_failed ''j1'' = Some j" "j_status j = Some JOB_FAILED"
  proof -
    have "map_option j_status (job_lookup demo_failed ''j1'') = Some (Some JOB_FAILED)" by code_simp
    then show thesis using that by auto
  qed
  from update_job_status_rule [OF demo_failed_life _ j(1), of "[JStatus (Some JOB_COMPLETED)]" 30 None] j(2)
  show ?thesis by (auto simp: clean_def job_status_of_def job_updates_status_def)
qed

lemma ended_job_leaves_no_orphans:
  assumes "head_life h" "clean us" "job_lookup h p = Some jp" "\<not> job_terminal jp"
    and "job_status_of (fst (update_job now h k us r)) p \<in> {Some JOB_FAILED, Some JOB_CANCELED}"
  shows "\<not> running_child (fst (update_job now h k us r)) p x \<and>
    \<not> reserved_for (fst (update_job now h k us r)) p"
proof (cases "job_lookup h k")
  case None
  then show ?thesis using assms(3-5) by (auto simp: update_job_missing job_status_of_def job_terminal_iff)
next
  case (Some j)
  let ?m = "merged_job now j us r"
  have inv: "head_inv h" by (rule head_life_inv [OF assms(1)])
  obtain h1 kids where st: "update_job_step now h k us r = Some (h1, ?m, kids)"
    and u: "update_job now h k us r = (cascade now h1 (cancellations k ?m kids), True)"
    by (rule update_job_cases [OF Some])
  have inv1: "head_inv h1" by (rule head_inv_job_step [OF inv assms(2) st])
  from st have l: "\<And>x. job_lookup h1 x = (if x = k then Some ?m else job_lookup h x)"
    and N: "NODES h1 = (if job_terminal ?m then dmap (\<lambda>_. release_node k) (NODES h) else NODES h)"
    and kids: "\<And>i. job_lookup h k = Some i \<Longrightarrow> kids = (if job_terminal ?m \<and> \<not> job_terminal i
        \<and> j_status ?m \<in> {Some JOB_FAILED, Some JOB_CANCELED} then cancelable_child_ids h1 k else [])"
    by (rule update_job_step_Some; simp)+
  show ?thesis
  proof (cases "p = k")
    case True
    have s: "j_status ?m \<in> {Some JOB_FAILED, Some JOB_CANCELED}"
      using assms(5) update_job_self [OF inv assms(2) Some, of now r] True by (simp add: job_status_of_def)
    then have "kids = cancelable_child_ids h1 p"
      using kids [OF Some] assms(3,4) True Some by (auto simp: job_terminal_iff)
    then have "\<not> running_child (cascade now h1 (cancellations k ?m kids)) p x"
      using cascade_running_child [of now h1 "cancellations k ?m kids" p x] running_child_in [OF inv1, of p x]
      by auto
    moreover have "\<not> reserved_for h1 p"
      using True s
      by (auto simp: reserved_for_def N job_terminal_iff release_node_def simp del: map_of_eq_Some_iff split: if_splits)
    ultimately show ?thesis using cascade_reserved by (auto simp: u)
  next
    case False
    have "job_status_of h1 p = j_status jp" using False assms(3) by (simp add: l job_status_of_def)
    then have "job_status_of (cascade now h1 (cancellations k ?m kids)) p = Some JOB_CANCELED"
      using cascade_status [of now h1 "cancellations k ?m kids" p] assms(4,5)
      by (auto simp: u job_terminal_iff)
    then show ?thesis
      using cascade_ends_cleanly [OF _ assms(4) inv1, of p] False assms(3) by (simp add: u l)
  qed
qed



end
