(* ===== verification/Reapers.thy ===== *)
theory Reapers
  imports Job_Cascade
begin

text \<open>
  What one tick of each reaper does: jobs and nodes that still show signs of life are left alone,
  silent ones are all ended, and a job is reaped as completed only when its results are in. Also
  that the stored result counts never fall.
\<close>

section \<open>The job reaper\<close>

lemma last_push_old:
  assumes "now > c"
  shows "now - last_push d > c \<longleftrightarrow> (\<forall>p \<in> set d. now - get_or 0 (p_last_push_at (snd p)) > c)"
proof -
  have fold: "now - foldl max t ts > c \<longleftrightarrow> (\<forall>x \<in> set (t # ts). now - x > c)" for t and ts :: "real list"
    by (induction ts arbitrary: t) auto
  show ?thesis
  proof (cases d)
    case Nil
    then show ?thesis using assms by (simp add: last_push_def)
  next
    case (Cons p ps)
    then show ?thesis using fold [of "get_or 0 (p_last_push_at (snd p))" "map (\<lambda>p. get_or 0 (p_last_push_at (snd p))) ps"]
      by (simp add: last_push_def)
  qed
qed

text \<open>No sign of life: started long ago, no report and no node on the job for the silence budget.\<close>

definition job_silent :: "real \<Rightarrow> head \<Rightarrow> string \<Rightarrow> job \<Rightarrow> bool" where
  "job_silent now h k j \<longleftrightarrow>
     (\<exists>t. j_started_at j = Some t \<and> t \<noteq> 0 \<and> now - t \<ge> 150)
     \<and> (\<forall>p \<in> set (j_assigned_nodes j). now - get_or 0 (p_last_push_at (snd p)) > 150)
     \<and> \<not> (\<exists>name n. map_of (NODES h) name = Some n \<and> n_status n = Some RUNNING
          \<and> n_current_job n = Some k \<and> node_is_fresh now n)"

definition all_results_in :: "job \<Rightarrow> bool" where
  "all_results_in j \<longleftrightarrow> j_client_has_all_results j
     \<or> j_is_background_job j \<and> j_all_inputs_uploaded j
       \<and> get_or 0 (j_n_inputs j) > 0 \<and> sum_results (j_assigned_nodes j) \<ge> get_or 0 (j_n_inputs j)"

lemma reaper_verdict_iff:
  assumes "now > 150" "distinct (dkeys (NODES h))"
  shows "reaper_verdict now h k j =
    (if j_status j = Some JOB_RUNNING \<and> job_silent now h k j
     then Some (if all_results_in j then JOB_COMPLETED else JOB_FAILED) else None)"
proof -
  have fresh: "list_ex (\<lambda>(name, n). on_job now k n) (NODES h) \<longleftrightarrow>
      (\<exists>name n. map_of (NODES h) name = Some n \<and> n_status n = Some RUNNING
          \<and> n_current_job n = Some k \<and> node_is_fresh now n)"
    using assms(2) by (auto simp: list_ex_iff on_job_def)
  have started: "now - (case j_started_at j of None \<Rightarrow> now | Some t \<Rightarrow> if t = 0 then now else t) < 150
      \<longleftrightarrow> \<not> (\<exists>t. j_started_at j = Some t \<and> t \<noteq> 0 \<and> now - t \<ge> 150)"
    by (auto split: option.splits)
  show ?thesis
    unfolding reaper_verdict_def Let_def REAPER_JOB_SILENCE_SEC_def started fresh last_push_old [OF assms(1)]
      job_silent_def all_results_in_def
    by simp
qed

lemma reap_updates_clean [simp]: "clean (reap_updates s t)"
  by (simp add: clean_def reap_updates_def)

lemma reap_updates_status: "s \<noteq> JOB_COMPLETED \<Longrightarrow> job_updates_status (reap_updates s t) = Some JOB_FAILED"
  "job_updates_status (reap_updates JOB_COMPLETED t) = Some JOB_COMPLETED"
  "list_ex is_status_field (reap_updates s t)"
  by (simp_all add: reap_updates_def job_updates_status_def)

lemma reap_job_update:
  obtains us r l where "clean us" "list_ex is_status_field us"
    "job_updates_status us = Some (if s = JOB_COMPLETED then JOB_COMPLETED else JOB_FAILED)"
    "reap_job m now h (k, s) = (fst (update_job now h k us r))\<lparr>hist_job_logs := l\<rparr>"
proof (cases "s = JOB_COMPLETED")
  case True
  show ?thesis
    by (rule that [where us = "reap_updates s (case m k of None \<Rightarrow> now | Some t \<Rightarrow> if t = 0 then now else t)"
          and r = None and l = "hist_job_logs (reap_job m now h (k, s))"])
      (simp_all add: True reap_job_def Let_def reap_updates_status)
next
  case False
  show ?thesis
    by (rule that [where us = "reap_updates s (case m k of None \<Rightarrow> now | Some t \<Rightarrow> if t = 0 then now else t)"
          and r = "Some (''main_svc: job is '' @ [CHR 0x22] @ ''running'' @ [CHR 0x22] @ '' but no nodes working on it ???'')"
          and l = "hist_job_logs (reap_job m now h (k, s))"])
      (simp_all add: False reap_job_def Let_def reap_updates_status)
qed

lemma lookup_logs [simp]: "job_lookup (h\<lparr>hist_job_logs := l\<rparr>) k = job_lookup h k"
  by (rule job_lookup_cong) simp_all

lemma inv_logs [simp]: "head_inv (h\<lparr>hist_job_logs := l\<rparr>) \<longleftrightarrow> head_inv h"
  by (simp add: head_inv_def)

lemma update_job_other:
  assumes inv: "head_inv h" and us: "clean us" and x: "x \<noteq> k" "job_lookup h x = Some jx"
      "job_terminal jx \<or> j_parent_job_id jx = None"
  shows "job_lookup (fst (update_job now h k us r)) x = Some jx"
proof (cases "job_lookup h k")
  case (Some j)
  let ?m = "merged_job now j us r"
  obtain h1 kids where st: "update_job_step now h k us r = Some (h1, ?m, kids)"
    and u: "update_job now h k us r = (cascade now h1 (cancellations k ?m kids), True)"
    by (rule update_job_cases [OF Some])
  have inv1: "head_inv h1" by (rule head_inv_job_step [OF inv us st])
  from st have l: "job_lookup h1 x = Some jx" and kids: "kids = [] \<or> kids = cancelable_child_ids h1 k"
    by (rule update_job_step_Some; use x in simp)+
  have "x \<notin> set kids"
  proof
    assume "x \<in> set kids"
    with kids have "x \<in> set (cancelable_child_ids h1 k)" by auto
    from kid_running [OF this head_inv_distinct [OF inv1]] l x(3) show False
      by (auto simp: job_terminal_iff)
  qed
  then show ?thesis by (simp add: u cascade_spares [OF l x(3) _ inv1])
qed (simp add: update_job_missing x)

lemma reap_job_inv: "head_inv h \<Longrightarrow> head_inv (reap_job m now h c)"
proof -
  assume inv: "head_inv h"
  obtain us r l where "clean us"
    "reap_job m now h (fst c, snd c) = (fst (update_job now h (fst c) us r))\<lparr>hist_job_logs := l\<rparr>"
    by (rule reap_job_update) blast
  then show ?thesis using update_job_inv [OF inv] by simp
qed

lemma reap_job_other:
  assumes "head_inv h" "x \<noteq> fst c" "job_lookup h x = Some jx" "job_terminal jx \<or> j_parent_job_id jx = None"
  shows "job_lookup (reap_job m now h c) x = Some jx"
proof -
  obtain us r l where "clean us"
    "reap_job m now h (fst c, snd c) = (fst (update_job now h (fst c) us r))\<lparr>hist_job_logs := l\<rparr>"
    by (rule reap_job_update) blast
  then show ?thesis using update_job_other [OF assms(1) _ assms(2,3,4)] by simp
qed

lemma reap_job_self:
  assumes "head_inv h" "job_lookup h k = Some j" "j_status j = Some JOB_RUNNING"
  shows "\<exists>j'. job_lookup (reap_job m now h (k, s)) k = Some j' \<and>
    j_status j' = Some (if s = JOB_COMPLETED then JOB_COMPLETED else JOB_FAILED) \<and> job_terminal j'"
proof -
  obtain us r l where us: "clean us" "list_ex is_status_field us"
    "job_updates_status us = Some (if s = JOB_COMPLETED then JOB_COMPLETED else JOB_FAILED)"
    and e: "reap_job m now h (k, s) = (fst (update_job now h k us r))\<lparr>hist_job_logs := l\<rparr>"
    by (rule reap_job_update) blast
  have "job_lookup (reap_job m now h (k, s)) k = Some (merged_job now j us r)"
    by (simp add: e update_job_self [OF assms(1) us(1) assms(2)])
  moreover have "j_status (merged_job now j us r) = Some (if s = JOB_COMPLETED then JOB_COMPLETED else JOB_FAILED)"
    using us assms(3) by (simp add: merged_job_status)
  ultimately show ?thesis by (simp add: job_terminal_iff)
qed

lemma reap_jobs_other:
  assumes "head_inv h" "x \<notin> fst ` set cs" "job_lookup h x = Some jx" "job_terminal jx \<or> j_parent_job_id jx = None"
  shows "job_lookup (foldl (reap_job m now) h cs) x = Some jx"
  using assms
proof (induction cs arbitrary: h)
  case (Cons c cs)
  have "job_lookup (reap_job m now h c) x = Some jx" using Cons.prems by (intro reap_job_other) auto
  then show ?case using Cons by (simp add: reap_job_inv)
qed simp

lemma reap_jobs_inv: "head_inv h \<Longrightarrow> head_inv (foldl (reap_job m now) h cs)"
  by (induction cs arbitrary: h) (simp_all add: reap_job_inv)

lemma reaper_candidates_mem:
  assumes "distinct (dkeys (JOBS h))"
  shows "(k, s) \<in> set (reaper_candidates now h) \<longleftrightarrow>
    (\<exists>j. map_of (JOBS h) k = Some j \<and> reaper_verdict now h k j = Some s)"
proof -
  have "(k, s) \<in> set (List.map_filter (\<lambda>(i, j). map_option (Pair i) (v i j)) xs) \<longleftrightarrow>
      (\<exists>j. (k, j) \<in> set xs \<and> v k j = Some s)" for v and xs :: "job dict"
    by (induction xs) (auto simp: List.map_filter_simps split: option.splits)
  then show ?thesis using assms by (simp add: reaper_candidates_def)
qed

lemma reaper_candidates_distinct:
  assumes "distinct (dkeys (JOBS h))"
  shows "distinct (map fst (reaper_candidates now h))"
proof -
  have "fst ` set (List.map_filter (\<lambda>(i, j). map_option (Pair i) (v i j)) xs) \<subseteq> set (dkeys xs)
      \<and> (distinct (dkeys xs) \<longrightarrow> distinct (map fst (List.map_filter (\<lambda>(i, j). map_option (Pair i) (v i j)) xs)))"
    for v :: "string \<Rightarrow> job \<Rightarrow> job_status option" and xs
  proof (induction xs)
    case (Cons x xs)
    then show ?case by (cases x; cases "v (fst x) (snd x)") (force simp: List.map_filter_simps)+
  qed (simp add: List.map_filter_simps)
  then show ?thesis using assms by (simp add: reaper_candidates_def)
qed

lemma reap_jobs_candidate:
  assumes inv: "head_inv h" and c: "(k, s) \<in> set cs" "distinct (map fst cs)"
    and j: "job_lookup h k = Some j" "j_status j = Some JOB_RUNNING" "j_parent_job_id j = None"
  shows "job_status_of (foldl (reap_job m now) h cs) k
    = Some (if s = JOB_COMPLETED then JOB_COMPLETED else JOB_FAILED)"
proof -
  from c(1) obtain xs ys where cs: "cs = xs @ (k, s) # ys" by (meson split_list)
  with c(2) have nin: "k \<notin> fst ` set xs" "k \<notin> fst ` set ys" by (auto simp: image_iff)
  let ?h = "foldl (reap_job m now) h xs"
  have inv1: "head_inv ?h" by (rule reap_jobs_inv [OF inv])
  have "job_lookup ?h k = Some j" using reap_jobs_other [OF inv nin(1) j(1)] j(3) by simp
  from reap_job_self [OF inv1 this j(2)] obtain j' where j':
    "job_lookup (reap_job m now ?h (k, s)) k = Some j'"
    "j_status j' = Some (if s = JOB_COMPLETED then JOB_COMPLETED else JOB_FAILED)" "job_terminal j'"
    by blast
  then show ?thesis
    using reap_jobs_other [OF reap_job_inv [OF inv1] nin(2) j'(1)] by (simp add: cs job_status_of_def)
qed



section \<open>The node reaper\<close>

text \<open>The VM of a node was already gone, or the reaper deleted it.\<close>

definition vm_gone :: "(string list \<Rightarrow> string \<Rightarrow> string list option) \<Rightarrow> (string \<Rightarrow> bool) \<Rightarrow> string \<Rightarrow> bool" where
  "vm_gone ex del name \<longleftrightarrow> (\<exists>names region existing. ex names region = Some existing \<and>
     (name \<notin> set existing \<or> del name))"

lemma reap_node_lookup:
  "map_of (NODES (reap_node existing del now h n)) x =
     (if x = n_instance_name n \<and> (x \<notin> set existing \<or> del x)
      then Some (snd (update_node h x [NStatus (Some DELETED), NEndedAt (Some now),
             NTerminalReason (Some (reap_reason (n_status n = Some BOOTING) (x \<in> set existing)))]))
      else map_of (NODES h) x)"
  by (auto simp: reap_node_def Let_def update_node_frame)

lemma reap_node_status:
  "node_status_of (reap_node existing del now h n) x =
     (if x = n_instance_name n \<and> (x \<notin> set existing \<or> del x)
      then next_status (node_status_of h x) (Some DELETED) else node_status_of h x)"
proof -
  have b: "n_status (node_before h x) = node_status_of h x"
    by (simp add: node_before_def node_status_of_def empty_node_def split: option.splits)
  have s: "n_status (snd (update_node h x [NStatus (Some DELETED), NEndedAt e, NTerminalReason t]))
      = next_status (node_status_of h x) (Some DELETED)" for e t
    using update_node_status [of "[NStatus (Some DELETED), NEndedAt e, NTerminalReason t]" h x] b
    by (simp add: updates_status_def)
  show ?thesis
  proof (cases "x = n_instance_name n \<and> (x \<notin> set existing \<or> del x)")
    case True
    show ?thesis
      unfolding node_status_of_def [of "reap_node existing del now h n"] reap_node_lookup if_P [OF True]
        option.case s ..
  next
    case False
    show ?thesis
      unfolding node_status_of_def [of "reap_node existing del now h n"] reap_node_lookup if_not_P [OF False]
      by (rule node_status_of_def [symmetric])
  qed
qed

text \<open>What reaping a set of live nodes may have done so far.\<close>

definition reaped_only :: "(string \<Rightarrow> bool) \<Rightarrow> string set \<Rightarrow> head \<Rightarrow> head \<Rightarrow> bool" where
  "reaped_only gone C h h' \<longleftrightarrow> (\<forall>x. map_of (NODES h') x = map_of (NODES h) x
     \<or> x \<in> C \<and> gone x \<and> node_status_of h' x = Some DELETED)"

lemma reaped_only_refl [simp]: "reaped_only gone C h h"
  by (simp add: reaped_only_def)

lemma reaped_only_node:
  assumes r: "reaped_only gone C h0 h" and n: "n_instance_name n \<in> C"
    and live: "\<And>x. x \<in> C \<Longrightarrow> node_status_of h0 x \<in> {Some BOOTING, Some READY, Some RUNNING}"
    and g: "\<And>x. x \<notin> set existing \<or> del x \<Longrightarrow> gone x"
  shows "reaped_only gone C h0 (reap_node existing del now h n)"
  unfolding reaped_only_def
proof
  fix x
  let ?t = "x = n_instance_name n \<and> (x \<notin> set existing \<or> del x)"
  have old: "map_of (NODES h) x = map_of (NODES h0) x \<or> x \<in> C \<and> gone x \<and> node_status_of h x = Some DELETED"
    using r by (simp add: reaped_only_def)
  show "map_of (NODES (reap_node existing del now h n)) x = map_of (NODES h0) x
     \<or> x \<in> C \<and> gone x \<and> node_status_of (reap_node existing del now h n) x = Some DELETED"
  proof (cases ?t)
    case True
    then have "x \<in> C" using n by simp
    then have "node_status_of h x \<in> {Some BOOTING, Some READY, Some RUNNING, Some DELETED}"
      using live [of x] old by (auto simp: node_status_of_def)
    then have "next_status (node_status_of h x) (Some DELETED) = Some DELETED"
      by (auto simp: next_status_def status_refused_def)
    then have "node_status_of (reap_node existing del now h n) x = Some DELETED"
      unfolding reap_node_status if_P [OF True] .
    then show ?thesis using True \<open>x \<in> C\<close> g by blast
  next
    case False
    have eqs: "map_of (NODES (reap_node existing del now h n)) x = map_of (NODES h) x"
      "node_status_of (reap_node existing del now h n) x = node_status_of h x"
      unfolding reap_node_lookup reap_node_status if_not_P [OF False] by (rule refl)+
    show ?thesis using old by (simp only: eqs)
  qed
qed

lemma reaped_only_nodes:
  assumes "reaped_only gone C h0 h" "n_instance_name ` set ns \<subseteq> C"
    and "\<And>x. x \<in> C \<Longrightarrow> node_status_of h0 x \<in> {Some BOOTING, Some READY, Some RUNNING}"
    and "\<And>x. x \<notin> set existing \<or> del x \<Longrightarrow> gone x"
  shows "reaped_only gone C h0 (foldl (reap_node existing del now) h ns)"
  using assms(1,2)
proof (induction ns arbitrary: h)
  case (Cons n ns)
  have "reaped_only gone C h0 (reap_node existing del now h n)"
    by (rule reaped_only_node [OF Cons.prems(1) _ assms(3,4)]) (use Cons.prems(2) in auto)
  with Cons show ?case by simp
qed simp

lemma reaped_only_regions:
  assumes "reaped_only (vm_gone ex del) C h0 h"
    and "\<And>r ns. (r, ns) \<in> set gs \<Longrightarrow> n_instance_name ` set ns \<subseteq> C"
    and "\<And>x. x \<in> C \<Longrightarrow> node_status_of h0 x \<in> {Some BOOTING, Some READY, Some RUNNING}"
  shows "reaped_only (vm_gone ex del) C h0 (foldl (reap_region ex del now) h gs)"
  using assms(1,2)
proof (induction gs arbitrary: h)
  case (Cons g gs)
  have "reaped_only (vm_gone ex del) C h0 (reap_region ex del now h g)"
  proof (cases "ex (map n_instance_name (snd g)) (fst g)")
    case (Some existing)
    have "reaped_only (vm_gone ex del) C h0 (foldl (reap_node existing del now) h (snd g))"
      by (rule reaped_only_nodes [OF Cons.prems(1) _ assms(3)])
        (use Cons.prems(2) [of "fst g" "snd g"] Some in \<open>auto simp: vm_gone_def\<close>)
    then show ?thesis using Some by (simp add: reap_region_def)
  qed (use Cons.prems(1) in \<open>simp add: reap_region_def\<close>)
  then have "reaped_only (vm_gone ex del) C h0 (foldl (reap_region ex del now) (reap_region ex del now h g) gs)"
    by (rule Cons.IH) (meson Cons.prems(2) list.set_intros(2))
  then show ?case by simp
qed simp

lemma group_nodes:
  "fold_err group_step d ns = Inr d' \<Longrightarrow>
     (\<Union>g \<in> set d'. set (snd g)) \<subseteq> (\<Union>g \<in> set d. set (snd g)) \<union> set ns"
proof (induction ns arbitrary: d)
  case (Cons n ns)
  obtain r where r: "n_gcp_region n = Some r"
    using Cons.prems by (cases "n_gcp_region n") (auto simp: group_step_def)
  then have f: "fold_err group_step (dset r (get_or [] (map_of d r) @ [n]) d) ns = Inr d'"
    using Cons.prems by (simp add: group_step_def [of d n])
  have "(\<Union>g \<in> set (dset r (get_or [] (map_of d r) @ [n]) d). set (snd g)) \<subseteq> (\<Union>g \<in> set d. set (snd g)) \<union> {n}"
    by (auto dest!: in_dset map_of_SomeD simp: get_or_def split: option.splits)
  with Cons.IH [OF f] show ?case by auto
qed simp

lemma node_dead_live:
  "node_dead now n = Inr True \<Longrightarrow> n_status n \<in> {Some BOOTING, Some READY, Some RUNNING}"
  by (auto simp: node_dead_def split: option.splits node_status.splits)

text \<open>
  The node reaper ends only nodes that are dead: after a tick, every node is exactly as it was
  unless it had been silent past its budget (booting past its age budget) and its VM was already
  gone or has been deleted by the tick; then it is DELETED.
\<close>

theorem node_reaper_safe:
  assumes "head_life h" "node_reaper_tick ex del started now h = Inr h'" "map_of (NODES h) name = Some n"
  shows "map_of (NODES h') name = Some n \<or>
    node_status_of h' name = Some DELETED \<and> vm_gone ex del name \<and>
    (n_status n = Some BOOTING \<and> (\<exists>t. n_started_booting_at n = Some t \<and> now - t > 900) \<or>
     n_status n \<in> {Some READY, Some RUNNING} \<and> now - get_or 0 (n_last_push_at n) > 150)"
proof -
  have ok: "nodes_ok (NODES h) (hist_nodes h)" using head_life_inv [OF assms(1)] by (simp add: head_inv_def)
  show ?thesis
  proof (cases "now - started < REAPER_NODE_SILENCE_SEC")
    case True
    then show ?thesis using assms(2,3) by (simp add: node_reaper_tick_def)
  next
    case False
    then obtain cs gs where cs: "filter_err (node_dead now) (map snd (NODES h)) = Inr cs"
      and gs: "fold_err group_step [] cs = Inr gs"
      and h': "h' = foldl (reap_region ex del now) h gs"
      using assms(2) by (auto simp: node_reaper_tick_def bind_err_eq_Inr)
    let ?C = "n_instance_name ` set cs"
    have dead: "\<exists>m. map_of (NODES h) x = Some m \<and> node_dead now m = Inr True" if "x \<in> ?C" for x
    proof -
      from that obtain m where m: "m \<in> set cs" "x = n_instance_name m" by auto
      then obtain y where "(y, m) \<in> set (NODES h)" using filter_err_subset [OF cs] by auto
      then have y: "map_of (NODES h) y = Some m" using nodes_ok_distinct(1) [OF ok] by simp
      then have "x = y" using nodes_ok_names [OF ok y] m by simp
      then show ?thesis using y filter_err_sat [OF cs m(1)] by simp
    qed
    have "reaped_only (vm_gone ex del) ?C h h'"
      unfolding h'
    proof (rule reaped_only_regions [OF reaped_only_refl])
      show "n_instance_name ` set ns \<subseteq> ?C" if "(r, ns) \<in> set gs" for r ns
        using group_nodes [OF gs] that by fastforce
      show "node_status_of h x \<in> {Some BOOTING, Some READY, Some RUNNING}" if "x \<in> ?C" for x
        using dead [OF that] by (auto simp: node_status_of_def dest: node_dead_live)
    qed
    then have "map_of (NODES h') name = map_of (NODES h) name
        \<or> name \<in> ?C \<and> vm_gone ex del name \<and> node_status_of h' name = Some DELETED"
      by (simp add: reaped_only_def)
    moreover have "node_dead now n = Inr True" if "name \<in> ?C" using dead [OF that] assms(3) by simp
    ultimately show ?thesis
      using assms(3)
      by (auto simp: node_dead_def REAPER_NODE_SILENCE_SEC_def REAPER_BOOTING_NODE_AGE_SEC_def
          simp del: map_of_eq_Some_iff split: option.splits node_status.splits)
  qed
qed

theorem node_reaper_safe_witness:
  "\<exists>h'. node_reaper_tick (\<lambda>names r. Some names) (\<lambda>n. False) 0 400 demo_ready = Inr h' \<and>
    node_status_of h' ''n1'' = Some READY"
proof -
  let ?t = "node_reaper_tick (\<lambda>names r. Some names) (\<lambda>n. False) 0 400 demo_ready"
  obtain h' where h': "?t = Inr h'"
  proof -
    have "(case ?t of Inl e \<Rightarrow> False | Inr h \<Rightarrow> True)" by code_simp
    then show thesis using that by (cases ?t) auto
  qed
  obtain n where n: "map_of (NODES demo_ready) ''n1'' = Some n" "n_status n = Some READY"
  proof -
    have "map_option n_status (map_of (NODES demo_ready) ''n1'') = Some (Some READY)" by code_simp
    then show thesis using that by auto
  qed
  have "(case ?t of Inl e \<Rightarrow> False | Inr h \<Rightarrow> node_status_of h ''n1'' \<noteq> Some DELETED)" by code_simp
  then have "node_status_of h' ''n1'' \<noteq> Some DELETED" by (simp add: h')
  with node_reaper_safe [OF demo_ready_life h' n(1)] n(2) h' show ?thesis
    by (auto simp: node_status_of_def simp del: map_of_eq_Some_iff)
qed

section \<open>Stored result counts\<close>

definition results_le :: "head \<Rightarrow> head \<Rightarrow> bool" where
  "results_le h h' \<longleftrightarrow> (\<forall>k a. map_of (hist_results h) k = Some a \<longrightarrow>
     (\<exists>b \<ge> a. map_of (hist_results h') k = Some b))"

lemma results_le_same: "hist_results h' = hist_results h \<Longrightarrow> results_le h h'"
  by (auto simp: results_le_def)

lemma results_le_trans: "results_le h h' \<Longrightarrow> results_le h' h'' \<Longrightarrow> results_le h h''"
  unfolding results_le_def by (meson order.trans)

lemma results_le_upsert: "results_le h (history_upsert_job k j h)"
  by (auto simp: results_le_def history_upsert_job_def Let_def)

lemma upsert_covers: "\<exists>b \<ge> sum_results (j_assigned_nodes j). map_of (hist_results (history_upsert_job k j h)) k = Some b"
  by (auto simp: history_upsert_job_def Let_def split: option.splits)

lemma results_le_via:
  "hist_results h1 = hist_results h \<Longrightarrow> hist_results h' = hist_results (history_upsert_job k j h1) \<Longrightarrow> results_le h h'"
  using results_le_upsert [of h1 k j] by (simp add: results_le_def)

lemma upsert_results_frame [simp]:
  "hist_results (history_upsert_job k j (h\<lparr>JOBS := js\<rparr>)) = hist_results (history_upsert_job k j h)"
  "hist_results (history_upsert_job k j (h\<lparr>NODES := ns\<rparr>)) = hist_results (history_upsert_job k j h)"
  "hist_results (history_upsert_job k j (h\<lparr>counts_flushed_at := fs\<rparr>)) = hist_results (history_upsert_job k j h)"
  "hist_results (h\<lparr>JOBS := js\<rparr>) = hist_results h"
  by (simp_all add: history_upsert_job_def Let_def)

lemma update_job_step_results:
  assumes "update_job_step now h k us r = Some (h', j', kids)"
  shows "results_le h h'" "\<exists>b \<ge> sum_results (j_assigned_nodes j'). map_of (hist_results h') k = Some b"
proof -
  obtain h1 j where g: "get_or_load_job h k = (h1, Some j)"
    using assms by (cases "get_or_load_job h k"; cases "snd (get_or_load_job h k)") (auto simp: update_job_step_def)
  have h1: "hist_results h1 = hist_results h" using get_or_load_job_lookup(6) [of h k] g by simp
  have h': "hist_results h' = hist_results (history_upsert_job k j' h1)"
    using assms unfolding update_job_step_def g Let_def
    by (auto split: if_splits)
  show "results_le h h'" by (rule results_le_via [OF h1 h'])
  show "\<exists>b \<ge> sum_results (j_assigned_nodes j'). map_of (hist_results h') k = Some b"
    using upsert_covers [of j' k h1] h' by simp
qed

lemma head_step_results: "head_step h h' \<Longrightarrow> results_le h h'"
proof (induction rule: head_step.induct)
  case (job_admitted j h now k sel)
  show ?case
  proof (cases "admissible now h k sel")
    case True
    then have g: "get_or_load_job h k = (h, None)" by (simp add: admissible_def get_or_load_None)
    show ?thesis
      using True by (intro results_le_via [of h _ _ k "strip j"])
        (auto simp: admit_job_def g Let_def admissible_def list_ex_iff publish_def)
  qed (simp add: admit_job_refused results_le_same get_or_load_job_lookup)
next
  case (progressed h now k name p)
  obtain h1 where g: "get_or_load_job h k = (h1, job_lookup h k)"
    by (metis get_or_load_job_lookup(1) prod.collapse)
  have h1: "hist_results h1 = hist_results h" using get_or_load_job_lookup(6) [of h k] g by simp
  show ?case
  proof (cases "job_lookup h k")
    case None
    then show ?thesis by (simp add: update_job_progress_def g Let_def h1 results_le_same)
  next
    case (Some j)
    let ?p = "get_or new_progress (map_of (j_assigned_nodes j) name)"
    let ?j = "j\<lparr>j_assigned_nodes := dset name (report_progress now p ?p) (j_assigned_nodes j)\<rparr>"
    have "hist_results (update_job_progress now h k name p) = hist_results h1
        \<or> hist_results (update_job_progress now h k name p) = hist_results (history_upsert_job k ?j h1)"
      by (simp add: update_job_progress_def g Some Let_def)
    then show ?thesis using results_le_via [OF h1] results_le_same h1 by metis
  qed
next
  case (replaced h k name req c g)
  obtain h1 where g': "get_or_load_job h k = (h1, job_lookup h k)"
    by (metis get_or_load_job_lookup(1) prod.collapse)
  have h1: "hist_results h1 = hist_results h" using get_or_load_job_lookup(6) [of h k] g' by simp
  show ?case
  proof (cases "job_lookup h k")
    case None
    then show ?thesis by (simp add: record_replacement_request_def g' h1 results_le_same)
  next
    case (Some j)
    show ?thesis by (rule results_le_via [OF h1]) (simp add: record_replacement_request_def g' Some Let_def)
  qed
qed (auto intro: results_le_same update_job_step_results simp: update_node_frame get_or_load_job_lookup
    pause_job_admission_if_idle_def resume_job_admission_def)

text \<open>
  C29. The result count stored for a job never falls, not over any run and not across head restarts
  (which lose the per-node counts); and whenever a job is updated, the count stored covers what its
  nodes have reported.
\<close>

theorem stored_results_never_fall:
  assumes "any_step\<^sup>*\<^sup>* h h'" "map_of (hist_results h) k = Some a"
  shows "(\<exists>b \<ge> a. map_of (hist_results h') k = Some b) \<and>
    (\<forall>now us r h2 j2 kids. update_job_step now h' k us r = Some (h2, j2, kids) \<longrightarrow>
       (\<exists>b \<ge> max a (sum_results (j_assigned_nodes j2)). map_of (hist_results h2) k = Some b))"
proof -
  have step: "results_le x y" if "any_step x y" for x y
    using that by (auto simp: any_step_def intro: head_step_results results_le_same)
  have le: "results_le h h'" using assms(1)
  proof (induction rule: rtranclp_induct)
    case (step y z)
    then show ?case using \<open>\<And>x y. any_step x y \<Longrightarrow> results_le x y\<close> results_le_trans by blast
  qed (simp add: results_le_same)
  then obtain b where b: "b \<ge> a" "map_of (hist_results h') k = Some b" using assms(2) by (auto simp: results_le_def)
  moreover have "\<exists>c \<ge> max a (sum_results (j_assigned_nodes j2)). map_of (hist_results h2) k = Some c"
    if st: "update_job_step now h' k us r = Some (h2, j2, kids)" for now us r h2 j2 kids
  proof -
    from update_job_step_results(2) [OF st] obtain c where c: "c \<ge> sum_results (j_assigned_nodes j2)"
      "map_of (hist_results h2) k = Some c" by blast
    have "\<exists>d \<ge> b. map_of (hist_results h2) k = Some d"
      using update_job_step_results(1) [OF st] b(2) unfolding results_le_def by blast
    then have "c \<ge> b" using c(2) by auto
    then show ?thesis using b(1) c by auto
  qed
  ultimately show ?thesis by blast
qed

definition demo_counted :: head where
  "demo_counted = update_job_progress 20 demo_running ''j1'' ''n1''
     \<lparr>pr_current_num_results = Some 3, pr_client_contact_last_1s = None, pr_alive_workers = None,
      pr_busy_workers = None\<rparr>"

theorem stored_results_never_fall_witness:
  "\<exists>b \<ge> 3. map_of (hist_results (restart demo_counted)) ''j1'' = Some b"
proof -
  have "head_step demo_running demo_counted" unfolding demo_counted_def by (rule progressed)
  then have "head_life demo_counted" by (rule life_step [OF demo_running_life])
  then have "any_step\<^sup>*\<^sup>* demo_counted (restart demo_counted)"
    by (intro r_into_rtranclp) (simp add: any_step_def head_life_inv)
  moreover have "map_of (hist_results demo_counted) ''j1'' = Some 3" by code_simp
  ultimately show ?thesis using stored_results_never_fall by blast
qed

end
