(* ===== verification/Mint_Controller.thy ===== *)
theory Mint_Controller
  imports Job_Tracking
begin

text \<open>
  \<open>mint_controller.py\<close>: job-wide worker growth that has to pay for itself. A controller per job
  hands out slots from an epoch's allowance, judges the epoch by the goodput it bought, and freezes,
  probes or rolls back. Python's floats are reals here; \<open>time()\<close> is the argument \<open>now\<close>. The rounded
  numbers of the debug events are left out of them.
\<close>

section \<open>State\<close>

definition G_EWMA_TAU_SEC :: real where "G_EWMA_TAU_SEC = 30"
definition BLOCK_SEC :: real where "BLOCK_SEC = 15"
definition SIGMA_BLOCKS :: nat where "SIGMA_BLOCKS = 8"
definition BASELINE_NOISE_BLOCKS :: nat where "BASELINE_NOISE_BLOCKS = 4"
definition SIGMA_DG_FACTOR :: real where
  "SIGMA_DG_FACTOR = sqrt (2 * BLOCK_SEC / (2 * G_EWMA_TAU_SEC))"
definition KAPPA :: real where "KAPPA = 3 / 10"
definition FREEZE_Z :: real where "FREEZE_Z = 165 / 100"
definition ROLLBACK_Z :: real where "ROLLBACK_Z = 3"
definition EPOCH_GRANT_WINDOW_SEC :: real where "EPOCH_GRANT_WINDOW_SEC = 30"
definition EPOCH_VERDICT_AGE_SEC :: real where "EPOCH_VERDICT_AGE_SEC = 75"
definition EPOCH_EXTENSION_SEC :: real where "EPOCH_EXTENSION_SEC = 45"
definition EPOCH_MAX_EXTENSIONS :: nat where "EPOCH_MAX_EXTENSIONS = 2"
definition EPOCH_NO_GROWTH_DEADLINE_SEC :: real where "EPOCH_NO_GROWTH_DEADLINE_SEC = 150"
definition EPOCH_MIN_GROWTH_FRACTION :: real where "EPOCH_MIN_GROWTH_FRACTION = 2 / 100"
definition EPOCH_MIN_GROWTH_SLOTS :: real where "EPOCH_MIN_GROWTH_SLOTS = 4"
definition ALLOWANCE_BASE_FRACTION :: real where "ALLOWANCE_BASE_FRACTION = 1 / 10"
definition ALLOWANCE_MIN_SLOTS :: int where "ALLOWANCE_MIN_SLOTS = 4"
definition ALLOWANCE_MAX_FRACTION :: real where "ALLOWANCE_MAX_FRACTION = 1 / 2"
definition VERIFIED_MULTIPLIER :: real where "VERIFIED_MULTIPLIER = 2"
definition VERIFIED_STRONG_FRACTION :: real where "VERIFIED_STRONG_FRACTION = 8 / 10"
definition VERIFIED_STRONG_MULTIPLIER :: real where "VERIFIED_STRONG_MULTIPLIER = 4"
definition PROBE_INTERVAL_SEC :: real where "PROBE_INTERVAL_SEC = 90"
definition PROBE_INTERVAL_MAX_SEC :: real where "PROBE_INTERVAL_MAX_SEC = 600"
definition PROBE_FRACTION :: real where "PROBE_FRACTION = 2 / 100"
definition STATE_LOG_INTERVAL_SEC :: real where "STATE_LOG_INTERVAL_SEC = 30"

record mint_epoch =
  ep_opened_at :: real
  ep_W_base :: int
  ep_G_base :: real
  ep_sigma :: "real option"
  ep_extensions :: nat
  ep_next_verdict_at :: real

text \<open>
  \<open>_JobController\<close>. The first tick sets \<open>_last_total\<close> together with \<open>_last_tick_at\<close> and the two
  block starts, and nothing reads those before; their initial \<open>None\<close> is a zero here.
\<close>

record mint =
  mc_frozen :: bool
  mc_probing :: bool
  mc_probe_at :: "real option"
  mc_probe_interval :: real
  mc_allowance :: int
  mc_epoch :: "mint_epoch option"
  mc_epoch_grants :: "int dict"
  mc_pending_sheds :: "int dict"
  mc_G :: real
  mc_W :: int
  mc_busy :: int
  mc_last_total :: "int option"
  mc_last_tick_at :: real
  mc_blocks :: "real list"
  mc_block_started_at :: real
  mc_block_start_total :: int
  mc_block_fully_busy :: bool
  mc_last_state_logged_at :: real

datatype mint_event =
    MintState int
  | MintProbeOpened int
  | MintNoEvidence int int
  | MintVerified bool int
  | MintExtended
  | MintRolledBack int
  | MintInconclusive
  | MintFrozen

definition base_allowance :: "int \<Rightarrow> int" where
  "base_allowance worker_count =
     max ALLOWANCE_MIN_SLOTS (py_round (ALLOWANCE_BASE_FRACTION * of_int worker_count))"

definition new_controller :: "int \<Rightarrow> mint" where
  "new_controller worker_count =
     \<lparr>mc_frozen = False, mc_probing = False, mc_probe_at = None,
      mc_probe_interval = PROBE_INTERVAL_SEC, mc_allowance = base_allowance worker_count,
      mc_epoch = None, mc_epoch_grants = [], mc_pending_sheds = [], mc_G = 0, mc_W = worker_count,
      mc_busy = 0, mc_last_total = None, mc_last_tick_at = 0, mc_blocks = [],
      mc_block_started_at = 0, mc_block_start_total = 0, mc_block_fully_busy = False,
      mc_last_state_logged_at = 0\<rparr>"

definition mean :: "real list \<Rightarrow> real" where
  "mean xs = sum_list xs / real (length xs)"

definition sigma_dg :: "real list \<Rightarrow> real option" where
  "sigma_dg blocks =
     (if length blocks < 4 then None
      else Some (sqrt ((\<Sum>b\<leftarrow>blocks. (b - mean blocks)\<^sup>2) / real (length blocks - 1)) * SIGMA_DG_FACTOR))"

text \<open>\<open>list(xs)[-n:]\<close>, and appending to a \<open>deque(maxlen=n)\<close>.\<close>

definition last_n :: "nat \<Rightarrow> 'a list \<Rightarrow> 'a list" where
  "last_n n xs = drop (length xs - n) xs"

section \<open>Grants\<close>

definition open_epoch :: "real \<Rightarrow> mint \<Rightarrow> mint" where
  "open_epoch now m =
     m\<lparr>mc_allowance :=
         (if mc_probing m then mc_allowance m else max (mc_allowance m) (base_allowance (mc_W m))),
       mc_epoch := Some
         \<lparr>ep_opened_at = now, ep_W_base = mc_W m, ep_G_base = mc_G m,
          ep_sigma = sigma_dg (last_n BASELINE_NOISE_BLOCKS (mc_blocks m)),
          ep_extensions = 0, ep_next_verdict_at = now + EPOCH_VERDICT_AGE_SEC\<rparr>,
       mc_epoch_grants := []\<rparr>"

definition mint_grant :: "real \<Rightarrow> mint \<Rightarrow> string \<Rightarrow> int \<Rightarrow> mint \<times> int" where
  "mint_grant now m name slots_requested =
     (if mc_frozen m \<or> mc_allowance m \<le> 0 then (m, 0)
      else if length (mc_blocks m) < SIGMA_BLOCKS then (m, 0)
      else if (case mc_epoch m of None \<Rightarrow> False
               | Some e \<Rightarrow> now - ep_opened_at e > EPOCH_GRANT_WINDOW_SEC) then (m, 0)
      else if mc_epoch m \<noteq> None \<and> map_of (mc_epoch_grants m) name \<noteq> None then (m, 0)
      else
        (let m1 = (if mc_epoch m = None then open_epoch now m else m);
             granted = min slots_requested (mc_allowance m1)
         in (m1\<lparr>mc_allowance := mc_allowance m1 - granted,
                mc_epoch_grants := dset name
                  (get_or 0 (map_of (mc_epoch_grants m1) name) + granted) (mc_epoch_grants m1)\<rparr>,
             granted)))"

definition mint_take_shed :: "mint \<Rightarrow> string \<Rightarrow> mint \<times> int" where
  "mint_take_shed m name =
     (m\<lparr>mc_pending_sheds := ddel name (mc_pending_sheds m)\<rparr>,
      get_or 0 (map_of (mc_pending_sheds m) name))"

section \<open>Judging an epoch\<close>

definition shed_step :: "int dict \<Rightarrow> string \<times> int \<Rightarrow> int dict" where
  "shed_step d g = dset (fst g) (get_or 0 (map_of d (fst g)) + snd g) d"

definition shed_grants :: "mint \<Rightarrow> mint" where
  "shed_grants m = m\<lparr>mc_pending_sheds := foldl shed_step (mc_pending_sheds m) (mc_epoch_grants m)\<rparr>"

definition grants_total :: "mint \<Rightarrow> int" where
  "grants_total m = (\<Sum>g\<leftarrow>mc_epoch_grants m. snd g)"

definition double_probe_interval :: "mint \<Rightarrow> mint" where
  "double_probe_interval m =
     (if mc_probing m
      then m\<lparr>mc_probe_interval := min (mc_probe_interval m * 2) PROBE_INTERVAL_MAX_SEC\<rparr> else m)"

definition freeze :: "real \<Rightarrow> mint \<Rightarrow> mint" where
  "freeze now m =
     m\<lparr>mc_frozen := True, mc_probing := False, mc_allowance := 0,
       mc_probe_at := Some (now + mc_probe_interval m), mc_epoch := None, mc_epoch_grants := []\<rparr>"

definition verify :: "bool \<Rightarrow> mint \<Rightarrow> mint" where
  "verify strong m =
     m\<lparr>mc_allowance :=
         min (max (base_allowance (mc_W m))
                (py_round (of_int (grants_total m)
                   * (if strong then VERIFIED_STRONG_MULTIPLIER else VERIFIED_MULTIPLIER))))
             (py_round (ALLOWANCE_MAX_FRACTION * of_int (mc_W m))),
       mc_epoch := None, mc_epoch_grants := [], mc_probing := False,
       mc_probe_interval := PROBE_INTERVAL_SEC\<rparr>"

text \<open>
  \<open>_judge_epoch\<close>. Comparing with a missing sigma raises \<open>TypeError\<close>. \<open>time()\<close> is read a second time
  when a frozen epoch schedules its probe; it is the same \<open>now\<close> here.
\<close>

definition judge_epoch :: "real \<Rightarrow> mint \<Rightarrow> mint_epoch \<Rightarrow> (mint \<times> mint_event option) result" where
  "judge_epoch now m e =
     (let dW = mc_W m - ep_W_base e
      in if now < ep_next_verdict_at e then Inr (m, None)
      else if of_int dW < max EPOCH_MIN_GROWTH_SLOTS (EPOCH_MIN_GROWTH_FRACTION * of_int (ep_W_base e))
      then
        if now - ep_opened_at e < EPOCH_NO_GROWTH_DEADLINE_SEC then Inr (m, None)
        else Inr (freeze now (double_probe_interval (shed_grants m)),
                  Some (MintNoEvidence dW (grants_total m)))
      else
        (let dG = mc_G m - ep_G_base e;
             average_per_worker = (if mc_W m = 0 then 0 else mc_G m / of_int (mc_W m));
             bar = KAPPA * average_per_worker * of_int dW
         in case ep_sigma e of
              None \<Rightarrow> Inl (TypeError ''unsupported operand type(s) for *'')
            | Some sigma \<Rightarrow>
                if dG \<ge> bar \<and> dG > FREEZE_Z * sigma
                then
                  (let strong = (dG \<ge> VERIFIED_STRONG_FRACTION * average_per_worker * of_int dW);
                       m1 = verify strong m
                   in Inr (m1, Some (MintVerified strong (mc_allowance m1))))
                else
                  (let ambiguous = (dG \<ge> bar - FREEZE_Z * sigma);
                       rollback = (dG < - ROLLBACK_Z * sigma)
                   in if ambiguous \<and> ep_extensions e < EPOCH_MAX_EXTENSIONS
                      then Inr (m\<lparr>mc_epoch := Some (e\<lparr>ep_extensions := ep_extensions e + 1,
                             ep_next_verdict_at := now + EPOCH_EXTENSION_SEC\<rparr>)\<rparr>, Some MintExtended)
                      else Inr (freeze now (double_probe_interval
                               (if rollback \<or> mc_probing m then shed_grants m else m)),
                             Some (if rollback then MintRolledBack (grants_total m)
                                   else if ambiguous then MintInconclusive else MintFrozen)))))"

definition open_probe :: "mint \<Rightarrow> mint" where
  "open_probe m =
     m\<lparr>mc_frozen := False, mc_probing := True, mc_probe_at := None,
       mc_allowance := max ALLOWANCE_MIN_SLOTS (py_round (PROBE_FRACTION * of_int (mc_W m)))\<rparr>"

definition mint_advance :: "real \<Rightarrow> mint \<Rightarrow> (mint \<times> mint_event option) result" where
  "mint_advance now m =
     (if mc_frozen m \<and> (case mc_probe_at m of None \<Rightarrow> False | Some t \<Rightarrow> now \<ge> t)
      then (let m1 = open_probe m in Inr (m1, Some (MintProbeOpened (mc_allowance m1))))
      else case mc_epoch m of None \<Rightarrow> Inr (m, None) | Some e \<Rightarrow> judge_epoch now m e)"

section \<open>Ticks\<close>

definition update_goodput :: "real \<Rightarrow> int \<Rightarrow> mint \<Rightarrow> mint" where
  "update_goodput now total_results m =
     (let dt = now - mc_last_tick_at m;
          rate = of_int (total_results - get_or 0 (mc_last_total m)) / dt;
          weight = 1 - exp (- dt / G_EWMA_TAU_SEC)
      in m\<lparr>mc_G := (if dt > 0 then mc_G m + (rate - mc_G m) * weight else mc_G m),
           mc_last_total := Some total_results, mc_last_tick_at := now\<rparr>)"

definition update_blocks :: "real \<Rightarrow> int \<Rightarrow> int \<Rightarrow> int \<Rightarrow> mint \<Rightarrow> mint" where
  "update_blocks now total_results worker_count busy_count m =
     (let busy = (mc_block_fully_busy m \<and> worker_count > 0
                  \<and> of_int busy_count \<ge> 9 / 10 * (of_int worker_count :: real));
          block_rate = of_int (total_results - mc_block_start_total m) / (now - mc_block_started_at m)
      in if now - mc_block_started_at m \<ge> BLOCK_SEC
         then m\<lparr>mc_blocks := (if busy then last_n SIGMA_BLOCKS (mc_blocks m @ [block_rate]) else mc_blocks m),
                mc_block_started_at := now, mc_block_start_total := total_results,
                mc_block_fully_busy := True\<rparr>
         else m\<lparr>mc_block_fully_busy := busy\<rparr>)"

definition mint_tick ::
  "real \<Rightarrow> mint \<Rightarrow> int \<Rightarrow> int \<Rightarrow> int \<Rightarrow> (mint \<times> mint_event list) result" where
  "mint_tick now m total_results worker_count busy_count =
     (let m0 = m\<lparr>mc_W := worker_count, mc_busy := busy_count\<rparr>
      in if mc_last_total m0 = None
         then Inr (m0\<lparr>mc_last_total := Some total_results, mc_last_tick_at := now,
                mc_block_started_at := now, mc_block_start_total := total_results,
                mc_block_fully_busy := False\<rparr>, [])
         else
           (let m1 = update_blocks now total_results worker_count busy_count
                       (update_goodput now total_results m0);
                log = (now - mc_last_state_logged_at m1 > STATE_LOG_INTERVAL_SEC);
                m2 = (if log then m1\<lparr>mc_last_state_logged_at := now\<rparr> else m1)
            in bind_err (mint_advance now m2) (\<lambda>(m3, ev).
                 Inr (m3, (if log then [MintState (mc_allowance m2)] else [])
                            @ (case ev of None \<Rightarrow> [] | Some x \<Rightarrow> [x])))))"

section \<open>All jobs\<close>

definition grant_slots :: "real \<Rightarrow> mint dict \<Rightarrow> string \<Rightarrow> string \<Rightarrow> int \<Rightarrow> mint dict \<times> int" where
  "grant_slots now cs job_id name slots_requested =
     (case map_of cs job_id of
        None \<Rightarrow> (cs, 0)
      | Some m \<Rightarrow> (let (m1, g) = mint_grant now m name slots_requested in (dset job_id m1 cs, g)))"

definition take_shed :: "mint dict \<Rightarrow> string \<Rightarrow> string \<Rightarrow> mint dict \<times> int" where
  "take_shed cs job_id name =
     (case map_of cs job_id of
        None \<Rightarrow> (cs, 0)
      | Some m \<Rightarrow> (let (m1, g) = mint_take_shed m name in (dset job_id m1 cs, g)))"

definition control_job :: "real \<Rightarrow> mint dict \<Rightarrow> string \<times> int \<times> int \<times> int \<Rightarrow> mint dict result" where
  "control_job now cs inp =
     (case inp of (job_id, total_results, worker_count, busy_count) \<Rightarrow>
        case map_of cs job_id of
          None \<Rightarrow> Inr (if worker_count \<le> 0 then cs else dset job_id (new_controller worker_count) cs)
        | Some m \<Rightarrow> bind_err (mint_tick now m total_results worker_count busy_count) (\<lambda>(m1, evs).
            Inr (dset job_id m1 cs)))"

text \<open>One pass of \<open>controller_loop\<close>: tick every running job, drop the controllers of the others.\<close>

definition control_jobs :: "real \<Rightarrow> mint dict \<Rightarrow> (string \<times> int \<times> int \<times> int) list \<Rightarrow> mint dict result" where
  "control_jobs now cs live =
     bind_err (fold_err (control_job now) cs live) (\<lambda>cs1.
       Inr (filter (\<lambda>(job_id, m). job_id \<in> set (map fst live)) cs1))"

end
