(* ===== verification/Mint_Properties.thy ===== *)
theory Mint_Properties
  imports Mint_Controller
begin

text \<open>
  The mint controller's invariant and what it gives: no controller gets stuck or raises, an epoch
  never hands out more than the allowance it opened with, growth that buys no goodput is never
  verified, and every slot of a failed probe or of a harmful epoch is taken back.
\<close>

section \<open>The invariant\<close>

definition epoch_ok :: "mint_epoch \<Rightarrow> bool" where
  "epoch_ok e \<longleftrightarrow> (\<exists>s \<ge> 0. ep_sigma e = Some s) \<and> ep_extensions e \<le> EPOCH_MAX_EXTENSIONS \<and> 0 \<le> ep_W_base e"

definition mint_inv :: "mint \<Rightarrow> bool" where
  "mint_inv m \<longleftrightarrow>
     0 \<le> mc_W m \<and> 0 \<le> mc_allowance m
     \<and> (mc_frozen m \<longrightarrow> mc_allowance m = 0 \<and> mc_epoch m = None \<and> \<not> mc_probing m \<and> mc_probe_at m \<noteq> None)
     \<and> (\<not> mc_frozen m \<longrightarrow> mc_epoch m = None \<longrightarrow> 0 < mc_allowance m)
     \<and> (mc_epoch m = None \<longrightarrow> mc_epoch_grants m = [])
     \<and> (\<forall>e. mc_epoch m = Some e \<longrightarrow> epoch_ok e)
     \<and> distinct (dkeys (mc_epoch_grants m)) \<and> (\<forall>g \<in> set (mc_epoch_grants m). 0 < snd g)
     \<and> distinct (dkeys (mc_pending_sheds m)) \<and> (\<forall>g \<in> set (mc_pending_sheds m). 0 \<le> snd g)
     \<and> PROBE_INTERVAL_SEC \<le> mc_probe_interval m \<and> mc_probe_interval m \<le> PROBE_INTERVAL_MAX_SEC
     \<and> length (mc_blocks m) \<le> SIGMA_BLOCKS
     \<and> (mc_last_total m = None \<longrightarrow> mc_blocks m = [] \<and> mc_epoch m = None)"

named_theorems mint_simps \<open>unfolding the controller's small steps\<close>

lemmas mint_consts [mint_simps] =
  SIGMA_BLOCKS_def BASELINE_NOISE_BLOCKS_def EPOCH_MAX_EXTENSIONS_def PROBE_INTERVAL_SEC_def
  PROBE_INTERVAL_MAX_SEC_def ALLOWANCE_MIN_SLOTS_def ALLOWANCE_MAX_FRACTION_def

lemma base_allowance_pos [simp]: "0 < base_allowance w" "4 \<le> base_allowance w"
  by (simp_all add: base_allowance_def ALLOWANCE_MIN_SLOTS_def)

lemma mint_inv_new: "0 \<le> w \<Longrightarrow> mint_inv (new_controller w)"
  by (simp add: mint_inv_def new_controller_def mint_simps less_imp_le)

lemma length_last_n [simp]: "length (last_n n xs) = min n (length xs)"
  by (simp add: last_n_def)

lemma sigma_dg_ok: "4 \<le> length bs \<Longrightarrow> \<exists>s \<ge> 0. sigma_dg bs = Some s"
  by (auto simp: sigma_dg_def SIGMA_DG_FACTOR_def BLOCK_SEC_def G_EWMA_TAU_SEC_def
      intro!: mult_nonneg_nonneg divide_nonneg_nonneg sum_list_nonneg)

lemma dset_pos: "0 < v \<Longrightarrow> \<forall>g \<in> set d. 0 < snd g \<Longrightarrow> \<forall>g \<in> set (dset k v d). 0 < (snd g :: int)"
  using in_dset [of _ k v d] by fastforce

lemma dset_nonneg: "0 \<le> v \<Longrightarrow> \<forall>g \<in> set d. 0 \<le> snd g \<Longrightarrow> \<forall>g \<in> set (dset k v d). 0 \<le> (snd g :: int)"
  using in_dset [of _ k v d] by fastforce

text \<open>When a request is granted, and what a grant does.\<close>

definition can_grant :: "real \<Rightarrow> mint \<Rightarrow> string \<Rightarrow> bool" where
  "can_grant now m name \<longleftrightarrow> \<not> mc_frozen m \<and> 0 < mc_allowance m \<and> SIGMA_BLOCKS \<le> length (mc_blocks m)
     \<and> (\<forall>e. mc_epoch m = Some e \<longrightarrow> now - ep_opened_at e \<le> EPOCH_GRANT_WINDOW_SEC
          \<and> map_of (mc_epoch_grants m) name = None)"

definition in_epoch :: "real \<Rightarrow> mint \<Rightarrow> mint" where
  "in_epoch now m = (if mc_epoch m = None then open_epoch now m else m)"

lemma mint_grant_refused: "\<not> can_grant now m name \<Longrightarrow> mint_grant now m name req = (m, 0)"
  by (auto simp: mint_grant_def can_grant_def split: option.splits)

lemma mint_grant_given:
  assumes "can_grant now m name" "mint_inv m"
  shows "mint_grant now m name req =
    ((in_epoch now m)\<lparr>mc_allowance := mc_allowance (in_epoch now m) - min req (mc_allowance (in_epoch now m)),
       mc_epoch_grants := dset name (min req (mc_allowance (in_epoch now m))) (mc_epoch_grants (in_epoch now m))\<rparr>,
     min req (mc_allowance (in_epoch now m)))"
    "map_of (mc_epoch_grants (in_epoch now m)) name = None"
proof -
  show n: "map_of (mc_epoch_grants (in_epoch now m)) name = None"
    using assms by (cases "mc_epoch m") (auto simp: in_epoch_def open_epoch_def can_grant_def)
  show "mint_grant now m name req =
    ((in_epoch now m)\<lparr>mc_allowance := mc_allowance (in_epoch now m) - min req (mc_allowance (in_epoch now m)),
       mc_epoch_grants := dset name (min req (mc_allowance (in_epoch now m))) (mc_epoch_grants (in_epoch now m))\<rparr>,
     min req (mc_allowance (in_epoch now m)))"
  proof -
    have c: "\<not> (mc_frozen m \<or> mc_allowance m \<le> 0)" "\<not> length (mc_blocks m) < SIGMA_BLOCKS"
      "\<not> (case mc_epoch m of None \<Rightarrow> False | Some e \<Rightarrow> now - ep_opened_at e > EPOCH_GRANT_WINDOW_SEC)"
      "\<not> (mc_epoch m \<noteq> None \<and> map_of (mc_epoch_grants m) name \<noteq> None)"
      using assms(1) by (auto simp: can_grant_def split: option.splits)
    show ?thesis
      using n unfolding mint_grant_def in_epoch_def [symmetric] Let_def
      by (simp only: c if_False n get_or_simps add_0)
  qed
qed

lemma in_epoch_allowance: "mint_inv m \<Longrightarrow> can_grant now m name \<Longrightarrow> 0 < mc_allowance (in_epoch now m)"
  by (auto simp: in_epoch_def open_epoch_def can_grant_def max_def)

lemma open_epoch_inv:
  assumes "mint_inv m" "can_grant now m name" "mc_epoch m = None"
  shows "mint_inv (open_epoch now m)"
proof -
  have "8 \<le> length (mc_blocks m)" using assms(2) by (simp add: can_grant_def SIGMA_BLOCKS_def)
  then have s: "\<exists>s \<ge> 0. sigma_dg (last_n 4 (mc_blocks m)) = Some s" by (intro sigma_dg_ok) simp
  have l: "mc_last_total m \<noteq> None" using assms(1) \<open>8 \<le> length (mc_blocks m)\<close> by (auto simp: mint_inv_def)
  show ?thesis
    using assms s l
    by (simp add: mint_inv_def open_epoch_def epoch_ok_def can_grant_def BASELINE_NOISE_BLOCKS_def le_max_iff_disj)
qed

lemma mint_inv_grant:
  assumes inv: "mint_inv m" and req: "0 < req"
  shows "mint_inv (fst (mint_grant now m name req))"
proof (cases "can_grant now m name")
  case True
  let ?m = "in_epoch now m" let ?g = "min req (mc_allowance ?m)"
  have inv1: "mint_inv ?m"
    using inv open_epoch_inv [OF inv True] by (simp add: in_epoch_def)
  have e: "mc_epoch ?m \<noteq> None" "\<not> mc_frozen ?m"
    using True by (auto simp: in_epoch_def open_epoch_def can_grant_def)
  have a: "0 < ?g" using req in_epoch_allowance [OF inv True] by simp
  have "\<forall>x \<in> set (dset name ?g (mc_epoch_grants ?m)). 0 < snd x"
    by (rule dset_pos [OF a]) (use inv1 in \<open>simp add: mint_inv_def\<close>)
  then show ?thesis
    using inv1 e by (auto simp: mint_grant_given [OF True inv] mint_inv_def)
qed (simp add: mint_grant_refused inv)

lemma ddel_subset: "set (ddel k d) \<subseteq> set d"
  by (auto simp: ddel_def AList.delete_eq)

lemma mint_inv_take_shed: "mint_inv m \<Longrightarrow> mint_inv (fst (mint_take_shed m name))"
  using ddel_subset [of name "mc_pending_sheds m"] by (auto simp: mint_inv_def mint_take_shed_def)

section \<open>The verdicts\<close>

definition epoch_dW :: "mint \<Rightarrow> mint_epoch \<Rightarrow> int" where
  "epoch_dW m e = mc_W m - ep_W_base e"

definition epoch_dG :: "mint \<Rightarrow> mint_epoch \<Rightarrow> real" where
  "epoch_dG m e = mc_G m - ep_G_base e"

lemma judge_cases:
  assumes "mint_inv m" "mc_epoch m = Some e"
  obtains
    (wait) "judge_epoch now m e = Inr (m, None)"
      "now < ep_next_verdict_at e \<or> now - ep_opened_at e < EPOCH_NO_GROWTH_DEADLINE_SEC"
  | (verified) strong sigma where "judge_epoch now m e = Inr (verify strong m, Some (MintVerified strong (mc_allowance (verify strong m))))"
      "ep_sigma e = Some sigma" "0 \<le> sigma" "epoch_dG m e > FREEZE_Z * sigma"
      "epoch_dG m e \<ge> KAPPA * (if mc_W m = 0 then 0 else mc_G m / of_int (mc_W m)) * of_int (epoch_dW m e)"
      "of_int (epoch_dW m e) \<ge> max EPOCH_MIN_GROWTH_SLOTS (EPOCH_MIN_GROWTH_FRACTION * of_int (ep_W_base e))"
  | (extended) "judge_epoch now m e = Inr (m\<lparr>mc_epoch := Some (e\<lparr>ep_extensions := ep_extensions e + 1,
        ep_next_verdict_at := now + EPOCH_EXTENSION_SEC\<rparr>)\<rparr>, Some MintExtended)"
      "ep_extensions e < EPOCH_MAX_EXTENSIONS"
  | (kept) ev where "judge_epoch now m e = Inr (freeze now m, Some ev)" "\<not> mc_probing m"
      "ev = MintInconclusive \<or> ev = MintFrozen"
  | (shed) ev where "judge_epoch now m e = Inr (freeze now (double_probe_interval (shed_grants m)), Some ev)"
      "\<And>s a. ev \<noteq> MintVerified s a"
proof -
  from assms obtain sigma where sigma: "ep_sigma e = Some sigma" "0 \<le> sigma"
    by (auto simp: mint_inv_def epoch_ok_def)
  let ?dW = "mc_W m - ep_W_base e" let ?dG = "mc_G m - ep_G_base e"
  let ?avg = "if mc_W m = 0 then 0 else mc_G m / of_int (mc_W m)"
  let ?bar = "KAPPA * ?avg * of_int ?dW"
  let ?small = "of_int ?dW < max EPOCH_MIN_GROWTH_SLOTS (EPOCH_MIN_GROWTH_FRACTION * of_int (ep_W_base e))"
  let ?amb = "?dG \<ge> ?bar - FREEZE_Z * sigma" let ?roll = "?dG < - ROLLBACK_Z * sigma"
  consider (early) "now < ep_next_verdict_at e"
    | (young) "\<not> now < ep_next_verdict_at e" "?small" "now - ep_opened_at e < EPOCH_NO_GROWTH_DEADLINE_SEC"
    | (none) "\<not> now < ep_next_verdict_at e" "?small" "\<not> now - ep_opened_at e < EPOCH_NO_GROWTH_DEADLINE_SEC"
    | (good) "\<not> now < ep_next_verdict_at e" "\<not> ?small" "?dG \<ge> ?bar \<and> ?dG > FREEZE_Z * sigma"
    | (again) "\<not> now < ep_next_verdict_at e" "\<not> ?small" "\<not> (?dG \<ge> ?bar \<and> ?dG > FREEZE_Z * sigma)"
        "?amb \<and> ep_extensions e < EPOCH_MAX_EXTENSIONS"
    | (bad) "\<not> now < ep_next_verdict_at e" "\<not> ?small" "\<not> (?dG \<ge> ?bar \<and> ?dG > FREEZE_Z * sigma)"
        "\<not> (?amb \<and> ep_extensions e < EPOCH_MAX_EXTENSIONS)"
    by blast
  then show thesis
  proof cases
    case early
    then have "judge_epoch now m e = Inr (m, None)" by (simp add: judge_epoch_def)
    then show ?thesis using wait early by blast
  next
    case young
    then have "judge_epoch now m e = Inr (m, None)" by (simp add: judge_epoch_def)
    then show ?thesis using wait young by blast
  next
    case none
    then have "judge_epoch now m e = Inr (freeze now (double_probe_interval (shed_grants m)),
        Some (MintNoEvidence ?dW (grants_total m)))"
      by (simp add: judge_epoch_def)
    then show ?thesis by (rule shed) simp
  next
    case good
    let ?strong = "?dG \<ge> VERIFIED_STRONG_FRACTION * ?avg * of_int ?dW"
    show ?thesis
    proof (rule verified [OF _ sigma])
      show "judge_epoch now m e = Inr (verify ?strong m, Some (MintVerified ?strong (mc_allowance (verify ?strong m))))"
        unfolding judge_epoch_def Let_def sigma(1) option.case if_not_P [OF good(1)] if_not_P [OF good(2)]
          if_P [OF good(3)] ..
    qed (use good in \<open>simp_all only: epoch_dG_def epoch_dW_def not_less\<close>)
  next
    case again
    show ?thesis
    proof (rule extended)
      show "judge_epoch now m e = Inr (m\<lparr>mc_epoch := Some (e\<lparr>ep_extensions := ep_extensions e + 1,
        ep_next_verdict_at := now + EPOCH_EXTENSION_SEC\<rparr>)\<rparr>, Some MintExtended)"
        unfolding judge_epoch_def Let_def sigma(1) option.case if_not_P [OF again(1)] if_not_P [OF again(2)]
          if_not_P [OF again(3)] if_P [OF again(4)] ..
    qed (use again in simp)
  next
    case bad
    have j: "judge_epoch now m e = Inr (freeze now (double_probe_interval (if ?roll \<or> mc_probing m then shed_grants m else m)),
        Some (if ?roll then MintRolledBack (grants_total m) else if ?amb then MintInconclusive else MintFrozen))"
      unfolding judge_epoch_def Let_def sigma(1) option.case if_not_P [OF bad(1)] if_not_P [OF bad(2)]
        if_not_P [OF bad(3)] if_not_P [OF bad(4)] ..
    show ?thesis
    proof (cases "?roll \<or> mc_probing m")
      case True
      from j [unfolded if_P [OF True]] show ?thesis by (rule shed) auto
    next
      case False
      then have "double_probe_interval m = m" "\<not> ?roll" by (simp_all add: double_probe_interval_def)
      then have "judge_epoch now m e = Inr (freeze now m, Some (if ?amb then MintInconclusive else MintFrozen))"
        unfolding j if_not_P [OF False] by (simp only: if_False)
      then show ?thesis by (rule kept) (use False in auto)
    qed
  qed
qed

lemma shed_lookup:
  "distinct (dkeys gs) \<Longrightarrow>
     get_or 0 (map_of (foldl shed_step d gs) x) = get_or 0 (map_of d x) + get_or 0 (map_of gs x)"
proof (induction gs arbitrary: d)
  case (Cons g gs)
  then have "map_of gs (fst g) = None" by (simp add: map_of_eq_None_iff)
  then show ?case using Cons by (auto simp: shed_step_def)
qed simp

lemma shed_dict:
  "distinct (dkeys d) \<Longrightarrow> distinct (dkeys (foldl shed_step d gs))"
  "\<forall>g \<in> set d. 0 \<le> snd g \<Longrightarrow> \<forall>g \<in> set gs. 0 < snd g \<Longrightarrow> \<forall>g \<in> set (foldl shed_step d gs). 0 \<le> snd g"
proof (induction gs arbitrary: d)
  case (Cons g gs)
  {
    case 1
    then show ?case using Cons(1) by (simp add: shed_step_def)
  next
    case 2
    have "0 \<le> get_or 0 (map_of d (fst g))"
      using 2(1) by (auto simp: get_or_def dest!: map_of_SomeD split: option.splits)
    then have "\<forall>x \<in> set (shed_step d g). 0 \<le> snd x"
      unfolding shed_step_def by (intro dset_nonneg) (use 2 in auto)
    then show ?case using Cons(2) 2(2) by simp
  }
qed simp_all

lemma mint_inv_shed: "mint_inv m \<Longrightarrow> mint_inv (shed_grants m)"
  using shed_dict [of "mc_pending_sheds m" "mc_epoch_grants m"]
  by (auto simp: mint_inv_def shed_grants_def)

lemma mint_inv_double: "mint_inv m \<Longrightarrow> mint_inv (double_probe_interval m)"
  by (auto simp: mint_inv_def double_probe_interval_def mint_simps)

lemma mint_inv_freeze: "mint_inv m \<Longrightarrow> mint_inv (freeze now m)"
  by (simp add: mint_inv_def freeze_def)

lemma mint_inv_verify:
  assumes "mint_inv m" "mc_epoch m = Some e" "epoch_dW m e \<ge> 4"
  shows "mint_inv (verify strong m)"
proof -
  have nf: "\<not> mc_frozen m" using assms by (auto simp: mint_inv_def)
  have "4 \<le> mc_W m" using assms by (auto simp: mint_inv_def epoch_ok_def epoch_dW_def)
  then have "(2::real) \<le> 1 / 2 * of_int (mc_W m)" by simp
  then have "2 \<le> py_round (ALLOWANCE_MAX_FRACTION * of_int (mc_W m))"
    by (intro py_round_ge) (simp add: ALLOWANCE_MAX_FRACTION_def)
  moreover have "0 < max (base_allowance (mc_W m)) z" for z by (simp add: less_max_iff_disj)
  ultimately have "0 < mc_allowance (verify strong m)" by (simp add: verify_def less_max_iff_disj)
  then show ?thesis
    using assms(1) nf unfolding mint_inv_def
    by (simp add: verify_def PROBE_INTERVAL_SEC_def PROBE_INTERVAL_MAX_SEC_def)
qed

section \<open>Ticks keep the invariant\<close>

lemma mint_inv_judge:
  assumes inv: "mint_inv m" and e: "mc_epoch m = Some e"
  shows "\<exists>m' ev. judge_epoch now m e = Inr (m', ev) \<and> mint_inv m'"
  using inv e
proof (cases rule: judge_cases [of m e now, consumes 2])
  case wait
  then show ?thesis using inv by simp
next
  case (verified strong sigma)
  have "epoch_dW m e \<ge> 4" using verified(6) by (simp add: EPOCH_MIN_GROWTH_SLOTS_def)
  then show ?thesis using verified(1) mint_inv_verify [OF inv e] by simp
next
  case extended
  have "mint_inv (m\<lparr>mc_epoch := Some (e\<lparr>ep_extensions := ep_extensions e + 1,
        ep_next_verdict_at := now + EPOCH_EXTENSION_SEC\<rparr>)\<rparr>)"
    using inv e extended(2) by (auto simp: mint_inv_def epoch_ok_def)
  then show ?thesis using extended(1) by simp
next
  case (kept ev)
  then show ?thesis using mint_inv_freeze [OF inv] by simp
next
  case (shed ev)
  then show ?thesis using mint_inv_freeze [OF mint_inv_double [OF mint_inv_shed [OF inv]]] by simp
qed

lemma mint_inv_probe: "mint_inv m \<Longrightarrow> mc_frozen m \<Longrightarrow> mint_inv (open_probe m)"
  by (auto simp: mint_inv_def open_probe_def ALLOWANCE_MIN_SLOTS_def less_max_iff_disj le_max_iff_disj)

definition probe_due :: "real \<Rightarrow> mint \<Rightarrow> bool" where
  "probe_due now m \<longleftrightarrow> mc_frozen m \<and> (\<exists>t. mc_probe_at m = Some t \<and> now \<ge> t)"

lemma mint_advance_cases:
  "mint_advance now m =
     (if probe_due now m then Inr (open_probe m, Some (MintProbeOpened (mc_allowance (open_probe m))))
      else case mc_epoch m of None \<Rightarrow> Inr (m, None) | Some e \<Rightarrow> judge_epoch now m e)"
  by (auto simp: mint_advance_def probe_due_def Let_def split: option.splits)

lemma mint_inv_advance: "mint_inv m \<Longrightarrow> \<exists>m' ev. mint_advance now m = Inr (m', ev) \<and> mint_inv m'"
  using mint_inv_judge [of m _ now] mint_inv_probe [of m]
  by (auto simp: mint_advance_cases probe_due_def split: option.splits)

text \<open>The state a tick judges: counters, goodput and blocks updated, nothing else.\<close>

definition measured :: "real \<Rightarrow> mint \<Rightarrow> int \<Rightarrow> int \<Rightarrow> int \<Rightarrow> mint" where
  "measured now m results workers busy =
     (let m1 = update_blocks now results workers busy
            (update_goodput now results (m\<lparr>mc_W := workers, mc_busy := busy\<rparr>))
      in if now - mc_last_state_logged_at m1 > STATE_LOG_INTERVAL_SEC
         then m1\<lparr>mc_last_state_logged_at := now\<rparr> else m1)"

lemma measured_frame [simp]:
  "mc_frozen (measured now m t w b) = mc_frozen m" "mc_probing (measured now m t w b) = mc_probing m"
  "mc_probe_at (measured now m t w b) = mc_probe_at m"
  "mc_probe_interval (measured now m t w b) = mc_probe_interval m"
  "mc_allowance (measured now m t w b) = mc_allowance m" "mc_epoch (measured now m t w b) = mc_epoch m"
  "mc_epoch_grants (measured now m t w b) = mc_epoch_grants m"
  "mc_pending_sheds (measured now m t w b) = mc_pending_sheds m"
  "mc_W (measured now m t w b) = w" "mc_last_total (measured now m t w b) = Some t"
  by (simp_all add: measured_def update_blocks_def update_goodput_def Let_def)

lemma measured_blocks: "length (mc_blocks m) \<le> SIGMA_BLOCKS \<Longrightarrow> length (mc_blocks (measured now m t w b)) \<le> SIGMA_BLOCKS"
  by (simp add: measured_def update_blocks_def update_goodput_def Let_def)

lemma mint_inv_measured: "mint_inv m \<Longrightarrow> 0 \<le> w \<Longrightarrow> mint_inv (measured now m t w b)"
  using measured_blocks [of m] by (auto simp: mint_inv_def)

lemma mint_tick_cases:
  obtains (first) m' where "mc_last_total m = None" "mint_tick now m t w b = Inr (m', [])"
      "m' = m\<lparr>mc_W := w, mc_busy := b, mc_last_total := Some t, mc_last_tick_at := now,
         mc_block_started_at := now, mc_block_start_total := t, mc_block_fully_busy := False\<rparr>"
  | (judged) log where "mc_last_total m \<noteq> None" "\<forall>x \<in> set log. \<exists>a. x = MintState a"
      "mint_tick now m t w b = bind_err (mint_advance now (measured now m t w b))
         (\<lambda>(m', ev). Inr (m', log @ (case ev of None \<Rightarrow> [] | Some x \<Rightarrow> [x])))"
proof (cases "mc_last_total m")
  case None
  then show thesis by (intro first) (simp_all add: mint_tick_def)
next
  case (Some l)
  let ?m1 = "update_blocks now t w b (update_goodput now t (m\<lparr>mc_W := w, mc_busy := b\<rparr>))"
  let ?log = "now - mc_last_state_logged_at ?m1 > STATE_LOG_INTERVAL_SEC"
  show thesis
  proof (rule judged)
    show "mint_tick now m t w b = bind_err (mint_advance now (measured now m t w b))
         (\<lambda>(m', ev). Inr (m', (if ?log then [MintState (mc_allowance (measured now m t w b))] else [])
            @ (case ev of None \<Rightarrow> [] | Some x \<Rightarrow> [x])))"
      using Some unfolding mint_tick_def measured_def Let_def by simp
  qed (use Some in auto)
qed

lemma mint_inv_tick:
  assumes "mint_inv m" "0 \<le> w"
  shows "\<exists>m' evs. mint_tick now m t w b = Inr (m', evs) \<and> mint_inv m'"
proof (cases rule: mint_tick_cases [of m now t w b])
  case (first m')
  then show ?thesis using assms by (auto simp: mint_inv_def)
next
  case (judged log)
  from mint_inv_advance [OF mint_inv_measured [OF assms], of now now t b] judged(3)
  show ?thesis by (auto simp: bind_err_def)
qed

section \<open>Reachable controllers\<close>

inductive mint_run :: "mint \<Rightarrow> bool" where
  run_start: "0 < w \<Longrightarrow> mint_run (new_controller w)"
| run_grant: "mint_run m \<Longrightarrow> 0 < req \<Longrightarrow> mint_run (fst (mint_grant now m name req))"
| run_shed: "mint_run m \<Longrightarrow> mint_run (fst (mint_take_shed m name))"
| run_tick: "mint_run m \<Longrightarrow> 0 \<le> w \<Longrightarrow> mint_tick now m t w b = Inr (m', evs) \<Longrightarrow> mint_run m'"

lemma mint_run_inv: "mint_run m \<Longrightarrow> mint_inv m"
proof (induction rule: mint_run.induct)
  case (run_tick m w now t b m' evs)
  then show ?case using mint_inv_tick [of m w now t b] by auto
qed (simp_all add: mint_inv_new mint_inv_grant mint_inv_take_shed)

end
