(* ===== verification/Mint_Claims.thy ===== *)
theory Mint_Claims
  imports Mint_Properties
begin

text \<open>The properties of the mint controller.\<close>

section \<open>Never stuck\<close>

text \<open>
  C30. No mint controller gets stuck. In every reachable state a tick succeeds (the verdict's
  comparison with sigma never meets \<open>None\<close>); a controller that is not frozen and has no epoch
  grants at least one slot to any request once its baseline is full; and a frozen one has a probe
  scheduled, which the first tick at or after that time opens with an allowance of at least four.
\<close>

theorem mint_never_stuck:
  assumes "mint_run m" "0 \<le> w" "0 < req"
  shows "(\<exists>m' evs. mint_tick now m t w b = Inr (m', evs)) \<and>
    (\<not> mc_frozen m \<and> mc_epoch m = None \<and> length (mc_blocks m) = SIGMA_BLOCKS \<longrightarrow>
       0 < snd (mint_grant now m name req)) \<and>
    (mc_frozen m \<and> mc_last_total m \<noteq> None \<longrightarrow> (\<exists>due. mc_probe_at m = Some due \<and> (now \<ge> due \<longrightarrow>
       (\<exists>m' evs. mint_tick now m t w b = Inr (m', evs) \<and> \<not> mc_frozen m' \<and> mc_probing m' \<and> 4 \<le> mc_allowance m'))))"
proof (intro conjI impI)
  have inv: "mint_inv m" by (rule mint_run_inv [OF assms(1)])
  show "\<exists>m' evs. mint_tick now m t w b = Inr (m', evs)" using mint_inv_tick [OF inv assms(2)] by blast
  assume a: "\<not> mc_frozen m \<and> mc_epoch m = None \<and> length (mc_blocks m) = SIGMA_BLOCKS"
  then have c: "can_grant now m name" using inv by (auto simp: can_grant_def mint_inv_def)
  show "0 < snd (mint_grant now m name req)"
    using in_epoch_allowance [OF inv c] assms(3) by (simp add: mint_grant_given [OF c inv])
next
  have inv: "mint_inv m" by (rule mint_run_inv [OF assms(1)])
  assume f: "mc_frozen m \<and> mc_last_total m \<noteq> None"
  then obtain due where due: "mc_probe_at m = Some due" using inv by (auto simp: mint_inv_def)
  have "\<exists>m' evs. mint_tick now m t w b = Inr (m', evs) \<and> \<not> mc_frozen m' \<and> mc_probing m' \<and> 4 \<le> mc_allowance m'"
    if "now \<ge> due"
  proof (cases rule: mint_tick_cases [of m now t w b])
    case (first m')
    then show ?thesis using f by simp
  next
    case (judged log)
    have "probe_due now (measured now m t w b)" using f due that by (simp add: probe_due_def)
    then show ?thesis
      by (simp add: judged(3) mint_advance_cases open_probe_def ALLOWANCE_MIN_SLOTS_def)
  qed
  then show "\<exists>due. mc_probe_at m = Some due \<and> (now \<ge> due \<longrightarrow>
       (\<exists>m' evs. mint_tick now m t w b = Inr (m', evs) \<and> \<not> mc_frozen m' \<and> mc_probing m' \<and> 4 \<le> mc_allowance m'))"
    using due by blast
qed

theorem mint_never_stuck_witness:
  "\<exists>m' evs. mint_tick 5 (new_controller 64) 10 64 60 = Inr (m', evs)"
  using mint_never_stuck [OF run_start [of 64], of 64 1 5 10 60] by simp

section \<open>The epoch's budget\<close>

fun grant_all :: "mint \<Rightarrow> (real \<times> string \<times> int) list \<Rightarrow> mint \<times> int" where
  "grant_all m [] = (m, 0)"
| "grant_all m ((now, name, req) # rs) =
     (let (m1, g) = mint_grant now m name req; (m2, gs) = grant_all m1 rs in (m2, g + gs))"

text \<open>What the epoch that is open, or the next one, may hand out in all.\<close>

definition epoch_cap :: "mint \<Rightarrow> int" where
  "epoch_cap m =
     (if mc_epoch m = None \<and> \<not> mc_probing m then max (mc_allowance m) (base_allowance (mc_W m))
      else mc_allowance m)"

lemma epoch_cap_open: "mc_epoch m \<noteq> None \<Longrightarrow> epoch_cap m = mc_allowance m"
  by (auto simp: epoch_cap_def)

lemma sum_dset_new:
  "map_of d k = None \<Longrightarrow> (\<Sum>g\<leftarrow>dset k v d. snd g) = (\<Sum>g\<leftarrow>d. snd g) + (v :: int)"
  using sum_list_dset_new [of d k "\<lambda>v. v" v] by simp

lemma grant_budget:
  assumes inv: "mint_inv m" and "0 < req"
  shows "0 \<le> snd (mint_grant now m name req) \<and> snd (mint_grant now m name req) \<le> epoch_cap m \<and>
    grants_total (fst (mint_grant now m name req)) = grants_total m + snd (mint_grant now m name req) \<and>
    (epoch_cap (fst (mint_grant now m name req)) = epoch_cap m - snd (mint_grant now m name req)
     \<or> snd (mint_grant now m name req) = 0 \<and> fst (mint_grant now m name req) = m)"
proof (cases "can_grant now m name")
  case True
  have cap: "mc_allowance (in_epoch now m) = epoch_cap m"
    by (auto simp: in_epoch_def open_epoch_def epoch_cap_def)
  have tot: "grants_total (in_epoch now m) = grants_total m"
    using inv by (auto simp: in_epoch_def open_epoch_def grants_total_def mint_inv_def)
  have e: "mc_epoch (in_epoch now m) \<noteq> None" by (auto simp: in_epoch_def open_epoch_def)
  note g = mint_grant_given(1) [OF True inv, of req] and g2 = mint_grant_given(2) [OF True inv]
  show ?thesis
    using in_epoch_allowance [OF inv True] assms(2) cap tot e
    by (simp add: g grants_total_def sum_dset_new [OF g2] epoch_cap_open)
next
  case False
  have "0 \<le> epoch_cap m" using inv by (auto simp: epoch_cap_def mint_inv_def le_max_iff_disj)
  then show ?thesis by (simp add: mint_grant_refused [OF False])
qed

text \<open>
  An epoch never hands out more than the allowance it opens with, however many nodes ask how
  often for how much: the grants of any sequence of requests add up to at most that allowance, and
  are exactly what the epoch remembers to take back.
\<close>

theorem mint_epoch_budget:
  assumes "mint_run m" "\<forall>(now, name, req) \<in> set rs. 0 < req"
  shows "0 \<le> snd (grant_all m rs) \<and> snd (grant_all m rs) \<le> epoch_cap m \<and>
    grants_total (fst (grant_all m rs)) = grants_total m + snd (grant_all m rs)"
  using assms
proof (induction m rs rule: grant_all.induct)
  case (1 m)
  then show ?case using mint_run_inv [of m] by (auto simp: epoch_cap_def mint_inv_def le_max_iff_disj)
next
  case (2 m now name req rs)
  obtain m1 g where g: "mint_grant now m name req = (m1, g)" by fastforce
  have run: "mint_run m1" using run_grant [OF 2(2), of req now name] 2(3) g by simp
  have "0 < req" using 2(3) by simp
  from grant_budget [OF mint_run_inv [OF 2(2)] this, of now name]
  have b: "0 \<le> g" "g \<le> epoch_cap m" "grants_total m1 = grants_total m + g"
    "epoch_cap m1 = epoch_cap m - g \<or> g = 0 \<and> m1 = m"
    by (simp_all add: g)
  obtain m2 gs where gs: "grant_all m1 rs = (m2, gs)" by fastforce
  from 2(1) [OF g [symmetric] refl run] 2(3) gs have "0 \<le> gs" "gs \<le> epoch_cap m1" "grants_total m2 = grants_total m1 + gs"
    by simp_all
  then show ?case using b by (auto simp: g gs)
qed

theorem mint_epoch_budget_witness:
  "snd (grant_all (new_controller 64) [(1, ''n1'', 5), (2, ''n1'', 5), (3, ''n2'', 100)]) \<le> 6"
proof -
  have "epoch_cap (new_controller 64) = 6" by (simp add: epoch_cap_def new_controller_def base_allowance_def
      ALLOWANCE_MIN_SLOTS_def ALLOWANCE_BASE_FRACTION_def py_round_def)
  then show ?thesis
    using mint_epoch_budget [OF run_start [of 64], of "[(1, ''n1'', 5), (2, ''n1'', 5), (3, ''n2'', 100)]"]
    by simp
qed

text \<open>
  The allowance of an epoch is capped at half the workers only when a verified epoch computes it;
  opening the next one raises it to the base allowance, which for a small job is more than half.
\<close>

lemma small_jobs_may_double:
  "ALLOWANCE_MAX_FRACTION * 4 = 2" "epoch_cap ((new_controller 4)\<lparr>mc_allowance := 2\<rparr>) = 4"
  by (simp_all add: epoch_cap_def new_controller_def base_allowance_def ALLOWANCE_MAX_FRACTION_def
      ALLOWANCE_MIN_SLOTS_def ALLOWANCE_BASE_FRACTION_def py_round_def)

section \<open>No evidence, no growth\<close>

lemma tick_in_epoch:
  assumes "mint_inv m" "mc_epoch m = Some e" "0 \<le> w" "mint_tick now m t w b = Inr (m', evs)"
  obtains ev where "judge_epoch now (measured now m t w b) e = Inr (m', ev)"
    "\<And>s a. MintVerified s a \<in> set evs \<longleftrightarrow> ev = Some (MintVerified s a)"
proof (cases rule: mint_tick_cases [of m now t w b])
  case (first m1)
  then show thesis using assms(1,2) by (simp add: mint_inv_def)
next
  case (judged log)
  let ?m = "measured now m t w b"
  have "mint_advance now ?m = judge_epoch now ?m e"
    using assms(1,2) by (auto simp: mint_advance_cases probe_due_def mint_inv_def)
  with judged(3) assms(4) obtain ev where ev: "judge_epoch now ?m e = Inr (m', ev)"
    "evs = log @ (case ev of None \<Rightarrow> [] | Some x \<Rightarrow> [x])"
    by (cases "judge_epoch now ?m e") auto
  show thesis by (rule that [OF ev(1)]) (use ev(2) judged(2) in \<open>auto split: option.splits\<close>)
qed

text \<open>
  No evidence, no growth: an epoch whose tick finds the goodput no higher than when the epoch
  opened is never verified. It stays open or the controller freezes with no allowance left (a job
  with busy workers and no completions has bar 0 and sigma 0, and still cannot verify).
\<close>

theorem no_evidence_no_growth:
  assumes "mint_run m" "mc_epoch m = Some e" "0 \<le> w" "mint_tick now m t w b = Inr (m', evs)"
    and "mc_G (measured now m t w b) \<le> ep_G_base e"
  shows "mc_epoch m' \<noteq> None \<or> mc_frozen m' \<and> mc_allowance m' = 0 \<and> mc_probe_at m' \<noteq> None"
proof -
  let ?m = "measured now m t w b"
  have inv: "mint_inv m" by (rule mint_run_inv [OF assms(1)])
  have inv1: "mint_inv ?m" by (rule mint_inv_measured [OF inv assms(3)])
  have e: "mc_epoch ?m = Some e" using assms(2) by simp
  from tick_in_epoch [OF inv assms(2-4)] obtain ev where j: "judge_epoch now ?m e = Inr (m', ev)" by blast
  from inv1 e show ?thesis
  proof (cases rule: judge_cases [of ?m e now, consumes 2])
    case (verified strong sigma)
    have "0 \<le> FREEZE_Z * sigma" using verified(3) by (simp add: FREEZE_Z_def)
    then show ?thesis using verified(4) assms(5) by (simp add: epoch_dG_def)
  qed (use j e in \<open>auto simp: freeze_def\<close>)
qed

text \<open>A job with ten busy workers and no completions, ticked every 31 seconds.\<close>

definition idle :: "nat \<Rightarrow> nat \<Rightarrow> mint" where
  "idle n k = (new_controller 10)\<lparr>mc_busy := 10, mc_last_total := Some 0, mc_last_tick_at := 31 * real n,
     mc_blocks := replicate k 0, mc_block_started_at := 31 * real n, mc_block_start_total := 0,
     mc_block_fully_busy := True, mc_last_state_logged_at := 31 * real n\<rparr>"

lemma idle_tick:
  "mint_tick (31 * real (Suc n)) (idle n k) 0 10 10 = Inr (idle (Suc n) (min 8 (Suc k)), [MintState 4])"
proof -
  have "replicate k (0::real) @ [0] = replicate (Suc k) 0" by (simp add: replicate_append_same)
  then have "last_n SIGMA_BLOCKS (replicate k (0::real) @ [0]) = replicate (min 8 (Suc k)) 0"
    unfolding last_n_def SIGMA_BLOCKS_def by (simp only: drop_replicate length_replicate) (simp add: min_def)
  moreover have "base_allowance 10 = 4"
    by (simp add: base_allowance_def ALLOWANCE_MIN_SLOTS_def ALLOWANCE_BASE_FRACTION_def py_round_def)
  ultimately show ?thesis
    by (simp add: idle_def mint_tick_def new_controller_def update_goodput_def update_blocks_def Let_def
        BLOCK_SEC_def STATE_LOG_INTERVAL_SEC_def mint_advance_def algebra_simps)
qed

lemma idle_run: "mint_run (idle (Suc n) (min 8 n))"
proof (induction n)
  case 0
  let ?m = "(new_controller 10)\<lparr>mc_W := 10, mc_busy := 10, mc_last_total := Some 0, mc_last_tick_at := 0,
    mc_block_started_at := 0, mc_block_start_total := 0, mc_block_fully_busy := False\<rparr>"
  have "mint_tick 0 (new_controller 10) 0 10 10 = Inr (?m, [])"
    by (simp add: mint_tick_def new_controller_def)
  then have m: "mint_run ?m" by (rule run_tick [OF run_start, rotated 2]) simp_all
  have "mint_tick 31 ?m 0 10 10 = Inr (idle 1 0, [MintState (base_allowance 10)])"
    by (simp add: idle_def mint_tick_def new_controller_def update_goodput_def update_blocks_def Let_def
        BLOCK_SEC_def STATE_LOG_INTERVAL_SEC_def mint_advance_def)
  from run_tick [OF m _ this] show ?case by simp
next
  case (Suc n)
  from run_tick [OF Suc _ idle_tick] show ?case by (simp add: min_def split: if_splits)
qed

definition demo_grant :: "mint \<times> int" where
  "demo_grant = mint_grant 280 (idle 9 8) ''n1'' 3"

lemma demo_grant_run: "mint_run (fst demo_grant)"
  unfolding demo_grant_def using run_grant [OF idle_run [of 8]] by simp

lemma demo_grant_state:
  "snd demo_grant = 3" "mc_epoch (fst demo_grant) = Some \<lparr>ep_opened_at = 280, ep_W_base = 10, ep_G_base = 0,
     ep_sigma = Some 0, ep_extensions = 0, ep_next_verdict_at = 355\<rparr>"
  "mc_epoch_grants (fst demo_grant) = [(''n1'', 3)]"
proof -
  have "sigma_dg (last_n BASELINE_NOISE_BLOCKS (replicate 8 0)) = Some 0"
    by (simp add: sigma_dg_def last_n_def BASELINE_NOISE_BLOCKS_def mean_def numeral_eq_Suc)
  moreover have "base_allowance 10 = 4"
    by (simp add: base_allowance_def ALLOWANCE_MIN_SLOTS_def ALLOWANCE_BASE_FRACTION_def py_round_def)
  ultimately show "snd demo_grant = 3" "mc_epoch (fst demo_grant) = Some \<lparr>ep_opened_at = 280, ep_W_base = 10,
     ep_G_base = 0, ep_sigma = Some 0, ep_extensions = 0, ep_next_verdict_at = 355\<rparr>"
    "mc_epoch_grants (fst demo_grant) = [(''n1'', 3)]"
    by (simp_all add: demo_grant_def mint_grant_def idle_def new_controller_def SIGMA_BLOCKS_def
        open_epoch_def EPOCH_VERDICT_AGE_SEC_def)
qed

lemma demo_grant_more:
  "mc_G (fst demo_grant) = 0" "mc_last_total (fst demo_grant) = Some 0" "mc_probing (fst demo_grant) = False"
  by (simp_all add: demo_grant_def mint_grant_def idle_def new_controller_def open_epoch_def SIGMA_BLOCKS_def Let_def)

theorem no_evidence_no_growth_witness:
  "\<exists>m' evs. mint_tick 360 (fst demo_grant) 0 14 14 = Inr (m', evs) \<and>
     (mc_epoch m' \<noteq> None \<or> mc_frozen m' \<and> mc_allowance m' = 0)"
proof -
  from mint_inv_tick [OF mint_run_inv [OF demo_grant_run], of 14 360 0 14] obtain m' evs
    where t: "mint_tick 360 (fst demo_grant) 0 14 14 = Inr (m', evs)" by auto
  have "mc_G (measured 360 (fst demo_grant) 0 14 14) = 0"
    by (simp add: measured_def update_blocks_def update_goodput_def Let_def demo_grant_more)
  with no_evidence_no_growth [OF demo_grant_run demo_grant_state(2) _ t] t show ?thesis by auto
qed

section \<open>Taking grants back\<close>

definition pending :: "mint \<Rightarrow> string \<Rightarrow> int" where
  "pending m x = get_or 0 (map_of (mc_pending_sheds m) x)"

definition granted_to :: "mint \<Rightarrow> string \<Rightarrow> int" where
  "granted_to m x = get_or 0 (map_of (mc_epoch_grants m) x)"

text \<open>
  When an epoch closes, its grants are either all kept or all taken back, node by node: a
  verified epoch keeps them and unfreezes nothing that was not open, a probe that is not verified
  gives every node's grant back, and an ordinary epoch that is not verified does one or the other
  and freezes the controller.
\<close>

theorem epoch_closes_with_exact_sheds:
  assumes "mint_run m" "mc_epoch m = Some e" "0 \<le> w" "mint_tick now m t w b = Inr (m', evs)"
    and "mc_epoch m' = None"
  shows "if mc_frozen m'
    then (\<forall>x. pending m' x = pending m x + granted_to m x) \<or>
         \<not> mc_probing m \<and> (\<forall>x. pending m' x = pending m x)
    else (\<exists>s a. MintVerified s a \<in> set evs) \<and> (\<forall>x. pending m' x = pending m x)"
proof -
  let ?m = "measured now m t w b"
  have inv: "mint_inv m" by (rule mint_run_inv [OF assms(1)])
  have inv1: "mint_inv ?m" by (rule mint_inv_measured [OF inv assms(3)])
  have e: "mc_epoch ?m = Some e" using assms(2) by simp
  have d: "distinct (dkeys (mc_epoch_grants m))" using inv by (simp add: mint_inv_def)
  from tick_in_epoch [OF inv assms(2-4)] obtain ev where j: "judge_epoch now ?m e = Inr (m', ev)"
    and ver: "\<And>s a. MintVerified s a \<in> set evs \<longleftrightarrow> ev = Some (MintVerified s a)" by blast
  from inv1 e show ?thesis
  proof (cases rule: judge_cases [of ?m e now, consumes 2])
    case wait
    then show ?thesis using j e assms(5) by simp
  next
    case (verified strong sigma)
    then have "m' = verify strong ?m" "ev = Some (MintVerified strong (mc_allowance m'))" using j by auto
    moreover have "\<not> mc_frozen m" using inv assms(2) by (auto simp: mint_inv_def)
    ultimately show ?thesis using ver by (auto simp: verify_def pending_def)
  next
    case extended
    then show ?thesis using j assms(5) by auto
  next
    case (kept ev')
    then have "m' = freeze now ?m" using j by simp
    then show ?thesis using kept(2) by (simp add: freeze_def pending_def)
  next
    case (shed ev')
    then have "m' = freeze now (double_probe_interval (shed_grants ?m))" using j by simp
    then show ?thesis
      by (auto simp: freeze_def double_probe_interval_def shed_grants_def pending_def granted_to_def shed_lookup [OF d])
  qed
qed

text \<open>The demo epoch judged after the no-growth deadline: the node's three slots come back.\<close>

theorem epoch_closes_with_exact_sheds_witness:
  "\<exists>m' evs. mint_tick 440 (fst demo_grant) 0 10 10 = Inr (m', evs) \<and> mc_frozen m' \<and> pending m' ''n1'' \<in> {0, 3}"
proof -
  from mint_inv_tick [OF mint_run_inv [OF demo_grant_run], of 10 440 0 10] obtain m' evs
    where t: "mint_tick 440 (fst demo_grant) 0 10 10 = Inr (m', evs)" by auto
  let ?e = "\<lparr>ep_opened_at = 280, ep_W_base = 10, ep_G_base = 0, ep_sigma = Some 0, ep_extensions = 0, ep_next_verdict_at = 355\<rparr>"
  have "(0::int) \<le> 10" by simp
  from tick_in_epoch [OF mint_run_inv [OF demo_grant_run] demo_grant_state(2) this t] obtain ev
    where "judge_epoch 440 (measured 440 (fst demo_grant) 0 10 10) ?e = Inr (m', ev)" by blast
  then have m': "mc_epoch m' = None" "mc_frozen m'"
    by (auto simp: judge_epoch_def freeze_def EPOCH_MIN_GROWTH_SLOTS_def EPOCH_NO_GROWTH_DEADLINE_SEC_def
        less_max_iff_disj)
  have p: "pending (fst demo_grant) ''n1'' = 0" "granted_to (fst demo_grant) ''n1'' = 3"
    by (simp_all add: pending_def granted_to_def demo_grant_state(3))
      (simp add: demo_grant_def mint_grant_def idle_def new_controller_def open_epoch_def SIGMA_BLOCKS_def Let_def)
  from epoch_closes_with_exact_sheds [OF demo_grant_run demo_grant_state(2) _ t m'(1)] m'(2) p t
  show ?thesis by auto
qed

section \<open>Blind growth\<close>

text \<open>
  The slots of epochs that closed without evidence and were not taken back, since the last verified
  epoch: a closed epoch adds its grants less what it returns.
\<close>

definition unproven_after :: "int \<Rightarrow> mint \<Rightarrow> mint \<Rightarrow> mint_event list \<Rightarrow> int" where
  "unproven_after k m m' evs =
     (if \<exists>s a. MintVerified s a \<in> set evs then 0
      else if mc_epoch m \<noteq> None \<and> mc_epoch m' = None
      then k + grants_total m - ((\<Sum>g\<leftarrow>mc_pending_sheds m'. snd g) - (\<Sum>g\<leftarrow>mc_pending_sheds m. snd g))
      else k)"

inductive unproven :: "mint \<Rightarrow> int \<Rightarrow> bool" where
  un_start: "0 < w \<Longrightarrow> unproven (new_controller w) 0"
| un_grant: "unproven m k \<Longrightarrow> 0 < req \<Longrightarrow> unproven (fst (mint_grant now m name req)) k"
| un_shed: "unproven m k \<Longrightarrow> unproven (fst (mint_take_shed m name)) k"
| un_tick: "unproven m k \<Longrightarrow> 0 \<le> w \<Longrightarrow> mint_tick now m t w b = Inr (m', evs) \<Longrightarrow>
    unproven m' (unproven_after k m m' evs)"

lemma unproven_run: "unproven m k \<Longrightarrow> mint_run m"
  by (induction rule: unproven.induct) (auto intro: mint_run.intros)

lemma sum_shed: "(\<Sum>g\<leftarrow>foldl shed_step d gs. snd g) = (\<Sum>g\<leftarrow>d. snd g) + (\<Sum>g\<leftarrow>gs. snd g)"
proof (induction gs arbitrary: d)
  case (Cons g gs)
  have "(\<Sum>x\<leftarrow>shed_step d g. snd x) = (\<Sum>x\<leftarrow>d. snd x) + snd g"
    using sum_list_dset_new [of d "fst g" "\<lambda>v. v"] sum_list_dset_old [of d "fst g" _ "\<lambda>v. v"]
    by (cases "map_of d (fst g)") (auto simp: shed_step_def)
  then show ?case using Cons [of "shed_step d g"] by simp
qed simp

lemma tick_closed_not_verified:
  "mint_tick now m t w b = Inr (m', evs) \<Longrightarrow> mc_epoch m = None \<Longrightarrow> \<not> (\<exists>s a. MintVerified s a \<in> set evs)"
  by (rule mint_tick_cases [of m now t w b])
    (auto simp: mint_advance_cases split: if_splits)

lemma tick_not_frozen:
  "mint_inv m \<Longrightarrow> mc_epoch m = None \<Longrightarrow> \<not> mc_frozen m \<Longrightarrow> mint_tick now m t w b = Inr (m', evs) \<Longrightarrow>
     \<not> mc_frozen m' \<and> mc_probing m' = mc_probing m \<and> mc_epoch m' = None"
  by (rule mint_tick_cases [of m now t w b]) (auto simp: mint_advance_cases probe_due_def)

lemma tick_frozen:
  "mint_inv m \<Longrightarrow> mc_frozen m \<Longrightarrow> mint_tick now m t w b = Inr (m', evs) \<Longrightarrow>
     (mc_frozen m' \<or> mc_probing m') \<and> mc_epoch m' = None"
  by (rule mint_tick_cases [of m now t w b])
    (auto simp: mint_advance_cases probe_due_def mint_inv_def open_probe_def split: if_splits)

lemma grants_verified: "mint_inv m \<Longrightarrow> 0 \<le> grants_total m"
proof -
  assume "mint_inv m"
  then have "\<forall>g \<in> set (mc_epoch_grants m). 0 < snd g" by (simp add: mint_inv_def)
  then show ?thesis unfolding grants_total_def by (intro sum_list_nonneg) (auto intro: less_imp_le)
qed

lemma tick_open:
  assumes inv: "mint_inv m" and e: "mc_epoch m = Some e" and w: "0 \<le> w"
    and t: "mint_tick now m t w b = Inr (m', evs)"
  shows "(mc_epoch m' \<noteq> None \<and> \<not> mc_frozen m' \<and> mc_probing m' = mc_probing m \<and> unproven_after k m m' evs = k)
    \<or> (mc_epoch m' = None \<and> unproven_after k m m' evs = 0 \<and> \<not> mc_frozen m')
    \<or> (mc_frozen m' \<and> unproven_after k m m' evs = k)
    \<or> (mc_frozen m' \<and> \<not> mc_probing m \<and> unproven_after k m m' evs = k + grants_total m)"
proof -
  let ?m = "measured now m t w b"
  have inv1: "mint_inv ?m" by (rule mint_inv_measured [OF inv w])
  have e1: "mc_epoch ?m = Some e" using e by simp
  have nf: "\<not> mc_frozen m" using inv e by (auto simp: mint_inv_def)
  from tick_in_epoch [OF inv e w t] obtain ev where j: "judge_epoch now ?m e = Inr (m', ev)"
    and ver: "\<And>s a. MintVerified s a \<in> set evs \<longleftrightarrow> ev = Some (MintVerified s a)" by blast
  from inv1 e1 show ?thesis
  proof (cases rule: judge_cases [of ?m e now, consumes 2])
    case wait
    then show ?thesis using j e nf ver by (auto simp: unproven_after_def)
  next
    case (verified strong sigma)
    then show ?thesis using j nf ver by (auto simp: unproven_after_def verify_def)
  next
    case extended
    then show ?thesis using j nf ver by (auto simp: unproven_after_def)
  next
    case (kept ev')
    then have "ev = Some ev'" "m' = freeze now ?m" using j by simp_all
    then show ?thesis using kept(2,3) ver e by (auto simp: unproven_after_def freeze_def)
  next
    case (shed ev')
    have m': "m' = freeze now (double_probe_interval (shed_grants ?m))" "ev = Some ev'" using j shed(1) by simp_all
    then have "(\<Sum>g\<leftarrow>mc_pending_sheds m'. snd g) = (\<Sum>g\<leftarrow>mc_pending_sheds m. snd g) + grants_total m"
      by (simp add: freeze_def double_probe_interval_def shed_grants_def sum_shed grants_total_def)
    then show ?thesis using m' e shed(2) ver by (auto simp: unproven_after_def freeze_def)
  qed
qed

lemma unproven_inv: "unproven m k \<Longrightarrow> 0 \<le> k \<and> (k \<noteq> 0 \<longrightarrow> mc_frozen m \<or> mc_probing m)"
proof (induction rule: unproven.induct)
  case (un_grant m k req now name)
  have "mc_frozen (fst (mint_grant now m name req)) = mc_frozen m"
    "mc_probing (fst (mint_grant now m name req)) = mc_probing m"
    by (auto simp: mint_grant_def Let_def open_epoch_def split: option.splits)
  with un_grant show ?case by simp
next
  case (un_shed m k name)
  then show ?case by (simp add: mint_take_shed_def)
next
  case (un_tick m k w now t b m' evs)
  have inv: "mint_inv m" by (rule mint_run_inv [OF unproven_run [OF un_tick(1)]])
  show ?case
  proof (cases "mc_epoch m")
    case None
    have "\<not> (\<exists>s a. MintVerified s a \<in> set evs)"
      using un_tick(3) None by (intro tick_closed_not_verified)
    then have "unproven_after k m m' evs = k" using None by (simp add: unproven_after_def)
    then show ?thesis
      using un_tick(4) tick_not_frozen [OF inv None _ un_tick(3)] tick_frozen [OF inv _ un_tick(3)]
      by (cases "mc_frozen m") auto
  next
    case (Some e)
    then have "\<not> mc_frozen m" using inv by (auto simp: mint_inv_def)
    then show ?thesis
      using un_tick(4) tick_open [OF inv Some un_tick(2,3), of k] grants_verified [OF inv] by auto
  qed
qed simp

text \<open>
  C31. Growth without evidence is bounded by one ordinary epoch: between two verified epochs at most
  one epoch's grants are kept unproven, because a tick adds to them only when there were none and
  the epoch it closes was not a probe. (The module's docstring: "blind growth is bounded".)
\<close>

theorem blind_growth_is_one_epoch:
  assumes "unproven m k" "0 \<le> w" "mint_tick now m t w b = Inr (m', evs)"
  shows "0 \<le> k \<and> (k \<noteq> 0 \<longrightarrow> mc_frozen m \<or> mc_probing m) \<and>
    (unproven_after k m m' evs \<in> {0, k} \<or>
     k = 0 \<and> \<not> mc_probing m \<and> mc_frozen m' \<and> unproven_after k m m' evs = grants_total m)"
proof -
  have inv: "mint_inv m" by (rule mint_run_inv [OF unproven_run [OF assms(1)]])
  note k = unproven_inv [OF assms(1)]
  show ?thesis
  proof (cases "mc_epoch m")
    case None
    have "\<not> (\<exists>s a. MintVerified s a \<in> set evs)"
      using assms(3) None by (intro tick_closed_not_verified)
    then have "unproven_after k m m' evs = k" using None by (simp add: unproven_after_def)
    then show ?thesis using k by simp
  next
    case (Some e)
    then have "\<not> mc_frozen m" using inv by (auto simp: mint_inv_def)
    then show ?thesis using k tick_open [OF inv Some assms(2,3), of k] by auto
  qed
qed

theorem blind_growth_is_one_epoch_witness:
  "\<exists>m' evs. mint_tick 5 (new_controller 64) 10 64 60 = Inr (m', evs) \<and>
     unproven_after 0 (new_controller 64) m' evs = 0"
proof -
  obtain m' evs where t: "mint_tick 5 (new_controller 64) 10 64 60 = Inr (m', evs)"
    by (simp add: mint_tick_def new_controller_def)
  from blind_growth_is_one_epoch [OF un_start [of 64] _ t] t show ?thesis
    by (auto simp: new_controller_def grants_total_def)
qed

section \<open>Every epoch is judged\<close>

lemma late_tick:
  assumes inv: "mint_inv m" and e: "mc_epoch m = Some e" and w: "0 \<le> w"
    and late: "ep_next_verdict_at e \<le> now" "ep_opened_at e + 150 \<le> now"
    and t: "mint_tick now m t w b = Inr (m', evs)"
  shows "mc_epoch m' = None \<or> (ep_extensions e < 2 \<and> (\<exists>e'. mc_epoch m' = Some e'
    \<and> ep_extensions e' = ep_extensions e + 1 \<and> ep_opened_at e' = ep_opened_at e
    \<and> ep_next_verdict_at e' = now + 45))"
proof -
  let ?m = "measured now m t w b"
  have inv1: "mint_inv ?m" by (rule mint_inv_measured [OF inv w])
  have e1: "mc_epoch ?m = Some e" using e by simp
  from tick_in_epoch [OF inv e w t] obtain ev where j: "judge_epoch now ?m e = Inr (m', ev)" by blast
  from inv1 e1 show ?thesis
  proof (cases rule: judge_cases [of ?m e now, consumes 2])
    case wait
    then show ?thesis using late by (simp add: EPOCH_NO_GROWTH_DEADLINE_SEC_def)
  next
    case extended
    then have "m' = ?m\<lparr>mc_epoch := Some (e\<lparr>ep_extensions := ep_extensions e + 1,
        ep_next_verdict_at := now + EPOCH_EXTENSION_SEC\<rparr>)\<rparr>" using j by simp
    then show ?thesis using extended(2) by (simp add: EPOCH_EXTENSION_SEC_def EPOCH_MAX_EXTENSIONS_def)
  qed (use j in \<open>auto simp: verify_def freeze_def\<close>)
qed

lemma closed_tick:
  assumes "mint_inv m" "mc_epoch m = None" "mint_tick now m t w b = Inr (m', evs)"
  shows "mc_epoch m' = None"
  using tick_not_frozen [OF assms(1,2) _ assms(3)] tick_frozen [OF assms(1) _ assms(3)] by blast

text \<open>
  Every epoch is decided: three ticks, the first at or after the no-growth deadline and the due
  verdict and each 45 seconds or more after the one before, leave no epoch open, whatever results
  and worker counts they report.
\<close>

theorem epoch_is_decided:
  assumes "mint_run m" "mc_epoch m = Some e"
    and "ep_next_verdict_at e \<le> t1" "ep_opened_at e + 150 \<le> t1" "t1 + 45 \<le> t2" "t2 + 45 \<le> t3"
    and "0 \<le> w1" "0 \<le> w2" "0 \<le> w3"
  shows "\<exists>m1 v1 m2 v2 m3 v3. mint_tick t1 m r1 w1 b1 = Inr (m1, v1) \<and>
    mint_tick t2 m1 r2 w2 b2 = Inr (m2, v2) \<and> mint_tick t3 m2 r3 w3 b3 = Inr (m3, v3) \<and>
    mc_epoch m3 = None"
proof -
  have i: "mint_inv m" by (rule mint_run_inv [OF assms(1)])
  obtain m1 v1 where k1: "mint_tick t1 m r1 w1 b1 = Inr (m1, v1)" and i1: "mint_inv m1"
    using mint_inv_tick [OF i assms(7)] by blast
  obtain m2 v2 where k2: "mint_tick t2 m1 r2 w2 b2 = Inr (m2, v2)" and i2: "mint_inv m2"
    using mint_inv_tick [OF i1 assms(8)] by blast
  obtain m3 v3 where k3: "mint_tick t3 m2 r3 w3 b3 = Inr (m3, v3)"
    using mint_inv_tick [OF i2 assms(9)] by blast
  note closed2 = closed_tick [OF i1 _ k2] and closed3 = closed_tick [OF i2 _ k3]
  have "mc_epoch m3 = None"
    using late_tick [OF i assms(2,7,3,4) k1]
  proof (elim disjE conjE exE)
    assume "mc_epoch m1 = None"
    then show ?thesis using closed2 closed3 by blast
  next
    fix e1 assume x0: "ep_extensions e < 2" and e1: "mc_epoch m1 = Some e1" "ep_extensions e1 = ep_extensions e + 1"
      "ep_opened_at e1 = ep_opened_at e" "ep_next_verdict_at e1 = t1 + 45"
    have "mc_epoch m2 = None \<or> (ep_extensions e1 < 2 \<and> (\<exists>e'. mc_epoch m2 = Some e'
      \<and> ep_extensions e' = ep_extensions e1 + 1 \<and> ep_opened_at e' = ep_opened_at e1
      \<and> ep_next_verdict_at e' = t2 + 45))"
      by (rule late_tick [OF i1 e1(1) assms(8) _ _ k2]) (use e1 assms(4,5) in simp_all)
    then show ?thesis
    proof (elim disjE conjE exE)
      assume "mc_epoch m2 = None"
      then show ?thesis by (rule closed3)
    next
      fix e2 assume e2: "mc_epoch m2 = Some e2" "ep_extensions e2 = ep_extensions e1 + 1"
        "ep_opened_at e2 = ep_opened_at e1" "ep_next_verdict_at e2 = t2 + 45"
      have "mc_epoch m3 = None \<or> (ep_extensions e2 < 2 \<and> (\<exists>e'. mc_epoch m3 = Some e'
        \<and> ep_extensions e' = ep_extensions e2 + 1 \<and> ep_opened_at e' = ep_opened_at e2
        \<and> ep_next_verdict_at e' = t3 + 45))"
        by (rule late_tick [OF i2 e2(1) assms(9) _ _ k3]) (use e1 e2 assms(4-6) in simp_all)
      then show ?thesis using e1 e2 by auto
    qed
  qed
  then show ?thesis using k1 k2 k3 by blast
qed

theorem epoch_is_decided_witness:
  "\<exists>m1 v1 m2 v2 m3 v3. mint_tick 430 (fst demo_grant) 0 14 14 = Inr (m1, v1) \<and>
    mint_tick 480 m1 0 14 14 = Inr (m2, v2) \<and> mint_tick 530 m2 0 14 14 = Inr (m3, v3) \<and> mc_epoch m3 = None"
  by (rule epoch_is_decided [OF demo_grant_run demo_grant_state(2)]) simp_all

end
