(* ===== verification/Job_Start.thy ===== *)
theory Job_Start
  imports Job_Tracking
begin

text \<open>
  The endpoints the client calls, \<open>endpoints/client.py\<close>: reading and patching a job, selecting ready
  nodes, growing, \<open>start_job\<close>, the cluster state poll and failing a node. A handler maps the head's
  state to a new state and either an HTTP error or a reply; the background tasks it adds are part of
  the reply. The saved cluster configuration, \<open>uuid4\<close>, the relay check and the CA certificate are
  parameters. \<open>started_at\<close> and the other JSON numbers arrive parsed.
\<close>

section \<open>Errors of the HTTP interface\<close>

datatype http_detail =
    Text string
  | VersionMismatch string string string
  | NodesBusy "(int \<times> int) option"
  | NoCompatibleNodes string "string option" "string option" "string option" "string list"

datatype api_error =
    HttpError int http_detail
  | Raised py_error

type_synonym 'a reply = "api_error + 'a"

definition lift_err :: "'a result \<Rightarrow> 'a reply" where
  "lift_err m = (case m of Inl e \<Rightarrow> Inl (Raised e) | Inr x \<Rightarrow> Inr x)"

lemma lift_err_eq_Inr [simp]: "lift_err m = Inr x \<longleftrightarrow> m = Inr x"
  by (cases m) (simp_all add: lift_err_def)

section \<open>Versions\<close>

text \<open>\<open>s.split(sep)\<close>, \<open>s.strip()\<close> and \<open>int(s)\<close>: a sign, digits, single underscores between digits.\<close>

fun split_on :: "char \<Rightarrow> string \<Rightarrow> string list" where
  "split_on sep [] = [[]]"
| "split_on sep (c # cs) =
     (if c = sep then [] # split_on sep cs
      else (c # hd (split_on sep cs)) # tl (split_on sep cs))"

definition is_space :: "char \<Rightarrow> bool" where
  "is_space c \<longleftrightarrow> c \<in> {CHR '' '', CHR 0x09, CHR 0x0A, CHR 0x0B, CHR 0x0C, CHR 0x0D}"

definition strip_spaces :: "string \<Rightarrow> string" where
  "strip_spaces s = rev (dropWhile is_space (rev (dropWhile is_space s)))"

fun int_body :: "string \<Rightarrow> bool" where
  "int_body [] = False"
| "int_body [c] = is_digit c"
| "int_body (c # d # cs) =
     (is_digit c \<and> (if d = CHR ''_'' then int_body cs else int_body (d # cs)))"

definition py_int :: "string \<Rightarrow> int result" where
  "py_int s =
     (let t = strip_spaces s;
          neg = (t \<noteq> [] \<and> hd t = CHR ''-'');
          body = (if t \<noteq> [] \<and> hd t \<in> {CHR ''-'', CHR ''+''} then tl t else t)
      in if int_body body
         then Inr ((if neg then - 1 else 1) * int_of_digits (filter (\<lambda>c. c \<noteq> CHR ''_'') body))
         else Inl (ValueError (''invalid literal for int() with base 10: '' @ s)))"

definition parse_version :: "string \<Rightarrow> int list result" where
  "parse_version s = map_err py_int (split_on CHR ''.'' s)"

definition CURRENT_BURLA_VERSION :: string where "CURRENT_BURLA_VERSION = ''1.8.1''"
definition MIN_COMPATIBLE_CLIENT_VERSION :: string where "MIN_COMPATIBLE_CLIENT_VERSION = ''1.7.11''"

definition check_version :: "string \<Rightarrow> unit reply" where
  "check_version client_version =
     (case (parse_version MIN_COMPATIBLE_CLIENT_VERSION, parse_version CURRENT_BURLA_VERSION,
            parse_version client_version) of
        (Inr lower, Inr upper, Inr current) \<Rightarrow>
          if lower \<le> current \<and> current \<le> upper then Inr ()
          else Inl (HttpError 409 (VersionMismatch MIN_COMPATIBLE_CLIENT_VERSION CURRENT_BURLA_VERSION
                 client_version))
      | _ \<Rightarrow> Inl (HttpError 400 (Text ''malformed version'')))"

section \<open>Selecting ready nodes\<close>

record request =
  rq_func_cpu :: func_res
  rq_func_ram :: func_res
  rq_n_inputs :: int
  rq_max_parallelism :: "int option"
  rq_grow :: bool
  rq_image :: "string option"
  rq_func_gpu :: "string option"
  rq_region :: "string option"
  rq_disk_gb :: "int option"
  rq_client_version :: string
  rq_user :: string
  rq_function_name :: string
  rq_started_at :: "real option"
  rq_is_background_job :: bool
  rq_parent_job_id :: "string option"

definition max_parallelism_of :: "request \<Rightarrow> int" where
  "max_parallelism_of rq =
     (if get_or 0 (rq_max_parallelism rq) = 0 then rq_n_inputs rq else get_or 0 (rq_max_parallelism rq))"

definition reusable :: "real \<Rightarrow> node \<Rightarrow> bool" where
  "reusable now n \<longleftrightarrow> n_status n = Some READY \<and> \<not> truthy (n_current_job n)
     \<and> \<not> truthy (n_reserved_for_job n) \<and> \<not> truthy (n_job_scope_id n) \<and> node_is_fresh now n"

record selection =
  se_selected :: "ready_choice list"
  se_total :: int
  se_after_filters :: "node list"
  se_after_gpu :: "node list"
  se_after_image :: "node list"
  se_unfiltered :: "node list"

fun take_nodes :: "func_res \<Rightarrow> func_res \<Rightarrow> int \<Rightarrow> int \<Rightarrow> node list \<Rightarrow> (ready_choice list \<times> int) result" where
  "take_nodes fc fr limit so_far [] = Inr ([], so_far)"
| "take_nodes fc fr limit so_far (n # ns) =
     (let deficit = limit - so_far
      in if deficit \<le> 0 then Inr ([], so_far)
         else case n_machine_type n of
           None \<Rightarrow> Inl (KeyError ''machine_type'')
         | Some mt \<Rightarrow> bind_err (parallelism_capacity mt fc fr) (\<lambda>cap.
             let p = min deficit cap
             in if p \<le> 0 then take_nodes fc fr limit so_far ns
                else bind_err (take_nodes fc fr limit (so_far + p) ns) (\<lambda>(cs, tot).
                  Inr (\<lparr>rc_instance_name = n_instance_name n, rc_host = n_host n,
                        rc_machine_type = mt, rc_target_parallelism = p\<rparr> # cs, tot))))"

definition image_filter :: "string option \<Rightarrow> node list \<Rightarrow> node list" where
  "image_filter img ns = (if truthy img then filter (\<lambda>n. the img \<in> set (n_images n)) ns else ns)"

definition prefix_filter :: "string option \<Rightarrow> node list \<Rightarrow> node list" where
  "prefix_filter p ns =
     (if truthy p then filter (\<lambda>n. prefix (the p) (get_or [] (n_machine_type n))) ns else ns)"

definition region_filter :: "string option \<Rightarrow> node list \<Rightarrow> node list" where
  "region_filter r ns = (if truthy r then filter (\<lambda>n. n_gcp_region n = r) ns else ns)"

definition select_ready_nodes :: "head_env \<Rightarrow> real \<Rightarrow> head \<Rightarrow> request \<Rightarrow> selection result" where
  "select_ready_nodes env now h rq =
     bind_err (gpu_machine_prefix (rq_func_gpu rq) (CLOUD_PROVIDER env)) (\<lambda>machine_prefix.
       let unfiltered = filter (reusable now) (list_nodes h);
           after_image = image_filter (rq_image rq) unfiltered;
           after_gpu = prefix_filter machine_prefix after_image;
           after_filters = region_filter (rq_region rq) after_gpu
       in bind_err (take_nodes (rq_func_cpu rq) (rq_func_ram rq) (max_parallelism_of rq) 0 after_filters)
            (\<lambda>(selected, tot).
              Inr \<lparr>se_selected = selected, se_total = tot, se_after_filters = after_filters,
                   se_after_gpu = after_gpu, se_after_image = after_image,
                   se_unfiltered = unfiltered\<rparr>))"

section \<open>Growing\<close>

definition LOCAL_DEV_MAX_GROW_CPUS :: int where "LOCAL_DEV_MAX_GROW_CPUS = 4"
definition GROW_INACTIVITY_SHUTDOWN_TIME_SEC :: int where "GROW_INACTIVITY_SHUTDOWN_TIME_SEC = 60"
definition DEFAULT_MAX_VCPUS :: int where "DEFAULT_MAX_VCPUS = 2560"
definition DEFAULT_MAX_GPUS_PER_MODEL :: int where "DEFAULT_MAX_GPUS_PER_MODEL = 8"

definition resource_caps :: "head_env \<Rightarrow> cluster_config \<Rightarrow> (int \<times> (string option \<times> int) list) result" where
  "resource_caps env config =
     bind_err (gpu_models (CLOUD_PROVIDER env)) (\<lambda>models.
       Inr (get_or DEFAULT_MAX_VCPUS (cfg_max_vcpus config),
            map (\<lambda>model. (model, get_or DEFAULT_MAX_GPUS_PER_MODEL
                   (case model of None \<Rightarrow> None | Some m \<Rightarrow> map_of (get_or [] (cfg_max_gpus config)) m)))
              models))"

definition override_spec :: "string option \<Rightarrow> int option \<Rightarrow> node_spec \<Rightarrow> node_spec" where
  "override_spec region disk_gb spec =
     (let s1 = (if truthy region then spec\<lparr>ns_gcp_region := region\<rparr> else spec)
      in if get_or 0 disk_gb \<noteq> 0 then s1\<lparr>ns_disk_size_gb := disk_gb\<rparr> else s1)"

definition config_with_job_overrides :: "cluster_config \<Rightarrow> string option \<Rightarrow> int option \<Rightarrow> cluster_config" where
  "config_with_job_overrides config region disk_gb =
     (if \<not> truthy region \<and> get_or 0 disk_gb = 0 then config
      else config\<lparr>cfg_nodes := map (override_spec region disk_gb) (cfg_nodes config)\<rparr>)"

text \<open>\<open>dict[key]\<close> raises \<open>KeyError\<close>.\<close>

definition dict_get :: "string \<Rightarrow> ('k \<times> 'v) list \<Rightarrow> 'k \<Rightarrow> 'v result" where
  "dict_get what d k = (case map_of d k of None \<Rightarrow> Inl (KeyError what) | Some v \<Rightarrow> Inr v)"

text \<open>The two budgets: what the caps leave beyond the live fleet.\<close>

definition grow_budgets ::
  "head_env \<Rightarrow> cluster_config \<Rightarrow> head \<Rightarrow> string option \<Rightarrow> (int option \<times> int option) result" where
  "grow_budgets env config h func_gpu =
     bind_err (resource_caps env config) (\<lambda>(cap, max_gpus).
     bind_err (fleet_resources h) (\<lambda>(fleet_cpu_vcpus, fleet_gpus).
     bind_err (gpu_machine_type func_gpu (CLOUD_PROVIDER env)) (\<lambda>gpu_mt.
       let max_vcpus = (if IN_LOCAL_DEV_MODE env then LOCAL_DEV_MAX_GROW_CPUS else cap)
       in if truthy gpu_mt then
            (let model = gpu_model (the gpu_mt)
             in bind_err (dict_get ''model'' max_gpus model) (\<lambda>g.
                  Inr (None, Some (max 0 (g - get_or 0 (map_of fleet_gpus model))))))
          else Inr (Some (max 0 (max_vcpus - fleet_cpu_vcpus)), None))))"

definition plan_grow_if_needed ::
  "head_env \<Rightarrow> (nat \<Rightarrow> string) \<Rightarrow> cluster_config \<Rightarrow> head \<Rightarrow> int \<Rightarrow> request
    \<Rightarrow> (planned_node list \<times> int option \<times> int option \<times> cluster_config option) result" where
  "plan_grow_if_needed env uuid saved h target_parallelism rq =
     bind_err (grow_budgets env saved h (rq_func_gpu rq)) (\<lambda>(cpu_budget, gpu_budget).
       let missing_slots = max 0 (min (rq_n_inputs rq) (max_parallelism_of rq) - target_parallelism)
       in if missing_slots \<le> 0 then Inr ([], cpu_budget, gpu_budget, None)
          else
            (let config = config_with_job_overrides saved (rq_region rq) (rq_disk_gb rq)
             in bind_err (plan_grow_nodes env uuid missing_slots (rq_func_cpu rq) (rq_func_ram rq)
                    (rq_func_gpu rq) config cpu_budget gpu_budget None []) (\<lambda>planned.
                  if planned = [] then Inr ([], cpu_budget, gpu_budget, Some config)
                  else
                    bind_err (if cpu_budget = None then Inr 0 else planned_cpu_count planned) (\<lambda>c.
                    bind_err (if gpu_budget = None then Inr 0 else planned_gpu_count planned) (\<lambda>g.
                      Inr (planned, spend cpu_budget c, spend gpu_budget g, Some config))))))"

section \<open>Starting a job\<close>

text \<open>The background task that boots planned nodes, with the arguments \<open>_start_nodes\<close> gets.\<close>

record boot_order =
  bo_config :: cluster_config
  bo_job_id :: string
  bo_names :: "string list"
  bo_machine_types :: "string list"
  bo_image :: "string option"
  bo_inactivity_sec :: int
  bo_parallelisms :: "int list"

definition boot_order_of :: "cluster_config \<Rightarrow> string \<Rightarrow> string option \<Rightarrow> planned_node list \<Rightarrow> boot_order" where
  "boot_order_of config job_id img planned =
     \<lparr>bo_config = config, bo_job_id = job_id, bo_names = map pl_instance_name planned,
      bo_machine_types = map pl_machine_type planned, bo_image = (if truthy img then img else None),
      bo_inactivity_sec = GROW_INACTIVITY_SHUTDOWN_TIME_SEC,
      bo_parallelisms = map pl_target_parallelism planned\<rparr>"

record start_reply =
  st_response :: start_response
  st_cluster_ca :: "string option"
  st_boots :: "boot_order list"

definition count_status :: "node_status \<Rightarrow> node list \<Rightarrow> int" where
  "count_status s ns = int (length (filter (\<lambda>n. n_status n = Some s) ns))"

text \<open>The error when nothing is ready and the job may not grow.\<close>

definition mismatch_reason :: "request \<Rightarrow> selection \<Rightarrow> string" where
  "mismatch_reason rq se =
     (if truthy (rq_image rq) \<and> se_after_image se = [] then ''image_mismatch''
      else if truthy (rq_func_gpu rq) \<and> se_after_image se \<noteq> [] \<and> se_after_gpu se = [] then ''gpu_mismatch''
      else if truthy (rq_region rq) \<and> se_after_gpu se \<noteq> [] \<and> se_after_filters se = [] then ''region_mismatch''
      else ''insufficient_capacity'')"

definition sorted_set :: "string list \<Rightarrow> string list" where
  "sorted_set xs = sort (remdups xs)"

definition mismatch_available :: "string \<Rightarrow> selection \<Rightarrow> string list" where
  "mismatch_available reason se =
     (if reason = ''image_mismatch'' then sorted_set (concat (map n_images (se_unfiltered se)))
      else if reason = ''gpu_mismatch'' then
        sorted_set (filter (\<lambda>s. s \<noteq> []) (map (\<lambda>n. get_or [] (n_machine_type n)) (se_after_image se)))
      else if reason = ''region_mismatch'' then
        sorted_set (filter (\<lambda>s. s \<noteq> []) (map (\<lambda>n. get_or [] (n_gcp_region n)) (se_after_gpu se)))
      else [])"

definition no_ready_error :: "head \<Rightarrow> request \<Rightarrow> selection \<Rightarrow> api_error" where
  "no_ready_error h rq se =
     (let booting = count_status BOOTING (list_nodes h); running = count_status RUNNING (list_nodes h)
      in if booting \<noteq> 0 \<or> running \<noteq> 0 then HttpError 503 (NodesBusy (Some (booting, running)))
         else if se_unfiltered se = [] then HttpError 404 (Text ''no_nodes'')
         else HttpError 409 (NoCompatibleNodes (mismatch_reason rq se) (rq_image rq) (rq_func_gpu rq)
                (rq_region rq) (mismatch_available (mismatch_reason rq se) se)))"

definition new_job ::
  "real \<Rightarrow> request \<Rightarrow> int \<Rightarrow> int option \<Rightarrow> int option \<Rightarrow> start_response \<Rightarrow> job" where
  "new_job now rq target_parallelism cpus_remaining gpus_remaining response =
     \<lparr>j_status = Some JOB_RUNNING, j_n_inputs = Some (rq_n_inputs rq), j_func_cpu = rq_func_cpu rq,
      j_func_ram = rq_func_ram rq, j_image = rq_image rq, j_func_gpu = rq_func_gpu rq,
      j_region = rq_region rq, j_disk_gb = rq_disk_gb rq, j_grow = rq_grow rq,
      j_grow_cpus_remaining = cpus_remaining, j_grow_gpus_remaining = gpus_remaining,
      j_target_parallelism = target_parallelism, j_max_parallelism = max_parallelism_of rq,
      j_user = Some (rq_user rq), j_function_name = Some (rq_function_name rq),
      j_started_at = Some (if get_or 0 (rq_started_at rq) = 0 then now else get_or 0 (rq_started_at rq)),
      j_ended_at = None, j_is_background_job = rq_is_background_job rq,
      j_parent_job_id = rq_parent_job_id rq, j_all_inputs_uploaded = False,
      j_client_has_all_results = False, j_dashboard_canceled = False, j_cluster_shutdown = False,
      j_cluster_restarted = False, j_fail_reason = [], j_terminal_reason = None,
      j_start_response = Some response, j_replacement_requests = [], j_assigned_nodes = []\<rparr>"

definition ca_for :: "head_env \<Rightarrow> string \<Rightarrow> string option" where
  "ca_for env ca = (if IN_LOCAL_DEV_MODE env then None else Some ca)"

text \<open>
  Selection, growth and admission, once the request is known to be new. \<open>reach\<close> is the outcome of
  \<open>verify_nodes_can_reach_head\<close>: \<open>None\<close> or the error it raises.
\<close>

definition start_new_job ::
  "head_env \<Rightarrow> (nat \<Rightarrow> string) \<Rightarrow> cluster_config \<Rightarrow> string \<Rightarrow> api_error option \<Rightarrow> real \<Rightarrow> head \<Rightarrow> string
    \<Rightarrow> request \<Rightarrow> head \<times> start_reply reply" where
  "start_new_job env uuid saved ca reach now h job_id rq =
     (case select_ready_nodes env now h rq of
        Inl e \<Rightarrow> (h, Inl (Raised e))
      | Inr se \<Rightarrow>
          if se_selected se = [] \<and> \<not> rq_grow rq then (h, Inl (no_ready_error h rq se))
          else if rq_grow rq \<and> min (rq_n_inputs rq) (max_parallelism_of rq) > se_total se \<and> reach \<noteq> None
          then (h, Inl (the reach))
          else
            (case (if rq_grow rq then plan_grow_if_needed env uuid saved h (se_total se) rq
                   else Inr ([], None, None, None)) of
               Inl e \<Rightarrow> (h, Inl (Raised e))
             | Inr (planned, cpus_remaining, gpus_remaining, grow_config) \<Rightarrow>
                 (let response = \<lparr>sr_ready_nodes = se_selected se,
                        sr_booting_nodes = map (\<lambda>p. (pl_instance_name p, pl_target_parallelism p)) planned\<rparr>;
                      job = new_job now rq (se_total se) cpus_remaining gpus_remaining response;
                      (h1, created, stored) = admit_job now h job_id job (map rc_instance_name (se_selected se))
                  in case stored of
                       None \<Rightarrow> (h1, Inl (HttpError 503 (NodesBusy None)))
                     | Some r \<Rightarrow>
                         (h1, Inr \<lparr>st_response = r, st_cluster_ca = ca_for env ca,
                            st_boots = (if created \<and> planned \<noteq> []
                               then [boot_order_of (the grow_config) job_id (rq_image rq) planned]
                               else [])\<rparr>))))"

definition start_job ::
  "head_env \<Rightarrow> (nat \<Rightarrow> string) \<Rightarrow> cluster_config \<Rightarrow> string \<Rightarrow> api_error option \<Rightarrow> real \<Rightarrow> head \<Rightarrow> string
    \<Rightarrow> request \<Rightarrow> head \<times> start_reply reply" where
  "start_job env uuid saved ca reach now h job_id rq =
     (if admission_paused h
      then (h, Inl (HttpError 409 (Text (''`burla deploy` is migrating this cluster's history to a ''
             @ ''deployed cluster; retry once it finishes.''))))
      else case check_version (rq_client_version rq) of
        Inl e \<Rightarrow> (h, Inl e)
      | Inr _ \<Rightarrow>
          (case gpu_machine_type (rq_func_gpu rq) (CLOUD_PROVIDER env) of
             Inl (ValueError msg) \<Rightarrow> (h, Inl (HttpError 400 (Text msg)))
           | Inl e \<Rightarrow> (h, Inl (Raised e))
           | Inr _ \<Rightarrow>
               (case get_job_start_response h job_id of
                  (h1, Some r) \<Rightarrow>
                    (h1, Inr \<lparr>st_response = r, st_cluster_ca = ca_for env ca, st_boots = []\<rparr>)
                | (h1, None) \<Rightarrow> start_new_job env uuid saved ca reach now h1 job_id rq)))"

section \<open>The other client endpoints\<close>

definition get_job_doc :: "head \<Rightarrow> string \<Rightarrow> head \<times> (job \<times> int) reply" where
  "get_job_doc h job_id =
     (case get_job h job_id of
        (h1, None) \<Rightarrow> (h1, Inl (HttpError 404 (Text ''job not found'')))
      | (h1, Some v) \<Rightarrow> (h1, Inr v))"

text \<open>The body's fields, \<open>fail_reason_append\<close> apart; the result is whether a job was updated.\<close>

definition patch_job_doc :: "real \<Rightarrow> head \<Rightarrow> string \<Rightarrow> job_field list \<Rightarrow> string option \<Rightarrow> head \<times> bool" where
  "patch_job_doc now h job_id body fail_reason =
     (if body = [] \<and> fail_reason = None then (h, False) else update_job now h job_id body fail_reason)"

record cluster_view =
  cv_booting_count :: int
  cv_running_count :: int
  cv_ready_nodes :: "node list"
  cv_cluster_ca :: "string option"

fun view_step :: "real \<Rightarrow> int \<times> int \<times> node list \<Rightarrow> node \<Rightarrow> int \<times> int \<times> node list" where
  "view_step now (b, r, ready) n =
     (if n_status n = Some BOOTING \<and> \<not> n_loaded_from_history n then (b + 1, r, ready)
      else if n_status n = Some RUNNING \<and> node_is_fresh now n then (b, r + 1, ready)
      else if reusable now n then (b, r, ready @ [n]) else (b, r, ready))"

definition get_cluster_state :: "head_env \<Rightarrow> string \<Rightarrow> real \<Rightarrow> head \<Rightarrow> cluster_view" where
  "get_cluster_state env ca now h =
     (let (b, r, ready) = foldl (view_step now) (0, 0, []) (list_nodes h)
      in \<lparr>cv_booting_count = b, cv_running_count = r, cv_ready_nodes = ready,
          cv_cluster_ca = ca_for env ca\<rparr>)"

text \<open>A node's live state; \<open>stored\<close> is what \<open>history.management_node\<close> returns for it.\<close>

definition get_cluster_node :: "head \<Rightarrow> string \<Rightarrow> bool \<Rightarrow> node option \<Rightarrow> node reply" where
  "get_cluster_node h node_id include_deleted stored =
     (let data = (case get_node h node_id of
                    Some n \<Rightarrow> Some n | None \<Rightarrow> if include_deleted then stored else None)
      in case data of None \<Rightarrow> Inl (HttpError 404 (Text ''node not found'')) | Some n \<Rightarrow> Inr n)"

definition get_job_nodes :: "head \<Rightarrow> string \<Rightarrow> job_node_row list" where
  "get_job_nodes h job_id = nodes_for_job h job_id"

definition list_cluster_nodes :: "head \<Rightarrow> node list" where
  "list_cluster_nodes h = list_nodes h"

text \<open>Marks the node FAILED; the flag is whether a reason is logged, and the VM deletion follows.\<close>

definition fail_cluster_node :: "head \<Rightarrow> string \<Rightarrow> string option \<Rightarrow> head \<times> node \<times> bool" where
  "fail_cluster_node h node_id reason =
     (let (h1, n) = update_node h node_id [NStatus (Some FAILED)]
      in (h1, n, get_or [] reason \<noteq> []))"

end
