(* ===== verification/Node_Endpoints.thy ===== *)
theory Node_Endpoints
  imports Job_Start Mint_Controller
begin

text \<open>
  The endpoints the node services call, \<open>endpoints/nodes.py\<close>: the state push, log batches, self
  deletion, minting slots and booting replacement nodes. No handler awaits between reading the state
  and writing it, so each is one function of the head's state (and of the mint controllers). The VM
  calls, the Azure lease and the relay are parameters; the certificate, the source tarball and the
  metrics batch only pass data to code outside this model and are left out.
\<close>

section \<open>The state push\<close>

definition NODE_STATE_FIELDS :: "string list" where
  "NODE_STATE_FIELDS =
     [''status'', ''current_job'', ''reserved_for_job'', ''started_booting_at'', ''ended_at'']"

record push_body =
  pb_fields :: "node_field list"
  pb_job_progress :: "(string \<times> progress_report) option"
  pb_delete_lease_expires_at :: "real option"

definition pushed_fields :: "push_body \<Rightarrow> node_field list" where
  "pushed_fields body = filter (\<lambda>u. node_key u \<in> set NODE_STATE_FIELDS) (pb_fields body)"

definition push_progress :: "real \<Rightarrow> head \<Rightarrow> string \<Rightarrow> push_body \<Rightarrow> head" where
  "push_progress now h name body =
     (case pb_job_progress body of
        None \<Rightarrow> h
      | Some (job_id, report) \<Rightarrow> update_job_progress now h job_id name report)"

definition scope_reason :: "string \<Rightarrow> reason" where
  "scope_reason scope = Reason ''job_scope_finished'' ''node_state''
     (''The grow node finished job '' @ scope @ '' and was deleted.'')"

text \<open>
  A node booted for one job is deleted once that job is over or the node has no assignment left. The
  flag says that the VM deletion is added as a background task.
\<close>

definition scope_check :: "real \<Rightarrow> head \<Rightarrow> string \<Rightarrow> node \<Rightarrow> head \<times> node \<times> bool" where
  "scope_check now h name merged =
     (if truthy (n_job_scope_id merged) \<and> is_live merged then
        (case get_job h (the (n_job_scope_id merged)) of
           (h1, job) \<Rightarrow>
             (let assignment_finished =
                    (\<not> truthy (n_current_job merged) \<and> \<not> truthy (n_reserved_for_job merged))
              in if (case job of None \<Rightarrow> True | Some (j, _) \<Rightarrow> j_status j \<noteq> Some JOB_RUNNING)
                    \<or> assignment_finished
                 then (case update_node h1 name
                         [NStatus (Some DELETED), NEndedAt (Some now),
                          NTerminalReason (Some (scope_reason (the (n_job_scope_id merged))))] of
                         (h2, merged2) \<Rightarrow> (h2, merged2, True))
                 else (h1, merged, False)))
      else (h, merged, False))"

text \<open>The Azure delete lease: what the credential library hands out, and when it is refreshed.\<close>

record lease =
  le_access_token :: string
  le_delete_at :: real
  le_expires_at :: real
  le_vm_id :: string

definition DELETE_LEASE_REFRESH_SEC :: real where "DELETE_LEASE_REFRESH_SEC = 240"

record lease_env =
  client_hosted :: bool
  token_ok :: bool
  azure_lease :: "string \<Rightarrow> string option \<Rightarrow> lease reply"

definition lease_step ::
  "head_env \<Rightarrow> lease_env \<Rightarrow> real \<Rightarrow> string \<Rightarrow> node \<Rightarrow> push_body \<Rightarrow> lease option reply" where
  "lease_step env le now name merged body =
     (if CLOUD_PROVIDER env = ''azure'' \<and> client_hosted le then
        (case pb_delete_lease_expires_at body of
           None \<Rightarrow> Inr None
         | Some expires \<Rightarrow>
             if expires - now \<le> DELETE_LEASE_REFRESH_SEC then
               (if \<not> token_ok le
                then Inl (HttpError 403 (Text ''Node token required for Azure lease''))
                else bind_err (azure_lease le name (n_zone merged)) (\<lambda>l.
                       Inr (if le_expires_at l > expires then Some l else None)))
             else Inr None)
      else Inr None)"

record push_reply =
  pu_status :: "node_status option"
  pu_host :: "string option"
  pu_reserved_for_job :: "string option"
  pu_job :: "job_view_t option option"
  pu_shed_slots :: "int option"
  pu_delete_lease :: "lease option"

text \<open>
  The result: the head, the mint controllers, whether the VM is to be deleted, and the reply. In the
  reply \<open>{"exists": False}\<close> is \<open>Some None\<close>.
\<close>

definition push_node_state ::
  "head_env \<Rightarrow> lease_env \<Rightarrow> real \<Rightarrow> head \<Rightarrow> mint dict \<Rightarrow> string \<Rightarrow> push_body
    \<Rightarrow> head \<times> mint dict \<times> bool \<times> push_reply reply" where
  "push_node_state env le now h cs name body =
     (let (h1, merged1) = record_node_push now h name (pushed_fields body);
          h2 = push_progress now h1 name body;
          (h3, merged, delete_vm) = scope_check now h2 name merged1;
          job_id = (case pb_job_progress body of
                      Some (k, _) \<Rightarrow> if k \<noteq> [] then Some k else n_current_job merged
                    | None \<Rightarrow> n_current_job merged);
          (h4, view) = (if truthy job_id
             then (case job_view now h3 (the job_id) of (h, v) \<Rightarrow> (h, Some v)) else (h3, None));
          (cs1, shed) = (if truthy job_id then take_shed cs (the job_id) name else (cs, 0))
      in (h4, cs1, delete_vm,
          bind_err (lease_step env le now name merged body) (\<lambda>l.
            Inr \<lparr>pu_status = n_status merged, pu_host = n_host merged,
                 pu_reserved_for_job = n_reserved_for_job merged, pu_job = view,
                 pu_shed_slots = (if shed \<noteq> 0 then Some shed else None), pu_delete_lease = l\<rparr>)))"

section \<open>Logs\<close>

record node_log =
  lg_ts :: "real option"
  lg_msg :: string
  lg_debug :: "(string \<times> string) list"

text \<open>The debug entries with their time, and the user's log lines.\<close>

definition push_node_logs :: "node_log list \<Rightarrow> ((string \<times> string) list \<times> real option) list \<times> node_log list" where
  "push_node_logs logs =
     (map (\<lambda>l. (ddel ''ts'' (lg_debug l), lg_ts l)) (filter (\<lambda>l. lg_debug l \<noteq> []) logs),
      filter (\<lambda>l. lg_debug l = []) logs)"

section \<open>Self deletion\<close>

text \<open>\<open>vm_deleted\<close> is whether the provider's deletion returned; if it raises, the status stays.\<close>

definition self_delete_node :: "(string \<Rightarrow> string option \<Rightarrow> bool) \<Rightarrow> head \<Rightarrow> string \<Rightarrow> head" where
  "self_delete_node vm_deleted h name =
     (if vm_deleted name (case get_node h name of None \<Rightarrow> None | Some n \<Rightarrow> n_zone n)
      then fst (update_node h name [NStatus (Some DELETED)]) else h)"

definition get_job_peers :: "real \<Rightarrow> head \<Rightarrow> string \<Rightarrow> peer list \<times> string list" where
  "get_job_peers now h job_id = peers_for_job now h job_id"

section \<open>Minting slots\<close>

definition mint_slots ::
  "real \<Rightarrow> head \<Rightarrow> mint dict \<Rightarrow> string \<Rightarrow> string \<Rightarrow> int \<Rightarrow> head \<times> mint dict \<times> int reply" where
  "mint_slots now h cs job_id requesting_node slots_requested =
     (if slots_requested \<le> 0
      then (h, cs, Inl (HttpError 400 (Text ''slots_requested must be > 0'')))
      else (case get_job h job_id of
              (h1, job) \<Rightarrow>
                if (case job of None \<Rightarrow> True | Some (j, _) \<Rightarrow> j_status j \<noteq> Some JOB_RUNNING)
                then (h1, cs, Inl (HttpError 409 (Text ''job is not RUNNING'')))
                else (case grant_slots now cs job_id requesting_node slots_requested of
                        (cs1, granted) \<Rightarrow> (h1, cs1, Inr granted))))"

section \<open>Replacement nodes\<close>

record replacement_body =
  rb_requesting_node :: string
  rb_missing_slots :: int
  rb_request_id :: string
  rb_slots_per_node :: "int option"

record replacement_reply =
  rr_booted :: "planned_node list"
  rr_slots_booted :: int
  rr_boots :: "boot_order list"

text \<open>\<open>get_node(requesting_node)["machine_type"]\<close>\<close>

definition requester_machine :: "head \<Rightarrow> string \<Rightarrow> string result" where
  "requester_machine h name =
     (case get_node h name of
        None \<Rightarrow> Inl (TypeError ''NoneType is not subscriptable'')
      | Some n \<Rightarrow> (case n_machine_type n of None \<Rightarrow> Inl (KeyError ''machine_type'') | Some mt \<Rightarrow> Inr mt))"

text \<open>Planning, booting and recording, once the request is known to be new.\<close>

definition plan_replacement ::
  "head_env \<Rightarrow> (nat \<Rightarrow> string) \<Rightarrow> cluster_config \<Rightarrow> head \<Rightarrow> job \<Rightarrow> replacement_body
    \<Rightarrow> (planned_node list \<times> int \<times> int) result" where
  "plan_replacement env uuid config h j body =
     bind_err (requester_machine h (rb_requesting_node body)) (\<lambda>mt.
     bind_err (plan_grow_nodes env uuid (rb_missing_slots body) (j_func_cpu j) (j_func_ram j)
         (j_func_gpu j) config (j_grow_cpus_remaining j) (j_grow_gpus_remaining j)
         (rb_slots_per_node body) mt) (\<lambda>planned.
     bind_err (planned_cpu_count planned) (\<lambda>c.
     bind_err (planned_gpu_count planned) (\<lambda>g. Inr (planned, c, g)))))"

definition boot_new_replacement ::
  "head_env \<Rightarrow> (nat \<Rightarrow> string) \<Rightarrow> cluster_config \<Rightarrow> head \<Rightarrow> string \<Rightarrow> job \<Rightarrow> replacement_body
    \<Rightarrow> head \<times> replacement_reply reply" where
  "boot_new_replacement env uuid saved h job_id j body =
     (let config = config_with_job_overrides saved (j_region j) (j_disk_gb j)
      in case plan_replacement env uuid config h j body of
           Inl e \<Rightarrow> (h, Inl (Raised e))
         | Inr (planned, cpus_booted, gpus_booted) \<Rightarrow>
             if planned = []
             then (h, Inl (HttpError 409 (Text ''replacement refused: grow budget exhausted'')))
             else (let slots = sum_list (map pl_target_parallelism planned)
                   in (record_replacement_request h job_id (rb_requesting_node body)
                         \<lparr>rp_request_id = rb_request_id body, rp_booted = planned, rp_slots_booted = slots\<rparr>
                         cpus_booted gpus_booted,
                       Inr \<lparr>rr_booted = planned, rr_slots_booted = slots,
                            rr_boots = [boot_order_of config job_id (j_image j) planned]\<rparr>)))"

definition boot_replacement_nodes ::
  "head_env \<Rightarrow> (nat \<Rightarrow> string) \<Rightarrow> cluster_config \<Rightarrow> head \<Rightarrow> string \<Rightarrow> replacement_body
    \<Rightarrow> head \<times> replacement_reply reply" where
  "boot_replacement_nodes env uuid saved h job_id body =
     (if rb_missing_slots body \<le> 0
      then (h, Inl (HttpError 400 (Text ''missing_slots must be > 0'')))
      else if admission_paused h
      then (h, Inl (HttpError 409 (Text ''job admission is paused'')))
      else (case get_job h job_id of
              (h1, None) \<Rightarrow> (h1, Inl (HttpError 409 (Text ''job is not RUNNING with grow=True'')))
            | (h1, Some (j, _)) \<Rightarrow>
                if j_status j \<noteq> Some JOB_RUNNING \<or> \<not> j_grow j
                then (h1, Inl (HttpError 409 (Text ''job is not RUNNING with grow=True'')))
                else (case map_of (j_replacement_requests j) (rb_requesting_node body) of
                        Some r \<Rightarrow>
                          if rp_request_id r = rb_request_id body
                          then (h1, Inr \<lparr>rr_booted = rp_booted r, rr_slots_booted = rp_slots_booted r,
                                      rr_boots = []\<rparr>)
                          else boot_new_replacement env uuid saved h1 job_id j body
                      | None \<Rightarrow> boot_new_replacement env uuid saved h1 job_id j body)))"

end
