(* ===== verification/Start_Properties.thy ===== *)
theory Start_Properties
  imports Job_Start Job_Cascade
begin

text \<open>
  The properties of starting a job: what a successful start promises the client, that replays are
  harmless, that a refused start changes nothing, and what the selection of ready nodes achieves.
\<close>

section \<open>Selecting nodes\<close>

definition choice :: "node \<Rightarrow> string \<Rightarrow> int \<Rightarrow> ready_choice" where
  "choice n mt p = \<lparr>rc_instance_name = n_instance_name n, rc_host = n_host n, rc_machine_type = mt,
     rc_target_parallelism = p\<rparr>"

lemma take_nodes_Cons:
  assumes "take_nodes fc fr limit s (n # ns) = Inr (cs, tot)"
  obtains (full) "limit \<le> s" "cs = []" "tot = s"
  | (skip) mt cap where "s < limit" "n_machine_type n = Some mt" "parallelism_capacity mt fc fr = Inr cap"
      "cap \<le> 0" "take_nodes fc fr limit s ns = Inr (cs, tot)"
  | (pick) mt cap cs' where "s < limit" "n_machine_type n = Some mt" "parallelism_capacity mt fc fr = Inr cap"
      "0 < cap" "take_nodes fc fr limit (s + min (limit - s) cap) ns = Inr (cs', tot)"
      "cs = choice n mt (min (limit - s) cap) # cs'"
proof (cases "limit \<le> s")
  case True
  then have "cs = []" "tot = s" using assms by (simp_all add: Let_def)
  then show thesis by (rule full [OF True])
next
  case False
  then have lim: "\<not> limit - s \<le> 0" by simp
  obtain mt where m: "n_machine_type n = Some mt"
    using assms lim by (cases "n_machine_type n") (simp_all add: Let_def)
  obtain cap where "parallelism_capacity mt fc fr = Inr cap"
    using assms lim m by (cases "parallelism_capacity mt fc fr") (simp_all add: Let_def)
  note mt = m this
  show thesis
  proof (cases "cap \<le> 0")
    case True
    then have "take_nodes fc fr limit s ns = Inr (cs, tot)" using assms lim mt by (simp add: Let_def)
    then show thesis using skip [OF _ mt True] False by simp
  next
    case pos: False
    then have "\<not> min (limit - s) cap \<le> 0" using False by simp
    with assms lim mt obtain cs' where cs: "take_nodes fc fr limit (s + min (limit - s) cap) ns = Inr (cs', tot)"
      "cs = choice n mt (min (limit - s) cap) # cs'"
      by (auto simp: Let_def bind_err_eq_Inr choice_def)
    then show thesis using pick [OF _ mt _ cs] False pos by simp
  qed
qed

lemma take_nodes_total:
  "take_nodes fc fr limit s ns = Inr (cs, tot) \<Longrightarrow>
     tot = s + (\<Sum>c\<leftarrow>cs. rc_target_parallelism c) \<and> (s \<le> limit \<longrightarrow> tot \<le> limit)"
proof (induction ns arbitrary: s cs)
  case (Cons n ns)
  from Cons.prems show ?case
  proof (cases rule: take_nodes_Cons)
    case (skip mt cap)
    then show ?thesis using Cons.IH by blast
  next
    case (pick mt cap cs')
    from Cons.IH [OF pick(5)] pick(1,4,6) show ?thesis by (auto simp: choice_def)
  qed simp
qed simp

text \<open>Each choice is a node of the list, given no more than its capacity.\<close>

definition fair_choice :: "func_res \<Rightarrow> func_res \<Rightarrow> node list \<Rightarrow> ready_choice \<Rightarrow> bool" where
  "fair_choice fc fr ns c \<longleftrightarrow> (\<exists>n \<in> set ns. rc_instance_name c = n_instance_name n
     \<and> rc_host c = n_host n \<and> n_machine_type n = Some (rc_machine_type c)
     \<and> (\<exists>cap. parallelism_capacity (rc_machine_type c) fc fr = Inr cap
          \<and> 0 < rc_target_parallelism c \<and> rc_target_parallelism c \<le> cap))"

lemma fair_choice_mono: "fair_choice fc fr ns c \<Longrightarrow> set ns \<subseteq> set ms \<Longrightarrow> fair_choice fc fr ms c"
  unfolding fair_choice_def by blast

lemma take_nodes_fair: "take_nodes fc fr limit s ns = Inr (cs, tot) \<Longrightarrow> c \<in> set cs \<Longrightarrow> fair_choice fc fr ns c"
proof (induction ns arbitrary: s cs)
  case (Cons n ns)
  from Cons.prems(1) show ?case
  proof (cases rule: take_nodes_Cons)
    case full
    then show ?thesis using Cons.prems(2) by simp
  next
    case (skip mt cap)
    then show ?thesis using Cons.IH [OF skip(5) Cons.prems(2)] by (rule_tac fair_choice_mono) auto
  next
    case (pick mt cap cs')
    show ?thesis
    proof (cases "c \<in> set cs'")
      case True
      from Cons.IH [OF pick(5) True] show ?thesis by (rule fair_choice_mono) auto
    next
      case False
      then have "c = choice n mt (min (limit - s) cap)" using Cons.prems(2) pick(6) by simp
      then show ?thesis using pick(1-4) by (auto simp: fair_choice_def choice_def)
    qed
  qed
qed simp

lemma take_nodes_subseq:
  "take_nodes fc fr limit s ns = Inr (cs, tot) \<Longrightarrow> subseq (map rc_instance_name cs) (map n_instance_name ns)"
proof (induction ns arbitrary: s cs)
  case (Cons n ns)
  from Cons.prems show ?case
  proof (cases rule: take_nodes_Cons)
    case (skip mt cap)
    then show ?thesis using Cons.IH by auto
  next
    case (pick mt cap cs')
    then show ?thesis using Cons.IH [OF pick(5)] by (simp add: choice_def)
  qed simp
qed simp

lemma sum_nonneg_choices:
  "take_nodes fc fr limit s ns = Inr (cs, tot) \<Longrightarrow> 0 \<le> (\<Sum>c\<leftarrow>cs. rc_target_parallelism c)"
  using take_nodes_fair by (intro sum_list_nonneg) (fastforce simp: fair_choice_def)

text \<open>The selection stops short of the limit only after taking every node in full.\<close>

lemma take_nodes_greedy:
  "take_nodes fc fr limit s ns = Inr (cs, tot) \<Longrightarrow> tot < limit \<Longrightarrow> n \<in> set ns \<Longrightarrow>
     \<exists>mt cap. n_machine_type n = Some mt \<and> parallelism_capacity mt fc fr = Inr cap
       \<and> (0 < cap \<longrightarrow> choice n mt cap \<in> set cs)"
proof (induction ns arbitrary: s cs)
  case (Cons m ns)
  from Cons.prems(1) show ?case
  proof (cases rule: take_nodes_Cons)
    case full
    then show ?thesis using Cons.prems(2) by simp
  next
    case (skip mt cap)
    then show ?thesis using Cons.IH [OF skip(5) Cons.prems(2)] Cons.prems(3) by auto
  next
    case (pick mt cap cs')
    have "min (limit - s) cap = cap"
      using take_nodes_total [OF pick(5)] sum_nonneg_choices [OF pick(5)] Cons.prems(2) by auto
    then show ?thesis using Cons.IH [OF pick(5) Cons.prems(2)] Cons.prems(3) pick(2-6) by auto
  qed
qed simp

text \<open>The nodes a request may be served from.\<close>

definition eligible :: "head_env \<Rightarrow> real \<Rightarrow> head \<Rightarrow> request \<Rightarrow> string option \<Rightarrow> node \<Rightarrow> bool" where
  "eligible env now h rq machine_prefix n \<longleftrightarrow> n \<in> set (list_nodes h) \<and> reusable now n
     \<and> (truthy (rq_image rq) \<longrightarrow> the (rq_image rq) \<in> set (n_images n))
     \<and> (truthy machine_prefix \<longrightarrow> prefix (the machine_prefix) (get_or [] (n_machine_type n)))
     \<and> (truthy (rq_region rq) \<longrightarrow> n_gcp_region n = rq_region rq)"

lemma select_ready_nodes_parts:
  assumes "select_ready_nodes env now h rq = Inr se"
  obtains mp where "gpu_machine_prefix (rq_func_gpu rq) (CLOUD_PROVIDER env) = Inr mp"
    "set (se_after_filters se) = {n. eligible env now h rq mp n}"
    "subseq (se_after_filters se) (list_nodes h)"
    "take_nodes (rq_func_cpu rq) (rq_func_ram rq) (max_parallelism_of rq) 0 (se_after_filters se)
       = Inr (se_selected se, se_total se)"
proof -
  from assms obtain mp where mp: "gpu_machine_prefix (rq_func_gpu rq) (CLOUD_PROVIDER env) = Inr mp"
    by (cases "gpu_machine_prefix (rq_func_gpu rq) (CLOUD_PROVIDER env)") (auto simp: select_ready_nodes_def)
  let ?ns = "region_filter (rq_region rq) (prefix_filter mp (image_filter (rq_image rq)
    (filter (reusable now) (list_nodes h))))"
  have f: "se_after_filters se = ?ns" and t: "take_nodes (rq_func_cpu rq) (rq_func_ram rq)
      (max_parallelism_of rq) 0 ?ns = Inr (se_selected se, se_total se)"
    using assms by (auto simp: select_ready_nodes_def mp Let_def bind_err_eq_Inr)
  have sub: "subseq ?ns (list_nodes h)"
    by (auto simp: region_filter_def prefix_filter_def image_filter_def
        intro: subseq_filter_left subseq_order.trans)
  have mem: "set ?ns = {n. eligible env now h rq mp n}"
    by (auto simp: eligible_def region_filter_def prefix_filter_def image_filter_def)
  show thesis by (rule that [OF mp]) (use f t sub mem in simp_all)
qed

text \<open>
  Node selection is fair and greedy: every selected node is an idle, fresh READY node that
  matches the request's image, GPU and region filters, it gets between one call and what the machine
  can run, the shares add up to the total and to at most the requested parallelism, and the total
  falls short only when every eligible node is used in full.
\<close>

theorem selection_is_fair_and_greedy:
  assumes "select_ready_nodes env now h rq = Inr se" "0 \<le> max_parallelism_of rq"
  shows "\<exists>mp. gpu_machine_prefix (rq_func_gpu rq) (CLOUD_PROVIDER env) = Inr mp \<and>
    (\<forall>c \<in> set (se_selected se). \<exists>n. eligible env now h rq mp n \<and> rc_instance_name c = n_instance_name n \<and>
       n_machine_type n = Some (rc_machine_type c) \<and>
       (\<exists>cap. parallelism_capacity (rc_machine_type c) (rq_func_cpu rq) (rq_func_ram rq) = Inr cap \<and>
          0 < rc_target_parallelism c \<and> rc_target_parallelism c \<le> cap)) \<and>
    se_total se = (\<Sum>c\<leftarrow>se_selected se. rc_target_parallelism c) \<and> se_total se \<le> max_parallelism_of rq \<and>
    (se_total se < max_parallelism_of rq \<longrightarrow> (\<forall>n. eligible env now h rq mp n \<longrightarrow>
       (\<exists>mt cap. n_machine_type n = Some mt \<and>
          parallelism_capacity mt (rq_func_cpu rq) (rq_func_ram rq) = Inr cap \<and>
          (0 < cap \<longrightarrow> choice n mt cap \<in> set (se_selected se)))))"
proof -
  obtain mp where mp: "gpu_machine_prefix (rq_func_gpu rq) (CLOUD_PROVIDER env) = Inr mp"
    and mem: "set (se_after_filters se) = {n. eligible env now h rq mp n}"
    and t: "take_nodes (rq_func_cpu rq) (rq_func_ram rq) (max_parallelism_of rq) 0 (se_after_filters se)
       = Inr (se_selected se, se_total se)"
    by (rule select_ready_nodes_parts [OF assms(1)])
  show ?thesis
  proof (intro exI [of _ mp] conjI ballI impI allI)
    show "gpu_machine_prefix (rq_func_gpu rq) (CLOUD_PROVIDER env) = Inr mp" by (rule mp)
    show "se_total se = (\<Sum>c\<leftarrow>se_selected se. rc_target_parallelism c)" "se_total se \<le> max_parallelism_of rq"
      using take_nodes_total [OF t] assms(2) by simp_all
    show "\<exists>n. eligible env now h rq mp n \<and> rc_instance_name c = n_instance_name n \<and>
       n_machine_type n = Some (rc_machine_type c) \<and>
       (\<exists>cap. parallelism_capacity (rc_machine_type c) (rq_func_cpu rq) (rq_func_ram rq) = Inr cap \<and>
          0 < rc_target_parallelism c \<and> rc_target_parallelism c \<le> cap)"
      if "c \<in> set (se_selected se)" for c
      using take_nodes_fair [OF t that] unfolding fair_choice_def mem by blast
    show "\<exists>mt cap. n_machine_type n = Some mt \<and>
          parallelism_capacity mt (rq_func_cpu rq) (rq_func_ram rq) = Inr cap \<and>
          (0 < cap \<longrightarrow> choice n mt cap \<in> set (se_selected se))"
      if "se_total se < max_parallelism_of rq" "eligible env now h rq mp n" for n
      using take_nodes_greedy [OF t that(1), of n] that(2) mem by blast
  qed
qed

definition demo_request :: request where
  "demo_request =
     \<lparr>rq_func_cpu = Fixed 1, rq_func_ram = Dynamic, rq_n_inputs = 5, rq_max_parallelism = None,
      rq_grow = True, rq_image = None, rq_func_gpu = None, rq_region = None, rq_disk_gb = None,
      rq_client_version = ''1.8.0'', rq_user = ''a@b.c'', rq_function_name = ''f'',
      rq_started_at = None, rq_is_background_job = False, rq_parent_job_id = None\<rparr>"

lemma demo_selection:
  "select_ready_nodes example_env 12 demo_ready demo_request =
     Inr \<lparr>se_selected = [\<lparr>rc_instance_name = ''n1'', rc_host = Some ''h1'',
            rc_machine_type = ''n4-standard-2'', rc_target_parallelism = 2\<rparr>],
          se_total = 2, se_after_filters = list_nodes demo_ready, se_after_gpu = list_nodes demo_ready,
          se_after_image = list_nodes demo_ready, se_unfiltered = list_nodes demo_ready\<rparr>"
  by code_simp

theorem selection_is_fair_and_greedy_witness:
  "\<exists>n. eligible example_env 12 demo_ready demo_request None n \<and> n_instance_name n = ''n1''"
proof -
  have "0 \<le> max_parallelism_of demo_request" by code_simp
  moreover have "gpu_machine_prefix (rq_func_gpu demo_request) (CLOUD_PROVIDER example_env) = Inr None"
    by code_simp
  ultimately show ?thesis
    using selection_is_fair_and_greedy [OF demo_selection] by auto
qed


section \<open>Starting a job\<close>

lemma start_job_fresh:
  assumes "job_lookup h k = None" "start_job env uuid saved ca reach now h k rq = (h', Inr r)"
  shows "\<not> admission_paused h" "check_version (rq_client_version rq) = Inr ()"
    "start_new_job env uuid saved ca reach now h k rq = (h', Inr r)"
  using assms
  by (auto simp: start_job_def get_job_start_response_def get_or_load_None
      split: sum.splits if_splits py_error.splits)

lemma plan_grow_has_config:
  "plan_grow_if_needed env uuid saved h t rq = Inr (planned, c, g, cfg) \<Longrightarrow> planned \<noteq> [] \<Longrightarrow>
     cfg = Some (config_with_job_overrides saved (rq_region rq) (rq_disk_gb rq))"
  by (auto simp: plan_grow_if_needed_def Let_def bind_err_eq_Inr split: if_splits)

definition planned_for ::
  "head_env \<Rightarrow> (nat \<Rightarrow> string) \<Rightarrow> cluster_config \<Rightarrow> head \<Rightarrow> int \<Rightarrow> request
    \<Rightarrow> (planned_node list \<times> int option \<times> int option \<times> cluster_config option) result" where
  "planned_for env uuid saved h t rq =
     (if rq_grow rq then plan_grow_if_needed env uuid saved h t rq else Inr ([], None, None, None))"

definition boots_for :: "cluster_config \<Rightarrow> string \<Rightarrow> request \<Rightarrow> planned_node list \<Rightarrow> boot_order list" where
  "boots_for saved k rq planned =
     (if planned = [] then []
      else [boot_order_of (config_with_job_overrides saved (rq_region rq) (rq_disk_gb rq)) k
              (rq_image rq) planned])"

lemma start_new_job_success:
  assumes new: "Option.bind (job_lookup h k) j_start_response = None"
    and start: "start_new_job env uuid saved ca reach now h k rq = (h', Inr r)"
  obtains se planned c g cfg j where
    "select_ready_nodes env now h rq = Inr se"
    "planned_for env uuid saved h (se_total se) rq = Inr (planned, c, g, cfg)"
    "j = new_job now rq (se_total se) c g (st_response r)"
    "st_response r = \<lparr>sr_ready_nodes = se_selected se,
       sr_booting_nodes = map (\<lambda>p. (pl_instance_name p, pl_target_parallelism p)) planned\<rparr>"
    "admit_job now h k j (map rc_instance_name (se_selected se)) = (h', True, Some (st_response r))"
    "st_boots r = boots_for saved k rq planned"
proof -
  obtain se where se: "select_ready_nodes env now h rq = Inr se"
    using start by (cases "select_ready_nodes env now h rq") (auto simp: start_new_job_def)
  note s1 = start [unfolded start_new_job_def se sum.case planned_for_def [symmetric]]
  have g1: "\<not> (se_selected se = [] \<and> \<not> rq_grow rq)" using s1 by (auto split: if_splits)
  note s2 = s1 [unfolded if_not_P [OF g1]]
  have g2: "\<not> (rq_grow rq \<and> min (rq_n_inputs rq) (max_parallelism_of rq) > se_total se \<and> reach \<noteq> None)"
    using s2 by (auto split: if_splits)
  note s3 = s2 [unfolded if_not_P [OF g2]]
  obtain planned c g cfg where plan: "planned_for env uuid saved h (se_total se) rq = Inr (planned, c, g, cfg)"
    using s3 by (cases "planned_for env uuid saved h (se_total se) rq") auto
  define resp where "resp = \<lparr>sr_ready_nodes = se_selected se,
       sr_booting_nodes = map (\<lambda>p. (pl_instance_name p, pl_target_parallelism p)) planned\<rparr>"
  define j where "j = new_job now rq (se_total se) c g resp"
  obtain h1 created stored where adm: "admit_job now h k j (map rc_instance_name (se_selected se)) = (h1, created, stored)"
    by (metis prod_cases3)
  have resp: "j_start_response j = Some resp" by (simp add: j_def new_job_def)
  have ok: "admissible now h k (map rc_instance_name (se_selected se))"
  proof (rule ccontr)
    assume "\<not> admissible now h k (map rc_instance_name (se_selected se))"
    from admit_job_refused(3) [OF this, of j] adm new have "stored = None" by (simp split: option.splits)
    then show False using s3 adm plan by (simp add: Let_def resp_def [symmetric] j_def [symmetric])
  qed
  have st: "created" "stored = Some resp" using admit_job_accepted(1,2) [OF ok, of j] adm resp by simp_all
  have r: "r = \<lparr>st_response = resp, st_cluster_ca = ca_for env ca,
      st_boots = (if planned \<noteq> [] then [boot_order_of (the cfg) k (rq_image rq) planned] else [])\<rparr>" "h' = h1"
    using s3 adm plan st by (auto simp: Let_def resp_def [symmetric] j_def [symmetric])
  have "planned \<noteq> [] \<Longrightarrow> cfg = Some (config_with_job_overrides saved (rq_region rq) (rq_disk_gb rq))"
    using plan plan_grow_has_config by (auto simp: planned_for_def split: if_splits)
  then have "st_boots r = boots_for saved k rq planned" by (simp add: r(1) boots_for_def)
  then show thesis
    using that [OF se plan, of j] r st adm by (simp add: resp_def [symmetric] j_def)
qed

lemma subseq_names_distinct:
  assumes "head_inv h" "subseq ns (list_nodes h)" "subseq xs (map n_instance_name ns)"
  shows "distinct xs"
proof -
  have ok: "nodes_ok (NODES h) (hist_nodes h)" using assms(1) by (simp add: head_inv_def)
  have names: "map n_instance_name (map snd (NODES h)) = dkeys (NODES h)"
    using nodes_ok_names [OF ok] nodes_ok_distinct(1) [OF ok] by auto
  have "subseq (map n_instance_name (list_nodes h)) (dkeys (NODES h))"
    unfolding names [symmetric] list_nodes_def by (rule subseq_map) (rule subseq_filter_left)
  then have "subseq xs (dkeys (NODES h))"
    using subseq_map [OF assms(2), of n_instance_name] assms(3) by (blast intro: subseq_order.trans)
  then show ?thesis using nodes_ok_distinct(1) [OF ok] by (auto simp: subseq_conv_nths)
qed

text \<open>What an accepted start means for the nodes it answers with.\<close>

definition serves :: "real \<Rightarrow> head \<Rightarrow> head \<Rightarrow> string \<Rightarrow> string \<Rightarrow> bool" where
  "serves now h h' k name \<longleftrightarrow> (\<exists>n. map_of (NODES h) name = Some n \<and> reusable now n \<and>
     map_of (NODES h') name = Some (n\<lparr>n_reserved_for_job := Some k\<rparr>))"

text \<open>
  C19. A successful first start keeps its promises: the job exists, is RUNNING and carries the
  response it gave; each ready node of the response is named once, was idle, fresh and READY and is
  now reserved for this job, while every other node is untouched; the nodes to boot are exactly the
  booting nodes of the response, with their shares, in one boot order for this job, and a request
  that may not grow boots none.
\<close>

theorem start_job_keeps_its_promise:
  assumes "head_life h" "k \<noteq> []" "job_lookup h k = None"
    and "start_job env uuid saved ca reach now h k rq = (h', Inr r)"
  shows "(\<exists>j. job_lookup h' k = Some j \<and> j_status j = Some JOB_RUNNING \<and>
      j_start_response j = Some (st_response r) \<and> j_n_inputs j = Some (rq_n_inputs rq)) \<and>
    (\<exists>se. select_ready_nodes env now h rq = Inr se \<and> sr_ready_nodes (st_response r) = se_selected se) \<and>
    distinct (map rc_instance_name (sr_ready_nodes (st_response r))) \<and>
    (\<forall>c \<in> set (sr_ready_nodes (st_response r)). serves now h h' k (rc_instance_name c)) \<and>
    (\<forall>name. name \<notin> rc_instance_name ` set (sr_ready_nodes (st_response r)) \<longrightarrow>
      map_of (NODES h') name = map_of (NODES h) name) \<and>
    concat (map (\<lambda>b. zip (bo_names b) (bo_parallelisms b)) (st_boots r)) = sr_booting_nodes (st_response r) \<and>
    (\<forall>b \<in> set (st_boots r). bo_job_id b = k \<and> bo_names b \<noteq> [] \<and> rq_grow rq) \<and> length (st_boots r) \<le> 1"
proof -
  obtain se planned c g cfg j where se: "select_ready_nodes env now h rq = Inr se"
    and plan: "planned_for env uuid saved h (se_total se) rq = Inr (planned, c, g, cfg)"
    and j: "j = new_job now rq (se_total se) c g (st_response r)"
    and resp: "st_response r = \<lparr>sr_ready_nodes = se_selected se,
       sr_booting_nodes = map (\<lambda>p. (pl_instance_name p, pl_target_parallelism p)) planned\<rparr>"
    and adm: "admit_job now h k j (map rc_instance_name (se_selected se)) = (h', True, Some (st_response r))"
    and boots: "st_boots r = boots_for saved k rq planned"
    by (rule start_new_job_success [OF _ start_job_fresh(3) [OF assms(3,4)]]) (simp add: assms(3))
  note excl = admission_is_exclusive_parts [OF assms(1) adm assms(2)]
  obtain mp where sel: "subseq (se_after_filters se) (list_nodes h)"
    "take_nodes (rq_func_cpu rq) (rq_func_ram rq) (max_parallelism_of rq) 0 (se_after_filters se)
       = Inr (se_selected se, se_total se)"
    by (rule select_ready_nodes_parts [OF se])
  have d: "distinct (map rc_instance_name (se_selected se))"
    by (rule subseq_names_distinct [OF head_life_inv [OF assms(1)] sel(1) take_nodes_subseq [OF sel(2)]])
  have sv: "serves now h h' k name" if "name \<in> set (map rc_instance_name (se_selected se))" for name
    using excl(2) [OF that] admit_job_refused(2) [of now h k "map rc_instance_name (se_selected se)" j] adm that
    by (force simp: serves_def reusable_def admissible_def claimable_def split: option.splits)
  have b: "concat (map (\<lambda>b. zip (bo_names b) (bo_parallelisms b)) (st_boots r)) = sr_booting_nodes (st_response r)"
    by (simp add: boots boots_for_def boot_order_of_def resp zip_map_map zip_same_conv_map comp_def)
  have grow: "\<forall>b \<in> set (st_boots r). bo_job_id b = k \<and> bo_names b \<noteq> [] \<and> rq_grow rq"
    using plan by (auto simp: boots boots_for_def boot_order_of_def planned_for_def split: if_splits)
  have job: "\<exists>j. job_lookup h' k = Some j \<and> j_status j = Some JOB_RUNNING \<and>
      j_start_response j = Some (st_response r) \<and> j_n_inputs j = Some (rq_n_inputs rq)"
    using excl(1) by (simp add: j new_job_def)
  show ?thesis
    using job se d sv excl(3) b grow by (auto simp: resp boots boots_for_def)
qed

lemma demo_start:
  "start_job example_env example_uuid example_config ''ca'' None 12 demo_ready ''j1'' demo_request =
     (fst (start_job example_env example_uuid example_config ''ca'' None 12 demo_ready ''j1'' demo_request),
      Inr \<lparr>st_response = \<lparr>sr_ready_nodes = [\<lparr>rc_instance_name = ''n1'', rc_host = Some ''h1'',
              rc_machine_type = ''n4-standard-2'', rc_target_parallelism = 2\<rparr>],
            sr_booting_nodes = [(''burla-node-01234567'', 3)]\<rparr>,
          st_cluster_ca = Some ''ca'',
          st_boots = [\<lparr>bo_config = example_config, bo_job_id = ''j1'', bo_names = [''burla-node-01234567''],
            bo_machine_types = [''n4-standard-4''], bo_image = None, bo_inactivity_sec = 60,
            bo_parallelisms = [3]\<rparr>]\<rparr>)"
  by code_simp

theorem start_job_keeps_its_promise_witness:
  "\<exists>h'. serves 12 demo_ready h' ''j1'' ''n1'' \<and>
     fst (start_job example_env example_uuid example_config ''ca'' None 12 demo_ready ''j1'' demo_request) = h'"
proof -
  have "job_lookup demo_ready ''j1'' = None" by code_simp
  from start_job_keeps_its_promise [OF demo_ready_life _ this demo_start] show ?thesis by simp
qed

text \<open>Everything a refused or replayed start leaves alone: all but the lazily loaded job.\<close>

definition same_head :: "head \<Rightarrow> head \<Rightarrow> bool" where
  "same_head h h' \<longleftrightarrow> NODES h' = NODES h \<and> hist_nodes h' = hist_nodes h \<and> hist_jobs h' = hist_jobs h \<and>
     admission_paused h' = admission_paused h \<and> (\<forall>k. job_lookup h' k = job_lookup h k)"

lemma same_head_refl [simp]: "same_head h h"
  by (simp add: same_head_def)

lemma same_head_trans: "same_head h h' \<Longrightarrow> same_head h' h'' \<Longrightarrow> same_head h h''"
  by (simp add: same_head_def)

lemma same_head_load [simp]: "same_head h (fst (get_or_load_job h k))"
  by (simp add: same_head_def get_or_load_job_lookup)

lemma get_start_response:
  "same_head h (fst (get_job_start_response h k))"
  "snd (get_job_start_response h k) = Option.bind (job_lookup h k) j_start_response"
proof -
  obtain h1 where g: "get_or_load_job h k = (h1, job_lookup h k)"
    by (metis get_or_load_job_lookup(1) prod.collapse)
  show "same_head h (fst (get_job_start_response h k))"
    using same_head_load [of h k] by (simp add: get_job_start_response_def g split: option.splits)
  show "snd (get_job_start_response h k) = Option.bind (job_lookup h k) j_start_response"
    by (simp add: get_job_start_response_def g split: option.splits)
qed

text \<open>The only state change of a first start is the admission.\<close>

lemma start_new_job_state:
  obtains (same) "fst (start_new_job env uuid saved ca reach now h k rq) = h"
  | (admitted) j sel where "j_status j = Some JOB_RUNNING" "j_start_response j \<noteq> None"
      "fst (start_new_job env uuid saved ca reach now h k rq) = fst (admit_job now h k j sel)"
      "isl (snd (start_new_job env uuid saved ca reach now h k rq)) \<longleftrightarrow> snd (snd (admit_job now h k j sel)) = None"
proof (cases "select_ready_nodes env now h rq")
  case (Inr se)
  note d = start_new_job_def Inr sum.case planned_for_def [symmetric]
  let ?stop = "se_selected se = [] \<and> \<not> rq_grow rq"
  let ?far = "rq_grow rq \<and> min (rq_n_inputs rq) (max_parallelism_of rq) > se_total se \<and> reach \<noteq> None"
  show thesis
  proof (cases "?stop \<or> ?far \<or> (\<exists>e. planned_for env uuid saved h (se_total se) rq = Inl e)")
    case True
    then have "fst (start_new_job env uuid saved ca reach now h k rq) = h"
      unfolding d by (elim disjE exE; cases ?stop; cases ?far) simp_all
    then show thesis by (rule same)
  next
    case False
    then have g: "\<not> ?stop" "\<not> ?far" by blast+
    from False obtain planned c g cfg
      where plan: "planned_for env uuid saved h (se_total se) rq = Inr (planned, c, g, cfg)"
      by (metis prod_cases4 sum.exhaust)
    define j where "j = new_job now rq (se_total se) c g \<lparr>sr_ready_nodes = se_selected se,
       sr_booting_nodes = map (\<lambda>p. (pl_instance_name p, pl_target_parallelism p)) planned\<rparr>"
    obtain h1 created stored
      where adm: "admit_job now h k j (map rc_instance_name (se_selected se)) = (h1, created, stored)"
      by (metis prod_cases3)
    have "fst (start_new_job env uuid saved ca reach now h k rq) = h1 \<and>
        (isl (snd (start_new_job env uuid saved ca reach now h k rq)) \<longleftrightarrow> stored = None)"
      unfolding d if_not_P [OF g(1)] if_not_P [OF g(2)] plan
      by (simp add: j_def [symmetric] adm Let_def split: option.splits)
    then show thesis
      using admitted [of j "map rc_instance_name (se_selected se)"] adm by (simp add: j_def new_job_def)
  qed
qed (use same in \<open>simp add: start_new_job_def\<close>)

lemma start_new_job_refused:
  assumes "start_new_job env uuid saved ca reach now h k rq = (h', Inl e)"
  shows "same_head h h'"
proof (cases rule: start_new_job_state [of env uuid saved ca reach now h k rq])
  case (admitted j sel)
  then have "\<not> admissible now h k sel" using admit_job_accepted(2) [of now h k sel j] assms by auto
  then show ?thesis using admitted(3) assms by (simp add: admit_job_refused)
qed (use assms in simp)

lemma start_job_state:
  obtains (early) e where "start_job env uuid saved ca reach now h k rq = (h, Inl e)"
  | (known) h1 r where "get_job_start_response h k = (h1, Some r)"
      "start_job env uuid saved ca reach now h k rq =
         (h1, Inr \<lparr>st_response = r, st_cluster_ca = ca_for env ca, st_boots = []\<rparr>)"
  | (new) h1 where "get_job_start_response h k = (h1, None)"
      "start_job env uuid saved ca reach now h k rq = start_new_job env uuid saved ca reach now h1 k rq"
proof -
  obtain h1 q where g: "get_job_start_response h k = (h1, q)" by (cases "get_job_start_response h k")
  have "(\<exists>e. start_job env uuid saved ca reach now h k rq = (h, Inl e)) \<or>
    start_job env uuid saved ca reach now h k rq = (case q of
       Some r \<Rightarrow> (h1, Inr \<lparr>st_response = r, st_cluster_ca = ca_for env ca, st_boots = []\<rparr>)
     | None \<Rightarrow> start_new_job env uuid saved ca reach now h1 k rq)"
    by (auto simp: start_job_def g split: sum.splits py_error.splits)
  then show thesis using early known [of h1] new [of h1] g by (cases q) auto
qed

lemma start_job_steps: "head_step\<^sup>*\<^sup>* h (fst (start_job env uuid saved ca reach now h k rq))"
proof -
  have rd: "head_step h h1" if "get_job_start_response h k = (h1, r)" for h1 r
    using that job_read [of h k] by (auto simp: get_job_start_response_def split: prod.splits option.splits)
  show ?thesis
  proof (cases rule: start_job_state [of env uuid saved ca reach now h k rq])
    case (new h1)
    have "head_step\<^sup>*\<^sup>* h1 (fst (start_new_job env uuid saved ca reach now h1 k rq))"
      by (cases rule: start_new_job_state [of env uuid saved ca reach now h1 k rq])
        (auto intro: job_admitted)
    then show ?thesis using new rd [OF new(1)] by auto
  qed (use rd in auto)
qed

text \<open>
  C21. A refused start changes nothing: whatever the error (paused admission, version mismatch, no
  node, busy cluster, a budget or machine error), no node, no job and no history row changes, and
  nothing is booted.
\<close>

theorem start_job_refused_changes_nothing:
  assumes "start_job env uuid saved ca reach now h k rq = (h', Inl e)"
  shows "same_head h h'"
proof (cases rule: start_job_state [of env uuid saved ca reach now h k rq])
  case (new h1)
  have "same_head h h1" using get_start_response(1) [of h k] new(1) by simp
  moreover have "same_head h1 h'" using new(2) assms start_new_job_refused by metis
  ultimately show ?thesis by (rule same_head_trans)
qed (use assms in auto)

theorem start_job_refused_changes_nothing_witness:
  "same_head demo_running (fst (start_job example_env example_uuid example_config ''ca'' None 13 demo_running
     ''j2'' (demo_request\<lparr>rq_grow := False\<rparr>)))"
proof -
  have "snd (start_job example_env example_uuid example_config ''ca'' None 13 demo_running
     ''j2'' (demo_request\<lparr>rq_grow := False\<rparr>)) = Inl (HttpError 404 (Text ''no_nodes''))"
    by code_simp
  then show ?thesis using start_job_refused_changes_nothing by (metis prod.collapse)
qed

section \<open>Replays\<close>

text \<open>The response a job was started with never changes, over any run and any number of restarts.\<close>

definition reply_of :: "head \<Rightarrow> string \<Rightarrow> start_response option option" where
  "reply_of h k = map_option j_start_response (job_lookup h k)"

definition reply_edge :: "start_response option option \<Rightarrow> start_response option option \<Rightarrow> bool" where
  "reply_edge x y \<longleftrightarrow> x = None \<or> y = x"

lemma apply_job_updates_reply [simp]: "j_start_response (apply_job_updates us j) = j_start_response j"
proof (induction us arbitrary: j)
  case (Cons u us)
  then show ?case by (cases u) (simp_all add: apply_job_updates_def)
qed (simp add: apply_job_updates_def)

lemma merged_job_reply [simp]: "j_start_response (merged_job now j us r) = j_start_response j"
  by (simp add: merged_job_def Let_def split: option.splits)

lemma reply_progress [simp]: "reply_of (update_job_progress now h k name p) x = reply_of h x"
  using arg_cong [OF job_lookup_progress, of "map_option j_start_response" now h k name p x]
  by (simp add: reply_of_def option.map_comp comp_def)

lemma reply_moves: "any_step h h' \<Longrightarrow> reply_edge (reply_of h x) (reply_of h' x)"
proof -
  assume st: "any_step h h'"
  then have inv: "head_inv h" by (simp add: any_step_def)
  show ?thesis
  proof (cases "h' = restart h")
    case True
    then show ?thesis
      by (simp add: reply_edge_def reply_of_def restart_job_lookup [OF inv] option.map_comp comp_def)
  next
    case False
    then have "head_step h h'" using st by (simp add: any_step_def)
    then show ?thesis
    proof (induction rule: head_step.induct)
      case (node_updated us h name)
      then show ?case by (simp add: reply_edge_def reply_of_def job_lookup_def update_node_frame cong: option.case_cong)
    next
      case (job_admitted j h now k sel)
      then show ?case by (auto simp: reply_edge_def reply_of_def job_lookup_admit admissible_def)
    next
      case (job_updated us now h k r h' j' kids)
      from job_updated.hyps(2) obtain j where j: "job_lookup h k = Some j" "j' = merged_job now j us r"
        and l: "\<And>x. job_lookup h' x = (if x = k then Some j' else job_lookup h x)"
        by (rule update_job_step_Some) blast
      then show ?case by (auto simp: reply_of_def reply_edge_def)
    next
      case (replaced h k name req c g)
      then show ?case by (auto simp: reply_edge_def reply_of_def job_lookup_replacement option.map_comp comp_def)
    next
      case (progressed h now k name p)
      then show ?case by (simp add: reply_edge_def)
    qed (auto simp: reply_edge_def reply_of_def job_lookup_def get_or_load_job_lookup(2) [unfolded job_lookup_def]
        pause_job_admission_if_idle_def resume_job_admission_def cong: option.case_cong)
  qed
qed

interpretation replies: lifecycle any_step reply_of reply_edge
  by unfold_locales (rule reply_moves)

lemma reply_closed: "replies.closed_set {Some r}"
  by (auto simp: replies.closed_set_def reply_edge_def)

lemma start_job_reply:
  assumes "start_job env uuid saved ca reach now h k rq = (h', Inr r)"
  shows "reply_of h' k = Some (Some (st_response r))" "st_cluster_ca r = ca_for env ca"
    "\<exists>u. check_version (rq_client_version rq) = Inr u"
    "\<exists>t. gpu_machine_type (rq_func_gpu rq) (CLOUD_PROVIDER env) = Inr t"
proof -
  show "\<exists>u. check_version (rq_client_version rq) = Inr u"
    "\<exists>t. gpu_machine_type (rq_func_gpu rq) (CLOUD_PROVIDER env) = Inr t"
    using assms by (auto simp: start_job_def split: if_splits sum.splits py_error.splits)
  have "reply_of h' k = Some (Some (st_response r)) \<and> st_cluster_ca r = ca_for env ca"
  proof (cases rule: start_job_state [of env uuid saved ca reach now h k rq])
    case (known h1 x)
    then have "Option.bind (job_lookup h1 k) j_start_response = Some (st_response r)"
      using assms get_start_response [of h k] by (simp add: same_head_def)
    then show ?thesis using known(2) assms by (auto simp: reply_of_def bind_eq_Some_conv)
  next
    case (new h1)
    then have none: "Option.bind (job_lookup h1 k) j_start_response = None"
      using get_start_response [of h k] by (simp add: same_head_def)
    have start: "start_new_job env uuid saved ca reach now h1 k rq = (h', Inr r)" using assms new by simp
    from start_new_job_success [OF none start] obtain j sel
      where a: "admit_job now h1 k j sel = (h', True, Some (st_response r))" by blast
    have ok: "admissible now h1 k sel" using a admit_job_refused(2) [of now h1 k sel j] by auto
    moreover have "st_cluster_ca r = ca_for env ca"
      using start by (auto simp: start_new_job_def Let_def split: sum.splits if_splits prod.splits option.splits)
    ultimately show ?thesis
      using a admit_job_accepted(2) [OF ok, of j] job_lookup_admit [of now h1 k j sel k]
      by (simp add: reply_of_def)
  qed (use assms in simp)
  then show "reply_of h' k = Some (Some (st_response r))" "st_cluster_ca r = ca_for env ca" by simp_all
qed




section \<open>A gap between planning and booting\<close>

text \<open>
  The budget is read when the job starts, the planned nodes are registered by the background task.
  Two starts in between each get the whole remaining budget: with a cap of 4 vCPUs, two nodes of 4
  vCPUs are ordered.
\<close>

definition small_config :: cluster_config where
  "small_config = example_config\<lparr>cfg_max_vcpus := Some 4\<rparr>"

definition ordered :: "head \<times> start_reply reply \<Rightarrow> string list list" where
  "ordered p = (case snd p of Inl e \<Rightarrow> [] | Inr r \<Rightarrow> map bo_machine_types (st_boots r))"

lemma concurrent_starts_overbook:
  defines "s \<equiv> start_job example_env example_uuid small_config ''ca'' None 12"
  shows "ordered (s first_head ''j1'' demo_request) = [[''n4-standard-4'']]"
    "ordered (s (fst (s first_head ''j1'' demo_request)) ''j2'' demo_request) = [[''n4-standard-4'']]"
  unfolding s_def by code_simp+

end
