(* ===== verification/Push_Properties.thy ===== *)
theory Push_Properties
  imports Node_Endpoints Start_Properties
begin

text \<open>
  What the node endpoints guarantee: exactly the grow nodes without work are deleted, a rolled back
  slot is handed to its node once, and a replacement request is answered once, within its job's
  slots and budget.
\<close>

section \<open>What a push does to the head\<close>

lemma update_node_lookup [simp]: "job_lookup (fst (update_node h name us)) k = job_lookup h k"
  by (simp add: job_lookup_def update_node_frame cong: option.case_cong)

lemma update_node_status_of [simp]: "job_status_of (fst (update_node h name us)) k = job_status_of h k"
  by (simp add: job_status_of_def)

lemma record_push_status_of [simp]: "job_status_of (fst (record_node_push now h name us)) k = job_status_of h k"
  by (simp add: record_node_push_def)

lemma progress_status_of [simp]: "job_status_of (update_job_progress now h k name p) x = job_status_of h x"
  unfolding status_strip job_lookup_progress ..

lemma push_progress_status_of [simp]: "job_status_of (push_progress now h name body) k = job_status_of h k"
  by (auto simp: push_progress_def split: option.splits)

lemma push_progress_nodes [simp]: "NODES (push_progress now h name body) = NODES h"
  by (simp add: push_progress_def split: option.splits)

lemma get_job_facts:
  "NODES (fst (get_job h k)) = NODES h"
  "admission_paused (fst (get_job h k)) = admission_paused h"
  "job_lookup (fst (get_job h k)) x = job_lookup h x"
  "same_head h (fst (get_job h k))"
  "snd (get_job h k) = map_option (\<lambda>j. (j\<lparr>j_assigned_nodes := [], j_start_response := None\<rparr>,
     sum_results (j_assigned_nodes j))) (job_lookup h k)"
proof -
  obtain h1 where g: "get_or_load_job h k = (h1, job_lookup h k)"
    by (metis get_or_load_job_lookup(1) prod.collapse)
  have same: "same_head h h1" using same_head_load [of h k] by (simp add: g del: same_head_load)
  show "snd (get_job h k) = map_option (\<lambda>j. (j\<lparr>j_assigned_nodes := [], j_start_response := None\<rparr>,
     sum_results (j_assigned_nodes j))) (job_lookup h k)"
    by (simp add: get_job_def g split: option.splits)
  show h1: "same_head h (fst (get_job h k))"
    using same by (simp add: get_job_def g split: option.splits)
  show "NODES (fst (get_job h k)) = NODES h"
    "admission_paused (fst (get_job h k)) = admission_paused h"
    "job_lookup (fst (get_job h k)) x = job_lookup h x"
    using h1 by (simp_all add: same_head_def)
qed

lemma get_job_not_running:
  "(case snd (get_job h k) of None \<Rightarrow> True | Some (j, _) \<Rightarrow> j_status j \<noteq> Some JOB_RUNNING) \<longleftrightarrow>
     job_status_of h k \<noteq> Some JOB_RUNNING"
  by (simp add: get_job_facts job_status_of_def split: option.splits)

lemma job_view_nodes [simp]: "NODES (fst (job_view now h k)) = NODES h"
  using get_or_load_job_lookup(3) [of h k]
  by (cases "get_or_load_job h k") (auto simp: job_view_def split: option.splits)

text \<open>Whether a live grow node has nothing left to do.\<close>

definition scope_over :: "head \<Rightarrow> node \<Rightarrow> bool" where
  "scope_over h n \<longleftrightarrow> truthy (n_job_scope_id n) \<and> is_live n \<and>
     (job_status_of h (the (n_job_scope_id n)) \<noteq> Some JOB_RUNNING
      \<or> \<not> truthy (n_current_job n) \<and> \<not> truthy (n_reserved_for_job n))"

lemma is_live_alt: "is_live n \<longleftrightarrow> n_status n \<in> {Some BOOTING, Some READY, Some RUNNING}"
  by (auto simp: is_live_def)

lemma scope_check_cases:
  assumes "scope_check now h name m = (h', m', d)" "map_of (NODES h) name = Some m"
  shows "d \<longleftrightarrow> scope_over h m"
    and "map_of (NODES h') name = Some m'"
    and "n_status m' = (if d then Some DELETED else n_status m)"
    and "n_current_job m' = n_current_job m" "n_host m' = n_host m"
    and "x \<noteq> name \<Longrightarrow> map_of (NODES h') x = map_of (NODES h) x"
proof -
  obtain h1 j where g: "get_job h (the (n_job_scope_id m)) = (h1, j)" by (cases "get_job h (the (n_job_scope_id m))")
  have n1: "NODES h1 = NODES h" using get_job_facts(1) [of h "the (n_job_scope_id m)"] g by simp
  have j: "(case j of None \<Rightarrow> True | Some (j, _) \<Rightarrow> j_status j \<noteq> Some JOB_RUNNING) \<longleftrightarrow>
      job_status_of h (the (n_job_scope_id m)) \<noteq> Some JOB_RUNNING"
    using get_job_not_running [of h "the (n_job_scope_id m)"] g by simp
  have e: "scope_check now h name m =
      (if scope_over h m then
         (fst (update_node h1 name [NStatus (Some DELETED), NEndedAt (Some now),
            NTerminalReason (Some (scope_reason (the (n_job_scope_id m))))]),
          snd (update_node h1 name [NStatus (Some DELETED), NEndedAt (Some now),
            NTerminalReason (Some (scope_reason (the (n_job_scope_id m))))]), True)
       else (if truthy (n_job_scope_id m) \<and> is_live m then h1 else h, m, False))"
    using j by (auto simp: scope_check_def g scope_over_def Let_def split: prod.splits)
  have before: "node_before h1 name = m" using assms(2) n1 by (simp add: node_before_def)
  have upd: "scope_over h m \<Longrightarrow> snd (update_node h1 name [NStatus (Some DELETED), NEndedAt (Some now),
            NTerminalReason (Some r)]) = m\<lparr>n_status := Some DELETED, n_ended_at := Some now,
            n_terminal_reason := Some r\<rparr>" for r
    using assms(2) n1
    by (auto simp: update_node_def Let_def scope_over_def is_live_alt status_refused_def updates_status_def)
  have "d = scope_over h m \<and> map_of (NODES h') name = Some m' \<and>
      n_status m' = (if d then Some DELETED else n_status m) \<and>
      n_current_job m' = n_current_job m \<and> n_host m' = n_host m \<and>
      (x \<noteq> name \<longrightarrow> map_of (NODES h') x = map_of (NODES h) x)"
    using e [unfolded assms(1)] assms(2) n1 upd
    by (cases "scope_over h m"; cases "truthy (n_job_scope_id m) \<and> is_live m") (auto simp: update_node_frame)
  then show "d \<longleftrightarrow> scope_over h m" "map_of (NODES h') name = Some m'"
    "n_status m' = (if d then Some DELETED else n_status m)"
    "n_current_job m' = n_current_job m" "n_host m' = n_host m"
    "x \<noteq> name \<Longrightarrow> map_of (NODES h') x = map_of (NODES h) x"
    by simp_all
qed

definition pushed_job :: "push_body \<Rightarrow> node \<Rightarrow> string option" where
  "pushed_job body m =
     (case pb_job_progress body of
        Some (k, _) \<Rightarrow> if k \<noteq> [] then Some k else n_current_job m
      | None \<Rightarrow> n_current_job m)"

lemma pushed_job_cong: "n_current_job m' = n_current_job m \<Longrightarrow> pushed_job body m' = pushed_job body m"
  by (simp add: pushed_job_def split: option.splits)

lemma push_parts:
  assumes "record_node_push now h name (pushed_fields body) = (h1, m)"
    and "push_node_state env le now h cs name body = (h', cs', d, rep)"
  obtains h3 m' where "scope_check now (push_progress now h1 name body) name m = (h3, m', d)"
    "NODES h' = NODES h3"
    "cs' = (if truthy (pushed_job body m') then fst (take_shed cs (the (pushed_job body m')) name) else cs)"
    "\<forall>r. rep = Inr r \<longrightarrow> pu_status r = n_status m' \<and> get_or 0 (pu_shed_slots r) =
       (if truthy (pushed_job body m') then snd (take_shed cs (the (pushed_job body m')) name) else 0)"
proof -
  obtain h3 m' d' where sc: "scope_check now (push_progress now h1 name body) name m = (h3, m', d')"
    by (metis prod_cases3)
  let ?job = "pushed_job body m'"
  obtain h4 v where v: "job_view now h3 (the ?job) = (h4, v)" by (cases "job_view now h3 (the ?job)")
  then have n4: "NODES h4 = NODES h3" using job_view_nodes [of now h3 "the ?job"] by simp
  obtain cs1 g where g: "take_shed cs (the ?job) name = (cs1, g)" by (cases "take_shed cs (the ?job) name")
  have e: "push_node_state env le now h cs name body =
     (if truthy ?job then h4 else h3, if truthy ?job then cs1 else cs, d',
      bind_err (lease_step env le now name m' body) (\<lambda>l.
        Inr \<lparr>pu_status = n_status m', pu_host = n_host m', pu_reserved_for_job = n_reserved_for_job m',
             pu_job = (if truthy ?job then Some v else None),
             pu_shed_slots = (let s = (if truthy ?job then g else 0) in if s \<noteq> 0 then Some s else None),
             pu_delete_lease = l\<rparr>))"
    by (simp add: push_node_state_def assms(1) sc pushed_job_def [symmetric] v g)
  show thesis
    by (rule that [of h3 m']) (use e [unfolded assms(2)] sc n4 g in \<open>auto simp: bind_err_def Let_def split: sum.splits if_splits\<close>)
qed

lemma push_keeps_the_job:
  assumes "record_node_push now h name (pushed_fields body) = (h1, m)"
    and "scope_check now (push_progress now h1 name body) name m = (h3, m', d)"
  shows "d \<longleftrightarrow> scope_over h m" "map_of (NODES h3) name = Some m'"
    "n_status m' = (if d then Some DELETED else n_status m)" "n_current_job m' = n_current_job m"
    "x \<noteq> name \<Longrightarrow> map_of (NODES h3) x = map_of (NODES h) x"
proof -
  have h1: "h1 = fst (update_node h name (pushed_fields body @ [NLastPushAt (Some now), NLoadedFromHistory False]))"
    "m = snd (update_node h name (pushed_fields body @ [NLastPushAt (Some now), NLoadedFromHistory False]))"
    using assms(1) by (simp_all add: record_node_push_def)
  then have N: "NODES h1 = dset name m (NODES h)" by (simp add: update_node_frame)
  then have "map_of (NODES (push_progress now h1 name body)) name = Some m" by simp
  note sc = scope_check_cases [OF assms(2) this]
  have "scope_over (push_progress now h1 name body) m = scope_over h m"
    by (simp add: scope_over_def h1(1))
  then show "d \<longleftrightarrow> scope_over h m" using sc(1) by simp
  show "map_of (NODES h3) name = Some m'" by (rule sc(2))
  show "n_status m' = (if d then Some DELETED else n_status m)" by (rule sc(3))
  show "n_current_job m' = n_current_job m" by (rule sc(4))
  show "x \<noteq> name \<Longrightarrow> map_of (NODES h3) x = map_of (NODES h) x" using sc(6) N by simp
qed

text \<open>
  A push deletes exactly the grow nodes without work: the node is marked DELETED and its VM
  deletion scheduled if and only if it was booted for one job, is live after the push, and that job
  is not RUNNING or the node is neither assigned nor reserved. In every other case the node keeps the
  status the merge rules gave it, and no other node changes.
\<close>

theorem push_deletes_idle_grow_nodes:
  assumes "record_node_push now h name (pushed_fields body) = (h1, m)"
    and "push_node_state env le now h cs name body = (h', cs', d, rep)"
  shows "(d \<longleftrightarrow> truthy (n_job_scope_id m) \<and> is_live m \<and>
      (job_status_of h (the (n_job_scope_id m)) \<noteq> Some JOB_RUNNING
       \<or> \<not> truthy (n_current_job m) \<and> \<not> truthy (n_reserved_for_job m))) \<and>
    node_status_of h' name = (if d then Some DELETED else n_status m) \<and>
    (\<forall>x. x \<noteq> name \<longrightarrow> map_of (NODES h') x = map_of (NODES h) x)"
proof -
  obtain h3 m' where sc: "scope_check now (push_progress now h1 name body) name m = (h3, m', d)"
    and N: "NODES h' = NODES h3"
    by (rule push_parts [OF assms])
  note k = push_keeps_the_job [OF assms(1) sc]
  show ?thesis using k(1-3,5) by (auto simp: N node_status_of_def scope_over_def)
qed

text \<open>A grow node \<open>g1\<close> booted for the job \<open>j1\<close>, and its push while the job runs.\<close>

definition demo_grown :: head where
  "demo_grown = fst (update_node demo_running ''g1''
     [NStatus (Some READY), NMachineType (Some ''n4-standard-4''), NRegion (Some ''us-central1''),
      NJobScope (Some ''j1''), NReservedForJob (Some ''j1'')])"

definition demo_push :: push_body where
  "demo_push = \<lparr>pb_fields = [NStatus (Some READY), NCurrentJob None, NReservedForJob None],
     pb_job_progress = None, pb_delete_lease_expires_at = None\<rparr>"

definition no_lease :: lease_env where
  "no_lease = \<lparr>client_hosted = False, token_ok = False, azure_lease = (\<lambda>n z. Inl (HttpError 500 (Text ''no lease'')))\<rparr>"

theorem push_deletes_idle_grow_nodes_witness:
  "node_status_of (fst (push_node_state example_env no_lease 20 demo_grown [] ''g1'' demo_push)) ''g1'' = Some DELETED"
proof -
  obtain h1 m where p: "record_node_push 20 demo_grown ''g1'' (pushed_fields demo_push) = (h1, m)" by force
  obtain h' cs' d r where q: "push_node_state example_env no_lease 20 demo_grown [] ''g1'' demo_push = (h', cs', d, r)"
    by (metis prod_cases4)
  have "n_job_scope_id (snd (record_node_push 20 demo_grown ''g1'' (pushed_fields demo_push))) = Some ''j1'' \<and>
    is_live (snd (record_node_push 20 demo_grown ''g1'' (pushed_fields demo_push))) \<and>
    n_current_job (snd (record_node_push 20 demo_grown ''g1'' (pushed_fields demo_push))) = None \<and>
    n_reserved_for_job (snd (record_node_push 20 demo_grown ''g1'' (pushed_fields demo_push))) = None"
    by code_simp
  then show ?thesis using push_deletes_idle_grow_nodes [OF p q] p q by simp
qed

section \<open>Sheds\<close>

text \<open>The slots a controller still owes a node.\<close>

definition owed :: "mint dict \<Rightarrow> string \<Rightarrow> string \<Rightarrow> int" where
  "owed cs k name = (case map_of cs k of None \<Rightarrow> 0 | Some m \<Rightarrow> get_or 0 (map_of (mc_pending_sheds m) name))"

lemma take_shed_owed:
  "snd (take_shed cs k name) = owed cs k name"
  "owed (fst (take_shed cs k name)) k' x = (if k' = k \<and> x = name then 0 else owed cs k' x)"
  by (auto simp: take_shed_def mint_take_shed_def owed_def split: option.splits)

text \<open>
  C22. A rolled back slot is handed back at most once: the reply to a push carries exactly what the
  controller of the node's job owes that node, afterwards nothing is owed to it any more, and what
  the controllers owe all other nodes and jobs is unchanged.
\<close>

theorem push_hands_back_sheds:
  assumes "record_node_push now h name (pushed_fields body) = (h1, m)"
    and "push_node_state env le now h cs name body = (h', cs', d, rep)"
  shows "(case rep of Inl _ \<Rightarrow> True | Inr r \<Rightarrow> get_or 0 (pu_shed_slots r) =
      (if truthy (pushed_job body m) then owed cs (the (pushed_job body m)) name else 0)) \<and>
    owed cs' k x = (if truthy (pushed_job body m) \<and> k = the (pushed_job body m) \<and> x = name then 0 else owed cs k x)"
proof -
  obtain h3 m' where sc: "scope_check now (push_progress now h1 name body) name m = (h3, m', d)"
    and "NODES h' = NODES h3" and cs': "cs' = (if truthy (pushed_job body m') then fst (take_shed cs (the (pushed_job body m')) name) else cs)"
    and r: "\<forall>r. rep = Inr r \<longrightarrow> pu_status r = n_status m' \<and> get_or 0 (pu_shed_slots r) =
       (if truthy (pushed_job body m') then snd (take_shed cs (the (pushed_job body m')) name) else 0)"
    by (rule push_parts [OF assms])
  have j: "pushed_job body m' = pushed_job body m"
    by (rule pushed_job_cong) (rule push_keeps_the_job(4) [OF assms(1) sc])
  show ?thesis using r unfolding cs' j by (auto simp: take_shed_owed split: sum.splits)
qed

definition demo_controllers :: "mint dict" where
  "demo_controllers = [(''j1'', (new_controller 4)\<lparr>mc_pending_sheds := [(''n1'', 3), (''n2'', 1)]\<rparr>)]"

definition demo_progress :: push_body where
  "demo_progress = \<lparr>pb_fields = [NStatus (Some RUNNING), NCurrentJob (Some ''j1'')],
     pb_job_progress = Some (''j1'', \<lparr>pr_current_num_results = Some 2, pr_client_contact_last_1s = Some True,
       pr_alive_workers = Some 2, pr_busy_workers = Some 2\<rparr>),
     pb_delete_lease_expires_at = None\<rparr>"

theorem push_hands_back_sheds_witness:
  "owed (fst (snd (push_node_state example_env no_lease 20 demo_running demo_controllers ''n1'' demo_progress))) ''j1'' ''n1'' = 0
   \<and> owed demo_controllers ''j1'' ''n1'' = 3
   \<and> owed (fst (snd (push_node_state example_env no_lease 20 demo_running demo_controllers ''n1'' demo_progress))) ''j1'' ''n2'' = 1"
proof -
  obtain h1 m where p: "record_node_push 20 demo_running ''n1'' (pushed_fields demo_progress) = (h1, m)" by force
  obtain h' cs' d r where q: "push_node_state example_env no_lease 20 demo_running demo_controllers ''n1'' demo_progress = (h', cs', d, r)"
    by (metis prod_cases4)
  have o: "owed demo_controllers ''j1'' ''n1'' = 3" "owed demo_controllers ''j1'' ''n2'' = 1" by code_simp+
  show ?thesis
    using push_hands_back_sheds [OF p q, of "''j1''" "''n1''"] push_hands_back_sheds [OF p q, of "''j1''" "''n2''"] q o
    by (simp add: pushed_job_def demo_progress_def)
qed

text \<open>
  At most once, not exactly once: the share is taken before the Azure lease is checked, so a push
  refused there loses it, and a lost response does too.
\<close>

lemma refused_push_loses_sheds:
  defines "azure \<equiv> example_env\<lparr>CLOUD_PROVIDER := ''azure''\<rparr>"
    and "hosted \<equiv> no_lease\<lparr>client_hosted := True\<rparr>"
    and "body \<equiv> demo_progress\<lparr>pb_delete_lease_expires_at := Some 100\<rparr>"
  shows "isl (snd (snd (snd (push_node_state azure hosted 20 demo_running demo_controllers ''n1'' body))))"
    "owed (fst (snd (push_node_state azure hosted 20 demo_running demo_controllers ''n1'' body))) ''j1'' ''n1'' = 0"
  unfolding assms by code_simp+

section \<open>Replacement nodes\<close>

lemma plan_slots_le_missing:
  assumes "plan_grow_nodes env uuid missing fc fr func_gpu config mc mg spn mt = Inr ps"
    and "0 \<le> missing" "0 < sched_cpu fc" "0 < sched_ram fr"
  shows "plan_slots ps \<le> missing"
proof (cases "get_or 0 spn = 0")
  case True
  with assms(1) have "plan_cpu_nodes env uuid missing fc fr config mc = Inr ps
      \<or> (\<exists>g. plan_gpu_nodes uuid missing fc fr mg g = Inr ps)"
    unfolding plan_grow_nodes_def by (auto simp: bind_err_eq_Inr split: if_splits)
  then have "plan_ok fc fr missing ps" using plan_cpu_nodes_ok plan_gpu_nodes_ok assms(2-4) by blast
  then show ?thesis by (simp add: plan_ok_def)
next
  case False
  with assms(1) have "plan_by_slots uuid missing mc (get_or 0 spn) mt = Inr ps"
    unfolding plan_grow_nodes_def by (auto simp: bind_err_eq_Inr)
  then obtain k where "ps = spread_slots uuid mt 0 k missing"
    by (auto simp: plan_by_slots_def Let_def bind_err_eq_Inr split: option.splits if_splits)
  then show ?thesis using spread_slots_total [of k uuid mt 0 missing] assms(2) by (cases k) (auto simp: Let_def)
qed

lemma boot_new_replacement_cases:
  assumes "boot_new_replacement env uuid saved h k j body = (h', rep)"
  obtains (refused) e where "h' = h" "rep = Inl e"
  | (booted) planned c g where
      "plan_replacement env uuid (config_with_job_overrides saved (j_region j) (j_disk_gb j)) h j body = Inr (planned, c, g)"
      "planned \<noteq> []"
      "h' = record_replacement_request h k (rb_requesting_node body)
         \<lparr>rp_request_id = rb_request_id body, rp_booted = planned, rp_slots_booted = plan_slots planned\<rparr> c g"
      "rep = Inr \<lparr>rr_booted = planned, rr_slots_booted = plan_slots planned,
         rr_boots = [boot_order_of (config_with_job_overrides saved (j_region j) (j_disk_gb j)) k (j_image j) planned]\<rparr>"
  using assms that
  by (auto simp: boot_new_replacement_def plan_slots_def Let_def split: sum.splits prod.splits if_splits)

text \<open>What the handler sees of the job, and whether it answers from the recorded request.\<close>

definition replaceable :: "head \<Rightarrow> string \<Rightarrow> job \<Rightarrow> bool" where
  "replaceable h k j \<longleftrightarrow> \<not> admission_paused h \<and> job_lookup h k = Some j
     \<and> j_status j = Some JOB_RUNNING \<and> j_grow j"

definition replayed :: "job \<Rightarrow> replacement_body \<Rightarrow> replacement option" where
  "replayed j body = (case map_of (j_replacement_requests j) (rb_requesting_node body) of
     Some r \<Rightarrow> if rp_request_id r = rb_request_id body then Some r else None | None \<Rightarrow> None)"

abbreviation public :: "job \<Rightarrow> job" where
  "public j \<equiv> j\<lparr>j_assigned_nodes := [], j_start_response := None\<rparr>"

lemma boot_replacement_cases:
  assumes "boot_replacement_nodes env uuid saved h k body = (h', rep)"
  obtains (refused) e where "same_head h h'" "rep = Inl e"
  | (replay) j r where "replaceable h k j" "0 < rb_missing_slots body" "replayed j body = Some r"
      "same_head h h'" "rep = Inr \<lparr>rr_booted = rp_booted r, rr_slots_booted = rp_slots_booted r, rr_boots = []\<rparr>"
  | (fresh) h1 j where "replaceable h k j" "0 < rb_missing_slots body" "replayed j body = None" "same_head h h1"
      "boot_new_replacement env uuid saved h1 k (public j) body = (h', rep)"
proof (cases "0 < rb_missing_slots body \<and> \<not> admission_paused h")
  case False
  then have "h' = h \<and> isl rep" using assms by (auto simp: boot_replacement_nodes_def split: if_splits)
  then show thesis using refused by (cases rep) auto
next
  case True
  obtain h1 where g: "get_job h k = (h1, map_option (\<lambda>j. (public j, sum_results (j_assigned_nodes j))) (job_lookup h k))"
    by (metis get_job_facts(5) prod.collapse)
  have s: "same_head h h1" using get_job_facts(4) [of h k] g by simp
  show thesis
  proof (cases "\<exists>j. replaceable h k j")
    case False
    then have "h' = h1 \<and> isl rep"
      using assms True g by (auto simp: boot_replacement_nodes_def replaceable_def split: option.splits if_splits)
    then show thesis using refused s by (cases rep) auto
  next
    case rp: True
    then obtain j where j: "replaceable h k j" by blast
    have m: "0 < rb_missing_slots body" using True by simp
    have e: "boot_replacement_nodes env uuid saved h k body =
      (case replayed j body of
         Some r \<Rightarrow> (h1, Inr \<lparr>rr_booted = rp_booted r, rr_slots_booted = rp_slots_booted r, rr_boots = []\<rparr>)
       | None \<Rightarrow> boot_new_replacement env uuid saved h1 k (public j) body)"
      using j m g by (auto simp: boot_replacement_nodes_def replaceable_def replayed_def split: option.splits)
    show thesis
    proof (cases "replayed j body")
      case None
      with e assms have "boot_new_replacement env uuid saved h1 k (public j) body = (h', rep)" by simp
      then show thesis by (rule fresh [OF j m None s])
    next
      case (Some r)
      with e assms have "h' = h1" "rep = Inr \<lparr>rr_booted = rp_booted r, rr_slots_booted = rp_slots_booted r, rr_boots = []\<rparr>"
        by simp_all
      with s show thesis by (intro replay [OF j m Some]) simp_all
    qed
  qed
qed

lemma fresh_booted:
  assumes "replaceable h k j" "same_head h h1"
    and "boot_new_replacement env uuid saved h1 k (public j) body = (h', Inr r)"
  obtains c g where "planned_cpu_count (rr_booted r) = Inr c" "planned_gpu_count (rr_booted r) = Inr g"
    "\<exists>mt. plan_grow_nodes env uuid (rb_missing_slots body) (j_func_cpu j) (j_func_ram j) (j_func_gpu j)
       (config_with_job_overrides saved (j_region j) (j_disk_gb j)) (j_grow_cpus_remaining j)
       (j_grow_gpus_remaining j) (rb_slots_per_node body) mt = Inr (rr_booted r)"
    "rr_booted r \<noteq> []" "rr_slots_booted r = plan_slots (rr_booted r)"
    "rr_boots r = [boot_order_of (config_with_job_overrides saved (j_region j) (j_disk_gb j)) k (j_image j) (rr_booted r)]"
    "\<forall>x. job_lookup h' x = (if x = k then Some (j\<lparr>
        j_replacement_requests := dset (rb_requesting_node body) \<lparr>rp_request_id = rb_request_id body,
           rp_booted = rr_booted r, rp_slots_booted = rr_slots_booted r\<rparr> (j_replacement_requests j),
        j_grow_cpus_remaining := spend (j_grow_cpus_remaining j) c,
        j_grow_gpus_remaining := spend (j_grow_gpus_remaining j) g\<rparr>) else job_lookup h x)"
    "NODES h' = NODES h" "admission_paused h' = admission_paused h"
proof -
  have j: "job_lookup h1 k = Some j" using assms(1,2) by (simp add: replaceable_def same_head_def)
  have adm: "admission_paused (record_replacement_request h1 k n q c g) = admission_paused h1" for n q c g
    using get_or_load_job_lookup(7) [of h1 k]
    by (cases "get_or_load_job h1 k") (auto simp: record_replacement_request_def Let_def split: option.splits)
  from assms(3) show thesis
  proof (cases rule: boot_new_replacement_cases)
    case (booted planned c g)
    have r: "r = \<lparr>rr_booted = planned, rr_slots_booted = plan_slots planned,
       rr_boots = [boot_order_of (config_with_job_overrides saved (j_region j) (j_disk_gb j)) k (j_image j) planned]\<rparr>"
      using booted(4) by simp
    have p: "planned_cpu_count planned = Inr c" "planned_gpu_count planned = Inr g"
      "\<exists>mt. plan_grow_nodes env uuid (rb_missing_slots body) (j_func_cpu j) (j_func_ram j) (j_func_gpu j)
       (config_with_job_overrides saved (j_region j) (j_disk_gb j)) (j_grow_cpus_remaining j)
       (j_grow_gpus_remaining j) (rb_slots_per_node body) mt = Inr planned"
      using booted(1) by (auto simp: plan_replacement_def bind_err_eq_Inr)
    show thesis
      by (rule that [of c g])
        (use p booted(2,3) assms(2) j in \<open>auto simp: r adm job_lookup_replacement same_head_def\<close>)
  qed simp
qed

text \<open>
  A replacement is paid for and never larger than asked: a request that boots machines boots a
  nonempty plan of at most the missing slots, answers with exactly the slots and machines it ordered,
  takes the machines' CPUs and GPUs off the job's remaining budgets (never below zero, an absent
  budget stays absent), records the request under its node and changes no other job and no node.
\<close>

theorem replacement_is_paid_for:
  assumes "boot_replacement_nodes env uuid saved h k body = (h', Inr r)" "rr_boots r \<noteq> []"
    and "job_lookup h k = Some j" "0 < sched_cpu (j_func_cpu j)" "0 < sched_ram (j_func_ram j)"
  shows "(\<exists>c g. planned_cpu_count (rr_booted r) = Inr c \<and> planned_gpu_count (rr_booted r) = Inr g \<and>
      job_lookup h' k = Some (j\<lparr>
        j_replacement_requests := dset (rb_requesting_node body) \<lparr>rp_request_id = rb_request_id body,
           rp_booted = rr_booted r, rp_slots_booted = rr_slots_booted r\<rparr> (j_replacement_requests j),
        j_grow_cpus_remaining := map_option (\<lambda>b. max 0 (b - c)) (j_grow_cpus_remaining j),
        j_grow_gpus_remaining := map_option (\<lambda>b. max 0 (b - g)) (j_grow_gpus_remaining j)\<rparr>)) \<and>
    rr_booted r \<noteq> [] \<and> rr_slots_booted r = plan_slots (rr_booted r) \<and>
    rr_slots_booted r \<le> rb_missing_slots body \<and>
    concat (map (\<lambda>b. zip (bo_names b) (bo_parallelisms b)) (rr_boots r)) =
      map (\<lambda>p. (pl_instance_name p, pl_target_parallelism p)) (rr_booted r) \<and>
    (\<forall>b \<in> set (rr_boots r). bo_job_id b = k) \<and>
    (\<forall>x. x \<noteq> k \<longrightarrow> job_lookup h' x = job_lookup h x) \<and> NODES h' = NODES h"
  using assms(1)
proof (cases rule: boot_replacement_cases)
  case (fresh h1 j')
  then have j: "j' = j" using assms(3) by (simp add: replaceable_def)
  show ?thesis
  proof (rule fresh_booted [OF fresh(1,4,5), unfolded j])
    fix c g
    assume f: "planned_cpu_count (rr_booted r) = Inr c" "planned_gpu_count (rr_booted r) = Inr g"
      "\<exists>mt. plan_grow_nodes env uuid (rb_missing_slots body) (j_func_cpu j) (j_func_ram j) (j_func_gpu j)
       (config_with_job_overrides saved (j_region j) (j_disk_gb j)) (j_grow_cpus_remaining j)
       (j_grow_gpus_remaining j) (rb_slots_per_node body) mt = Inr (rr_booted r)"
      "rr_booted r \<noteq> []" "rr_slots_booted r = plan_slots (rr_booted r)"
      "rr_boots r = [boot_order_of (config_with_job_overrides saved (j_region j) (j_disk_gb j)) k (j_image j) (rr_booted r)]"
      "\<forall>x. job_lookup h' x = (if x = k then Some (j\<lparr>
        j_replacement_requests := dset (rb_requesting_node body) \<lparr>rp_request_id = rb_request_id body,
           rp_booted = rr_booted r, rp_slots_booted = rr_slots_booted r\<rparr> (j_replacement_requests j),
        j_grow_cpus_remaining := spend (j_grow_cpus_remaining j) c,
        j_grow_gpus_remaining := spend (j_grow_gpus_remaining j) g\<rparr>) else job_lookup h x)"
      "NODES h' = NODES h"
    have "plan_slots (rr_booted r) \<le> rb_missing_slots body"
      using f(3) fresh(2) plan_slots_le_missing assms(4,5) by force
    then show ?thesis
      using f by (auto simp: boot_order_of_def zip_map_map zip_same_conv_map comp_def spend_def)
  qed
qed (use assms(2) in simp_all)

lemma replayed_replacement:
  assumes "boot_replacement_nodes env uuid saved h k body = (h1, Inr r)"
    and "rb_requesting_node body' = rb_requesting_node body" "rb_request_id body' = rb_request_id body"
    and "0 < rb_missing_slots body'"
  shows "\<exists>h2. boot_replacement_nodes env' uuid' saved' h1 k body' =
      (h2, Inr \<lparr>rr_booted = rr_booted r, rr_slots_booted = rr_slots_booted r, rr_boots = []\<rparr>) \<and> same_head h1 h2"
proof -
  have "\<exists>j q. replaceable h1 k j \<and> replayed j body' = Some q \<and> rp_booted q = rr_booted r
      \<and> rp_slots_booted q = rr_slots_booted r"
    using assms(1)
  proof (cases rule: boot_replacement_cases)
    case (replay j q)
    then have "replaceable h1 k j \<and> replayed j body' = Some q"
      using assms(2,3) by (auto simp: replaceable_def same_head_def replayed_def split: option.splits if_splits)
    then show ?thesis using replay(5) by auto
  next
    case (fresh h2 j)
    show ?thesis
    proof (rule fresh_booted [OF fresh(1,4,5)])
      fix c g
      assume "\<forall>x. job_lookup h1 x = (if x = k then Some (j\<lparr>
          j_replacement_requests := dset (rb_requesting_node body) \<lparr>rp_request_id = rb_request_id body,
             rp_booted = rr_booted r, rp_slots_booted = rr_slots_booted r\<rparr> (j_replacement_requests j),
          j_grow_cpus_remaining := spend (j_grow_cpus_remaining j) c,
          j_grow_gpus_remaining := spend (j_grow_gpus_remaining j) g\<rparr>) else job_lookup h x)"
        "admission_paused h1 = admission_paused h"
      then show ?thesis
        using fresh(1) assms(2,3) by (intro exI conjI) (auto simp: replaceable_def replayed_def)
    qed
  qed simp
  then obtain j q where q: "replaceable h1 k j" "replayed j body' = Some q" "rp_booted q = rr_booted r"
    "rp_slots_booted q = rr_slots_booted r" by blast
  obtain h2 rep where b: "boot_replacement_nodes env' uuid' saved' h1 k body' = (h2, rep)"
    by (cases "boot_replacement_nodes env' uuid' saved' h1 k body'")
  obtain h3 where g: "get_job h1 k = (h3, Some (public j, sum_results (j_assigned_nodes j)))"
    using get_job_facts(5) [of h1 k] q(1) by (metis (no_types, lifting) option.simps(9) prod.collapse replaceable_def)
  then have "same_head h1 h3" using get_job_facts(4) [of h1 k] by simp
  moreover have "boot_replacement_nodes env' uuid' saved' h1 k body' =
      (h3, Inr \<lparr>rr_booted = rr_booted r, rr_slots_booted = rr_slots_booted r, rr_boots = []\<rparr>)"
    using q assms(4) g
    by (auto simp: boot_replacement_nodes_def replaceable_def replayed_def split: option.splits if_splits)
  ultimately show ?thesis by blast
qed

text \<open>
  A replacement request is answered once: replaying it, to the same head with any body that names
  the same node and request and asks for something, returns the recorded plan, boots nothing and
  changes nothing, also when the budget that paid for it is spent.
\<close>

theorem replacement_replay:
  assumes "boot_replacement_nodes env uuid saved h k body = (h1, Inr r)"
    and "rb_requesting_node body' = rb_requesting_node body" "rb_request_id body' = rb_request_id body"
    and "0 < rb_missing_slots body'"
  shows "\<exists>h2. boot_replacement_nodes env' uuid' saved' h1 k body' =
      (h2, Inr \<lparr>rr_booted = rr_booted r, rr_slots_booted = rr_slots_booted r, rr_boots = []\<rparr>) \<and> same_head h1 h2"
  by (rule replayed_replacement [OF assms])

definition demo_grow_head :: head where
  "demo_grow_head =
     fst (start_job example_env example_uuid example_config ''ca'' None 12 demo_ready ''j1'' demo_request)"

definition demo_uuid :: "nat \<Rightarrow> string" where
  "demo_uuid i = digits_of_nat i @ ''0123456''"

definition demo_replacement :: replacement_body where
  "demo_replacement = \<lparr>rb_requesting_node = ''n1'', rb_missing_slots = 3, rb_request_id = ''r1'',
     rb_slots_per_node = Some 2\<rparr>"

lemma demo_replaced:
  "snd (boot_replacement_nodes example_env demo_uuid example_config demo_grow_head ''j1'' demo_replacement) =
     Inr \<lparr>rr_booted = [\<lparr>pl_instance_name = ''burla-node-00123456'', pl_machine_type = ''n4-standard-2'', pl_target_parallelism = 2\<rparr>,
            \<lparr>pl_instance_name = ''burla-node-10123456'', pl_machine_type = ''n4-standard-2'', pl_target_parallelism = 1\<rparr>],
          rr_slots_booted = 3,
          rr_boots = [\<lparr>bo_config = example_config, bo_job_id = ''j1'',
            bo_names = [''burla-node-00123456'', ''burla-node-10123456''],
            bo_machine_types = [''n4-standard-2'', ''n4-standard-2''], bo_image = None,
            bo_inactivity_sec = 60, bo_parallelisms = [2, 1]\<rparr>]\<rparr>"
  by code_simp

lemma demo_grow_job:
  "map_option (\<lambda>j. (j_func_cpu j, j_func_ram j, j_grow_cpus_remaining j)) (job_lookup demo_grow_head ''j1'') =
     Some (Fixed 1, Dynamic, Some 2554)"
  by code_simp

theorem replacement_is_paid_for_witness:
  "map_option j_grow_cpus_remaining (job_lookup
     (fst (boot_replacement_nodes example_env demo_uuid example_config demo_grow_head ''j1'' demo_replacement)) ''j1'')
   = Some (Some 2550)"
proof -
  obtain h' r where b: "boot_replacement_nodes example_env demo_uuid example_config demo_grow_head ''j1'' demo_replacement
      = (h', Inr r)" "rr_boots r \<noteq> []" "map pl_machine_type (rr_booted r) = [''n4-standard-2'', ''n4-standard-2'']"
    using demo_replaced by (cases "boot_replacement_nodes example_env demo_uuid example_config demo_grow_head
      ''j1'' demo_replacement") auto
  obtain j where j: "job_lookup demo_grow_head ''j1'' = Some j" "j_func_cpu j = Fixed 1" "j_func_ram j = Dynamic"
    "j_grow_cpus_remaining j = Some 2554"
    using demo_grow_job by auto
  have s: "0 < sched_cpu (j_func_cpu j)" "0 < sched_ram (j_func_ram j)" by (simp_all add: j sched_cpu_def sched_ram_def)
  have "planned_cpu_count ps = Inr 4" if "map pl_machine_type ps = [''n4-standard-2'', ''n4-standard-2'']" for ps
  proof -
    have "machine_type_cpu_count ''n4-standard-2'' = Inr 2" by code_simp
    then show ?thesis using that by (auto simp: planned_cpu_count_def map_eq_Cons_conv)
  qed
  from this [OF b(3)] replacement_is_paid_for [OF b(1,2) j(1) s] show ?thesis using b(1) j(4) by auto
qed

theorem replacement_replay_witness:
  "\<exists>r. snd (boot_replacement_nodes example_env demo_uuid example_config
      (fst (boot_replacement_nodes example_env demo_uuid example_config demo_grow_head ''j1'' demo_replacement))
      ''j1'' demo_replacement) = Inr r \<and> rr_slots_booted r = 3 \<and> rr_boots r = []"
proof -
  obtain h' r where b: "boot_replacement_nodes example_env demo_uuid example_config demo_grow_head ''j1'' demo_replacement
      = (h', Inr r)" "rr_slots_booted r = 3"
    using demo_replaced by (cases "boot_replacement_nodes example_env demo_uuid example_config demo_grow_head
      ''j1'' demo_replacement") auto
  have "0 < rb_missing_slots demo_replacement" by (simp add: demo_replacement_def)
  from replacement_replay [OF b(1) refl refl this, of example_env demo_uuid example_config]
  show ?thesis using b by auto
qed

end
