(* ===== verification/Sized_Queue.thy ===== *)
theory Sized_Queue
  imports Prelude "HOL-Library.Multiset"
begin

text \<open>
  \<open>SizedQueue\<close> of \<open>node_service/helpers.py\<close>: an unbounded FIFO queue that also pops from its back and
  keeps the byte size of what it holds. \<open>sized_queue\<close> is the contract the job code relies on: an
  abstraction to a list of items with sizes; its lemmas say what whole batches do to the queue.
\<close>

locale sized_queue =
  fixes empty :: 'q
    and put :: "'a \<Rightarrow> int \<Rightarrow> 'q \<Rightarrow> 'q"
    and get :: "'q \<Rightarrow> ('a \<times> 'q) option"
    and get_last :: "'q \<Rightarrow> ('a \<times> 'q) option"
    and qsize :: "'q \<Rightarrow> int"
    and size_bytes :: "'q \<Rightarrow> int"
    and items :: "'q \<Rightarrow> ('a \<times> int) list"
    and invar :: "'q \<Rightarrow> bool"
  assumes items_empty: "items empty = []" and invar_empty: "invar empty"
    and items_put: "invar q \<Longrightarrow> items (put x n q) = items q @ [(x, n)]"
    and invar_put: "invar q \<Longrightarrow> invar (put x n q)"
    and get_None: "invar q \<Longrightarrow> get q = None \<longleftrightarrow> items q = []"
    and get_Some: "invar q \<Longrightarrow> get q = Some (x, q') \<Longrightarrow> invar q' \<and> (\<exists>n. items q = (x, n) # items q')"
    and last_None: "invar q \<Longrightarrow> get_last q = None \<longleftrightarrow> items q = []"
    and last_Some: "invar q \<Longrightarrow> get_last q = Some (x, q') \<Longrightarrow> invar q' \<and> (\<exists>n. items q = items q' @ [(x, n)])"
    and qsize_items: "invar q \<Longrightarrow> qsize q = int (length (items q))"
    and bytes_items: "invar q \<Longrightarrow> size_bytes q = (\<Sum>p\<leftarrow>items q. snd p)"
begin

text \<open>The values in the queue, and what putting or popping does to them.\<close>

definition contents :: "'q \<Rightarrow> 'a multiset" where
  "contents q = mset (map fst (items q))"

lemma contents_empty: "contents empty = {#}"
  by (simp add: contents_def items_empty)

lemma contents_put: "invar q \<Longrightarrow> contents (put x n q) = contents q + {#x#}"
  by (simp add: contents_def items_put)

lemma contents_get: "invar q \<Longrightarrow> get q = Some (x, q') \<Longrightarrow> contents q = contents q' + {#x#}"
  by (auto simp: contents_def dest: get_Some)

lemma contents_last: "invar q \<Longrightarrow> get_last q = Some (x, q') \<Longrightarrow> contents q = contents q' + {#x#}"
  by (auto simp: contents_def dest: last_Some)

lemma qsize_nonneg: "invar q \<Longrightarrow> 0 \<le> qsize q"
  by (simp add: qsize_items)

lemma qsize_zero: "invar q \<Longrightarrow> qsize q = 0 \<longleftrightarrow> items q = []"
  by (simp add: qsize_items)

lemma qsize_contents: "invar q \<Longrightarrow> qsize q = int (size (contents q))"
  by (simp add: qsize_items contents_def)

text \<open>A batch of puts, each item with its own size.\<close>

definition put_all :: "('a \<Rightarrow> int) \<Rightarrow> 'a list \<Rightarrow> 'q \<Rightarrow> 'q" where
  "put_all len xs q = foldl (\<lambda>q x. put x (len x) q) q xs"

lemma put_all_simps: "put_all len [] q = q" "put_all len (x # xs) q = put_all len xs (put x (len x) q)"
  by (simp_all add: put_all_def)

lemma put_all_items:
  "invar q \<Longrightarrow> invar (put_all len xs q) \<and> items (put_all len xs q) = items q @ map (\<lambda>x. (x, len x)) xs"
  by (induction xs arbitrary: q) (simp_all add: put_all_simps invar_put items_put)

lemma contents_put_all: "invar q \<Longrightarrow> contents (put_all len xs q) = contents q + mset xs"
  using put_all_items [of q len xs] by (simp add: contents_def comp_def)

text \<open>Putting back what was just taken from the back restores the queue's items.\<close>

lemma put_back:
  assumes "invar q" "get_last q = Some (x, q')" "items q = items q' @ [(x, n)]"
  shows "items (put x n q') = items q"
  using last_Some [OF assms(1,2)] items_put assms(3) by simp

end

section \<open>The code's queue\<close>

record 'a sizedq =
  sq_queue :: "('a \<times> int) list"
  sq_size_bytes :: int

definition sq_empty :: "'a sizedq" where
  "sq_empty = \<lparr>sq_queue = [], sq_size_bytes = 0\<rparr>"

definition sq_put_nowait :: "'a \<Rightarrow> int \<Rightarrow> 'a sizedq \<Rightarrow> 'a sizedq" where
  "sq_put_nowait item size_bytes q =
     q\<lparr>sq_queue := sq_queue q @ [(item, size_bytes)], sq_size_bytes := sq_size_bytes q + size_bytes\<rparr>"

text \<open>\<open>None\<close> is \<open>asyncio.QueueEmpty\<close>.\<close>

definition sq_get_nowait :: "'a sizedq \<Rightarrow> ('a \<times> 'a sizedq) option" where
  "sq_get_nowait q =
     (case sq_queue q of
        [] \<Rightarrow> None
      | (item, n) # rest \<Rightarrow> Some (item, q\<lparr>sq_queue := rest, sq_size_bytes := sq_size_bytes q - n\<rparr>))"

definition sq_get_last_nowait :: "'a sizedq \<Rightarrow> ('a \<times> 'a sizedq) option" where
  "sq_get_last_nowait q =
     (if sq_queue q = [] then None
      else Some (fst (last (sq_queue q)),
             q\<lparr>sq_queue := butlast (sq_queue q), sq_size_bytes := sq_size_bytes q - snd (last (sq_queue q))\<rparr>))"

definition sq_qsize :: "'a sizedq \<Rightarrow> int" where
  "sq_qsize q = int (length (sq_queue q))"

definition sq_ok :: "'a sizedq \<Rightarrow> bool" where
  "sq_ok q \<longleftrightarrow> sq_size_bytes q = (\<Sum>p\<leftarrow>sq_queue q. snd p)"

lemma snoc_bytes: "xs \<noteq> [] \<Longrightarrow> (\<Sum>p\<leftarrow>xs. snd p) = (\<Sum>p\<leftarrow>butlast xs. snd p) + (snd (last xs) :: int)"
  by (induction xs) auto

interpretation sq: sized_queue sq_empty sq_put_nowait sq_get_nowait sq_get_last_nowait sq_qsize
  sq_size_bytes sq_queue sq_ok
proof (unfold_locales, goal_cases)
  case (6 q x q')
  then show ?case by (auto simp: sq_get_nowait_def sq_ok_def split: list.splits)
next
  case (8 q x q')
  then have "sq_queue q \<noteq> []" by (auto simp: sq_get_last_nowait_def)
  with 8 show ?case
    by (auto simp: sq_get_last_nowait_def sq_ok_def snoc_bytes intro!: exI [of _ "snd (last (sq_queue q))"]
        split: if_splits)
qed (auto simp: sq_empty_def sq_put_nowait_def sq_get_nowait_def sq_get_last_nowait_def sq_qsize_def sq_ok_def
    split: list.splits)

lemmas queue_defs = sq_empty_def sq_put_nowait_def sq_get_nowait_def sq_get_last_nowait_def sq_qsize_def

abbreviation sq_contents :: "'a sizedq \<Rightarrow> 'a multiset" where
  "sq_contents \<equiv> sq.contents"

abbreviation sq_put_all :: "('a \<Rightarrow> int) \<Rightarrow> 'a list \<Rightarrow> 'a sizedq \<Rightarrow> 'a sizedq" where
  "sq_put_all \<equiv> sq.put_all"

end
