(* ===== verification/Node_State.thy ===== *)
theory Node_State
  imports Sized_Queue Job_Tracking
begin

text \<open>
  The state of one node service, \<open>SELF\<close>, and the workers that run a job's inputs: what a worker does
  between inputs, and the ways the node takes an input back from a running worker
  (\<open>node_service/__init__.py\<close>, \<open>worker_client.py\<close>). Each definition is one section of the code
  between two awaits, or one section under \<open>dynamic_retire_lock\<close>. Containers, cgroups, measured CPU
  and memory figures are inputs; an attempt's CPU seconds are a field of its worker.
\<close>

section \<open>State\<close>

type_synonym job_input = "int \<times> string"
type_synonym job_result = "int \<times> bool \<times> string"

abbreviation pkl_len :: "job_input \<Rightarrow> int" where
  "pkl_len x \<equiv> int (length (snd x))"

abbreviation result_len :: "job_result \<Rightarrow> int" where
  "result_len r \<equiv> int (length (snd (snd r)))"

text \<open>Where a worker's \<open>_process_inputs\<close> task stands; \<open>Stopped\<close> also stands for no task.\<close>

datatype task_state = Between | Waiting | Running | Stopped

record worker =
  w_name :: string
  w_python_version :: string
  w_retired :: bool
  w_is_idle :: bool
  w_current_input :: "job_input option"
  w_throttled :: bool
  w_attempt_cpu_seconds :: real
  w_task :: task_state

record log_line =
  ll_message :: string

record log_document =
  ld_logs :: "log_line list"
  ld_input_index :: "int option"

record slot_trade =
  tr_trade_id :: string
  tr_slots_granted :: int

record self =
  s_workers :: "worker list"
  s_idle_workers :: "worker list"
  s_inputs_queue :: "job_input sizedq"
  s_results_queue :: "job_result sizedq"
  s_current_job :: "string option"
  s_running :: bool
  s_booting :: bool
  s_shutting_down :: bool
  s_failed :: bool
  s_reported_status :: node_status
  s_current_parallelism :: int
  s_target_parallelism :: int
  s_mint_slots_allowed :: bool
  s_replacement_deficit_since :: "real option"
  s_replacement_request_id :: "string option"
  s_last_replacement_request_at :: real
  s_replacement_refused :: bool
  s_slot_trades_granted :: "slot_trade dict"
  s_slot_trade_id :: "string option"
  s_last_slot_trade_attempt_at :: real
  s_shed_slots_pending :: int
  s_job_assigned_at :: real
  s_job_watcher_stop :: bool
  s_all_inputs_uploaded :: bool
  s_dynamic_func_ram :: bool
  s_dynamic_func_cpu :: bool
  s_cpu_utilization :: real
  s_last_pressure_retirement_at :: real
  s_last_memory_shed_at :: real
  s_park_event_times :: "real list"
  s_readd_gates_last_green_at :: "real option"
  s_reboot_containers_after_job :: bool
  s_num_results_received :: int
  s_pending_transfers :: "job_input list dict"
  s_active_input_steal_id :: "string option"
  s_pending_result_batch :: "(string \<times> job_result list) option"
  s_pending_logs :: "log_document list"
  s_pending_cluster_shutdown :: bool
  s_pending_cluster_restarted :: bool
  s_pending_dashboard_canceled :: bool
  s_active_client_request_count :: int
  s_last_client_activity_timestamp :: real
  s_client_heartbeat_received :: bool
  s_reserved_for_job :: "string option"
  s_client_contact_last_1s :: bool
  s_job_view :: "job_view_t option"

text \<open>\<open>REINIT_SELF\<close>: the state of a node without a job.\<close>

definition REINIT_SELF :: "real \<Rightarrow> self" where
  "REINIT_SELF now =
     \<lparr>s_workers = [], s_idle_workers = [], s_inputs_queue = sq_empty, s_results_queue = sq_empty,
      s_current_job = None, s_running = False, s_booting = False, s_shutting_down = False, s_failed = False,
      s_reported_status = BOOTING,
      s_current_parallelism = 0, s_target_parallelism = 0, s_mint_slots_allowed = False,
      s_replacement_deficit_since = None, s_replacement_request_id = None,
      s_last_replacement_request_at = 0, s_replacement_refused = False, s_slot_trades_granted = [],
      s_slot_trade_id = None, s_last_slot_trade_attempt_at = 0, s_shed_slots_pending = 0,
      s_job_assigned_at = 0, s_job_watcher_stop = True, s_all_inputs_uploaded = False,
      s_dynamic_func_ram = False, s_dynamic_func_cpu = False, s_cpu_utilization = 0,
      s_last_pressure_retirement_at = 0, s_last_memory_shed_at = 0, s_park_event_times = [],
      s_readd_gates_last_green_at = None, s_reboot_containers_after_job = False,
      s_num_results_received = 0, s_pending_transfers = [], s_active_input_steal_id = None,
      s_pending_result_batch = None, s_pending_logs = [], s_pending_cluster_shutdown = False,
      s_pending_cluster_restarted = False, s_pending_dashboard_canceled = False,
      s_active_client_request_count = 0, s_last_client_activity_timestamp = now,
      s_client_heartbeat_received = False, s_reserved_for_job = None,
      s_client_contact_last_1s = True, s_job_view = None\<rparr>"

definition alive_workers :: "self \<Rightarrow> worker list" where
  "alive_workers s = filter (\<lambda>w. \<not> w_retired w) (s_workers s)"

text \<open>Assignment to one worker object, found by its container's unique name.\<close>

definition on_worker :: "string \<Rightarrow> (worker \<Rightarrow> worker) \<Rightarrow> self \<Rightarrow> self" where
  "on_worker name f s = s\<lparr>s_workers := map (\<lambda>w. if w_name w = name then f w else w) (s_workers s)\<rparr>"

definition find_worker :: "self \<Rightarrow> string \<Rightarrow> worker option" where
  "find_worker s name = List.find (\<lambda>w. w_name w = name) (s_workers s)"

definition queue_inputs :: "job_input list \<Rightarrow> self \<Rightarrow> self" where
  "queue_inputs xs s = s\<lparr>s_inputs_queue := sq_put_all pkl_len xs (s_inputs_queue s)\<rparr>"

section \<open>A worker's loop\<close>

definition parked_workers_exist :: "self \<Rightarrow> bool" where
  "parked_workers_exist s = list_ex (\<lambda>w. w_throttled w \<and> \<not> w_retired w) (s_workers s)"

text \<open>
  The top of the loop: the worker is idle; with a shed pending it retires itself and stops. Otherwise
  it waits for an input once nothing is parked and the results fit their limit.
\<close>

definition between_inputs :: "int \<Rightarrow> string \<Rightarrow> self \<Rightarrow> self" where
  "between_inputs results_ram_limit name s =
     (case find_worker s name of
        None \<Rightarrow> s
      | Some w \<Rightarrow>
          if w_task w \<noteq> Between then s
          else if s_shed_slots_pending s > 0 \<and> \<not> w_retired w
          then on_worker name (\<lambda>w. w\<lparr>w_is_idle := True, w_retired := True, w_task := Stopped\<rparr>)
                 (s\<lparr>s_shed_slots_pending := s_shed_slots_pending s - 1, s_reboot_containers_after_job := True\<rparr>)
          else if parked_workers_exist s \<or> sq_size_bytes (s_results_queue s) > results_ram_limit
          then on_worker name (\<lambda>w. w\<lparr>w_is_idle := True\<rparr>) s
          else on_worker name (\<lambda>w. w\<lparr>w_is_idle := True, w_task := Waiting\<rparr>) s)"

text \<open>\<open>await inputs_queue.get()\<close> returns; an empty queue means it goes on waiting.\<close>

definition take_input :: "string \<Rightarrow> self \<Rightarrow> self" where
  "take_input name s =
     (case find_worker s name of
        None \<Rightarrow> s
      | Some w \<Rightarrow>
          if w_task w \<noteq> Waiting then s
          else (case sq_get_nowait (s_inputs_queue s) of
                  None \<Rightarrow> s
                | Some (x, q) \<Rightarrow>
                    on_worker name (\<lambda>w. w\<lparr>w_is_idle := False, w_current_input := Some x,
                            w_attempt_cpu_seconds := 0, w_task := Running\<rparr>) (s\<lparr>s_inputs_queue := q\<rparr>)))"

definition put_result :: "job_result \<Rightarrow> self \<Rightarrow> self" where
  "put_result r s =
     s\<lparr>s_results_queue := sq_put_nowait r (result_len r) (s_results_queue s),
       s_num_results_received := s_num_results_received s + 1\<rparr>"

text \<open>
  The end of an attempt with a result, the function's own errors included. A worker that was retired
  meanwhile drops the result: whoever retired it took the input back.
\<close>

definition finish_input :: "string \<Rightarrow> bool \<Rightarrow> string \<Rightarrow> self \<Rightarrow> self" where
  "finish_input name is_error payload s =
     (case find_worker s name of
        None \<Rightarrow> s
      | Some w \<Rightarrow>
          if w_task w \<noteq> Running then s
          else if w_retired w
          then on_worker name (\<lambda>w. w\<lparr>w_current_input := None, w_task := Stopped\<rparr>) s
          else (case w_current_input w of
                  None \<Rightarrow> s
                | Some (index, _) \<Rightarrow>
                    put_result (index, is_error, payload)
                      (on_worker name (\<lambda>w. w\<lparr>w_current_input := None, w_task := Between\<rparr>) s)))"

text \<open>
  The worker's process died (out of memory, or terminated). A worker whose input was taken back, or
  that is already retired, just stops. In a job with dynamic memory the input goes back to the queue,
  unless no other worker is left to retry it: then, as in a job with fixed memory, the error is its
  result.
\<close>

definition attempt_failed :: "real \<Rightarrow> string \<Rightarrow> string \<Rightarrow> self \<Rightarrow> self" where
  "attempt_failed now name error_pkl s =
     (case find_worker s name of
        None \<Rightarrow> s
      | Some w \<Rightarrow>
          if w_task w \<noteq> Running then s
          else
            (let stopped = on_worker name (\<lambda>w. w\<lparr>w_current_input := None, w_task := Stopped\<rparr>) s;
                 gone = on_worker name (\<lambda>w. w\<lparr>w_retired := True, w_current_input := None, w_task := Stopped\<rparr>)
                          (s\<lparr>s_reboot_containers_after_job := True\<rparr>)
             in case w_current_input w of
                  None \<Rightarrow> stopped
                | Some (index, pkl) \<Rightarrow>
                    if w_retired w then stopped
                    else if \<not> s_dynamic_func_ram s then put_result (index, True, error_pkl) stopped
                    else if list_ex (\<lambda>v. \<not> w_retired v \<and> w_name v \<noteq> name) (s_workers s)
                    then queue_inputs [(index, pkl)]
                           (on_worker name (\<lambda>w. w\<lparr>w_is_idle := True\<rparr>)
                             (gone\<lparr>s_last_pressure_retirement_at := now\<rparr>))
                    else put_result (index, True, error_pkl) gone))"

text \<open>
  \<open>process_inputs_task.cancel()\<close>: an attempt in flight ends without a result and without requeueing
  its input.
\<close>

definition cancel_task :: "string \<Rightarrow> self \<Rightarrow> self" where
  "cancel_task name s = on_worker name (\<lambda>w. w\<lparr>w_current_input := None, w_task := Stopped\<rparr>) s"

text \<open>
  What both monitors do when a worker's process and its container are gone: the worker is retired,
  its current input left in place and its task running.
\<close>

definition retire_vanished_worker :: "real \<Rightarrow> string \<Rightarrow> self \<Rightarrow> self" where
  "retire_vanished_worker now name s =
     on_worker name (\<lambda>w. w\<lparr>w_retired := True, w_is_idle := True\<rparr>)
       (s\<lparr>s_reboot_containers_after_job := True, s_last_pressure_retirement_at := now\<rparr>)"

section \<open>Taking inputs back under pressure\<close>

definition PARK_EVENT_RETENTION_SECONDS :: real where "PARK_EVENT_RETENTION_SECONDS = 300"

definition record_park_event :: "real \<Rightarrow> self \<Rightarrow> self" where
  "record_park_event now s =
     s\<lparr>s_park_event_times := filter (\<lambda>t. now - t < PARK_EVENT_RETENTION_SECONDS) (s_park_event_times s) @ [now]\<rparr>"

definition parks_in_last :: "real \<Rightarrow> real \<Rightarrow> self \<Rightarrow> nat" where
  "parks_in_last now seconds s = length (filter (\<lambda>t. t \<ge> now - seconds) (s_park_event_times s))"

text \<open>\<open>worker.retired = True; worker.is_idle = True; worker.current_input = None\<close>.\<close>

definition retire_and_clear :: "string list \<Rightarrow> self \<Rightarrow> self" where
  "retire_and_clear names s =
     s\<lparr>s_workers := map (\<lambda>w. if w_name w \<in> set names
         then w\<lparr>w_retired := True, w_is_idle := True, w_current_input := None\<rparr> else w) (s_workers s)\<rparr>"

definition pressure_victims :: "worker list \<Rightarrow> self \<Rightarrow> worker list" where
  "pressure_victims selected s =
     take (length (alive_workers s) - 1)
       (filter (\<lambda>w. \<not> w_retired w \<and> w_current_input w \<noteq> None) selected)"

text \<open>The killed workers' inputs go back to the queue; one active worker always stays.\<close>

definition retire_workers_for_pressure :: "real \<Rightarrow> worker list \<Rightarrow> self \<Rightarrow> self" where
  "retire_workers_for_pressure now selected s =
     (let victims = pressure_victims selected s
      in if victims = [] then s
         else record_park_event now
           ((queue_inputs (List.map_filter w_current_input victims)
               (retire_and_clear (map w_name victims) s))
             \<lparr>s_reboot_containers_after_job := True, s_last_pressure_retirement_at := now,
              s_last_memory_shed_at := now, s_readd_gates_last_green_at := None\<rparr>))"

text \<open>Parking throttles the selected workers; one running worker is never parked.\<close>

definition park_victims :: "worker list \<Rightarrow> self \<Rightarrow> worker list" where
  "park_victims selected s =
     take (length (filter (\<lambda>w. \<not> w_retired w \<and> \<not> w_throttled w \<and> \<not> w_is_idle w \<and> w_current_input w \<noteq> None)
             (s_workers s)) - 1)
       (filter (\<lambda>w. \<not> w_retired w \<and> \<not> w_throttled w \<and> w_current_input w \<noteq> None) selected)"

definition park_workers_for_memory :: "real \<Rightarrow> worker list \<Rightarrow> self \<Rightarrow> self" where
  "park_workers_for_memory now selected s =
     (let victims = park_victims selected s
      in if victims = [] then s
         else record_park_event now
           (s\<lparr>s_workers := map (\<lambda>w. if w_name w \<in> set (map w_name victims) then w\<lparr>w_throttled := True\<rparr> else w)
                 (s_workers s),
              s_last_pressure_retirement_at := now, s_last_memory_shed_at := now,
              s_readd_gates_last_green_at := None\<rparr>))"

text \<open>
  \<open>revoke_inputs_for_idle_peer\<close>: the inputs of parked workers, and on a saturated node of the least
  advanced half of the running ones, for a peer with idle workers.
\<close>

definition CPU_UTILIZATION_SATURATED :: real where "CPU_UTILIZATION_SATURATED = 0.95"

definition revoke_candidates :: "self \<Rightarrow> worker list" where
  "revoke_candidates s =
     (let in_flight = filter (\<lambda>w. \<not> w_retired w \<and> w_current_input w \<noteq> None) (s_workers s);
          parked = filter w_throttled in_flight;
          running = sort_key w_attempt_cpu_seconds (filter (\<lambda>w. \<not> w_throttled w) in_flight)
      in sort_key w_attempt_cpu_seconds
           (if s_cpu_utilization s \<ge> CPU_UTILIZATION_SATURATED
            then parked @ take (length running div 2) running else parked))"

definition revoke_inputs_for_idle_peer :: "real \<Rightarrow> int \<Rightarrow> self \<Rightarrow> self \<times> job_input list" where
  "revoke_inputs_for_idle_peer now max_inputs s =
     (let victims = take (nat max_inputs) (revoke_candidates s)
      in if revoke_candidates s = [] then (s, [])
         else ((retire_and_clear (map w_name victims) s)
                 \<lparr>s_reboot_containers_after_job := True, s_last_pressure_retirement_at := now\<rparr>,
               List.map_filter w_current_input victims))"

section \<open>Recovering capacity\<close>

text \<open>
  Unparking one worker: the most advanced parked one, of those that may be resumed. \<open>resumable\<close> is the
  memory check for workers whose pages were swapped out.
\<close>

definition unthrottle_choice :: "(worker \<Rightarrow> bool) \<Rightarrow> self \<Rightarrow> worker option" where
  "unthrottle_choice resumable s =
     List.find resumable
       (sort_key (\<lambda>w. - w_attempt_cpu_seconds w) (filter w_throttled (alive_workers s)))"

definition unthrottle_one_parked_worker :: "(worker \<Rightarrow> bool) \<Rightarrow> self \<Rightarrow> self" where
  "unthrottle_one_parked_worker resumable s =
     (case unthrottle_choice resumable s of
        None \<Rightarrow> s
      | Some w \<Rightarrow> on_worker (w_name w) (\<lambda>w. w\<lparr>w_throttled := False\<rparr>) s)"

text \<open>A booted worker joins the pool with the function loaded, in place of the retired one it replaces.\<close>

definition new_worker :: "string \<Rightarrow> string \<Rightarrow> worker" where
  "new_worker name python_version =
     \<lparr>w_name = name, w_python_version = python_version, w_retired = False, w_is_idle = True,
      w_current_input = None, w_throttled = False, w_attempt_cpu_seconds = 0, w_task = Between\<rparr>"

definition boot_readded_worker :: "worker \<Rightarrow> string option \<Rightarrow> self \<Rightarrow> self" where
  "boot_readded_worker w template s =
     s\<lparr>s_workers := (case template of
          None \<Rightarrow> s_workers s | Some k \<Rightarrow> filter (\<lambda>v. w_name v \<noteq> k) (s_workers s)) @ [w]\<rparr>"

definition READD_BOOT_BATCH_MAX :: int where "READD_BOOT_BATCH_MAX = 8"
definition MEMORY_READD_DWELL_SECONDS :: real where "MEMORY_READD_DWELL_SECONDS = 10"

text \<open>
  One tick of the recovery loop, after the readings: \<open>green\<close> and \<open>fast\<close> are its two gate conditions,
  \<open>fits\<close> the measured room for another worker, \<open>last_readd\<close> its last memory-paced boot. The result
  is the state, \<open>last_readd\<close>, whether a parked worker is resumed, and the workers to replace with
  the number to boot.
\<close>

definition readd_tick ::
  "bool \<Rightarrow> int \<Rightarrow> real \<Rightarrow> bool \<Rightarrow> bool \<Rightarrow> bool \<Rightarrow> real \<Rightarrow> self
    \<Rightarrow> self \<times> real \<times> bool \<times> string list \<times> int" where
  "readd_tick local_dev n_cpus now green fast fits last_readd s =
     (let active = alive_workers s;
          deficit = s_target_parallelism s - int (length active);
          memory_probe = (s_dynamic_func_ram s \<and> \<not> local_dev \<and> int (length active) < n_cpus)
      in if filter w_throttled active \<noteq> [] \<and> (green \<or> fast)
         then (s\<lparr>s_readd_gates_last_green_at := Some now\<rparr>, last_readd, True, [], 0)
         else if \<not> green \<or> deficit \<le> 0 \<and> \<not> memory_probe \<or> sq_qsize (s_inputs_queue s) = 0
           \<or> s_dynamic_func_ram s \<and> \<not> local_dev \<and> active \<noteq> [] \<and> \<not> fits
         then (s, last_readd, False, [], 0)
         else if deficit \<le> 0 \<or> now - s_last_memory_shed_at s < PARK_EVENT_RETENTION_SECONDS
         then (if now - max (s_last_memory_shed_at s) last_readd < MEMORY_READD_DWELL_SECONDS
               then (s, last_readd, False, [], 0)
               else (s\<lparr>s_target_parallelism := s_target_parallelism s + (if deficit \<le> 0 then 1 else 0)\<rparr>,
                     now, False, map w_name (take 1 (filter w_retired (s_workers s))), 1))
         else (let batch = min deficit READD_BOOT_BATCH_MAX
               in (s\<lparr>s_readd_gates_last_green_at := Some now\<rparr>, last_readd, False,
                   map w_name (take (nat batch) (filter w_retired (s_workers s))), batch)))"

end
