(* ===== verification/Job_Endpoints.thy ===== *)
theory Job_Endpoints
  imports Node_State
begin

text \<open>
  The job endpoints of a node service, \<open>node_service/job_endpoints.py\<close>: the assignment of a job, the
  upload of inputs, polling results, stealing inputs and trading slots. A handler maps \<open>SELF\<close> to a
  new \<open>SELF\<close> and a reply. \<open>uuid4\<close>, the clock, the worker sockets and the container kills are
  parameters or outside; the handlers under \<open>input_transfer_lock\<close> are single steps.
\<close>

section \<open>Logs\<close>

definition MAX_LOGS_RESPONSE_BYTES :: int where "MAX_LOGS_RESPONSE_BYTES = 1000000"
definition MAX_LOG_DOCUMENTS_PER_RESULTS_RESPONSE :: nat where "MAX_LOG_DOCUMENTS_PER_RESULTS_RESPONSE = 500"
definition MAX_PENDING_LOGS :: nat where "MAX_PENDING_LOGS = 20000"

text \<open>Messages are counted in characters; for ASCII text that is their UTF-8 length.\<close>

definition log_document_size :: "log_document \<Rightarrow> int" where
  "log_document_size d = 180 + (\<Sum>l\<leftarrow>ld_logs d. int (length (ll_message l)) + 180)"

definition overflow_document :: log_document where
  "overflow_document =
     \<lparr>ld_logs = [\<lparr>ll_message = ''Logs dequeued due to high volume, see dashboard to view all logs.''\<rparr>],
      ld_input_index = None\<rparr>"

text \<open>The loop: documents from the front while their number and size allow, the first one always.\<close>

fun drain_logs :: "nat \<Rightarrow> int \<Rightarrow> log_document list \<Rightarrow> log_document list \<times> log_document list" where
  "drain_logs n used [] = ([], [])"
| "drain_logs n used (d # ds) =
     (if n \<ge> MAX_LOG_DOCUMENTS_PER_RESULTS_RESPONSE
         \<or> n > 0 \<and> used + log_document_size d > MAX_LOGS_RESPONSE_BYTES
      then ([], d # ds)
      else (let (out, rest) = drain_logs (Suc n) (used + log_document_size d) ds in (d # out, rest)))"

definition pop_pending_logs :: "self \<Rightarrow> self \<times> log_document list" where
  "pop_pending_logs s =
     (let warning = (if length (s_pending_logs s) = MAX_PENDING_LOGS then [overflow_document] else []);
          (out, rest) = drain_logs (length warning) (\<Sum>d\<leftarrow>warning. log_document_size d) (s_pending_logs s)
      in (s\<lparr>s_pending_logs := rest\<rparr>, warning @ out))"

section \<open>Results\<close>

definition MAX_RESULTS_RESPONSE_BYTES :: int where "MAX_RESULTS_RESPONSE_BYTES = 1000000"

fun drain_results :: "nat \<Rightarrow> int \<Rightarrow> job_result sizedq \<Rightarrow> job_result list \<times> job_result sizedq" where
  "drain_results 0 used q = ([], q)"
| "drain_results (Suc n) used q =
     (if used \<ge> MAX_RESULTS_RESPONSE_BYTES then ([], q)
      else case sq_get_nowait q of
             None \<Rightarrow> ([], q)
           | Some (r, q') \<Rightarrow>
               (let (rs, q'') = drain_results n (used + result_len r) q' in (r # rs, q'')))"

text \<open>The pending batch, or a new one from the queue under the identifier \<open>uuid4\<close> gave.\<close>

definition get_result_batch :: "string \<Rightarrow> self \<Rightarrow> self \<times> (string \<times> job_result list) option" where
  "get_result_batch uuid s =
     (case s_pending_result_batch s of
        Some batch \<Rightarrow> (s, Some batch)
      | None \<Rightarrow>
          (let (results, q) = drain_results (length (sq_queue (s_results_queue s))) 0 (s_results_queue s)
           in if results = [] then (s, None)
              else (s\<lparr>s_results_queue := q, s_pending_result_batch := Some (uuid, results)\<rparr>,
                    Some (uuid, results))))"

record results_reply =
  gr_batch :: "(string \<times> job_result list) option"
  gr_current_parallelism :: int
  gr_dynamic_worker_reduction :: "(int \<times> int) option"
  gr_logs :: "log_document list"
  gr_cluster_shutdown :: bool
  gr_cluster_restarted :: bool
  gr_dashboard_canceled :: bool

definition ack_batch :: "string option \<Rightarrow> self \<Rightarrow> self" where
  "ack_batch ack s =
     (case s_pending_result_batch s of
        Some (k, _) \<Rightarrow> if Some k = ack then s\<lparr>s_pending_result_batch := None\<rparr> else s
      | None \<Rightarrow> s)"

definition worker_reduction :: "self \<Rightarrow> (int \<times> int) option" where
  "worker_reduction s =
     (let original = int (length (s_workers s)); current = int (length (alive_workers s))
      in if (s_dynamic_func_ram s \<or> s_dynamic_func_cpu s) \<and> current < original
         then Some (original, current) else None)"

text \<open>\<open>None\<close> is the 404 for another job.\<close>

definition get_results :: "string \<Rightarrow> self \<Rightarrow> string \<Rightarrow> string option \<Rightarrow> self \<times> results_reply option" where
  "get_results uuid s job_id ack =
     (if s_current_job s \<noteq> Some job_id then (s, None)
      else
        (let (s2, batch) = get_result_batch uuid (ack_batch ack s);
             (s3, logs) = pop_pending_logs s2
         in (s3, Some \<lparr>gr_batch = batch, gr_current_parallelism = s_current_parallelism s3,
                   gr_dynamic_worker_reduction = worker_reduction s3, gr_logs = logs,
                   gr_cluster_shutdown = s_pending_cluster_shutdown s3,
                   gr_cluster_restarted = s_pending_cluster_restarted s3,
                   gr_dashboard_canceled = s_pending_dashboard_canceled s3\<rparr>)))"

section \<open>Stealing inputs\<close>

text \<open>The loop that pops inputs from the back, up to a number and three megabytes.\<close>

fun take_back :: "nat \<Rightarrow> int \<Rightarrow> job_input list \<Rightarrow> job_input sizedq \<Rightarrow> job_input list \<times> job_input sizedq" where
  "take_back 0 used items q = (items, q)"
| "take_back (Suc n) used items q =
     (case sq_get_last_nowait q of
        None \<Rightarrow> (items, q)
      | Some (x, q') \<Rightarrow>
          if used + pkl_len x > 3000000 \<and> items \<noteq> [] then (items, sq_put_nowait x (pkl_len x) q')
          else take_back n (used + pkl_len x) (items @ [x]) q')"

definition steal_target :: "self \<Rightarrow> int \<Rightarrow> nat" where
  "steal_target s requester_queue_size =
     nat (max (sq_qsize (s_inputs_queue s) - requester_queue_size) 1 div 2)"

definition pick_inputs :: "real \<Rightarrow> int \<Rightarrow> int \<Rightarrow> self \<Rightarrow> self \<times> job_input list" where
  "pick_inputs now requester_queue_size requester_idle_workers s =
     (let (items, q) = take_back (steal_target s requester_queue_size) 0 [] (s_inputs_queue s);
          s1 = s\<lparr>s_inputs_queue := q\<rparr>
      in if items = [] \<and> sq_qsize q = 0 \<and> requester_queue_size = 0 \<and> requester_idle_workers > 0
         then revoke_inputs_for_idle_peer now requester_idle_workers s1
         else (s1, rev items))"

text \<open>\<open>None\<close> is the 404.\<close>

definition get_inputs ::
  "real \<Rightarrow> self \<Rightarrow> string \<Rightarrow> string \<Rightarrow> int \<Rightarrow> int \<Rightarrow> self \<times> job_input list option" where
  "get_inputs now s job_id transfer_id requester_queue_size requester_idle_workers =
     (if s_current_job s \<noteq> Some job_id \<or> s_job_watcher_stop s then (s, None)
      else case map_of (s_pending_transfers s) transfer_id of
             Some items \<Rightarrow> (s, Some items)
           | None \<Rightarrow>
               (let (s1, items) = pick_inputs now requester_queue_size requester_idle_workers s
                in (s1\<lparr>s_pending_transfers := dset transfer_id items (s_pending_transfers s1)\<rparr>, Some items)))"

text \<open>The flag is false for the 404.\<close>

definition ack_transfer :: "self \<Rightarrow> string \<Rightarrow> string \<Rightarrow> bool \<Rightarrow> self \<times> bool" where
  "ack_transfer s job_id transfer_id received =
     (if s_current_job s \<noteq> Some job_id then (s, False)
      else case map_of (s_pending_transfers s) transfer_id of
             None \<Rightarrow> (s, True)
           | Some items \<Rightarrow>
               (let s1 = s\<lparr>s_pending_transfers := ddel transfer_id (s_pending_transfers s)\<rparr>
                in (if received then s1 else queue_inputs items s1, True)))"

section \<open>Trading slots\<close>

definition TRADE_IDLE_GRACE_SEC :: real where "TRADE_IDLE_GRACE_SEC = 30"
definition SLOT_TRADE_PRESSURE_COOLDOWN_SECONDS :: real where "SLOT_TRADE_PRESSURE_COOLDOWN_SECONDS = 30"

text \<open>The checks before the lock: \<open>Inl\<close> is an answer (\<open>None\<close> the 404), \<open>Inr\<close> goes on.\<close>

definition trade_check :: "self \<Rightarrow> string \<Rightarrow> string \<Rightarrow> string \<Rightarrow> int option + unit" where
  "trade_check s job_id requesting_node trade_id =
     (if s_current_job s \<noteq> Some job_id then Inl None
      else if s_job_watcher_stop s then Inl (Some 0)
      else case map_of (s_slot_trades_granted s) requesting_node of
             Some t \<Rightarrow> if tr_trade_id t = trade_id then Inl (Some (tr_slots_granted t)) else Inr ()
           | None \<Rightarrow> Inr ())"

definition unbacked_grant :: "real \<Rightarrow> self \<Rightarrow> int \<Rightarrow> int" where
  "unbacked_grant now s slots_requested =
     (if now - s_last_pressure_retirement_at s < SLOT_TRADE_PRESSURE_COOLDOWN_SECONDS
         \<and> s_replacement_request_id s = None
      then min slots_requested (max 0 (s_target_parallelism s - int (length (alive_workers s))))
      else 0)"

definition idle_to_give :: "real \<Rightarrow> self \<Rightarrow> int \<Rightarrow> worker list" where
  "idle_to_give now s wanted =
     (if sq_qsize (s_inputs_queue s) = 0 \<and> s_all_inputs_uploaded s
         \<and> now - s_job_assigned_at s > TRADE_IDLE_GRACE_SEC
      then take (nat (max 0 wanted)) (filter (\<lambda>w. w_is_idle w \<and> w_current_input w = None) (alive_workers s))
      else [])"

text \<open>
  One turn of the loop over the idle workers; killing the worker's process is awaited before the
  next turn.
\<close>

definition trade_retire :: "string \<Rightarrow> self \<Rightarrow> self" where
  "trade_retire name s =
     cancel_task name (on_worker name (\<lambda>w. w\<lparr>w_retired := True\<rparr>) (s\<lparr>s_reboot_containers_after_job := True\<rparr>))"

definition trade_commit :: "string \<Rightarrow> string \<Rightarrow> int \<Rightarrow> self \<Rightarrow> self" where
  "trade_commit requesting_node trade_id granted s =
     s\<lparr>s_target_parallelism := s_target_parallelism s - granted,
       s_slot_trades_granted := dset requesting_node
         \<lparr>tr_trade_id = trade_id, tr_slots_granted = granted\<rparr> (s_slot_trades_granted s)\<rparr>"

definition trade_grant :: "real \<Rightarrow> self \<Rightarrow> string \<Rightarrow> int \<Rightarrow> string \<Rightarrow> self \<times> int" where
  "trade_grant now s requesting_node slots_requested trade_id =
     (let unbacked = unbacked_grant now s slots_requested;
          idle = idle_to_give now s (slots_requested - unbacked);
          granted = unbacked + int (length idle)
      in (trade_commit requesting_node trade_id granted (fold trade_retire (map w_name idle) s), granted))"

definition trade_slots ::
  "real \<Rightarrow> self \<Rightarrow> string \<Rightarrow> string \<Rightarrow> int \<Rightarrow> string \<Rightarrow> self \<times> int option" where
  "trade_slots now s job_id requesting_node slots_requested trade_id =
     (case trade_check s job_id requesting_node trade_id of
        Inl reply \<Rightarrow> (s, reply)
      | Inr _ \<Rightarrow>
          (let (s1, granted) = trade_grant now s requesting_node slots_requested trade_id
           in (s1, Some granted)))"

section \<open>Uploading inputs\<close>

datatype upload_reply = UploadNotFound | UploadWaits | Uploaded

definition INPUTS_QUEUE_RAM_LIMIT_BYTES :: "int \<Rightarrow> int" where
  "INPUTS_QUEUE_RAM_LIMIT_BYTES total_memory = min (1 * 1024 ^ 3) (total_memory div 8)"

text \<open>The check that an upload passes (again after every wait), and the puts that follow it.\<close>

definition upload_check :: "int \<Rightarrow> self \<Rightarrow> string \<Rightarrow> upload_reply" where
  "upload_check total_memory s job_id =
     (if s_current_job s \<noteq> Some job_id then UploadNotFound
      else if sq_size_bytes (s_inputs_queue s) > INPUTS_QUEUE_RAM_LIMIT_BYTES total_memory then UploadWaits
      else Uploaded)"

definition upload_inputs :: "int \<Rightarrow> self \<Rightarrow> string \<Rightarrow> job_input list \<Rightarrow> self \<times> upload_reply" where
  "upload_inputs total_memory s job_id inputs =
     (case upload_check total_memory s job_id of
        Uploaded \<Rightarrow> (queue_inputs inputs s, Uploaded) | r \<Rightarrow> (s, r))"

section \<open>Assignment\<close>

text \<open>\<open>on_job_start\<close>, run by the middleware when an assignment request arrives.\<close>

datatype start_refusal = ShuttingDown | NodeBusy

definition on_job_start :: "self \<Rightarrow> string \<Rightarrow> start_refusal + self" where
  "on_job_start s job_id =
     (if s_shutting_down s then Inl ShuttingDown
      else if s_running s \<or> s_booting s then Inl NodeBusy
      else Inr (s\<lparr>s_running := True, s_current_job := Some job_id, s_reserved_for_job := None,
                  s_reported_status := RUNNING, s_job_view := None\<rparr>))"

record assignment =
  as_parallelism :: int
  as_user_python_version :: string
  as_func_cpu :: func_res
  as_func_ram :: func_res
  as_n_inputs :: int
  as_max_parallelism :: "int option"

text \<open>The loop over the workers: those with the right Python, up to the parallelism, and the rest.\<close>

fun split_workers :: "string \<Rightarrow> int \<Rightarrow> int \<Rightarrow> worker list \<Rightarrow> worker list \<times> worker list" where
  "split_workers version parallelism so_far [] = ([], [])"
| "split_workers version parallelism so_far (w # ws) =
     (if w_python_version w = version \<and> so_far < parallelism
      then (let (yes, no) = split_workers version parallelism (so_far + 1) ws in (w # yes, no))
      else (let (yes, no) = split_workers version parallelism so_far ws in (yes, w # no)))"

datatype assign_refusal = NoSlots | NoWorkersYet | NoCompatibleContainers

definition assign_refusal_of :: "self \<Rightarrow> assignment \<Rightarrow> assign_refusal" where
  "assign_refusal_of s a =
     (if as_parallelism a \<le> 0 then NoSlots
      else if s_workers s = [] then NoWorkersYet else NoCompatibleContainers)"

text \<open>\<open>load_function\<close> starts the task of a worker that has none.\<close>

definition load_function :: "worker \<Rightarrow> worker" where
  "load_function w = (if w_task w = Stopped then w\<lparr>w_task := Between\<rparr> else w)"

definition execute :: "real \<Rightarrow> self \<Rightarrow> assignment \<Rightarrow> self \<times> assign_refusal option" where
  "execute now s a =
     (let (assigned, idle) = split_workers (as_user_python_version a) (as_parallelism a) 0 (s_workers s)
      in if assigned = []
         then (s\<lparr>s_running := False, s_current_job := None, s_reported_status := READY\<rparr>,
               Some (assign_refusal_of s a))
         else (s\<lparr>s_workers := map load_function assigned, s_idle_workers := idle,
                 s_current_parallelism := 0, s_target_parallelism := int (length assigned),
                 s_job_assigned_at := now, s_dynamic_func_ram := (as_func_ram a = Dynamic),
                 s_dynamic_func_cpu := (as_func_cpu a = Dynamic),
                 s_mint_slots_allowed := (case as_max_parallelism a of
                    None \<Rightarrow> False | Some m \<Rightarrow> m \<ge> as_n_inputs a),
                 s_reboot_containers_after_job := False, s_job_watcher_stop := False\<rparr>, None))"

end
