(* ===== verification/Node_Inputs.thy ===== *)
theory Node_Inputs
  imports Job_Endpoints
begin

text \<open>
  Where a node's inputs are: queued, in a worker, done with their result waiting, or in the batch a
  client has not acknowledged; and, apart from these, in batches parked for a stealing peer. Every
  operation of a node moves inputs between these places without losing or duplicating one.
\<close>

named_theorems moves \<open>what an operation does to the places an input can be\<close>

section \<open>Places\<close>

definition held :: "worker \<Rightarrow> int multiset" where
  "held w = (case w_current_input w of None \<Rightarrow> {#} | Some x \<Rightarrow> {#fst x#})"

definition queued_ids :: "self \<Rightarrow> int multiset" where
  "queued_ids s = image_mset fst (sq_contents (s_inputs_queue s))"

definition running_ids :: "self \<Rightarrow> int multiset" where
  "running_ids s = (\<Sum>w\<leftarrow>s_workers s. held w)"

definition batch_ids :: "self \<Rightarrow> int multiset" where
  "batch_ids s = (case s_pending_result_batch s of None \<Rightarrow> {#} | Some (k, rs) \<Rightarrow> mset (map fst rs))"

definition result_ids :: "self \<Rightarrow> int multiset" where
  "result_ids s = image_mset fst (sq_contents (s_results_queue s)) + batch_ids s"

definition node_ids :: "self \<Rightarrow> int multiset" where
  "node_ids s = queued_ids s + running_ids s + result_ids s"

definition item_ids :: "job_input list \<Rightarrow> int multiset" where
  "item_ids xs = mset (map fst xs)"

lemma item_ids_simps [simp]: "item_ids [] = {#}" "item_ids (x # xs) = add_mset (fst x) (item_ids xs)"
  "item_ids (xs @ ys) = item_ids xs + item_ids ys" "item_ids (rev xs) = item_ids xs"
  by (simp_all add: item_ids_def)

text \<open>
  What every operation keeps: the queues know their size, worker names are unique, only a running
  task holds an input, its worker is not idle, and a retired worker neither holds one nor will take one.
\<close>

definition worker_ok :: "worker \<Rightarrow> bool" where
  "worker_ok w \<longleftrightarrow> (w_current_input w \<noteq> None \<longrightarrow> w_task w = Running \<and> \<not> w_is_idle w) \<and>
     (w_retired w \<longrightarrow> w_current_input w = None \<and> w_task w \<in> {Running, Stopped})"

definition node_ok :: "self \<Rightarrow> bool" where
  "node_ok s \<longleftrightarrow> sq_ok (s_inputs_queue s) \<and> sq_ok (s_results_queue s) \<and>
     distinct (map w_name (s_workers s)) \<and> (\<forall>w \<in> set (s_workers s). worker_ok w) \<and>
     distinct (dkeys (s_pending_transfers s))"

section \<open>One worker\<close>

lemma on_worker_simps [simp]:
  "s_inputs_queue (on_worker k f s) = s_inputs_queue s" "s_results_queue (on_worker k f s) = s_results_queue s"
  "s_pending_result_batch (on_worker k f s) = s_pending_result_batch s"
  "s_pending_transfers (on_worker k f s) = s_pending_transfers s"
  "s_current_job (on_worker k f s) = s_current_job s" "s_job_watcher_stop (on_worker k f s) = s_job_watcher_stop s"
  by (simp_all add: on_worker_def)

lemma find_worker_mem: "find_worker s k = Some w \<Longrightarrow> w \<in> set (s_workers s) \<and> w_name w = k"
  by (auto simp: find_worker_def find_Some_iff in_set_conv_nth)

lemma find_worker_unique:
  "find_worker s k = Some w \<Longrightarrow> distinct (map w_name (s_workers s)) \<Longrightarrow> v \<in> set (s_workers s) \<Longrightarrow>
     w_name v = k \<Longrightarrow> v = w"
  using find_worker_mem [of s k w] by (auto simp: distinct_map inj_on_def)

lemma sum_held_update:
  "distinct (map w_name ws) \<Longrightarrow> w \<in> set ws \<Longrightarrow>
     (\<Sum>v\<leftarrow>map (\<lambda>v. if w_name v = w_name w then f v else v) ws. held v) + held w = (\<Sum>v\<leftarrow>ws. held v) + held (f w)"
proof (induction ws)
  case (Cons v ws)
  show ?case
  proof (cases "v = w")
    case True
    have "w_name w \<notin> w_name ` set ws" using Cons.prems True by simp
    then have "map (\<lambda>v. if w_name v = w_name w then f v else v) ws = ws"
      by (intro map_idI) (metis imageI)
    then show ?thesis using True by (simp add: ac_simps)
  next
    case False
    then have "w \<in> set ws" "w_name v \<noteq> w_name w" using Cons.prems by (auto simp: rev_image_eqI)
    then show ?thesis using Cons by (simp add: ac_simps)
  qed
qed simp

lemma running_on_worker:
  assumes "find_worker s k = Some w" "distinct (map w_name (s_workers s))"
  shows "running_ids (on_worker k f s) + held w = running_ids s + held (f w)"
  using sum_held_update [OF assms(2), of w f] find_worker_mem [OF assms(1)]
  by (simp add: running_ids_def on_worker_def)

lemma node_ok_on_worker:
  assumes "node_ok s" "find_worker s k = Some w" "w_name (f w) = k" "worker_ok (f w)"
  shows "node_ok (on_worker k f s)"
proof -
  have d: "distinct (map w_name (s_workers s))" using assms(1) by (simp add: node_ok_def)
  have w: "v = w" if "v \<in> set (s_workers s)" "w_name v = k" for v
    using find_worker_unique [OF assms(2) d that] .
  have "map w_name (s_workers (on_worker k f s)) = map w_name (s_workers s)"
    using w assms(3) by (auto simp: on_worker_def)
  moreover have "\<forall>v \<in> set (s_workers (on_worker k f s)). worker_ok v"
    using w assms(1,4) by (auto simp: on_worker_def node_ok_def)
  ultimately show ?thesis using assms(1) d by (simp add: node_ok_def)
qed

text \<open>
  An operation that keeps the node well formed: \<open>out\<close> leaves the node's places, \<open>new\<close> enters them;
  the batches parked for peers and the job stay.
\<close>

definition moved :: "int multiset \<Rightarrow> int multiset \<Rightarrow> self \<Rightarrow> self \<Rightarrow> bool" where
  "moved out new s s' \<longleftrightarrow> node_ok s' \<and> node_ids s' + out = node_ids s + new \<and>
     s_pending_transfers s' = s_pending_transfers s \<and> s_current_job s' = s_current_job s \<and>
     s_job_watcher_stop s' = s_job_watcher_stop s"

abbreviation keeps :: "self \<Rightarrow> self \<Rightarrow> bool" where
  "keeps \<equiv> moved {#} {#}"

lemma keeps_refl: "node_ok s \<Longrightarrow> keeps s s"
  by (simp add: moved_def)

lemma moved_trans: "moved X Y s s' \<Longrightarrow> moved X' Y' s' s'' \<Longrightarrow> moved (X + X') (Y + Y') s s''"
  unfolding moved_def by (auto simp: ac_simps)

lemma keeps_trans: "keeps s s' \<Longrightarrow> keeps s' s'' \<Longrightarrow> keeps s s''"
  by (simp add: moved_def)

lemma moved_keeps: "moved X X s s' \<Longrightarrow> keeps s s'"
  by (simp add: moved_def)

lemma moved_ok: "moved X Y s s' \<Longrightarrow> node_ok s'"
  by (simp add: moved_def)

text \<open>Fields that hold no inputs may change freely.\<close>

definition same_places :: "self \<Rightarrow> self \<Rightarrow> bool" where
  "same_places s s' \<longleftrightarrow> s_workers s' = s_workers s \<and> s_inputs_queue s' = s_inputs_queue s \<and>
     s_results_queue s' = s_results_queue s \<and> s_pending_result_batch s' = s_pending_result_batch s \<and>
     s_pending_transfers s' = s_pending_transfers s \<and> s_current_job s' = s_current_job s \<and>
     s_job_watcher_stop s' = s_job_watcher_stop s"

lemma same_places_ids:
  assumes "same_places s s'"
  shows "node_ids s' = node_ids s" "node_ok s' = node_ok s" "running_ids s' = running_ids s"
    "find_worker s' k = find_worker s k"
  using assms
  by (simp_all add: same_places_def node_ids_def queued_ids_def running_ids_def result_ids_def
      batch_ids_def node_ok_def find_worker_def)

lemma same_places_keeps: "node_ok s \<Longrightarrow> same_places s s' \<Longrightarrow> keeps s s'"
  using same_places_ids [of s s'] by (simp add: moved_def same_places_def)

lemma moved_on_worker:
  assumes "node_ok s" "find_worker s k = Some w" "w_name (f w) = k" "worker_ok (f w)"
  shows "moved (held w) (held (f w)) s (on_worker k f s)"
  using node_ok_on_worker [where f = f, OF assms] running_on_worker [OF assms(2), of f] assms(1)
  by (simp add: moved_def node_ids_def queued_ids_def result_ids_def batch_ids_def node_ok_def ac_simps)

lemma keeps_on_worker:
  assumes "node_ok s" "find_worker s k = Some w" "w_name (f w) = k" "worker_ok (f w)" "held (f w) = held w"
  shows "keeps s (on_worker k f s)"
  using moved_on_worker [where f = f, OF assms(1-4)] assms(5) by (simp add: moved_keeps)

lemma node_ok_worker: "node_ok s \<Longrightarrow> find_worker s k = Some w \<Longrightarrow> worker_ok w \<and> w_name w = k"
  using find_worker_mem [of s k w] by (auto simp: node_ok_def)

lemma held_simps [simp]:
  "w_current_input w = None \<Longrightarrow> held w = {#}" "w_current_input w = Some x \<Longrightarrow> held w = {#fst x#}"
  by (simp_all add: held_def)

lemma moved_put_result: "node_ok s \<Longrightarrow> moved {#} {#fst r#} s (put_result r s)"
  using sq.contents_put [of "s_results_queue s" r "result_len r"] sq.invar_put [of "s_results_queue s" r "result_len r"]
  by (simp add: moved_def put_result_def node_ok_def node_ids_def queued_ids_def running_ids_def
      result_ids_def batch_ids_def)

lemma moved_queue_inputs: "node_ok s \<Longrightarrow> moved {#} (item_ids xs) s (queue_inputs xs s)"
  using sq.contents_put_all [of "s_inputs_queue s" pkl_len xs] sq.put_all_items [of "s_inputs_queue s" pkl_len xs]
  by (simp add: moved_def queue_inputs_def node_ok_def node_ids_def queued_ids_def running_ids_def
      result_ids_def batch_ids_def item_ids_def)

section \<open>A worker's loop\<close>

lemma idle_worker: "worker_ok w \<Longrightarrow> w_task w \<in> {Between, Waiting} \<Longrightarrow> w_current_input w = None \<and> \<not> w_retired w"
  by (cases "w_current_input w") (auto simp: worker_ok_def)

lemma between_inputs_keeps [moves]:
  assumes "node_ok s"
  shows "keeps s (between_inputs ram_limit k s)"
proof (cases "find_worker s k")
  case (Some w)
  note w = node_ok_worker [OF assms Some]
  show ?thesis
  proof (cases "w_task w = Between")
    case True
    then have h: "w_current_input w = None" "\<not> w_retired w" using idle_worker w by auto
    let ?t = "s\<lparr>s_shed_slots_pending := s_shed_slots_pending s - 1, s_reboot_containers_after_job := True\<rparr>"
    have t: "same_places s ?t" by (simp add: same_places_def)
    have ok: "node_ok ?t" "find_worker ?t k = Some w" using same_places_ids [OF t] assms Some by simp_all
    have "keeps s (on_worker k (\<lambda>w. w\<lparr>w_is_idle := True, w_retired := True, w_task := Stopped\<rparr>) ?t)"
      by (rule keeps_trans [OF same_places_keeps [OF assms t] keeps_on_worker [OF ok]])
        (use h w in \<open>auto simp: worker_ok_def held_def\<close>)
    moreover have "keeps s (on_worker k (\<lambda>w. w\<lparr>w_is_idle := True\<rparr>) s)"
      "keeps s (on_worker k (\<lambda>w. w\<lparr>w_is_idle := True, w_task := Waiting\<rparr>) s)"
      by (rule keeps_on_worker [OF assms Some]; use h w True in \<open>auto simp: worker_ok_def held_def\<close>)+
    ultimately show ?thesis using Some True by (simp add: between_inputs_def)
  qed (simp add: between_inputs_def Some keeps_refl assms)
qed (simp add: between_inputs_def keeps_refl assms)

lemma take_input_keeps [moves]:
  assumes "node_ok s"
  shows "keeps s (take_input k s)"
proof (cases "find_worker s k")
  case (Some w)
  note w = node_ok_worker [OF assms Some]
  have ok: "sq_ok (s_inputs_queue s)" "distinct (map w_name (s_workers s))" using assms by (simp_all add: node_ok_def)
  show ?thesis
  proof (cases "w_task w = Waiting")
    case True
    then have h: "w_current_input w = None" "\<not> w_retired w" using idle_worker w by auto
    show ?thesis
    proof (cases "sq_get_nowait (s_inputs_queue s)")
      case None
      then show ?thesis by (simp add: take_input_def Some keeps_refl assms)
    next
      case get: (Some p)
      obtain x q where p: "p = (x, q)" by (cases p)
      let ?t = "s\<lparr>s_inputs_queue := q\<rparr>"
      let ?f = "\<lambda>w. w\<lparr>w_is_idle := False, w_current_input := Some x, w_attempt_cpu_seconds := 0, w_task := Running\<rparr>"
      have q: "sq_ok q" "sq_contents (s_inputs_queue s) = sq_contents q + {#x#}"
        using sq.get_Some [OF ok(1)] sq.contents_get [OF ok(1)] get p by auto
      have t: "moved {#fst x#} {#} s ?t" "find_worker ?t k = Some w"
        using assms q Some
        by (simp_all add: moved_def node_ok_def node_ids_def queued_ids_def running_ids_def result_ids_def
            batch_ids_def find_worker_def)
      have "moved (held w) {#fst x#} ?t (on_worker k ?f ?t)"
        using moved_on_worker [OF moved_ok [OF t(1)] t(2), of ?f] w h by (auto simp: worker_ok_def held_def)
      then have "keeps s (on_worker k ?f ?t)" using moved_trans [OF t(1)] h by (intro moved_keeps) fastforce
      then show ?thesis using True Some get p by (simp add: take_input_def)
    qed
  qed (simp add: take_input_def Some keeps_refl assms)
qed (simp add: take_input_def keeps_refl assms)

lemma finish_input_keeps [moves]:
  assumes "node_ok s"
  shows "keeps s (finish_input k e payload s)"
proof (cases "find_worker s k")
  case (Some w)
  note w = node_ok_worker [OF assms Some]
  have stop: "keeps s (on_worker k (\<lambda>w. w\<lparr>w_current_input := None, w_task := Stopped\<rparr>) s)" if "w_retired w"
    by (rule keeps_on_worker [OF assms Some]) (use w that in \<open>auto simp: worker_ok_def held_def\<close>)
  have done_: "keeps s (put_result (i, e, payload) (on_worker k (\<lambda>w. w\<lparr>w_current_input := None, w_task := Between\<rparr>) s))"
    if "\<not> w_retired w" "w_current_input w = Some (i, pkl)" for i pkl
  proof -
    let ?f = "\<lambda>w. w\<lparr>w_current_input := None, w_task := Between\<rparr>"
    have m: "moved {#i#} {#} s (on_worker k ?f s)"
      using moved_on_worker [OF assms Some, of ?f] w that by (simp add: worker_ok_def)
    show ?thesis using moved_trans [OF m moved_put_result [OF moved_ok [OF m], of "(i, e, payload)"]]
      by (intro moved_keeps) simp
  qed
  show ?thesis
    using stop done_ by (auto simp: finish_input_def Some keeps_refl assms split: option.splits)
qed (simp add: finish_input_def keeps_refl assms)

lemma attempt_failed_keeps [moves]:
  assumes "node_ok s"
  shows "keeps s (attempt_failed now k err s)"
proof (cases "find_worker s k")
  case (Some w)
  note w = node_ok_worker [OF assms Some]
  let ?stop = "\<lambda>w. w\<lparr>w_current_input := None, w_task := Stopped\<rparr>"
  let ?gone = "\<lambda>w. w\<lparr>w_retired := True, w_current_input := None, w_task := Stopped\<rparr>"
  let ?r = "s\<lparr>s_reboot_containers_after_job := True\<rparr>"
  have r: "same_places s ?r" by (simp add: same_places_def)
  have okr: "node_ok ?r" "find_worker ?r k = Some w" using same_places_ids [OF r] assms Some by simp_all
  have stop: "moved (held w) {#} s (on_worker k ?stop s)"
    using moved_on_worker [OF assms Some, of ?stop] w by (auto simp: worker_ok_def)
  have gone: "moved (held w) {#} s (on_worker k ?gone ?r)"
    using moved_trans [OF same_places_keeps [OF assms r] moved_on_worker [OF okr, of ?gone]] w
    by (auto simp: worker_ok_def)
  have res: "keeps s (put_result (i, True, err) t)" if "moved (held w) {#} s t" "w_current_input w = Some (i, pkl)" for t i pkl
    using moved_trans [OF that(1) moved_put_result [OF moved_ok [OF that(1)], of "(i, True, err)"]] that(2)
    by (intro moved_keeps) simp
  have requeue: "keeps s (queue_inputs [(i, pkl)] (on_worker k (\<lambda>w. w\<lparr>w_is_idle := True\<rparr>)
      ((on_worker k ?gone ?r)\<lparr>s_last_pressure_retirement_at := now\<rparr>)))" if "w_current_input w = Some (i, pkl)" for i pkl
  proof -
    let ?g = "on_worker k ?gone ?r"
    have g: "same_places ?g (?g\<lparr>s_last_pressure_retirement_at := now\<rparr>)" by (simp add: same_places_def)
    have gw: "find_worker ?g k = Some (?gone w)"
      using Some w by (auto simp: find_worker_def on_worker_def find_Some_iff nth_map)
    note okg = same_places_keeps [OF moved_ok [OF gone] g]
    have k: "keeps (?g\<lparr>s_last_pressure_retirement_at := now\<rparr>)
        (on_worker k (\<lambda>w. w\<lparr>w_is_idle := True\<rparr>) (?g\<lparr>s_last_pressure_retirement_at := now\<rparr>))"
      by (rule keeps_on_worker [OF moved_ok [OF okg], of k "?gone w"])
        (use w same_places_ids(4) [OF g] gw in \<open>auto simp: worker_ok_def held_def\<close>)
    note m = moved_trans [OF moved_trans [OF gone okg] k]
    show ?thesis
      using moved_trans [OF m moved_queue_inputs [OF moved_ok [OF m], of "[(i, pkl)]"]] that
      by (intro moved_keeps) simp
  qed
  show ?thesis
    using stop res requeue w
    by (auto simp: attempt_failed_def Some keeps_refl assms Let_def moved_keeps worker_ok_def split: option.splits
        dest: gone [THEN res])
qed (simp add: attempt_failed_def keeps_refl assms)

section \<open>Taking inputs back\<close>

lemma item_ids_map_filter: "item_ids (List.map_filter w_current_input vs) = (\<Sum>w\<leftarrow>vs. held w)"
  by (induction vs) (auto simp: List.map_filter_simps held_def split: option.splits)

lemma sum_held_clear:
  "(\<Sum>v\<leftarrow>map (\<lambda>w. if P w then w\<lparr>w_retired := True, w_is_idle := True, w_current_input := None\<rparr> else w) ws. held v)
     + (\<Sum>v\<leftarrow>filter P ws. held v) = (\<Sum>v\<leftarrow>ws. held v)"
  by (induction ws) (auto simp: ac_simps)

lemma sum_held_mset: "mset xs = mset ys \<Longrightarrow> (\<Sum>w\<leftarrow>xs. held w) = (\<Sum>w\<leftarrow>ys. held w)"
  by (metis mset_map sum_mset_sum_list)

text \<open>Workers chosen among the running ones, each once.\<close>

definition chosen :: "worker list \<Rightarrow> self \<Rightarrow> bool" where
  "chosen vs s \<longleftrightarrow> distinct vs \<and> set vs \<subseteq> set (s_workers s) \<and> (\<forall>w \<in> set vs. w_current_input w \<noteq> None)"

lemma chosen_mset:
  assumes "chosen vs s" "node_ok s"
  shows "mset (filter (\<lambda>w. w_name w \<in> set (map w_name vs)) (s_workers s)) = mset vs"
proof -
  have d: "distinct (s_workers s)" "inj_on w_name (set (s_workers s))"
    using assms(2) by (auto simp: node_ok_def distinct_map)
  have "set (filter (\<lambda>w. w_name w \<in> set (map w_name vs)) (s_workers s)) = set vs"
    using assms(1) d(2) by (auto simp: chosen_def inj_on_def)
  then show ?thesis
    using assms(1) d(1) by (intro set_eq_iff_mset_eq_distinct [THEN iffD1]) (auto simp: chosen_def)
qed

lemma retire_and_clear_moves:
  assumes "node_ok s" "chosen vs s"
  shows "moved (\<Sum>w\<leftarrow>vs. held w) {#} s (retire_and_clear (map w_name vs) s)"
proof -
  let ?P = "\<lambda>w. w_name w \<in> set (map w_name vs)"
  let ?s = "retire_and_clear (map w_name vs) s"
  have run: "running_ids ?s + (\<Sum>w\<leftarrow>vs. held w) = running_ids s"
    using sum_held_clear [where P = ?P, of "s_workers s"] sum_held_mset [OF chosen_mset [OF assms(2,1)]]
    by (simp add: running_ids_def retire_and_clear_def)
  have names: "map w_name (s_workers ?s) = map w_name (s_workers s)"
    by (simp add: retire_and_clear_def)
  have task: "w_task w = Running" if "w \<in> set (s_workers s)" "?P w" for w
  proof -
    from that obtain v where v: "v \<in> set vs" "w_name v = w_name w" by auto
    then have "v = w" using assms that(1) by (auto simp: chosen_def node_ok_def distinct_map inj_on_def)
    then show ?thesis using v assms that(1) by (auto simp: chosen_def node_ok_def worker_ok_def)
  qed
  have "\<forall>w \<in> set (s_workers ?s). worker_ok w"
    using assms(1) task by (auto simp: retire_and_clear_def node_ok_def worker_ok_def)
  then have "node_ok ?s" using assms(1) names by (simp add: node_ok_def) (simp add: retire_and_clear_def)
  then show ?thesis
    using run
    by (simp add: moved_def node_ids_def ac_simps)
      (simp add: retire_and_clear_def queued_ids_def result_ids_def batch_ids_def)
qed

lemma chosen_filter_take: "node_ok s \<Longrightarrow> distinct sel \<Longrightarrow> set sel \<subseteq> set (s_workers s) \<Longrightarrow>
    (\<And>w. P w \<Longrightarrow> w_current_input w \<noteq> None) \<Longrightarrow> chosen (take n (filter P sel)) s"
  unfolding chosen_def using set_take_subset [of n "filter P sel"] by (auto dest: in_set_takeD)

lemma record_park_event_places [simp]: "same_places s (record_park_event now s)"
  by (simp add: same_places_def record_park_event_def)

lemma retire_workers_keeps [moves]:
  assumes "node_ok s" "distinct sel" "set sel \<subseteq> set (s_workers s)"
  shows "keeps s (retire_workers_for_pressure now sel s)"
proof -
  let ?vs = "pressure_victims sel s"
  have c: "chosen ?vs s"
    unfolding pressure_victims_def by (rule chosen_filter_take [OF assms]) auto
  note m = retire_and_clear_moves [OF assms(1) c]
  note q = moved_trans [OF m moved_queue_inputs [OF moved_ok [OF m], of "List.map_filter w_current_input ?vs"]]
  then have k: "keeps s (queue_inputs (List.map_filter w_current_input ?vs) (retire_and_clear (map w_name ?vs) s))"
    by (intro moved_keeps) (simp add: item_ids_map_filter)
  show ?thesis
  proof (cases "?vs = []")
    case False
    let ?q = "queue_inputs (List.map_filter w_current_input ?vs) (retire_and_clear (map w_name ?vs) s)"
    let ?t = "?q\<lparr>s_reboot_containers_after_job := True, s_last_pressure_retirement_at := now,
       s_last_memory_shed_at := now, s_readd_gates_last_green_at := None\<rparr>"
    have "same_places ?q (record_park_event now ?t)" by (simp add: same_places_def record_park_event_def)
    then show ?thesis
      using False keeps_trans [OF k same_places_keeps [OF moved_ok [OF k]]]
      by (simp add: retire_workers_for_pressure_def Let_def)
  qed (simp add: retire_workers_for_pressure_def keeps_refl assms)
qed

lemma keeps_map_workers:
  assumes "node_ok s" "\<And>w. w \<in> set (s_workers s) \<Longrightarrow> worker_ok w \<Longrightarrow>
     w_name (F w) = w_name w \<and> held (F w) = held w \<and> worker_ok (F w)"
  shows "keeps s (s\<lparr>s_workers := map F (s_workers s)\<rparr>)"
proof -
  let ?t = "s\<lparr>s_workers := map F (s_workers s)\<rparr>"
  have ok: "\<forall>w \<in> set (s_workers s). worker_ok w" using assms(1) by (simp add: node_ok_def)
  have h: "map held (s_workers ?t) = map held (s_workers s)" "map w_name (s_workers ?t) = map w_name (s_workers s)"
    using assms(2) ok by auto
  have r: "running_ids ?t = running_ids s" unfolding running_ids_def h(1) ..
  have n: "distinct (map w_name (s_workers ?t))" unfolding h(2) using assms(1) by (simp add: node_ok_def)
  have "\<forall>w \<in> set (s_workers ?t). worker_ok w" using assms(2) ok by auto
  then have "node_ok ?t" using assms(1) n by (simp add: node_ok_def)
  then show ?thesis using r by (simp add: moved_def node_ids_def queued_ids_def result_ids_def batch_ids_def)
qed

lemma park_workers_keeps [moves]:
  assumes "node_ok s"
  shows "keeps s (park_workers_for_memory now sel s)"
proof -
  have "keeps s (s\<lparr>s_workers := map (\<lambda>w. if P w then w\<lparr>w_throttled := True\<rparr> else w) (s_workers s)\<rparr>)" for P
    by (rule keeps_map_workers [OF assms]) (auto simp: held_def worker_ok_def)
  note k = this [of "\<lambda>w. w_name w \<in> set (map w_name (park_victims sel s))"]
  let ?t = "s\<lparr>s_workers := map (\<lambda>w. if w_name w \<in> set (map w_name (park_victims sel s)) then w\<lparr>w_throttled := True\<rparr> else w)
      (s_workers s)\<rparr>"
  have "same_places ?t (record_park_event now (?t\<lparr>s_last_pressure_retirement_at := now,
      s_last_memory_shed_at := now, s_readd_gates_last_green_at := None\<rparr>))"
    by (simp add: same_places_def record_park_event_def)
  from keeps_trans [OF k same_places_keeps [OF moved_ok [OF k] this]] show ?thesis
    by (simp add: park_workers_for_memory_def Let_def keeps_refl assms)
qed

lemma revoke_candidates_chosen:
  assumes "node_ok s"
  shows "chosen (take n (revoke_candidates s)) s"
proof -
  let ?fl = "filter (\<lambda>w. \<not> w_retired w \<and> w_current_input w \<noteq> None) (s_workers s)"
  have d: "distinct (s_workers s)" using assms by (simp add: node_ok_def distinct_map)
  have run: "set (take k (sort_key w_attempt_cpu_seconds (filter (\<lambda>w. \<not> w_throttled w) ?fl))) \<subseteq>
      set (filter (\<lambda>w. \<not> w_throttled w) ?fl)" for k
    using set_take_subset [of k "sort_key w_attempt_cpu_seconds (filter (\<lambda>w. \<not> w_throttled w) ?fl)"] by simp
  let ?R = "take (length (filter (\<lambda>w. \<not> w_throttled w) ?fl) div 2)
      (sort_key w_attempt_cpu_seconds (filter (\<lambda>w. \<not> w_throttled w) ?fl))"
  have "distinct (filter w_throttled ?fl @ ?R)"
    using d run by (fastforce simp: distinct_sort)
  moreover have "set (filter w_throttled ?fl @ ?R) \<subseteq> set ?fl" using run by fastforce
  ultimately have "distinct (revoke_candidates s) \<and> set (revoke_candidates s) \<subseteq> set ?fl"
    using d unfolding revoke_candidates_def Let_def
    by (cases "CPU_UTILIZATION_SATURATED \<le> s_cpu_utilization s") (auto simp: distinct_sort simp del: filter_filter)
  then show ?thesis by (auto simp: chosen_def dest!: in_set_takeD)
qed

lemma revoke_moves [moves]:
  assumes "node_ok s"
  shows "moved (item_ids (snd (revoke_inputs_for_idle_peer now n s))) {#} s (fst (revoke_inputs_for_idle_peer now n s))"
proof (cases "revoke_candidates s = []")
  case False
  let ?vs = "take (nat n) (revoke_candidates s)"
  let ?t = "retire_and_clear (map w_name ?vs) s"
  note m = retire_and_clear_moves [OF assms revoke_candidates_chosen [OF assms]]
  have "same_places ?t (?t\<lparr>s_reboot_containers_after_job := True, s_last_pressure_retirement_at := now\<rparr>)"
    by (simp add: same_places_def)
  from moved_trans [OF m same_places_keeps [OF moved_ok [OF m] this]] show ?thesis
    using False by (simp add: revoke_inputs_for_idle_peer_def Let_def item_ids_map_filter)
qed (simp add: revoke_inputs_for_idle_peer_def keeps_refl assms)

section \<open>The job endpoints\<close>

lemma take_back_moves:
  "take_back n used xs q = (xs', q') \<Longrightarrow> sq_ok q \<Longrightarrow>
     sq_ok q' \<and> sq_contents q' + mset xs' = sq_contents q + mset xs"
proof (induction n arbitrary: used xs q)
  case (Suc n)
  show ?case
  proof (cases "sq_get_last_nowait q")
    case None
    then show ?thesis using Suc.prems by simp
  next
    case (Some p)
    obtain x q1 where p: "p = (x, q1)" by (cases p)
    note l = sq.last_Some [OF Suc.prems(2), of x q1] sq.contents_last [OF Suc.prems(2), of x q1]
    show ?thesis
    proof (cases "used + pkl_len x > 3000000 \<and> xs \<noteq> []")
      case True
      then have "xs' = xs" "q' = sq_put_nowait x (pkl_len x) q1" using Suc.prems(1) Some p by auto
      then show ?thesis
        using l Some p sq.invar_put [of q1 x "pkl_len x"] sq.contents_put [of q1 x "pkl_len x"] by auto
    next
      case False
      then have "take_back n (used + pkl_len x) (xs @ [x]) q1 = (xs', q')" using Suc.prems(1) Some p by auto
      from Suc.IH [OF this] l Some p show ?thesis by (auto simp: ac_simps)
    qed
  qed
qed simp

lemma item_ids_image: "item_ids xs = image_mset fst (mset xs)"
  by (simp add: item_ids_def)

lemma pick_inputs_moves [moves]:
  assumes "node_ok s"
  shows "moved (item_ids (snd (pick_inputs now qs iw s))) {#} s (fst (pick_inputs now qs iw s))"
proof -
  obtain xs q where t: "take_back (steal_target s qs) 0 [] (s_inputs_queue s) = (xs, q)"
    by (cases "take_back (steal_target s qs) 0 [] (s_inputs_queue s)")
  have "sq_ok (s_inputs_queue s)" using assms by (simp add: node_ok_def)
  from take_back_moves [OF t this] have q: "sq_ok q" "sq_contents q + mset xs = sq_contents (s_inputs_queue s)"
    by simp_all
  have m: "moved (item_ids xs) {#} s (s\<lparr>s_inputs_queue := q\<rparr>)"
    using assms q(1) arg_cong [OF q(2), of "image_mset fst"]
    by (simp add: moved_def node_ok_def node_ids_def queued_ids_def running_ids_def result_ids_def batch_ids_def
        item_ids_image ac_simps)
  let ?c = "xs = [] \<and> sq_qsize q = 0 \<and> qs = 0 \<and> iw > 0"
  have e: "pick_inputs now qs iw s =
      (if ?c then revoke_inputs_for_idle_peer now iw (s\<lparr>s_inputs_queue := q\<rparr>)
       else (s\<lparr>s_inputs_queue := q\<rparr>, rev xs))"
    by (simp only: pick_inputs_def t Let_def prod.case)
  show ?thesis
  proof (cases ?c)
    case True
    then have "item_ids xs = {#}" by simp
    with moved_trans [OF m revoke_moves [OF moved_ok [OF m], of now iw]] show ?thesis
      by (simp only: e if_P [OF True] add_0)
  next
    case False
    show ?thesis using m by (simp only: e if_not_P [OF False] fst_conv snd_conv item_ids_simps)
  qed
qed

text \<open>A steal request is refused, answered from the parked batch, or parks a new batch.\<close>

lemma get_inputs_cases:
  assumes "get_inputs now s k tid qs iw = (s', rep)" "node_ok s"
  obtains (refused) "s' = s" "rep = None"
  | (replayed) xs where "s' = s" "rep = Some xs" "map_of (s_pending_transfers s) tid = Some xs"
  | (parked) s1 xs where "rep = Some xs" "map_of (s_pending_transfers s) tid = None"
      "moved (item_ids xs) {#} s s1"
      "s' = s1\<lparr>s_pending_transfers := dset tid xs (s_pending_transfers s)\<rparr>"
proof (cases "s_current_job s \<noteq> Some k \<or> s_job_watcher_stop s")
  case True
  then show thesis using refused assms(1) by (simp add: get_inputs_def)
next
  case False
  show thesis
  proof (cases "map_of (s_pending_transfers s) tid")
    case None
    obtain s1 xs where p: "pick_inputs now qs iw s = (s1, xs)" by (cases "pick_inputs now qs iw s")
    have "moved (item_ids xs) {#} s s1" using pick_inputs_moves [OF assms(2), of now qs iw] p by simp
    then show thesis using parked [of xs s1] assms(1) False None p by (auto simp: get_inputs_def moved_def)
  next
    case (Some xs)
    have "get_inputs now s k tid qs iw = (s, Some xs)"
      by (simp only: get_inputs_def if_not_P [OF False] Some option.case)
    then show thesis using replayed [OF _ _ Some] assms(1) by simp
  qed
qed

lemma ack_transfer_cases:
  assumes "ack_transfer s k tid received = (s', ok)" "node_ok s"
  obtains (refused) "s' = s" "\<not> ok"
  | (unknown) "s' = s" "ok" "map_of (s_pending_transfers s) tid = None"
  | (settled) xs s1 where "ok" "map_of (s_pending_transfers s) tid = Some xs"
      "moved {#} (if received then {#} else item_ids xs) s s1"
      "s' = s1\<lparr>s_pending_transfers := ddel tid (s_pending_transfers s)\<rparr>"
proof (cases "s_current_job s \<noteq> Some k")
  case True
  then show thesis using refused assms(1) by (simp add: ack_transfer_def)
next
  case False
  show thesis
  proof (cases "map_of (s_pending_transfers s) tid")
    case None
    then show thesis using unknown assms(1) False by (auto simp: ack_transfer_def)
  next
    case (Some xs)
    show thesis
    proof (cases received)
      case True
      then show thesis
        using settled [OF _ Some, of s] keeps_refl [OF assms(2)] assms(1) False Some
        by (auto simp: ack_transfer_def Let_def)
    next
      case nr: False
      then show thesis
        using settled [OF _ Some, of "queue_inputs xs s"] moved_queue_inputs [OF assms(2), of xs] assms(1) False Some
        by (auto simp: ack_transfer_def Let_def queue_inputs_def)
    qed
  qed
qed

lemma node_ok_pending: "node_ok s \<Longrightarrow> distinct (dkeys d) \<Longrightarrow> node_ok (s\<lparr>s_pending_transfers := d\<rparr>)"
  by (simp add: node_ok_def)

lemma node_ids_pending [simp]: "node_ids (s\<lparr>s_pending_transfers := d\<rparr>) = node_ids s"
  by (simp add: node_ids_def queued_ids_def running_ids_def result_ids_def batch_ids_def)

text \<open>Trading away idle workers.\<close>

definition empty_handed :: "self \<Rightarrow> string \<Rightarrow> bool" where
  "empty_handed s k \<longleftrightarrow> (\<forall>w \<in> set (s_workers s). w_name w = k \<longrightarrow> w_current_input w = None)"

lemma trade_retire_workers:
  "s_workers (trade_retire k s) =
     map (\<lambda>w. if w_name w = k then w\<lparr>w_retired := True, w_current_input := None, w_task := Stopped\<rparr> else w) (s_workers s)"
  by (auto simp: trade_retire_def cancel_task_def on_worker_def)

lemma trade_retire_keeps:
  assumes "node_ok s" "empty_handed s k"
  shows "keeps s (trade_retire k s)"
proof -
  let ?F = "\<lambda>w. if w_name w = k then w\<lparr>w_retired := True, w_current_input := None, w_task := Stopped\<rparr> else w"
  have k: "keeps s (s\<lparr>s_workers := map ?F (s_workers s)\<rparr>)"
    by (rule keeps_map_workers [OF assms(1)])
      (use assms(2) in \<open>auto simp: empty_handed_def held_def worker_ok_def split: option.splits\<close>)
  have "same_places (s\<lparr>s_workers := map ?F (s_workers s)\<rparr>) (trade_retire k s)"
    using trade_retire_workers [of k s]
    by (simp add: same_places_def) (simp add: trade_retire_def cancel_task_def on_worker_def)
  from keeps_trans [OF k same_places_keeps [OF moved_ok [OF k] this]] show ?thesis .
qed

lemma fold_trade_retire_keeps:
  "node_ok s \<Longrightarrow> \<forall>k \<in> set ks. empty_handed s k \<Longrightarrow> keeps s (fold trade_retire ks s)"
proof (induction ks arbitrary: s)
  case (Cons k ks)
  then have m: "keeps s (trade_retire k s)" by (intro trade_retire_keeps) auto
  have "\<forall>x \<in> set ks. empty_handed (trade_retire k s) x"
    using Cons.prems(2) by (auto simp: empty_handed_def trade_retire_workers)
  from keeps_trans [OF m Cons.IH [OF moved_ok [OF m] this]] show ?case by simp
qed (simp add: keeps_refl)

lemma idle_to_give_empty_handed:
  assumes "node_ok s" "k \<in> set (map w_name (idle_to_give now s n))"
  shows "empty_handed s k"
proof -
  from assms(2) obtain v where v: "v \<in> set (s_workers s)" "w_name v = k" "w_current_input v = None"
    by (auto simp: idle_to_give_def alive_workers_def dest!: in_set_takeD split: if_splits)
  then show ?thesis using assms(1) by (auto simp: empty_handed_def node_ok_def distinct_map inj_on_def)
qed

lemma trade_slots_keeps [moves]:
  assumes "node_ok s"
  shows "keeps s (fst (trade_slots now s k node n tid))"
proof (cases "trade_check s k node tid")
  case (Inr u)
  define idle where "idle = map w_name (idle_to_give now s (n - unbacked_grant now s n))"
  have m: "keeps s (fold trade_retire idle s)"
    unfolding idle_def using idle_to_give_empty_handed [OF assms] by (intro fold_trade_retire_keeps [OF assms]) blast
  have "same_places t (trade_commit node tid g t)" for g t
    by (simp add: same_places_def trade_commit_def)
  from keeps_trans [OF m same_places_keeps [OF moved_ok [OF m] this]] show ?thesis
    using Inr by (simp add: trade_slots_def trade_grant_def Let_def idle_def)
qed (simp add: trade_slots_def keeps_refl assms)

text \<open>Uploads, and polling results: an acknowledged batch leaves the node.\<close>

lemma upload_moves [moves]:
  assumes "node_ok s"
  shows "moved {#} (if snd (upload_inputs mem s k xs) = Uploaded then item_ids xs else {#}) s (fst (upload_inputs mem s k xs))"
  using moved_queue_inputs [OF assms, of xs] keeps_refl [OF assms]
  by (auto simp: upload_inputs_def split: upload_reply.splits)

definition acked_ids :: "string option \<Rightarrow> self \<Rightarrow> int multiset" where
  "acked_ids ack s = (case s_pending_result_batch s of
     Some (k, rs) \<Rightarrow> if Some k = ack then mset (map fst rs) else {#} | None \<Rightarrow> {#})"

lemma ack_batch_moves: "node_ok s \<Longrightarrow> moved (acked_ids ack s) {#} s (ack_batch ack s)"
  by (auto simp: moved_def node_ok_def node_ids_def queued_ids_def running_ids_def result_ids_def batch_ids_def
      acked_ids_def ack_batch_def split: option.splits)

lemma drain_results_moves:
  "drain_results n used q = (rs, q') \<Longrightarrow> sq_ok q \<Longrightarrow> sq_ok q' \<and> sq_contents q' + mset rs = sq_contents q"
proof (induction n arbitrary: used q rs q')
  case (Suc n)
  show ?case
  proof (cases "MAX_RESULTS_RESPONSE_BYTES \<le> used")
    case False
    then show ?thesis
    proof (cases "sq_get_nowait q")
      case (Some p)
      obtain r q1 where p: "p = (r, q1)" by (cases p)
      obtain rs1 q2 where d: "drain_results n (used + result_len r) q1 = (rs1, q2)"
        by (cases "drain_results n (used + result_len r) q1")
      have l: "sq_ok q1" "sq_contents q = sq_contents q1 + {#r#}"
        using sq.get_Some [OF Suc.prems(2)] sq.contents_get [OF Suc.prems(2)] Some p by auto
      have "rs = r # rs1" "q' = q2" using Suc.prems(1) False Some p d by auto
      then show ?thesis using Suc.IH [OF d l(1)] l(2) by (simp add: ac_simps)
    qed (use Suc.prems in simp)
  qed (use Suc.prems in simp)
qed simp

lemma get_result_batch_keeps:
  assumes "node_ok s"
  shows "keeps s (fst (get_result_batch uuid s))"
proof (cases "s_pending_result_batch s")
  case None
  obtain rs q where d: "drain_results (length (sq_queue (s_results_queue s))) 0 (s_results_queue s) = (rs, q)"
    by (cases "drain_results (length (sq_queue (s_results_queue s))) 0 (s_results_queue s)")
  have "sq_ok (s_results_queue s)" using assms by (simp add: node_ok_def)
  from drain_results_moves [OF d this] have q: "sq_ok q" "sq_contents q + mset rs = sq_contents (s_results_queue s)"
    by simp_all
  show ?thesis
    using assms q(1) arg_cong [OF q(2), of "image_mset fst"] None d
    by (auto simp: get_result_batch_def moved_def node_ok_def node_ids_def queued_ids_def running_ids_def
        result_ids_def batch_ids_def ac_simps)
qed (simp add: get_result_batch_def keeps_refl assms)

lemma get_results_moves [moves]:
  assumes "node_ok s"
  shows "moved (if s_current_job s = Some k then acked_ids ack s else {#}) {#} s (fst (get_results uuid s k ack))"
proof (cases "s_current_job s = Some k")
  case True
  obtain s2 b where g: "get_result_batch uuid (ack_batch ack s) = (s2, b)" by (cases "get_result_batch uuid (ack_batch ack s)")
  note a = ack_batch_moves [OF assms, of ack]
  have k: "keeps (ack_batch ack s) s2" using get_result_batch_keeps [OF moved_ok [OF a], of uuid] g by simp
  have "same_places s2 (fst (pop_pending_logs s2))"
    by (simp add: pop_pending_logs_def Let_def same_places_def split: prod.splits)
  from moved_trans [OF moved_trans [OF a k] same_places_keeps [OF moved_ok [OF k] this]] show ?thesis
    using True g by (auto simp: get_results_def split: prod.splits)
qed (simp add: get_results_def keeps_refl assms)

end
