(* ===== verification/Head_Client.thy ===== *)
theory Head_Client
  imports Job_Endpoints Node_Endpoints
begin

text \<open>
  The node's side of its exchanges with the head, \<open>head_client.py\<close>: the body of a state push, the
  shed slots and the job signals that come back, and one whole push composed with the head's handler.
  The HTTP session, the certificates and the lease file are not modelled.
\<close>

section \<open>The state push\<close>

definition progress_of :: "self \<Rightarrow> progress_report" where
  "progress_of s =
     \<lparr>pr_current_num_results = Some (s_num_results_received s),
      pr_client_contact_last_1s = Some (s_client_contact_last_1s s),
      pr_alive_workers = Some (int (length (alive_workers s))),
      pr_busy_workers = Some (s_current_parallelism s)\<rparr>"

text \<open>
  \<open>status\<close> only says that a status is pushed: the one sent is the current \<open>reported_status\<close>. The
  other fields are passed through; \<open>lease_expires_at\<close> is the lease this node holds.
\<close>

definition push_request ::
  "self \<Rightarrow> real \<Rightarrow> bool \<Rightarrow> bool \<Rightarrow> node_field list \<Rightarrow> push_body" where
  "push_request s lease_expires_at with_status include_job_progress extra =
     \<lparr>pb_fields = extra @ (if with_status then [NStatus (Some (s_reported_status s))] else []),
      pb_job_progress =
        (if include_job_progress \<and> truthy (s_current_job s)
         then Some (the (s_current_job s), progress_of s) else None),
      pb_delete_lease_expires_at = Some lease_expires_at\<rparr>"

definition apply_shed :: "int option \<Rightarrow> self \<Rightarrow> self" where
  "apply_shed shed_slots s =
     (let shed = get_or 0 shed_slots
      in if shed \<noteq> 0 \<and> truthy (s_current_job s)
         then (let applied = min shed (s_target_parallelism s)
               in s\<lparr>s_target_parallelism := s_target_parallelism s - applied,
                    s_shed_slots_pending := s_shed_slots_pending s + applied\<rparr>)
         else s)"

text \<open>\<open>None\<close> is a missing view; \<open>Some None\<close> is \<open>{"exists": False}\<close>.\<close>

definition apply_job_signals :: "job_view_t option option \<Rightarrow> self \<Rightarrow> self" where
  "apply_job_signals view s =
     (case view of
        Some (Some v) \<Rightarrow>
          s\<lparr>s_all_inputs_uploaded := s_all_inputs_uploaded s \<or> jv_all_inputs_uploaded v,
            s_pending_cluster_shutdown := s_pending_cluster_shutdown s \<or> jv_cluster_shutdown v,
            s_pending_cluster_restarted := s_pending_cluster_restarted s \<or> jv_cluster_restarted v,
            s_pending_dashboard_canceled := s_pending_dashboard_canceled s \<or> jv_dashboard_canceled v,
            s_job_view := Some v\<rparr>
      | _ \<Rightarrow> s)"

text \<open>\<open>_push_progress\<close> once the head has answered: the view it returns, \<open>None\<close> for no job.\<close>

definition push_progress_reply :: "push_reply \<Rightarrow> self \<Rightarrow> self \<times> job_view_t option" where
  "push_progress_reply r s =
     (apply_job_signals (pu_job r) (apply_shed (pu_shed_slots r) s),
      (case pu_job r of Some v \<Rightarrow> v | None \<Rightarrow> None))"

section \<open>Reservations\<close>

text \<open>
  \<open>watch_reservation\<close>: one poll's answer ends the wait when the job is not running; a failed poll
  (\<open>None\<close>) does not. When the wait ends, a reservation still held for that job is dropped.
\<close>

definition reservation_over :: "job_status option option option \<Rightarrow> bool" where
  "reservation_over answer =
     (case answer of
        None \<Rightarrow> False
      | Some None \<Rightarrow> True
      | Some (Some status) \<Rightarrow> status \<noteq> Some JOB_RUNNING)"

definition drop_reservation :: "string \<Rightarrow> self \<Rightarrow> self \<times> bool" where
  "drop_reservation job_id s =
     (if s_reserved_for_job s = Some job_id then (s\<lparr>s_reserved_for_job := None\<rparr>, True) else (s, False))"

section \<open>One exchange\<close>

text \<open>
  A push with job progress, handled by the head with nothing lost: the node's request, the head's
  handler, and the reply applied to the node.
\<close>

definition push_exchange ::
  "head_env \<Rightarrow> lease_env \<Rightarrow> real \<Rightarrow> head \<Rightarrow> mint dict \<Rightarrow> string \<Rightarrow> real \<Rightarrow> self
    \<Rightarrow> head \<times> mint dict \<times> self" where
  "push_exchange env le now h cs name lease_expires_at s =
     (case push_node_state env le now h cs name (push_request s lease_expires_at False True []) of
        (h1, cs1, _, Inr r) \<Rightarrow> (h1, cs1, fst (push_progress_reply r s))
      | (h1, cs1, _, Inl _) \<Rightarrow> (h1, cs1, s))"

end
