(* ===== verification/Job_Watcher.thy ===== *)
theory Job_Watcher
  imports Head_Client
begin

text \<open>
  The task that runs a job on a node, \<open>job_watcher.py\<close>: stealing inputs from the ring neighbour,
  trading and minting slots, and the watcher loop that asks for replacements, pushes progress, sheds
  idle workers, reclaims stranded inputs and decides when the job is over. Each definition is one
  section of a loop between two awaits; sampled gates, memory limits and the clock are inputs.
\<close>

section \<open>The ring\<close>

definition lifecycle_canceled :: "job_view_t \<Rightarrow> bool" where
  "lifecycle_canceled v \<longleftrightarrow> jv_cluster_shutdown v \<or> jv_cluster_restarted v \<or> jv_dashboard_canceled v
     \<or> jv_status v = Some JOB_CANCELED"

definition get_neighbor :: "peer list \<Rightarrow> string \<Rightarrow> peer option" where
  "get_neighbor peers instance_name =
     (case filter (\<lambda>i. pe_instance_name (peers ! i) = instance_name) [0..<length peers] of
        [] \<Rightarrow> None
      | i # _ \<Rightarrow> if length peers > 1 then Some (hd (drop (i + 1) peers @ take i peers)) else None)"

text \<open>The node's answer from the head; \<open>None\<close> also stands for an unreachable head.\<close>

definition neighbor_finished_scoped_job :: "self \<Rightarrow> node option \<Rightarrow> bool" where
  "neighbor_finished_scoped_job s answer =
     (case answer of
        None \<Rightarrow> False
      | Some n \<Rightarrow> n_status n = Some DELETED \<and> n_job_scope_id n = s_current_job s
          \<and> (case n_terminal_reason n of None \<Rightarrow> False | Some r \<Rightarrow> r_code r = ''job_scope_finished''))"

section \<open>Stealing inputs\<close>

definition claim_drained_job_part :: "self \<Rightarrow> self \<times> bool" where
  "claim_drained_job_part s =
     (let drained = (sq_qsize (s_inputs_queue s) = 0 \<and> s_pending_transfers s = []
            \<and> s_active_input_steal_id s = None
            \<and> list_all (\<lambda>w. w_is_idle w \<or> w_retired w) (s_workers s)
            \<and> sq_qsize (s_results_queue s) = 0 \<and> s_pending_result_batch s = None)
      in (if drained then s\<lparr>s_job_watcher_stop := True\<rparr> else s, drained))"

definition should_steal :: "real \<Rightarrow> real \<Rightarrow> self \<Rightarrow> bool" where
  "should_steal now job_started_at s \<longleftrightarrow>
     s_all_inputs_uploaded s \<and> now - job_started_at > 10 \<and> s_target_parallelism s > 0"

definition CPU_UTILIZATION_RECOVER_MAX :: real where "CPU_UTILIZATION_RECOVER_MAX = 0.90"

definition has_free_capacity :: "self \<Rightarrow> bool" where
  "has_free_capacity s \<longleftrightarrow>
     \<not> parked_workers_exist s \<and> s_cpu_utilization s \<le> CPU_UTILIZATION_RECOVER_MAX"

definition idle_worker_count :: "self \<Rightarrow> int" where
  "idle_worker_count s =
     (if has_free_capacity s
      then int (length (filter (\<lambda>w. w_is_idle w \<and> \<not> w_retired w) (s_workers s))) else 0)"

record steal_request =
  sr_transfer_id :: string
  sr_requester_queue_size :: int
  sr_requester_idle_workers :: int

definition begin_steal :: "string \<Rightarrow> self \<Rightarrow> self \<times> steal_request" where
  "begin_steal transfer_id s =
     (s\<lparr>s_active_input_steal_id := Some transfer_id\<rparr>,
      \<lparr>sr_transfer_id = transfer_id, sr_requester_queue_size = sq_qsize (s_inputs_queue s),
       sr_requester_idle_workers = idle_worker_count s\<rparr>)"

text \<open>
  The batch that arrived (\<open>None\<close> when the request failed) is queued unless the node was traded down
  to zero meanwhile; the flag is \<open>received\<close>.
\<close>

definition accept_items :: "job_input list option \<Rightarrow> self \<Rightarrow> self \<times> bool" where
  "accept_items items s =
     (case items of
        None \<Rightarrow> (s, False)
      | Some xs \<Rightarrow>
          if xs = [] then (s, False)
          else if s_target_parallelism s > 0 then (queue_inputs xs s, True)
          else (s, False))"

definition end_steal :: "self \<Rightarrow> self" where
  "end_steal s = s\<lparr>s_active_input_steal_id := None\<rparr>"

text \<open>The clock of empty answers: since when, and \<open>SEC_NEIGHBOR_HAD_NO_INPUTS\<close>.\<close>

definition note_steal_outcome :: "real \<Rightarrow> bool \<Rightarrow> real option \<Rightarrow> real option \<times> real" where
  "note_steal_outcome now received since =
     (if received then (None, 0) else (Some (get_or now since), now - get_or now since))"

datatype ack_attempt = AckOk | AckStopped | AckRetry | AckTimedOut

definition ACK_RETRY_TIMEOUT_SEC :: real where "ACK_RETRY_TIMEOUT_SEC = 600"

text \<open>
  One turn of the loop that acknowledges a transfer: whether the response was seen, and otherwise
  what the head says of the neighbour.
\<close>

definition ack_turn :: "real \<Rightarrow> real \<Rightarrow> bool \<Rightarrow> node option \<Rightarrow> self \<Rightarrow> ack_attempt" where
  "ack_turn now ack_started acked neighbor s =
     (if \<not> now - ack_started < ACK_RETRY_TIMEOUT_SEC then AckTimedOut
      else if s_job_watcher_stop s then AckStopped
      else if acked \<or> neighbor_finished_scoped_job s neighbor then AckOk
      else AckRetry)"

section \<open>Trading and minting slots\<close>

definition TRADE_INTERVAL_SEC :: real where "TRADE_INTERVAL_SEC = 15"
definition MINT_MAX_SLOTS_PER_ATTEMPT :: int where "MINT_MAX_SLOTS_PER_ATTEMPT = 32"
definition MINT_PARK_REFRACTORY_SEC :: real where "MINT_PARK_REFRACTORY_SEC = 60"
definition GATE_EWMA_TAU_SECONDS :: real where "GATE_EWMA_TAU_SECONDS = 30"
definition MINT_GREEN_STREAK_SEC :: real where "MINT_GREEN_STREAK_SEC = GATE_EWMA_TAU_SECONDS"
definition MINT_STEP_INTERVAL_SEC :: real where "MINT_STEP_INTERVAL_SEC = 15"
definition MINT_BULK_MAX_UTILIZATION :: real where "MINT_BULK_MAX_UTILIZATION = 0.5"
definition MINT_BATCH_HALVING_LOOKBACK_SEC :: real where "MINT_BATCH_HALVING_LOOKBACK_SEC = 300"
definition CPU_UTILIZATION_ADD_MAX :: real where "CPU_UTILIZATION_ADD_MAX = 0.97"
definition READD_MAX_CPU_STALL_FRACTION :: real where "READD_MAX_CPU_STALL_FRACTION = 0.05"
definition READD_MAX_WORKER_MEMORY_USED_FRACTION :: real where "READD_MAX_WORKER_MEMORY_USED_FRACTION = 0.85"
definition READD_MAX_IO_STALL_FRACTION :: real where "READD_MAX_IO_STALL_FRACTION = 0.05"
definition READD_MAX_NETWORK_UTILIZATION_FRACTION :: real where "READD_MAX_NETWORK_UTILIZATION_FRACTION = 0.6"
definition READD_MAX_MEMORY_STALL_FRACTION :: real where "READD_MAX_MEMORY_STALL_FRACTION = 0.05"

text \<open>The smoothed readings of one second.\<close>

record gates =
  g_stall :: real
  g_io :: real
  g_network :: real
  g_memory :: real
  g_utilization :: real

definition stall_gates_green :: "gates \<Rightarrow> bool" where
  "stall_gates_green g \<longleftrightarrow> g_stall g \<le> READD_MAX_CPU_STALL_FRACTION \<and> g_io g \<le> READD_MAX_IO_STALL_FRACTION
     \<and> g_network g \<le> READD_MAX_NETWORK_UTILIZATION_FRACTION \<and> g_memory g \<le> READD_MAX_MEMORY_STALL_FRACTION"

definition mint_gates_green :: "gates \<Rightarrow> bool" where
  "mint_gates_green g \<longleftrightarrow> stall_gates_green g \<and> g_utilization g \<le> CPU_UTILIZATION_ADD_MAX"

record trade_clock =
  tl_mint_gates_green_since :: "real option"
  tl_fully_busy_since :: "real option"
  tl_last_mint_at :: "real option"

definition new_trade_clock :: trade_clock where
  "new_trade_clock =
     \<lparr>tl_mint_gates_green_since = None, tl_fully_busy_since = None, tl_last_mint_at = None\<rparr>"

definition fully_busy :: "self \<Rightarrow> bool" where
  "fully_busy s \<longleftrightarrow> alive_workers s \<noteq> [] \<and> s_current_parallelism s > 0
     \<and> (s_current_parallelism s \<ge> int (length (alive_workers s))
        \<or> sq_qsize (s_inputs_queue s) > int (length (alive_workers s)))"

definition tick_clock :: "real \<Rightarrow> gates \<Rightarrow> self \<Rightarrow> trade_clock \<Rightarrow> trade_clock" where
  "tick_clock now g s c =
     (let busy = (if \<not> fully_busy s then None else Some (get_or now (tl_fully_busy_since c)));
          warm = (case busy of None \<Rightarrow> False | Some t \<Rightarrow> now - t \<ge> GATE_EWMA_TAU_SECONDS)
      in c\<lparr>tl_fully_busy_since := busy,
           tl_mint_gates_green_since :=
             (if \<not> mint_gates_green g \<or> \<not> warm then None
              else Some (get_or now (tl_mint_gates_green_since c)))\<rparr>)"

text \<open>
  One tick: the loop ends on a node traded down to zero, waits, or asks for as many slots as there
  are queued inputs without a worker. The memory reading is \<open>None\<close> when a worker just died.
\<close>

datatype trade_turn = TradeWait | TradeEnd | TradeAsk int

definition trade_turn_of :: "bool \<Rightarrow> real \<Rightarrow> gates \<Rightarrow> real option \<Rightarrow> self \<Rightarrow> trade_turn" where
  "trade_turn_of local_dev now g memory_used s =
     (let alive = int (length (alive_workers s)); queued = sq_qsize (s_inputs_queue s)
      in if now - s_last_slot_trade_attempt_at s < TRADE_INTERVAL_SEC then TradeWait
         else if s_target_parallelism s \<le> 0 then TradeEnd
         else if \<not> s_all_inputs_uploaded s
           \<or> now - s_last_pressure_retirement_at s < SLOT_TRADE_PRESSURE_COOLDOWN_SECONDS
           \<or> alive \<noteq> s_target_parallelism s \<or> queued \<le> alive \<or> \<not> stall_gates_green g
           \<or> \<not> local_dev \<and> alive > 0
             \<and> (case memory_used of None \<Rightarrow> True | Some u \<Rightarrow> u > READD_MAX_WORKER_MEMORY_USED_FRACTION)
         then TradeWait
         else TradeAsk (queued - alive))"

text \<open>
  Sending a trade to the neighbour, if there is one, under the pending identifier or a new one; and
  what its answer does. \<open>None\<close> skips the rest of the tick, \<open>Some n\<close> goes on to minting.
\<close>

definition begin_trade :: "real \<Rightarrow> string \<Rightarrow> bool \<Rightarrow> self \<Rightarrow> self" where
  "begin_trade now uuid has_neighbor s =
     s\<lparr>s_last_slot_trade_attempt_at := now,
       s_slot_trade_id := (if has_neighbor then Some (get_or uuid (s_slot_trade_id s)) else s_slot_trade_id s)\<rparr>"

datatype trade_answer = TradeNotFound | TradeLost | TradeGranted int

definition apply_trade_answer :: "trade_answer \<Rightarrow> self \<Rightarrow> self \<times> int option" where
  "apply_trade_answer a s =
     (case a of
        TradeNotFound \<Rightarrow> (s\<lparr>s_slot_trade_id := None\<rparr>, None)
      | TradeLost \<Rightarrow> (s, None)
      | TradeGranted n \<Rightarrow>
          (s\<lparr>s_slot_trade_id := None, s_target_parallelism := s_target_parallelism s + n\<rparr>, Some n))"

text \<open>\<open>int\<close> of a float drops the fraction.\<close>

definition int_trunc :: "real \<Rightarrow> int" where
  "int_trunc x = (if x < 0 then - \<lfloor>- x\<rfloor> else \<lfloor>x\<rfloor>)"

definition mint_cap :: "nat \<Rightarrow> int" where
  "mint_cap recent_parks = max 1 (MINT_MAX_SLOTS_PER_ATTEMPT div 2 ^ recent_parks)"

definition batch_limit :: "int \<Rightarrow> real \<Rightarrow> int" where
  "batch_limit n_cpus utilization =
     (let headroom_slots = int_trunc ((CPU_UTILIZATION_ADD_MAX - utilization) * real_of_int n_cpus)
      in if utilization \<le> MINT_BULK_MAX_UTILIZATION then headroom_slots
         else max 1 (headroom_slots div 2))"

text \<open>The slots this tick asks the head to mint, \<open>None\<close> when it does not ask.\<close>

definition mint_request ::
  "real \<Rightarrow> int \<Rightarrow> gates \<Rightarrow> trade_clock \<Rightarrow> self \<Rightarrow> int \<Rightarrow> int \<Rightarrow> int option" where
  "mint_request now n_cpus g c s want granted =
     (if \<not> s_mint_slots_allowed s \<or> parks_in_last now MINT_PARK_REFRACTORY_SEC s > 0 then None
      else
        (let recent_parks = parks_in_last now MINT_BATCH_HALVING_LOOKBACK_SEC s;
             slow_cadence = (tl_last_mint_at c = None \<or> recent_parks > 0);
             required_wait = (if slow_cadence then MINT_GREEN_STREAK_SEC else MINT_STEP_INTERVAL_SEC);
             green_age = (case tl_mint_gates_green_since c of None \<Rightarrow> 0 | Some t \<Rightarrow> now - t);
             asked = min (min (want - granted) (mint_cap recent_parks)) (batch_limit n_cpus (g_utilization g))
         in if green_age < required_wait
              \<or> (case tl_last_mint_at c of None \<Rightarrow> False | Some t \<Rightarrow> now - t < required_wait)
              \<or> asked \<le> 0
            then None else Some asked))"

definition apply_minted :: "real \<Rightarrow> int \<Rightarrow> self \<Rightarrow> trade_clock \<Rightarrow> self \<times> trade_clock" where
  "apply_minted now minted s c =
     (if minted \<le> 0 then (s, c)
      else (s\<lparr>s_target_parallelism := s_target_parallelism s + minted\<rparr>, c\<lparr>tl_last_mint_at := Some now\<rparr>))"


section \<open>The watcher\<close>

definition measure_load :: "self \<Rightarrow> self" where
  "measure_load s =
     s\<lparr>s_current_parallelism :=
         int (length (filter (\<lambda>w. \<not> w_is_idle w \<and> \<not> w_retired w) (s_workers s)))\<rparr>"

definition pending_transfer_count :: "self \<Rightarrow> int" where
  "pending_transfer_count s = (\<Sum>(k, batch)\<leftarrow>s_pending_transfers s. int (length batch))"

text \<open>What the rest of a turn uses was measured before its sleep.\<close>

record load =
  lo_remaining_inputs :: int
  lo_all_workers_idle :: bool

definition load_of :: "self \<Rightarrow> load" where
  "load_of s =
     \<lparr>lo_remaining_inputs = sq_qsize (s_inputs_queue s) + pending_transfer_count s,
      lo_all_workers_idle = (s_current_parallelism (measure_load s) = 0)\<rparr>"

definition input_queue_empty :: "load \<Rightarrow> bool" where
  "input_queue_empty l \<longleftrightarrow> lo_remaining_inputs l = 0"

definition slow_poll :: "real \<Rightarrow> real \<Rightarrow> load \<Rightarrow> bool" where
  "slow_poll now job_started_at l \<longleftrightarrow>
     input_queue_empty l \<and> lo_all_workers_idle l \<and> now - job_started_at \<ge> 7"

record watch =
  wt_failed :: bool
  wt_canceled :: bool
  wt_view :: "job_view_t option"
  wt_last_results_update_time :: real
  wt_last_reported_result_count :: int
  wt_last_loop_at :: real

definition take_signals :: "self \<Rightarrow> watch \<Rightarrow> watch" where
  "take_signals s w =
     (let view = (case s_job_view s of None \<Rightarrow> wt_view w | Some v \<Rightarrow> Some v);
          status = (case view of None \<Rightarrow> None | Some v \<Rightarrow> jv_status v)
      in w\<lparr>wt_view := view,
           wt_failed := wt_failed w \<or> status = Some JOB_FAILED,
           wt_canceled := wt_canceled w \<or> status = Some JOB_CANCELED\<rparr>)"

definition CLIENT_CONTACT_TIMEOUT_SEC :: real where "CLIENT_CONTACT_TIMEOUT_SEC = 5"

text \<open>
  Whether the client is still there; a turn that came late gives it a fresh window. The flag says
  that the answer changed.
\<close>

definition client_contact :: "real \<Rightarrow> real \<Rightarrow> self \<Rightarrow> self \<times> bool" where
  "client_contact now last_loop_at s =
     (let s1 = (if now - last_loop_at > CLIENT_CONTACT_TIMEOUT_SEC
                then s\<lparr>s_last_client_activity_timestamp := now\<rparr> else s);
          silence = now - s_last_client_activity_timestamp s1;
          contact = (silence < CLIENT_CONTACT_TIMEOUT_SEC
                     \<or> s_active_client_request_count s1 > 0 \<and> silence < 15)
      in (s1\<lparr>s_client_contact_last_1s := contact\<rparr>, contact \<noteq> s_client_contact_last_1s s1))"

section \<open>Replacements\<close>

definition REPLACEMENT_DEFICIT_WINDOW_SEC :: real where "REPLACEMENT_DEFICIT_WINDOW_SEC = 180"
definition REPLACEMENT_RETRY_SEC :: real where "REPLACEMENT_RETRY_SEC = 60"
definition DYNAMIC_RAM_MAX_WORKER_MEMORY_USED_FRACTION :: real where
  "DYNAMIC_RAM_MAX_WORKER_MEMORY_USED_FRACTION = 0.95"

definition deficit :: "self \<Rightarrow> int" where
  "deficit s = s_target_parallelism s - int (length (alive_workers s))"

definition wants_replacement :: "load \<Rightarrow> job_view_t option \<Rightarrow> self \<Rightarrow> bool" where
  "wants_replacement l view s \<longleftrightarrow>
     deficit s > 0 \<and> (case view of None \<Rightarrow> False | Some v \<Rightarrow> jv_grow v) \<and> \<not> s_replacement_refused s
     \<and> lo_remaining_inputs l + s_current_parallelism s > int (length (alive_workers s))
     \<and> s_client_contact_last_1s s"

text \<open>The measured peak of an attempt, and the memory limit read from a live worker, if there is one.\<close>

definition sustained_slots :: "real option \<Rightarrow> real option \<Rightarrow> self \<Rightarrow> int option" where
  "sustained_slots typical_peak limit_bytes s =
     (let alive = int (length (alive_workers s))
      in if s_last_memory_shed_at s = 0 then None
         else case (typical_peak, limit_bytes) of
                (Some peak, Some limit) \<Rightarrow>
                  if peak = 0 \<or> limit = 0 then Some alive
                  else Some (max 1 (min alive
                         \<lfloor>limit * DYNAMIC_RAM_MAX_WORKER_MEMORY_USED_FRACTION / peak\<rfloor>))
              | _ \<Rightarrow> Some alive)"

record replacement_need =
  nd_missing_slots :: int
  nd_request_id :: string
  nd_slots_per_node :: "int option"

definition request_replacement ::
  "real \<Rightarrow> string \<Rightarrow> real option \<Rightarrow> real option \<Rightarrow> load \<Rightarrow> job_view_t option \<Rightarrow> self
    \<Rightarrow> self \<times> replacement_need option" where
  "request_replacement now uuid typical_peak limit_bytes l view s =
     (if \<not> wants_replacement l view s then (s\<lparr>s_replacement_deficit_since := None\<rparr>, None)
      else
        (let since = get_or now (s_replacement_deficit_since s);
             red_since = (case s_readd_gates_last_green_at s of
                            None \<Rightarrow> since | Some g \<Rightarrow> if g > since then g else since);
             s1 = s\<lparr>s_replacement_deficit_since := Some since\<rparr>
         in if now - red_since > REPLACEMENT_DEFICIT_WINDOW_SEC
               \<and> now - s_last_replacement_request_at s1 > REPLACEMENT_RETRY_SEC
            then (let request_id = get_or uuid (s_replacement_request_id s1)
                  in (s1\<lparr>s_last_replacement_request_at := now, s_replacement_request_id := Some request_id\<rparr>,
                      Some \<lparr>nd_missing_slots = deficit s1, nd_request_id = request_id,
                            nd_slots_per_node = sustained_slots typical_peak limit_bytes s1\<rparr>))
            else (s1, None)))"

text \<open>The body of the request to the head.\<close>

definition need_body :: "string \<Rightarrow> replacement_need \<Rightarrow> replacement_body" where
  "need_body instance_name need =
     \<lparr>rb_requesting_node = instance_name, rb_missing_slots = nd_missing_slots need,
      rb_request_id = nd_request_id need, rb_slots_per_node = nd_slots_per_node need\<rparr>"

datatype replacement_answer = SlotsBooted int | Refused409 | ReplacementError

definition apply_replacement :: "replacement_answer \<Rightarrow> self \<Rightarrow> self" where
  "apply_replacement a s =
     (case a of
        SlotsBooted n \<Rightarrow>
          s\<lparr>s_replacement_request_id := None, s_replacement_deficit_since := None,
            s_target_parallelism := s_target_parallelism s - n\<rparr>
      | Refused409 \<Rightarrow> s\<lparr>s_replacement_refused := True, s_replacement_request_id := None\<rparr>
      | ReplacementError \<Rightarrow> s)"

section \<open>Pushing, shedding and reclaiming\<close>

definition should_push :: "real \<Rightarrow> load \<Rightarrow> bool \<Rightarrow> self \<Rightarrow> watch \<Rightarrow> bool" where
  "should_push now l contact_flag_changed s w \<longleftrightarrow>
     input_queue_empty l \<and> s_num_results_received s \<noteq> wt_last_reported_result_count w
     \<or> (\<not> input_queue_empty l \<or> \<not> lo_all_workers_idle l) \<and> now - wt_last_results_update_time w > 2
     \<or> contact_flag_changed"

text \<open>
  The idle workers retired against slots the head rolled back, while no input waits: one turn of the
  loop, and the loop. The retired workers' processes are killed afterwards.
\<close>

definition shed_turn :: "string \<Rightarrow> self \<Rightarrow> self" where
  "shed_turn name s =
     (case find_worker s name of
        None \<Rightarrow> s
      | Some w \<Rightarrow>
          if s_shed_slots_pending s \<le> 0 \<or> w_retired w \<or> \<not> w_is_idle w \<or> w_current_input w \<noteq> None then s
          else cancel_task name (on_worker name (\<lambda>w. w\<lparr>w_retired := True\<rparr>)
                 (s\<lparr>s_shed_slots_pending := s_shed_slots_pending s - 1, s_reboot_containers_after_job := True\<rparr>)))"

definition shed_idle_workers :: "self \<Rightarrow> self" where
  "shed_idle_workers s =
     (if s_shed_slots_pending s > 0 \<and> sq_qsize (s_inputs_queue s) = 0
      then fold shed_turn (map w_name (s_workers s)) s else s)"

definition reclaim_stranded :: "int \<Rightarrow> self \<Rightarrow> self" where
  "reclaim_stranded n_cpus s =
     (if sq_qsize (s_inputs_queue s) > 0 \<and> s_target_parallelism s = 0 \<and> alive_workers s = []
      then s\<lparr>s_target_parallelism := min (sq_qsize (s_inputs_queue s)) n_cpus\<rparr> else s)"

section \<open>The end of a job\<close>

definition client_disconnected :: "self \<Rightarrow> watch \<Rightarrow> bool" where
  "client_disconnected s w \<longleftrightarrow>
     \<not> s_client_contact_last_1s s \<and> s_client_heartbeat_received s
     \<and> \<not> (case wt_view w of None \<Rightarrow> False | Some v \<Rightarrow> jv_any_node_client_contact v)"

text \<open>The flag says that the head is told the job failed.\<close>

definition note_disconnect :: "bool \<Rightarrow> self \<Rightarrow> watch \<Rightarrow> watch \<times> bool" where
  "note_disconnect is_background_job s w =
     (if client_disconnected s w \<and> (\<not> is_background_job \<or> \<not> s_all_inputs_uploaded s)
         \<and> \<not> (wt_failed w \<or> wt_canceled w)
      then (if (case wt_view w of None \<Rightarrow> False | Some v \<Rightarrow> lifecycle_canceled v)
            then (w\<lparr>wt_canceled := True\<rparr>, False) else (w\<lparr>wt_failed := True\<rparr>, True))
      else (w, False))"

definition EMPTY_NEIGHBOR_TIMEOUT_SEC :: real where "EMPTY_NEIGHBOR_TIMEOUT_SEC = 120"

text \<open>The two ways a node leaves a job that goes on elsewhere.\<close>

definition leave_job :: "real \<Rightarrow> self \<Rightarrow> self \<times> bool" where
  "leave_job sec_neighbor_had_no_inputs s =
     (case (if s_target_parallelism s \<le> 0 then claim_drained_job_part s else (s, False)) of
        (s1, True) \<Rightarrow> (s1, True)
      | (s1, False) \<Rightarrow>
          if sec_neighbor_had_no_inputs \<noteq> 0 \<and> sec_neighbor_had_no_inputs > EMPTY_NEIGHBOR_TIMEOUT_SEC
          then claim_drained_job_part s1 else (s1, False))"

definition all_inputs_processed :: "load \<Rightarrow> self \<Rightarrow> bool" where
  "all_inputs_processed l s \<longleftrightarrow> s_all_inputs_uploaded s \<and> input_queue_empty l \<and> lo_all_workers_idle l"

text \<open>Whether the job is over, from the view a push has just returned.\<close>

definition job_completed :: "int \<Rightarrow> load \<Rightarrow> bool \<Rightarrow> bool \<Rightarrow> job_view_t option \<Rightarrow> self \<Rightarrow> bool" where
  "job_completed n_inputs l disconnected pending_results_empty fresh s \<longleftrightarrow>
     all_inputs_processed l s \<and>
     (case fresh of
        None \<Rightarrow> False
      | Some v \<Rightarrow> if disconnected \<and> pending_results_empty then n_inputs = jv_total_num_results v
                  else jv_client_has_all_results v)"

definition final_status :: "watch \<Rightarrow> job_view_t option \<Rightarrow> job_status" where
  "final_status w fresh =
     (if wt_failed w then JOB_FAILED
      else if wt_canceled w then JOB_CANCELED
      else case fresh of
             Some v \<Rightarrow> (if jv_status v = Some JOB_FAILED then JOB_FAILED
                         else if jv_status v = Some JOB_CANCELED then JOB_CANCELED else JOB_COMPLETED)
           | None \<Rightarrow> JOB_COMPLETED)"

text \<open>The status this node reports for the job when it ends here, \<open>None\<close> while it goes on.\<close>

definition job_verdict ::
  "int \<Rightarrow> load \<Rightarrow> bool \<Rightarrow> bool \<Rightarrow> job_view_t option \<Rightarrow> self \<Rightarrow> watch \<Rightarrow> job_status option" where
  "job_verdict n_inputs l disconnected pending_results_empty fresh s w =
     (if job_completed n_inputs l disconnected pending_results_empty fresh s \<or> wt_failed w \<or> wt_canceled w
      then Some (final_status w fresh) else None)"

text \<open>The node after a job whose workers are reused.\<close>

definition reinit_node :: "real \<Rightarrow> worker list \<Rightarrow> self \<Rightarrow> self" where
  "reinit_node now assigned_workers s =
     (REINIT_SELF now)\<lparr>s_workers := map (\<lambda>w. w\<lparr>w_is_idle := True, w_retired := False\<rparr>)
         (assigned_workers @ s_idle_workers s),
       s_reported_status := READY\<rparr>"

section \<open>Shutdown and reboot\<close>

definition shutdown_node :: "self \<Rightarrow> self" where
  "shutdown_node s =
     (let s1 = s\<lparr>s_job_watcher_stop := True, s_current_parallelism := 0, s_shutting_down := True\<rparr>
      in if s_failed s then s1 else s1\<lparr>s_reported_status := DELETED\<rparr>)"

text \<open>
  \<open>reboot_containers\<close>: what it does before its first push, with the status the head answers, and
  once the workers and the host are there. \<open>None\<close> is a node the head has given up.
\<close>

definition begin_reboot :: "self \<Rightarrow> self" where
  "begin_reboot s = s\<lparr>s_job_watcher_stop := True, s_reported_status := BOOTING\<rparr>"

definition reboot_reinit :: "real \<Rightarrow> node_status option \<Rightarrow> self \<Rightarrow> self option" where
  "reboot_reinit now head_status s =
     (if head_status \<in> {Some DELETED, Some FAILED} then None
      else Some ((REINIT_SELF now)\<lparr>s_booting := True, s_reported_status := BOOTING,
                   s_reserved_for_job := s_reserved_for_job s\<rparr>))"

definition finish_reboot :: "worker list \<Rightarrow> self \<Rightarrow> self" where
  "finish_reboot workers s = s\<lparr>s_workers := workers, s_booting := False, s_reported_status := READY\<rparr>"

definition reboot_failed :: "self \<Rightarrow> self" where
  "reboot_failed s = s\<lparr>s_failed := True, s_reported_status := FAILED\<rparr>"

end

