(* ===== verification/Input_Protocol.thy ===== *)
theory Input_Protocol
  imports Node_Inputs Job_Watcher
begin

text \<open>
  A job's inputs across all its nodes. The nodes work on their own, steal inputs from each other over
  requests that may be lost or late, hand result batches to a client that acknowledges them, and leave
  the job once they hold nothing. \<open>net_step\<close> is one step of all this; every input uploaded is in exactly
  one place until the client has its result.
\<close>

section \<open>What a node does on its own\<close>

inductive local_step :: "self \<Rightarrow> self \<Rightarrow> bool" where
  between: "local_step s (between_inputs results_ram_limit name s)"
| take: "local_step s (take_input name s)"
| finish: "local_step s (finish_input name is_error payload s)"
| failed: "local_step s (attempt_failed now name error_pkl s)"
| retire: "distinct selected \<Longrightarrow> set selected \<subseteq> set (s_workers s) \<Longrightarrow>
    local_step s (retire_workers_for_pressure now selected s)"
| park: "local_step s (park_workers_for_memory now selected s)"
| unpark: "local_step s (unthrottle_one_parked_worker resumable s)"
| readd_gates: "local_step s (fst (readd_tick local_dev n_cpus now green fast fits last_readd s))"
| boot: "name \<notin> w_name ` set (s_workers s) \<Longrightarrow> local_step s (boot_readded_worker (new_worker name version) None s)"
| reboot: "name \<notin> w_name ` set (s_workers s) \<Longrightarrow> find_worker s k = Some w \<Longrightarrow> w_retired w \<Longrightarrow>
    local_step s (boot_readded_worker (new_worker name version) (Some k) s)"
| trade: "local_step s (fst (trade_slots now s job_id requesting_node slots_requested trade_id))"
| shed: "local_step s (shed_idle_workers s)"
| reclaim: "local_step s (reclaim_stranded n_cpus s)"
| measure: "local_step s (measure_load s)"
| contact: "local_step s (fst (client_contact now last_loop_at s))"
| pushed: "local_step s (fst (push_progress_reply r s))"
| ask_trade: "local_step s (begin_trade now uuid has_neighbor s)"
| traded: "local_step s (fst (apply_trade_answer answer s))"
| minted: "local_step s (fst (apply_minted now n s c))"
| ask_replacement: "local_step s (fst (request_replacement now uuid peak limit l view s))"
| replaced: "local_step s (apply_replacement answer' s)"

text \<open>The batch waiting for its acknowledgement and the node's own steal are left alone by all of them.\<close>

definition frame :: "self \<Rightarrow> self \<Rightarrow> bool" where
  "frame s s' \<longleftrightarrow> s_pending_result_batch s' = s_pending_result_batch s \<and>
     s_active_input_steal_id s' = s_active_input_steal_id s"

named_theorems framed \<open>operations that leave the pending batch and the steal alone\<close>

lemma frame_refl [simp]: "frame s s"
  by (simp add: frame_def)

lemma frame_trans: "frame s s' \<Longrightarrow> frame s' s'' \<Longrightarrow> frame s s''"
  by (simp add: frame_def)

lemma frame_on_worker [simp]: "frame s (on_worker k f s') = frame s s'"
  by (simp add: frame_def on_worker_def)

lemma frame_fold: "(\<And>x s. frame s (f x s)) \<Longrightarrow> frame s (fold f xs s)"
  by (induction xs arbitrary: s) (auto intro: frame_trans)

lemma frame_worker_ops [framed]:
  "frame s (between_inputs limit k s)" "frame s (take_input k s)" "frame s (finish_input k e p s)"
  "frame s (attempt_failed now k err s)" "frame s (retire_workers_for_pressure now sel s)"
  "frame s (park_workers_for_memory now sel s)" "frame s (unthrottle_one_parked_worker R s)"
  "frame s (boot_readded_worker w t s)"
  by (auto simp: frame_def between_inputs_def take_input_def finish_input_def attempt_failed_def Let_def
      on_worker_def put_result_def queue_inputs_def retire_workers_for_pressure_def retire_and_clear_def
      record_park_event_def park_workers_for_memory_def unthrottle_one_parked_worker_def
      boot_readded_worker_def split: option.splits prod.splits)

lemma frame_shed_turn: "frame s (shed_turn k s)"
  by (auto simp: frame_def shed_turn_def cancel_task_def on_worker_def split: option.splits)

lemma frame_trade_retire: "frame s (trade_retire k s)"
  by (simp add: frame_def trade_retire_def cancel_task_def on_worker_def)

lemma frame_slots [framed]: "frame s (shed_idle_workers s)" "frame s (fst (trade_slots now s k node n tid))"
proof -
  show "frame s (shed_idle_workers s)" by (auto simp: shed_idle_workers_def intro: frame_fold frame_shed_turn)
  have "frame s (trade_commit node tid g (fold trade_retire ks s))" for g ks
    using frame_fold [where f = trade_retire, OF frame_trade_retire, of s ks] by (simp add: frame_def trade_commit_def)
  then show "frame s (fst (trade_slots now s k node n tid))"
    by (auto simp: trade_slots_def trade_grant_def Let_def split: sum.splits)
qed

text \<open>The operations that only touch the node's books.\<close>

lemma books_same_places:
  "same_places s (fst (readd_tick ld n now g f fits l s))" "same_places s (reclaim_stranded n s)"
  "same_places s (measure_load s)" "same_places s (fst (client_contact now l0 s))"
  "same_places s (fst (push_progress_reply r s))" "same_places s (begin_trade now u b s)"
  "same_places s (fst (apply_trade_answer a s))" "same_places s (fst (apply_minted now m s c))"
  "same_places s (fst (request_replacement now u p limit ld' v s))" "same_places s (apply_replacement a' s)"
  by (auto simp: same_places_def readd_tick_def reclaim_stranded_def measure_load_def client_contact_def
      push_progress_reply_def apply_job_signals_def apply_shed_def begin_trade_def apply_trade_answer_def
      apply_minted_def request_replacement_def apply_replacement_def Let_def
      split: option.splits trade_answer.splits replacement_answer.splits)

lemma frame_books [framed]:
  "frame s (fst (readd_tick ld n now g f fits l s))" "frame s (reclaim_stranded n s)"
  "frame s (measure_load s)" "frame s (fst (client_contact now l0 s))"
  "frame s (fst (push_progress_reply r s))" "frame s (begin_trade now u b s)"
  "frame s (fst (apply_trade_answer a s))" "frame s (fst (apply_minted now m s c))"
  "frame s (fst (request_replacement now u p limit ld' v s))" "frame s (apply_replacement a' s)"
  by (auto simp: frame_def readd_tick_def reclaim_stranded_def measure_load_def client_contact_def
      push_progress_reply_def apply_job_signals_def apply_shed_def begin_trade_def apply_trade_answer_def
      apply_minted_def request_replacement_def apply_replacement_def Let_def
      split: option.splits trade_answer.splits replacement_answer.splits)

lemma unthrottle_keeps [moves]:
  assumes "node_ok s"
  shows "keeps s (unthrottle_one_parked_worker R s)"
proof (cases "unthrottle_choice R s")
  case (Some v)
  have "keeps s (s\<lparr>s_workers := map (\<lambda>w. if w_name w = w_name v then w\<lparr>w_throttled := False\<rparr> else w) (s_workers s)\<rparr>)"
    by (rule keeps_map_workers [OF assms]) (auto simp: held_def worker_ok_def)
  then show ?thesis using Some by (simp add: unthrottle_one_parked_worker_def on_worker_def)
qed (simp add: unthrottle_one_parked_worker_def keeps_refl assms)

text \<open>A worker that joins holds nothing, and neither does the retired one it replaces.\<close>

lemma sum_held_filter:
  "(\<And>w. w \<in> set ws \<Longrightarrow> \<not> P w \<Longrightarrow> held w = {#}) \<Longrightarrow> (\<Sum>w\<leftarrow>filter P ws. held w) = (\<Sum>w\<leftarrow>ws. held w)"
  by (induction ws) auto

lemma boot_keeps:
  assumes "node_ok s" "name \<notin> w_name ` set (s_workers s)"
    "\<forall>k. template = Some k \<longrightarrow> (\<exists>w. find_worker s k = Some w \<and> w_retired w)"
  shows "keeps s (boot_readded_worker (new_worker name version) template s)"
proof -
  let ?P = "\<lambda>v. template \<noteq> Some (w_name v)"
  have e: "boot_readded_worker (new_worker name version) template s =
      s\<lparr>s_workers := filter ?P (s_workers s) @ [new_worker name version]\<rparr>"
    by (cases template) (simp_all add: boot_readded_worker_def eq_commute)
  have d: "distinct (map w_name (s_workers s))" using assms(1) by (simp add: node_ok_def)
  have "held w = {#}" if m: "w \<in> set (s_workers s)" "\<not> ?P w" for w
  proof -
    obtain v where v: "find_worker s (w_name w) = Some v" "w_retired v" using m(2) assms(3) by auto
    have "w = v" using find_worker_unique [OF v(1) d m(1)] by simp
    then show ?thesis using assms(1) v m(1) by (auto simp: node_ok_def worker_ok_def held_def)
  qed
  then have h: "(\<Sum>w\<leftarrow>filter ?P (s_workers s). held w) = (\<Sum>w\<leftarrow>s_workers s. held w)"
    by (rule sum_held_filter)
  have n: "held (new_worker name version) = {#}" "worker_ok (new_worker name version)"
    "w_name (new_worker name version) = name"
    by (simp_all add: new_worker_def held_def worker_ok_def)
  have "distinct (map w_name (filter ?P (s_workers s) @ [new_worker name version]))"
    using d assms(2) n(3) by (auto simp: distinct_map_filter)
  then show ?thesis using assms(1) h n
    by (auto simp: e moved_def node_ok_def node_ids_def queued_ids_def running_ids_def result_ids_def batch_ids_def)
qed

lemma shed_turn_keeps:
  assumes "node_ok s"
  shows "keeps s (shed_turn k s)"
proof (cases "find_worker s k")
  case (Some w)
  note w = node_ok_worker [OF assms Some]
  let ?t = "s\<lparr>s_shed_slots_pending := s_shed_slots_pending s - 1, s_reboot_containers_after_job := True\<rparr>"
  have t: "same_places s ?t" by (simp add: same_places_def)
  have e: "cancel_task k (on_worker k (\<lambda>w. w\<lparr>w_retired := True\<rparr>) ?t) =
      on_worker k (\<lambda>w. w\<lparr>w_retired := True, w_current_input := None, w_task := Stopped\<rparr>) ?t"
    by (simp add: cancel_task_def on_worker_def)
  have "keeps s (on_worker k (\<lambda>w. w\<lparr>w_retired := True, w_current_input := None, w_task := Stopped\<rparr>) ?t)"
    if "w_current_input w = None"
    by (rule keeps_trans [OF same_places_keeps [OF assms t] keeps_on_worker [where w = w]])
      (use same_places_ids [OF t] assms Some w that in \<open>auto simp: worker_ok_def held_def\<close>)
  then show ?thesis using Some by (cases "w_current_input w") (simp_all add: shed_turn_def e keeps_refl assms)
qed (simp add: shed_turn_def keeps_refl assms)

lemma shed_idle_workers_keeps [moves]: "node_ok s \<Longrightarrow> keeps s (shed_idle_workers s)"
proof -
  have "node_ok s \<Longrightarrow> keeps s (fold shed_turn ks s)" for ks s
  proof (induction ks arbitrary: s)
    case (Cons k ks)
    have m: "keeps s (shed_turn k s)" by (rule shed_turn_keeps [OF Cons.prems])
    from keeps_trans [OF m Cons.IH [OF moved_ok [OF m]]] show ?case by simp
  qed (simp add: keeps_refl)
  then show "node_ok s \<Longrightarrow> ?thesis" by (simp add: shed_idle_workers_def keeps_refl)
qed

lemma local_step_frame: "local_step s s' \<Longrightarrow> frame s s'"
  by (induction rule: local_step.induct) (rule framed)+

lemma local_step_keeps: "local_step s s' \<Longrightarrow> node_ok s \<Longrightarrow> keeps s s'"
proof (induction rule: local_step.induct)
  case (retire sel s now)
  then show ?case by (intro retire_workers_keeps)
next
  case (boot name s version)
  then show ?case by (intro boot_keeps) auto
next
  case (reboot name s k w version)
  then show ?case by (intro boot_keeps) auto
qed (auto intro: moves same_places_keeps books_same_places)

end
