(* ===== verification/Input_Net.thy ===== *)
theory Input_Net
  imports Input_Protocol
begin

text \<open>
  The nodes of one job and their client as a transition system: local work, uploads, the steal
  transaction with its messages, result polls, and leaving the job. A steal request is sent once and
  may be served late or never, its answer may be lost, an acknowledgement is sent again and again and
  may be served any number of times at any later moment, and so may a poll.
\<close>

section \<open>State\<close>

text \<open>
  Where a node's steal transaction stands: donor and transfer, then the answer (\<open>None\<close> when the
  request failed), then the flag being acknowledged.
\<close>

datatype steal_phase =
    NoSteal
  | Asking string string
  | Fetched string string "job_input list option"
  | Acking string string bool

fun phase_transfer :: "steal_phase \<Rightarrow> (string \<times> string) option" where
  "phase_transfer NoSteal = None"
| "phase_transfer (Asking d tid) = Some (tid, d)"
| "phase_transfer (Fetched d tid items) = Some (tid, d)"
| "phase_transfer (Acking d tid received) = Some (tid, d)"

text \<open>
  \<open>y_asked\<close> (who asked whom under a transfer), \<open>y_accepted\<close> (transfers whose batch was queued),
  \<open>y_got\<close> (result batches the client received) and the two multisets of inputs only record the past.
\<close>

record job_net =
  y_node :: "string \<Rightarrow> self"
  y_phase :: "string \<Rightarrow> steal_phase"
  y_asked :: "string \<Rightarrow> (string \<times> string) option"
  y_gets :: "(string \<times> steal_request) set"
  y_replies :: "string \<Rightarrow> job_input list option option"
  y_acks :: "(string \<times> string \<times> bool) set"
  y_acked :: "string set"
  y_accepted :: "string set"
  y_client :: "string \<Rightarrow> string option"
  y_got :: "(string \<times> string) set"
  y_uploaded :: "int multiset"
  y_received :: "int multiset"

definition set_node :: "string \<Rightarrow> self \<Rightarrow> job_net \<Rightarrow> job_net" where
  "set_node n s y = y\<lparr>y_node := (y_node y)(n := s)\<rparr>"

definition set_phase :: "string \<Rightarrow> steal_phase \<Rightarrow> job_net \<Rightarrow> job_net" where
  "set_phase n p y = y\<lparr>y_phase := (y_phase y)(n := p)\<rparr>"

text \<open>The client keeps a batch it received and acknowledges it with its next poll.\<close>

definition client_receives :: "string \<Rightarrow> (string \<times> job_result list) option \<Rightarrow> job_net \<Rightarrow> job_net" where
  "client_receives n batch y =
     y\<lparr>y_client := (y_client y)(n := map_option fst batch),
       y_got := y_got y \<union> (case batch of None \<Rightarrow> {} | Some (k, rs) \<Rightarrow> {(n, k)}),
       y_received := y_received y + (case batch of None \<Rightarrow> {#} | Some (k, rs) \<Rightarrow> mset (map fst rs))\<rparr>"

section \<open>Steps\<close>

inductive net_step :: "string list \<Rightarrow> string \<Rightarrow> job_net \<Rightarrow> job_net \<Rightarrow> bool" for names job where
  work: "n \<in> set names \<Longrightarrow> local_step (y_node y n) s' \<Longrightarrow> net_step names job y (set_node n s' y)"
| upload: "n \<in> set names \<Longrightarrow> \<not> s_job_watcher_stop (y_node y n) \<Longrightarrow>
    upload_inputs mem (y_node y n) job xs = (s', Uploaded) \<Longrightarrow>
    net_step names job y (set_node n s' (y\<lparr>y_uploaded := y_uploaded y + item_ids xs\<rparr>))"
| begin_: "n \<in> set names \<Longrightarrow> d \<in> set names \<Longrightarrow> d \<noteq> n \<Longrightarrow> y_phase y n = NoSteal \<Longrightarrow>
    \<not> s_job_watcher_stop (y_node y n) \<Longrightarrow> should_steal now started (y_node y n) \<Longrightarrow>
    y_asked y tid = None \<Longrightarrow> begin_steal tid (y_node y n) = (s', req) \<Longrightarrow>
    net_step names job y (set_phase n (Asking d tid) (set_node n s'
      (y\<lparr>y_asked := (y_asked y)(tid := Some (n, d)), y_gets := insert (d, req) (y_gets y)\<rparr>)))"
| serve: "(d, req) \<in> y_gets y \<Longrightarrow>
    get_inputs now (y_node y d) job (sr_transfer_id req) (sr_requester_queue_size req)
      (sr_requester_idle_workers req) = (s', answer) \<Longrightarrow>
    net_step names job y (set_node d s' (y\<lparr>y_gets := y_gets y - {(d, req)},
      y_replies := (y_replies y)(sr_transfer_id req := Some answer)\<rparr>))"
| fetched: "n \<in> set names \<Longrightarrow> y_phase y n = Asking d tid \<Longrightarrow> y_replies y tid = Some (Some xs) \<Longrightarrow>
    net_step names job y (set_phase n (Fetched d tid (Some xs)) y)"
| not_found: "n \<in> set names \<Longrightarrow> y_phase y n = Asking d tid \<Longrightarrow> y_replies y tid = Some None \<Longrightarrow>
    net_step names job y (set_phase n NoSteal (set_node n (end_steal (y_node y n)) y))"
| lost: "n \<in> set names \<Longrightarrow> y_phase y n = Asking d tid \<Longrightarrow>
    net_step names job y (set_phase n (Fetched d tid None) y)"
| accept: "n \<in> set names \<Longrightarrow> y_phase y n = Fetched d tid items \<Longrightarrow>
    accept_items items (y_node y n) = (s', received) \<Longrightarrow>
    net_step names job y (set_phase n (Acking d tid received) (set_node n s'
      (y\<lparr>y_accepted := y_accepted y \<union> (if received then {tid} else {})\<rparr>)))"
| send_ack: "n \<in> set names \<Longrightarrow> y_phase y n = Acking d tid received \<Longrightarrow>
    net_step names job y (y\<lparr>y_acks := insert (d, tid, received) (y_acks y)\<rparr>)"
| serve_ack: "(d, tid, received) \<in> y_acks y \<Longrightarrow> ack_transfer (y_node y d) job tid received = (s', ok) \<Longrightarrow>
    net_step names job y (set_node d s' (y\<lparr>y_acked := y_acked y \<union> (if ok then {tid} else {})\<rparr>))"
| acked: "n \<in> set names \<Longrightarrow> y_phase y n = Acking d tid received \<Longrightarrow>
    ack_turn now ack_started (tid \<in> y_acked y) neighbor (y_node y n) = AckOk \<Longrightarrow>
    net_step names job y (set_phase n NoSteal (set_node n (end_steal (y_node y n)) y))"
| poll: "n \<in> set names \<Longrightarrow> (n, uuid) \<notin> y_got y \<Longrightarrow>
    get_results uuid (y_node y n) job (y_client y n) = (s', Some reply) \<Longrightarrow>
    net_step names job y (client_receives n (gr_batch reply) (set_node n s' y))"
| poll_lost: "n \<in> set names \<Longrightarrow> (n, uuid) \<notin> y_got y \<Longrightarrow> (\<forall>k. ack = Some k \<longrightarrow> (n, k) \<in> y_got y) \<Longrightarrow>
    get_results uuid (y_node y n) job ack = (s', reply') \<Longrightarrow>
    net_step names job y (set_node n s' y)"
| leave: "n \<in> set names \<Longrightarrow> claim_drained_job_part (y_node y n) = (s', True) \<Longrightarrow>
    net_step names job y (set_node n s' y)"

text \<open>At the start every node of the job has no input, no transfer and no batch.\<close>

definition net_init :: "string list \<Rightarrow> job_net \<Rightarrow> bool" where
  "net_init names y \<longleftrightarrow> distinct names \<and>
     (\<forall>n \<in> set names. node_ok (y_node y n) \<and> node_ids (y_node y n) = {#} \<and>
        s_pending_transfers (y_node y n) = [] \<and> s_pending_result_batch (y_node y n) = None \<and>
        s_active_input_steal_id (y_node y n) = None \<and> y_phase y n = NoSteal \<and> y_client y n = None) \<and>
     y_asked y = (\<lambda>_. None) \<and> y_gets y = {} \<and> y_replies y = (\<lambda>_. None) \<and> y_acks y = {} \<and>
     y_acked y = {} \<and> y_accepted y = {} \<and> y_got y = {} \<and> y_uploaded y = {#} \<and> y_received y = {#}"

inductive net_reach :: "string list \<Rightarrow> string \<Rightarrow> job_net \<Rightarrow> bool" for names job where
  init: "net_init names y \<Longrightarrow> net_reach names job y"
| step: "net_reach names job y \<Longrightarrow> net_step names job y y' \<Longrightarrow> net_reach names job y'"

section \<open>Where the inputs are\<close>

text \<open>
  The inputs a node answers for: queued, running, with a result waiting, or in a batch the client
  has not seen; and those parked for a peer that has not queued them.
\<close>

definition unseen_ids :: "(string \<times> string) set \<Rightarrow> string \<Rightarrow> (string \<times> job_result list) option \<Rightarrow> int multiset" where
  "unseen_ids got n batch = (case batch of
     None \<Rightarrow> {#} | Some (k, rs) \<Rightarrow> if (n, k) \<in> got then {#} else mset (map fst rs))"

definition open_of :: "(string \<times> string) set \<Rightarrow> string \<Rightarrow> self \<Rightarrow> int multiset" where
  "open_of got n s = queued_ids s + running_ids s + image_mset fst (sq_contents (s_results_queue s))
     + unseen_ids got n (s_pending_result_batch s)"

definition open_ids :: "job_net \<Rightarrow> string \<Rightarrow> int multiset" where
  "open_ids y n = open_of (y_got y) n (y_node y n)"

definition parked_in :: "string set \<Rightarrow> job_input list dict \<Rightarrow> int multiset" where
  "parked_in accepted d = (\<Sum>p\<leftarrow>d. if fst p \<in> accepted then {#} else item_ids (snd p))"

definition outstanding :: "string list \<Rightarrow> job_net \<Rightarrow> int multiset" where
  "outstanding names y =
     (\<Sum>n\<leftarrow>names. open_ids y n + parked_in (y_accepted y) (s_pending_transfers (y_node y n)))"

lemma sum_names:
  assumes "\<And>m. m \<in> set names \<Longrightarrow> f' m + a m = f m + (b m :: int multiset)"
  shows "(\<Sum>m\<leftarrow>names. f' m) + (\<Sum>m\<leftarrow>names. a m) = (\<Sum>m\<leftarrow>names. f m) + (\<Sum>m\<leftarrow>names. b m)"
  using assms
proof (induction names)
  case (Cons m ms)
  have "f' m + a m = f m + b m" "(\<Sum>m\<leftarrow>ms. f' m) + (\<Sum>m\<leftarrow>ms. a m) = (\<Sum>m\<leftarrow>ms. f m) + (\<Sum>m\<leftarrow>ms. b m)"
    using Cons by auto
  then have "(f' m + a m) + ((\<Sum>m\<leftarrow>ms. f' m) + (\<Sum>m\<leftarrow>ms. a m)) =
      (f m + b m) + ((\<Sum>m\<leftarrow>ms. f m) + (\<Sum>m\<leftarrow>ms. b m))" by simp
  then show ?case by (simp add: ac_simps)
qed simp

lemma sum_one: "distinct names \<Longrightarrow> n \<in> set names \<Longrightarrow> (\<Sum>m\<leftarrow>names. if m = n then X else {#}) = (X :: int multiset)"
proof (induction names)
  case (Cons m ms)
  have "n \<notin> set ms \<Longrightarrow> (\<Sum>m\<leftarrow>ms. if m = n then X else {#}) = {#}" by (induction ms) auto
  then show ?case using Cons by auto
qed simp

lemma sum_zero: "(\<Sum>m\<leftarrow>names. {#}) = ({#} :: int multiset)"
  by (induction names) auto

lemma parked_in_del:
  assumes "distinct (dkeys d)" "map_of d tid = Some xs"
  shows "parked_in A (ddel tid d) + (if tid \<in> A then {#} else item_ids xs) = parked_in A d"
  using assms
proof (induction d)
  case (Cons p d)
  show ?case
  proof (cases "fst p = tid")
    case True
    then have "\<forall>q \<in> set d. fst q \<noteq> tid" using Cons.prems(1) by (metis distinct.simps(2) imageI list.map(2) list.set_map)
    then have "ddel tid d = d" by (auto simp: ddel_def AList.delete_eq filter_id_conv)
    then have "ddel tid (p # d) = d" using True by (simp add: ddel_def AList.delete_eq case_prod_beta)
    then show ?thesis using True Cons.prems(2) by (auto simp: parked_in_def)
  next
    case False
    then have "ddel tid (p # d) = p # ddel tid d" by (simp add: ddel_def AList.delete_eq case_prod_beta)
    then show ?thesis using False Cons by (auto simp: parked_in_def ac_simps)
  qed
qed simp

lemma parked_in_set:
  "map_of d tid = None \<Longrightarrow> tid \<notin> A \<Longrightarrow> parked_in A (dset tid xs d) = parked_in A d + item_ids xs"
  by (induction d) (auto simp: parked_in_def ac_simps split: if_splits)

lemma parked_in_accept:
  assumes "distinct (dkeys d)" "map_of d tid = Some xs" "tid \<notin> A"
  shows "parked_in (insert tid A) d + item_ids xs = parked_in A d"
  using assms
proof (induction d)
  case (Cons p d)
  have o: "parked_in (insert tid A) d = parked_in A d" if "tid \<notin> set (dkeys d)"
    using that by (induction d) (auto simp: parked_in_def)
  show ?case using Cons o by (cases "fst p = tid") (auto simp: parked_in_def ac_simps)
qed simp

lemma parked_in_other: "tid \<notin> set (dkeys d) \<Longrightarrow> parked_in (insert tid A) d = parked_in A d"
  by (induction d) (auto simp: parked_in_def)

end
