(* ===== verification/Input_Invariants.thy ===== *)
theory Input_Invariants
  imports Input_Net
begin

text \<open>
  The invariants of the job's network: every node is well formed, transfers have one requester and one
  donor, a batch stays parked until its requester has said whether it queued it, acknowledgements tell
  the truth, and a node that has left holds nothing.
\<close>

section \<open>The steps as changes of fields\<close>

lemma set_node_simps [simp]:
  "y_node (set_node n s y) = (y_node y)(n := s)" "y_phase (set_node n s y) = y_phase y"
  "y_asked (set_node n s y) = y_asked y" "y_gets (set_node n s y) = y_gets y"
  "y_replies (set_node n s y) = y_replies y" "y_acks (set_node n s y) = y_acks y"
  "y_acked (set_node n s y) = y_acked y" "y_accepted (set_node n s y) = y_accepted y"
  "y_client (set_node n s y) = y_client y" "y_got (set_node n s y) = y_got y"
  "y_uploaded (set_node n s y) = y_uploaded y" "y_received (set_node n s y) = y_received y"
  by (simp_all add: set_node_def)

lemma set_phase_simps [simp]:
  "y_node (set_phase n p y) = y_node y" "y_phase (set_phase n p y) = (y_phase y)(n := p)"
  "y_asked (set_phase n p y) = y_asked y" "y_gets (set_phase n p y) = y_gets y"
  "y_replies (set_phase n p y) = y_replies y" "y_acks (set_phase n p y) = y_acks y"
  "y_acked (set_phase n p y) = y_acked y" "y_accepted (set_phase n p y) = y_accepted y"
  "y_client (set_phase n p y) = y_client y" "y_got (set_phase n p y) = y_got y"
  "y_uploaded (set_phase n p y) = y_uploaded y" "y_received (set_phase n p y) = y_received y"
  by (simp_all add: set_phase_def)

lemma client_receives_simps [simp]:
  "y_node (client_receives n b y) = y_node y" "y_phase (client_receives n b y) = y_phase y"
  "y_asked (client_receives n b y) = y_asked y" "y_gets (client_receives n b y) = y_gets y"
  "y_replies (client_receives n b y) = y_replies y" "y_acks (client_receives n b y) = y_acks y"
  "y_acked (client_receives n b y) = y_acked y" "y_accepted (client_receives n b y) = y_accepted y"
  "y_uploaded (client_receives n b y) = y_uploaded y"
  by (simp_all add: client_receives_def)

section \<open>The invariants\<close>

abbreviation pending :: "job_net \<Rightarrow> string \<Rightarrow> job_input list dict" where
  "pending y n \<equiv> s_pending_transfers (y_node y n)"

definition inv_nodes :: "string list \<Rightarrow> job_net \<Rightarrow> bool" where
  "inv_nodes names y \<longleftrightarrow> (\<forall>n \<in> set names. node_ok (y_node y n) \<and>
     s_active_input_steal_id (y_node y n) = map_option fst (phase_transfer (y_phase y n)))"

definition inv_asked :: "string list \<Rightarrow> job_net \<Rightarrow> bool" where
  "inv_asked names y \<longleftrightarrow>
     (\<forall>n \<in> set names. \<forall>tid d. phase_transfer (y_phase y n) = Some (tid, d) \<longrightarrow>
        y_asked y tid = Some (n, d) \<and> d \<in> set names) \<and>
     (\<forall>tid \<in> y_accepted y. y_asked y tid \<noteq> None) \<and>
     (\<forall>d tid b. (d, tid, b) \<in> y_acks y \<longrightarrow> d \<in> set names \<and> (\<exists>r. y_asked y tid = Some (r, d))) \<and>
     (\<forall>tid. y_replies y tid \<noteq> None \<longrightarrow> y_asked y tid \<noteq> None) \<and>
     (\<forall>n \<in> set names. \<forall>tid \<in> set (dkeys (pending y n)). \<exists>r. y_asked y tid = Some (r, n)) \<and>
     (\<forall>d req. (d, req) \<in> y_gets y \<longrightarrow>
        d \<in> set names \<and> (\<exists>r. y_asked y (sr_transfer_id req) = Some (r, d)))"

definition inv_gets :: "job_net \<Rightarrow> bool" where
  "inv_gets y \<longleftrightarrow> (\<forall>d req. (d, req) \<in> y_gets y \<longrightarrow>
     y_replies y (sr_transfer_id req) = None \<and> sr_transfer_id req \<notin> y_accepted y \<and>
     sr_transfer_id req \<notin> set (dkeys (pending y d)) \<and>
     (\<forall>req'. (d, req') \<in> y_gets y \<longrightarrow> sr_transfer_id req' = sr_transfer_id req \<longrightarrow> req' = req))"

definition unsettled :: "job_net \<Rightarrow> string \<Rightarrow> bool" where
  "unsettled y tid \<longleftrightarrow> tid \<notin> y_accepted y \<and> (\<forall>d b. (d, tid, b) \<notin> y_acks y)"

definition phase_ok :: "job_net \<Rightarrow> steal_phase \<Rightarrow> bool" where
  "phase_ok y p \<longleftrightarrow> (case p of
      NoSteal \<Rightarrow> True
    | Asking d tid \<Rightarrow> unsettled y tid \<and>
        (\<forall>xs. y_replies y tid = Some (Some xs) \<longrightarrow> map_of (pending y d) tid = Some xs)
    | Fetched d tid items \<Rightarrow> unsettled y tid \<and>
        (\<forall>xs. items = Some xs \<longrightarrow> map_of (pending y d) tid = Some xs)
    | Acking d tid received \<Rightarrow> received = (tid \<in> y_accepted y))"

definition inv_steals :: "string list \<Rightarrow> job_net \<Rightarrow> bool" where
  "inv_steals names y \<longleftrightarrow> (\<forall>n \<in> set names. phase_ok y (y_phase y n)) \<and>
     (\<forall>d tid b. (d, tid, b) \<in> y_acks y \<longrightarrow> b = (tid \<in> y_accepted y))"

definition inv_left :: "string list \<Rightarrow> job_net \<Rightarrow> bool" where
  "inv_left names y \<longleftrightarrow> (\<forall>n \<in> set names. s_job_watcher_stop (y_node y n) \<longrightarrow>
     node_ids (y_node y n) = {#} \<and> pending y n = [] \<and> y_phase y n = NoSteal)"

text \<open>The client acknowledges only what it received, and a batch it received is the one it will acknowledge.\<close>

definition client_ok :: "(string \<times> string) set \<Rightarrow> string \<Rightarrow> string option \<Rightarrow> (string \<times> job_result list) option \<Rightarrow> bool" where
  "client_ok got n c b \<longleftrightarrow> (\<forall>k. c = Some k \<longrightarrow> (n, k) \<in> got) \<and>
     (\<forall>k rs. b = Some (k, rs) \<longrightarrow> (n, k) \<in> got \<longrightarrow> c = Some k)"

definition inv_client :: "string list \<Rightarrow> job_net \<Rightarrow> bool" where
  "inv_client names y \<longleftrightarrow> (\<forall>n \<in> set names.
     client_ok (y_got y) n (y_client y n) (s_pending_result_batch (y_node y n)))"

lemmas inv_defs = inv_nodes_def inv_asked_def inv_gets_def inv_steals_def inv_left_def inv_client_def

section \<open>What each operation does to a node's other fields\<close>

lemma local_step_fields:
  assumes "local_step s s'" "node_ok s"
  shows "node_ok s'" "s_pending_transfers s' = s_pending_transfers s" "s_job_watcher_stop s' = s_job_watcher_stop s"
    "node_ids s' = node_ids s" "s_active_input_steal_id s' = s_active_input_steal_id s"
    "s_pending_result_batch s' = s_pending_result_batch s"
  using local_step_keeps [OF assms] local_step_frame [OF assms(1)] by (simp_all add: moved_def frame_def)

lemma queue_inputs_fields [simp]:
  "s_active_input_steal_id (queue_inputs xs s) = s_active_input_steal_id s"
  "s_pending_result_batch (queue_inputs xs s) = s_pending_result_batch s"
  "s_job_watcher_stop (queue_inputs xs s) = s_job_watcher_stop s"
  "s_pending_transfers (queue_inputs xs s) = s_pending_transfers s"
  "s_target_parallelism (queue_inputs xs s) = s_target_parallelism s"
  by (simp_all add: queue_inputs_def)

lemma upload_fields:
  assumes "upload_inputs mem s k xs = (s', Uploaded)"
  shows "s' = queue_inputs xs s"
  using assms by (auto simp: upload_inputs_def split: upload_reply.splits)

lemma begin_steal_fields:
  assumes "begin_steal tid s = (s', req)"
  shows "same_places s s'" "s_active_input_steal_id s' = Some tid" "sr_transfer_id req = tid"
  using assms by (auto simp: begin_steal_def same_places_def)

lemma end_steal_fields: "same_places s (end_steal s)" "s_active_input_steal_id (end_steal s) = None"
  by (simp_all add: end_steal_def same_places_def)

lemma same_places_fields:
  "same_places s s' \<Longrightarrow> s_pending_transfers s' = s_pending_transfers s"
  "same_places s s' \<Longrightarrow> s_pending_result_batch s' = s_pending_result_batch s"
  "same_places s s' \<Longrightarrow> s_job_watcher_stop s' = s_job_watcher_stop s"
  by (simp_all add: same_places_def)

lemma accept_fields:
  assumes "accept_items items s = (s', received)"
  shows "received \<Longrightarrow> \<exists>xs. items = Some xs \<and> s' = queue_inputs xs s" "\<not> received \<Longrightarrow> s' = s"
  using assms by (auto simp: accept_items_def split: option.splits if_splits)

lemma node_ok_queue_inputs: "node_ok s \<Longrightarrow> node_ok (queue_inputs xs s)"
  using moved_ok [OF moved_queue_inputs] .

lemma frame_pick_inputs: "frame s (fst (pick_inputs now qs iw s))"
  by (auto simp: frame_def pick_inputs_def Let_def revoke_inputs_for_idle_peer_def retire_and_clear_def
      split: prod.splits)

text \<open>A served request either changes nothing or parks a batch under a transfer it did not know.\<close>

lemma serve_cases:
  assumes "get_inputs now s k tid qs iw = (s', answer)" "node_ok s" "tid \<notin> set (dkeys (s_pending_transfers s))"
  obtains (refused) "s' = s" "answer = None"
  | (parked) xs where "answer = Some xs" "node_ok s'" "node_ids s' + item_ids xs = node_ids s"
      "s_pending_transfers s' = dset tid xs (s_pending_transfers s)" "\<not> s_job_watcher_stop s"
      "\<not> s_job_watcher_stop s'" "frame s s'"
proof (cases rule: get_inputs_cases [OF assms(1,2)])
  case 1
  then show thesis by (rule refused)
next
  case (2 xs)
  then show thesis using assms(3) by (force dest: map_of_SomeD)
next
  case (3 s1 xs)
  have r: "s_current_job s = Some k" "\<not> s_job_watcher_stop s"
    using assms(1) 3(1) by (cases "s_current_job s \<noteq> Some k \<or> s_job_watcher_stop s"; simp add: get_inputs_def)+
  obtain s2 ys where p: "pick_inputs now qs iw s = (s2, ys)" by (cases "pick_inputs now qs iw s")
  have "s' = s2\<lparr>s_pending_transfers := dset tid ys (s_pending_transfers s2)\<rparr>"
    using assms(1) r 3(2) p by (simp add: get_inputs_def)
  then have "frame s s'" using frame_pick_inputs [of s now qs iw] p by (simp add: frame_def)
  moreover have "distinct (dkeys (s_pending_transfers s))" using assms(2) by (simp add: node_ok_def)
  then have "node_ok s'" using 3(3) by (simp add: 3(4) node_ok_pending moved_ok)
  ultimately show thesis using parked [OF 3(1)] 3(3) r by (simp add: 3(4) moved_def)
qed


text \<open>An acknowledgement changes nothing, or drops the parked batch: back into the queue if it was refused.\<close>

lemma ack_cases:
  assumes "ack_transfer s k tid received = (s', ok)" "node_ok s"
  obtains (unchanged) "s' = s"
  | (settled) xs where "map_of (s_pending_transfers s) tid = Some xs" "node_ok s'"
      "node_ids s' = node_ids s + (if received then {#} else item_ids xs)"
      "s_pending_transfers s' = ddel tid (s_pending_transfers s)"
      "s_job_watcher_stop s' = s_job_watcher_stop s" "frame s s'"
proof (cases rule: ack_transfer_cases [OF assms])
  case (3 xs s1)
  have c: "s_current_job s = Some k" using assms(1) 3(1) by (auto simp: ack_transfer_def split: if_splits)
  have "frame s s'"
    using assms(1) c 3(2) by (auto simp: ack_transfer_def Let_def frame_def)
  moreover have "distinct (dkeys (s_pending_transfers s))" using assms(2) by (simp add: node_ok_def)
  then have "node_ok s'" unfolding 3(4) by (intro node_ok_pending moved_ok [OF 3(3)] distinct_ddel)
  ultimately show thesis using settled [OF 3(2)] 3(3) by (simp add: 3(4) moved_def)
qed (use unchanged in auto)

lemma ack_batch_fields [simp]:
  "s_pending_transfers (ack_batch ack s) = s_pending_transfers s"
  "s_job_watcher_stop (ack_batch ack s) = s_job_watcher_stop s"
  "s_active_input_steal_id (ack_batch ack s) = s_active_input_steal_id s"
  by (simp_all add: ack_batch_def split: option.splits)

lemma get_result_batch_fields:
  "s_active_input_steal_id (fst (get_result_batch uuid s)) = s_active_input_steal_id s"
  "snd (get_result_batch uuid s) = s_pending_result_batch (fst (get_result_batch uuid s))"
  "s_pending_result_batch s = Some b \<Longrightarrow> s_pending_result_batch (fst (get_result_batch uuid s)) = Some b"
  "s_pending_result_batch s = None \<Longrightarrow> s_pending_result_batch (fst (get_result_batch uuid s)) = Some (k, rs) \<Longrightarrow> k = uuid"
  by (auto simp: get_result_batch_def split: option.splits prod.splits if_splits)

text \<open>
  A poll: an acknowledged batch is gone, another one stays, and a batch handed out is an old one or
  carries the new identifier.
\<close>

lemma poll_cases:
  assumes "get_results uuid s k ack = (s', answer)" "node_ok s"
  obtains (refused) "s' = s" "answer = None"
  | (answered) reply where "answer = Some reply" "gr_batch reply = s_pending_result_batch s'" "node_ok s'"
      "node_ids s' + acked_ids ack s = node_ids s"
      "s_pending_transfers s' = s_pending_transfers s" "s_job_watcher_stop s' = s_job_watcher_stop s"
      "s_active_input_steal_id s' = s_active_input_steal_id s"
      "\<And>i rs. s_pending_result_batch s = Some (i, rs) \<Longrightarrow> Some i \<noteq> ack \<Longrightarrow> s_pending_result_batch s' = Some (i, rs)"
      "\<And>i rs. s_pending_result_batch s' = Some (i, rs) \<Longrightarrow>
         s_pending_result_batch s = Some (i, rs) \<and> Some i \<noteq> ack \<or> i = uuid"
proof (cases "s_current_job s = Some k")
  case True
  obtain s2 b where g: "get_result_batch uuid (ack_batch ack s) = (s2, b)"
    by (cases "get_result_batch uuid (ack_batch ack s)")
  obtain s3 logs where p: "pop_pending_logs s2 = (s3, logs)" by (cases "pop_pending_logs s2")
  have s3: "same_places s2 s3" "s_active_input_steal_id s3 = s_active_input_steal_id s2"
    using p by (auto simp: pop_pending_logs_def Let_def same_places_def split: prod.splits)
  obtain reply where r: "answer = Some reply" "gr_batch reply = b" "s' = s3"
    using assms(1) True g p by (auto simp: get_results_def)
  have b: "b = s_pending_result_batch s2" "s_active_input_steal_id s2 = s_active_input_steal_id s"
    using get_result_batch_fields(1,2) [of uuid "ack_batch ack s"] g by simp_all
  have m: "moved (acked_ids ack s) {#} s s'"
    using get_results_moves [OF assms(2), of k ack uuid] True assms(1) by simp
  have old: "s_pending_result_batch (ack_batch ack s) =
      (case s_pending_result_batch s of Some (i, rs) \<Rightarrow> if Some i = ack then None else Some (i, rs) | None \<Rightarrow> None)"
    by (auto simp: ack_batch_def split: option.splits)
  have keep: "s_pending_result_batch s2 = Some (i, rs)" if "s_pending_result_batch s = Some (i, rs)" "Some i \<noteq> ack" for i rs
    using get_result_batch_fields(3) [of "ack_batch ack s" "(i, rs)" uuid] old that g by simp
  have new: "s_pending_result_batch s = Some (i, rs) \<and> Some i \<noteq> ack \<or> i = uuid"
    if "s_pending_result_batch s2 = Some (i, rs)" for i rs
  proof (cases "s_pending_result_batch (ack_batch ack s)")
    case None
    then show ?thesis using get_result_batch_fields(4) [of "ack_batch ack s" uuid i rs] that g by simp
  next
    case (Some c)
    then have "c = (i, rs)" using get_result_batch_fields(3) [OF Some, of uuid] that g by simp
    then show ?thesis using old Some by (auto split: option.splits if_splits)
  qed
  show thesis
    using answered [OF r(1)] r(2,3) m keep new b s3 same_places_fields [OF s3(1)] by (simp add: moved_def)
next
  case False
  then show thesis using refused assms(1) by (simp add: get_results_def)
qed

end
