(* ===== verification/Input_Safety.thy ===== *)
theory Input_Safety
  imports Input_Invariants
begin

text \<open>
  The invariants hold in every reachable state, and so does the count: what was uploaded is what the
  client received and what is outstanding.
\<close>

definition net_ok :: "string list \<Rightarrow> job_net \<Rightarrow> bool" where
  "net_ok names y \<longleftrightarrow> inv_nodes names y \<and> inv_asked names y \<and> inv_gets y \<and> inv_steals names y \<and>
     inv_left names y \<and> inv_client names y"

lemma net_okD:
  assumes "net_ok names y"
  shows "inv_nodes names y" "inv_asked names y" "inv_gets y" "inv_steals names y" "inv_left names y" "inv_client names y"
  using assms by (simp_all add: net_ok_def)

lemma nodesD:
  assumes "net_ok names y" "n \<in> set names"
  shows "node_ok (y_node y n)" "s_active_input_steal_id (y_node y n) = map_option fst (phase_transfer (y_phase y n))"
  using assms by (simp_all add: net_ok_def inv_nodes_def)

lemma askedD:
  assumes "net_ok names y"
  shows "n \<in> set names \<Longrightarrow> phase_transfer (y_phase y n) = Some (tid, d) \<Longrightarrow> y_asked y tid = Some (n, d) \<and> d \<in> set names"
    "(d, tid, b) \<in> y_acks y \<Longrightarrow> d \<in> set names \<and> (\<exists>r. y_asked y tid = Some (r, d))"
    "(d, req) \<in> y_gets y \<Longrightarrow> d \<in> set names \<and> (\<exists>r. y_asked y (sr_transfer_id req) = Some (r, d))"
    "n \<in> set names \<Longrightarrow> tid \<in> set (dkeys (pending y n)) \<Longrightarrow> \<exists>r. y_asked y tid = Some (r, n)"
    "tid \<in> y_accepted y \<Longrightarrow> y_asked y tid \<noteq> None" "y_replies y tid \<noteq> None \<Longrightarrow> y_asked y tid \<noteq> None"
  using assms unfolding net_ok_def inv_asked_def by blast+

lemma inv_askedI:
  assumes "\<And>n tid d. n \<in> set names \<Longrightarrow> phase_transfer (y_phase y n) = Some (tid, d) \<Longrightarrow>
      y_asked y tid = Some (n, d) \<and> d \<in> set names"
    "\<And>tid. tid \<in> y_accepted y \<Longrightarrow> y_asked y tid \<noteq> None"
    "\<And>d tid b. (d, tid, b) \<in> y_acks y \<Longrightarrow> d \<in> set names \<and> (\<exists>r. y_asked y tid = Some (r, d))"
    "\<And>tid. y_replies y tid \<noteq> None \<Longrightarrow> y_asked y tid \<noteq> None"
    "\<And>n tid. n \<in> set names \<Longrightarrow> tid \<in> set (dkeys (pending y n)) \<Longrightarrow> \<exists>r. y_asked y tid = Some (r, n)"
    "\<And>d req. (d, req) \<in> y_gets y \<Longrightarrow> d \<in> set names \<and> (\<exists>r. y_asked y (sr_transfer_id req) = Some (r, d))"
  shows "inv_asked names y"
  unfolding inv_asked_def using assms by blast

lemma getsD:
  assumes "net_ok names y" "(d, req) \<in> y_gets y"
  shows "y_replies y (sr_transfer_id req) = None" "sr_transfer_id req \<notin> y_accepted y"
    "sr_transfer_id req \<notin> set (dkeys (pending y d))"
    "(d, req') \<in> y_gets y \<Longrightarrow> sr_transfer_id req' = sr_transfer_id req \<Longrightarrow> req' = req"
  using assms unfolding net_ok_def inv_gets_def by blast+


section \<open>Steps outside the steal protocol\<close>

text \<open>One node works, is uploaded to, polled or leaves: its transfers and its steal stay.\<close>

definition quiet :: "string list \<Rightarrow> job_net \<Rightarrow> job_net \<Rightarrow> bool" where
  "quiet names y y' \<longleftrightarrow>
     (\<exists>n \<in> set names. \<exists>s'. node_ok s' \<and> s_pending_transfers s' = pending y n \<and>
        s_active_input_steal_id s' = s_active_input_steal_id (y_node y n) \<and> y_node y' = (y_node y)(n := s')) \<and>
     y_phase y' = y_phase y \<and> y_asked y' = y_asked y \<and> y_gets y' = y_gets y \<and> y_replies y' = y_replies y \<and>
     y_acks y' = y_acks y \<and> y_accepted y' = y_accepted y"

definition steals_ok :: "string list \<Rightarrow> job_net \<Rightarrow> bool" where
  "steals_ok names y \<longleftrightarrow> inv_nodes names y \<and> inv_asked names y \<and> inv_gets y \<and> inv_steals names y"

lemma quiet_ok:
  assumes "quiet names y y'" "net_ok names y"
  shows "steals_ok names y'"
proof -
  obtain n s' where n: "n \<in> set names" "node_ok s'" "s_pending_transfers s' = pending y n"
      "s_active_input_steal_id s' = s_active_input_steal_id (y_node y n)" "y_node y' = (y_node y)(n := s')"
    and o: "y_phase y' = y_phase y" "y_asked y' = y_asked y" "y_gets y' = y_gets y" "y_replies y' = y_replies y"
      "y_acks y' = y_acks y" "y_accepted y' = y_accepted y"
    using assms(1) by (auto simp: quiet_def)
  have p: "pending y' m = pending y m" for m using n by auto
  have "phase_ok y' = phase_ok y" by (intro ext) (simp add: phase_ok_def unsettled_def p o split: steal_phase.splits)
  moreover have "inv_nodes names y'" using nodesD [OF assms(2)] n o by (auto simp: inv_nodes_def)
  ultimately show ?thesis using net_okD [OF assms(2)]
    by (auto simp: steals_ok_def inv_asked_def inv_gets_def inv_steals_def p o)
qed

lemma end_steal_simps [simp]:
  "node_ok (end_steal s) = node_ok s" "s_pending_transfers (end_steal s) = s_pending_transfers s"
  "s_active_input_steal_id (end_steal s) = None" "s_job_watcher_stop (end_steal s) = s_job_watcher_stop s"
  "s_pending_result_batch (end_steal s) = s_pending_result_batch s"
  by (simp_all add: end_steal_def node_ok_def)

lemma leave_fields: "claim_drained_job_part s = (s', True) \<Longrightarrow> s' = s\<lparr>s_job_watcher_stop := True\<rparr>"
  by (auto simp: claim_drained_job_part_def Let_def split: if_splits)

lemma node_ok_stop [simp]: "node_ok (s\<lparr>s_job_watcher_stop := b\<rparr>) = node_ok s"
  by (simp add: node_ok_def)

lemma quietI:
  assumes "n \<in> set names" "node_ok s'" "s_pending_transfers s' = pending y n"
    "s_active_input_steal_id s' = s_active_input_steal_id (y_node y n)"
  shows "quiet names y (set_node n s' y)" "quiet names y (set_node n s' (y\<lparr>y_uploaded := u\<rparr>))"
    "quiet names y (client_receives n b (set_node n s' y))"
  using assms unfolding quiet_def by auto

section \<open>The steal protocol\<close>

lemma fresh_transfer:
  assumes "net_ok names y" "y_asked y tid = None"
  shows "y_replies y tid = None" "tid \<notin> y_accepted y" "(d, tid, b) \<notin> y_acks y"
    "m \<in> set names \<Longrightarrow> tid \<notin> set (dkeys (pending y m))" "(d, req) \<in> y_gets y \<Longrightarrow> sr_transfer_id req \<noteq> tid"
    "m \<in> set names \<Longrightarrow> phase_transfer (y_phase y m) \<noteq> Some (tid, d)"
  using net_okD(2) [OF assms(1)] assms(2) unfolding inv_asked_def by (metis option.distinct(1))+

lemma begin_ok:
  assumes "net_ok names y" "n \<in> set names" "d \<in> set names" "d \<noteq> n" "y_phase y n = NoSteal" "y_asked y tid = None"
    "begin_steal tid (y_node y n) = (s', req)"
    "y' = set_phase n (Asking d tid) (set_node n s'
      (y\<lparr>y_asked := (y_asked y)(tid := Some (n, d)), y_gets := insert (d, req) (y_gets y)\<rparr>))"
  shows "steals_ok names y'"
proof -
  note f = begin_steal_fields [OF assms(7)]
  note fresh = fresh_transfer [OF assms(1,6)]
  have p: "pending y' m = pending y m" for m using same_places_fields(1) [OF f(1)] assms(8) by auto
  have "node_ok s'" using same_places_ids(2) [OF f(1)] nodesD(1) [OF assms(1,2)] by simp
  then have "inv_nodes names y'" using nodesD [OF assms(1)] f assms(8) by (auto simp: inv_nodes_def)
  moreover have "inv_asked names y'"
  proof (rule inv_askedI, goal_cases)
    case (1 m t d')
    then show ?case
      using askedD(1) [OF assms(1), of m t d'] assms(2,3,6) by (auto simp: assms(8) split: if_splits)
  next
    case (2 t)
    then show ?case using askedD(5) [OF assms(1), of t] by (simp add: assms(8))
  next
    case (3 d' t b)
    then show ?case using askedD(2) [OF assms(1), of d' t b] assms(6) by (auto simp: assms(8))
  next
    case (4 t)
    then show ?case using askedD(6) [OF assms(1), of t] by (simp add: assms(8))
  next
    case (5 m t)
    then show ?case using askedD(4) [OF assms(1), of m t] assms(6) unfolding p by (auto simp: assms(8))
  next
    case (6 d' r)
    then show ?case using askedD(3) [OF assms(1), of d' r] assms(3,6) f(3) by (auto simp: assms(8))
  qed
  moreover have "inv_gets y'"
    unfolding inv_gets_def p
  proof (intro allI impI)
    fix d' r assume r: "(d', r) \<in> y_gets y'"
    show "y_replies y' (sr_transfer_id r) = None \<and> sr_transfer_id r \<notin> y_accepted y' \<and>
        sr_transfer_id r \<notin> set (dkeys (pending y d')) \<and>
        (\<forall>r'. (d', r') \<in> y_gets y' \<longrightarrow> sr_transfer_id r' = sr_transfer_id r \<longrightarrow> r' = r)"
    proof (cases "(d', r) = (d, req)")
      case True
      then show ?thesis using fresh assms(3) f by (auto simp: assms(8))
    next
      case False
      then have g: "(d', r) \<in> y_gets y" using r by (auto simp: assms(8))
      have t: "sr_transfer_id r \<noteq> tid" by (rule fresh(5) [OF g])
      then have "r' = r" if "(d', r') \<in> y_gets y'" "sr_transfer_id r' = sr_transfer_id r" for r'
        using that getsD(4) [OF assms(1) g, of r'] f(3) by (auto simp: assms(8))
      then show ?thesis using getsD(1-3) [OF assms(1) g] t by (auto simp: assms(8))
    qed
  qed
  moreover have "phase_ok y' p" if "phase_ok y p" for p
    using that unfolding phase_ok_def unsettled_def p by (simp add: assms(8) split: steal_phase.splits)
  then have "inv_steals names y'"
    using net_okD(4) [OF assms(1)] fresh by (auto simp: inv_steals_def assms(8) phase_ok_def unsettled_def)
  ultimately show ?thesis by (simp add: steals_ok_def)
qed


lemma transfer_owner:
  assumes "net_ok names y" "m \<in> set names" "n \<in> set names"
    "phase_transfer (y_phase y m) = Some (tid, d)" "phase_transfer (y_phase y n) = Some (tid, d')"
  shows "m = n"
  using askedD(1) [OF assms(1,2,4)] askedD(1) [OF assms(1,3,5)] by simp

text \<open>The answer arrives, fails, or the transaction ends: only the requester's phase changes.\<close>

lemma phase_step_ok:
  assumes "net_ok names y" "n \<in> set names" "node_ok s'" "s_pending_transfers s' = pending y n"
    "s_active_input_steal_id s' = map_option fst (phase_transfer p')"
    "phase_transfer p' = None \<or> phase_transfer p' = phase_transfer (y_phase y n)" "phase_ok y p'"
    "y' = set_phase n p' (set_node n s' y)"
  shows "steals_ok names y'"
proof -
  have p: "pending y' m = pending y m" for m using assms(4,8) by auto
  have ok: "phase_ok y' q = phase_ok y q" for q
    unfolding phase_ok_def unsettled_def p by (simp add: assms(8) split: steal_phase.splits)
  have "inv_nodes names y'" using nodesD [OF assms(1)] assms(3,5,8) by (auto simp: inv_nodes_def)
  moreover have "inv_asked names y'"
  proof (rule inv_askedI, goal_cases)
    case (1 m t d)
    then show ?case
      using askedD(1) [OF assms(1), of m t d] assms(2,6) by (auto simp: assms(8) split: if_splits)
  next
    case (5 m t)
    then show ?case using askedD(4) [OF assms(1), of m t] unfolding p by (simp add: assms(8))
  qed (use askedD [OF assms(1)] in \<open>simp_all add: assms(8)\<close>)
  moreover have "inv_gets y'" using net_okD(3) [OF assms(1)] unfolding inv_gets_def p by (simp add: assms(8))
  moreover have "inv_steals names y'"
    using net_okD(4) [OF assms(1)] assms(7) unfolding inv_steals_def ok by (auto simp: assms(8))
  ultimately show ?thesis by (simp add: steals_ok_def)
qed

lemma accept_ok:
  assumes "net_ok names y" "n \<in> set names" "y_phase y n = Fetched d tid items"
    "accept_items items (y_node y n) = (s', received)"
    "y' = set_phase n (Acking d tid received) (set_node n s'
      (y\<lparr>y_accepted := y_accepted y \<union> (if received then {tid} else {})\<rparr>))"
  shows "steals_ok names y'"
proof -
  have s': "node_ok s' \<and> s_pending_transfers s' = pending y n \<and>
      s_active_input_steal_id s' = s_active_input_steal_id (y_node y n)"
    using accept_fields [OF assms(4)] nodesD(1) [OF assms(1,2)] node_ok_queue_inputs by (cases received) auto
  have p: "pending y' m = pending y m" for m using s' assms(5) by auto
  have tr: "phase_transfer (y_phase y n) = Some (tid, d)" by (simp add: assms(3))
  have "phase_ok y (Fetched d tid items)" using net_okD(4) [OF assms(1)] assms(2,3) by (force simp: inv_steals_def)
  then have un: "tid \<notin> y_accepted y" "\<And>d b. (d, tid, b) \<notin> y_acks y"
    "\<And>xs. items = Some xs \<Longrightarrow> map_of (pending y d) tid = Some xs" by (auto simp: phase_ok_def unsettled_def)
  have gets: "sr_transfer_id r \<noteq> tid" if g: "(d', r) \<in> y_gets y" "received" for d' r
  proof
    assume e: "sr_transfer_id r = tid"
    have "d' = d" using askedD(3) [OF assms(1) g(1)] askedD(1) [OF assms(1,2) tr] e by auto
    moreover obtain xs where "map_of (pending y d) tid = Some xs"
      using accept_fields(1) [OF assms(4) g(2)] un(3) by auto
    ultimately show False using getsD(3) [OF assms(1) g(1)] e map_of_SomeD by (force simp: image_iff)
  qed
  have "inv_nodes names y'" using nodesD [OF assms(1)] s' assms(2,3,5) by (auto simp: inv_nodes_def)
  moreover have "inv_asked names y'"
  proof (rule inv_askedI, goal_cases)
    case (1 m t d')
    then show ?case
      using askedD(1) [OF assms(1), of m t d'] askedD(1) [OF assms(1,2) tr] by (auto simp: assms(5) split: if_splits)
  next
    case (2 t)
    then show ?case
      using askedD(5) [OF assms(1), of t] askedD(1) [OF assms(1,2) tr] by (auto simp: assms(5) split: if_splits)
  next
    case (5 m t)
    then show ?case using askedD(4) [OF assms(1), of m t] unfolding p by (simp add: assms(5))
  qed (use askedD [OF assms(1)] in \<open>simp_all add: assms(5)\<close>)
  moreover have "inv_gets y'"
    using net_okD(3) [OF assms(1)] gets unfolding inv_gets_def p by (auto simp: assms(5))
  moreover have "phase_ok y' (y_phase y' m)" if "m \<in> set names" for m
  proof (cases "m = n")
    case True
    then show ?thesis using un(1) by (simp add: assms(5) phase_ok_def)
  next
    case False
    have o: "phase_transfer (y_phase y m) \<noteq> Some (tid, d')" for d'
      using transfer_owner [OF assms(1) that assms(2) _ tr] False by blast
    have "phase_ok y (y_phase y m)" using net_okD(4) [OF assms(1)] that by (simp add: inv_steals_def)
    with o False show ?thesis unfolding phase_ok_def unsettled_def p
      by (auto simp: assms(5) split: steal_phase.splits)
  qed
  moreover have "b = (t \<in> y_accepted y')" if "(d', t, b) \<in> y_acks y'" for d' t b
    using that net_okD(4) [OF assms(1)] un(2) by (auto simp: inv_steals_def assms(5))
  ultimately show ?thesis by (simp add: steals_ok_def inv_steals_def)
qed

lemma send_ack_ok:
  assumes "net_ok names y" "n \<in> set names" "y_phase y n = Acking d tid received"
    "y' = y\<lparr>y_acks := insert (d, tid, received) (y_acks y)\<rparr>"
  shows "steals_ok names y'"
proof -
  have tr: "phase_transfer (y_phase y n) = Some (tid, d)" by (simp add: assms(3))
  have a: "received = (tid \<in> y_accepted y)"
    using net_okD(4) [OF assms(1)] assms(2,3) by (force simp: inv_steals_def phase_ok_def)
  have "inv_nodes names y'" "inv_gets y'" using net_okD(1,3) [OF assms(1)] by (simp_all add: inv_nodes_def inv_gets_def assms(4))
  moreover have "inv_asked names y'"
  proof (rule inv_askedI, goal_cases)
    case (3 d' t b)
    then show ?case
      using askedD(2) [OF assms(1), of d' t b] askedD(1) [OF assms(1,2) tr] by (auto simp: assms(4))
  qed (use askedD [OF assms(1)] in \<open>simp_all add: assms(4)\<close>)
  moreover have "phase_ok y' (y_phase y' m)" if "m \<in> set names" for m
  proof (cases "m = n")
    case True
    then show ?thesis using a by (simp add: assms(3,4) phase_ok_def)
  next
    case False
    have o: "phase_transfer (y_phase y m) \<noteq> Some (tid, d')" for d'
      using transfer_owner [OF assms(1) that assms(2) _ tr] False by blast
    have "phase_ok y (y_phase y m)" using net_okD(4) [OF assms(1)] that by (simp add: inv_steals_def)
    with o show ?thesis unfolding phase_ok_def unsettled_def
      by (auto simp: assms(4) split: steal_phase.splits)
  qed
  moreover have "b = (t \<in> y_accepted y')" if "(d', t, b) \<in> y_acks y'" for d' t b
    using that net_okD(4) [OF assms(1)] a by (auto simp: inv_steals_def assms(4))
  ultimately show ?thesis by (simp add: steals_ok_def inv_steals_def)
qed

lemma serve_ok:
  assumes "net_ok names y" "(d, req) \<in> y_gets y"
    "get_inputs now (y_node y d) job (sr_transfer_id req) qs iw = (s', answer)"
    "y' = set_node d s' (y\<lparr>y_gets := y_gets y - {(d, req)},
      y_replies := (y_replies y)(sr_transfer_id req := Some answer)\<rparr>)"
  shows "steals_ok names y'"
proof -
  let ?t = "sr_transfer_id req"
  obtain r where r: "d \<in> set names" "y_asked y ?t = Some (r, d)" using askedD(3) [OF assms(1,2)] by auto
  note g = getsD [OF assms(1,2)]
  note ok = nodesD [OF assms(1) r(1)]
  have n: "node_ok s'" "s_active_input_steal_id s' = s_active_input_steal_id (y_node y d)"
    by (cases rule: serve_cases [OF assms(3) ok(1) g(3)]; use ok in \<open>simp add: frame_def\<close>)+
  have p: "s_pending_transfers s' =
      (case answer of None \<Rightarrow> pending y d | Some xs \<Rightarrow> dset ?t xs (pending y d))"
    by (cases rule: serve_cases [OF assms(3) ok(1) g(3)]) simp_all
  have k: "tid \<in> set (dkeys (pending y' m)) \<Longrightarrow> tid \<in> set (dkeys (pending y m)) \<or> tid = ?t \<and> m = d" for m tid
    using p by (auto simp: assms(4) simp del: set_map split: option.splits if_splits)
  have q: "map_of (pending y' m) tid = Some xs"
    if "map_of (pending y m) tid = Some xs" "tid \<noteq> ?t \<or> m \<noteq> d" for m tid xs
    using p that by (auto simp: assms(4) split: option.splits)
  have "inv_nodes names y'" using nodesD [OF assms(1)] n by (auto simp: inv_nodes_def assms(4))
  moreover have "inv_asked names y'"
  proof (rule inv_askedI, goal_cases)
    case (4 t)
    then show ?case using askedD(6) [OF assms(1), of t] r(2) by (auto simp: assms(4) split: if_splits)
  next
    case (5 m t)
    then show ?case using k [OF 5(2)] askedD(4) [OF assms(1), of m t] r(2) by (auto simp: assms(4))
  next
    case (6 d' r')
    then show ?case using askedD(3) [OF assms(1), of d' r'] by (simp add: assms(4))
  qed (use askedD [OF assms(1)] in \<open>simp_all add: assms(4)\<close>)
  moreover have "inv_gets y'"
    unfolding inv_gets_def
  proof (intro allI impI)
    fix d' r' assume a: "(d', r') \<in> y_gets y'"
    then have b: "(d', r') \<in> y_gets y" "(d', r') \<noteq> (d, req)" by (auto simp: assms(4))
    have t: "sr_transfer_id r' \<noteq> ?t"
      using askedD(3) [OF assms(1) b(1)] r(2) getsD(4) [OF assms(1,2), of r'] b by auto
    have "sr_transfer_id r' \<notin> set (dkeys (pending y' d'))"
      using k [of "sr_transfer_id r'" d'] t getsD(3) [OF assms(1) b(1)] by blast
    then show "y_replies y' (sr_transfer_id r') = None \<and> sr_transfer_id r' \<notin> y_accepted y' \<and>
        sr_transfer_id r' \<notin> set (dkeys (pending y' d')) \<and>
        (\<forall>r''. (d', r'') \<in> y_gets y' \<longrightarrow> sr_transfer_id r'' = sr_transfer_id r' \<longrightarrow> r'' = r')"
      using getsD(1,2,4) [OF assms(1) b(1)] t by (auto simp: assms(4))
  qed
  moreover have "phase_ok y' (y_phase y' m)" if "m \<in> set names" for m
  proof -
    have "phase_ok y (y_phase y m)" using net_okD(4) [OF assms(1)] that by (simp add: inv_steals_def)
    moreover have "dd = d" if "phase_transfer (y_phase y m) = Some (?t, dd)" for dd
      using askedD(1) [OF assms(1) \<open>m \<in> set names\<close> that] r(2) by simp
    moreover have "map_of (pending y d) ?t = None" using g(3) by (simp add: map_of_eq_None_iff)
    ultimately show ?thesis
      using p g(1) q
      by (cases "y_phase y m")
        (auto simp: phase_ok_def unsettled_def assms(4) split: option.splits if_splits)
  qed
  moreover have "b = (t \<in> y_accepted y')" if "(d', t, b) \<in> y_acks y'" for d' t b
    using that net_okD(4) [OF assms(1)] by (simp add: inv_steals_def assms(4))
  ultimately show ?thesis by (simp add: steals_ok_def inv_steals_def)
qed

lemma serve_ack_ok:
  assumes "net_ok names y" "(d, tid, received) \<in> y_acks y"
    "ack_transfer (y_node y d) job tid received = (s', ok)"
    "y' = set_node d s' (y\<lparr>y_acked := A\<rparr>)"
  shows "steals_ok names y'"
proof -
  have d: "d \<in> set names" using askedD(2) [OF assms(1,2)] by simp
  note o = nodesD [OF assms(1) d]
  have n: "node_ok s' \<and> s_active_input_steal_id s' = s_active_input_steal_id (y_node y d) \<and>
      (s_pending_transfers s' = pending y d \<or> s_pending_transfers s' = ddel tid (pending y d))"
    by (cases rule: ack_cases [OF assms(3) o(1)]) (use o in \<open>simp_all add: frame_def\<close>)
  have k: "t \<in> set (dkeys (pending y m))" if "t \<in> set (dkeys (pending y' m))" for t m
    using n that by (auto simp: assms(4) ddel_def AList.delete_eq split: if_splits)
  have q: "map_of (pending y' m) t = map_of (pending y m) t" if "t \<noteq> tid" for t m
    using n that by (auto simp: assms(4))
  have "inv_nodes names y'" using nodesD [OF assms(1)] n by (auto simp: inv_nodes_def assms(4))
  moreover have "inv_asked names y'"
  proof (rule inv_askedI, goal_cases)
    case (5 m t)
    then show ?case using k [OF 5(2)] askedD(4) [OF assms(1), of m t] by (simp add: assms(4))
  qed (use askedD [OF assms(1)] in \<open>simp_all add: assms(4)\<close>)
  moreover have "inv_gets y'"
    unfolding inv_gets_def
  proof (intro allI impI)
    fix d' r' assume "(d', r') \<in> y_gets y'"
    then have b: "(d', r') \<in> y_gets y" by (simp add: assms(4))
    have "sr_transfer_id r' \<notin> set (dkeys (pending y' d'))" using k getsD(3) [OF assms(1) b] by blast
    then show "y_replies y' (sr_transfer_id r') = None \<and> sr_transfer_id r' \<notin> y_accepted y' \<and>
        sr_transfer_id r' \<notin> set (dkeys (pending y' d')) \<and>
        (\<forall>r''. (d', r'') \<in> y_gets y' \<longrightarrow> sr_transfer_id r'' = sr_transfer_id r' \<longrightarrow> r'' = r')"
      using getsD(1,2,4) [OF assms(1) b] by (simp add: assms(4))
  qed
  moreover have "phase_ok y' (y_phase y' m)" if "m \<in> set names" for m
  proof -
    have "phase_ok y (y_phase y m)" using net_okD(4) [OF assms(1)] that by (simp add: inv_steals_def)
    moreover have "t \<noteq> tid" if "unsettled y t" for t using that assms(2) by (auto simp: unsettled_def)
    ultimately show ?thesis using q
      by (cases "y_phase y m") (auto simp: phase_ok_def unsettled_def assms(4))
  qed
  moreover have "b = (t \<in> y_accepted y')" if "(d', t, b) \<in> y_acks y'" for d' t b
    using that net_okD(4) [OF assms(1)] by (simp add: inv_steals_def assms(4))
  ultimately show ?thesis by (simp add: steals_ok_def inv_steals_def)
qed

lemma steals_step:
  assumes "net_step names job y y'" "net_ok names y"
  shows "steals_ok names y'"
  using assms(1)
proof (cases rule: net_step.cases)
  case (work n s')
  note f = local_step_fields [OF work(3) nodesD(1) [OF assms(2) work(2)]]
  show ?thesis unfolding work(1) by (intro quiet_ok [OF _ assms(2)] quietI) (use work f in auto)
next
  case (upload n mem xs s')
  then show ?thesis using upload_fields [OF upload(4)] nodesD [OF assms(2)]
    by (auto intro!: quiet_ok [OF _ assms(2)] quietI(2) node_ok_queue_inputs)
next
  case (begin_ n d now started tid s' req)
  show ?thesis by (rule begin_ok [OF assms(2) begin_(2-5,8,9,1)])
next
  case (serve d req now s' answer)
  show ?thesis by (rule serve_ok [OF assms(2) serve(2,3,1)])
next
  case (fetched n d tid xs)
  have "phase_ok y (Asking d tid)" using net_okD(4) [OF assms(2)] fetched by (force simp: inv_steals_def)
  then have "phase_ok y (Fetched d tid (Some xs))" using fetched by (simp add: phase_ok_def)
  with fetched nodesD [OF assms(2) fetched(2)] show ?thesis
    by (intro phase_step_ok [OF assms(2) fetched(2), of "y_node y n"]) (simp_all add: set_node_def)
next
  case (not_found n d tid)
  with nodesD [OF assms(2) not_found(2)] show ?thesis
    by (intro phase_step_ok [OF assms(2) not_found(2) _ _ _ _ _ not_found(1)]) (simp_all add: phase_ok_def)
next
  case (lost n d tid)
  have "phase_ok y (Asking d tid)" using net_okD(4) [OF assms(2)] lost by (force simp: inv_steals_def)
  then have "phase_ok y (Fetched d tid None)" by (simp add: phase_ok_def)
  with lost nodesD [OF assms(2) lost(2)] show ?thesis
    by (intro phase_step_ok [OF assms(2) lost(2), of "y_node y n"]) (simp_all add: set_node_def)
next
  case (accept n d tid items s' received)
  show ?thesis by (rule accept_ok [OF assms(2) accept(2-4,1)])
next
  case (send_ack n d tid received)
  show ?thesis by (rule send_ack_ok [OF assms(2) send_ack(2,3,1)])
next
  case (serve_ack d tid received s' ok)
  show ?thesis by (rule serve_ack_ok [OF assms(2) serve_ack(2,3,1)])
next
  case (acked n d tid received now ack_started neighbor)
  with nodesD [OF assms(2) acked(2)] show ?thesis
    by (intro phase_step_ok [OF assms(2) acked(2) _ _ _ _ _ acked(1)]) (simp_all add: phase_ok_def)
next
  case (poll n uuid s' reply)
  note ok = nodesD(1) [OF assms(2) poll(2)]
  show ?thesis unfolding poll(1)
    by (cases rule: poll_cases [OF poll(4) ok]) (auto intro!: quiet_ok [OF _ assms(2)] quietI(3) simp: ok poll(2))
next
  case (poll_lost n uuid ack s' reply')
  note ok = nodesD(1) [OF assms(2) poll_lost(2)]
  show ?thesis unfolding poll_lost(1)
    by (cases rule: poll_cases [OF poll_lost(5) ok]) (auto intro!: quiet_ok [OF _ assms(2)] quietI(1) simp: ok poll_lost(2))
next
  case (leave n s')
  then show ?thesis using leave_fields [OF leave(3)] nodesD [OF assms(2)]
    by (auto intro!: quiet_ok [OF _ assms(2)] quietI(1))
qed

section \<open>Leaving\<close>

lemma drained_empty:
  assumes "claim_drained_job_part s = (s', True)" "node_ok s"
  shows "node_ids s' = {#}" "s_pending_transfers s' = []" "s_active_input_steal_id s = None"
proof -
  note s' = leave_fields [OF assms(1)]
  have d: "sq_qsize (s_inputs_queue s) = 0" "s_pending_transfers s = []" "s_active_input_steal_id s = None"
    "\<forall>w \<in> set (s_workers s). w_is_idle w \<or> w_retired w" "sq_qsize (s_results_queue s) = 0"
    "s_pending_result_batch s = None"
    using assms(1) by (auto simp: claim_drained_job_part_def Let_def list_all_iff split: if_splits)
  have q: "sq_contents (s_inputs_queue s) = {#}" "sq_contents (s_results_queue s) = {#}"
    using assms(2) d(1,5) sq.qsize_contents [of "s_inputs_queue s"] sq.qsize_contents [of "s_results_queue s"]
    by (simp_all add: node_ok_def)
  have "held w = {#}" if "w \<in> set (s_workers s)" for w
    using assms(2) d(4) that by (cases "w_current_input w") (auto simp: node_ok_def worker_ok_def held_def)
  then have "(\<Sum>w\<leftarrow>s_workers s. held w) = (\<Sum>w\<leftarrow>s_workers s. {#})" by (intro arg_cong [of _ _ sum_list] map_cong) auto
  then show "node_ids s' = {#}"
    using q d(6) by (simp add: s' node_ids_def queued_ids_def running_ids_def result_ids_def batch_ids_def sum_zero)
  show "s_pending_transfers s' = []" "s_active_input_steal_id s = None" using d(2,3) by (simp_all add: s')
qed

lemma left_step:
  assumes "net_step names job y y'" "net_ok names y"
  shows "inv_left names y'"
proof -
  have old: "node_ids (y_node y n) = {#} \<and> pending y n = [] \<and> y_phase y n = NoSteal"
    if "n \<in> set names" "s_job_watcher_stop (y_node y n)" for n
    using net_okD(5) [OF assms(2)] that by (simp add: inv_left_def)
  have busy: "\<not> s_job_watcher_stop (y_node y n)" if "n \<in> set names" "y_phase y n \<noteq> NoSteal" for n
    using old that by blast
  from assms(1) show ?thesis
  proof (cases rule: net_step.cases)
    case (work n s')
    then show ?thesis using local_step_fields [OF work(3) nodesD(1) [OF assms(2) work(2)]] old
      by (auto simp: inv_left_def)
  next
    case (upload n mem xs s')
    then show ?thesis using upload_fields [OF upload(4)] old by (auto simp: inv_left_def)
  next
    case (begin_ n d now started tid s' req)
    then show ?thesis using same_places_fields(3) [OF begin_steal_fields(1) [OF begin_(9)]] old by (auto simp: inv_left_def)
  next
    case (serve d req now s' answer)
    note d = askedD(3) [OF assms(2) serve(2)]
    show ?thesis using nodesD [OF assms(2)] d old
      by (cases rule: serve_cases [OF serve(3) _ getsD(3) [OF assms(2) serve(2)]]) (auto simp: serve(1) inv_left_def)
  next
    case (fetched n d tid xs)
    then show ?thesis using busy [of n] old by (auto simp: inv_left_def)
  next
    case (not_found n d tid)
    then show ?thesis using busy [of n] old by (auto simp: inv_left_def)
  next
    case (lost n d tid)
    then show ?thesis using busy [of n] old by (auto simp: inv_left_def)
  next
    case (accept n d tid items s' received)
    then show ?thesis using busy [of n] old accept_fields [OF accept(4)] by (cases received) (auto simp: inv_left_def)
  next
    case (send_ack n d tid received)
    then show ?thesis using old by (auto simp: inv_left_def)
  next
    case (serve_ack d tid received s' ok)
    have d: "d \<in> set names" using askedD(2) [OF assms(2) serve_ack(2)] by simp
    show ?thesis using old [of d] old d
      by (cases rule: ack_cases [OF serve_ack(3) nodesD(1) [OF assms(2) d]]) (auto simp: serve_ack(1) inv_left_def)
  next
    case (acked n d tid received now ack_started neighbor)
    then show ?thesis using busy [of n] old by (auto simp: inv_left_def)
  next
    case (poll n uuid s' reply)
    show ?thesis using old poll(2)
      by (cases rule: poll_cases [OF poll(4) nodesD(1) [OF assms(2) poll(2)]]) (auto simp: poll(1) inv_left_def)
  next
    case (poll_lost n uuid ack s' reply')
    show ?thesis using old poll_lost(2)
      by (cases rule: poll_cases [OF poll_lost(5) nodesD(1) [OF assms(2) poll_lost(2)]]) (auto simp: poll_lost(1) inv_left_def)
  next
    case (leave n s')
    have "y_phase y n = NoSteal"
      using drained_empty(3) [OF leave(3)] nodesD [OF assms(2) leave(2)] by (cases "y_phase y n") auto
    then show ?thesis using drained_empty(1,2) [OF leave(3) nodesD(1) [OF assms(2) leave(2)]] old leave(1)
      by (auto simp: inv_left_def)
  qed
qed

lemma client_ok_cong: "(\<And>k. (n, k) \<in> g' \<longleftrightarrow> (n, k) \<in> g) \<Longrightarrow> client_ok g' n c b = client_ok g n c b"
  by (simp add: client_ok_def)

lemma client_step:
  assumes "net_step names job y y'" "net_ok names y"
  shows "inv_client names y'"
proof -
  have old: "client_ok (y_got y) n (y_client y n) (s_pending_result_batch (y_node y n))" if "n \<in> set names" for n
    using net_okD(6) [OF assms(2)] that by (simp add: inv_client_def)
  have same: ?thesis if "n \<in> set names" "s_pending_result_batch s' = s_pending_result_batch (y_node y n)"
    "y_node y' = (y_node y)(n := s')" "y_client y' = y_client y" "y_got y' = y_got y" for n s'
    using that old by (simp add: inv_client_def)
  from assms(1) show ?thesis
  proof (cases rule: net_step.cases)
    case (work n s')
    show ?thesis by (rule same [of n s']) (use work local_step_fields [OF work(3) nodesD(1) [OF assms(2) work(2)]] in auto)
  next
    case (upload n mem xs s')
    then show ?thesis using upload_fields [OF upload(4)] by (intro same [of n s']) auto
  next
    case (begin_ n d now started tid s' req)
    then show ?thesis using same_places_fields(2) [OF begin_steal_fields(1) [OF begin_(9)]] by (intro same [of n s']) auto
  next
    case (serve d req now s' answer)
    have d: "d \<in> set names" using askedD(3) [OF assms(2) serve(2)] by simp
    have "s_pending_result_batch s' = s_pending_result_batch (y_node y d)"
      by (cases rule: serve_cases [OF serve(3) nodesD(1) [OF assms(2) d] getsD(3) [OF assms(2) serve(2)]])
        (simp_all add: frame_def)
    then show ?thesis using serve(1) d by (intro same [of d s']) auto
  next
    case (accept n d tid items s' received)
    then show ?thesis using accept_fields [OF accept(4)] by (intro same [of n s']) (cases received; auto)+
  next
    case (not_found n d tid)
    then show ?thesis by (intro same [of n "end_steal (y_node y n)"]) auto
  next
    case (acked n d tid received now ack_started neighbor)
    then show ?thesis by (intro same [of n "end_steal (y_node y n)"]) auto
  next
    case (serve_ack d tid received s' ok)
    have d: "d \<in> set names" using askedD(2) [OF assms(2) serve_ack(2)] by simp
    have "s_pending_result_batch s' = s_pending_result_batch (y_node y d)"
      by (cases rule: ack_cases [OF serve_ack(3) nodesD(1) [OF assms(2) d]]) (simp_all add: frame_def)
    then show ?thesis using serve_ack(1) d by (intro same [of d s']) auto
  next
    case (poll n uuid s' reply)
    have "client_ok (y_got y') n (map_option fst (gr_batch reply)) (s_pending_result_batch s')"
    proof (cases rule: poll_cases [OF poll(4) nodesD(1) [OF assms(2) poll(2)]])
      case (2 r)
      then show ?thesis by (auto simp: poll(1) client_ok_def client_receives_def)
    qed simp
    moreover have "client_ok (y_got y') m (y_client y' m) (s_pending_result_batch (y_node y' m))"
      if "m \<in> set names" "m \<noteq> n" for m
    proof -
      have "(m, k) \<in> y_got y' \<longleftrightarrow> (m, k) \<in> y_got y" for k
        using that(2) by (auto simp: poll(1) client_receives_def split: option.splits)
      from client_ok_cong [OF this] show ?thesis
        using old [OF that(1)] that(2) by (simp add: poll(1) client_receives_def)
    qed
    moreover have "y_client y' n = map_option fst (gr_batch reply)" "y_node y' n = s'"
      by (simp_all add: poll(1) client_receives_def)
    ultimately show ?thesis unfolding inv_client_def by metis
  next
    case (poll_lost n uuid ack s' reply')
    note ok = nodesD(1) [OF assms(2) poll_lost(2)]
    have "client_ok (y_got y) n (y_client y n) (s_pending_result_batch s')"
    proof (cases rule: poll_cases [OF poll_lost(5) ok])
      case (2 r)
      then have "s_pending_result_batch s' = Some (k, rs) \<Longrightarrow> (n, k) \<in> y_got y \<Longrightarrow>
          s_pending_result_batch (y_node y n) = Some (k, rs)" for k rs
        using poll_lost(3) by metis
      then show ?thesis using old [OF poll_lost(2)] unfolding client_ok_def by metis
    qed (use old [OF poll_lost(2)] in simp)
    then show ?thesis using old by (auto simp: poll_lost(1) inv_client_def)
  next
    case (leave n s')
    then show ?thesis using leave_fields [OF leave(3)] by (intro same [of n s']) auto
  qed (use old in \<open>auto simp: inv_client_def\<close>)
qed

lemma net_ok_step: "net_step names job y y' \<Longrightarrow> net_ok names y \<Longrightarrow> net_ok names y'"
  using steals_step [of names job y y'] left_step [of names job y y'] client_step [of names job y y']
  by (simp add: net_ok_def steals_ok_def)

section \<open>Counting\<close>

definition seen_ids :: "(string \<times> string) set \<Rightarrow> string \<Rightarrow> (string \<times> job_result list) option \<Rightarrow> int multiset" where
  "seen_ids got n b =
     (case b of None \<Rightarrow> {#} | Some (k, rs) \<Rightarrow> if (n, k) \<in> got then mset (map fst rs) else {#})"

lemma open_seen: "open_of got n s + seen_ids got n (s_pending_result_batch s) = node_ids s"
  by (auto simp: open_of_def node_ids_def result_ids_def batch_ids_def unseen_ids_def seen_ids_def
      split: option.splits)

definition share :: "job_net \<Rightarrow> string \<Rightarrow> int multiset" where
  "share y m = open_ids y m + parked_in (y_accepted y) (pending y m)"

lemma share_cong:
  assumes "y_node y' m = y_node y m" "y_got y' = y_got y" "y_accepted y' = y_accepted y"
  shows "share y' m = share y m"
  using assms by (simp add: share_def open_ids_def)

text \<open>A step at one node that the client does not notice.\<close>

lemma open_change:
  assumes "y_node y' n = s'" "y_got y' = y_got y" "s_pending_result_batch s' = s_pending_result_batch (y_node y n)"
    "node_ids s' + A = node_ids (y_node y n) + B"
  shows "open_ids y' n + A = open_ids y n + B"
proof -
  let ?S = "seen_ids (y_got y) n (s_pending_result_batch s')"
  have "open_ids y' n + A + ?S = node_ids s' + A"
    using open_seen [of "y_got y" n s'] assms(1,2) by (simp add: open_ids_def ac_simps)
  also have "\<dots> = open_ids y n + B + ?S"
    using open_seen [of "y_got y" n "y_node y n"] assms(3,4) by (simp add: open_ids_def ac_simps)
  finally show ?thesis by simp
qed

lemma outstanding_change:
  assumes "distinct names" "n \<in> set names" "\<And>m. m \<in> set names \<Longrightarrow> m \<noteq> n \<Longrightarrow> share y' m = share y m"
    "share y' n + A = share y n + B"
  shows "outstanding names y' + A = outstanding names y + B"
proof -
  have "share y' m + (if m = n then A else {#}) = share y m + (if m = n then B else {#})" if "m \<in> set names" for m
    using assms(3) [OF that] assms(4) by auto
  then have "(\<Sum>m\<leftarrow>names. share y' m) + (\<Sum>m\<leftarrow>names. if m = n then A else {#}) =
      (\<Sum>m\<leftarrow>names. share y m) + (\<Sum>m\<leftarrow>names. if m = n then B else {#})" by (rule sum_names)
  then show ?thesis unfolding sum_one [OF assms(1,2)] outstanding_def share_def .
qed

lemma outstanding_at:
  assumes "distinct names" "n \<in> set names" "y_node y' = (y_node y)(n := s')" "y_got y' = y_got y"
    "y_accepted y' = y_accepted y" "s_pending_result_batch s' = s_pending_result_batch (y_node y n)"
    "node_ids s' + A = node_ids (y_node y n) + B"
    "parked_in (y_accepted y) (s_pending_transfers s') + A' = parked_in (y_accepted y) (pending y n) + B'"
  shows "outstanding names y' + (A + A') = outstanding names y + (B + B')"
proof (rule outstanding_change [OF assms(1,2)])
  have "open_ids y' n + A = open_ids y n + B" by (rule open_change) (use assms in simp_all)
  then have "(open_ids y' n + A) + (parked_in (y_accepted y) (s_pending_transfers s') + A') =
      (open_ids y n + B) + (parked_in (y_accepted y) (pending y n) + B')" using assms(8) by simp
  then show "share y' n + (A + A') = share y n + (B + B')"
    using assms(3,5) by (simp add: share_def ac_simps)
qed (rule share_cong; use assms in simp)

lemma outstanding_same:
  assumes "distinct names" "n \<in> set names" "y_node y' = (y_node y)(n := s')" "y_got y' = y_got y"
    "y_accepted y' = y_accepted y" "s_pending_result_batch s' = s_pending_result_batch (y_node y n)"
    "node_ids s' = node_ids (y_node y n)" "s_pending_transfers s' = pending y n"
  shows "outstanding names y' = outstanding names y"
  using outstanding_at [where A = "{#}" and B = "{#}" and A' = "{#}" and B' = "{#}", OF assms(1-6)] assms(7,8) by simp

lemma outstanding_cong:
  assumes "y_node y' = y_node y" "y_got y' = y_got y" "y_accepted y' = y_accepted y"
  shows "outstanding names y' = outstanding names y"
  using assms by (simp add: outstanding_def open_ids_def)

lemma accept_outstanding:
  assumes "net_ok names y" "distinct names" "n \<in> set names" "y_phase y n = Fetched d tid items"
    "accept_items items (y_node y n) = (s', received)"
    "y' = set_phase n (Acking d tid received) (set_node n s'
      (y\<lparr>y_accepted := y_accepted y \<union> (if received then {tid} else {})\<rparr>))"
  shows "outstanding names y' = outstanding names y"
proof (cases received)
  case True
  obtain xs where xs: "items = Some xs" "s' = queue_inputs xs (y_node y n)" using accept_fields(1) [OF assms(5) True] by auto
  have tr: "phase_transfer (y_phase y n) = Some (tid, d)" by (simp add: assms(4))
  note d = askedD(1) [OF assms(1,3) tr]
  have "phase_ok y (Fetched d tid items)" using net_okD(4) [OF assms(1)] assms(3,4) by (force simp: inv_steals_def)
  then have un: "tid \<notin> y_accepted y" "map_of (pending y d) tid = Some xs" using xs by (auto simp: phase_ok_def unsettled_def)
  have "share y' m + (if m = d then item_ids xs else {#}) = share y m + (if m = n then item_ids xs else {#})"
    if "m \<in> set names" for m
  proof -
    have "node_ids (y_node y' n) + {#} = node_ids (y_node y n) + item_ids xs"
      using moved_queue_inputs [OF nodesD(1) [OF assms(1,3)], of xs] by (simp add: assms(6) xs(2) moved_def)
    from open_change [OF refl _ _ this] have o: "open_ids y' m = open_ids y m + (if m = n then item_ids xs else {#})"
      by (cases "m = n") (simp_all add: assms(6) xs(2) open_ids_def)
    have "distinct (dkeys (pending y m))" using nodesD(1) [OF assms(1) that] by (simp add: node_ok_def)
    moreover have "tid \<notin> set (dkeys (pending y m))" if "m \<noteq> d"
      using askedD(4) [OF assms(1) \<open>m \<in> set names\<close>, of tid] d that by auto
    ultimately have "parked_in (insert tid (y_accepted y)) (pending y m) + (if m = d then item_ids xs else {#}) =
        parked_in (y_accepted y) (pending y m)"
      using parked_in_accept [of "pending y m" tid xs] parked_in_other [of tid "pending y m"] un by auto
    moreover have "pending y' m = pending y m" "y_accepted y' = insert tid (y_accepted y)"
      using True by (auto simp: assms(6) xs(2))
    ultimately show ?thesis using o by (simp add: share_def ac_simps)
  qed
  then have "(\<Sum>m\<leftarrow>names. share y' m) + (\<Sum>m\<leftarrow>names. if m = d then item_ids xs else {#}) =
      (\<Sum>m\<leftarrow>names. share y m) + (\<Sum>m\<leftarrow>names. if m = n then item_ids xs else {#})" by (rule sum_names)
  then show ?thesis
    unfolding sum_one [OF assms(2,3)] sum_one [OF assms(2) conjunct2 [OF d]] outstanding_def share_def by simp
next
  case False
  then have "s' = y_node y n" using accept_fields(2) [OF assms(5)] by simp
  then show ?thesis using False by (intro outstanding_cong) (simp_all add: assms(6))
qed


text \<open>What a poll takes out of the node is what the client had seen; what it hands over is new to it.\<close>

lemma acked_seen:
  assumes "client_ok (y_got y) n (y_client y n) (s_pending_result_batch s)"
  shows "seen_ids (y_got y) n (s_pending_result_batch s) = acked_ids (y_client y n) s"
proof (cases "s_pending_result_batch s")
  case (Some p)
  obtain k rs where p: "p = (k, rs)" by (cases p)
  have "(n, k) \<in> y_got y \<longleftrightarrow> y_client y n = Some k"
    using assms Some p unfolding client_ok_def by blast
  then show ?thesis using Some p by (simp add: seen_ids_def acked_ids_def)
qed (simp add: seen_ids_def acked_ids_def)

definition books :: "string list \<Rightarrow> job_net \<Rightarrow> bool" where
  "books names y \<longleftrightarrow> y_uploaded y = y_received y + outstanding names y"

lemma poll_books:
  assumes "net_ok names y" "distinct names" "n \<in> set names" "(n, uuid) \<notin> y_got y"
    "get_results uuid (y_node y n) job (y_client y n) = (s', Some reply)"
    "y' = client_receives n (gr_batch reply) (set_node n s' y)" "books names y"
  shows "books names y'"
proof (cases rule: poll_cases [OF assms(5) nodesD(1) [OF assms(1,3)]])
  case (2 r)
  let ?R = "case s_pending_result_batch s' of None \<Rightarrow> {#} | Some (k, rs) \<Rightarrow> mset (map fst rs)"
  let ?got = "\<lambda>b. y_got y \<union> (case b of None \<Rightarrow> {} | Some (k, rs) \<Rightarrow> {(n, k)})"
  have b: "gr_batch reply = s_pending_result_batch s'" using 2 by simp
  have c: "client_ok (y_got y) n (y_client y n) (s_pending_result_batch (y_node y n))"
    using net_okD(6) [OF assms(1)] assms(3) by (simp add: inv_client_def)
  have seen': "seen_ids (y_got y') n (s_pending_result_batch s') = ?R"
    by (auto simp: assms(6) b client_receives_def seen_ids_def split: option.splits)
  have "open_ids y' n + ?R = node_ids s'"
    using open_seen [of "y_got y'" n s'] seen' by (simp add: open_ids_def assms(6))
  moreover have "open_ids y n + acked_ids (y_client y n) (y_node y n) = node_ids (y_node y n)"
    using open_seen [of "y_got y" n "y_node y n"] acked_seen [OF c] by (simp add: open_ids_def)
  ultimately have "open_ids y' n + ?R + acked_ids (y_client y n) (y_node y n) =
      open_ids y n + acked_ids (y_client y n) (y_node y n)" using 2(4) by simp
  then have o: "open_ids y' n + ?R = open_ids y n" by simp
  have "outstanding names y' + ?R = outstanding names y + {#}"
  proof (rule outstanding_change [OF assms(2,3)])
    show "share y' m = share y m" if "m \<in> set names" "m \<noteq> n" for m
    proof -
      have "(m, k) \<in> y_got y' \<longleftrightarrow> (m, k) \<in> y_got y" for k
        using that(2) by (auto simp: assms(6) client_receives_def split: option.splits)
      then have "unseen_ids (y_got y') m b = unseen_ids (y_got y) m b" for b
        by (auto simp: unseen_ids_def split: option.splits)
      then show ?thesis using that(2) by (simp add: share_def open_ids_def open_of_def assms(6))
    qed
    show "share y' n + ?R = share y n + {#}"
      using o 2(5) by (simp add: share_def assms(6) add.commute add.left_commute)
  qed
  moreover have "y_received y' = y_received y + ?R" "y_uploaded y' = y_uploaded y"
    by (simp_all add: assms(6) b client_receives_def)
  ultimately show ?thesis using assms(7) by (simp add: books_def ac_simps)
qed simp

lemma poll_lost_outstanding:
  assumes "net_ok names y" "distinct names" "n \<in> set names" "(n, uuid) \<notin> y_got y"
    "\<forall>k. ack = Some k \<longrightarrow> (n, k) \<in> y_got y" "get_results uuid (y_node y n) job ack = (s', answer)"
    "y' = set_node n s' y"
  shows "outstanding names y' = outstanding names y"
proof (cases rule: poll_cases [OF assms(6) nodesD(1) [OF assms(1,3)]])
  case 1
  then show ?thesis by (intro outstanding_cong) (simp_all add: assms(7))
next
  case (2 r)
  let ?b = "s_pending_result_batch (y_node y n)" and ?b' = "s_pending_result_batch s'"
  have "seen_ids (y_got y) n ?b' + acked_ids ack (y_node y n) = seen_ids (y_got y) n ?b"
  proof (cases ?b)
    case None
    then have "seen_ids (y_got y) n ?b' = {#}"
      using 2(9) assms(4) by (cases ?b') (auto simp: seen_ids_def)
    then show ?thesis using None by (simp add: acked_ids_def seen_ids_def)
  next
    case (Some p)
    obtain i rs where p: "p = (i, rs)" by (cases p)
    show ?thesis
    proof (cases "Some i = ack")
      case True
      then have "seen_ids (y_got y) n ?b' = {#}"
        using 2(9) assms(4) Some p by (cases ?b') (auto simp: seen_ids_def)
      then show ?thesis using Some p True assms(5) by (auto simp: acked_ids_def seen_ids_def)
    next
      case False
      then show ?thesis using 2(8) [of i rs] Some p by (simp add: acked_ids_def seen_ids_def)
    qed
  qed
  then have "open_of (y_got y) n s' = open_of (y_got y) n (y_node y n)"
    using open_seen [of "y_got y" n s'] open_seen [of "y_got y" n "y_node y n"] 2(4)
    by (metis add.assoc add_right_cancel)
  then have "outstanding names y' + {#} = outstanding names y + {#}"
    using 2(5) by (intro outstanding_change [OF assms(2,3)]) (simp_all add: share_def open_ids_def assms(7))
  then show ?thesis by simp
qed

lemma books_step:
  assumes "net_step names job y y'" "net_ok names y" "distinct names" "books names y"
  shows "books names y'"
proof -
  have quiet: ?thesis
    if "outstanding names y' = outstanding names y" "y_uploaded y' = y_uploaded y" "y_received y' = y_received y"
    using that assms(4) by (simp add: books_def)
  note at = outstanding_same [OF assms(3)]
  from assms(1) show ?thesis
  proof (cases rule: net_step.cases)
    case (work n s')
    show ?thesis
      by (intro quiet at [OF work(2), where s' = s']) (use work local_step_fields [OF work(3) nodesD(1) [OF assms(2) work(2)]] in auto)
  next
    case (upload n mem xs s')
    have m: "moved {#} (item_ids xs) (y_node y n) s'"
      using moved_queue_inputs [OF nodesD(1) [OF assms(2) upload(2)], of xs] upload_fields [OF upload(4)] by simp
    have "outstanding names y' + ({#} + {#}) = outstanding names y + (item_ids xs + {#})"
      by (rule outstanding_at [OF assms(3) upload(2), where s' = s'])
        (use upload m upload_fields [OF upload(4)] in \<open>auto simp: moved_def\<close>)
    then show ?thesis using assms(4) by (simp add: books_def upload(1))
  next
    case (begin_ n d now started tid s' req)
    note f = begin_steal_fields(1) [OF begin_(9)]
    show ?thesis
      by (intro quiet at [OF begin_(2), where s' = s']) (use begin_(1) same_places_ids(1) [OF f] same_places_fields [OF f] in auto)
  next
    case (serve d req now s' answer)
    have d: "d \<in> set names" using askedD(3) [OF assms(2) serve(2)] by simp
    note g = getsD [OF assms(2) serve(2)]
    show ?thesis
    proof (cases rule: serve_cases [OF serve(3) nodesD(1) [OF assms(2) d] g(3)])
      case 1
      then show ?thesis by (intro quiet outstanding_cong) (simp_all add: serve(1))
    next
      case (2 xs)
      have "map_of (pending y d) (sr_transfer_id req) = None" using g(3) by (simp add: map_of_eq_None_iff)
      from parked_in_set [OF this g(2), of xs] 2
      have "outstanding names y' + (item_ids xs + {#}) = outstanding names y + ({#} + item_ids xs)"
        by (intro outstanding_at [OF assms(3) d, where s' = s']) (simp_all add: serve(1) frame_def)
      then show ?thesis by (intro quiet) (simp_all add: serve(1))
    qed
  next
    case (not_found n d tid)
    show ?thesis
      by (intro quiet at [OF not_found(2), where s' = "end_steal (y_node y n)"])
        (use not_found(1) same_places_ids(1) [OF end_steal_fields(1)] in auto)
  next
    case (accept n d tid items s' received)
    show ?thesis
      by (rule quiet [OF accept_outstanding [OF assms(2,3) accept(2-4,1)]]) (simp_all add: accept(1))
  next
    case (serve_ack d tid received s' ok)
    have d: "d \<in> set names" using askedD(2) [OF assms(2) serve_ack(2)] by simp
    have b: "received = (tid \<in> y_accepted y)"
      using net_okD(4) [OF assms(2)] serve_ack(2) unfolding inv_steals_def by blast
    note dd = nodesD(1) [OF assms(2) d]
    show ?thesis
    proof (cases rule: ack_cases [OF serve_ack(3) dd])
      case 1
      then show ?thesis by (intro quiet outstanding_cong) (simp_all add: serve_ack(1))
    next
      case (2 xs)
      let ?X = "if received then {#} else item_ids xs"
      have "distinct (dkeys (pending y d))" using dd by (simp add: node_ok_def)
      from parked_in_del [OF this 2(1), of "y_accepted y"] 2 b
      have "outstanding names y' + ({#} + ?X) = outstanding names y + (?X + {#})"
        by (intro outstanding_at [OF assms(3) d, where s' = s']) (auto simp: serve_ack(1) frame_def)
      then show ?thesis by (intro quiet) (simp_all add: serve_ack(1))
    qed
  next
    case (acked n d tid received now ack_started neighbor)
    show ?thesis
      by (intro quiet at [OF acked(2), where s' = "end_steal (y_node y n)"])
        (use acked(1) same_places_ids(1) [OF end_steal_fields(1)] in auto)
  next
    case (poll n uuid s' reply)
    show ?thesis by (rule poll_books [OF assms(2,3) poll(2-4,1) assms(4)])
  next
    case (poll_lost n uuid ack s' reply')
    show ?thesis
      by (rule quiet [OF poll_lost_outstanding [OF assms(2,3) poll_lost(2-5,1)]]) (simp_all add: poll_lost(1))
  next
    case (leave n s')
    show ?thesis
      by (intro quiet at [OF leave(2), where s' = s'])
        (use leave(1) leave_fields [OF leave(3)] in \<open>auto simp: node_ids_def queued_ids_def running_ids_def result_ids_def batch_ids_def\<close>)
  qed (intro quiet outstanding_cong; simp)+
qed

lemma init_ok:
  assumes "net_init names y"
  shows "net_ok names y" "books names y" "distinct names"
proof -
  have n: "node_ok (y_node y n)" "node_ids (y_node y n) = {#}" "pending y n = []"
    "s_pending_result_batch (y_node y n) = None" "s_active_input_steal_id (y_node y n) = None"
    "y_phase y n = NoSteal" "y_client y n = None" if "n \<in> set names" for n
    using assms that by (simp_all add: net_init_def)
  have e: "y_asked y = (\<lambda>_. None)" "y_gets y = {}" "y_replies y = (\<lambda>_. None)" "y_acks y = {}" "y_accepted y = {}"
    "y_got y = {}" "y_uploaded y = {#}" "y_received y = {#}" using assms by (simp_all add: net_init_def)
  show "net_ok names y"
    unfolding net_ok_def inv_defs by (auto simp: n e phase_ok_def client_ok_def)
  have "share y m = {#}" if "m \<in> set names" for m
    using open_seen [of "y_got y" m "y_node y m"] n [OF that] by (simp add: share_def open_ids_def parked_in_def)
  then have "outstanding names y = (\<Sum>m\<leftarrow>names. {#})"
    unfolding outstanding_def share_def by (intro arg_cong [of _ _ sum_list] map_cong) simp_all
  then show "books names y" by (simp add: books_def e sum_zero)
  show "distinct names" using assms by (simp add: net_init_def)
qed

lemma reach_ok: "net_reach names job y \<Longrightarrow> net_ok names y \<and> books names y \<and> distinct names"
proof (induction rule: net_reach.induct)
  case (init y)
  then show ?case using init_ok by blast
next
  case (step y y')
  then show ?case using net_ok_step books_step by blast
qed

end
