(* ===== verification/Node_Claims.thy ===== *)
theory Node_Claims
  imports Node_Inputs Job_Watcher
begin

text \<open>
  Properties of one node and of pairs of nodes: the ring, trading slots over a lossy connection,
  retiring workers under pressure, handing out results in batches, minting, assignment and asking for
  replacements.
\<close>

section \<open>The ring\<close>

lemma filter_upt_one: "i < n \<Longrightarrow> filter (\<lambda>j. j = i) [0..<n] = [i]"
proof (induction n)
  case (Suc n)
  have "filter (\<lambda>j. j = n) [0..<n] = []" by (simp add: filter_empty_conv)
  then show ?case using Suc by (cases "i = n") auto
qed simp

lemma neighbor_at:
  assumes "distinct (map pe_instance_name ps)" "i < length ps" "length ps > 1"
  shows "get_neighbor ps (pe_instance_name (ps ! i)) = Some (ps ! (Suc i mod length ps))"
proof -
  have "filter (\<lambda>j. pe_instance_name (ps ! j) = pe_instance_name (ps ! i)) [0..<length ps] =
      filter (\<lambda>j. j = i) [0..<length ps]"
    using assms by (intro filter_cong) (auto simp: distinct_conv_nth)
  also have "\<dots> = [i]" using assms(2) by (rule filter_upt_one)
  finally have f: "filter (\<lambda>j. pe_instance_name (ps ! j) = pe_instance_name (ps ! i)) [0..<length ps] = [i]" .
  show ?thesis
  proof (cases "Suc i < length ps")
    case True
    then show ?thesis using f assms(3) by (simp add: get_neighbor_def hd_append hd_drop_conv_nth)
  next
    case False
    then have "Suc i = length ps" using assms(2) by simp
    then show ?thesis using f assms(3) by (cases ps) (auto simp: get_neighbor_def)
  qed
qed

text \<open>The node \<open>k\<close> neighbours further on.\<close>

primrec ring_walk :: "peer list \<Rightarrow> string \<Rightarrow> nat \<Rightarrow> string option" where
  "ring_walk ps name 0 = Some name"
| "ring_walk ps name (Suc k) =
     (case ring_walk ps name k of None \<Rightarrow> None | Some n \<Rightarrow> map_option pe_instance_name (get_neighbor ps n))"

lemma ring_walk_at:
  assumes "distinct (map pe_instance_name ps)" "i < length ps" "length ps > 1"
  shows "ring_walk ps (pe_instance_name (ps ! i)) k = Some (pe_instance_name (ps ! ((i + k) mod length ps)))"
proof (induction k)
  case 0
  then show ?case using assms(2) by simp
next
  case (Suc k)
  have "(i + k) mod length ps < length ps" using assms(3) by (intro mod_less_divisor) linarith
  from neighbor_at [OF assms(1) this assms(3)] Suc show ?case by (simp add: mod_Suc_eq)
qed

lemma peers_distinct:
  assumes "distinct (dkeys (NODES h))"
  shows "distinct (map pe_instance_name (fst (peers_for_job now h job)))"
proof -
  have "distinct (map fst (filter P (sort_key fst (NODES h))))" for P
    using assms by (intro distinct_map_filter) (simp add: distinct_map inj_on_def distinct_sort)
  then show ?thesis by (simp add: peers_for_job_def case_prod_beta comp_def)
qed

definition ring_head :: head where
  "ring_head =
     \<lparr>NODES = map (\<lambda>k. (k, (empty_node k)\<lparr>n_status := Some RUNNING, n_current_job := Some ''j'', n_last_push_at := Some 0\<rparr>))
        [''b'', ''c'', ''a''],
      JOBS = [], hist_nodes = [], hist_jobs = [], hist_results = [], hist_job_logs = [], admission_paused = False,
      counts_flushed_at = [], keep_awake_active = False, published = [], debug_shipped = []\<rparr>"

text \<open>
  The nodes of a job form one ring: from every node, following the neighbour each picks from the
  head's peer list reaches every other node within one round, so spare work can reach any node.
\<close>

theorem ring_reaches_every_node:
  assumes "distinct (dkeys (NODES h))" "p \<in> set (fst (peers_for_job now h job_id))"
    "q \<in> set (fst (peers_for_job now h job_id))" "length (fst (peers_for_job now h job_id)) > 1"
  shows "\<exists>k < length (fst (peers_for_job now h job_id)).
    ring_walk (fst (peers_for_job now h job_id)) (pe_instance_name p) k = Some (pe_instance_name q)"
proof -
  let ?ps = "fst (peers_for_job now h job_id)" and ?n = "length (fst (peers_for_job now h job_id))"
  obtain i j where i: "i < ?n" "?ps ! i = p" and j: "j < ?n" "?ps ! j = q" using assms(2,3) by (auto simp: in_set_conv_nth)
  let ?k = "(j + ?n - i) mod ?n"
  have "(i + ?k) mod ?n = (i + (j + ?n - i)) mod ?n" by (rule mod_add_right_eq)
  also have "\<dots> = j" using i(1) j(1) by simp
  finally have "(i + ?k) mod ?n = j" .
  moreover have "?k < ?n" using assms(4) by (intro mod_less_divisor) linarith
  ultimately show ?thesis
    using ring_walk_at [OF peers_distinct [OF assms(1)] i(1) assms(4), of ?k] i(2) j(2) by auto
qed

theorem ring_reaches_every_node_witness:
  "\<exists>k < 3. ring_walk (fst (peers_for_job 0 ring_head ''j'')) ''b'' k = Some ''a''"
  using ring_reaches_every_node [of ring_head "\<lparr>pe_instance_name = ''b'', pe_host = None\<rparr>" 0 "''j''"
      "\<lparr>pe_instance_name = ''a'', pe_host = None\<rparr>"]
  by (simp add: ring_head_def peers_for_job_def on_job_def node_is_fresh_def empty_node_def NODE_FRESHNESS_SEC_def
      get_or_def eval_nat_numeral)

section \<open>Trading slots\<close>

text \<open>
  The requester sends the same trade again and again until an answer arrives; here all but the last
  answer are lost. The donor's state and the last grant.
\<close>

fun send_trade :: "(real \<times> int) list \<Rightarrow> self \<Rightarrow> string \<Rightarrow> string \<Rightarrow> string \<Rightarrow> self \<times> int option" where
  "send_trade [] s job_id node trade_id = (s, None)"
| "send_trade [(now, n)] s job_id node trade_id = trade_slots now s job_id node n trade_id"
| "send_trade ((now, n) # rest) s job_id node trade_id =
     send_trade rest (fst (trade_slots now s job_id node n trade_id)) job_id node trade_id"

lemma trade_fields:
  "s_current_job (trade_commit node tid g s) = s_current_job s"
  "s_job_watcher_stop (trade_commit node tid g s) = s_job_watcher_stop s"
  by (simp_all add: trade_commit_def)

lemma fold_trade_retire_fields:
  "s_current_job (fold trade_retire ks s) = s_current_job s"
  "s_job_watcher_stop (fold trade_retire ks s) = s_job_watcher_stop s"
  "s_target_parallelism (fold trade_retire ks s) = s_target_parallelism s"
  "s_slot_trades_granted (fold trade_retire ks s) = s_slot_trades_granted s"
  by (induction ks arbitrary: s) (simp_all add: trade_retire_def cancel_task_def on_worker_def)

lemma trade_fresh:
  assumes "s_current_job s = Some k" "\<not> s_job_watcher_stop s"
    "\<forall>t. map_of (s_slot_trades_granted s) node = Some t \<longrightarrow> tr_trade_id t \<noteq> tid" "0 \<le> n"
  obtains s1 g where "trade_slots now s k node n tid = (s1, Some g)" "0 \<le> g" "g \<le> n"
    "s_target_parallelism s1 = s_target_parallelism s - g"
    "\<And>now' n'. trade_slots now' s1 k node n' tid = (s1, Some g)"
proof -
  have c: "trade_check s k node tid = Inr ()"
    using assms(1-3) by (auto simp: trade_check_def split: option.splits)
  obtain s1 g where e: "trade_grant now s node n tid = (s1, g)" by (cases "trade_grant now s node n tid")
  define u where "u = unbacked_grant now s n"
  define idle where "idle = idle_to_give now s (n - u)"
  have u: "0 \<le> u" "u \<le> n" using assms(4) by (auto simp: u_def unbacked_grant_def)
  have l: "int (length idle) \<le> n - u" using u by (auto simp: idle_def idle_to_give_def)
  have s1: "s1 = trade_commit node tid g (fold trade_retire (map w_name idle) s)" "g = u + int (length idle)"
    using e by (auto simp: trade_grant_def Let_def u_def idle_def)
  have "trade_check s1 k node tid = Inl (Some g)"
    using assms(1,2) by (simp add: trade_check_def s1(1) trade_fields fold_trade_retire_fields) (simp add: trade_commit_def)
  then have r: "trade_slots now' s1 k node n' tid = (s1, Some g)" for now' n' by (simp add: trade_slots_def)
  have "s_target_parallelism s1 = s_target_parallelism s - g"
    by (simp add: s1(1) trade_commit_def fold_trade_retire_fields)
  then show thesis using that [of s1 g] c e r u l s1(2) by (simp add: trade_slots_def)
qed

lemma send_trade_again:
  assumes "\<And>now' n'. trade_slots now' s k node n' tid = (s, Some g)" "ts \<noteq> []"
  shows "send_trade ts s k node tid = (s, Some g)"
  using assms(2)
proof (induction ts)
  case (Cons t ts)
  then show ?case using assms(1) by (cases t; cases ts) auto
qed simp


definition trade_donor :: self where
  "trade_donor = (REINIT_SELF 0)\<lparr>s_current_job := Some ''j'', s_job_watcher_stop := False, s_target_parallelism := 5,
     s_last_pressure_retirement_at := 90\<rparr>"

lemma trade_donor_grants:
  "send_trade [(100, 3), (115, 3), (130, 4)] trade_donor ''j'' ''b'' ''t'' =
     (trade_commit ''b'' ''t'' 3 trade_donor, Some 3)"
  by (simp add: trade_donor_def REINIT_SELF_def trade_slots_def trade_check_def trade_grant_def unbacked_grant_def
      idle_to_give_def alive_workers_def SLOT_TRADE_PRESSURE_COOLDOWN_SECONDS_def trade_commit_def Let_def)


text \<open>
  The identifier of a lost trade outlives a change of neighbour: the next trade carries it to another
  node, so the slots the first one gave up are never claimed.
\<close>

lemma neighbor_change_leaks_slots:
  "let (d1, g1) = trade_slots 100 trade_donor ''j'' ''b'' 3 ''t'';
       (r1, _) = apply_trade_answer TradeLost (begin_trade 100 ''t'' True (REINIT_SELF 0));
       r2 = begin_trade 115 ''u'' True r1;
       (d2, g2) = trade_slots 115 trade_donor ''j'' ''b'' 3 (the (s_slot_trade_id r2));
       (r3, _) = apply_trade_answer (TradeGranted (the g2)) r2
   in s_slot_trade_id r3 = None \<and>
      s_target_parallelism d1 + s_target_parallelism d2 + s_target_parallelism r3 =
        5 + 5 + s_target_parallelism (REINIT_SELF 0) - the g1 \<and> g1 = Some 3"
  by (simp add: trade_donor_def REINIT_SELF_def trade_slots_def trade_check_def trade_grant_def unbacked_grant_def
      idle_to_give_def alive_workers_def SLOT_TRADE_PRESSURE_COOLDOWN_SECONDS_def trade_commit_def Let_def
      apply_trade_answer_def begin_trade_def get_or_def)

section \<open>Pressure\<close>

lemma spare_element: "distinct xs \<Longrightarrow> length ys < length xs \<Longrightarrow> \<exists>x \<in> set xs. x \<notin> set ys"
  by (metis card_length card_mono distinct_card leD le_trans List.finite_set subsetI)

lemma survivor:
  assumes "node_ok s" "set vs \<subseteq> set (s_workers s)" "length vs < length (alive_workers s)"
  obtains w where "w \<in> set (alive_workers s)" "w_name w \<notin> w_name ` set vs"
proof -
  have d: "distinct (alive_workers s)" "inj_on w_name (set (s_workers s))"
    using assms(1) by (simp_all add: node_ok_def distinct_map alive_workers_def)
  obtain w where w: "w \<in> set (alive_workers s)" "w \<notin> set vs" using spare_element [OF d(1) assms(3)] by blast
  then have "w_name w \<notin> w_name ` set vs"
    using d(2) assms(2) by (auto simp: alive_workers_def inj_on_def)
  then show thesis using that w(1) by blast
qed

text \<open>
  Memory pressure never kills a node's last worker: retiring workers under pressure, whichever
  were selected, leaves at least one alive to retry their inputs.
\<close>

theorem pressure_leaves_a_worker:
  assumes "node_ok s" "set selected \<subseteq> set (s_workers s)" "alive_workers s \<noteq> []"
  shows "alive_workers (retire_workers_for_pressure now selected s) \<noteq> []"
proof (cases "pressure_victims selected s = []")
  case False
  let ?vs = "pressure_victims selected s"
  have "length ?vs \<le> length (alive_workers s) - 1" by (simp add: pressure_victims_def)
  moreover have "length (alive_workers s) > 0" using assms(3) by simp
  ultimately have "length ?vs < length (alive_workers s)" by linarith
  moreover have "set ?vs \<subseteq> set (s_workers s)"
    using assms(2) by (auto simp: pressure_victims_def dest!: in_set_takeD)
  ultimately have v: "set ?vs \<subseteq> set (s_workers s)" "length ?vs < length (alive_workers s)" by simp_all
  from survivor [OF assms(1) v]
  obtain w where w: "w \<in> set (alive_workers s)" "w_name w \<notin> w_name ` set ?vs" .
  then have "w \<in> set (alive_workers (retire_and_clear (map w_name ?vs) s))"
    unfolding alive_workers_def retire_and_clear_def by (force simp: image_iff)
  then have "alive_workers (retire_and_clear (map w_name ?vs) s) \<noteq> []" by auto
  then show ?thesis
    using False
    by (simp add: retire_workers_for_pressure_def Let_def record_park_event_def queue_inputs_def alive_workers_def)
qed (simp add: retire_workers_for_pressure_def Let_def assms(3))

definition busy_worker :: "string \<Rightarrow> int \<Rightarrow> worker" where
  "busy_worker k i = \<lparr>w_name = k, w_python_version = ''3.12'', w_retired = False, w_is_idle = False,
     w_current_input = Some (i, ''x''), w_throttled = False, w_attempt_cpu_seconds = 0, w_task = Running\<rparr>"

definition busy_node :: self where
  "busy_node = (REINIT_SELF 0)\<lparr>s_workers := [busy_worker ''a'' 0, busy_worker ''b'' 1], s_dynamic_func_ram := True\<rparr>"

lemma busy_node_ok: "node_ok busy_node"
  by (simp add: busy_node_def REINIT_SELF_def node_ok_def worker_ok_def busy_worker_def sq.invar_empty)

theorem pressure_leaves_a_worker_witness:
  "alive_workers (retire_workers_for_pressure 5 [busy_worker ''a'' 0, busy_worker ''b'' 1] busy_node) \<noteq> []"
  by (rule pressure_leaves_a_worker [OF busy_node_ok])
    (simp_all add: busy_node_def alive_workers_def busy_worker_def)

text \<open>
  A worker retired because its process vanished keeps its input; when its attempt ends, the input is
  neither requeued nor answered: it is gone from the node.
\<close>

lemma vanished_worker_loses_input:
  "node_ids busy_node = {#0, 1#} \<and>
   node_ids (attempt_failed 2 ''a'' ''e'' (retire_vanished_worker 1 ''a'' busy_node)) = {#1#}"
  by (simp add: busy_node_def REINIT_SELF_def node_ids_def queued_ids_def running_ids_def result_ids_def batch_ids_def
      held_def busy_worker_def attempt_failed_def retire_vanished_worker_def on_worker_def find_worker_def
      sq.contents_empty Let_def)

section \<open>Uploads\<close>

text \<open>An upload whose answer was lost is sent again, and its inputs are queued a second time.\<close>

lemma repeated_upload_duplicates:
  "let (s1, r1) = upload_inputs 8 (trade_donor) ''j'' [(0, ''x'')];
       (s2, r2) = upload_inputs 8 s1 ''j'' [(0, ''x'')]
   in r1 = Uploaded \<and> r2 = Uploaded \<and> map (fst \<circ> fst) (sq_queue (s_inputs_queue s2)) = [0, 0]"
  by (simp add: trade_donor_def REINIT_SELF_def upload_inputs_def upload_check_def INPUTS_QUEUE_RAM_LIMIT_BYTES_def
      queue_inputs_def sq.put_all_def queue_defs)

end
