(* ===== verification/Node_Batches.thy ===== *)
theory Node_Batches
  imports Node_Claims Push_Properties
begin

text \<open>
  How much a node hands out, asks for and takes on: result batches, minted slots, assignments, and
  replacements whose answers are lost.
\<close>

section \<open>Result batches\<close>

text \<open>
  The batch described directly: as many results from the front of the queue as there are positions
  whose predecessors together stay under the limit.
\<close>

definition batch_length :: "int \<Rightarrow> job_result list \<Rightarrow> nat" where
  "batch_length used rs =
     length (filter (\<lambda>i. used + (\<Sum>r\<leftarrow>take i rs. result_len r) < MAX_RESULTS_RESPONSE_BYTES) [0..<length rs])"

lemma sum_lens_nonneg: "0 \<le> (\<Sum>r\<leftarrow>rs. result_len r)"
  by (induction rs) auto

lemma batch_length_Cons:
  "batch_length used (r # rs) =
     (if used < MAX_RESULTS_RESPONSE_BYTES then Suc (batch_length (used + result_len r) rs) else 0)"
proof (cases "used < MAX_RESULTS_RESPONSE_BYTES")
  case True
  have "[0..<Suc (length rs)] = 0 # map Suc [0..<length rs]"
    unfolding map_Suc_upt by (rule upt_conv_Cons) simp
  then show ?thesis using True by (simp add: batch_length_def filter_map comp_def ac_simps del: upt_Suc)
next
  case False
  have "\<not> used + (\<Sum>r\<leftarrow>take i (r # rs). result_len r) < MAX_RESULTS_RESPONSE_BYTES" for i
    using False sum_lens_nonneg [of "take i (r # rs)"] by linarith
  then show ?thesis using False unfolding batch_length_def by (simp del: upt_Suc take_Cons')
qed

lemma batch_length_le: "batch_length used rs \<le> length rs"
  unfolding batch_length_def by (rule le_trans [OF length_filter_le]) simp

lemma drain_results_eq:
  "drain_results (length (sq_queue q)) used q =
     (let k = batch_length used (map fst (sq_queue q))
      in (take k (map fst (sq_queue q)),
          q\<lparr>sq_queue := drop k (sq_queue q),
            sq_size_bytes := sq_size_bytes q - (\<Sum>p\<leftarrow>take k (sq_queue q). snd p)\<rparr>))"
proof (induction "sq_queue q" arbitrary: used q)
  case Nil
  then show ?case by (simp add: batch_length_def flip: Nil)
next
  case (Cons p ps)
  obtain r n where p: "p = (r, n)" by (cases p)
  let ?q = "q\<lparr>sq_queue := ps, sq_size_bytes := sq_size_bytes q - n\<rparr>"
  show ?case
  proof (cases "used < MAX_RESULTS_RESPONSE_BYTES")
    case True
    have g: "sq_get_nowait q = Some (r, ?q)" by (simp add: sq_get_nowait_def p flip: Cons.hyps(2))
    have "drain_results (length ps) (used + result_len r) ?q =
        (let k = batch_length (used + result_len r) (map fst ps)
         in (take k (map fst ps), ?q\<lparr>sq_queue := drop k ps, sq_size_bytes := sq_size_bytes q - n - (\<Sum>p\<leftarrow>take k ps. snd p)\<rparr>))"
      using Cons.hyps(1) [of ?q "used + result_len r"] by simp
    then show ?thesis using True g by (simp add: batch_length_Cons p Let_def algebra_simps flip: Cons.hyps(2))
  next
    case False
    then show ?thesis by (simp add: batch_length_Cons p flip: Cons.hyps(2))
  qed
qed

lemma batch_length_0 [simp]: "batch_length 0 rs = 0 \<longleftrightarrow> rs = []"
  by (cases rs) (simp_all add: batch_length_Cons MAX_RESULTS_RESPONSE_BYTES_def, simp add: batch_length_def)

text \<open>
  A new result batch is exactly the longest front part of the results queue whose results but the
  last stay under one megabyte; it is empty only for an empty queue, the rest stays in order, and the
  queue's size is corrected by what left it.
\<close>

theorem result_batch_is_longest_front:
  assumes "s_pending_result_batch s = None"
  shows "get_result_batch uuid s =
    (let rs = map fst (sq_queue (s_results_queue s)); k = batch_length 0 rs
     in if rs = [] then (s, None)
        else (s\<lparr>s_results_queue := (s_results_queue s)\<lparr>sq_queue := drop k (sq_queue (s_results_queue s)),
                  sq_size_bytes := sq_size_bytes (s_results_queue s) - (\<Sum>p\<leftarrow>take k (sq_queue (s_results_queue s)). snd p)\<rparr>,
                s_pending_result_batch := Some (uuid, take k rs)\<rparr>, Some (uuid, take k rs)))"
  using assms
  by (auto simp: get_result_batch_def drain_results_eq Let_def)

theorem result_batch_is_longest_front_witness:
  "snd (get_result_batch ''u'' (put_result (1, False, ''rr'') (put_result (0, False, ''r'') (REINIT_SELF 0)))) =
     Some (''u'', [(0, False, ''r''), (1, False, ''rr'')])"
proof -
  let ?s = "put_result (1, False, ''rr'') (put_result (0, False, ''r'') (REINIT_SELF 0))"
  have q: "sq_queue (s_results_queue ?s) = [((0, False, ''r''), 1), ((1, False, ''rr''), 2)]"
    "s_pending_result_batch ?s = None"
    by (simp_all add: put_result_def REINIT_SELF_def queue_defs)
  have "batch_length 0 [(0, False, ''r''), (1, False, ''rr'')] = 2"
    by (simp add: batch_length_Cons MAX_RESULTS_RESPONSE_BYTES_def) (simp add: batch_length_def)
  then show ?thesis using result_batch_is_longest_front [OF q(2), of "''u''"] q(1) by (simp add: Let_def)
qed

section \<open>Minting\<close>

lemma mint_cap_bounds: "1 \<le> mint_cap k" "mint_cap k \<le> 32"
proof -
  have "(32::int) div 2 ^ k \<le> 32 div 1" by (rule zdiv_mono2) simp_all
  then show "1 \<le> mint_cap k" "mint_cap k \<le> 32" by (simp_all add: mint_cap_def MINT_MAX_SLOTS_PER_ATTEMPT_def)
qed

text \<open>
  A node asks the head for new slots only when it may mint, nothing was parked in the last minute
  and its gates have been green for at least fifteen seconds (thirty after a recent park or before its
  first mint); it asks for at least one slot, no more than it lacks, and at most 32, halved for each
  park of the last five minutes but never below one.
\<close>

theorem mint_request_bounds:
  assumes "mint_request now n_cpus g c s want granted = Some asked"
  shows "s_mint_slots_allowed s \<and> parks_in_last now MINT_PARK_REFRACTORY_SEC s = 0 \<and>
    1 \<le> asked \<and> asked \<le> want - granted \<and>
    asked \<le> max 1 (32 div 2 ^ parks_in_last now MINT_BATCH_HALVING_LOOKBACK_SEC s) \<and>
    (\<exists>since. tl_mint_gates_green_since c = Some since \<and>
       now - since \<ge> (if tl_last_mint_at c = None \<or> parks_in_last now MINT_BATCH_HALVING_LOOKBACK_SEC s > 0
         then 30 else 15))"
proof -
  define parks where "parks = parks_in_last now MINT_BATCH_HALVING_LOOKBACK_SEC s"
  define wait where "wait = (if tl_last_mint_at c = None \<or> parks > 0 then MINT_GREEN_STREAK_SEC else MINT_STEP_INTERVAL_SEC)"
  define age where "age = (case tl_mint_gates_green_since c of None \<Rightarrow> 0 | Some t \<Rightarrow> now - t)"
  define q where "q = min (min (want - granted) (mint_cap parks)) (batch_limit n_cpus (g_utilization g))"
  have a: "s_mint_slots_allowed s" "parks_in_last now MINT_PARK_REFRACTORY_SEC s = 0" "asked = q" "0 < q" "\<not> age < wait"
    using assms unfolding mint_request_def Let_def parks_def [symmetric]
    by (auto simp: wait_def age_def q_def split: if_splits)
  have w: "wait = (if tl_last_mint_at c = None \<or> parks > 0 then 30 else 15)" "0 < wait"
    by (simp_all add: wait_def MINT_GREEN_STREAK_SEC_def GATE_EWMA_TAU_SECONDS_def MINT_STEP_INTERVAL_SEC_def)
  obtain since where s: "tl_mint_gates_green_since c = Some since" "now - since \<ge> wait"
    using a(5) w(2) by (auto simp: age_def split: option.splits)
  have "asked \<le> want - granted" "asked \<le> max 1 (32 div 2 ^ parks)"
    using a(3) by (simp_all add: q_def mint_cap_def MINT_MAX_SLOTS_PER_ATTEMPT_def)
  then show ?thesis using a s w(1) by (simp add: parks_def)
qed

definition calm_gates :: gates where
  "calm_gates = \<lparr>g_stall = 0, g_io = 0, g_network = 0, g_memory = 0, g_utilization = 1/4\<rparr>"

definition green_clock :: trade_clock where
  "green_clock = \<lparr>tl_mint_gates_green_since = Some 0, tl_fully_busy_since = Some 0, tl_last_mint_at = Some 20\<rparr>"

lemma demo_mint_request:
  "mint_request 60 16 calm_gates green_clock ((REINIT_SELF 0)\<lparr>s_mint_slots_allowed := True\<rparr>) 40 2 = Some 11"
  by (simp add: mint_request_def calm_gates_def green_clock_def REINIT_SELF_def parks_in_last_def mint_cap_def
      batch_limit_def int_trunc_def CPU_UTILIZATION_ADD_MAX_def MINT_BULK_MAX_UTILIZATION_def
      MINT_STEP_INTERVAL_SEC_def MINT_MAX_SLOTS_PER_ATTEMPT_def floor_eq_iff)

theorem mint_request_bounds_witness: "(1::int) \<le> 11 \<and> 11 \<le> (40 - 2 :: int)"
  using mint_request_bounds [OF demo_mint_request] by simp

section \<open>Assignment\<close>

lemma split_workers_parts:
  "split_workers v n k ws = (yes, no) \<Longrightarrow> k \<le> n \<Longrightarrow>
     mset yes + mset no = mset ws \<and> (\<forall>w \<in> set yes. w_python_version w = v) \<and>
     int (length yes) = min (n - k) (int (length (filter (\<lambda>w. w_python_version w = v) ws)))"
proof (induction ws arbitrary: k yes no)
  case (Cons w ws)
  show ?case
  proof (cases "w_python_version w = v \<and> k < n")
    case True
    obtain y x where r: "split_workers v n (k + 1) ws = (y, x)" by (cases "split_workers v n (k + 1) ws")
    with Cons.IH [OF this] Cons.prems True show ?thesis by auto
  next
    case False
    obtain y x where r: "split_workers v n k ws = (y, x)" by (cases "split_workers v n k ws")
    with Cons.IH [OF this] Cons.prems False show ?thesis by auto
  qed
qed simp

text \<open>
  A successful assignment takes as many workers with the client's Python version as there are, up
  to the parallelism it was given, makes that its target, keeps every other worker as idle, and
  assigns none with another version.
\<close>

theorem assignment_takes_compatible_workers:
  assumes "execute now s a = (s', None)" "0 \<le> as_parallelism a"
  shows "s_target_parallelism s' =
      min (as_parallelism a) (int (length (filter (\<lambda>w. w_python_version w = as_user_python_version a) (s_workers s)))) \<and>
    int (length (s_workers s')) = s_target_parallelism s' \<and> 0 < s_target_parallelism s' \<and>
    (\<forall>w \<in> set (s_workers s'). w_python_version w = as_user_python_version a) \<and>
    image_mset w_name (mset (s_workers s')) + image_mset w_name (mset (s_idle_workers s')) =
      image_mset w_name (mset (s_workers s))"
proof -
  obtain yes no where p: "split_workers (as_user_python_version a) (as_parallelism a) 0 (s_workers s) = (yes, no)"
    by (cases "split_workers (as_user_python_version a) (as_parallelism a) 0 (s_workers s)")
  note parts = split_workers_parts [OF p assms(2)]
  have y: "yes \<noteq> []" using assms(1) p by (auto simp: execute_def Let_def split: if_splits)
  then have s': "s_workers s' = map load_function yes" "s_idle_workers s' = no"
    "s_target_parallelism s' = int (length yes)"
    using assms(1) p by (auto simp: execute_def Let_def split: if_splits)
  have n: "w_name (load_function w) = w_name w" "w_python_version (load_function w) = w_python_version w" for w
    by (simp_all add: load_function_def)
  have "image_mset w_name (mset yes) + image_mset w_name (mset no) = image_mset w_name (mset (s_workers s))"
    using parts by (metis image_mset_union)
  moreover have "image_mset w_name (mset (s_workers s')) = image_mset w_name (mset yes)"
    by (simp add: s' n multiset.map_comp comp_def)
  ultimately have "image_mset w_name (mset (s_workers s')) + image_mset w_name (mset (s_idle_workers s')) =
      image_mset w_name (mset (s_workers s))" by (simp add: s'(2))
  moreover have "0 < s_target_parallelism s'" "int (length (s_workers s')) = s_target_parallelism s'"
    using y s'(1,3) by simp_all
  moreover have "\<forall>w \<in> set (s_workers s'). w_python_version w = as_user_python_version a" using parts s' n by auto
  moreover have "s_target_parallelism s' = min (as_parallelism a)
      (int (length (filter (\<lambda>w. w_python_version w = as_user_python_version a) (s_workers s))))"
    using parts s'(3) by simp
  ultimately show ?thesis by blast
qed

definition two_pythons :: self where
  "two_pythons = (REINIT_SELF 0)\<lparr>s_workers := [(busy_worker ''a'' 0)\<lparr>w_current_input := None, w_task := Stopped\<rparr>,
     (busy_worker ''b'' 0)\<lparr>w_current_input := None, w_task := Stopped, w_python_version := ''3.11''\<rparr>]\<rparr>"

definition demo_assignment :: assignment where
  "demo_assignment = \<lparr>as_parallelism = 2, as_user_python_version = ''3.12'', as_func_cpu = Dynamic, as_func_ram = Dynamic,
     as_n_inputs = 4, as_max_parallelism = None\<rparr>"

theorem assignment_takes_compatible_workers_witness:
  "s_target_parallelism (fst (execute 1 two_pythons demo_assignment)) = 1"
proof -
  have "snd (execute 1 two_pythons demo_assignment) = None"
    by (simp add: execute_def two_pythons_def demo_assignment_def busy_worker_def REINIT_SELF_def Let_def)
  then have "execute 1 two_pythons demo_assignment = (fst (execute 1 two_pythons demo_assignment), None)"
    by (metis prod.collapse)
  from assignment_takes_compatible_workers [OF this] show ?thesis
    by (simp add: two_pythons_def demo_assignment_def busy_worker_def)
qed

section \<open>Replacements whose answer is lost\<close>

lemma request_replacement_fields:
  assumes "request_replacement now uuid p l ld v s = (s1, Some need)"
  shows "s_replacement_request_id s1 = Some (nd_request_id need)"
    "nd_request_id need = get_or uuid (s_replacement_request_id s)" "0 < nd_missing_slots need"
    "s_target_parallelism s1 = s_target_parallelism s"
  using assms
  by (auto simp: request_replacement_def wants_replacement_def deficit_def alive_workers_def Let_def split: if_splits)

text \<open>
  C18. A replacement whose answer was lost is booted once and paid once: the node asks again under the
  same identifier, whatever it lacks by then, the head answers with the plan it recorded and boots
  nothing, and the node's target drops by exactly the slots booted the first time.
\<close>

theorem lost_replacement_is_booted_once:
  assumes "request_replacement now uuid p l ld v s = (s1, Some need)"
    "boot_replacement_nodes env u saved h k (need_body name need) = (h1, Inr r)"
    "request_replacement now' uuid' p' l' ld' v' (apply_replacement ReplacementError s1) = (s2, Some need')"
  shows "\<exists>h2. boot_replacement_nodes env' u' saved' h1 k (need_body name need') =
      (h2, Inr \<lparr>rr_booted = rr_booted r, rr_slots_booted = rr_slots_booted r, rr_boots = []\<rparr>) \<and> same_head h1 h2 \<and>
    s_target_parallelism (apply_replacement (SlotsBooted (rr_slots_booted r)) s2) =
      s_target_parallelism s - rr_slots_booted r"
proof -
  note a = request_replacement_fields [OF assms(1)] and b = request_replacement_fields [OF assms(3)]
  have i: "nd_request_id need' = nd_request_id need" using a(1) b(2) by (simp add: apply_replacement_def get_or_def)
  have t: "s_target_parallelism s2 = s_target_parallelism s" using a(4) b(4) by (simp add: apply_replacement_def)
  have "rb_requesting_node (need_body name need') = rb_requesting_node (need_body name need)"
    "rb_request_id (need_body name need') = rb_request_id (need_body name need)"
    "0 < rb_missing_slots (need_body name need')"
    using i b(3) by (simp_all add: need_body_def)
  from replayed_replacement [OF assms(2) this, of env' u' saved'] t show ?thesis
    by (auto simp: apply_replacement_def)
qed

definition short_node :: self where
  "short_node = busy_node\<lparr>s_target_parallelism := 5, s_current_parallelism := 2, s_last_memory_shed_at := 1,
     s_replacement_deficit_since := Some 0, s_client_contact_last_1s := True\<rparr>"

definition growing_view :: job_view_t where
  "growing_view = \<lparr>jv_status = Some JOB_RUNNING, jv_grow = True, jv_all_inputs_uploaded = True,
     jv_client_has_all_results = False, jv_dashboard_canceled = False, jv_cluster_shutdown = False,
     jv_cluster_restarted = False, jv_any_node_client_contact = True, jv_total_num_results = 0, jv_n_inputs = Some 9\<rparr>"

definition some_load :: load where
  "some_load = \<lparr>lo_remaining_inputs = 2, lo_all_workers_idle = False\<rparr>"

definition asked_node :: "real \<Rightarrow> self" where
  "asked_node now = short_node\<lparr>s_last_replacement_request_at := now, s_replacement_request_id := Some ''r1''\<rparr>"

definition demo_need :: replacement_need where
  "demo_need = \<lparr>nd_missing_slots = 3, nd_request_id = ''r1'', nd_slots_per_node = Some 2\<rparr>"

lemma demo_requests:
  "request_replacement 200 ''r1'' None None some_load (Some growing_view) short_node = (asked_node 200, Some demo_need)"
  "request_replacement 300 ''zz'' None None some_load (Some growing_view) (apply_replacement ReplacementError (asked_node 200)) =
     (asked_node 300, Some demo_need)"
  by (simp_all add: request_replacement_def wants_replacement_def deficit_def alive_workers_def short_node_def
      asked_node_def busy_node_def busy_worker_def REINIT_SELF_def some_load_def growing_view_def get_or_def
      REPLACEMENT_DEFICIT_WINDOW_SEC_def REPLACEMENT_RETRY_SEC_def sustained_slots_def demo_need_def
      apply_replacement_def Let_def)

theorem lost_replacement_is_booted_once_witness:
  "s_target_parallelism (apply_replacement (SlotsBooted 3) (asked_node 300)) = 2"
proof -
  obtain h' r where b: "boot_replacement_nodes example_env demo_uuid example_config demo_grow_head ''j1'' demo_replacement
      = (h', Inr r)" "rr_slots_booted r = 3"
    using demo_replaced by (cases "boot_replacement_nodes example_env demo_uuid example_config demo_grow_head
      ''j1'' demo_replacement") auto
  have "need_body ''n1'' demo_need = demo_replacement" by (simp add: need_body_def demo_need_def demo_replacement_def)
  with b(1) have h: "boot_replacement_nodes example_env demo_uuid example_config demo_grow_head ''j1'' (need_body ''n1'' demo_need)
      = (h', Inr r)" by simp
  from lost_replacement_is_booted_once [OF demo_requests(1) h demo_requests(2), of example_env demo_uuid example_config] b(2)
  show ?thesis by (auto simp: short_node_def)
qed

end
