(* ===== verification/Client_Node.thy ===== *)
theory Client_Node
  imports Job_Start Job_Endpoints
begin

text \<open>
  The client's side of one node, \<open>client/src/burla/_node.py\<close>: waiting for it to boot, assigning the
  job, cutting its share of the inputs into chunks, uploading them and polling results. One HTTP
  request is an \<open>attempt\<close>; what it comes back with, and when, is a parameter. Pickling of an input is a
  function parameter. A value is kept as its pickle; printed messages are left out.
\<close>

section \<open>Requests over an unreliable network\<close>

datatype 'r attempt = NetworkError | Response 'r

definition NODE_SILENCE_TIMEOUT_SECONDS :: real where "NODE_SILENCE_TIMEOUT_SECONDS = 2 * 60"
definition RESULT_POLL_SILENCE_TIMEOUT_SECONDS :: real where "RESULT_POLL_SILENCE_TIMEOUT_SECONDS = 3 * 60"
definition NODE_BOOT_DEADLINE_SEC :: real where "NODE_BOOT_DEADLINE_SEC = 10 * 60"
definition MAX_INPUT_SIZE_BYTES :: int where "MAX_INPUT_SIZE_BYTES = 1000000 * 200"
definition MAX_CHUNK_SIZE_BYTES :: int where "MAX_CHUNK_SIZE_BYTES = 1000000 * 2"
definition NETWORK_RETRY_ATTEMPTS :: nat where "NETWORK_RETRY_ATTEMPTS = 5"
definition ASSIGN_GATEWAY_RETRY_ATTEMPTS :: nat where "ASSIGN_GATEWAY_RETRY_ATTEMPTS = 5"
definition CLIENT_SUSPEND_GAP_SECONDS :: real where "CLIENT_SUSPEND_GAP_SECONDS = 10"
definition POST_RETRIES :: nat where "POST_RETRIES = 5"

text \<open>
  At most \<open>max_retries\<close> attempts; attempt \<open>k\<close> of the whole run comes back with \<open>net k\<close>. The result is
  the first response or the last error, with the number of the next attempt.
\<close>

fun run_network_request_with_retries ::
  "nat \<Rightarrow> (nat \<Rightarrow> 'r attempt) \<Rightarrow> nat \<Rightarrow> 'r attempt \<times> nat" where
  "run_network_request_with_retries 0 net k = (NetworkError, k)"
| "run_network_request_with_retries (Suc n) net k =
     (case net k of
        Response r \<Rightarrow> (Response r, Suc k)
      | NetworkError \<Rightarrow> run_network_request_with_retries n net (Suc k))"

fun post_with_retries :: "nat \<Rightarrow> (nat \<Rightarrow> 'r attempt) \<Rightarrow> nat \<Rightarrow> 'r attempt \<times> nat" where
  "post_with_retries 0 net k = (NetworkError, k)"
| "post_with_retries (Suc n) net k =
     (case net k of
        Response r \<Rightarrow> (Response r, Suc k)
      | NetworkError \<Rightarrow> post_with_retries n net (Suc k))"

lemma retries_response:
  "run_network_request_with_retries n net k = (Response r, k') \<Longrightarrow>
     k < k' \<and> k' \<le> k + n \<and> net (k' - 1) = Response r \<and> (\<forall>i. k \<le> i \<and> i < k' - 1 \<longrightarrow> net i = NetworkError)"
proof (induction n arbitrary: k)
  case (Suc n)
  show ?case
  proof (cases "net k")
    case NetworkError
    with Suc.prems have "run_network_request_with_retries n net (Suc k) = (Response r, k')" by simp
    from Suc.IH [OF this] NetworkError show ?thesis
      by (auto simp: Suc_le_eq) (metis le_neq_implies_less)
  qed (use Suc.prems in auto)
qed simp

lemma retries_error:
  "run_network_request_with_retries n net k = (NetworkError, k') \<Longrightarrow>
     k' = k + n \<and> (\<forall>i. k \<le> i \<and> i < k' \<longrightarrow> net i = NetworkError)"
proof (induction n arbitrary: k)
  case (Suc n)
  show ?case
  proof (cases "net k")
    case NetworkError
    with Suc.prems have "run_network_request_with_retries n net (Suc k) = (NetworkError, k')" by simp
    from Suc.IH [OF this] NetworkError show ?thesis
      by (auto simp: Suc_le_eq) (metis le_neq_implies_less)
  qed (use Suc.prems in auto)
qed auto

section \<open>State\<close>

text \<open>A node's \<open>state\<close>: the status the head reported, or one of the client's own.\<close>

datatype client_state = Status node_status | REMOVED | DONE

record cnode =
  c_instance_name :: string
  c_state :: client_state
  c_host :: "string option"
  c_machine_type :: "string option"
  c_target_parallelism :: int
  c_job_id :: "string option"
  c_current_parallelism :: int
  c_installing_packages :: bool
  c_currently_installing_package :: "string option"
  c_result_count :: int
  c_result_batch_id_to_ack :: "string option"
  c_dynamic_worker_reduction :: "(int \<times> int) option"
  c_last_reply_timestamp :: real
  c_last_result_poll_timestamp :: "real option"
  c_started_booting_at :: real
  c_removed_reason :: string
  c_late_join :: bool

definition new_cnode :: "real \<Rightarrow> string \<Rightarrow> client_state \<Rightarrow> string option \<Rightarrow> string option \<Rightarrow> int \<Rightarrow> cnode" where
  "new_cnode now name st host mt p =
     \<lparr>c_instance_name = name, c_state = st, c_host = host, c_machine_type = mt,
      c_target_parallelism = p, c_job_id = None, c_current_parallelism = 0,
      c_installing_packages = False, c_currently_installing_package = None, c_result_count = 0,
      c_result_batch_id_to_ack = None, c_dynamic_worker_reduction = None,
      c_last_reply_timestamp = now, c_last_result_poll_timestamp = None, c_started_booting_at = now,
      c_removed_reason = [], c_late_join = False\<rparr>"

definition from_ready :: "real \<Rightarrow> string \<Rightarrow> string option \<Rightarrow> string \<Rightarrow> int \<Rightarrow> cnode" where
  "from_ready now name host mt p = new_cnode now name (Status READY) host (Some mt) p"

definition from_booting :: "real \<Rightarrow> string \<Rightarrow> int \<Rightarrow> cnode" where
  "from_booting now name p = new_cnode now name (Status BOOTING) None None p"

datatype client_error =
    ClusterShutdown
  | ClusterRestarted
  | JobCanceled
  | JobStalled int int
  | NodeDisconnected string
  | NodesFailedToBoot "string list"
  | NoNodes
  | AllNodesBusy
  | MainServiceTimeout
  | Incompatible http_detail
  | BadVersion string string string
  | Unauthorized
  | FunctionTooBig
  | InputTooBig int
  | PollFailed int
  | UploadFailed string
  | UploadLost
  | StartFailed int
  | TransportError
  | UserError int string

definition silent_for :: "real \<Rightarrow> cnode \<Rightarrow> real" where
  "silent_for now n = now - c_last_reply_timestamp n"

definition node_silence_timeout_exceeded :: "real \<Rightarrow> cnode \<Rightarrow> bool" where
  "node_silence_timeout_exceeded now n \<longleftrightarrow> silent_for now n > NODE_SILENCE_TIMEOUT_SECONDS"

definition result_poll_silence_timeout_exceeded :: "real \<Rightarrow> cnode \<Rightarrow> bool" where
  "result_poll_silence_timeout_exceeded now n \<longleftrightarrow> silent_for now n > RESULT_POLL_SILENCE_TIMEOUT_SECONDS"

definition reset_silence_clocks_after_suspend :: "real \<Rightarrow> cnode list \<Rightarrow> real \<Rightarrow> cnode list \<times> real" where
  "reset_silence_clocks_after_suspend now ns last_loop_at =
     (if now - last_loop_at > CLIENT_SUSPEND_GAP_SECONDS \<and> ns \<noteq> []
      then (map (\<lambda>n. n\<lparr>c_last_reply_timestamp := now\<rparr>) ns, now) else (ns, now))"

section \<open>Asking the head\<close>

text \<open>The answers of \<open>get_job\<close> and of \<open>get_node_including_deleted\<close>; \<open>None\<close> is a 404.\<close>

type_synonym job_answer = "job option attempt"
type_synonym node_answer = "node option attempt"

definition raise_if_job_ended_by_lifecycle :: "job_answer \<Rightarrow> client_error option" where
  "raise_if_job_ended_by_lifecycle a =
     (case a of
        Response (Some j) \<Rightarrow>
          if j_cluster_shutdown j then Some ClusterShutdown
          else if j_cluster_restarted j then Some ClusterRestarted
          else if j_dashboard_canceled j then Some JobCanceled else None
      | _ \<Rightarrow> None)"

definition was_deleted_after_finishing_scoped_job :: "cnode \<Rightarrow> node_answer \<Rightarrow> bool" where
  "was_deleted_after_finishing_scoped_job n a =
     (case a of
        Response (Some d) \<Rightarrow>
          n_status d = Some DELETED \<and> n_job_scope_id d = c_job_id n
          \<and> (case n_terminal_reason d of None \<Rightarrow> False | Some r \<Rightarrow> r_code r = ''job_scope_finished'')
      | _ \<Rightarrow> False)"

text \<open>
  \<open>_update_status\<close>; \<open>local_host\<close> is \<open>_local_host_from\<close> for this client. A 404 for a booting node
  only asks the head about the job. A READY node without host or machine type is a \<open>KeyError\<close> there.
\<close>

definition update_status ::
  "(string \<Rightarrow> string) \<Rightarrow> node option \<Rightarrow> job_answer \<Rightarrow> cnode \<Rightarrow> client_error + cnode" where
  "update_status local_host data job n =
     (case data of
        None \<Rightarrow>
          if c_state n = Status BOOTING
          then (case raise_if_job_ended_by_lifecycle job of Some e \<Rightarrow> Inl e | None \<Rightarrow> Inr n)
          else Inr (n\<lparr>c_state := Status FAILED\<rparr>)
      | Some d \<Rightarrow>
          (case n_status d of
             None \<Rightarrow> Inr n
           | Some st \<Rightarrow>
               let n1 = n\<lparr>c_state := Status st\<rparr>
               in if st = READY
                  then Inr (n1\<lparr>c_host := map_option local_host (n_host d), c_machine_type := n_machine_type d\<rparr>)
                  else Inr n1))"

text \<open>
  One turn of the loop of \<open>execute_job\<close> that waits for a booting node: the poll, the deadline. The
  result says whether the loop goes on.
\<close>

definition boot_turn ::
  "(string \<Rightarrow> string) \<Rightarrow> real \<Rightarrow> node option \<Rightarrow> job_answer \<Rightarrow> cnode \<Rightarrow> client_error + cnode \<times> bool" where
  "boot_turn local_host now data job n =
     bind_err (update_status local_host data job n) (\<lambda>n1.
       if c_state n1 = Status BOOTING
       then if now - c_started_booting_at n1 > NODE_BOOT_DEADLINE_SEC
            then Inr (n1\<lparr>c_state := Status FAILED\<rparr>, False) else Inr (n1, True)
       else Inr (n1, False))"

text \<open>What a node that did not become READY ends as: a replacement that failed is only removed.\<close>

definition boot_failed :: "cnode \<Rightarrow> cnode" where
  "boot_failed n =
     (if c_late_join n \<and> c_state n = Status FAILED
      then n\<lparr>c_state := REMOVED, c_removed_reason := ''replacement node failed to boot''\<rparr> else n)"

section \<open>Assigning the job\<close>

text \<open>What one answer to the assignment request makes of the node; \<open>None\<close> is a 502 or 504.\<close>

definition assignment_reply :: "string \<Rightarrow> nat \<times> string \<Rightarrow> cnode \<Rightarrow> (client_error + cnode) option" where
  "assignment_reply job_id r n =
     (let (status, text) = r
      in if status = 200 then Some (Inr (n\<lparr>c_job_id := Some job_id, c_state := Status RUNNING\<rparr>))
         else if status = 401 then Some (Inl Unauthorized)
         else if status = 409 then Some (Inr (n\<lparr>c_state := REMOVED, c_removed_reason := text\<rparr>))
         else if status = 503 then Some (Inr (n\<lparr>c_state := REMOVED\<rparr>))
         else if status = 502 \<or> status = 504 then None
         else Some (Inr (n\<lparr>c_state := REMOVED,
                c_removed_reason := ''assignment failed: '' @ digits_of_nat status\<rparr>)))"

definition unreachable :: "cnode \<Rightarrow> cnode" where
  "unreachable n = n\<lparr>c_state := REMOVED, c_removed_reason := ''unreachable while assigning job''\<rparr>"

definition relay_failed :: "nat \<Rightarrow> nat \<Rightarrow> cnode \<Rightarrow> cnode" where
  "relay_failed status attempts n =
     n\<lparr>c_state := REMOVED, c_removed_reason := ''assignment failed: '' @ digits_of_nat status
        @ '' from the relay after '' @ digits_of_nat attempts @ '' attempts''\<rparr>"

text \<open>
  The loop of \<open>_assign_job\<close> over the attempts so far, each with the time it ended: \<open>gateway\<close> counts 502s
  and 504s, \<open>retrying\<close> is whether this is the second attempt of a pair. \<open>None\<close>: the loop is still
  waiting. \<open>_fail_and_delete\<close> also asks the head to fail the node.
\<close>

fun assign_loop ::
  "string \<Rightarrow> nat \<Rightarrow> bool \<Rightarrow> (real \<times> (nat \<times> string) attempt) list \<Rightarrow> cnode \<Rightarrow> (client_error + cnode) option" where
  "assign_loop job_id gateway retrying [] n = None"
| "assign_loop job_id gateway retrying ((now, a) # as) n =
     (case a of
        NetworkError \<Rightarrow>
          if \<not> retrying then assign_loop job_id gateway True as n
          else if node_silence_timeout_exceeded now n then Some (Inr (unreachable n))
          else assign_loop job_id gateway False as n
      | Response r \<Rightarrow>
          (let n1 = n\<lparr>c_last_reply_timestamp := now\<rparr>
           in case assignment_reply job_id r n1 of
                Some res \<Rightarrow> Some res
              | None \<Rightarrow>
                  if Suc gateway < ASSIGN_GATEWAY_RETRY_ATTEMPTS
                  then assign_loop job_id (Suc gateway) False as n1
                  else Some (Inr (relay_failed (fst r) (Suc gateway) n1))))"

definition assign_job ::
  "string \<Rightarrow> real \<Rightarrow> (real \<times> (nat \<times> string) attempt) list \<Rightarrow> cnode \<Rightarrow> (client_error + cnode) option" where
  "assign_job job_id now as n = assign_loop job_id 0 False as (n\<lparr>c_last_reply_timestamp := now\<rparr>)"

text \<open>The assignment in \<open>execute_job\<close>, with the flags the package poller shows while it waits.\<close>

definition assign_phase ::
  "bool \<Rightarrow> string \<Rightarrow> real \<Rightarrow> (real \<times> (nat \<times> string) attempt) list \<Rightarrow> cnode \<Rightarrow> (client_error + cnode) option" where
  "assign_phase packages job_id now as n =
     map_option (map_sum id (\<lambda>m. m\<lparr>c_installing_packages := False, c_currently_installing_package := None\<rparr>))
       (assign_job job_id now as (if packages then n\<lparr>c_installing_packages := True\<rparr> else n))"

definition poll_installing_package :: "(nat \<times> string) attempt \<Rightarrow> cnode \<Rightarrow> cnode" where
  "poll_installing_package a n =
     (case a of
        Response (status, package) \<Rightarrow>
          if status = 200 then n\<lparr>c_currently_installing_package := Some package\<rparr> else n
      | NetworkError \<Rightarrow> n)"

section \<open>Cutting and uploading chunks\<close>

definition is_active :: "cnode \<Rightarrow> bool" where
  "is_active n \<longleftrightarrow> c_state n \<in> {Status READY, Status RUNNING}"

text \<open>\<open>sum(...) or 1\<close>.\<close>

definition total_parallelism :: "cnode list \<Rightarrow> int" where
  "total_parallelism ns =
     (let t = (\<Sum>n\<leftarrow>filter is_active ns. c_target_parallelism n) in if t = 0 then 1 else t)"

definition input_chunksize :: "cnode list \<Rightarrow> int \<Rightarrow> cnode \<Rightarrow> int" where
  "input_chunksize ns n_inputs n =
     max (c_target_parallelism n) ((n_inputs * c_target_parallelism n) div total_parallelism ns)"

text \<open>
  The loop that pops inputs off the end of the list, here its reversal; an input that would make the
  chunk too long is put back.
\<close>

fun take_chunk ::
  "('v \<Rightarrow> string) \<Rightarrow> int \<Rightarrow> int \<Rightarrow> job_input list \<Rightarrow> (int \<times> 'v) list
    \<Rightarrow> client_error + job_input list \<times> (int \<times> 'v) list" where
  "take_chunk dumps limit used chunk [] = Inr (chunk, [])"
| "take_chunk dumps limit used chunk ((i, v) # rest) =
     (if int (length chunk) \<ge> limit then Inr (chunk, (i, v) # rest)
      else
        (let pkl = dumps v
         in if int (length pkl) > MAX_INPUT_SIZE_BYTES then Inl (InputTooBig i)
            else if chunk \<noteq> [] \<and> used + int (length pkl) > MAX_CHUNK_SIZE_BYTES
            then Inr (chunk, (i, v) # rest)
            else take_chunk dumps limit (used + int (length pkl)) (chunk @ [(i, pkl)]) rest))"

definition next_chunk ::
  "('v \<Rightarrow> string) \<Rightarrow> int \<Rightarrow> (int \<times> 'v) list \<Rightarrow> client_error + job_input list \<times> (int \<times> 'v) list" where
  "next_chunk dumps limit inputs =
     bind_err (take_chunk dumps limit 0 [] (rev inputs)) (\<lambda>(chunk, rest). Inr (chunk, rev rest))"

text \<open>
  \<open>_upload_input_chunk\<close> over what its posts came back with, each after its own retries: a node that is
  full or not there yet is asked again up to sixty times. \<open>None\<close>: still waiting.
\<close>

fun upload_input_chunk :: "nat \<Rightarrow> (nat \<times> string) attempt list \<Rightarrow> (client_error + unit) option" where
  "upload_input_chunk retry_count [] = None"
| "upload_input_chunk retry_count (a # as) =
     (case a of
        NetworkError \<Rightarrow> Some (Inl UploadLost)
      | Response (status, text) \<Rightarrow>
          if status = 404 \<or> status = 409
          then if Suc retry_count > 60 then Some (Inl (UploadFailed text))
               else upload_input_chunk (Suc retry_count) as
          else if status \<ge> 400 then Some (Inl (UploadFailed text)) else Some (Inr ()))"

section \<open>Polling results\<close>

definition empty_node_results :: "cnode \<Rightarrow> results_reply" where
  "empty_node_results n =
     \<lparr>gr_batch = None, gr_current_parallelism = c_current_parallelism n,
      gr_dynamic_worker_reduction = None, gr_logs = [], gr_cluster_shutdown = False,
      gr_cluster_restarted = False, gr_dashboard_canceled = False\<rparr>"

definition done_node_results :: "cnode \<Rightarrow> cnode \<times> results_reply" where
  "done_node_results n =
     (let n1 = n\<lparr>c_state := DONE, c_current_parallelism := 0\<rparr> in (n1, empty_node_results n1))"

text \<open>
  A poll's response: a status and, for a 200, the reply, or \<open>None\<close> where the pickle broke off in the
  middle. \<open>job\<close> and \<open>deleted\<close> are what the head answers when it is asked.
\<close>

definition poll_signals :: "results_reply \<Rightarrow> client_error option" where
  "poll_signals r =
     (if gr_cluster_shutdown r then Some ClusterShutdown
      else if gr_cluster_restarted r then Some ClusterRestarted
      else if gr_dashboard_canceled r then Some JobCanceled else None)"

definition broken_reply :: "job_answer \<Rightarrow> cnode \<Rightarrow> client_error" where
  "broken_reply job n =
     (case job of
        Response (Some j) \<Rightarrow>
          if j_status j = Some JOB_CANCELED then JobCanceled else NodeDisconnected (c_instance_name n)
      | Response None \<Rightarrow> NodeDisconnected (c_instance_name n)
      | NetworkError \<Rightarrow> TransportError)"

definition gather_results ::
  "real \<Rightarrow> (nat \<times> results_reply option) attempt \<Rightarrow> job_answer \<Rightarrow> node_answer \<Rightarrow> cnode
    \<Rightarrow> client_error + cnode \<times> results_reply" where
  "gather_results now answer job deleted n0 =
     (let n = n0\<lparr>c_last_result_poll_timestamp := Some now\<rparr>
      in case answer of
           NetworkError \<Rightarrow>
             (case raise_if_job_ended_by_lifecycle job of
                Some e \<Rightarrow> Inl e
              | None \<Rightarrow>
                  if was_deleted_after_finishing_scoped_job n deleted then Inr (done_node_results n)
                  else if result_poll_silence_timeout_exceeded now n
                  then Inl (NodeDisconnected (c_instance_name n))
                  else Inr (n, empty_node_results n))
         | Response (status, body) \<Rightarrow>
             (let n1 = n\<lparr>c_last_reply_timestamp := now\<rparr>
              in if status = 404 then Inr (done_node_results n1)
                 else if status \<noteq> 200 then
                   (case raise_if_job_ended_by_lifecycle job of
                      Some e \<Rightarrow> Inl e
                    | None \<Rightarrow>
                        if was_deleted_after_finishing_scoped_job n1 deleted
                        then Inr (done_node_results n1) else Inl (PollFailed (int status)))
                 else
                   (case body of
                      None \<Rightarrow> Inl (broken_reply job n1)
                    | Some r \<Rightarrow>
                        (let n2 = (if truthy (c_result_batch_id_to_ack n)
                                   then n1\<lparr>c_result_batch_id_to_ack := None\<rparr> else n1)
                         in case poll_signals r of Some e \<Rightarrow> Inl e | None \<Rightarrow> Inr (n2, r)))))"

text \<open>
  The results of a batch: \<open>infra\<close> says whether a pickled error reports a broken worker. With
  \<open>raise_errors\<close> the first error of the user's function ends the job, otherwise it is a value.
\<close>

datatype return_value = Returned string | RaisedValue string

fun take_results ::
  "bool \<Rightarrow> (string \<Rightarrow> bool) \<Rightarrow> string \<Rightarrow> job_result list \<Rightarrow> client_error + (int \<times> return_value) list" where
  "take_results raise_errors infra name [] = Inr []"
| "take_results raise_errors infra name ((i, is_error, pkl) # rs) =
     (if is_error then
        if infra pkl then Inl (NodeDisconnected name)
        else if raise_errors then Inl (UserError i pkl)
        else bind_err (take_results raise_errors infra name rs) (\<lambda>vs. Inr ((i, RaisedValue pkl) # vs))
      else bind_err (take_results raise_errors infra name rs) (\<lambda>vs. Inr ((i, Returned pkl) # vs)))"

definition batch_results :: "results_reply \<Rightarrow> job_result list" where
  "batch_results r = (case gr_batch r of None \<Rightarrow> [] | Some (k, rs) \<Rightarrow> rs)"

text \<open>
  The rest of a round, from the reply to the sleep: the values go to the return queue, are counted, and
  the batch is to be acknowledged by the next poll. The values keep their indices here.
\<close>

definition absorb_results ::
  "bool \<Rightarrow> (string \<Rightarrow> bool) \<Rightarrow> results_reply \<Rightarrow> cnode \<Rightarrow> client_error + cnode \<times> (int \<times> return_value) list" where
  "absorb_results raise_errors infra r n =
     bind_err (take_results raise_errors infra (c_instance_name n) (batch_results r)) (\<lambda>vs.
       let n1 = n\<lparr>c_current_parallelism := gr_current_parallelism r,
                  c_dynamic_worker_reduction := gr_dynamic_worker_reduction r,
                  c_result_count := c_result_count n + int (length vs)\<rparr>
       in case gr_batch r of
            None \<Rightarrow> Inr (n1, vs)
          | Some (k, rs) \<Rightarrow> Inr (if k = [] then n1 else n1\<lparr>c_result_batch_id_to_ack := Some k\<rparr>, vs))"

definition poll_round ::
  "bool \<Rightarrow> (string \<Rightarrow> bool) \<Rightarrow> real \<Rightarrow> (nat \<times> results_reply option) attempt \<Rightarrow> job_answer \<Rightarrow> node_answer
    \<Rightarrow> cnode \<Rightarrow> client_error + cnode \<times> (int \<times> return_value) list" where
  "poll_round raise_errors infra now answer job deleted n =
     bind_err (gather_results now answer job deleted n) (\<lambda>(n1, r). absorb_results raise_errors infra r n1)"

end
