(* ===== verification/Client_Job.thy ===== *)
theory Client_Job
  imports Client_Node "HOL-Library.Multiset"
begin

text \<open>
  The client of one job, \<open>client/src/burla/_remote_parallel_map.py\<close> and \<open>_cluster_client.py\<close>: starting
  the job, dealing the inputs out to the nodes, one task per node, and the loop that watches them. The
  input lists are objects that nodes may share, so they live in a store and nodes refer to them by
  number. One step is one section of a task or of the loop between two awaits.
\<close>

section \<open>Starting the job\<close>

definition START_JOB_MAX_ATTEMPTS :: nat where "START_JOB_MAX_ATTEMPTS = 5"

text \<open>An answer of the head to a start request: the reply, an error, or the login page.\<close>

datatype start_answer = Started start_response | Refused int "http_detail option" | LoginPage

definition auth_failed :: "start_answer \<Rightarrow> bool" where
  "auth_failed a \<longleftrightarrow> (case a of Refused status d \<Rightarrow> status = 401 | LoginPage \<Rightarrow> True | Started r \<Rightarrow> False)"

text \<open>What the head's handler answers, as HTTP: an exception that is no \<open>HTTPException\<close> is a 500.\<close>

definition answer_of :: "start_reply reply \<Rightarrow> start_answer" where
  "answer_of r =
     (case r of
        Inr s \<Rightarrow> Started (st_response s)
      | Inl (HttpError status d) \<Rightarrow> Refused status (Some d)
      | Inl (Raised e) \<Rightarrow> Refused 500 None)"

text \<open>\<open>ClusterClient.start_job\<close> gives the response or a domain error; \<open>HeadBusy\<close> is its \<open>NodesBusy\<close>.\<close>

datatype start_outcome = StartOk start_response | HeadBusy | StartError client_error

definition outcome_of :: "start_answer \<Rightarrow> start_outcome" where
  "outcome_of a =
     (case a of
        Started r \<Rightarrow> StartOk r
      | LoginPage \<Rightarrow> StartError Unauthorized
      | Refused status d \<Rightarrow>
          (case d of
             Some (VersionMismatch lower upper current) \<Rightarrow>
               if status = 409 then StartError (BadVersion lower upper current)
               else if status = 404 then StartError NoNodes
               else if status = 401 then StartError Unauthorized else StartError (StartFailed status)
           | Some (NoCompatibleNodes a b c e f) \<Rightarrow>
               if status = 409 then StartError (Incompatible (NoCompatibleNodes a b c e f))
               else if status = 404 then StartError NoNodes
               else if status = 401 then StartError Unauthorized else StartError (StartFailed status)
           | Some (NodesBusy w) \<Rightarrow>
               if status = 503 then HeadBusy
               else if status = 404 then StartError NoNodes
               else if status = 401 then StartError Unauthorized else StartError (StartFailed status)
           | _ \<Rightarrow>
               if status = 404 then StartError NoNodes
               else if status = 401 then StartError Unauthorized else StartError (StartFailed status)))"

text \<open>The transport retries of one request, then once more with fresh credentials if they were refused.\<close>

definition client_start_job :: "(nat \<Rightarrow> start_answer attempt) \<Rightarrow> nat \<Rightarrow> start_outcome \<times> nat" where
  "client_start_job net k =
     (case run_network_request_with_retries START_JOB_MAX_ATTEMPTS net k of
        (NetworkError, k1) \<Rightarrow> (StartError TransportError, k1)
      | (Response a, k1) \<Rightarrow>
          if auth_failed a then
            (case run_network_request_with_retries START_JOB_MAX_ATTEMPTS net k1 of
               (NetworkError, k2) \<Rightarrow> (StartError TransportError, k2)
             | (Response b, k2) \<Rightarrow>
                 (if auth_failed b then StartError Unauthorized else outcome_of b, k2))
          else (outcome_of a, k1))"

section \<open>Waiting for nodes\<close>

text \<open>
  The loops of \<open>wait_for_nodes_to_be_ready\<close> over the views the head gives, each with the time it came;
  a fetch that timed out is a \<open>NetworkError\<close>. \<open>None\<close>: still waiting.
\<close>

fun wait_for_running ::
  "real \<Rightarrow> (real \<times> cluster_view attempt) list \<Rightarrow> (client_error + cluster_view) option" where
  "wait_for_running start [] = None"
| "wait_for_running start ((now, a) # as) =
     (case a of
        NetworkError \<Rightarrow> Some (Inl MainServiceTimeout)
      | Response v \<Rightarrow>
          if now - start > 4 then Some (Inl AllNodesBusy)
          else if cv_running_count v = 0 then Some (Inr v) else wait_for_running start as)"

fun wait_for_booting ::
  "real \<Rightarrow> (real \<times> cluster_view attempt) list \<Rightarrow> (client_error + cluster_view) option" where
  "wait_for_booting start [] = None"
| "wait_for_booting start ((now, a) # as) =
     (case a of
        NetworkError \<Rightarrow> Some (Inl MainServiceTimeout)
      | Response v \<Rightarrow>
          if now - start > NODE_BOOT_DEADLINE_SEC then Some (Inl NoNodes)
          else if cv_booting_count v = 0
          then Some (if cv_ready_nodes v = [] then Inl NoNodes else Inr v)
          else wait_for_booting start as)"

definition wait_for_nodes_to_be_ready ::
  "real \<Rightarrow> (real \<times> cluster_view attempt) list \<Rightarrow> (client_error + node list) option" where
  "wait_for_nodes_to_be_ready now as =
     (case as of
        [] \<Rightarrow> None
      | (t, NetworkError) # rest \<Rightarrow> Some (Inl MainServiceTimeout)
      | (t, Response v) # rest \<Rightarrow>
          if cv_running_count v \<noteq> 0 then
            map_option (\<lambda>r. bind_err r (\<lambda>v'.
                if cv_booting_count v = 0 \<and> cv_ready_nodes v' = [] then Inl NoNodes
                else Inr (cv_ready_nodes v')))
              (wait_for_running t rest)
          else if cv_booting_count v \<noteq> 0 then
            map_option (map_sum id cv_ready_nodes) (wait_for_booting t rest)
          else Some (if cv_ready_nodes v = [] then Inl NoNodes else Inr (cv_ready_nodes v)))"

text \<open>The two attempts of \<open>_execute_job\<close>: a busy head is asked again once the wait is over.\<close>

definition start_with_wait ::
  "start_outcome \<Rightarrow> (client_error + node list) \<Rightarrow> start_outcome \<Rightarrow> client_error + start_response" where
  "start_with_wait first waited second =
     (case first of
        StartOk r \<Rightarrow> Inr r
      | StartError e \<Rightarrow> Inl e
      | HeadBusy \<Rightarrow>
          bind_err waited (\<lambda>_.
            case second of
              StartOk r \<Rightarrow> Inr r | StartError e \<Rightarrow> Inl e | HeadBusy \<Rightarrow> Inl AllNodesBusy))"

section \<open>Dealing out the inputs\<close>

text \<open>
  Slot after slot, every ready node that has the slot is a destination; input \<open>i\<close> goes to destination
  \<open>i mod D\<close>. The nodes are given by the numbers of their lists. No destination for an input is a
  \<open>ZeroDivisionError\<close>.
\<close>

definition input_destinations :: "(nat \<times> int) list \<Rightarrow> nat list" where
  "input_destinations ready =
     concat (map (\<lambda>slot. map fst (filter (\<lambda>(ref, p). int slot < p) ready))
       [0..<nat (Max (set (map snd ready)))])"

fun deal_inputs :: "nat list \<Rightarrow> nat \<Rightarrow> 'v list \<Rightarrow> (nat \<Rightarrow> (int \<times> 'v) list) \<Rightarrow> py_error + (nat \<Rightarrow> (int \<times> 'v) list)" where
  "deal_inputs dests i [] store = Inr store"
| "deal_inputs dests i (v # vs) store =
     (if dests = [] then Inl ZeroDivisionError
      else (let d = dests ! (i mod length dests)
            in deal_inputs dests (Suc i) vs (store(d := store d @ [(int i, v)]))))"

text \<open>The last step reverses every list, since inputs are popped off the end.\<close>

definition split_inputs :: "(nat \<times> int) list \<Rightarrow> 'v list \<Rightarrow> py_error + (nat \<Rightarrow> (int \<times> 'v) list)" where
  "split_inputs ready inputs =
     bind_err (deal_inputs (input_destinations ready) 0 inputs (\<lambda>_. [])) (\<lambda>store. Inr (rev \<circ> store))"

definition shared_inputs :: "'v list \<Rightarrow> (int \<times> 'v) list" where
  "shared_inputs inputs = rev (map (\<lambda>(i, v). (int i, v)) (enumerate 0 inputs))"

section \<open>State\<close>

text \<open>
  Where the task of a node stands: \<open>Cut\<close> is the top of its loop, \<open>Upload\<close> waits for a chunk to arrive,
  \<open>Crashed\<close> has raised.
\<close>

datatype phase =
    Boot | Assign | Cut | Upload "job_input list" | AtBarrier | Poll | Over | Crashed client_error

record barrier =
  b_parties :: nat
  b_arrived :: "string list"
  b_broken :: bool

record 'v client =
  k_n_inputs :: int
  k_nodes :: "cnode list"
  k_phase :: "string \<Rightarrow> phase"
  k_booting :: "string list"
  k_node_inputs :: "nat dict"
  k_input_lists :: "nat list"
  k_lists :: "nat \<Rightarrow> (int \<times> 'v) list"
  k_barrier :: "barrier option"
  k_initially_ready :: "string list"
  k_known_names :: "string list"
  k_inputs_done :: bool
  k_return_queue :: "(int \<times> return_value) list"
  k_uploaded :: "job_input list"

definition names_of :: "cnode list \<Rightarrow> string list" where
  "names_of ns = map c_instance_name ns"

definition set_cnode :: "cnode \<Rightarrow> 'v client \<Rightarrow> 'v client" where
  "set_cnode n k = k\<lparr>k_nodes := map (\<lambda>m. if c_instance_name m = c_instance_name n then n else m) (k_nodes k)\<rparr>"

definition set_kphase :: "string \<Rightarrow> phase \<Rightarrow> 'v client \<Rightarrow> 'v client" where
  "set_kphase x p k = k\<lparr>k_phase := (k_phase k)(x := p)\<rparr>"

text \<open>
  The state when the tasks start. With ready nodes every node has a list of its own, otherwise all
  share one. Names of nodes are distinct.
\<close>

definition first_client ::
  "real \<Rightarrow> (string \<Rightarrow> string) \<Rightarrow> start_response \<Rightarrow> 'v list \<Rightarrow> client_error + (py_error + 'v client)" where
  "first_client now local_host resp inputs =
     (let ready = map (\<lambda>c. from_ready now (rc_instance_name c) (map_option local_host (rc_host c))
                        (rc_machine_type c) (rc_target_parallelism c)) (sr_ready_nodes resp);
          booting = map (\<lambda>(x, p). from_booting now x p) (sr_booting_nodes resp);
          ns = ready @ booting;
          start = (\<lambda>refs store. \<lparr>k_n_inputs = int (length inputs), k_nodes = ns,
            k_phase = (\<lambda>x. if x \<in> set (names_of ready) then Assign else Boot),
            k_booting = names_of booting, k_node_inputs = zip (names_of ns) refs,
            k_input_lists = remdups refs, k_lists = store,
            k_barrier = (if ready = [] then None
                         else Some \<lparr>b_parties = length ready, b_arrived = [], b_broken = False\<rparr>),
            k_initially_ready = names_of ready, k_known_names = names_of ns, k_inputs_done = False,
            k_return_queue = [], k_uploaded = []\<rparr>)
      in if ns = [] then Inl NoNodes
         else if ready \<noteq> [] then
           Inr (bind_err (split_inputs (zip [0..<length ready] (map c_target_parallelism ready)) inputs)
             (\<lambda>store. Inr (start [0..<length ns] store)))
         else Inr (Inr (start (map (\<lambda>_. 0) ns) ((\<lambda>_. [])(0 := shared_inputs inputs)))))"

section \<open>The task of a node\<close>

text \<open>\<open>asyncio.Barrier\<close>: a waiter passes once all parties have arrived, or with an error once it is broken.\<close>

definition barrier_arrive :: "string \<Rightarrow> barrier \<Rightarrow> barrier" where
  "barrier_arrive x b = b\<lparr>b_arrived := x # b_arrived b\<rparr>"

definition barrier_abort :: "barrier \<Rightarrow> barrier" where
  "barrier_abort b = b\<lparr>b_broken := True\<rparr>"

definition barrier_open :: "barrier \<Rightarrow> bool" where
  "barrier_open b \<longleftrightarrow> b_broken b \<or> b_parties b \<le> length (b_arrived b)"

definition list_ref :: "'v client \<Rightarrow> string \<Rightarrow> nat" where
  "list_ref k x = get_or 0 (map_of (k_node_inputs k) x)"

definition inputs_of :: "'v client \<Rightarrow> string \<Rightarrow> (int \<times> 'v) list" where
  "inputs_of k x = k_lists k (list_ref k x)"

text \<open>After the wait for booting: a READY node is assigned the job, any other is done with.\<close>

definition after_boot :: "cnode \<Rightarrow> bool \<Rightarrow> 'v client \<Rightarrow> 'v client" where
  "after_boot n waiting k =
     (if waiting then set_cnode n k
      else if c_state n = Status READY then set_kphase (c_instance_name n) Assign (set_cnode n k)
      else set_kphase (c_instance_name n) Over (set_cnode (boot_failed n) k))"

text \<open>After the assignment: a node that was not accepted breaks the barrier it was a party of.\<close>

definition after_assign :: "cnode \<Rightarrow> 'v client \<Rightarrow> 'v client" where
  "after_assign n k =
     (let x = c_instance_name n; k1 = set_cnode n k
      in if c_state n \<in> {Status FAILED, REMOVED} then
           set_kphase x Over
             (if x \<in> set (k_initially_ready k) then k1\<lparr>k_barrier := map_option barrier_abort (k_barrier k)\<rparr>
              else k1)
         else set_kphase x Cut k1)"

text \<open>Before its first poll an initially ready node waits for the first chunks of the others.\<close>

definition to_poll :: "string \<Rightarrow> 'v client \<Rightarrow> 'v client" where
  "to_poll x k =
     (if x \<in> set (k_initially_ready k) \<and> k_barrier k \<noteq> None
      then set_kphase x AtBarrier
             (k\<lparr>k_barrier := map_option (barrier_arrive x) (k_barrier k),
                k_initially_ready := removeAll x (k_initially_ready k)\<rparr>)
      else set_kphase x Poll k)"

definition cut_chunk :: "('v \<Rightarrow> string) \<Rightarrow> cnode \<Rightarrow> 'v client \<Rightarrow> 'v client" where
  "cut_chunk dumps n k =
     (let x = c_instance_name n
      in case next_chunk dumps (input_chunksize (k_nodes k) (k_n_inputs k) n) (inputs_of k x) of
           Inl e \<Rightarrow> set_kphase x (Crashed e) k
         | Inr (chunk, rest) \<Rightarrow>
             (let k1 = k\<lparr>k_lists := (k_lists k)(list_ref k x := rest)\<rparr>
              in if chunk = [] then to_poll x k1 else set_kphase x (Upload chunk) k1))"

definition after_upload :: "string \<Rightarrow> job_input list \<Rightarrow> 'v client \<Rightarrow> 'v client" where
  "after_upload x chunk k = to_poll x (k\<lparr>k_uploaded := k_uploaded k @ chunk\<rparr>)"

definition after_poll :: "cnode \<Rightarrow> (int \<times> return_value) list \<Rightarrow> 'v client \<Rightarrow> 'v client" where
  "after_poll n vs k =
     set_kphase (c_instance_name n) (if c_state n = DONE then Over else Cut)
       (set_cnode n (k\<lparr>k_return_queue := k_return_queue k @ vs\<rparr>))"

section \<open>The loop that watches the tasks\<close>

definition task_done :: "'v client \<Rightarrow> string \<Rightarrow> bool" where
  "task_done k x \<longleftrightarrow> (case k_phase k x of Over \<Rightarrow> True | Crashed e \<Rightarrow> True | _ \<Rightarrow> False)"

definition total_result_count :: "'v client \<Rightarrow> int" where
  "total_result_count k = (\<Sum>n\<leftarrow>k_nodes k. c_result_count n)"

definition boot_failure :: "'v client \<Rightarrow> client_error option" where
  "boot_failure k =
     (if k_booting k \<noteq> []
         \<and> list_all (\<lambda>n. c_instance_name n \<in> set (k_booting k) \<longrightarrow> c_state n = Status FAILED) (k_nodes k)
         \<and> list_all (\<lambda>n. c_state n \<in> {Status FAILED, REMOVED, Status BOOTING}) (k_nodes k)
      then Some (NodesFailedToBoot (k_booting k)) else None)"

text \<open>The inputs a removed node still has go to the first node at work that has another list.\<close>

definition recipient_of :: "'v client \<Rightarrow> nat \<Rightarrow> cnode option" where
  "recipient_of k ref = List.find (\<lambda>n. is_active n \<and> list_ref k (c_instance_name n) \<noteq> ref) (k_nodes k)"

definition hand_over :: "'v client \<Rightarrow> cnode \<Rightarrow> 'v client" where
  "hand_over k n =
     (let ref = list_ref k (c_instance_name n); leftover = k_lists k ref
      in if c_state n \<noteq> REMOVED \<or> leftover = [] then k
         else case recipient_of k ref of
                None \<Rightarrow> k
              | Some m \<Rightarrow>
                  (let dst = list_ref k (c_instance_name m)
                   in k\<lparr>k_lists := (k_lists k)(dst := k_lists k dst @ leftover, ref := [])\<rparr>))"

definition hand_over_leftovers :: "'v client \<Rightarrow> 'v client" where
  "hand_over_leftovers k = foldl hand_over k (k_nodes k)"

text \<open>
  \<open>_job_lifecycle_exception\<close>: up to three reads of the job; the exception that says why the job ended
  goes before the node's own.
\<close>

fun job_lifecycle_exception :: "nat \<Rightarrow> (nat \<Rightarrow> job_answer) \<Rightarrow> client_error option" where
  "job_lifecycle_exception 0 net = None"
| "job_lifecycle_exception (Suc n) net =
     (case net n of
        NetworkError \<Rightarrow> job_lifecycle_exception n net
      | Response j \<Rightarrow> raise_if_job_ended_by_lifecycle (Response j))"

definition task_failure :: "'v client \<Rightarrow> cnode \<Rightarrow> client_error option" where
  "task_failure k n =
     (if c_state n = Status FAILED then Some (NodeDisconnected (c_instance_name n))
      else case k_phase k (c_instance_name n) of Crashed e \<Rightarrow> Some e | _ \<Rightarrow> None)"

fun first_failure :: "'v client \<Rightarrow> cnode list \<Rightarrow> client_error option" where
  "first_failure k [] = None"
| "first_failure k (n # ns) = (case task_failure k n of Some e \<Rightarrow> Some e | None \<Rightarrow> first_failure k ns)"

definition reported_failure :: "(nat \<Rightarrow> job_answer) \<Rightarrow> 'v client \<Rightarrow> client_error option" where
  "reported_failure net k =
     (case first_failure k (k_nodes k) of
        None \<Rightarrow> None
      | Some e \<Rightarrow> (case job_lifecycle_exception 3 net of Some l \<Rightarrow> Some l | None \<Rightarrow> Some e))"

text \<open>Whether every list is empty, so that the head is told that all inputs are uploaded.\<close>

definition lists_empty :: "'v client \<Rightarrow> bool" where
  "lists_empty k \<longleftrightarrow> list_all (\<lambda>ref. k_lists k ref = []) (k_input_lists k)"

definition reset_clocks :: "real \<Rightarrow> real \<Rightarrow> 'v client \<Rightarrow> 'v client" where
  "reset_clocks now last_loop_at k =
     k\<lparr>k_nodes := fst (reset_silence_clocks_after_suspend now (k_nodes k) last_loop_at)\<rparr>"

text \<open>
  A turn of the loop up to its first await: either an exception, or a new state and whether the head
  is now told. Cancelling in the terminal leaves the loop before this.
\<close>

definition watch_front ::
  "real \<Rightarrow> real \<Rightarrow> (nat \<Rightarrow> job_answer) \<Rightarrow> 'v client \<Rightarrow> client_error + 'v client \<times> bool" where
  "watch_front now last_loop_at net k =
     (let k1 = reset_clocks now last_loop_at k
      in case boot_failure k1 of
           Some e \<Rightarrow> Inl e
         | None \<Rightarrow>
             (let k2 = hand_over_leftovers k1
              in case reported_failure net k2 of
                   Some e \<Rightarrow> Inl e
                 | None \<Rightarrow>
                     if lists_empty k2 \<and> \<not> k_inputs_done k2
                     then Inr (k2\<lparr>k_inputs_done := True\<rparr>, True) else Inr (k2, False)))"

text \<open>The end of a turn: the loop ends with the results, with an exception, or goes on.\<close>

datatype turn = AllResults | GoesOn | Fails client_error

definition watch_back :: "'v client \<Rightarrow> turn" where
  "watch_back k =
     (let total = total_result_count k
      in if list_all (\<lambda>n. task_done k (c_instance_name n)) (k_nodes k) \<and> total < k_n_inputs k
         then Fails (JobStalled total (k_n_inputs k))
         else if total < k_n_inputs k then GoesOn else AllResults)"

text \<open>\<open>_discover_replacement_nodes\<close>: one row of the head's list of the job's nodes.\<close>

definition discover_node :: "real \<Rightarrow> nat \<Rightarrow> job_node_row \<Rightarrow> 'v client \<Rightarrow> 'v client" where
  "discover_node now fresh row k =
     (let x = jn_instance_name row; target = get_or 0 (jn_target_parallelism row)
      in if x \<in> set (k_known_names k) then k
         else
           (let k1 = k\<lparr>k_known_names := x # k_known_names k\<rparr>
            in if jn_status row \<notin> {Some BOOTING, Some READY} \<or> target \<le> 0 then k1
               else k1\<lparr>k_nodes := k_nodes k @ [(from_booting now x target)\<lparr>c_late_join := True\<rparr>],
                       k_node_inputs := dset x fresh (k_node_inputs k),
                       k_input_lists := k_input_lists k @ [fresh],
                       k_lists := (k_lists k)(fresh := []),
                       k_phase := (k_phase k)(x := Boot)\<rparr>))"

section \<open>Steps\<close>

text \<open>\<open>known\<close>: the node under this name is a node of the job.\<close>

inductive client_step ::
  "('v \<Rightarrow> string) \<Rightarrow> (string \<Rightarrow> string) \<Rightarrow> bool \<Rightarrow> (string \<Rightarrow> bool) \<Rightarrow> string \<Rightarrow> 'v client \<Rightarrow> 'v client \<Rightarrow> bool"
  for dumps local_host raise_errors infra job_id where
  boot: "n \<in> set (k_nodes k) \<Longrightarrow> k_phase k (c_instance_name n) = Boot \<Longrightarrow>
    boot_turn local_host now data job n = Inr (n', waiting) \<Longrightarrow>
    client_step dumps local_host raise_errors infra job_id k (after_boot n' waiting k)"
| boot_raised: "n \<in> set (k_nodes k) \<Longrightarrow> k_phase k (c_instance_name n) = Boot \<Longrightarrow>
    boot_turn local_host now data job n = Inl e \<Longrightarrow>
    client_step dumps local_host raise_errors infra job_id k (set_kphase (c_instance_name n) (Crashed e) k)"
| assign: "n \<in> set (k_nodes k) \<Longrightarrow> k_phase k (c_instance_name n) = Assign \<Longrightarrow>
    assign_phase packages job_id now as n = Some (Inr n') \<Longrightarrow>
    client_step dumps local_host raise_errors infra job_id k (after_assign n' k)"
| assign_raised: "n \<in> set (k_nodes k) \<Longrightarrow> k_phase k (c_instance_name n) = Assign \<Longrightarrow>
    assign_phase packages job_id now as n = Some (Inl e) \<Longrightarrow>
    client_step dumps local_host raise_errors infra job_id k (set_kphase (c_instance_name n) (Crashed e) k)"
| cut: "n \<in> set (k_nodes k) \<Longrightarrow> k_phase k (c_instance_name n) = Cut \<Longrightarrow>
    client_step dumps local_host raise_errors infra job_id k (cut_chunk dumps n k)"
| uploaded: "n \<in> set (k_nodes k) \<Longrightarrow> k_phase k (c_instance_name n) = Upload chunk \<Longrightarrow>
    upload_input_chunk 0 posts = Some (Inr ()) \<Longrightarrow>
    client_step dumps local_host raise_errors infra job_id k (after_upload (c_instance_name n) chunk k)"
| upload_raised: "n \<in> set (k_nodes k) \<Longrightarrow> k_phase k (c_instance_name n) = Upload chunk \<Longrightarrow>
    upload_input_chunk 0 posts = Some (Inl e) \<Longrightarrow>
    client_step dumps local_host raise_errors infra job_id k (set_kphase (c_instance_name n) (Crashed e) k)"
| barrier: "n \<in> set (k_nodes k) \<Longrightarrow> k_phase k (c_instance_name n) = AtBarrier \<Longrightarrow>
    k_barrier k = Some b \<Longrightarrow> barrier_open b \<Longrightarrow>
    client_step dumps local_host raise_errors infra job_id k (set_kphase (c_instance_name n) Poll k)"
| poll: "n \<in> set (k_nodes k) \<Longrightarrow> k_phase k (c_instance_name n) = Poll \<Longrightarrow>
    poll_round raise_errors infra now answer job deleted n = Inr (n', vs) \<Longrightarrow>
    client_step dumps local_host raise_errors infra job_id k (after_poll n' vs k)"
| poll_raised: "n \<in> set (k_nodes k) \<Longrightarrow> k_phase k (c_instance_name n) = Poll \<Longrightarrow>
    poll_round raise_errors infra now answer job deleted n = Inl e \<Longrightarrow>
    client_step dumps local_host raise_errors infra job_id k (set_kphase (c_instance_name n) (Crashed e) k)"
| watch: "watch_front now last_loop_at net k = Inr (k', told) \<Longrightarrow>
    client_step dumps local_host raise_errors infra job_id k k'"
| discover: "fresh \<notin> set (k_input_lists k) \<union> snd ` set (k_node_inputs k) \<Longrightarrow>
    client_step dumps local_host raise_errors infra job_id k (discover_node now fresh row k)"

end
