(* ===== verification/Client_Inputs.thy ===== *)
theory Client_Inputs
  imports Client_Job
begin

text \<open>
  What the client does with its inputs: how they are dealt out, how chunks are cut, and the invariant of
  its tasks, by which every input is in one list, in one chunk on its way, or uploaded.
\<close>

section \<open>Chunks\<close>

definition pickled :: "('v \<Rightarrow> string) \<Rightarrow> int \<times> 'v \<Rightarrow> job_input" where
  "pickled dumps iv = (fst iv, dumps (snd iv))"

abbreviation bytes_of :: "job_input list \<Rightarrow> int" where
  "bytes_of xs \<equiv> (\<Sum>x\<leftarrow>xs. pkl_len x)"

lemma take_chunk_split:
  "take_chunk dumps limit used chunk xs = Inr (c, rest) \<Longrightarrow>
     \<exists>ys. xs = ys @ rest \<and> c = chunk @ map (pickled dumps) ys"
proof (induction xs arbitrary: used chunk)
  case (Cons x xs)
  obtain i v where x: "x = (i, v)" by (cases x)
  show ?case
  proof (cases "int (length chunk) \<ge> limit \<or> (chunk \<noteq> [] \<and> used + int (length (dumps v)) > MAX_CHUNK_SIZE_BYTES)")
    case True
    then show ?thesis using Cons.prems by (auto simp: x Let_def split: if_splits)
  next
    case False
    then have "take_chunk dumps limit (used + int (length (dumps v))) (chunk @ [(i, dumps v)]) xs = Inr (c, rest)"
      using Cons.prems by (auto simp: x Let_def split: if_splits)
    from Cons.IH [OF this] show ?thesis by (auto simp: x pickled_def)
  qed
qed simp

lemma next_chunk_split:
  assumes "next_chunk dumps limit xs = Inr (c, rest)"
  shows "\<exists>ys. xs = rest @ ys \<and> c = map (pickled dumps) (rev ys)"
proof -
  obtain rest' where t: "take_chunk dumps limit 0 [] (rev xs) = Inr (c, rest')" and r: "rest = rev rest'"
    using assms by (auto simp: next_chunk_def bind_err_eq_Inr)
  from take_chunk_split [OF t] obtain ys where "rev xs = ys @ rest'" "c = map (pickled dumps) ys" by auto
  then show ?thesis using r by (intro exI [of _ "rev ys"]) (simp add: rev_swap)
qed

lemma take_chunk_bounds:
  "take_chunk dumps limit used chunk xs = Inr (c, rest) \<Longrightarrow>
     used = bytes_of chunk \<Longrightarrow> int (length chunk) \<le> limit \<Longrightarrow>
     (length chunk \<le> 1 \<or> used \<le> MAX_CHUNK_SIZE_BYTES) \<Longrightarrow>
     int (length c) \<le> limit \<and> (length c \<le> 1 \<or> bytes_of c \<le> MAX_CHUNK_SIZE_BYTES)"
proof (induction xs arbitrary: used chunk)
  case (Cons x xs)
  obtain i v where x: "x = (i, v)" by (cases x)
  show ?case
  proof (cases "int (length chunk) \<ge> limit \<or> (chunk \<noteq> [] \<and> used + int (length (dumps v)) > MAX_CHUNK_SIZE_BYTES)")
    case True
    then show ?thesis using Cons.prems by (auto simp: x Let_def split: if_splits)
  next
    case False
    then have t: "take_chunk dumps limit (used + int (length (dumps v))) (chunk @ [(i, dumps v)]) xs = Inr (c, rest)"
      using Cons.prems(1) by (auto simp: x Let_def split: if_splits)
    show ?thesis using Cons.IH [OF t] Cons.prems(2-4) False by auto
  qed
qed simp

lemma take_chunk_error:
  "take_chunk dumps limit used chunk xs = Inl e \<Longrightarrow>
     \<exists>i v. (i, v) \<in> set xs \<and> e = InputTooBig i \<and> int (length (dumps v)) > MAX_INPUT_SIZE_BYTES"
proof (induction xs arbitrary: used chunk)
  case (Cons x xs)
  obtain i v where x: "x = (i, v)" by (cases x)
  show ?case
  proof (cases "int (length (dumps v)) > MAX_INPUT_SIZE_BYTES")
    case True
    then show ?thesis using Cons.prems by (auto simp: x Let_def split: if_splits)
  next
    case False
    then have "take_chunk dumps limit (used + int (length (dumps v))) (chunk @ [(i, dumps v)]) xs = Inl e"
      using Cons.prems by (auto simp: x Let_def split: if_splits)
    from Cons.IH [OF this] show ?thesis by auto
  qed
qed simp

lemma take_chunk_grows:
  "take_chunk dumps limit used chunk xs = Inr (c, rest) \<Longrightarrow> chunk \<noteq> [] \<Longrightarrow> c \<noteq> []"
  using take_chunk_split by fastforce

lemma next_chunk_progress:
  assumes "next_chunk dumps limit xs = Inr (c, rest)" "xs \<noteq> []" "0 < limit"
  shows "c \<noteq> []"
proof -
  obtain rest' where t: "take_chunk dumps limit 0 [] (rev xs) = Inr (c, rest')"
    using assms(1) by (auto simp: next_chunk_def bind_err_eq_Inr)
  obtain i v zs where "rev xs = (i, v) # zs"
    using assms(2) by (metis list.exhaust rev_is_Nil_conv surj_pair)
  with t assms(3) take_chunk_grows show ?thesis by (fastforce simp: Let_def split: if_splits)
qed

lemma next_chunk_bounds:
  assumes "next_chunk dumps limit xs = Inr (c, rest)" "0 \<le> limit"
  shows "int (length c) \<le> limit \<and> (length c \<le> 1 \<or> bytes_of c \<le> MAX_CHUNK_SIZE_BYTES)"
proof -
  obtain rest' where t: "take_chunk dumps limit 0 [] (rev xs) = Inr (c, rest')"
    using assms(1) by (auto simp: next_chunk_def bind_err_eq_Inr)
  show ?thesis using take_chunk_bounds [OF t] assms(2) by simp
qed

lemma chunksize_positive: "0 < c_target_parallelism n \<Longrightarrow> 0 < input_chunksize ns n_inputs n"
  by (simp add: input_chunksize_def)

section \<open>Dealing\<close>

lemma deal_inputs_ok:
  assumes "dests \<noteq> []"
  shows "deal_inputs dests i vs store = Inr (\<lambda>d. store d @
     filter (\<lambda>(j, v). dests ! (nat j mod length dests) = d) (map (\<lambda>(j, v). (int j, v)) (enumerate i vs)))"
proof (induction vs arbitrary: i store)
  case (Cons v vs)
  show ?case using assms by (auto simp: Cons.IH Let_def fun_eq_iff)
qed simp

text \<open>How many of the first \<open>n\<close> inputs go to \<open>d\<close> when \<open>d\<close> has \<open>p\<close> of the destinations.\<close>

definition share_of :: "nat list \<Rightarrow> nat \<Rightarrow> nat \<Rightarrow> nat" where
  "share_of dests n d = length (filter (\<lambda>i. dests ! (i mod length dests) = d) [0..<n])"

lemma filter_enumerate_length:
  "length (filter (\<lambda>(j, v). P (nat j)) (map (\<lambda>(j, v). (int j, v)) (enumerate i vs)))
     = length (filter P [i..<i + length vs])"
proof (induction vs arbitrary: i)
  case (Cons v vs)
  have "[i..<i + length (v # vs)] = i # [Suc i..<Suc i + length vs]"
    by (simp add: upt_conv_Cons del: upt_Suc)
  then show ?case using Cons.IH [of "Suc i"] by (simp del: upt_Suc)
qed simp

lemma share_of_block:
  "length (filter (\<lambda>i. dests ! (i mod length dests) = d) [length dests * q..<length dests * q + r])
     = length (filter (\<lambda>i. dests ! i = d) [0..<r])" if "r \<le> length dests"
  using that
proof (induction r)
  case (Suc r)
  then have "(length dests * q + r) mod length dests = r" by simp
  then show ?case using Suc by simp
qed simp

lemma count_all: "length (filter (\<lambda>i. dests ! i = d) [0..<length dests]) = count_list dests d"
proof (induction dests rule: rev_induct)
  case (snoc x xs)
  have "filter (\<lambda>i. (xs @ [x]) ! i = d) [0..<length xs] = filter (\<lambda>i. xs ! i = d) [0..<length xs]"
    by (rule filter_cong) (auto simp: nth_append)
  then show ?case using snoc by simp
qed simp

lemma share_of_blocks: "share_of dests (length dests * q) d = q * count_list dests d"
proof (induction q)
  case (Suc q)
  have "[0..<length dests * Suc q]
      = [0..<length dests * q] @ [length dests * q..<length dests * q + length dests]"
    by (metis add.commute le0 mult_Suc_right upt_add_eq_append)
  then show ?case
    using Suc share_of_block [of "length dests" dests d q] count_all [of dests d]
    by (simp add: share_of_def)
qed (simp add: share_of_def)

lemma share_of_bounds:
  assumes "dests \<noteq> []"
  shows "count_list dests d * (n div length dests) \<le> share_of dests n d \<and>
   share_of dests n d \<le> count_list dests d * (n div length dests) + count_list dests d"
proof -
  define q r where "q = n div length dests" and "r = n mod length dests"
  have n: "n = length dests * q + r" and r: "r \<le> length dests"
    using assms by (simp_all add: q_def r_def less_imp_le_nat)
  have "[0..<n] = [0..<length dests * q] @ [length dests * q..<length dests * q + r]"
    by (metis n le0 upt_add_eq_append)
  then have s: "share_of dests n d = q * count_list dests d + length (filter (\<lambda>i. dests ! i = d) [0..<r])"
    using share_of_blocks [of dests q d] share_of_block [OF r, of d q] by (simp add: share_of_def)
  have "[0..<length dests] = [0..<r] @ [r..<length dests]"
    using r by (metis le0 le_add_diff_inverse upt_add_eq_append)
  then have "length (filter (\<lambda>i. dests ! i = d) [0..<r]) \<le> count_list dests d"
    using count_all [of dests d] by simp
  then show ?thesis using s by (simp add: q_def mult.commute)
qed

text \<open>A ready node is a destination once for each of its slots.\<close>

lemma count_destinations:
  assumes "distinct (map fst ready)" "(ref, p) \<in> set ready" "0 \<le> p"
  shows "count_list (input_destinations ready) ref = nat p"
proof -
  have one: "count_list (map fst (filter (\<lambda>(ref, p). int slot < p) ready)) ref = (if int slot < p then 1 else 0)" for slot
    using assms(1,2)
  proof (induction ready)
    case (Cons x xs)
    show ?case
    proof (cases "x = (ref, p)")
      case True
      then have "ref \<notin> fst ` set xs" using Cons.prems by auto
      then have "count_list (map fst (filter (\<lambda>(ref, p). int slot < p) xs)) ref = 0"
        by (auto simp: count_list_0_iff)
      then show ?thesis using True by simp
    next
      case False
      then have "(ref, p) \<in> set xs" "fst x \<noteq> ref" using Cons.prems by (auto intro: rev_image_eqI)
      then show ?thesis using Cons by (cases x) auto
    qed
  qed simp
  have "p \<le> Max (set (map snd ready))"
    using assms(2) by (intro Max_ge) (auto intro: rev_image_eqI)
  then have le: "nat p \<le> nat (Max (set (map snd ready)))" by simp
  have "count_list (concat (map (\<lambda>slot. map fst (filter (\<lambda>(ref, p). int slot < p) ready)) [0..<m])) ref
      = min m (nat p)" for m
    by (induction m) (auto simp: one min_def nat_less_iff assms(3))
  then show ?thesis using le by (simp add: input_destinations_def)
qed

section \<open>Where the inputs are\<close>

definition flying :: "phase \<Rightarrow> job_input multiset" where
  "flying p = (case p of Upload chunk \<Rightarrow> mset chunk | _ \<Rightarrow> {#})"

lemma flying_simps [simp]:
  "flying Boot = {#}" "flying Assign = {#}" "flying Cut = {#}" "flying (Upload c) = mset c"
  "flying AtBarrier = {#}" "flying Poll = {#}" "flying Over = {#}" "flying (Crashed e) = {#}"
  by (simp_all add: flying_def)

definition kept :: "('v \<Rightarrow> string) \<Rightarrow> (int \<times> 'v) list \<Rightarrow> job_input multiset" where
  "kept dumps xs = image_mset (pickled dumps) (mset xs)"

definition whereabouts :: "('v \<Rightarrow> string) \<Rightarrow> 'v client \<Rightarrow> job_input multiset" where
  "whereabouts dumps k =
     (\<Sum>ref\<leftarrow>k_input_lists k. kept dumps (k_lists k ref))
     + (\<Sum>x\<leftarrow>names_of (k_nodes k). flying (k_phase k x)) + mset (k_uploaded k)"

definition crashed :: "'v client \<Rightarrow> bool" where
  "crashed k \<longleftrightarrow> (\<exists>x \<in> set (names_of (k_nodes k)). \<exists>e. k_phase k x = Crashed e)"

definition all_items :: "('v \<Rightarrow> string) \<Rightarrow> 'v list \<Rightarrow> job_input multiset" where
  "all_items dumps inputs = mset (map (\<lambda>(i, v). (int i, dumps v)) (enumerate 0 inputs))"

lemma sum_list_upd:
  fixes f :: "'b \<Rightarrow> 'c::cancel_comm_monoid_add"
  shows "distinct xs \<Longrightarrow> r \<in> set xs \<Longrightarrow>
     (\<Sum>x\<leftarrow>xs. f ((g(r := v)) x)) + f (g r) = (\<Sum>x\<leftarrow>xs. f (g x)) + f v"
proof (induction xs)
  case (Cons y ys)
  show ?case
  proof (cases "y = r")
    case True
    then have "(\<Sum>x\<leftarrow>ys. f ((g(r := v)) x)) = (\<Sum>x\<leftarrow>ys. f (g x))"
      using Cons.prems(1) by (intro arg_cong [of _ _ sum_list] map_cong) auto
    then show ?thesis using True by (simp add: ac_simps)
  next
    case False
    then show ?thesis using Cons by (simp add: add.assoc)
  qed
qed simp

lemma swap_sum:
  fixes a :: "'c::cancel_comm_monoid_add"
  assumes "a + q = b + p" "u' + p = u + q"
  shows "a + u' = b + u"
proof -
  have "(a + q) + (u' + p) = (b + p) + (u + q)" using assms by simp
  then have "(a + u') + (p + q) = (b + u) + (p + q)" by (simp only: ac_simps)
  then show ?thesis by (simp only: add_right_cancel)
qed

lemma sum_list_upd_out:
  "r \<notin> set xs \<Longrightarrow> (\<Sum>x\<leftarrow>xs. f ((g(r := v)) x)) = (\<Sum>x\<leftarrow>xs. f (g x))"
  by (intro arg_cong [of _ _ sum_list] map_cong) auto

section \<open>Names stay\<close>

lemma name_update_status [simp]:
  "update_status lh d j n = Inr n' \<Longrightarrow> c_instance_name n' = c_instance_name n \<and> c_result_count n' = c_result_count n"
  by (auto simp: update_status_def Let_def split: option.splits if_splits)

lemma name_boot_turn:
  "boot_turn lh now d j n = Inr (n', w) \<Longrightarrow> c_instance_name n' = c_instance_name n \<and> c_result_count n' = c_result_count n"
  by (auto simp: boot_turn_def bind_err_eq_Inr split: if_splits)

lemma name_boot_failed [simp]:
  "c_instance_name (boot_failed n) = c_instance_name n" "c_result_count (boot_failed n) = c_result_count n"
  by (simp_all add: boot_failed_def)

lemma name_assignment_reply:
  "assignment_reply job_id r n = Some (Inr n') \<Longrightarrow>
     c_instance_name n' = c_instance_name n \<and> c_result_count n' = c_result_count n"
  by (auto simp: assignment_reply_def Let_def split: prod.splits if_splits)

lemma name_assign_loop:
  "assign_loop job_id g r as n = Some (Inr n') \<Longrightarrow>
     c_instance_name n' = c_instance_name n \<and> c_result_count n' = c_result_count n"
proof (induction job_id g r as n rule: assign_loop.induct)
  case (2 job_id g r now a as n)
  show ?case
  proof (cases a)
    case NetworkError
    then show ?thesis using 2 by (auto simp: unreachable_def split: if_splits)
  next
    case (Response resp)
    show ?thesis
    proof (cases "assignment_reply job_id resp (n\<lparr>c_last_reply_timestamp := now\<rparr>)")
      case None
      then show ?thesis
        using 2(3) [OF Response refl None] 2(4) Response
        by (auto simp: Let_def relay_failed_def split: if_splits)
    next
      case (Some res)
      then show ?thesis using 2(4) Response name_assignment_reply [of job_id resp "n\<lparr>c_last_reply_timestamp := now\<rparr>"]
        by (auto simp: Let_def)
    qed
  qed
qed simp

lemma name_assign_phase:
  "assign_phase p job_id now as n = Some (Inr n') \<Longrightarrow>
     c_instance_name n' = c_instance_name n \<and> c_result_count n' = c_result_count n"
proof -
  assume a: "assign_phase p job_id now as n = Some (Inr n')"
  define m where "m = (if p then n\<lparr>c_installing_packages := True\<rparr> else n)"
  from a obtain r where "assign_job job_id now as m = Some r" and r: "map_sum id
      (\<lambda>m. m\<lparr>c_installing_packages := False, c_currently_installing_package := None\<rparr>) r = Inr n'"
    by (auto simp: assign_phase_def m_def)
  then obtain n1 where "assign_loop job_id 0 False as (m\<lparr>c_last_reply_timestamp := now\<rparr>) = Some (Inr n1)"
    and n': "n' = n1\<lparr>c_installing_packages := False, c_currently_installing_package := None\<rparr>"
    by (cases r) (auto simp: assign_job_def)
  from name_assign_loop [OF this(1)] n' show ?thesis by (simp add: m_def)
qed

lemma name_gather:
  "gather_results now a j d n = Inr (n', r) \<Longrightarrow>
     c_instance_name n' = c_instance_name n \<and> c_result_count n' = c_result_count n"
  by (cases a) (auto simp: gather_results_def done_node_results_def Let_def
      split: prod.split_asm option.split_asm if_split_asm)

lemma poll_round_counts:
  assumes "poll_round re infra now a j d n = Inr (n', vs)"
  shows "c_instance_name n' = c_instance_name n \<and> c_result_count n' = c_result_count n + int (length vs)"
proof -
  obtain n1 r where g: "gather_results now a j d n = Inr (n1, r)"
    and b: "absorb_results re infra r n1 = Inr (n', vs)"
    using assms by (auto simp: poll_round_def bind_err_eq_Inr)
  from b obtain ws where "take_results re infra (c_instance_name n1) (batch_results r) = Inr ws"
    unfolding absorb_results_def bind_err_eq_Inr by blast
  with b have "c_instance_name n' = c_instance_name n1 \<and> c_result_count n' = c_result_count n1 + int (length vs)"
    by (cases "gr_batch r") (auto simp: absorb_results_def Let_def)
  with name_gather [OF g] show ?thesis by simp
qed

section \<open>The invariant\<close>

definition refs_ok :: "'v client \<Rightarrow> bool" where
  "refs_ok k \<longleftrightarrow> distinct (k_input_lists k) \<and>
     (\<forall>x \<in> set (names_of (k_nodes k)). \<exists>r \<in> set (k_input_lists k). map_of (k_node_inputs k) x = Some r)"

definition names_ok :: "'v client \<Rightarrow> bool" where
  "names_ok k \<longleftrightarrow> distinct (names_of (k_nodes k)) \<and> set (names_of (k_nodes k)) \<subseteq> set (k_known_names k)"

text \<open>
  The parties of an unbroken barrier have arrived or are on their way: assigning, cutting or uploading
  their first chunk, unless they have raised.
\<close>

definition on_the_way :: "phase \<Rightarrow> bool" where
  "on_the_way p \<longleftrightarrow> (case p of Assign \<Rightarrow> True | Cut \<Rightarrow> True | Upload c \<Rightarrow> True | Crashed e \<Rightarrow> True | _ \<Rightarrow> False)"

definition barrier_ok :: "'v client \<Rightarrow> bool" where
  "barrier_ok k \<longleftrightarrow>
     (case k_barrier k of
        None \<Rightarrow> k_initially_ready k = [] \<and> (\<forall>x. k_phase k x \<noteq> AtBarrier)
      | Some b \<Rightarrow> distinct (k_initially_ready k) \<and> set (k_initially_ready k) \<subseteq> set (names_of (k_nodes k)) \<and>
          (b_broken b \<or>
           (b_parties b = length (b_arrived b) + length (k_initially_ready k)
            \<and> (\<forall>x \<in> set (k_initially_ready k). on_the_way (k_phase k x)))))"

definition client_inv :: "('v \<Rightarrow> string) \<Rightarrow> 'v list \<Rightarrow> 'v client \<Rightarrow> bool" where
  "client_inv dumps inputs k \<longleftrightarrow> names_ok k \<and> refs_ok k \<and> barrier_ok k
     \<and> (k_inputs_done k \<longrightarrow> lists_empty k)
     \<and> total_result_count k = int (length (k_return_queue k))
     \<and> k_n_inputs k = int (length inputs)
     \<and> (crashed k \<or> whereabouts dumps k = all_items dumps inputs)"

lemma client_invI:
  assumes "names_ok k" "refs_ok k" "barrier_ok k" "k_inputs_done k \<Longrightarrow> lists_empty k"
    "total_result_count k = int (length (k_return_queue k))" "k_n_inputs k = int (length inputs)"
    "\<not> crashed k \<Longrightarrow> whereabouts dumps k = all_items dumps inputs"
  shows "client_inv dumps inputs k"
  using assms by (auto simp: client_inv_def)

lemma client_invD:
  assumes "client_inv dumps inputs k"
  shows "names_ok k" "refs_ok k" "barrier_ok k" "k_inputs_done k \<Longrightarrow> lists_empty k"
    "total_result_count k = int (length (k_return_queue k))" "k_n_inputs k = int (length inputs)"
    "\<not> crashed k \<Longrightarrow> whereabouts dumps k = all_items dumps inputs"
  using assms by (auto simp: client_inv_def)

lemma names_set_cnode [simp]: "names_of (k_nodes (set_cnode n k)) = names_of (k_nodes k)"
  by (auto simp: names_of_def set_cnode_def)

lemma set_cnode_simps [simp]:
  "k_phase (set_cnode n k) = k_phase k" "k_lists (set_cnode n k) = k_lists k"
  "k_input_lists (set_cnode n k) = k_input_lists k" "k_node_inputs (set_cnode n k) = k_node_inputs k"
  "k_barrier (set_cnode n k) = k_barrier k" "k_initially_ready (set_cnode n k) = k_initially_ready k"
  "k_known_names (set_cnode n k) = k_known_names k" "k_inputs_done (set_cnode n k) = k_inputs_done k"
  "k_return_queue (set_cnode n k) = k_return_queue k" "k_n_inputs (set_cnode n k) = k_n_inputs k"
  "k_uploaded (set_cnode n k) = k_uploaded k" "k_booting (set_cnode n k) = k_booting k"
  by (simp_all add: set_cnode_def)

lemma set_kphase_simps [simp]:
  "k_phase (set_kphase x p k) = (k_phase k)(x := p)" "k_lists (set_kphase x p k) = k_lists k"
  "k_nodes (set_kphase x p k) = k_nodes k"
  "k_input_lists (set_kphase x p k) = k_input_lists k" "k_node_inputs (set_kphase x p k) = k_node_inputs k"
  "k_barrier (set_kphase x p k) = k_barrier k" "k_initially_ready (set_kphase x p k) = k_initially_ready k"
  "k_known_names (set_kphase x p k) = k_known_names k" "k_inputs_done (set_kphase x p k) = k_inputs_done k"
  "k_return_queue (set_kphase x p k) = k_return_queue k" "k_n_inputs (set_kphase x p k) = k_n_inputs k"
  "k_uploaded (set_kphase x p k) = k_uploaded k" "k_booting (set_kphase x p k) = k_booting k"
  by (simp_all add: set_kphase_def)

lemma count_set_cnode:
  assumes "distinct (names_of ns)" "n \<in> set ns" "c_instance_name n' = c_instance_name n"
  shows "(\<Sum>m\<leftarrow>map (\<lambda>m. if c_instance_name m = c_instance_name n' then n' else m) ns. c_result_count m)
     = (\<Sum>m\<leftarrow>ns. c_result_count m) + (c_result_count n' - c_result_count n)"
  using assms
proof (induction ns)
  case (Cons m ns)
  show ?case
  proof (cases "m = n")
    case True
    then have "map (\<lambda>m. if c_instance_name m = c_instance_name n' then n' else m) ns = ns"
      using Cons.prems by (intro map_idI) (auto simp: names_of_def rev_image_eqI)
    then show ?thesis using True Cons.prems(3) by simp
  next
    case False
    then have n: "n \<in> set ns" using Cons.prems by auto
    then have "c_instance_name m \<noteq> c_instance_name n"
      using Cons.prems(1) by (auto simp: names_of_def rev_image_eqI)
    then show ?thesis using Cons.IH n Cons.prems by (simp add: names_of_def)
  qed
qed simp

lemma total_set_cnode:
  assumes "names_ok k" "n \<in> set (k_nodes k)" "c_instance_name n' = c_instance_name n"
  shows "total_result_count (set_cnode n' k) = total_result_count k + (c_result_count n' - c_result_count n)"
  using count_set_cnode [of "k_nodes k" n n'] assms
  by (simp add: total_result_count_def set_cnode_def names_ok_def)

lemma total_set_kphase [simp]: "total_result_count (set_kphase x p k) = total_result_count k"
  by (simp add: total_result_count_def)

lemma name_mem: "n \<in> set ns \<Longrightarrow> c_instance_name n \<in> set (names_of ns)"
  by (simp add: names_of_def)

text \<open>Moving a task to a phase that carries nothing, from one that carries nothing.\<close>

lemma whereabouts_phase:
  assumes "names_ok k" "x \<in> set (names_of (k_nodes k))" "k_phase k' = (k_phase k)(x := p)"
    "names_of (k_nodes k') = names_of (k_nodes k)" "k_input_lists k' = k_input_lists k"
    "k_lists k' = k_lists k" "mset (k_uploaded k') + flying p = mset (k_uploaded k) + flying (k_phase k x)"
  shows "whereabouts dumps k' = whereabouts dumps k"
proof -
  have "(\<Sum>y\<leftarrow>names_of (k_nodes k). flying (((k_phase k)(x := p)) y)) + flying (k_phase k x)
      = (\<Sum>y\<leftarrow>names_of (k_nodes k). flying (k_phase k y)) + flying p"
    by (rule sum_list_upd) (use assms(1,2) in \<open>auto simp: names_ok_def\<close>)
  from swap_sum [OF this assms(7)] show ?thesis
    by (simp only: whereabouts_def assms(3-6) add.assoc)
qed

lemma crashed_other:
  assumes "k_phase k' = (k_phase k)(x := p)" "names_of (k_nodes k') = names_of (k_nodes k)"
    "\<And>e. k_phase k x \<noteq> Crashed e" "\<not> crashed k'"
  shows "\<not> crashed k"
  using assms by (auto simp: crashed_def split: if_splits)

lemma inv_move:
  assumes inv: "client_inv dumps inputs k" and x: "x \<in> set (names_of (k_nodes k))"
    and live: "\<And>e. k_phase k x \<noteq> Crashed e" and ph: "k_phase k' = (k_phase k)(x := p)"
    and frame: "names_of (k_nodes k') = names_of (k_nodes k)" "k_input_lists k' = k_input_lists k"
      "k_lists k' = k_lists k" "k_node_inputs k' = k_node_inputs k" "k_known_names k' = k_known_names k"
      "k_inputs_done k' = k_inputs_done k" "k_n_inputs k' = k_n_inputs k"
    and bar: "barrier_ok k'"
    and count: "total_result_count k' = int (length (k_return_queue k'))"
    and bal: "(\<And>e. p \<noteq> Crashed e) \<Longrightarrow>
      mset (k_uploaded k') + flying p = mset (k_uploaded k) + flying (k_phase k x)"
  shows "client_inv dumps inputs k'"
proof (rule client_invI)
  show "names_ok k'" "refs_ok k'"
    using client_invD(1,2) [OF inv] by (simp_all add: names_ok_def refs_ok_def frame)
  show "lists_empty k'" if "k_inputs_done k'"
    using client_invD(4) [OF inv] that by (simp add: lists_empty_def frame)
  show "k_n_inputs k' = int (length inputs)" using client_invD(6) [OF inv] by (simp add: frame)
  assume n: "\<not> crashed k'"
  then have "\<And>e. p \<noteq> Crashed e" using x by (auto simp: crashed_def ph frame)
  moreover have "\<not> crashed k" by (rule crashed_other [OF ph frame(1) live n])
  ultimately show "whereabouts dumps k' = all_items dumps inputs"
    using client_invD(7) [OF inv]
      whereabouts_phase [OF client_invD(1) [OF inv] x ph frame(1-3) bal] by simp
qed (use bar count in auto)

lemma barrier_ok_same:
  assumes "barrier_ok k" "k_barrier k' = k_barrier k" "k_initially_ready k' = k_initially_ready k"
    "names_of (k_nodes k') = names_of (k_nodes k)" "k_phase k' = k_phase k"
  shows "barrier_ok k'"
  using assms(1) unfolding barrier_ok_def assms(2-5) .

lemma barrier_ok_phase:
  assumes "barrier_ok k" "k_barrier k' = k_barrier k" "k_initially_ready k' = k_initially_ready k"
    "names_of (k_nodes k') = names_of (k_nodes k)" "k_phase k' = (k_phase k)(x := p)" "p \<noteq> AtBarrier"
    "on_the_way (k_phase k x) \<Longrightarrow> on_the_way p"
  shows "barrier_ok k'"
  using assms by (auto simp: barrier_ok_def split: option.splits)

lemma on_the_way_simps [simp]:
  "\<not> on_the_way Boot" "on_the_way Assign" "on_the_way Cut" "on_the_way (Upload c)"
  "\<not> on_the_way AtBarrier" "\<not> on_the_way Poll" "\<not> on_the_way Over" "on_the_way (Crashed e)"
  by (simp_all add: on_the_way_def)

lemma inv_raise:
  assumes "client_inv dumps inputs k" "n \<in> set (k_nodes k)"
    "\<And>e. k_phase k (c_instance_name n) \<noteq> Crashed e"
  shows "client_inv dumps inputs (set_kphase (c_instance_name n) (Crashed e) k)"
proof (rule inv_move [OF assms(1) name_mem [OF assms(2)] assms(3), where p = "Crashed e"])
  show "barrier_ok (set_kphase (c_instance_name n) (Crashed e) k)"
    by (rule barrier_ok_phase [OF client_invD(3) [OF assms(1)], where x = "c_instance_name n" and p = "Crashed e"]) simp_all
qed (use client_invD(5) [OF assms(1)] in auto)

lemma inv_after_boot:
  assumes inv: "client_inv dumps inputs k" and n: "n \<in> set (k_nodes k)"
    and ph: "k_phase k (c_instance_name n) = Boot" and b: "boot_turn lh now d j n = Inr (n', w)"
  shows "client_inv dumps inputs (after_boot n' w k)"
proof -
  note nm = name_boot_turn [OF b]
  define p where "p = (if w then Boot else if c_state n' = Status READY then Assign else Over)"
  have phase: "k_phase (after_boot n' w k) = (k_phase k)(c_instance_name n := p)"
    using nm ph by (auto simp: after_boot_def p_def fun_eq_iff)
  have names: "names_of (k_nodes (after_boot n' w k)) = names_of (k_nodes k)"
    by (simp add: after_boot_def)
  have frame: "k_input_lists (after_boot n' w k) = k_input_lists k" "k_lists (after_boot n' w k) = k_lists k"
    "k_node_inputs (after_boot n' w k) = k_node_inputs k" "k_known_names (after_boot n' w k) = k_known_names k"
    "k_inputs_done (after_boot n' w k) = k_inputs_done k" "k_n_inputs (after_boot n' w k) = k_n_inputs k"
    "k_barrier (after_boot n' w k) = k_barrier k" "k_initially_ready (after_boot n' w k) = k_initially_ready k"
    "k_return_queue (after_boot n' w k) = k_return_queue k" "k_uploaded (after_boot n' w k) = k_uploaded k"
    by (simp_all add: after_boot_def)
  have "total_result_count (after_boot n' w k) = total_result_count k"
    using total_set_cnode [OF client_invD(1) [OF inv] n, of n']
      total_set_cnode [OF client_invD(1) [OF inv] n, of "boot_failed n'"] nm
    by (simp add: after_boot_def)
  then show ?thesis
    using client_invD(5) [OF inv] ph
    by (intro inv_move [OF inv name_mem [OF n] _ phase names frame(1-6)]
        barrier_ok_phase [OF client_invD(3) [OF inv] frame(7,8) names phase])
       (auto simp: frame p_def)
qed

lemma inv_after_assign:
  assumes inv: "client_inv dumps inputs k" and n: "n \<in> set (k_nodes k)"
    and ph: "k_phase k (c_instance_name n) = Assign"
    and nm: "c_instance_name n' = c_instance_name n" "c_result_count n' = c_result_count n"
  shows "client_inv dumps inputs (after_assign n' k)"
proof -
  define p where "p = (if c_state n' \<in> {Status FAILED, REMOVED} then Over else Cut)"
  have phase: "k_phase (after_assign n' k) = (k_phase k)(c_instance_name n := p)"
    using nm by (auto simp: after_assign_def p_def Let_def)
  have names: "names_of (k_nodes (after_assign n' k)) = names_of (k_nodes k)"
    by (simp add: after_assign_def Let_def)
  have frame: "k_input_lists (after_assign n' k) = k_input_lists k" "k_lists (after_assign n' k) = k_lists k"
    "k_node_inputs (after_assign n' k) = k_node_inputs k" "k_known_names (after_assign n' k) = k_known_names k"
    "k_inputs_done (after_assign n' k) = k_inputs_done k" "k_n_inputs (after_assign n' k) = k_n_inputs k"
    "k_initially_ready (after_assign n' k) = k_initially_ready k"
    "k_return_queue (after_assign n' k) = k_return_queue k" "k_uploaded (after_assign n' k) = k_uploaded k"
    by (simp_all add: after_assign_def Let_def)
  have tot: "total_result_count (after_assign n' k) = total_result_count k"
    using total_set_cnode [OF client_invD(1) [OF inv] n, of n'] nm
    by (auto simp: after_assign_def Let_def total_result_count_def)
  have bar: "barrier_ok (after_assign n' k)"
  proof (cases "p = Over \<and> c_instance_name n \<in> set (k_initially_ready k)")
    case True
    then have "k_barrier (after_assign n' k) = map_option barrier_abort (k_barrier k)"
      using nm by (auto simp: after_assign_def Let_def p_def split: if_splits)
    then show ?thesis using client_invD(3) [OF inv] True
      by (auto simp: barrier_ok_def barrier_abort_def frame names phase split: option.splits)
  next
    case False
    then have "k_barrier (after_assign n' k) = k_barrier k"
      using nm by (auto simp: after_assign_def Let_def p_def split: if_splits)
    then show ?thesis using client_invD(3) [OF inv] False
      by (auto simp: barrier_ok_def frame names phase p_def split: option.splits)
  qed
  show ?thesis
    using client_invD(5) [OF inv] ph tot
    by (intro inv_move [OF inv name_mem [OF n] _ phase names frame(1-6) bar]) (auto simp: frame p_def)
qed

lemma inv_after_upload:
  assumes inv: "client_inv dumps inputs k" and n: "n \<in> set (k_nodes k)"
    and ph: "k_phase k (c_instance_name n) = Upload chunk \<or> k_phase k (c_instance_name n) = Cut \<and> chunk = []"
  shows "client_inv dumps inputs (after_upload (c_instance_name n) chunk k)"
proof -
  let ?x = "c_instance_name n" and ?k = "after_upload (c_instance_name n) chunk k"
  define p where "p = (if ?x \<in> set (k_initially_ready k) \<and> k_barrier k \<noteq> None then AtBarrier else Poll)"
  have phase: "k_phase ?k = (k_phase k)(?x := p)" by (auto simp: after_upload_def to_poll_def p_def)
  have names: "names_of (k_nodes ?k) = names_of (k_nodes k)" by (simp add: after_upload_def to_poll_def)
  have frame: "k_input_lists ?k = k_input_lists k" "k_lists ?k = k_lists k"
    "k_node_inputs ?k = k_node_inputs k" "k_known_names ?k = k_known_names k"
    "k_inputs_done ?k = k_inputs_done k" "k_n_inputs ?k = k_n_inputs k"
    "k_return_queue ?k = k_return_queue k" "k_uploaded ?k = k_uploaded k @ chunk"
    "total_result_count ?k = total_result_count k"
    by (simp_all add: after_upload_def to_poll_def total_result_count_def)
  have bar: "barrier_ok ?k"
  proof (cases "k_barrier k")
    case None
    then show ?thesis using client_invD(3) [OF inv]
      by (auto simp: barrier_ok_def after_upload_def to_poll_def)
  next
    case (Some b)
    show ?thesis
    proof (cases "?x \<in> set (k_initially_ready k)")
      case True
      then have "length (k_initially_ready k) = Suc (length (removeAll ?x (k_initially_ready k)))"
        using client_invD(3) [OF inv] Some
        by (simp add: barrier_ok_def distinct_remove1_removeAll [symmetric] length_remove1)
           (metis Suc_pred length_pos_if_in_set)
      then show ?thesis using client_invD(3) [OF inv] Some True
        by (auto simp: barrier_ok_def after_upload_def to_poll_def barrier_arrive_def distinct_removeAll)
    next
      case False
      then show ?thesis using client_invD(3) [OF inv] Some
        by (auto simp: barrier_ok_def after_upload_def to_poll_def)
    qed
  qed
  show ?thesis
    using client_invD(5) [OF inv] ph
    by (intro inv_move [OF inv name_mem [OF n] _ phase names frame(1-6) bar]) (auto simp: frame p_def)
qed

lemma kept_append: "kept dumps (xs @ ys) = kept dumps xs + mset (map (pickled dumps) (rev ys))"
  by (simp add: kept_def)

lemma ref_of:
  assumes "client_inv dumps inputs k" "x \<in> set (names_of (k_nodes k))"
  shows "map_of (k_node_inputs k) x = Some (list_ref k x)" "list_ref k x \<in> set (k_input_lists k)"
proof -
  from client_invD(2) [OF assms(1)] assms(2) obtain r
    where "r \<in> set (k_input_lists k)" "map_of (k_node_inputs k) x = Some r"
    by (auto simp: refs_ok_def)
  then show "map_of (k_node_inputs k) x = Some (list_ref k x)" "list_ref k x \<in> set (k_input_lists k)"
    by (simp_all add: list_ref_def)
qed

lemma sum_store_upd:
  assumes "refs_ok k" "ref \<in> set (k_input_lists k)"
  shows "(\<Sum>r\<leftarrow>k_input_lists k. kept dumps (((k_lists k)(ref := xs)) r)) + kept dumps (k_lists k ref)
     = (\<Sum>r\<leftarrow>k_input_lists k. kept dumps (k_lists k r)) + kept dumps xs"
  by (rule sum_list_upd) (use assms in \<open>auto simp: refs_ok_def\<close>)

lemma inv_cut:
  assumes inv: "client_inv dumps inputs k" and n: "n \<in> set (k_nodes k)"
    and ph: "k_phase k (c_instance_name n) = Cut"
  shows "client_inv dumps inputs (cut_chunk dumps n k)"
proof (cases "next_chunk dumps (input_chunksize (k_nodes k) (k_n_inputs k) n) (inputs_of k (c_instance_name n))")
  case (Inl e)
  then show ?thesis using inv_raise [OF inv n] ph by (simp add: cut_chunk_def Let_def)
next
  case (Inr cr)
  obtain chunk rest where cr: "cr = (chunk, rest)" by (cases cr)
  let ?x = "c_instance_name n"
  let ?r = "list_ref k ?x"
  from next_chunk_split [OF Inr [unfolded cr]] obtain ys
    where ys: "k_lists k ?r = rest @ ys" "chunk = map (pickled dumps) (rev ys)" by (auto simp: inputs_of_def)
  show ?thesis
  proof (cases "chunk = []")
    case True
    then have "(k_lists k)(?r := rest) = k_lists k" using ys by (simp add: fun_upd_idem)
    then have "cut_chunk dumps n k = after_upload ?x [] k"
      using True Inr cr by (simp add: cut_chunk_def after_upload_def Let_def)
    then show ?thesis using inv_after_upload [OF inv n, of "[]"] ph by simp
  next
    case False
    define k' where "k' = set_kphase ?x (Upload chunk) (k\<lparr>k_lists := (k_lists k)(?r := rest)\<rparr>)"
    have "client_inv dumps inputs k'"
    proof (rule client_invI)
      show "names_ok k'" "refs_ok k'"
        using client_invD(1,2) [OF inv] by (simp_all add: k'_def names_ok_def refs_ok_def)
      show "barrier_ok k'"
        by (rule barrier_ok_phase [OF client_invD(3) [OF inv], where x = ?x and p = "Upload chunk"])
           (simp_all add: k'_def)
      show "lists_empty k'" if "k_inputs_done k'"
        using client_invD(4) [OF inv] that ys ref_of(2) [OF inv name_mem [OF n]]
        by (auto simp: k'_def lists_empty_def list_all_iff)
      show "total_result_count k' = int (length (k_return_queue k'))" "k_n_inputs k' = int (length inputs)"
        using client_invD(5,6) [OF inv] by (simp_all add: k'_def total_result_count_def)
      assume "\<not> crashed k'"
      then have "\<not> crashed k" by (rule crashed_other [of k' k ?x "Upload chunk", rotated -1]) (simp_all add: k'_def ph)
      moreover have "whereabouts dumps k' = whereabouts dumps k"
      proof -
        have "(\<Sum>r\<leftarrow>k_input_lists k. kept dumps (k_lists k' r)) + mset chunk
            = (\<Sum>r\<leftarrow>k_input_lists k. kept dumps (k_lists k r))"
          using sum_store_upd [OF client_invD(2) [OF inv] ref_of(2) [OF inv name_mem [OF n]], of dumps rest] ys
          by (simp add: k'_def kept_append)
        moreover have "(\<Sum>y\<leftarrow>names_of (k_nodes k). flying (k_phase k' y))
            = (\<Sum>y\<leftarrow>names_of (k_nodes k). flying (k_phase k y)) + mset chunk"
          using sum_list_upd [of "names_of (k_nodes k)" ?x flying "k_phase k" "Upload chunk"]
            client_invD(1) [OF inv] name_mem [OF n] ph
          by (simp add: k'_def names_ok_def)
        ultimately show ?thesis by (simp add: whereabouts_def k'_def ac_simps)
      qed
      ultimately show "whereabouts dumps k' = all_items dumps inputs" using client_invD(7) [OF inv] by simp
    qed
    then show ?thesis using False Inr cr by (simp add: cut_chunk_def k'_def Let_def)
  qed
qed

lemma inv_barrier:
  assumes inv: "client_inv dumps inputs k" and n: "n \<in> set (k_nodes k)"
    and ph: "k_phase k (c_instance_name n) = AtBarrier"
  shows "client_inv dumps inputs (set_kphase (c_instance_name n) Poll k)"
proof (rule inv_move [OF inv name_mem [OF n], where p = Poll])
  show "barrier_ok (set_kphase (c_instance_name n) Poll k)"
    by (rule barrier_ok_phase [OF client_invD(3) [OF inv], where x = "c_instance_name n" and p = Poll])
       (simp_all add: ph)
qed (use client_invD(5) [OF inv] ph in simp_all)

lemma inv_after_poll:
  assumes inv: "client_inv dumps inputs k" and n: "n \<in> set (k_nodes k)"
    and ph: "k_phase k (c_instance_name n) = Poll"
    and r: "poll_round re infra now a j d n = Inr (n', vs)"
  shows "client_inv dumps inputs (after_poll n' vs k)"
proof -
  note nm = poll_round_counts [OF r]
  define p where "p = (if c_state n' = DONE then Over else Cut)"
  have phase: "k_phase (after_poll n' vs k) = (k_phase k)(c_instance_name n := p)"
    using nm by (simp add: after_poll_def p_def)
  have names: "names_of (k_nodes (after_poll n' vs k)) = names_of (k_nodes k)"
    by (simp add: after_poll_def)
  have frame: "k_input_lists (after_poll n' vs k) = k_input_lists k" "k_lists (after_poll n' vs k) = k_lists k"
    "k_node_inputs (after_poll n' vs k) = k_node_inputs k" "k_known_names (after_poll n' vs k) = k_known_names k"
    "k_inputs_done (after_poll n' vs k) = k_inputs_done k" "k_n_inputs (after_poll n' vs k) = k_n_inputs k"
    "k_barrier (after_poll n' vs k) = k_barrier k" "k_initially_ready (after_poll n' vs k) = k_initially_ready k"
    "k_return_queue (after_poll n' vs k) = k_return_queue k @ vs" "k_uploaded (after_poll n' vs k) = k_uploaded k"
    by (simp_all add: after_poll_def)
  have "total_result_count (after_poll n' vs k) = total_result_count k + int (length vs)"
    using total_set_cnode [of "k\<lparr>k_return_queue := k_return_queue k @ vs\<rparr>" n n'] client_invD(1) [OF inv] n nm
    by (simp add: after_poll_def names_ok_def total_result_count_def)
  then show ?thesis
    using client_invD(5) [OF inv] ph
    by (intro inv_move [OF inv name_mem [OF n] _ phase names frame(1-6)]
        barrier_ok_phase [OF client_invD(3) [OF inv] frame(7,8) names phase])
       (auto simp: frame p_def)
qed

text \<open>Two lists exchange: the total over all of them stays.\<close>

lemma sum_move:
  assumes "distinct xs" "a \<in> set xs" "b \<in> set xs" "a \<noteq> b"
  shows "(\<Sum>r\<leftarrow>xs. kept dumps ((st(a := st a @ st b, b := [])) r)) = (\<Sum>r\<leftarrow>xs. kept dumps (st r))"
proof -
  have "(\<Sum>r\<leftarrow>xs. kept dumps (((st(a := st a @ st b))(b := [])) r)) + kept dumps (st b)
      = (\<Sum>r\<leftarrow>xs. kept dumps ((st(a := st a @ st b)) r))"
    using sum_list_upd [OF assms(1,3), of "kept dumps" "st(a := st a @ st b)" "[]"] assms(4)
    by (simp add: kept_def)
  moreover have "(\<Sum>r\<leftarrow>xs. kept dumps ((st(a := st a @ st b)) r)) + kept dumps (st a)
      = (\<Sum>r\<leftarrow>xs. kept dumps (st r)) + (kept dumps (st a) + kept dumps (st b))"
    using sum_list_upd [OF assms(1,2), of "kept dumps" st "st a @ st b"] by (simp add: kept_def)
  ultimately show ?thesis by (simp add: ac_simps)
qed

lemma recipient_cases:
  "recipient_of k ref = Some m \<Longrightarrow> m \<in> set (k_nodes k) \<and> is_active m \<and> list_ref k (c_instance_name m) \<noteq> ref"
  by (auto simp: recipient_of_def find_Some_iff)

lemma inv_store:
  assumes inv: "client_inv dumps inputs k"
    and s: "(\<Sum>r\<leftarrow>k_input_lists k. kept dumps (st r)) = (\<Sum>r\<leftarrow>k_input_lists k. kept dumps (k_lists k r))"
    and e: "lists_empty k \<Longrightarrow> list_all (\<lambda>r. st r = []) (k_input_lists k)"
  shows "client_inv dumps inputs (k\<lparr>k_lists := st\<rparr>)"
proof (rule client_invI)
  show "names_ok (k\<lparr>k_lists := st\<rparr>)" "refs_ok (k\<lparr>k_lists := st\<rparr>)"
    using client_invD(1,2) [OF inv] by (simp_all add: names_ok_def refs_ok_def)
  show "barrier_ok (k\<lparr>k_lists := st\<rparr>)" by (rule barrier_ok_same [OF client_invD(3) [OF inv]]) simp_all
  show "lists_empty (k\<lparr>k_lists := st\<rparr>)" if "k_inputs_done (k\<lparr>k_lists := st\<rparr>)"
    using client_invD(4) [OF inv] that e by (simp add: lists_empty_def)
  show "total_result_count (k\<lparr>k_lists := st\<rparr>) = int (length (k_return_queue (k\<lparr>k_lists := st\<rparr>)))"
    "k_n_inputs (k\<lparr>k_lists := st\<rparr>) = int (length inputs)"
    using client_invD(5,6) [OF inv] by (simp_all add: total_result_count_def)
  show "whereabouts dumps (k\<lparr>k_lists := st\<rparr>) = all_items dumps inputs" if "\<not> crashed (k\<lparr>k_lists := st\<rparr>)"
    using client_invD(7) [OF inv] that by (simp add: whereabouts_def s crashed_def)
qed

lemma inv_hand_over:
  assumes inv: "client_inv dumps inputs k" and n: "n \<in> set (k_nodes k)"
  shows "client_inv dumps inputs (hand_over k n) \<and> k_nodes (hand_over k n) = k_nodes k"
proof (cases "c_state n \<noteq> REMOVED \<or> k_lists k (list_ref k (c_instance_name n)) = []")
  case True
  then show ?thesis using inv by (auto simp: hand_over_def Let_def)
next
  case False
  let ?ref = "list_ref k (c_instance_name n)"
  show ?thesis
  proof (cases "recipient_of k ?ref")
    case None
    then show ?thesis using inv False by (simp add: hand_over_def Let_def)
  next
    case (Some m)
    let ?dst = "list_ref k (c_instance_name m)"
    from recipient_cases [OF Some] have m: "m \<in> set (k_nodes k)" "?dst \<noteq> ?ref" by auto
    have in_lists: "?dst \<in> set (k_input_lists k)" "?ref \<in> set (k_input_lists k)"
      using ref_of(2) [OF inv name_mem [OF m(1)]] ref_of(2) [OF inv name_mem [OF n]] by auto
    have d: "distinct (k_input_lists k)" using client_invD(2) [OF inv] by (simp add: refs_ok_def)
    have "client_inv dumps inputs
        (k\<lparr>k_lists := (k_lists k)(?dst := k_lists k ?dst @ k_lists k ?ref, ?ref := [])\<rparr>)"
    proof (rule inv_store [OF inv sum_move [OF d in_lists m(2)]])
      assume "lists_empty k"
      then show "list_all (\<lambda>r. ((k_lists k)(?dst := k_lists k ?dst @ k_lists k ?ref, ?ref := [])) r = [])
          (k_input_lists k)"
        using False in_lists by (auto simp: lists_empty_def list_all_iff)
    qed
    then show ?thesis using False Some by (simp add: hand_over_def Let_def)
  qed
qed

lemma inv_hand_over_leftovers:
  assumes "client_inv dumps inputs k"
  shows "client_inv dumps inputs (hand_over_leftovers k)"
proof -
  have "client_inv dumps inputs (foldl hand_over k' ns)"
    if "client_inv dumps inputs k'" "set ns \<subseteq> set (k_nodes k')" for k' ns
    using that
  proof (induction ns arbitrary: k')
    case (Cons n ns)
    from inv_hand_over [OF Cons.prems(1), of n] Cons.prems(2) show ?case
      by (auto intro!: Cons.IH)
  qed simp
  then show ?thesis using assms by (simp add: hand_over_leftovers_def)
qed

lemma inv_reset_clocks:
  assumes inv: "client_inv dumps inputs k"
  shows "client_inv dumps inputs (reset_clocks now since k)"
proof -
  have names: "names_of (k_nodes (reset_clocks now since k)) = names_of (k_nodes k)"
    by (simp add: reset_clocks_def reset_silence_clocks_after_suspend_def names_of_def comp_def)
  have tot: "total_result_count (reset_clocks now since k) = total_result_count k"
    by (simp add: reset_clocks_def reset_silence_clocks_after_suspend_def total_result_count_def comp_def)
  have frame: "k_input_lists (reset_clocks now since k) = k_input_lists k"
    "k_lists (reset_clocks now since k) = k_lists k" "k_phase (reset_clocks now since k) = k_phase k"
    "k_node_inputs (reset_clocks now since k) = k_node_inputs k"
    "k_known_names (reset_clocks now since k) = k_known_names k"
    "k_inputs_done (reset_clocks now since k) = k_inputs_done k"
    "k_n_inputs (reset_clocks now since k) = k_n_inputs k" "k_barrier (reset_clocks now since k) = k_barrier k"
    "k_initially_ready (reset_clocks now since k) = k_initially_ready k"
    "k_return_queue (reset_clocks now since k) = k_return_queue k"
    "k_uploaded (reset_clocks now since k) = k_uploaded k"
    by (simp_all add: reset_clocks_def)
  have "barrier_ok (reset_clocks now since k)"
    by (rule barrier_ok_same [OF client_invD(3) [OF inv]]) (simp_all add: frame names)
  then show ?thesis using inv
    by (simp add: client_inv_def names_ok_def refs_ok_def lists_empty_def crashed_def
        whereabouts_def names tot frame)
qed

lemma inv_told:
  assumes inv: "client_inv dumps inputs k" and "lists_empty k"
  shows "client_inv dumps inputs (k\<lparr>k_inputs_done := True\<rparr>)"
proof (rule client_invI)
  show "barrier_ok (k\<lparr>k_inputs_done := True\<rparr>)"
    by (rule barrier_ok_same [OF client_invD(3) [OF inv]]) simp_all
qed (use client_invD [OF inv] assms(2) in \<open>auto simp: names_ok_def refs_ok_def lists_empty_def
      crashed_def whereabouts_def total_result_count_def\<close>)

lemma inv_watch:
  assumes inv: "client_inv dumps inputs k" and w: "watch_front now since net k = Inr (k', told)"
  shows "client_inv dumps inputs k'"
proof -
  let ?k = "hand_over_leftovers (reset_clocks now since k)"
  have i: "client_inv dumps inputs ?k" by (intro inv_hand_over_leftovers inv_reset_clocks inv)
  from w have "k' = ?k \<or> k' = ?k\<lparr>k_inputs_done := True\<rparr> \<and> lists_empty ?k"
    by (auto simp: watch_front_def Let_def split: option.splits if_splits)
  then show ?thesis using i inv_told [OF i] by auto
qed

lemma inv_discover:
  assumes inv: "client_inv dumps inputs k"
    and f: "fresh \<notin> set (k_input_lists k) \<union> snd ` set (k_node_inputs k)"
  shows "client_inv dumps inputs (discover_node now fresh row k)"
proof -
  let ?x = "jn_instance_name row"
  let ?k1 = "k\<lparr>k_known_names := ?x # k_known_names k\<rparr>"
  have "barrier_ok ?k1" by (rule barrier_ok_same [OF client_invD(3) [OF inv]]) simp_all
  then have i1: "client_inv dumps inputs ?k1"
    using inv by (auto simp: client_inv_def names_ok_def refs_ok_def lists_empty_def crashed_def
        whereabouts_def total_result_count_def)
  show ?thesis
  proof (cases "?x \<in> set (k_known_names k) \<or> jn_status row \<notin> {Some BOOTING, Some READY}
      \<or> get_or 0 (jn_target_parallelism row) \<le> 0")
    case True
    then show ?thesis using inv i1 by (auto simp: discover_node_def Let_def)
  next
    case False
    let ?n = "(from_booting now ?x (get_or 0 (jn_target_parallelism row)))\<lparr>c_late_join := True\<rparr>"
    define k' where "k' = ?k1\<lparr>k_nodes := k_nodes k @ [?n], k_node_inputs := dset ?x fresh (k_node_inputs k),
      k_input_lists := k_input_lists k @ [fresh], k_lists := (k_lists k)(fresh := []),
      k_phase := (k_phase k)(?x := Boot)\<rparr>"
    have names: "names_of (k_nodes k') = names_of (k_nodes k) @ [?x]"
      by (simp add: k'_def names_of_def from_booting_def new_cnode_def)
    have x: "?x \<notin> set (names_of (k_nodes k))"
      using client_invD(1) [OF inv] False by (auto simp: names_ok_def)
    have same: "map (\<lambda>r. h (k_lists k' r)) (k_input_lists k) = map (\<lambda>r. h (k_lists k r)) (k_input_lists k)"
      for h :: "(int \<times> 'a) list \<Rightarrow> job_input multiset"
      using f by (auto simp: k'_def)
    have "client_inv dumps inputs k'"
    proof (rule client_invI)
      show "names_ok k'" using client_invD(1) [OF inv] x names by (auto simp: names_ok_def k'_def)
      show "refs_ok k'"
        using client_invD(2) [OF inv] f x unfolding refs_ok_def names
        by (auto simp: k'_def)
      show "barrier_ok k'"
        using client_invD(3) [OF inv] x unfolding barrier_ok_def names
        by (auto simp: k'_def split: option.splits)
      show "lists_empty k'" if "k_inputs_done k'"
        using client_invD(4) [OF inv] that f by (auto simp: k'_def lists_empty_def list_all_iff)
      show "total_result_count k' = int (length (k_return_queue k'))" "k_n_inputs k' = int (length inputs)"
        using client_invD(5,6) [OF inv]
        by (simp_all add: k'_def total_result_count_def from_booting_def new_cnode_def)
      assume "\<not> crashed k'"
      then have "\<not> crashed k"
      proof (rule contrapos_nn)
        assume "crashed k"
        then obtain y e where "y \<in> set (names_of (k_nodes k))" "k_phase k y = Crashed e"
          by (auto simp: crashed_def)
        then have "y \<in> set (names_of (k_nodes k'))" "k_phase k' y = Crashed e"
          using x by (auto simp: names) (auto simp: k'_def)
        then show "crashed k'" by (auto simp: crashed_def)
      qed
      moreover have "whereabouts dumps k' = whereabouts dumps k"
      proof -
        have s1: "(\<Sum>r\<leftarrow>k_input_lists k. kept dumps (k_lists k' r)) = (\<Sum>r\<leftarrow>k_input_lists k. kept dumps (k_lists k r))"
          by (rule arg_cong [OF same])
        have s2: "(\<Sum>y\<leftarrow>names_of (k_nodes k). flying (k_phase k' y)) = (\<Sum>y\<leftarrow>names_of (k_nodes k). flying (k_phase k y))"
          using x by (intro arg_cong [of _ _ sum_list] map_cong) (auto simp: k'_def)
        have e: "k_input_lists k' = k_input_lists k @ [fresh]" "k_lists k' fresh = []" "k_phase k' ?x = Boot"
          "k_uploaded k' = k_uploaded k" by (simp_all add: k'_def)
        show ?thesis by (simp add: whereabouts_def names e s1 s2) (simp add: kept_def)
      qed
      ultimately show "whereabouts dumps k' = all_items dumps inputs" using client_invD(7) [OF inv] by simp
    qed
    then show ?thesis using False by (simp add: discover_node_def k'_def Let_def)
  qed
qed

theorem client_step_inv:
  assumes "client_step dumps lh re infra job_id k k'" "client_inv dumps inputs k"
  shows "client_inv dumps inputs k'"
  using assms
proof (induction rule: client_step.induct)
  case (boot n k now data job n' waiting)
  then show ?case by (blast intro: inv_after_boot)
next
  case (boot_raised n k now data job e)
  then show ?case by (auto intro: inv_raise)
next
  case (assign n k packages now as n')
  then show ?case using name_assign_phase [OF assign(3)] by (auto intro: inv_after_assign)
next
  case (assign_raised n k packages now as e)
  then show ?case by (auto intro: inv_raise)
next
  case (cut n k)
  then show ?case by (auto intro: inv_cut)
next
  case (uploaded n k chunk posts)
  then show ?case by (auto intro: inv_after_upload)
next
  case (upload_raised n k chunk posts e)
  then show ?case by (auto intro: inv_raise)
next
  case (barrier n k b)
  then show ?case by (auto intro: inv_barrier)
next
  case (poll n k now answer job deleted n' vs)
  then show ?case by (blast intro: inv_after_poll)
next
  case (poll_raised n k now answer job deleted e)
  then show ?case by (auto intro: inv_raise)
next
  case (watch now last_loop_at net k k' told)
  then show ?case by (blast intro: inv_watch)
next
  case (discover fresh k now row)
  then show ?case by (auto intro: inv_discover)
qed

section \<open>The first state\<close>

lemma sum_shares:
  assumes "\<And>x. x \<in> set xs \<Longrightarrow> f x < N"
  shows "(\<Sum>d\<leftarrow>[0..<N]. image_mset g (mset (filter (\<lambda>x. f x = d) xs))) = image_mset g (mset xs)"
  using assms
proof (induction xs)
  case (Cons x xs)
  have "(\<Sum>d\<leftarrow>ds. image_mset g (mset (filter (\<lambda>y. f y = d) (x # xs))))
      = (\<Sum>d\<leftarrow>ds. image_mset g (mset (filter (\<lambda>y. f y = d) xs)))
        + (if f x \<in> set ds then {#g x#} else {#})" if "distinct ds" for ds
    using that by (induction ds) auto
  from this [of "[0..<N]"] Cons show ?case by simp
qed (induction N; simp)

lemma destinations_sub: "set (input_destinations ready) \<subseteq> set (map fst ready)"
  by (auto simp: input_destinations_def)

lemma split_inputs_kept:
  assumes s: "split_inputs ready inputs = Inr st" and sub: "set (map fst ready) \<subseteq> {0..<N}"
  shows "(\<Sum>d\<leftarrow>[0..<N]. kept dumps (st d)) = all_items dumps inputs"
proof -
  let ?dests = "input_destinations ready"
  have conv: "all_items dumps inputs = image_mset (pickled dumps) (mset (map (\<lambda>(j, v). (int j, v)) (enumerate 0 inputs)))"
    by (simp add: all_items_def pickled_def case_prod_unfold image_mset.compositionality comp_def flip: mset_map)
  show ?thesis
  proof (cases "?dests = []")
    case True
    then have "inputs = [] \<and> st = (\<lambda>_. [])"
      using s by (cases inputs) (auto simp: split_inputs_def comp_def)
    then show ?thesis by (induction N) (simp_all add: kept_def all_items_def)
  next
    case False
    define xs where "xs = map (\<lambda>(j, v). (int j, v)) (enumerate 0 inputs)"
    have st: "st = (\<lambda>d. rev (filter (\<lambda>(j, v). ?dests ! (nat j mod length ?dests) = d) xs))"
      using s by (auto simp: split_inputs_def deal_inputs_ok [OF False] xs_def comp_def)
    have "?dests ! (nat (fst x) mod length ?dests) < N" for x :: "int \<times> 'a"
    proof -
      have "?dests ! (nat (fst x) mod length ?dests) \<in> set ?dests" using False by simp
      then have "?dests ! (nat (fst x) mod length ?dests) \<in> {0..<N}"
        using destinations_sub [of ready] sub by blast
      then show ?thesis by simp
    qed
    from sum_shares [of xs "\<lambda>x. ?dests ! (nat (fst x) mod length ?dests)" N "pickled dumps", OF this]
    show ?thesis by (simp add: st kept_def case_prod_unfold conv xs_def)
  qed
qed

lemma shared_inputs_kept: "kept dumps (shared_inputs inputs) = all_items dumps inputs"
  by (simp add: kept_def shared_inputs_def all_items_def pickled_def case_prod_unfold
      image_mset.compositionality comp_def flip: mset_map)

lemma map_of_zip_names:
  "length refs = length xs \<Longrightarrow> x \<in> set xs \<Longrightarrow> \<exists>r \<in> set refs. map_of (zip xs refs) x = Some r"
  by (induction refs xs rule: list_induct2) auto

theorem first_client_inv:
  assumes f: "first_client now lh resp inputs = Inr (Inr k)"
    and d: "distinct (map rc_instance_name (sr_ready_nodes resp) @ map fst (sr_booting_nodes resp))"
  shows "client_inv dumps inputs k"
proof -
  define ready where "ready = map (\<lambda>c. from_ready now (rc_instance_name c) (map_option lh (rc_host c))
                        (rc_machine_type c) (rc_target_parallelism c)) (sr_ready_nodes resp)"
  define booting where "booting = map (\<lambda>(x, p). from_booting now x p) (sr_booting_nodes resp)"
  let ?ns = "ready @ booting"
  define start where "start = (\<lambda>refs (store :: nat \<Rightarrow> (int \<times> 'a) list). \<lparr>k_n_inputs = int (length inputs), k_nodes = ?ns,
            k_phase = (\<lambda>x. if x \<in> set (names_of ready) then Assign else Boot),
            k_booting = names_of booting, k_node_inputs = zip (names_of ?ns) refs,
            k_input_lists = remdups refs, k_lists = store,
            k_barrier = (if ready = [] then None
                         else Some \<lparr>b_parties = length ready, b_arrived = [], b_broken = False\<rparr>),
            k_initially_ready = names_of ready, k_known_names = names_of ?ns, k_inputs_done = False,
            k_return_queue = [], k_uploaded = []\<rparr>)"
  have nr: "names_of ready = map rc_instance_name (sr_ready_nodes resp)"
    by (simp add: names_of_def ready_def from_ready_def new_cnode_def comp_def)
  have nb: "names_of booting = map fst (sr_booting_nodes resp)"
    by (simp add: names_of_def booting_def from_booting_def new_cnode_def comp_def case_prod_unfold)
  have names: "names_of ?ns = names_of ready @ names_of booting" by (simp add: names_of_def)
  have dist: "distinct (names_of ?ns)" using d by (simp only: names nr nb)
  have counts: "(\<Sum>n\<leftarrow>?ns. c_result_count n) = 0"
    by (simp add: ready_def booting_def from_ready_def from_booting_def new_cnode_def comp_def case_prod_unfold)
  have fl: "(\<Sum>x\<leftarrow>xs. flying (if x \<in> A then Assign else Boot)) = {#}" for xs :: "string list" and A
    by (induction xs) auto
  have start_inv: "client_inv dumps inputs (start refs store)"
    if l: "length refs = length ?ns" and s: "(\<Sum>r\<leftarrow>remdups refs. kept dumps (store r)) = all_items dumps inputs"
    for refs store
  proof (rule client_invI)
    show "names_ok (start refs store)" using dist by (simp add: names_ok_def start_def)
    show "refs_ok (start refs store)"
      using map_of_zip_names [of refs "names_of ?ns"] l by (auto simp: refs_ok_def start_def names_of_def)
    show "barrier_ok (start refs store)"
      using dist by (auto simp: barrier_ok_def start_def names) (simp_all add: names_of_def)
    show "total_result_count (start refs store) = int (length (k_return_queue (start refs store)))"
      using counts by (simp add: total_result_count_def start_def)
    show "whereabouts dumps (start refs store) = all_items dumps inputs"
      by (simp add: whereabouts_def start_def s fl)
  qed (simp_all add: start_def)
  show ?thesis
  proof (cases "ready = []")
    case False
    then obtain st where st: "split_inputs (zip [0..<length ready] (map c_target_parallelism ready)) inputs = Inr st"
      and k: "k = start [0..<length ?ns] st"
      using f by (auto simp: first_client_def ready_def [symmetric] booting_def [symmetric] start_def Let_def
          bind_err_eq_Inr split: if_splits)
    have "set (map fst (zip [0..<length ready] (map c_target_parallelism ready))) \<subseteq> {0..<length ?ns}"
      by (auto dest: set_zip_leftD)
    from split_inputs_kept [OF st this, of dumps] start_inv [of "[0..<length ?ns]" st] k show ?thesis by simp
  next
    case True
    then have k: "k = start (map (\<lambda>_. 0) ?ns) ((\<lambda>_. [])(0 := shared_inputs inputs))" and ne: "?ns \<noteq> []"
      using f by (auto simp: first_client_def ready_def [symmetric] booting_def [symmetric] start_def Let_def
          split: if_splits)
    have "remdups (map (\<lambda>_. 0::nat) ms) = [0]" if "ms \<noteq> []" for ms :: "cnode list"
      using that by (induction ms rule: list_nonempty_induct) (auto simp: image_constant_conv)
    from this [OF ne] have "remdups (map (\<lambda>_. 0::nat) ?ns) = [0]" .
    with start_inv [of "map (\<lambda>_. 0) ?ns" "(\<lambda>_. [])(0 := shared_inputs inputs)"] k shared_inputs_kept [of dumps inputs]
    show ?thesis by simp
  qed
qed

end
