(* ===== verification/Client_Net.thy ===== *)
theory Client_Net
  imports Client_Inputs Input_Claims
begin

text \<open>
  The client's real polling loop on top of the network of nodes: what \<open>Input_Net\<close> says a client keeps
  of a poll is what \<open>_gather_results\<close> and \<open>execute_job\<close> keep, lost polls included, so the return queue
  holds exactly the results the network delivered.
\<close>

section \<open>One round\<close>

lemma take_results_indices:
  "take_results re infra name rs = Inr vs \<Longrightarrow> map fst vs = map fst rs"
  by (induction re infra name rs arbitrary: vs rule: take_results.induct)
     (auto simp: bind_err_eq_Inr split: if_splits)

lemma absorb_results_ack:
  assumes "absorb_results re infra r n = Inr (n', vs)" "\<And>k rs. gr_batch r = Some (k, rs) \<Longrightarrow> k \<noteq> []"
  shows "map fst vs = map fst (batch_results r)"
    and "c_result_batch_id_to_ack n' = (case gr_batch r of None \<Rightarrow> c_result_batch_id_to_ack n | Some (k, rs) \<Rightarrow> Some k)"
proof -
  from assms(1) obtain ws where w: "take_results re infra (c_instance_name n) (batch_results r) = Inr ws"
    unfolding absorb_results_def bind_err_eq_Inr by blast
  with assms have "vs = ws"
    "c_result_batch_id_to_ack n' = (case gr_batch r of None \<Rightarrow> c_result_batch_id_to_ack n | Some (k, rs) \<Rightarrow> Some k)"
    by (cases "gr_batch r"; auto simp: absorb_results_def Let_def)+
  with take_results_indices [OF w] show "map fst vs = map fst (batch_results r)"
    "c_result_batch_id_to_ack n' = (case gr_batch r of None \<Rightarrow> c_result_batch_id_to_ack n | Some (k, rs) \<Rightarrow> Some k)"
    by simp_all
qed

text \<open>A poll that was answered: afterwards the client acknowledges the batch it got, or nothing.\<close>

lemma poll_round_answered:
  assumes "poll_round re infra now (Response (200, Some r)) ja da n = Inr (n', vs)"
    "\<And>k rs. gr_batch r = Some (k, rs) \<Longrightarrow> k \<noteq> []"
    "\<And>k. c_result_batch_id_to_ack n = Some k \<Longrightarrow> k \<noteq> []"
  shows "map fst vs = map fst (batch_results r)" "c_result_batch_id_to_ack n' = map_option fst (gr_batch r)"
proof -
  obtain n1 r' where g: "gather_results now (Response (200, Some r)) ja da n = Inr (n1, r')"
    and a: "absorb_results re infra r' n1 = Inr (n', vs)"
    using assms(1) by (auto simp: poll_round_def bind_err_eq_Inr)
  have "r' = r" "c_result_batch_id_to_ack n1 = None"
    using g assms(3) by (auto simp: gather_results_def Let_def truthy_def split: option.splits if_splits)
  with absorb_results_ack [OF a] assms(2)
  show "map fst vs = map fst (batch_results r)" "c_result_batch_id_to_ack n' = map_option fst (gr_batch r)"
    by (auto split: option.splits)
qed

text \<open>A poll without an answer changes neither what is to be acknowledged nor the results.\<close>

lemma poll_round_lost:
  assumes "poll_round re infra now NetworkError ja da n = Inr (n', vs)"
  shows "vs = []" "c_result_batch_id_to_ack n' = c_result_batch_id_to_ack n"
proof -
  obtain n1 r where g: "gather_results now NetworkError ja da n = Inr (n1, r)"
    and a: "absorb_results re infra r n1 = Inr (n', vs)"
    using assms(1) by (auto simp: poll_round_def bind_err_eq_Inr)
  have r: "gr_batch r = None" "c_result_batch_id_to_ack n1 = c_result_batch_id_to_ack n"
    using g by (auto simp: gather_results_def done_node_results_def empty_node_results_def Let_def
        split: option.splits if_splits)
  from absorb_results_ack [OF a] r show "vs = []" "c_result_batch_id_to_ack n' = c_result_batch_id_to_ack n"
    by (auto simp: batch_results_def)
qed

section \<open>Nodes and polling client together\<close>

text \<open>
  The state is the network, the client's nodes and its return queue. \<open>others\<close> is any step of the
  network but an answered poll; the identifiers of batches are never empty.
\<close>

inductive poll_step ::
  "bool \<Rightarrow> (string \<Rightarrow> bool) \<Rightarrow> string list \<Rightarrow> string
    \<Rightarrow> job_net \<times> (string \<Rightarrow> cnode) \<times> (int \<times> return_value) list
    \<Rightarrow> job_net \<times> (string \<Rightarrow> cnode) \<times> (int \<times> return_value) list \<Rightarrow> bool"
  for raise_errors infra names job where
  others: "net_step names job y y' \<Longrightarrow> y_client y' = y_client y \<Longrightarrow> y_received y' = y_received y \<Longrightarrow>
    poll_step raise_errors infra names job (y, cs, q) (y', cs, q)"
| answered: "x \<in> set names \<Longrightarrow> (x, uuid) \<notin> y_got y \<Longrightarrow>
    get_results uuid (y_node y x) job (c_result_batch_id_to_ack (cs x)) = (s', Some r) \<Longrightarrow>
    \<forall>k rs. gr_batch r = Some (k, rs) \<longrightarrow> k \<noteq> [] \<Longrightarrow>
    poll_round raise_errors infra now (Response (200, Some r)) ja da (cs x) = Inr (n', vs) \<Longrightarrow>
    poll_step raise_errors infra names job (y, cs, q)
      (client_receives x (gr_batch r) (set_node x s' y), cs(x := n'), q @ vs)"
| unanswered: "x \<in> set names \<Longrightarrow>
    poll_round raise_errors infra now NetworkError ja da (cs x) = Inr (n', vs) \<Longrightarrow>
    poll_step raise_errors infra names job (y, cs, q) (y, cs(x := n'), q @ vs)"

definition poll_start :: "string list \<Rightarrow> job_net \<times> (string \<Rightarrow> cnode) \<times> (int \<times> return_value) list \<Rightarrow> bool" where
  "poll_start names = (\<lambda>(y, cs, q). net_init names y \<and> q = []
     \<and> (\<forall>x \<in> set names. c_result_batch_id_to_ack (cs x) = None))"

definition poll_inv :: "string list \<Rightarrow> string \<Rightarrow> job_net \<times> (string \<Rightarrow> cnode) \<times> (int \<times> return_value) list \<Rightarrow> bool" where
  "poll_inv names job = (\<lambda>(y, cs, q). net_reach names job y \<and> mset (map fst q) = y_received y
     \<and> (\<forall>x \<in> set names. c_result_batch_id_to_ack (cs x) = y_client y x)
     \<and> (\<forall>x \<in> set names. \<forall>k. y_client y x = Some k \<longrightarrow> k \<noteq> []))"

lemma poll_start_inv: "poll_start names p \<Longrightarrow> poll_inv names job p"
  by (auto simp: poll_start_def poll_inv_def net_init_def intro: net_reach.init)

lemma poll_step_inv:
  assumes "poll_step re infra names job p p'" "poll_inv names job p"
  shows "poll_inv names job p'"
  using assms
proof (induction rule: poll_step.induct)
  case (others y y' cs q)
  then show ?case by (auto simp: poll_inv_def intro: net_reach.step)
next
  case (answered x uuid y cs s' r now ja da n' vs q)
  let ?y = "client_receives x (gr_batch r) (set_node x s' y)"
  have reach: "net_reach names job y" and ack: "c_result_batch_id_to_ack (cs x) = y_client y x"
    and ne: "\<And>k. c_result_batch_id_to_ack (cs x) = Some k \<Longrightarrow> k \<noteq> []"
    using answered(1,6) by (auto simp: poll_inv_def)
  have "net_step names job y ?y"
    by (rule net_step.poll [OF answered(1,2)]) (use answered(3) ack in simp)
  then have reach': "net_reach names job ?y" by (rule net_reach.step [OF reach])
  have ids: "\<And>k rs. gr_batch r = Some (k, rs) \<Longrightarrow> k \<noteq> []" using answered(4) by blast
  note pr = poll_round_answered [OF answered(5) ids ne]
  have "mset (map fst vs) = (case gr_batch r of None \<Rightarrow> {#} | Some (k, rs) \<Rightarrow> mset (map fst rs))"
    using arg_cong [OF pr(1), where f = mset] by (cases "gr_batch r") (auto simp: batch_results_def)
  then have "mset (map fst (q @ vs)) = y_received ?y"
    using answered(6) by (simp add: poll_inv_def client_receives_def)
  then show ?case
    using reach' answered(6) pr(2) ids by (auto simp: poll_inv_def client_receives_def)
next
  case (unanswered x now ja da cs n' vs y q)
  from poll_round_lost [OF unanswered(2)] unanswered(1,3) show ?case by (auto simp: poll_inv_def)
qed

lemma poll_run_inv:
  "(poll_step re infra names job)\<^sup>*\<^sup>* p p' \<Longrightarrow> poll_inv names job p \<Longrightarrow> poll_inv names job p'"
  by (induction rule: rtranclp_induct) (auto intro: poll_step_inv)

end
