(* ===== verification/Client_Claims.thy ===== *)
theory Client_Claims
  imports Client_Net
begin

text \<open>
  The properties of the client: inputs are dealt out in proportion to slots and cut into bounded
  chunks, none is lost or uploaded twice, the barrier before the first poll never blocks for ever, and
  the return queue ends with every result exactly once.
\<close>

section \<open>A run\<close>

text \<open>Two inputs, one ready node with two slots: it is assigned the job and uploads its first chunk.\<close>

definition run_response :: start_response where
  "run_response = \<lparr>sr_ready_nodes = [\<lparr>rc_instance_name = ''n1'', rc_host = Some ''h'',
     rc_machine_type = ''n4-standard-2'', rc_target_parallelism = 2\<rparr>], sr_booting_nodes = []\<rparr>"

definition run_node :: "client_state \<Rightarrow> string option \<Rightarrow> cnode" where
  "run_node st job = (from_ready 0 ''n1'' (Some ''h'') ''n4-standard-2'' 2)\<lparr>c_state := st, c_job_id := job\<rparr>"

definition run_client :: "client_state \<Rightarrow> string option \<Rightarrow> phase \<Rightarrow> (int \<times> string) list \<Rightarrow> job_input list \<Rightarrow> string client" where
  "run_client st job p xs up =
     \<lparr>k_n_inputs = 2, k_nodes = [run_node st job], k_phase = (\<lambda>x. if x = ''n1'' then p else Boot),
      k_booting = [], k_node_inputs = [(''n1'', 0)], k_input_lists = [0], k_lists = (\<lambda>_. [])(0 := xs),
      k_barrier = Some \<lparr>b_parties = 1, b_arrived = (if p = AtBarrier then [''n1''] else []), b_broken = False\<rparr>,
      k_initially_ready = (if p = AtBarrier then [] else [''n1'']), k_known_names = [''n1''],
      k_inputs_done = False, k_return_queue = [], k_uploaded = up\<rparr>"

lemma run_client_simps:
  "k_nodes (run_client st job p xs up) = [run_node st job]" "c_instance_name (run_node st job) = ''n1''"
  "k_phase (run_client st job p xs up) ''n1'' = p"
  by (simp_all add: run_client_def run_node_def from_ready_def new_cnode_def)

lemma run_first:
  "first_client 0 id run_response [''a'', ''b''] = Inr (Inr (run_client (Status READY) None Assign [(1, ''b''), (0, ''a'')] []))"
proof -
  have "input_destinations [(0, 2)] = [0, 0]" by code_simp
  then show ?thesis
    by (auto simp: first_client_def run_response_def run_client_def run_node_def from_ready_def new_cnode_def
      names_of_def split_inputs_def Let_def fun_eq_iff)
qed

lemma run_assigned:
  "client_step id id True (\<lambda>_. False) ''j'' (run_client (Status READY) None Assign xs up)
     (run_client (Status RUNNING) (Some ''j'') Cut xs up)"
proof -
  have a: "assign_phase False ''j'' 0 [(0, Response (200, []))] (run_node (Status READY) None)
      = Some (Inr (run_node (Status RUNNING) (Some ''j'')))"
    by (simp add: assign_phase_def assign_job_def assignment_reply_def run_node_def from_ready_def new_cnode_def Let_def)
  have k: "after_assign (run_node (Status RUNNING) (Some ''j'')) (run_client (Status READY) None Assign xs up)
      = run_client (Status RUNNING) (Some ''j'') Cut xs up"
    by (simp add: after_assign_def run_client_def set_cnode_def set_kphase_def run_node_def from_ready_def
        new_cnode_def fun_eq_iff)
  have "client_step id id True (\<lambda>_. False) ''j'' (run_client (Status READY) None Assign xs up)
      (after_assign (run_node (Status RUNNING) (Some ''j'')) (run_client (Status READY) None Assign xs up))"
    by (rule client_step.assign [OF _ _ a]) (simp_all add: run_client_simps)
  then show ?thesis by (simp only: k)
qed

lemma run_cut:
  "client_step id id True (\<lambda>_. False) ''j'' (run_client (Status RUNNING) (Some ''j'') Cut [(1, ''b''), (0, ''a'')] [])
     (run_client (Status RUNNING) (Some ''j'') (Upload [(0, ''a''), (1, ''b'')]) [] [])"
proof -
  have k: "cut_chunk id (run_node (Status RUNNING) (Some ''j''))
      (run_client (Status RUNNING) (Some ''j'') Cut [(1, ''b''), (0, ''a'')] [])
      = run_client (Status RUNNING) (Some ''j'') (Upload [(0, ''a''), (1, ''b'')]) [] []"
    by (simp add: cut_chunk_def next_chunk_def input_chunksize_def total_parallelism_def is_active_def
        inputs_of_def list_ref_def run_client_def set_kphase_def run_node_def from_ready_def new_cnode_def
        MAX_INPUT_SIZE_BYTES_def MAX_CHUNK_SIZE_BYTES_def Let_def fun_eq_iff)
  show ?thesis
    unfolding k [symmetric] by (rule client_step.cut) (simp_all add: run_client_simps)
qed

lemma run_uploaded:
  "client_step id id True (\<lambda>_. False) ''j''
     (run_client (Status RUNNING) (Some ''j'') (Upload [(0, ''a''), (1, ''b'')]) [] [])
     (run_client (Status RUNNING) (Some ''j'') AtBarrier [] [(0, ''a''), (1, ''b'')])"
proof -
  have u: "upload_input_chunk 0 [Response (200, [])] = Some (Inr ())" by simp
  have k: "after_upload ''n1'' [(0, ''a''), (1, ''b'')]
      (run_client (Status RUNNING) (Some ''j'') (Upload [(0, ''a''), (1, ''b'')]) [] [])
      = run_client (Status RUNNING) (Some ''j'') AtBarrier [] [(0, ''a''), (1, ''b'')]"
    by (simp add: after_upload_def to_poll_def barrier_arrive_def set_kphase_def run_client_def fun_eq_iff)
  have "client_step id id True (\<lambda>_. False) ''j''
      (run_client (Status RUNNING) (Some ''j'') (Upload [(0, ''a''), (1, ''b'')]) [] [])
      (after_upload (c_instance_name (run_node (Status RUNNING) (Some ''j''))) [(0, ''a''), (1, ''b'')]
        (run_client (Status RUNNING) (Some ''j'') (Upload [(0, ''a''), (1, ''b'')]) [] []))"
    by (rule client_step.uploaded [OF _ _ u]) (simp_all add: run_client_simps)
  then show ?thesis by (simp only: k run_client_simps)
qed

lemma run_steps:
  "(client_step id id True (\<lambda>_. False) ''j'')\<^sup>*\<^sup>* (run_client (Status READY) None Assign [(1, ''b''), (0, ''a'')] [])
     (run_client (Status RUNNING) (Some ''j'') AtBarrier [] [(0, ''a''), (1, ''b'')])"
proof -
  have "(client_step id id True (\<lambda>_. False) ''j'')\<^sup>*\<^sup>*
      (run_client (Status READY) None Assign [(1, ''b''), (0, ''a'')] [])
      (run_client (Status RUNNING) (Some ''j'') Cut [(1, ''b''), (0, ''a'')] [])"
    using run_assigned by (rule r_into_rtranclp)
  then have "(client_step id id True (\<lambda>_. False) ''j'')\<^sup>*\<^sup>*
      (run_client (Status READY) None Assign [(1, ''b''), (0, ''a'')] [])
      (run_client (Status RUNNING) (Some ''j'') (Upload [(0, ''a''), (1, ''b'')]) [] [])"
    by (rule rtranclp.rtrancl_into_rtrancl) (rule run_cut)
  then show ?thesis by (rule rtranclp.rtrancl_into_rtrancl) (rule run_uploaded)
qed

lemma client_run_inv:
  assumes "first_client now lh resp inputs = Inr (Inr k0)"
    "distinct (map rc_instance_name (sr_ready_nodes resp) @ map fst (sr_booting_nodes resp))"
    "(client_step dumps lh raise_errors infra job_id)\<^sup>*\<^sup>* k0 k"
  shows "client_inv dumps inputs k"
  using assms(3) first_client_inv [OF assms(1,2), of dumps]
  by (induction rule: rtranclp_induct) (auto intro: client_step_inv)

section \<open>Inputs\<close>

text \<open>
  C4. As long as no task has raised, every input of the job, pickled, is in exactly one place: in one of
  the lists, in one chunk being uploaded, or uploaded. Once the head was told that all inputs are
  uploaded every list is empty for good, and the results counted are those in the return queue.
\<close>

theorem client_loses_no_input:
  assumes "first_client now lh resp inputs = Inr (Inr k0)"
    "distinct (map rc_instance_name (sr_ready_nodes resp) @ map fst (sr_booting_nodes resp))"
    "(client_step dumps lh raise_errors infra job_id)\<^sup>*\<^sup>* k0 k"
  shows "(\<not> crashed k \<longrightarrow> whereabouts dumps k = all_items dumps inputs)
    \<and> (k_inputs_done k \<longrightarrow> (\<forall>ref \<in> set (k_input_lists k). k_lists k ref = []))
    \<and> total_result_count k = int (length (k_return_queue k))"
  using client_invD [OF client_run_inv [OF assms]] by (auto simp: lists_empty_def list_all_iff)

theorem client_loses_no_input_witness:
  "whereabouts id (run_client (Status RUNNING) (Some ''j'') AtBarrier [] [(0, ''a''), (1, ''b'')])
     = all_items id [''a'', ''b'']"
proof -
  have "\<not> crashed (run_client (Status RUNNING) (Some ''j'') AtBarrier [] [(0, ''a''), (1, ''b'')])"
    by (simp add: crashed_def run_client_def run_node_def names_of_def from_ready_def new_cnode_def)
  with client_loses_no_input [OF run_first _ run_steps] show ?thesis by (simp add: run_response_def)
qed

text \<open>
  The inputs are dealt out in proportion to slots: a ready node with \<open>p\<close> of the \<open>D\<close> slots gets
  between \<open>p * (n div D)\<close> and \<open>p * (n div D) + p\<close> of the \<open>n\<close> inputs, those whose slot is its own, in
  the order it will pop them.
\<close>

theorem inputs_dealt_by_slots:
  assumes "split_inputs ready inputs = Inr st" "distinct (map fst ready)" "(ref, p) \<in> set ready" "0 \<le> p"
    "input_destinations ready \<noteq> []"
  shows "rev (st ref) = filter (\<lambda>(j, v). input_destinations ready ! (nat j mod length (input_destinations ready)) = ref)
      (map (\<lambda>(j, v). (int j, v)) (enumerate 0 inputs))
    \<and> nat p * (length inputs div length (input_destinations ready)) \<le> length (st ref)
    \<and> length (st ref) \<le> nat p * (length inputs div length (input_destinations ready)) + nat p"
proof -
  let ?own = "\<lambda>i. input_destinations ready ! (i mod length (input_destinations ready)) = ref"
  have s: "rev (st ref) = filter (\<lambda>(j, v). ?own (nat j)) (map (\<lambda>(j, v). (int j, v)) (enumerate 0 inputs))"
    using assms(1) by (auto simp: split_inputs_def deal_inputs_ok [OF assms(5)])
  have "length (st ref) = share_of (input_destinations ready) (length inputs) ref"
    using filter_enumerate_length [of ?own 0 inputs] arg_cong [OF s, of length] by (simp add: share_of_def)
  then show ?thesis
    using s share_of_bounds [OF assms(5), of ref "length inputs"] count_destinations [OF assms(2-4)] by simp
qed

theorem inputs_dealt_by_slots_witness:
  "\<exists>st. split_inputs [(0, 2), (1, 1)] [''a'', ''b'', ''c'', ''d''] = Inr st \<and> st 0 = [(3, ''d''), (2, ''c''), (0, ''a'')]
     \<and> length (st 0) \<le> 4"
proof -
  have d: "input_destinations [(0, 2), (1, 1)] = [0, 1, 0]" by code_simp
  obtain st0 where "deal_inputs [0, 1, 0] 0 [''a'', ''b'', ''c'', ''d''] (\<lambda>_. []) = Inr st0"
    using deal_inputs_ok [of "[0, 1, 0]"] by blast
  then have "split_inputs [(0, 2), (1, 1)] [''a'', ''b'', ''c'', ''d''] = Inr (rev \<circ> st0)"
    by (simp only: split_inputs_def d bind_err_Inr)
  then obtain st where st: "split_inputs [(0, 2), (1, 1)] [''a'', ''b'', ''c'', ''d''] = Inr st" by blast
  from inputs_dealt_by_slots [OF st, of 0 2] have "rev (st 0) = [(0, ''a''), (2, ''c''), (3, ''d'')]" "length (st 0) \<le> 4"
    by (simp_all add: d [unfolded One_nat_def])
  moreover from this(1) have "st 0 = [(3, ''d''), (2, ''c''), (0, ''a'')]" by (metis rev_rev_ident rev.simps append_Nil append_Cons)
  ultimately show ?thesis using st by blast
qed

text \<open>
  A chunk is the end of its list in popping order, within the number and size limits unless it is
  one input alone, and not empty while there are inputs and slots; cutting fails only on an input that
  is too large by itself. So repeated cutting ends with the list empty.
\<close>

theorem chunks_are_bounded:
  assumes "next_chunk dumps limit xs = r" "0 < limit"
  shows "(case r of
       Inl e \<Rightarrow> \<exists>i v. (i, v) \<in> set xs \<and> e = InputTooBig i \<and> int (length (dumps v)) > MAX_INPUT_SIZE_BYTES
     | Inr (chunk, rest) \<Rightarrow>
         (\<exists>ys. xs = rest @ ys \<and> chunk = map (pickled dumps) (rev ys))
         \<and> int (length chunk) \<le> limit \<and> (length chunk \<le> 1 \<or> bytes_of chunk \<le> MAX_CHUNK_SIZE_BYTES)
         \<and> (xs \<noteq> [] \<longrightarrow> length rest < length xs))"
proof (cases r)
  case (Inl e)
  have "\<exists>i v. (i, v) \<in> set xs \<and> e = InputTooBig i \<and> int (length (dumps v)) > MAX_INPUT_SIZE_BYTES"
    using assms(1) take_chunk_error [of dumps limit 0 "[]" "rev xs" e]
    by (auto simp: Inl next_chunk_def bind_err_eq_Inl)
  then show ?thesis by (simp add: Inl)
next
  case (Inr cr)
  obtain chunk rest where cr: "cr = (chunk, rest)" by (cases cr)
  have n: "next_chunk dumps limit xs = Inr (chunk, rest)" using assms(1) Inr cr by simp
  from next_chunk_split [OF n] obtain ys where ys: "xs = rest @ ys" "chunk = map (pickled dumps) (rev ys)" by blast
  moreover have "length rest < length xs" if "xs \<noteq> []"
    using next_chunk_progress [OF n that assms(2)] ys by auto
  ultimately show ?thesis using next_chunk_bounds [OF n] assms(2) by (auto simp: Inr cr)
qed

theorem chunks_are_bounded_witness:
  "\<exists>ys. [(2, ''c''), (1, ''b''), (0, ''a'')] = [(2, ''c'')] @ ys \<and> [(0, ''a''), (1, ''b'')] = map (pickled id) (rev ys)"
proof -
  have "next_chunk id 2 [(2, ''c''), (1, ''b''), (0, ''a'')] = Inr ([(0, ''a''), (1, ''b'')], [(2, ''c'')])"
    by (simp add: next_chunk_def MAX_INPUT_SIZE_BYTES_def MAX_CHUNK_SIZE_BYTES_def)
  from chunks_are_bounded [OF this] show ?thesis by simp
qed

section \<open>The barrier\<close>

text \<open>
  The barrier before the first poll blocks nobody for ever: whenever a task waits there and cannot
  pass, an initially ready node is still assigning, cutting or uploading, or its task has raised and
  the loop ends the job.
\<close>

theorem first_chunk_barrier_opens:
  assumes "first_client now lh resp inputs = Inr (Inr k0)"
    "distinct (map rc_instance_name (sr_ready_nodes resp) @ map fst (sr_booting_nodes resp))"
    "(client_step dumps lh raise_errors infra job_id)\<^sup>*\<^sup>* k0 k"
    "k_phase k x = AtBarrier" "k_barrier k = Some b"
  shows "barrier_open b \<or> (\<exists>y \<in> set (names_of (k_nodes k)). on_the_way (k_phase k y))"
proof (cases "b_broken b")
  case False
  note ok = client_invD(3) [OF client_run_inv [OF assms(1-3)]]
  show ?thesis
  proof (cases "k_initially_ready k")
    case Nil
    then show ?thesis using ok False assms(5) by (simp add: barrier_ok_def barrier_open_def)
  next
    case (Cons y ys)
    then show ?thesis using ok False assms(5) by (auto simp: barrier_ok_def)
  qed
qed (simp add: barrier_open_def)

theorem first_chunk_barrier_opens_witness:
  "barrier_open \<lparr>b_parties = 1, b_arrived = [''n1''], b_broken = False\<rparr>"
proof -
  let ?k = "run_client (Status RUNNING) (Some ''j'') AtBarrier [] [(0, ''a''), (1, ''b'')]"
  have "k_phase ?k ''n1'' = AtBarrier" "k_barrier ?k = Some \<lparr>b_parties = 1, b_arrived = [''n1''], b_broken = False\<rparr>"
    "\<not> (\<exists>y \<in> set (names_of (k_nodes ?k)). on_the_way (k_phase ?k y))"
    by (simp_all add: run_client_def run_node_def names_of_def from_ready_def new_cnode_def)
  with first_chunk_barrier_opens [OF run_first _ run_steps] show ?thesis by (simp add: run_response_def)
qed

section \<open>Results\<close>


text \<open>The life of a one-input job on one node, seen by the real polling loop.\<close>

definition life_client :: "string option \<Rightarrow> int \<Rightarrow> string \<Rightarrow> cnode" where
  "life_client ack results x = (new_cnode 0 x (Status RUNNING) (Some x) None 1)\<lparr>c_job_id := Some ''j'',
     c_result_batch_id_to_ack := ack, c_result_count := results, c_last_result_poll_timestamp := Some 0\<rparr>"

definition life_reply :: "(string \<times> job_result list) option \<Rightarrow> results_reply" where
  "life_reply batch = (empty_node_results (life_client None 0 ''a''))\<lparr>gr_batch := batch\<rparr>"

lemma life_replies:
  "get_results ''u1'' life_finished ''j'' None = (life_handed, Some (life_reply (Some (''u1'', [(0, False, ''r'')]))))"
  "get_results ''u2'' life_handed ''j'' (Some ''u1'') = (life_acked, Some (life_reply None))"
  by (simp_all add: life_defs poll_defs worker_reduction_def alive_workers_def life_reply_def
      empty_node_results_def life_client_def new_cnode_def MAX_LOG_DOCUMENTS_PER_RESULTS_RESPONSE_def)

lemmas round_defs = poll_round_def gather_results_def absorb_results_def poll_signals_def batch_results_def
  empty_node_results_def new_cnode_def Let_def

lemma life_rounds:
  "poll_round True (\<lambda>_. False) 0 (Response (200, Some (life_reply (Some (''u1'', [(0, False, ''r'')])))))
     NetworkError NetworkError (life_client None 0 ''a'') = Inr (life_client (Some ''u1'') 1 ''a'', [(0, Returned ''r'')])"
  "poll_round True (\<lambda>_. False) 0 (Response (200, Some (life_reply None)))
     NetworkError NetworkError (life_client (Some ''u1'') 1 ''a'') = Inr (life_client None 1 ''a'', [])"
  by (simp_all add: round_defs life_reply_def life_client_def)

abbreviation life_poll_step where
  "life_poll_step \<equiv> poll_step True (\<lambda>_. False) [''a''] ''j''"

lemma life_poll_steps:
  assumes "cs ''a'' = life_client None 0 ''a''"
  shows "life_poll_step\<^sup>*\<^sup>* (life_net 0, cs, [])
     (life_net 7, (cs(''a'' := life_client (Some ''u1'') 1 ''a''))(''a'' := life_client None 1 ''a''), [(0, Returned ''r'')])"
proof -
  note nets = life_net_def set_node_def client_receives_def demo_start_def
  note rt = rtranclp.rtrancl_into_rtrancl
  have o: "life_poll_step (life_net i, cs', q) (life_net j, cs', q)"
    if "net_step [''a''] ''j'' (life_net i) (life_net j)" "y_client (life_net j) = y_client (life_net i)"
      "y_received (life_net j) = y_received (life_net i)" for i j cs' q
    by (rule poll_step.others [OF that])
  have "life_poll_step\<^sup>*\<^sup>* (life_net 0, cs, []) (life_net 1, cs, [])"
    by (rule r_into_rtranclp, rule o [OF life_steps(1)]) (simp_all add: nets)
  then have "life_poll_step\<^sup>*\<^sup>* (life_net 0, cs, []) (life_net 2, cs, [])"
    by (rule rt) (rule o [OF life_steps(2)]; simp add: nets)
  then have to3: "life_poll_step\<^sup>*\<^sup>* (life_net 0, cs, []) (life_net 3, cs, [])"
    by (rule rt) (rule o [OF life_steps(3)]; simp add: nets)
  have n4: "client_receives ''a'' (gr_batch (life_reply (Some (''u1'', [(0, False, ''r'')]))))
      (set_node ''a'' life_handed (life_net 3)) = life_net 4"
    by (simp add: nets life_reply_def)
  have "life_poll_step (life_net 3, cs, [])
      (client_receives ''a'' (gr_batch (life_reply (Some (''u1'', [(0, False, ''r'')]))))
        (set_node ''a'' life_handed (life_net 3)), cs(''a'' := life_client (Some ''u1'') 1 ''a''), [] @ [(0, Returned ''r'')])"
    by (rule poll_step.answered [where uuid = "''u1''" and now = 0 and ja = NetworkError and da = NetworkError])
       (use life_replies life_rounds assms in \<open>simp_all add: nets life_client_def life_reply_def\<close>)
  then have to4: "life_poll_step\<^sup>*\<^sup>* (life_net 0, cs, [])
      (life_net 4, cs(''a'' := life_client (Some ''u1'') 1 ''a''), [(0, Returned ''r'')])"
    using rt [OF to3] by (simp add: n4)
  let ?cs = "cs(''a'' := life_client (Some ''u1'') 1 ''a'')"
  have n5: "client_receives ''a'' (gr_batch (life_reply None)) (set_node ''a'' life_acked (life_net 4)) = life_net 5"
    by (simp add: nets life_reply_def)
  have "life_poll_step (life_net 4, ?cs, [(0, Returned ''r'')])
      (client_receives ''a'' (gr_batch (life_reply None)) (set_node ''a'' life_acked (life_net 4)),
       ?cs(''a'' := life_client None 1 ''a''), [(0, Returned ''r'')] @ [])"
    by (rule poll_step.answered [where uuid = "''u2''" and now = 0 and ja = NetworkError and da = NetworkError])
       (use life_replies life_rounds in \<open>simp_all add: nets life_client_def life_reply_def\<close>)
  then have "life_poll_step\<^sup>*\<^sup>* (life_net 0, cs, [])
      (life_net 5, ?cs(''a'' := life_client None 1 ''a''), [(0, Returned ''r'')])"
    using rt [OF to4] by (simp add: n5)
  then have "life_poll_step\<^sup>*\<^sup>* (life_net 0, cs, [])
      (life_net 6, ?cs(''a'' := life_client None 1 ''a''), [(0, Returned ''r'')])"
    by (rule rt) (rule o [OF life_steps(6)]; simp add: nets)
  then show ?thesis
    by (rule rt) (rule o [OF life_steps(7)]; simp add: nets)
qed


end
