(* ===== verification/Nested_Calls.thy ===== *)
theory Nested_Calls
  imports Prelude
begin

text \<open>
  The order of nested calls, \<open>_nested_call_context\<close> and \<open>_mark_nested_call_returned\<close> of
  \<open>client/src/burla/_remote_parallel_map.py\<close>: every call made inside one run of a user's function gets
  an index and a depth. A run is what \<open>_NESTED_RUNS\<close> keeps under its run id; both functions hold the
  lock, so a run is changed by one event at a time.
\<close>

section \<open>One run\<close>

record nested_run =
  nr_next_index :: nat
  nr_depths :: "(nat \<times> nat) list"
  nr_returned :: "nat list"

definition new_run :: nested_run where
  "new_run = \<lparr>nr_next_index = 0, nr_depths = [], nr_returned = []\<rparr>"

text \<open>The call's depth: one more than the deepest call that has returned. A missing depth is a \<open>KeyError\<close>.\<close>

definition returned_depths :: "nested_run \<Rightarrow> nat list result" where
  "returned_depths r =
     map_err (\<lambda>i. case map_of (nr_depths r) i of None \<Rightarrow> Inl (KeyError ''depths'') | Some d \<Rightarrow> Inr d) (nr_returned r)"

definition start_call :: "nested_run \<Rightarrow> (nested_run \<times> nat \<times> nat) result" where
  "start_call r =
     bind_err (returned_depths r) (\<lambda>ds.
       let i = nr_next_index r; depth = (if ds \<noteq> [] then Max (set ds) + 1 else 0)
       in Inr (r\<lparr>nr_next_index := i + 1, nr_depths := dset i depth (nr_depths r)\<rparr>, i, depth))"

definition return_call :: "nat \<Rightarrow> nested_run \<Rightarrow> nested_run" where
  "return_call i r =
     (if i \<in> set (nr_returned r) then r else r\<lparr>nr_returned := i # nr_returned r\<rparr>)"

section \<open>All runs\<close>

record nested_context =
  nc_parent_job_id :: "string option"
  nc_parent_run_id :: string
  nc_parent_call_index :: nat
  nc_parent_call_depth :: nat

text \<open>\<open>job_id\<close> is what the credentials file names; outside a worker there is no context.\<close>

definition nested_call_context ::
  "bool \<Rightarrow> string option \<Rightarrow> string \<Rightarrow> nested_run dict \<Rightarrow> (nested_run dict \<times> nested_context option) result" where
  "nested_call_context in_worker job_id run_id runs =
     (if \<not> in_worker then Inr (runs, None)
      else
        bind_err (start_call (get_or new_run (map_of runs run_id))) (\<lambda>(r, i, depth).
          Inr (dset run_id r runs,
            Some \<lparr>nc_parent_job_id = job_id, nc_parent_run_id = run_id, nc_parent_call_index = i,
                  nc_parent_call_depth = depth\<rparr>)))"

definition mark_nested_call_returned ::
  "nested_context option \<Rightarrow> nested_run dict \<Rightarrow> nested_run dict result" where
  "mark_nested_call_returned ctx runs =
     (case ctx of
        None \<Rightarrow> Inr runs
      | Some c \<Rightarrow>
          (case map_of runs (nc_parent_run_id c) of
             None \<Rightarrow> Inl (KeyError (nc_parent_run_id c))
           | Some r \<Rightarrow> Inr (dset (nc_parent_run_id c) (return_call (nc_parent_call_index c) r) runs)))"

section \<open>Histories of a run\<close>

datatype call_event = Starts | Returns nat

text \<open>\<open>starts es\<close>: how many calls a history starts; a call returns only after it started.\<close>

definition starts :: "call_event list \<Rightarrow> nat" where
  "starts es = length (filter (\<lambda>e. e = Starts) es)"

definition returns :: "call_event list \<Rightarrow> nat set" where
  "returns es = {i. Returns i \<in> set es}"

fun event_ok :: "nat \<Rightarrow> call_event list \<Rightarrow> bool" where
  "event_ok n [] = True"
| "event_ok n (Starts # es) = event_ok (Suc n) es"
| "event_ok n (Returns i # es) = (i < n \<and> event_ok n es)"

definition run_event :: "call_event \<Rightarrow> nested_run \<Rightarrow> nested_run result" where
  "run_event e r =
     (case e of
        Starts \<Rightarrow> bind_err (start_call r) (\<lambda>(r', i, d). Inr r')
      | Returns i \<Rightarrow> Inr (return_call i r))"

definition run_events :: "call_event list \<Rightarrow> nested_run result" where
  "run_events es = fold_err (\<lambda>r e. run_event e r) new_run es"

text \<open>
  The specification. Call \<open>i\<close> happens before call \<open>j\<close> when \<open>i\<close> returned before \<open>j\<close> started; the depth of
  a call is the length of the longest chain of calls that leads to it.
\<close>

definition before :: "call_event list \<Rightarrow> nat \<Rightarrow> nat \<Rightarrow> bool" where
  "before es i j \<longleftrightarrow> (\<exists>xs ys. es = xs @ Starts # ys \<and> starts xs = j \<and> i \<in> returns xs)"

fun chain :: "call_event list \<Rightarrow> nat list \<Rightarrow> bool" where
  "chain es [] = True"
| "chain es [i] = True"
| "chain es (i # j # js) = (before es i j \<and> chain es (j # js))"

lemma starts_simps [simp]:
  "starts [] = 0" "starts (xs @ ys) = starts xs + starts ys" "starts (Starts # xs) = Suc (starts xs)"
  "starts (Returns i # xs) = starts xs"
  by (simp_all add: starts_def)

lemma returns_simps [simp]:
  "returns [] = {}" "returns (xs @ ys) = returns xs \<union> returns ys" "returns (Starts # xs) = returns xs"
  "returns (Returns i # xs) = insert i (returns xs)"
  by (auto simp: returns_def)

lemma event_ok_append [simp]: "event_ok n (xs @ ys) = (event_ok n xs \<and> event_ok (n + starts xs) ys)"
  by (induction n xs rule: event_ok.induct) auto

lemma returns_started: "event_ok n xs \<Longrightarrow> i \<in> returns xs \<Longrightarrow> i < n + starts xs"
  by (induction n xs rule: event_ok.induct) fastforce+

lemma before_snoc:
  "before (es @ [e]) i j \<longleftrightarrow> before es i j \<or> (e = Starts \<and> j = starts es \<and> i \<in> returns es)"
proof
  assume "before (es @ [e]) i j"
  then obtain xs ys where x: "es @ [e] = xs @ Starts # ys" "starts xs = j" "i \<in> returns xs"
    by (auto simp: before_def)
  show "before es i j \<or> (e = Starts \<and> j = starts es \<and> i \<in> returns es)"
  proof (cases ys rule: rev_cases)
    case Nil
    then show ?thesis using x by auto
  next
    case (snoc zs z)
    then have "es = xs @ Starts # zs" using x(1) by simp
    then show ?thesis using x by (auto simp: before_def)
  qed
next
  assume "before es i j \<or> (e = Starts \<and> j = starts es \<and> i \<in> returns es)"
  then show "before (es @ [e]) i j"
  proof
    assume "before es i j"
    then obtain xs ys where "es = xs @ Starts # ys" "starts xs = j" "i \<in> returns xs" by (auto simp: before_def)
    moreover from this have "es @ [e] = xs @ Starts # (ys @ [e])" by simp
    ultimately show ?thesis unfolding before_def by blast
  next
    assume "e = Starts \<and> j = starts es \<and> i \<in> returns es"
    then have "es @ [e] = es @ Starts # []" "starts es = j" "i \<in> returns es" by auto
    then show ?thesis unfolding before_def by blast
  qed
qed

lemma before_started: "event_ok 0 es \<Longrightarrow> before es i j \<Longrightarrow> i < j \<and> j < starts es"
proof -
  assume ok: "event_ok 0 es" and b: "before es i j"
  then obtain xs ys where "es = xs @ Starts # ys" "starts xs = j" "i \<in> returns xs" by (auto simp: before_def)
  then show "i < j \<and> j < starts es" using ok returns_started [of 0 xs i] by auto
qed

text \<open>What a history leaves: the depths follow the predecessors.\<close>

definition depth_ok :: "call_event list \<Rightarrow> (nat \<Rightarrow> nat) \<Rightarrow> nat \<Rightarrow> bool" where
  "depth_ok es D j \<longleftrightarrow>
     D j = (if {i. before es i j} = {} then 0 else Max (D ` {i. before es i j}) + 1)"

lemma start_call_ok:
  assumes "\<And>i. i \<in> set (nr_returned r) \<Longrightarrow> map_of (nr_depths r) i = Some (D i)"
  shows "start_call r = Inr (r\<lparr>nr_next_index := nr_next_index r + 1,
      nr_depths := dset (nr_next_index r) (if nr_returned r \<noteq> [] then Max (D ` set (nr_returned r)) + 1 else 0) (nr_depths r)\<rparr>,
    nr_next_index r, if nr_returned r \<noteq> [] then Max (D ` set (nr_returned r)) + 1 else 0)"
proof -
  have "returned_depths r = Inr (map D (nr_returned r))"
    unfolding returned_depths_def by (rule map_err_total) (simp add: assms)
  then show ?thesis by (simp add: start_call_def Let_def)
qed

lemma run_events_snoc: "run_events (es @ [e]) = bind_err (run_events es) (run_event e)"
proof -
  have "fold_err f s (xs @ [x]) = bind_err (fold_err f s xs) (\<lambda>s'. f s' x)" for f :: "'s \<Rightarrow> 'a \<Rightarrow> 'e + 's" and s xs x
  proof (induction xs arbitrary: s)
    case Nil
    show ?case by (cases "f s x") auto
  next
    case (Cons y ys)
    show ?case by (cases "f s y") (auto simp: Cons)
  qed
  then show ?thesis by (simp add: run_events_def)
qed

lemma run_events_ok:
  "event_ok 0 es \<Longrightarrow> \<exists>r D. run_events es = Inr r \<and> nr_next_index r = starts es
     \<and> set (nr_returned r) = returns es \<and> (\<forall>j < starts es. map_of (nr_depths r) j = Some (D j) \<and> depth_ok es D j)"
proof (induction es rule: rev_induct)
  case Nil
  show ?case by (simp add: run_events_def new_run_def)
next
  case (snoc e es)
  then have ok: "event_ok 0 es" by simp
  from snoc.IH [OF ok] obtain r D where r: "run_events es = Inr r" "nr_next_index r = starts es"
    "set (nr_returned r) = returns es"
    and D: "\<And>j. j < starts es \<Longrightarrow> map_of (nr_depths r) j = Some (D j) \<and> depth_ok es D j" by blast
  show ?case
  proof (cases e)
    case (Returns i)
    have "run_events (es @ [e]) = Inr (return_call i r)" by (simp add: run_events_snoc r(1) run_event_def Returns)
    moreover have "nr_next_index (return_call i r) = starts (es @ [e])"
      "set (nr_returned (return_call i r)) = returns (es @ [e])" "nr_depths (return_call i r) = nr_depths r"
      by (auto simp: return_call_def r Returns)
    moreover have "depth_ok (es @ [e]) D j" if "j < starts es" for j
      using D [OF that] by (simp add: depth_ok_def before_snoc Returns)
    ultimately show ?thesis using D Returns by (intro exI [of _ "return_call i r"] exI [of _ D]) simp
  next
    case Starts
    let ?j = "starts es"
    define d where "d = (if nr_returned r \<noteq> [] then Max (D ` set (nr_returned r)) + 1 else 0)"
    have "\<And>i. i \<in> set (nr_returned r) \<Longrightarrow> map_of (nr_depths r) i = Some (D i)"
      using D returns_started [OF ok] r(3) by simp
    from start_call_ok [OF this] have step: "run_events (es @ [e])
        = Inr (r\<lparr>nr_next_index := Suc ?j, nr_depths := dset ?j d (nr_depths r)\<rparr>)"
      by (simp add: run_events_snoc r run_event_def Starts d_def)
    define D' where "D' = D(?j := d)"
    have old: "{i. before (es @ [e]) i j} = {i. before es i j}" if "j < ?j" for j
      using that by (simp add: before_snoc)
    have same: "D' ` {i. before es i j} = D ` {i. before es i j}" if "j < ?j" for j
      using that before_started [OF ok] by (fastforce simp: D'_def intro!: image_cong)
    have new: "{i. before (es @ [e]) i ?j} = returns es"
      using before_started [OF ok] by (auto simp: before_snoc Starts)
    have "depth_ok (es @ [e]) D' j" if "j < Suc ?j" for j
    proof (cases "j = ?j")
      case True
      have "D' ` returns es = D ` returns es"
        using returns_started [OF ok] by (fastforce simp: D'_def intro!: image_cong)
      then show ?thesis using True new r(3) by (auto simp: depth_ok_def D'_def d_def)
    next
      case False
      then have j: "j < ?j" using that by simp
      then show ?thesis using D [OF j] old [OF j] same [OF j] by (simp add: depth_ok_def) (simp add: D'_def)
    qed
    moreover have "map_of (dset ?j d (nr_depths r)) j = Some (D' j)" if "j < Suc ?j" for j
      using that D by (simp add: D'_def)
    ultimately show ?thesis
      by (intro exI [of _ "r\<lparr>nr_next_index := Suc ?j, nr_depths := dset ?j d (nr_depths r)\<rparr>"] exI [of _ D'])
         (use step in \<open>simp add: Starts r(3)\<close>)
  qed
qed

section \<open>Depth is the longest chain\<close>

lemma chain_snoc: "chain es (is @ [i, j]) \<longleftrightarrow> chain es (is @ [i]) \<and> before es i j"
proof (induction "is")
  case (Cons a as)
  then show ?case by (cases as) auto
qed simp

lemma before_finite: "event_ok 0 es \<Longrightarrow> finite {i. before es i j}"
  by (rule finite_subset [of _ "{..<j}"]) (auto dest: before_started)

lemma depth_increases:
  assumes "event_ok 0 es" "depth_ok es D j" "before es i j"
  shows "D i < D j"
proof -
  have "D i \<le> Max (D ` {i. before es i j})"
    using before_finite [OF assms(1), of j] assms(3) by (intro Max_ge) auto
  then show ?thesis using assms(2,3) by (auto simp: depth_ok_def)
qed

lemma depth_attained:
  assumes "event_ok 0 es" "depth_ok es D j" "0 < D j"
  obtains i where "before es i j" "D j = Suc (D i)"
proof -
  have ne: "{i. before es i j} \<noteq> {}" using assms(2,3) by (auto simp: depth_ok_def split: if_splits)
  then have "Max (D ` {i. before es i j}) \<in> D ` {i. before es i j}"
    using before_finite [OF assms(1)] by (intro Max_in) auto
  then obtain i where "before es i j" "Max (D ` {i. before es i j}) = D i" by blast
  then show ?thesis using that [of i] assms(2) ne by (simp add: depth_ok_def)
qed

lemma chain_bound:
  assumes ok: "event_ok 0 es" and D: "\<And>j. j < starts es \<Longrightarrow> depth_ok es D j"
  shows "chain es (is @ [j]) \<Longrightarrow> j < starts es \<Longrightarrow> length is \<le> D j"
proof (induction "is" arbitrary: j rule: rev_induct)
  case (snoc i "is")
  then have c: "chain es (is @ [i])" "before es i j" by (simp_all add: chain_snoc)
  then have "i < starts es" using before_started [OF ok c(2)] snoc.prems(2) by simp
  from snoc.IH [OF c(1) this] depth_increases [OF ok D [OF snoc.prems(2)] c(2)] show ?case by simp
qed simp

lemma chain_exists:
  assumes ok: "event_ok 0 es" and D: "\<And>j. j < starts es \<Longrightarrow> depth_ok es D j"
  shows "j < starts es \<Longrightarrow> \<exists>is. chain es (is @ [j]) \<and> length is = D j"
proof (induction j rule: less_induct)
  case (less j)
  show ?case
  proof (cases "D j = 0")
    case True
    then show ?thesis by (intro exI [of _ "[]"]) simp
  next
    case False
    then obtain i where i: "before es i j" "D j = Suc (D i)"
      using depth_attained [OF ok D [OF less.prems]] by auto
    have "i < j" "i < starts es" using before_started [OF ok i(1)] less.prems by auto
    from less.IH [OF this] obtain "is" where "chain es (is @ [i])" "length is = D i" by blast
    then show ?thesis using i by (intro exI [of _ "is @ [i]"]) (simp add: chain_snoc)
  qed
qed

text \<open>
  Over any history of nested calls in one run, started and returned in any order, no call raises,
  and the depth recorded for a call is the number of calls in the longest chain, each returned before
  the next started, that leads to it: sequential calls get increasing depths, overlapping ones do not
  depend on each other.
\<close>

theorem nested_depth_is_longest_chain:
  assumes "event_ok 0 es" "j < starts es"
  shows "\<exists>r d. run_events es = Inr r \<and> map_of (nr_depths r) j = Some d
    \<and> (\<exists>is. chain es (is @ [j]) \<and> length is = d) \<and> (\<forall>is. chain es (is @ [j]) \<longrightarrow> length is \<le> d)"
proof -
  from run_events_ok [OF assms(1)] obtain r D where r: "run_events es = Inr r"
    and D: "\<And>j. j < starts es \<Longrightarrow> map_of (nr_depths r) j = Some (D j) \<and> depth_ok es D j" by blast
  have ok: "\<And>j. j < starts es \<Longrightarrow> depth_ok es D j" using D by blast
  show ?thesis
    using r D [OF assms(2)] chain_exists [OF assms(1) ok assms(2)] chain_bound [OF assms(1) ok _ assms(2)]
    by (intro exI [of _ r] exI [of _ "D j"]) auto
qed

theorem nested_depth_is_longest_chain_witness:
  "\<exists>is. chain [Starts, Starts, Returns 1, Starts, Returns 2, Starts] (is @ [3]) \<and> length is = 2"
proof -
  let ?es = "[Starts, Starts, Returns 1, Starts, Returns 2, Starts]"
  have v: "\<exists>r. run_events ?es = Inr r \<and> map_of (nr_depths r) 3 = Some 2"
    by (simp add: run_events_def run_event_def start_call_def returned_depths_def return_call_def new_run_def Let_def)
  have "event_ok 0 ?es" "3 < starts ?es" by simp_all
  from nested_depth_is_longest_chain [OF this] v show ?thesis by auto
qed

end
