(* ===== verification/Job_Logs.thy ===== *)
theory Job_Logs
  imports Job_Start Job_Endpoints
begin

text \<open>
  \<open>JobLogWriter\<close> of \<open>node_service/worker_client.py\<close>: it cuts a container's output into lines, assigns
  them to the input that runs, gathers them in documents and hands the documents to the client and to
  the head. Text is ASCII, so a character is a byte. A method that holds the writer's lock is one step.
  \<open>stamp\<close> is \<open>datetime.fromisoformat\<close> of a line's first word; times of documents are left out.
\<close>

section \<open>State\<close>

definition MAX_LOG_DOCUMENT_SIZE_BYTES :: int where "MAX_LOG_DOCUMENT_SIZE_BYTES = 100000"
definition TRUNCATED_LOG_SUFFIX :: string where
  "TRUNCATED_LOG_SUFFIX = ''<too-long--remaining-msg-truncated-due-to-length>''"
definition LOG_START_MARKER_PREFIX :: string where "LOG_START_MARKER_PREFIX = ''__burla_input_start__:''"
definition LOG_END_MARKER_PREFIX :: string where "LOG_END_MARKER_PREFIX = ''__burla_input_end__:''"
definition OOM_KILL_MARKER_PREFIX :: string where "OOM_KILL_MARKER_PREFIX = ''__burla_oom_kill__:''"

datatype document_kind = Output | ErrorText | WarningText

record document =
  dc_logs :: "(real \<times> string) list"
  dc_input_index :: int
  dc_kind :: document_kind

record log_buffer =
  lb_logs :: "(real \<times> string) list"
  lb_size_bytes :: int

text \<open>\<open>lw_shown\<close> is what the writer has appended to \<open>SELF["pending_logs"]\<close>.\<close>

record log_writer =
  lw_log_buffers :: "(int \<times> log_buffer) list"
  lw_pending_documents :: "document list"
  lw_active_input_index :: "int option"
  lw_partial_container_output :: string
  lw_input_end_events :: "(int \<times> bool) list"
  lw_pending_flush :: bool
  lw_shown :: "document list"

definition new_log_writer :: log_writer where
  "new_log_writer =
     \<lparr>lw_log_buffers = [], lw_pending_documents = [], lw_active_input_index = None,
      lw_partial_container_output = [], lw_input_end_events = [], lw_pending_flush = False, lw_shown = []\<rparr>"

definition empty_buffer :: log_buffer where
  "empty_buffer = \<lparr>lb_logs = [], lb_size_bytes = 0\<rparr>"

definition get_log_buffer :: "int \<Rightarrow> log_writer \<Rightarrow> log_writer \<times> log_buffer" where
  "get_log_buffer i w =
     (let w1 = w\<lparr>lw_log_buffers := dsetdefault i empty_buffer (lw_log_buffers w)\<rparr>
      in (w1, get_or empty_buffer (map_of (lw_log_buffers w1) i)))"

section \<open>Messages and documents\<close>

definition message_size :: "string \<Rightarrow> int" where
  "message_size m = int (length m) + 180"

definition truncate_message :: "string \<Rightarrow> string" where
  "truncate_message m =
     (if message_size m \<le> MAX_LOG_DOCUMENT_SIZE_BYTES then m
      else take (nat (MAX_LOG_DOCUMENT_SIZE_BYTES - int (length TRUNCATED_LOG_SUFFIX))) m @ TRUNCATED_LOG_SUFFIX)"

definition queue_document_locked :: "int \<Rightarrow> log_writer \<Rightarrow> log_writer" where
  "queue_document_locked i w =
     (case map_of (lw_log_buffers w) i of
        None \<Rightarrow> w
      | Some b \<Rightarrow>
          if lb_logs b = [] then w
          else (let d = \<lparr>dc_logs = lb_logs b, dc_input_index = i, dc_kind = Output\<rparr>
                in w\<lparr>lw_pending_documents := lw_pending_documents w @ [d], lw_shown := lw_shown w @ [d],
                     lw_log_buffers := dset i empty_buffer (lw_log_buffers w)\<rparr>))"

definition queue_all_buffers_locked :: "log_writer \<Rightarrow> log_writer" where
  "queue_all_buffers_locked w = fold queue_document_locked (dkeys (lw_log_buffers w)) w"

definition append_message :: "int \<Rightarrow> real \<Rightarrow> string \<Rightarrow> log_writer \<Rightarrow> log_writer" where
  "append_message i t m w =
     (let (w1, b) = get_log_buffer i w
      in w1\<lparr>lw_log_buffers := dset i \<lparr>lb_logs = lb_logs b @ [(t, m)], lb_size_bytes = lb_size_bytes b + message_size m\<rparr>
              (lw_log_buffers w1)\<rparr>)"

definition write_locked :: "int \<Rightarrow> string \<Rightarrow> real \<Rightarrow> log_writer \<Rightarrow> log_writer" where
  "write_locked i message t w =
     (if strip_spaces message = [] then w
      else
        (let m = truncate_message message;
             (w1, b) = get_log_buffer i w;
             w2 = (if lb_size_bytes b \<noteq> 0 \<and> lb_size_bytes b + message_size m > MAX_LOG_DOCUMENT_SIZE_BYTES
                   then queue_document_locked i w1 else w1);
             w3 = append_message i t m w2;
             size = lb_size_bytes (snd (get_log_buffer i w3))
         in if size \<ge> MAX_LOG_DOCUMENT_SIZE_BYTES
            then (queue_document_locked i w3)\<lparr>lw_pending_flush := True\<rparr> else w3))"

section \<open>Lines\<close>

definition is_line_break :: "char \<Rightarrow> bool" where
  "is_line_break c \<longleftrightarrow> c \<in> {CHR 0x0A, CHR 0x0B, CHR 0x0C, CHR 0x0D, CHR 0x1C, CHR 0x1D, CHR 0x1E}"

text \<open>\<open>splitlines(keepends=True)\<close>.\<close>

fun splitlines :: "string \<Rightarrow> string list" where
  "splitlines [] = []"
| "splitlines (c # cs) =
     (if c = CHR 0x0D \<and> cs \<noteq> [] \<and> hd cs = CHR 0x0A then [c, CHR 0x0A] # splitlines (tl cs)
      else if is_line_break c then [c] # splitlines cs
      else (case splitlines cs of [] \<Rightarrow> [[c]] | l # ls \<Rightarrow> (c # l) # ls))"

definition ends_line :: "string \<Rightarrow> bool" where
  "ends_line l \<longleftrightarrow> l \<noteq> [] \<and> last l \<in> {CHR 0x0A, CHR 0x0D}"

text \<open>The complete lines of a text and what is left over.\<close>

definition cut_lines :: "string \<Rightarrow> string list \<times> string" where
  "cut_lines s =
     (let ls = splitlines s
      in if ls \<noteq> [] \<and> \<not> ends_line (last ls) then (butlast ls, last ls) else (ls, []))"

definition parse_container_log_line :: "(string \<Rightarrow> real result) \<Rightarrow> string \<Rightarrow> (real \<times> string) result" where
  "parse_container_log_line stamp line =
     bind_err (stamp (takeWhile (\<lambda>c. c \<noteq> CHR '' '') line)) (\<lambda>t.
       Inr (t, drop 1 (dropWhile (\<lambda>c. c \<noteq> CHR '' '') line)))"

text \<open>Two more prefixes of the package installer start with characters that are not ASCII.\<close>

definition is_worker_internal_log_message :: "string \<Rightarrow> bool" where
  "is_worker_internal_log_message s \<longleftrightarrow>
     s = ''Killed'' \<or> prefix OOM_KILL_MARKER_PREFIX s \<or> s \<in> {''3.11'', ''3.12'', ''3.13'', ''3.14''}
     \<or> prefix ''Using CPython '' s \<or> prefix ''burla=='' s \<or> prefix ''Checked 1 package in '' s"

definition set_end_event :: "int \<Rightarrow> log_writer \<Rightarrow> log_writer" where
  "set_end_event i w = w\<lparr>lw_input_end_events := dset i True (lw_input_end_events w)\<rparr>"

text \<open>
  A line of output: a marker of the worker, a message of the worker's own, or the text of the input
  that runs. The new state comes with the exception, if one is raised.
\<close>

definition capture_container_log_line_locked ::
  "(string \<Rightarrow> real result) \<Rightarrow> string \<Rightarrow> log_writer \<Rightarrow> log_writer result" where
  "capture_container_log_line_locked stamp line w =
     bind_err (parse_container_log_line stamp line) (\<lambda>(t, message).
       let stripped = strip_spaces message
       in if prefix LOG_START_MARKER_PREFIX stripped then
            bind_err (py_int (removeprefix LOG_START_MARKER_PREFIX stripped)) (\<lambda>i.
              Inr (w\<lparr>lw_active_input_index := Some i\<rparr>))
          else if prefix LOG_END_MARKER_PREFIX stripped then
            bind_err (py_int (removeprefix LOG_END_MARKER_PREFIX stripped)) (\<lambda>i.
              Inr ((set_end_event i ((queue_document_locked i w)\<lparr>lw_active_input_index := None\<rparr>))
                     \<lparr>lw_pending_flush := True\<rparr>))
          else if is_worker_internal_log_message stripped then Inr w
          else case lw_active_input_index w of
                 None \<Rightarrow> Inr w
               | Some i \<Rightarrow> Inr (write_locked i message t w))"

text \<open>The loop over the lines ends at the first exception; what was done before stays done.\<close>

fun capture_lines :: "(string \<Rightarrow> real result) \<Rightarrow> string list \<Rightarrow> log_writer \<Rightarrow> log_writer \<times> py_error option" where
  "capture_lines stamp [] w = (w, None)"
| "capture_lines stamp (l # ls) w =
     (case capture_container_log_line_locked stamp l w of
        Inl e \<Rightarrow> (w, Some e)
      | Inr w' \<Rightarrow> capture_lines stamp ls w')"

definition capture_container_output ::
  "(string \<Rightarrow> real result) \<Rightarrow> string \<Rightarrow> log_writer \<Rightarrow> log_writer \<times> py_error option" where
  "capture_container_output stamp chunk w =
     (let (ls, rest) = cut_lines (lw_partial_container_output w @ chunk)
      in capture_lines stamp ls (w\<lparr>lw_partial_container_output := rest\<rparr>))"

section \<open>Errors, warnings, the end of an input, flushing\<close>

definition write_error :: "int \<Rightarrow> string \<Rightarrow> real \<Rightarrow> log_writer \<Rightarrow> log_writer" where
  "write_error i text now w =
     w\<lparr>lw_pending_documents := lw_pending_documents w @ [\<lparr>dc_logs = [(now, text)], dc_input_index = i, dc_kind = ErrorText\<rparr>],
       lw_pending_flush := True\<rparr>"

definition write_warning :: "int \<Rightarrow> string \<Rightarrow> real \<Rightarrow> log_writer \<Rightarrow> log_writer" where
  "write_warning i message now w =
     (let d = \<lparr>dc_logs = [(now, message)], dc_input_index = i, dc_kind = WarningText\<rparr>
      in w\<lparr>lw_pending_documents := lw_pending_documents w @ [d], lw_shown := lw_shown w @ [d],
           lw_pending_flush := True\<rparr>)"

text \<open>After the wait for the end marker, which lasts two seconds at most.\<close>

definition finish_input_logs :: "int \<Rightarrow> log_writer \<Rightarrow> log_writer" where
  "finish_input_logs i w =
     (queue_document_locked i (w\<lparr>lw_input_end_events := ddel i (lw_input_end_events w)\<rparr>))\<lparr>lw_pending_flush := True\<rparr>"

text \<open>The documents to post; whether posting them succeeds does not matter to the writer.\<close>

definition flush_pending_documents :: "log_writer \<Rightarrow> log_writer \<times> document list" where
  "flush_pending_documents w =
     (let w1 = queue_all_buffers_locked (w\<lparr>lw_pending_flush := False\<rparr>)
      in (w1\<lparr>lw_pending_documents := []\<rparr>, lw_pending_documents w1))"

section \<open>What the writer does over time\<close>

text \<open>The state: the writer, the documents posted to the head, and all output captured so far.\<close>

inductive log_step ::
  "(string \<Rightarrow> real result) \<Rightarrow> log_writer \<times> document list \<times> string \<Rightarrow> log_writer \<times> document list \<times> string \<Rightarrow> bool"
  for stamp where
  capture: "capture_container_output stamp chunk w = (w', e) \<Longrightarrow>
    log_step stamp (w, posted, out) (w', posted, out @ chunk)"
| error: "log_step stamp (w, posted, out) (write_error i text now w, posted, out)"
| warning: "log_step stamp (w, posted, out) (write_warning i text now w, posted, out)"
| finish: "log_step stamp (w, posted, out) (finish_input_logs i w, posted, out)"
| flush: "flush_pending_documents w = (w', docs) \<Longrightarrow>
    log_step stamp (w, posted, out) (w', posted @ docs, out)"

end
