(* ===== verification/Log_Claims.thy ===== *)
theory Log_Claims
  imports Job_Logs
begin

text \<open>
  What the log writer guarantees: however the output arrives in pieces, and whenever documents are
  flushed, every message of an input ends up exactly once and in order in its documents, the same
  documents go to the client and to the head, and no document is larger than the limit plus one header.
\<close>

section \<open>Cutting into lines\<close>

abbreviation LF :: char where "LF \<equiv> CHR 0x0A"

definition lf_only :: "string \<Rightarrow> bool" where
  "lf_only s \<longleftrightarrow> (\<forall>c \<in> set s. is_line_break c \<longrightarrow> c = LF)"

lemma lf_only_simps [simp]:
  "lf_only []" "lf_only (c # s) \<longleftrightarrow> (is_line_break c \<longrightarrow> c = LF) \<and> lf_only s"
  "lf_only (s @ t) \<longleftrightarrow> lf_only s \<and> lf_only t"
  by (auto simp: lf_only_def)

lemma is_line_break_simps [simp]: "is_line_break LF" "is_line_break (CHR 0x0D)"
  by (simp_all add: is_line_break_def)

lemma splitlines_Nil_iff [simp]: "splitlines s = [] \<longleftrightarrow> s = []"
  by (cases s) (auto split: list.splits)

lemma splitlines_LF: "lf_only a \<Longrightarrow> splitlines (a @ LF # b) = splitlines (a @ [LF]) @ splitlines b"
proof (induction a)
  case (Cons c a)
  show ?case
  proof (cases "is_line_break c")
    case True
    then show ?thesis using Cons by simp
  next
    case False
    then obtain l ls where "splitlines (a @ [LF]) = l # ls" by (cases "splitlines (a @ [LF])") auto
    then show ?thesis using Cons False by auto
  qed
qed simp

lemma splitlines_last: "splitlines (a @ [LF]) \<noteq> [] \<and> (lf_only a \<longrightarrow> ends_line (last (splitlines (a @ [LF]))))"
proof (induction a)
  case Nil
  show ?case by (simp add: ends_line_def)
next
  case (Cons c a)
  show ?case
  proof (cases "is_line_break c")
    case True
    then show ?thesis using Cons by simp
  next
    case False
    then obtain l ls where l: "splitlines (a @ [LF]) = l # ls" by (cases "splitlines (a @ [LF])") auto
    then show ?thesis using Cons False by (cases ls) (auto simp: ends_line_def)
  qed
qed

lemma splitlines_whole: "LF \<notin> set s \<Longrightarrow> lf_only s \<Longrightarrow> s \<noteq> [] \<Longrightarrow> splitlines s = [s]"
proof (induction s)
  case (Cons c s)
  then show ?case by (cases s) auto
qed simp

lemma cut_whole: "LF \<notin> set s \<Longrightarrow> lf_only s \<Longrightarrow> cut_lines s = ([], s)"
proof (cases "s = []")
  case False
  assume s: "LF \<notin> set s" "lf_only s"
  then have "last s \<in> set s" using False by simp
  then have "last s \<noteq> LF" "last s \<noteq> CHR 0x0D" using s by (auto simp: lf_only_def)
  then show ?thesis using s False by (simp add: cut_lines_def splitlines_whole ends_line_def Let_def)
qed (simp add: cut_lines_def)

lemma cut_LF:
  assumes "lf_only a"
  shows "cut_lines (a @ LF # s) = (splitlines (a @ [LF]) @ fst (cut_lines s), snd (cut_lines s))"
proof (cases "s = []")
  case True
  then show ?thesis using splitlines_last [of a] assms by (simp add: cut_lines_def Let_def)
next
  case False
  then show ?thesis using splitlines_LF [OF assms, of s]
    by (simp add: cut_lines_def Let_def butlast_append)
qed

lemma cut_append:
  assumes "lf_only (a @ b)"
  shows "cut_lines (a @ b) = (fst (cut_lines a) @ fst (cut_lines (snd (cut_lines a) @ b)),
    snd (cut_lines (snd (cut_lines a) @ b)))"
proof (cases "LF \<in> set a")
  case False
  then show ?thesis using assms by (simp add: cut_whole)
next
  case True
  then obtain x y where a: "a = x @ LF # y" and y: "LF \<notin> set y" by (metis split_list_last)
  have l: "lf_only x" "lf_only y" using assms by (simp_all add: a)
  show ?thesis by (simp add: a cut_LF l cut_whole y)
qed

section \<open>What the output says\<close>

text \<open>The meaning of complete lines: the messages of each input, up to a line that makes no sense.\<close>

datatype line_meaning = StartOf int | EndOf int | Ignored | Message "real \<times> string"

definition meaning :: "(string \<Rightarrow> real result) \<Rightarrow> string \<Rightarrow> line_meaning result" where
  "meaning stamp line =
     bind_err (parse_container_log_line stamp line) (\<lambda>(t, message).
       let stripped = strip_spaces message
       in if prefix LOG_START_MARKER_PREFIX stripped then
            bind_err (py_int (removeprefix LOG_START_MARKER_PREFIX stripped)) (\<lambda>i. Inr (StartOf i))
          else if prefix LOG_END_MARKER_PREFIX stripped then
            bind_err (py_int (removeprefix LOG_END_MARKER_PREFIX stripped)) (\<lambda>i. Inr (EndOf i))
          else if is_worker_internal_log_message stripped \<or> stripped = [] then Inr Ignored
          else Inr (Message (t, truncate_message message)))"

definition line_ok :: "(string \<Rightarrow> real result) \<Rightarrow> string \<Rightarrow> bool" where
  "line_ok stamp l \<longleftrightarrow> (\<exists>m. meaning stamp l = Inr m)"

lemma line_ok_cases: "line_ok stamp l = (case meaning stamp l of Inl e \<Rightarrow> False | Inr m \<Rightarrow> True)"
  by (cases "meaning stamp l") (auto simp: line_ok_def)

fun heard :: "(string \<Rightarrow> real result) \<Rightarrow> int option \<Rightarrow> string list \<Rightarrow> (int \<times> real \<times> string) list" where
  "heard stamp active [] = []"
| "heard stamp active (l # ls) =
     (case meaning stamp l of
        Inl e \<Rightarrow> []
      | Inr (StartOf i) \<Rightarrow> heard stamp (Some i) ls
      | Inr (EndOf i) \<Rightarrow> heard stamp None ls
      | Inr Ignored \<Rightarrow> heard stamp active ls
      | Inr (Message m) \<Rightarrow>
          (case active of None \<Rightarrow> heard stamp active ls | Some i \<Rightarrow> (i, m) # heard stamp active ls))"

fun active_after :: "(string \<Rightarrow> real result) \<Rightarrow> int option \<Rightarrow> string list \<Rightarrow> int option" where
  "active_after stamp active [] = active"
| "active_after stamp active (l # ls) =
     (case meaning stamp l of
        Inl e \<Rightarrow> active
      | Inr (StartOf i) \<Rightarrow> active_after stamp (Some i) ls
      | Inr (EndOf i) \<Rightarrow> active_after stamp None ls
      | Inr m \<Rightarrow> active_after stamp active ls)"

definition messages_of :: "int \<Rightarrow> (int \<times> real \<times> string) list \<Rightarrow> (real \<times> string) list" where
  "messages_of i xs = map snd (filter (\<lambda>x. fst x = i) xs)"

lemma heard_append:
  "(\<forall>l \<in> set ls. line_ok stamp l) \<Longrightarrow>
     heard stamp a (ls @ ms) = heard stamp a ls @ heard stamp (active_after stamp a ls) ms
     \<and> active_after stamp a (ls @ ms) = active_after stamp (active_after stamp a ls) ms"
  by (induction ls arbitrary: a) (auto simp: line_ok_def split: line_meaning.splits option.splits)

section \<open>Documents\<close>

definition texts :: "int \<Rightarrow> document list \<Rightarrow> (real \<times> string) list" where
  "texts i ds = concat (map dc_logs (filter (\<lambda>d. dc_kind d = Output \<and> dc_input_index d = i) ds))"

definition buffered :: "int \<Rightarrow> log_writer \<Rightarrow> (real \<times> string) list" where
  "buffered i w = (case map_of (lw_log_buffers w) i of None \<Rightarrow> [] | Some b \<Rightarrow> lb_logs b)"

definition outputs :: "document list \<Rightarrow> document list" where
  "outputs ds = filter (\<lambda>d. dc_kind d = Output) ds"

text \<open>Everything written for an input, from the documents shown and the buffer.\<close>

definition said :: "int \<Rightarrow> log_writer \<Rightarrow> (real \<times> string) list" where
  "said i w = texts i (lw_shown w) @ buffered i w"

lemma texts_simps [simp]:
  "texts i [] = []" "texts i (ds @ es) = texts i ds @ texts i es"
  "texts i (d # ds) = (if dc_kind d = Output \<and> dc_input_index d = i then dc_logs d else []) @ texts i ds"
  by (simp_all add: texts_def)

lemma texts_outputs: "texts i (outputs ds) = texts i ds"
  unfolding texts_def outputs_def filter_filter
  by (intro arg_cong [of _ _ "\<lambda>ds. concat (map dc_logs ds)"] filter_cong) auto

lemma outputs_simps [simp]:
  "outputs [] = []" "outputs (ds @ es) = outputs ds @ outputs es"
  "outputs (d # ds) = (if dc_kind d = Output then [d] else []) @ outputs ds"
  by (simp_all add: outputs_def)

definition sizes_of :: "(real \<times> string) list \<Rightarrow> int" where
  "sizes_of xs = (\<Sum>x\<leftarrow>xs. message_size (snd x))"

lemma sizes_of_simps [simp]:
  "sizes_of [] = 0" "sizes_of (xs @ ys) = sizes_of xs + sizes_of ys" "sizes_of (x # xs) = message_size (snd x) + sizes_of xs"
  by (simp_all add: sizes_of_def)

definition small_enough :: "(real \<times> string) list \<Rightarrow> bool" where
  "small_enough xs \<longleftrightarrow> sizes_of xs \<le> MAX_LOG_DOCUMENT_SIZE_BYTES
     \<or> (length xs = 1 \<and> sizes_of xs \<le> MAX_LOG_DOCUMENT_SIZE_BYTES + 180)"

definition buffer_ok :: "log_buffer \<Rightarrow> bool" where
  "buffer_ok b \<longleftrightarrow> lb_size_bytes b = sizes_of (lb_logs b) \<and> small_enough (lb_logs b)"

definition writer_ok :: "log_writer \<Rightarrow> bool" where
  "writer_ok w \<longleftrightarrow> (\<forall>i b. map_of (lw_log_buffers w) i = Some b \<longrightarrow> buffer_ok b)
     \<and> (\<forall>d \<in> set (outputs (lw_shown w)). dc_logs d \<noteq> [] \<and> small_enough (dc_logs d))"

lemma empty_buffer_ok [simp]: "buffer_ok empty_buffer" "lb_logs empty_buffer = []" "lb_size_bytes empty_buffer = 0"
  by (simp_all add: buffer_ok_def empty_buffer_def small_enough_def MAX_LOG_DOCUMENT_SIZE_BYTES_def)

lemma sizes_nonneg: "0 \<le> sizes_of xs"
  unfolding sizes_of_def by (rule sum_list_nonneg) (auto simp: message_size_def)

lemma sizes_zero: "sizes_of xs = 0 \<Longrightarrow> xs = []"
proof (cases xs)
  case (Cons x ys)
  assume "sizes_of xs = 0"
  then show ?thesis using Cons sizes_nonneg [of ys] by (simp add: message_size_def)
qed simp

lemma truncate_size: "message_size (truncate_message m) \<le> MAX_LOG_DOCUMENT_SIZE_BYTES + 180"
proof (cases "message_size m \<le> MAX_LOG_DOCUMENT_SIZE_BYTES")
  case False
  have s: "int (length TRUNCATED_LOG_SUFFIX) = 49" by (simp add: TRUNCATED_LOG_SUFFIX_def)
  then show ?thesis using False
    by (auto simp: truncate_message_def message_size_def MAX_LOG_DOCUMENT_SIZE_BYTES_def min_def)
qed (simp add: truncate_message_def)

section \<open>The operations\<close>

lemma buffered_dset [simp]: "map_of (dset i b (lw_log_buffers w)) j = (if j = i then Some b else map_of (lw_log_buffers w) j)"
  by simp

lemma writer_okD:
  assumes "writer_ok w"
  shows "map_of (lw_log_buffers w) i = Some b \<Longrightarrow> buffer_ok b"
    "d \<in> set (outputs (lw_shown w)) \<Longrightarrow> dc_logs d \<noteq> [] \<and> small_enough (dc_logs d)"
  using assms by (auto simp: writer_ok_def)

text \<open>What an operation that only moves messages keeps.\<close>

definition calm :: "log_writer \<Rightarrow> log_writer \<Rightarrow> bool" where
  "calm w w' \<longleftrightarrow> (writer_ok w \<longrightarrow> writer_ok w') \<and> (\<forall>i. said i w' = said i w)
     \<and> lw_active_input_index w' = lw_active_input_index w
     \<and> lw_partial_container_output w' = lw_partial_container_output w
     \<and> (\<exists>ds. outputs (lw_shown w') = outputs (lw_shown w) @ ds
            \<and> outputs (lw_pending_documents w') = outputs (lw_pending_documents w) @ ds)"

lemma calmD:
  assumes "calm w w'"
  shows "writer_ok w \<Longrightarrow> writer_ok w'" "said i w' = said i w"
    "lw_active_input_index w' = lw_active_input_index w"
    "lw_partial_container_output w' = lw_partial_container_output w"
    "\<exists>ds. outputs (lw_shown w') = outputs (lw_shown w) @ ds
      \<and> outputs (lw_pending_documents w') = outputs (lw_pending_documents w) @ ds"
  using assms unfolding calm_def by blast+

lemma calm_refl: "calm w w"
  by (simp add: calm_def)

lemma calm_trans: "calm w w1 \<Longrightarrow> calm w1 w2 \<Longrightarrow> calm w w2"
  by (auto simp: calm_def)

lemma calm_queue: "calm w (queue_document_locked i w)"
proof (cases "map_of (lw_log_buffers w) i")
  case None
  then show ?thesis by (simp add: queue_document_locked_def calm_refl)
next
  case (Some b)
  show ?thesis
  proof (cases "lb_logs b = []")
    case True
    then show ?thesis using Some by (simp add: queue_document_locked_def calm_refl)
  next
    case False
    let ?w = "queue_document_locked i w"
    let ?d = "\<lparr>dc_logs = lb_logs b, dc_input_index = i, dc_kind = Output\<rparr>"
    have w: "lw_shown ?w = lw_shown w @ [?d]" "lw_pending_documents ?w = lw_pending_documents w @ [?d]"
      "lw_log_buffers ?w = dset i empty_buffer (lw_log_buffers w)"
      "lw_active_input_index ?w = lw_active_input_index w"
      "lw_partial_container_output ?w = lw_partial_container_output w"
      using False Some by (simp_all add: queue_document_locked_def Let_def)
    have "said j ?w = said j w" for j
      using Some by (auto simp: said_def w buffered_def)
    moreover have "writer_ok ?w" if "writer_ok w"
    proof -
      have "small_enough (lb_logs b)" using writer_okD(1) [OF that Some] by (simp add: buffer_ok_def)
      then show ?thesis using writer_okD [OF that] False by (auto simp: writer_ok_def w)
    qed
    ultimately show ?thesis by (auto simp: calm_def w)
  qed
qed

lemma queue_empties: "buffered i (queue_document_locked i w) = []"
  by (auto simp: queue_document_locked_def buffered_def Let_def split: option.splits)

lemma calm_frame:
  assumes "lw_log_buffers w' = lw_log_buffers w" "lw_shown w' = lw_shown w"
    "lw_pending_documents w' = lw_pending_documents w" "lw_active_input_index w' = lw_active_input_index w"
    "lw_partial_container_output w' = lw_partial_container_output w"
  shows "calm w w'"
  using assms by (auto simp: calm_def writer_ok_def said_def buffered_def)

lemma calm_get_buffer: "calm w (fst (get_log_buffer i w))"
  by (auto simp: calm_def get_log_buffer_def Let_def writer_ok_def said_def buffered_def split: option.splits if_splits)

lemma buffer_of: "snd (get_log_buffer i w) = get_or empty_buffer (map_of (lw_log_buffers w) i)"
  by (auto simp: get_log_buffer_def Let_def split: option.splits)

lemma buffer_after_get [simp]:
  "map_of (lw_log_buffers (fst (get_log_buffer i w))) i = Some (get_or empty_buffer (map_of (lw_log_buffers w) i))"
  by (auto simp: get_log_buffer_def Let_def split: option.splits)

lemma buffer_of_ok: "writer_ok w \<Longrightarrow> buffer_ok (get_or empty_buffer (map_of (lw_log_buffers w) i))"
  by (auto simp: writer_ok_def split: option.splits) (metis get_or_simps empty_buffer_ok(1) option.exhaust)

text \<open>Appending a message to a buffer that has room for it.\<close>

lemma append_message_said:
  "said j (append_message i t m w) = said j w @ (if j = i then [(t, m)] else [])"
  by (auto simp: append_message_def get_log_buffer_def said_def buffered_def Let_def split: option.splits)

lemma append_message_frame:
  "lw_shown (append_message i t m w) = lw_shown w"
  "lw_pending_documents (append_message i t m w) = lw_pending_documents w"
  "lw_active_input_index (append_message i t m w) = lw_active_input_index w"
  "lw_partial_container_output (append_message i t m w) = lw_partial_container_output w"
  by (simp_all add: append_message_def get_log_buffer_def Let_def)

lemma append_message_ok:
  assumes "writer_ok w" "b = get_or empty_buffer (map_of (lw_log_buffers w) i)"
    "lb_size_bytes b = 0 \<and> message_size m \<le> MAX_LOG_DOCUMENT_SIZE_BYTES + 180
     \<or> lb_size_bytes b + message_size m \<le> MAX_LOG_DOCUMENT_SIZE_BYTES"
  shows "writer_ok (append_message i t m w)"
proof -
  have b: "buffer_ok b" using buffer_of_ok [OF assms(1)] assms(2) by simp
  let ?b = "\<lparr>lb_logs = lb_logs b @ [(t, m)], lb_size_bytes = lb_size_bytes b + message_size m\<rparr>"
  have "buffer_ok ?b"
    using b assms(3) sizes_zero [of "lb_logs b"] by (auto simp: buffer_ok_def small_enough_def)
  moreover have "map_of (lw_log_buffers (append_message i t m w)) j
      = (if j = i then Some ?b else map_of (lw_log_buffers w) j)" for j
    using assms(2) by (auto simp: append_message_def get_log_buffer_def Let_def split: option.splits)
  ultimately show ?thesis using writer_okD [OF assms(1)]
    by (auto simp: writer_ok_def append_message_frame split: if_splits)
qed

lemma write_locked_active:
  "lw_active_input_index (write_locked i message t w) = lw_active_input_index w"
  using calmD(3) [OF calm_queue] calmD(3) [OF calm_get_buffer]
  by (simp add: write_locked_def Let_def case_prod_beta append_message_frame)

lemma write_locked_effect:
  assumes "writer_ok w" "strip_spaces message \<noteq> []"
  shows "writer_ok (write_locked i message t w)
    \<and> (\<forall>j. said j (write_locked i message t w) = said j w @ (if j = i then [(t, truncate_message message)] else []))
    \<and> lw_active_input_index (write_locked i message t w) = lw_active_input_index w
    \<and> lw_partial_container_output (write_locked i message t w) = lw_partial_container_output w
    \<and> (\<exists>ds. outputs (lw_shown (write_locked i message t w)) = outputs (lw_shown w) @ ds
          \<and> outputs (lw_pending_documents (write_locked i message t w)) = outputs (lw_pending_documents w) @ ds)"
proof -
  define m where "m = truncate_message message"
  define b where "b = get_or empty_buffer (map_of (lw_log_buffers w) i)"
  define w1 where "w1 = fst (get_log_buffer i w)"
  define w2 where "w2 = (if lb_size_bytes b \<noteq> 0 \<and> lb_size_bytes b + message_size m > MAX_LOG_DOCUMENT_SIZE_BYTES
    then queue_document_locked i w1 else w1)"
  define w3 where "w3 = append_message i t m w2"
  have g: "get_log_buffer i w = (w1, b)" by (simp add: w1_def b_def flip: buffer_of)
  have result: "write_locked i message t w = w3 \<or> write_locked i message t w = (queue_document_locked i w3)\<lparr>lw_pending_flush := True\<rparr>"
    using assms(2) by (auto simp: write_locked_def g m_def w2_def w3_def Let_def)
  have c12: "calm w w2"
    using calm_get_buffer [of w i] calm_queue [of w1 i] by (auto simp: w2_def w1_def intro: calm_trans)
  then have ok2: "writer_ok w2" using assms(1) calmD(1) by blast
  have "lb_size_bytes (get_or empty_buffer (map_of (lw_log_buffers w2) i)) = 0
      \<and> message_size m \<le> MAX_LOG_DOCUMENT_SIZE_BYTES + 180
     \<or> lb_size_bytes (get_or empty_buffer (map_of (lw_log_buffers w2) i)) + message_size m \<le> MAX_LOG_DOCUMENT_SIZE_BYTES"
  proof (cases "lb_size_bytes b \<noteq> 0 \<and> lb_size_bytes b + message_size m > MAX_LOG_DOCUMENT_SIZE_BYTES")
    case True
    have b1: "map_of (lw_log_buffers w1) i = Some b" by (simp add: w1_def b_def)
    have "lb_logs b \<noteq> []" using True buffer_of_ok [OF assms(1), of i] by (auto simp: b_def buffer_ok_def)
    then have "map_of (lw_log_buffers w2) i = Some empty_buffer"
      using True b1 by (simp add: w2_def queue_document_locked_def Let_def)
    then show ?thesis using truncate_size [of message] by (simp add: m_def)
  next
    case False
    then have "w2 = w1" unfolding w2_def by (rule if_not_P)
    then have "map_of (lw_log_buffers w2) i = Some b" by (simp add: w1_def b_def)
    then show ?thesis using False truncate_size [of message] by (auto simp: m_def)
  qed
  from append_message_ok [OF ok2 refl this] have ok3: "writer_ok w3" by (simp add: w3_def)
  have calm3: "calm w3 ((queue_document_locked i w3)\<lparr>lw_pending_flush := True\<rparr>)"
    by (rule calm_trans [OF calm_queue calm_frame]) simp_all
  have c: "calm w3 (write_locked i message t w)" using result calm3 calm_refl [of w3] by auto
  have s3: "said j w3 = said j w @ (if j = i then [(t, m)] else [])" for j
    using calmD(2) [OF c12] by (simp add: w3_def append_message_said)
  have f3: "lw_active_input_index w3 = lw_active_input_index w"
    "lw_partial_container_output w3 = lw_partial_container_output w"
    using calmD(3,4) [OF c12] by (simp_all add: w3_def append_message_frame)
  from calmD(5) [OF c12] obtain ds1 where d1: "outputs (lw_shown w3) = outputs (lw_shown w) @ ds1"
    "outputs (lw_pending_documents w3) = outputs (lw_pending_documents w) @ ds1"
    by (auto simp: w3_def append_message_frame)
  from calmD(5) [OF c] obtain ds2 where "outputs (lw_shown (write_locked i message t w)) = outputs (lw_shown w3) @ ds2"
    "outputs (lw_pending_documents (write_locked i message t w)) = outputs (lw_pending_documents w3) @ ds2"
    by blast
  then have "\<exists>ds. outputs (lw_shown (write_locked i message t w)) = outputs (lw_shown w) @ ds
      \<and> outputs (lw_pending_documents (write_locked i message t w)) = outputs (lw_pending_documents w) @ ds"
    by (intro exI [of _ "ds1 @ ds2"]) (simp add: d1)
  then show ?thesis using calmD(1) [OF c ok3] calmD(2-4) [OF c] s3 f3 unfolding m_def by simp
qed

section \<open>Lines\<close>

definition carries :: "log_writer \<Rightarrow> log_writer \<Rightarrow> (int \<times> real \<times> string) list \<Rightarrow> bool" where
  "carries w w' xs \<longleftrightarrow> (writer_ok w \<longrightarrow> writer_ok w' \<and> (\<forall>i. said i w' = said i w @ messages_of i xs)
     \<and> lw_partial_container_output w' = lw_partial_container_output w
     \<and> (\<exists>ds. outputs (lw_shown w') = outputs (lw_shown w) @ ds
            \<and> outputs (lw_pending_documents w') = outputs (lw_pending_documents w) @ ds))"

lemma calm_carries:
  assumes c: "calm w w1" and e: "lw_log_buffers w' = lw_log_buffers w1" "lw_shown w' = lw_shown w1"
    "lw_pending_documents w' = lw_pending_documents w1"
    "lw_partial_container_output w' = lw_partial_container_output w1"
  shows "carries w w' []"
proof -
  have "said i w' = said i w" for i using calmD(2) [OF c] e by (simp add: said_def buffered_def)
  moreover have "writer_ok w \<Longrightarrow> writer_ok w'" using calmD(1) [OF c] e by (simp add: writer_ok_def)
  ultimately show ?thesis using calmD(4,5) [OF c] e by (simp add: carries_def messages_of_def)
qed

lemma messages_of_append [simp]: "messages_of i (xs @ ys) = messages_of i xs @ messages_of i ys"
  by (simp add: messages_of_def)

lemma carriesD:
  assumes "carries w w' xs" "writer_ok w"
  shows "writer_ok w'" "said i w' = said i w @ messages_of i xs"
    "lw_partial_container_output w' = lw_partial_container_output w"
    "\<exists>ds. outputs (lw_shown w') = outputs (lw_shown w) @ ds
      \<and> outputs (lw_pending_documents w') = outputs (lw_pending_documents w) @ ds"
  using assms unfolding carries_def by blast+

lemma carries_trans:
  assumes "carries w w1 xs" "carries w1 w2 ys"
  shows "carries w w2 (xs @ ys)"
proof (cases "writer_ok w")
  case True
  note d = carriesD [OF assms(1) True]
  note e = carriesD [OF assms(2) d(1)]
  from d(4) e(4) obtain ds1 ds2 where "outputs (lw_shown w1) = outputs (lw_shown w) @ ds1"
    "outputs (lw_pending_documents w1) = outputs (lw_pending_documents w) @ ds1"
    "outputs (lw_shown w2) = outputs (lw_shown w1) @ ds2"
    "outputs (lw_pending_documents w2) = outputs (lw_pending_documents w1) @ ds2" by blast
  then have "\<exists>ds. outputs (lw_shown w2) = outputs (lw_shown w) @ ds
      \<and> outputs (lw_pending_documents w2) = outputs (lw_pending_documents w) @ ds"
    by (intro exI [of _ "ds1 @ ds2"]) simp
  then show ?thesis using d(2,3) e(1-3) by (simp add: carries_def)
qed (simp add: carries_def)

lemma capture_line_effect:
  assumes "capture_container_log_line_locked stamp l w = Inr w'"
  shows "\<exists>m. meaning stamp l = Inr m \<and> carries w w' (heard stamp (lw_active_input_index w) [l])
    \<and> lw_active_input_index w' = active_after stamp (lw_active_input_index w) [l]"
proof -
  from assms obtain t message where p: "parse_container_log_line stamp l = Inr (t, message)"
    unfolding capture_container_log_line_locked_def bind_err_eq_Inr by auto
  let ?s = "strip_spaces message"
  have not_empty: "\<not> prefix LOG_START_MARKER_PREFIX []" "\<not> prefix LOG_END_MARKER_PREFIX []"
    by (simp_all add: LOG_START_MARKER_PREFIX_def LOG_END_MARKER_PREFIX_def)
  consider (start) "prefix LOG_START_MARKER_PREFIX ?s"
    | (over) "\<not> prefix LOG_START_MARKER_PREFIX ?s" "prefix LOG_END_MARKER_PREFIX ?s"
    | (internal) "\<not> prefix LOG_START_MARKER_PREFIX ?s" "\<not> prefix LOG_END_MARKER_PREFIX ?s"
        "is_worker_internal_log_message ?s \<or> ?s = []"
    | (message) "\<not> prefix LOG_START_MARKER_PREFIX ?s" "\<not> prefix LOG_END_MARKER_PREFIX ?s"
        "\<not> is_worker_internal_log_message ?s" "?s \<noteq> []" by blast
  then show ?thesis
  proof cases
    case start
    then obtain i where i: "py_int (removeprefix LOG_START_MARKER_PREFIX ?s) = Inr i"
      and w': "w' = w\<lparr>lw_active_input_index := Some i\<rparr>"
      using assms p by (auto simp: capture_container_log_line_locked_def bind_err_eq_Inr Let_def)
    have "carries w w' []" by (rule calm_carries [OF calm_refl]) (simp_all add: w')
    then show ?thesis using start i p by (simp add: meaning_def w' Let_def)
  next
    case over
    then obtain i where i: "py_int (removeprefix LOG_END_MARKER_PREFIX ?s) = Inr i"
      and w': "w' = (set_end_event i ((queue_document_locked i w)\<lparr>lw_active_input_index := None\<rparr>))\<lparr>lw_pending_flush := True\<rparr>"
      using assms p by (auto simp: capture_container_log_line_locked_def bind_err_eq_Inr Let_def)
    have "carries w w' []" by (rule calm_carries [OF calm_queue [of w i]]) (simp_all add: w' set_end_event_def)
    then show ?thesis using over i p by (simp add: meaning_def w' set_end_event_def Let_def)
  next
    case internal
    then have "w' = w"
      using assms p by (auto simp: capture_container_log_line_locked_def Let_def write_locked_def split: option.splits if_splits)
    then show ?thesis
      using internal p calm_carries [OF calm_refl, of w w] by (simp add: meaning_def Let_def)
  next
    case message
    then have m: "meaning stamp l = Inr (Message (t, truncate_message message))" using p by (simp add: meaning_def Let_def)
    show ?thesis
    proof (cases "lw_active_input_index w")
      case None
      then have "w' = w" using assms p message by (simp add: capture_container_log_line_locked_def Let_def)
      then show ?thesis using m None calm_carries [OF calm_refl, of w w] by simp
    next
      case (Some i)
      then have w': "w' = write_locked i message t w"
        using assms p message by (simp add: capture_container_log_line_locked_def Let_def)
      have a: "lw_active_input_index w' = Some i"
        using Some by (simp add: w' write_locked_active)
      have "heard stamp (Some i) [l] = [(i, t, truncate_message message)]" using m by simp
      moreover have "carries w w' [(i, t, truncate_message message)]"
        using write_locked_effect [OF _ message(4), of w i t] by (simp add: w' carries_def messages_of_def)
      ultimately show ?thesis using m Some a by simp
    qed
  qed
qed

lemma line_meaning_error:
  "capture_container_log_line_locked stamp l w = Inl e \<Longrightarrow> meaning stamp l = Inl e"
proof (cases "parse_container_log_line stamp l")
  case (Inr tm)
  assume c: "capture_container_log_line_locked stamp l w = Inl e"
  obtain t message where tm: "tm = (t, message)" by (cases tm)
  let ?s = "strip_spaces message"
  show ?thesis
  proof (cases "prefix LOG_START_MARKER_PREFIX ?s")
    case True
    then show ?thesis using c Inr tm
      by (cases "py_int (removeprefix LOG_START_MARKER_PREFIX ?s)")
         (simp_all add: capture_container_log_line_locked_def meaning_def Let_def)
  next
    case start: False
    show ?thesis
    proof (cases "prefix LOG_END_MARKER_PREFIX ?s")
      case True
      then show ?thesis using c Inr tm start
        by (cases "py_int (removeprefix LOG_END_MARKER_PREFIX ?s)")
           (simp_all add: capture_container_log_line_locked_def meaning_def Let_def)
    next
      case False
      then show ?thesis using c Inr tm start
        by (simp add: capture_container_log_line_locked_def Let_def split: if_splits option.splits)
    qed
  qed
qed (simp add: capture_container_log_line_locked_def meaning_def)

lemma heard_Cons:
  assumes "meaning stamp l = Inr m"
  shows "heard stamp a (l # ls) = heard stamp a [l] @ heard stamp (active_after stamp a [l]) ls"
    and "active_after stamp a (l # ls) = active_after stamp (active_after stamp a [l]) ls"
  using assms by (auto split: line_meaning.splits option.splits)

lemma capture_lines_effect:
  "capture_lines stamp ls w = (w', e) \<Longrightarrow>
     carries w w' (heard stamp (lw_active_input_index w) ls)
     \<and> lw_active_input_index w' = active_after stamp (lw_active_input_index w) ls
     \<and> (e = None \<longleftrightarrow> (\<forall>l \<in> set ls. line_ok stamp l))"
proof (induction ls arbitrary: w)
  case Nil
  then show ?case using calm_carries [OF calm_refl, of w w] by simp
next
  case (Cons l ls)
  show ?case
  proof (cases "capture_container_log_line_locked stamp l w")
    case (Inl err)
    then show ?thesis using Cons.prems line_meaning_error [OF Inl] calm_carries [OF calm_refl, of w w]
      by (auto simp: line_ok_def)
  next
    case (Inr w1)
    then have "capture_lines stamp ls w1 = (w', e)" using Cons.prems by simp
    from Cons.IH [OF this] capture_line_effect [OF Inr] show ?thesis
      using heard_Cons [of stamp l _ "lw_active_input_index w" ls]
      by (auto simp: line_ok_def intro: carries_trans simp del: heard.simps active_after.simps)
  qed
qed

section \<open>Runs\<close>

definition log_inv :: "(string \<Rightarrow> real result) \<Rightarrow> log_writer \<times> document list \<times> string \<Rightarrow> bool" where
  "log_inv stamp = (\<lambda>(w, posted, out). writer_ok w
     \<and> lw_partial_container_output w = snd (cut_lines out)
     \<and> lw_active_input_index w = active_after stamp None (fst (cut_lines out))
     \<and> (\<forall>i. said i w = messages_of i (heard stamp None (fst (cut_lines out))))
     \<and> outputs (lw_shown w) = outputs posted @ outputs (lw_pending_documents w))"

lemma calm_inv:
  assumes inv: "log_inv stamp (w, posted, out)" and c: "calm w w'"
  shows "log_inv stamp (w', posted, out)"
proof -
  have i: "writer_ok w" "lw_partial_container_output w = snd (cut_lines out)"
    "lw_active_input_index w = active_after stamp None (fst (cut_lines out))"
    "\<And>i. said i w = messages_of i (heard stamp None (fst (cut_lines out)))"
    "outputs (lw_shown w) = outputs posted @ outputs (lw_pending_documents w)"
    using inv by (simp_all add: log_inv_def)
  from calmD(5) [OF c] i(5) have "outputs (lw_shown w') = outputs posted @ outputs (lw_pending_documents w')" by auto
  then show ?thesis using calmD(1) [OF c i(1)] calmD(2-4) [OF c] i(2-4) by (simp add: log_inv_def)
qed

lemma said_same: "outputs (lw_shown w') = outputs (lw_shown w) \<Longrightarrow> lw_log_buffers w' = lw_log_buffers w \<Longrightarrow> said i w' = said i w"
  by (metis buffered_def said_def texts_outputs)

lemma extra_calm:
  assumes "outputs (lw_shown w') = outputs (lw_shown w)"
    "outputs (lw_pending_documents w') = outputs (lw_pending_documents w)"
    "lw_log_buffers w' = lw_log_buffers w" "lw_active_input_index w' = lw_active_input_index w"
    "lw_partial_container_output w' = lw_partial_container_output w"
  shows "calm w w'"
  using said_same [OF assms(1,3)] assms by (simp add: calm_def writer_ok_def)

lemma calm_finish: "calm w (finish_input_logs i w)"
proof -
  let ?w1 = "w\<lparr>lw_input_end_events := ddel i (lw_input_end_events w)\<rparr>"
  have "calm w ?w1" by (rule calm_frame) simp_all
  moreover have "calm ?w1 (queue_document_locked i ?w1)" by (rule calm_queue)
  moreover have "calm (queue_document_locked i ?w1) (finish_input_logs i w)"
    unfolding finish_input_logs_def by (rule calm_frame) simp_all
  ultimately show ?thesis by (meson calm_trans)
qed

lemma calm_queue_all: "calm w (queue_all_buffers_locked w)"
proof -
  have "calm w (fold queue_document_locked ks w)" for ks
    by (induction ks arbitrary: w) (auto intro: calm_refl calm_trans [OF calm_queue])
  then show ?thesis by (simp add: queue_all_buffers_locked_def)
qed

lemma log_step_inv:
  assumes "log_step stamp s s'" "log_inv stamp s" "lf_only (snd (snd s'))"
    "\<forall>l \<in> set (fst (cut_lines (snd (snd s')))). line_ok stamp l"
  shows "log_inv stamp s'"
  using assms
proof (induction rule: log_step.induct)
  case (capture chunk w w' e posted out)
  let ?p = "lw_partial_container_output w"
  obtain ls rest where cut: "cut_lines (?p @ chunk) = (ls, rest)" by fastforce
  have p: "?p = snd (cut_lines out)" and ok: "writer_ok w" and act: "lw_active_input_index w = active_after stamp None (fst (cut_lines out))"
    and sd: "\<And>i. said i w = messages_of i (heard stamp None (fst (cut_lines out)))"
    and sh: "outputs (lw_shown w) = outputs posted @ outputs (lw_pending_documents w)"
    using capture(2) by (simp_all add: log_inv_def)
  have whole: "cut_lines (out @ chunk) = (fst (cut_lines out) @ ls, rest)"
    using cut_append [of out chunk] capture(3) cut p by simp
  let ?w0 = "w\<lparr>lw_partial_container_output := rest\<rparr>"
  have run: "capture_lines stamp ls ?w0 = (w', e)" using capture(1) by (simp add: capture_container_output_def cut)
  note eff = capture_lines_effect [OF run]
  have ok0: "writer_ok ?w0" using ok by (simp add: writer_ok_def)
  have c: "carries ?w0 w' (heard stamp (active_after stamp None (fst (cut_lines out))) ls)" using eff act by simp
  note d = carriesD [OF c ok0]
  have lines: "\<forall>l \<in> set (fst (cut_lines out)). line_ok stamp l" using capture(4) whole by auto
  note ha = heard_append [OF lines, of None ls]
  from d(4) sh have "outputs (lw_shown w') = outputs posted @ outputs (lw_pending_documents w')" by auto
  moreover have "said i w' = messages_of i (heard stamp None (fst (cut_lines out) @ ls))" for i
  proof -
    have "said i ?w0 = said i w" by (simp add: said_def buffered_def)
    then show ?thesis using d(2) [of i] sd ha by simp
  qed
  ultimately show ?case using d(1,3) eff act ha by (simp add: log_inv_def whole)
next
  case (error w posted out i msg now)
  then show ?case by (intro calm_inv [OF error(1)] extra_calm) (simp_all add: write_error_def)
next
  case (warning w posted out i msg now)
  then show ?case by (intro calm_inv [OF warning(1)] extra_calm) (simp_all add: write_warning_def Let_def)
next
  case (finish w posted out i)
  then show ?case using calm_inv [OF _ calm_finish] by blast
next
  case (flush w w' docs posted out)
  let ?w0 = "w\<lparr>lw_pending_flush := False\<rparr>"
  define v where "v = queue_all_buffers_locked ?w0"
  have w': "w' = v\<lparr>lw_pending_documents := []\<rparr>" "docs = lw_pending_documents v"
    using flush(1) by (auto simp: flush_pending_documents_def v_def Let_def)
  have "calm w ?w0" by (rule calm_frame) simp_all
  then have "log_inv stamp (v, posted, out)"
    unfolding v_def by (intro calm_inv [OF flush(2)] calm_trans [OF _ calm_queue_all])
  moreover have "said i w' = said i v" "writer_ok w' = writer_ok v" for i
    by (simp_all add: w' said_def buffered_def writer_ok_def)
  ultimately show ?case by (simp add: log_inv_def) (simp add: w')
qed

lemma log_step_out: "log_step stamp s s' \<Longrightarrow> \<exists>c. snd (snd s') = snd (snd s) @ c"
  by (induction rule: log_step.induct) auto

lemma earlier_lines:
  assumes "lf_only (out @ c)"
  shows "lf_only out" "set (fst (cut_lines out)) \<subseteq> set (fst (cut_lines (out @ c)))"
  using assms cut_append [OF assms] by auto

lemma log_run_inv:
  assumes "(log_step stamp)\<^sup>*\<^sup>* (new_log_writer, [], []) s" "lf_only (snd (snd s))"
    "\<forall>l \<in> set (fst (cut_lines (snd (snd s)))). line_ok stamp l"
  shows "log_inv stamp s"
  using assms
proof (induction rule: rtranclp_induct)
  case base
  show ?case
    by (simp add: log_inv_def new_log_writer_def writer_ok_def cut_lines_def said_def buffered_def messages_of_def)
next
  case (step s s')
  obtain c where c: "snd (snd s') = snd (snd s) @ c" using log_step_out [OF step(2)] by blast
  with step earlier_lines [of "snd (snd s)" c] have "log_inv stamp s" by auto
  with step show ?case by (intro log_step_inv [OF step(2)])
qed


text \<open>
  No document is empty, and none is larger than the limit, unless it is one truncated message,
  which exceeds it by at most its own header of 180 bytes.
\<close>

theorem log_documents_are_bounded:
  assumes "(log_step stamp)\<^sup>*\<^sup>* (new_log_writer, [], []) (w, posted, out)" "lf_only out"
    "\<forall>l \<in> set (fst (cut_lines out)). line_ok stamp l" "d \<in> set (outputs (lw_shown w))"
  shows "dc_logs d \<noteq> [] \<and> (sizes_of (dc_logs d) \<le> MAX_LOG_DOCUMENT_SIZE_BYTES
    \<or> length (dc_logs d) = 1 \<and> sizes_of (dc_logs d) \<le> MAX_LOG_DOCUMENT_SIZE_BYTES + 180)"
  using log_run_inv [OF assms(1)] assms(2-4) by (auto simp: log_inv_def writer_ok_def small_enough_def)

text \<open>An input with one print, its output cut in the middle of a line.\<close>

definition log_stamp :: "string \<Rightarrow> real result" where
  "log_stamp s = (if s = ''T'' then Inr 7 else Inl (ValueError s))"

definition log_text :: "string list" where
  "log_text = [''T __burla_input_start__:3'' @ [LF] @ ''T he'', ''llo'' @ [LF] @ ''T __burla_input_end__:3'' @ [LF]]"

definition log_end :: log_writer where
  "log_end = fst (capture_container_output log_stamp (log_text ! 1)
     (fst (capture_container_output log_stamp (log_text ! 0) new_log_writer)))"

lemma log_end_reached:
  "(log_step log_stamp)\<^sup>*\<^sup>* (new_log_writer, [], []) (log_end, [], log_text ! 0 @ log_text ! 1)"
proof -
  let ?w = "fst (capture_container_output log_stamp (log_text ! 0) new_log_writer)"
  have "log_step log_stamp (new_log_writer, [], []) (?w, [], [] @ log_text ! 0)"
    by (rule log_step.capture [where e = "snd (capture_container_output log_stamp (log_text ! 0) new_log_writer)"]) simp
  moreover have "log_step log_stamp (?w, [], log_text ! 0) (log_end, [], log_text ! 0 @ log_text ! 1)"
    by (rule log_step.capture [where e = "snd (capture_container_output log_stamp (log_text ! 1) ?w)"])
       (simp add: log_end_def)
  ultimately show ?thesis by (simp add: converse_rtranclp_into_rtranclp)
qed

lemma log_text_ok:
  "lf_only (log_text ! 0 @ log_text ! 1)"
  "\<forall>l \<in> set (fst (cut_lines (log_text ! 0 @ log_text ! 1))). line_ok log_stamp l"
  "messages_of 3 (heard log_stamp None (fst (cut_lines (log_text ! 0 @ log_text ! 1)))) = [(7, ''hello'' @ [LF])]"
proof -
  have "list_all (\<lambda>c. is_line_break c \<longrightarrow> c = LF) (log_text ! 0 @ log_text ! 1)" by code_simp
  then show "lf_only (log_text ! 0 @ log_text ! 1)" by (simp add: lf_only_def list_all_iff)
  have "list_all (\<lambda>l. case meaning log_stamp l of Inl e \<Rightarrow> False | Inr m \<Rightarrow> True)
      (fst (cut_lines (log_text ! 0 @ log_text ! 1)))" by code_simp
  then show "\<forall>l \<in> set (fst (cut_lines (log_text ! 0 @ log_text ! 1))). line_ok log_stamp l"
    by (auto simp: list_all_iff line_ok_cases)
  show "messages_of 3 (heard log_stamp None (fst (cut_lines (log_text ! 0 @ log_text ! 1)))) = [(7, ''hello'' @ [LF])]"
    by code_simp
qed


lemma log_end_shown: "outputs (lw_shown log_end) = [\<lparr>dc_logs = [(7, ''hello'' @ [LF])], dc_input_index = 3, dc_kind = Output\<rparr>]"
  by code_simp

theorem log_documents_are_bounded_witness: "sizes_of [(7, ''hello'' @ [LF])] \<le> MAX_LOG_DOCUMENT_SIZE_BYTES + 180"
  using log_documents_are_bounded [OF log_end_reached log_text_ok(1,2),
      of "\<lparr>dc_logs = [(7, ''hello'' @ [LF])], dc_input_index = 3, dc_kind = Output\<rparr>"]
  by (auto simp: log_end_shown)

section \<open>What a carriage return does\<close>

text \<open>
  A carriage return inside a line, as progress bars print it, makes a second line without a time: its
  parse raises, and the lines after it in the same piece of output are lost.
\<close>

lemma carriage_return_loses_output:
  "(let (w, e) = capture_container_output log_stamp
      (''T __burla_input_start__:3'' @ [LF] @ ''T 1%'' @ [CHR 0x0D] @ ''2%'' @ [LF] @ ''T done'' @ [LF]) new_log_writer
    in said 3 w = [(7, ''1%'' @ [CHR 0x0D])] \<and> e = Some (ValueError (''2%'' @ [LF])))"
  by code_simp

text \<open>A message a little under the limit is kept whole and yet marked as truncated.\<close>

lemma whole_message_marked_truncated:
  assumes "99820 < length m" "length m \<le> 99951"
  shows "truncate_message m = m @ TRUNCATED_LOG_SUFFIX"
  using assms by (simp add: truncate_message_def message_size_def MAX_LOG_DOCUMENT_SIZE_BYTES_def TRUNCATED_LOG_SUFFIX_def)

end
