(* ===== verification/Memory_Monitor.thy ===== *)
theory Memory_Monitor
  imports Node_Inputs Job_Watcher
begin

text \<open>
  The memory monitor of a node, \<open>dynamic_ram_monitor_loop\<close> in \<open>worker_client.py\<close>, with the loops that
  recover capacity: what they read, what they decide, and the clocks and averages they keep. The
  readings (resident sizes, pressure files, swap) are arguments. One tick reads the clock once. The
  decisions are carried out by the operations of \<open>Node_State\<close>, which check again under their lock.
\<close>

section \<open>Constants\<close>

definition DYNAMIC_RAM_TARGET_WORKER_MEMORY_USED_FRACTION :: real where
  "DYNAMIC_RAM_TARGET_WORKER_MEMORY_USED_FRACTION = 9 / 10"
definition MEMORY_HIGH_WORKER_MEMORY_FRACTION :: real where "MEMORY_HIGH_WORKER_MEMORY_FRACTION = 985 / 1000"
definition MEMORY_PSI_SOME_PARK_FRACTION :: real where "MEMORY_PSI_SOME_PARK_FRACTION = 5 / 100"
definition STALL_SHED_COOLDOWN_SECONDS :: real where "STALL_SHED_COOLDOWN_SECONDS = 5"
definition SHED_ESCALATION_WINDOW_SECONDS :: real where "SHED_ESCALATION_WINDOW_SECONDS = 30"
definition SHED_ESCALATION_MAX_FRACTION :: real where "SHED_ESCALATION_MAX_FRACTION = 25 / 100"
definition SWAP_NEARLY_FULL_FRACTION :: real where "SWAP_NEARLY_FULL_FRACTION = 9 / 10"
definition MEMORY_PSI_FULL_KILL_FRACTION :: real where "MEMORY_PSI_FULL_KILL_FRACTION = 15 / 100"
definition MEMORY_PSI_FULL_KILL_SECONDS :: real where "MEMORY_PSI_FULL_KILL_SECONDS = 10"
definition RECLAIM_PROGRESS_GRACE_SECONDS :: real where "RECLAIM_PROGRESS_GRACE_SECONDS = 2"
definition RESUME_MEMORY_HEADROOM_FRACTION :: real where "RESUME_MEMORY_HEADROOM_FRACTION = 85 / 100"
definition PARKED_UNRESUMABLE_KILL_SECONDS :: real where "PARKED_UNRESUMABLE_KILL_SECONDS = 30"
definition DYNAMIC_RAM_STARTUP_MONITOR_SECONDS :: real where "DYNAMIC_RAM_STARTUP_MONITOR_SECONDS = 30"
definition DYNAMIC_RAM_STARTUP_MONITOR_INTERVAL_SECONDS :: real where
  "DYNAMIC_RAM_STARTUP_MONITOR_INTERVAL_SECONDS = 5 / 100"
definition DYNAMIC_RAM_MONITOR_INTERVAL_SECONDS :: real where
  "DYNAMIC_RAM_MONITOR_INTERVAL_SECONDS = 25 / 100"

definition monitor_interval :: "real \<Rightarrow> real \<Rightarrow> real" where
  "monitor_interval started_at now =
     (if now - started_at < DYNAMIC_RAM_STARTUP_MONITOR_SECONDS
      then DYNAMIC_RAM_STARTUP_MONITOR_INTERVAL_SECONDS else DYNAMIC_RAM_MONITOR_INTERVAL_SECONDS)"

section \<open>Readings\<close>

text \<open>
  What a tick reads of one active worker. \<open>None\<close> stands for an exception: the process, or its
  cgroup, is gone.
\<close>

record gauge =
  g_worker :: worker
  g_rss_bytes :: "int option"
  g_attempt_peak_rss_bytes :: int
  g_attempt_elapsed_seconds :: real
  g_network_bound :: bool
  g_swap_parked :: bool
  g_swap_current_bytes :: "int option"
  g_reclaim_in_progress :: bool
  g_last_reclaim_progress_at :: real

text \<open>The workers' slice, when isolation is active, and the node's swap.\<close>

record slice_gauge =
  sl_unreclaimable_bytes :: int
  sl_psi_some_avg10 :: real
  sl_psi_full_avg10 :: real

record readings =
  rd_active :: "gauge list"
  rd_memory_limit :: "int option"
  rd_slice :: "slice_gauge option"
  rd_swap_total :: int
  rd_swap_percent :: real

record monitor =
  mo_worker_memory_limit_bytes :: "int option"
  mo_memory_high_active :: bool
  mo_psi_thrashing_since :: "real option"
  mo_unresumable_since :: "real option"
  mo_shed_times :: "real list"

definition new_monitor :: monitor where
  "new_monitor = \<lparr>mo_worker_memory_limit_bytes = None, mo_memory_high_active = False,
     mo_psi_thrashing_since = None, mo_unresumable_since = None, mo_shed_times = []\<rparr>"

definition g_throttled :: "gauge \<Rightarrow> bool" where "g_throttled g = w_throttled (g_worker g)"
definition g_input :: "gauge \<Rightarrow> job_input option" where "g_input g = w_current_input (g_worker g)"
definition g_idle :: "gauge \<Rightarrow> bool" where "g_idle g = w_is_idle (g_worker g)"

text \<open>\<open>worker_memory\<close>: the workers whose resident size could be read. The attempt's peak follows it.\<close>

definition worker_memory :: "gauge list \<Rightarrow> (int \<times> gauge) list" where
  "worker_memory gs = List.map_filter (\<lambda>g. map_option (\<lambda>rss. (rss, g)) (g_rss_bytes g)) gs"

definition observed_peak :: "gauge \<Rightarrow> int" where
  "observed_peak g =
     (case g_rss_bytes g of None \<Rightarrow> g_attempt_peak_rss_bytes g
      | Some rss \<Rightarrow> max (g_attempt_peak_rss_bytes g) rss)"

definition is_running :: "gauge \<Rightarrow> bool" where
  "is_running g \<longleftrightarrow> \<not> g_throttled g \<and> \<not> g_idle g \<and> g_input g \<noteq> None"

definition running_worker_memory :: "(int \<times> gauge) list \<Rightarrow> (int \<times> gauge) list" where
  "running_worker_memory wm = sort_key fst (filter (\<lambda>(rss, g). is_running g) wm)"

definition throttled_worker_memory :: "(int \<times> gauge) list \<Rightarrow> (int \<times> gauge) list" where
  "throttled_worker_memory wm =
     sort_key (\<lambda>x. - fst x) (filter (\<lambda>(rss, g). g_throttled g \<and> g_input g \<noteq> None) wm)"

definition used_memory_bytes :: "readings \<Rightarrow> int" where
  "used_memory_bytes rd =
     (case rd_slice rd of
        Some sl \<Rightarrow> sl_unreclaimable_bytes sl
      | None \<Rightarrow> sum_list (map fst (worker_memory (rd_active rd))))"

definition reclaim_in_flight :: "readings \<Rightarrow> bool" where
  "reclaim_in_flight rd = list_ex g_reclaim_in_progress (rd_active rd)"

definition reclaim_recovering :: "real \<Rightarrow> readings \<Rightarrow> bool" where
  "reclaim_recovering now rd =
     list_ex (\<lambda>g. g_reclaim_in_progress g
         \<and> now - g_last_reclaim_progress_at g < RECLAIM_PROGRESS_GRACE_SECONDS) (rd_active rd)"

section \<open>Parked workers nobody can resume\<close>

definition swap_parked_worker_resumable :: "gauge \<Rightarrow> int \<Rightarrow> int \<Rightarrow> bool" where
  "swap_parked_worker_resumable g used_bytes limit_bytes =
     (case g_swap_current_bytes g of
        None \<Rightarrow> True
      | Some b \<Rightarrow> real_of_int (used_bytes + b) / real_of_int limit_bytes < RESUME_MEMORY_HEADROOM_FRACTION)"

definition any_parked_worker_resumable :: "gauge list \<Rightarrow> int \<Rightarrow> int \<Rightarrow> bool" where
  "any_parked_worker_resumable gs used_bytes limit_bytes =
     list_ex (\<lambda>g. g_throttled g
         \<and> (\<not> g_swap_parked g \<or> swap_parked_worker_resumable g used_bytes limit_bytes)) gs"

definition swap_parked_memory :: "(int \<times> gauge) list \<Rightarrow> (int \<times> gauge) list" where
  "swap_parked_memory wm = filter (\<lambda>(rss, g). g_swap_parked g \<and> g_input g \<noteq> None) wm"

definition deadlocked :: "int \<Rightarrow> readings \<Rightarrow> bool" where
  "deadlocked limit_bytes rd \<longleftrightarrow>
     swap_parked_memory (worker_memory (rd_active rd)) \<noteq> []
     \<and> list_ex (\<lambda>g. g_idle g \<and> \<not> g_throttled g) (rd_active rd)
     \<and> \<not> reclaim_in_flight rd
     \<and> \<not> any_parked_worker_resumable (rd_active rd) (used_memory_bytes rd) limit_bytes"

text \<open>
  A condition that has to hold for longer than \<open>patience\<close> before it counts: the new start of the
  condition, and whether it counts now, which starts it over.
\<close>

definition sustained :: "real \<Rightarrow> real \<Rightarrow> bool \<Rightarrow> real option \<Rightarrow> real option \<times> bool" where
  "sustained patience now holds since =
     (if \<not> holds then (None, False)
      else case since of
             None \<Rightarrow> (Some now, False)
           | Some t \<Rightarrow> if now - t > patience then (None, True) else (Some t, False))"

section \<open>Pressure\<close>

definition over_byte_trigger :: "int \<Rightarrow> readings \<Rightarrow> bool" where
  "over_byte_trigger limit_bytes rd \<longleftrightarrow>
     real_of_int (used_memory_bytes rd) / real_of_int limit_bytes \<ge> DYNAMIC_RAM_MAX_WORKER_MEMORY_USED_FRACTION"

definition stall_pressured :: "real \<Rightarrow> real \<Rightarrow> readings \<Rightarrow> bool" where
  "stall_pressured now last_pressure_retirement_at rd \<longleftrightarrow>
     (case rd_slice rd of Some sl \<Rightarrow> sl_psi_some_avg10 sl | None \<Rightarrow> 0) \<ge> MEMORY_PSI_SOME_PARK_FRACTION
     \<and> \<not> reclaim_in_flight rd
     \<and> now - last_pressure_retirement_at \<ge> STALL_SHED_COOLDOWN_SECONDS"

definition bytes_to_free :: "int \<Rightarrow> readings \<Rightarrow> int" where
  "bytes_to_free limit_bytes rd =
     max 0 (used_memory_bytes rd
       - \<lfloor>real_of_int limit_bytes * DYNAMIC_RAM_TARGET_WORKER_MEMORY_USED_FRACTION\<rfloor>)"

text \<open>Whether parking cannot help any more, with the clock of thrashing.\<close>

definition kill_reason :: "real \<Rightarrow> readings \<Rightarrow> real option \<Rightarrow> real option \<times> string option" where
  "kill_reason now rd since =
     (if rd_swap_total rd = 0 then (since, Some ''memory pressure (no swap on this node)'')
      else if rd_swap_percent rd \<ge> SWAP_NEARLY_FULL_FRACTION * 100
      then (since, Some ''memory pressure (swap nearly full)'')
      else case rd_slice rd of
             None \<Rightarrow> (since, None)
           | Some sl \<Rightarrow>
               (let (since', kill) = sustained MEMORY_PSI_FULL_KILL_SECONDS now
                       (sl_psi_full_avg10 sl > MEMORY_PSI_FULL_KILL_FRACTION \<and> \<not> reclaim_recovering now rd) since
                in (since', if kill then Some ''memory pressure (reclaim not recovering)'' else None)))"

section \<open>Choosing workers\<close>

text \<open>The loop of the kill path, with the workers and bytes selected so far.\<close>

fun kill_loop :: "nat \<Rightarrow> int \<Rightarrow> nat \<Rightarrow> int \<Rightarrow> (int \<times> gauge) list \<Rightarrow> (int \<times> gauge) list" where
  "kill_loop n_workers target selected selected_bytes [] = []"
| "kill_loop n_workers target selected selected_bytes ((rss, g) # cs) =
     (if int n_workers - int selected \<le> 1 then []
      else if selected_bytes + rss \<ge> target then [(rss, g)]
      else (rss, g) # kill_loop n_workers target (Suc selected) (selected_bytes + rss) cs)"

definition kill_candidates :: "(int \<times> gauge) list \<Rightarrow> (int \<times> gauge) list" where
  "kill_candidates wm = throttled_worker_memory wm @ running_worker_memory wm"

definition kill_selection :: "int \<Rightarrow> (int \<times> gauge) list \<Rightarrow> (int \<times> gauge) list" where
  "kill_selection target wm = kill_loop (length wm) target 0 0 (kill_candidates wm)"

text \<open>Without a swap rate every worker is parked.\<close>

definition kill_instead_of_park :: "real option \<Rightarrow> int \<times> gauge \<Rightarrow> bool" where
  "kill_instead_of_park swap_bytes_per_sec = (\<lambda>(rss, g).
     case swap_bytes_per_sec of
       None \<Rightarrow> False
     | Some r \<Rightarrow> g_network_bound g \<or> g_attempt_elapsed_seconds g < 2 * real_of_int rss / r)"

text \<open>The loop of the shed path: who is killed, who is parked.\<close>

fun shed_loop ::
  "real option \<Rightarrow> bool \<Rightarrow> int \<Rightarrow> nat \<Rightarrow> nat \<Rightarrow> int \<Rightarrow> (int \<times> gauge) list
    \<Rightarrow> (int \<times> gauge) list \<times> (int \<times> gauge) list" where
  "shed_loop rate in_flight target min_count decided bytes [] = ([], [])"
| "shed_loop rate in_flight target min_count decided bytes ((rss, g) # cs) =
     (if \<not> kill_instead_of_park rate (rss, g) \<and> in_flight
      then shed_loop rate in_flight target min_count decided bytes cs
      else
        (let (ks, ps) = (if bytes + rss \<ge> target \<and> Suc decided \<ge> min_count then ([], [])
                         else shed_loop rate in_flight target min_count (Suc decided) (bytes + rss) cs)
         in if kill_instead_of_park rate (rss, g) then ((rss, g) # ks, ps) else (ks, (rss, g) # ps)))"

definition min_shed_count :: "nat \<Rightarrow> nat \<Rightarrow> nat" where
  "min_shed_count recent_sheds n_running =
     min (2 ^ recent_sheds) (max 1 (nat \<lfloor>real n_running * SHED_ESCALATION_MAX_FRACTION\<rfloor>))"

definition recent_shed_times :: "real \<Rightarrow> real list \<Rightarrow> real list" where
  "recent_shed_times now ts = filter (\<lambda>t. now - t < SHED_ESCALATION_WINDOW_SECONDS) ts"

definition shed_selection ::
  "real option \<Rightarrow> readings \<Rightarrow> int \<Rightarrow> nat \<Rightarrow> (int \<times> gauge) list \<times> (int \<times> gauge) list" where
  "shed_selection rate rd limit_bytes recent_sheds =
     (let running = running_worker_memory (worker_memory (rd_active rd))
      in shed_loop rate (reclaim_in_flight rd) (bytes_to_free limit_bytes rd)
           (min_shed_count recent_sheds (length running)) 0 0 (butlast running))"

section \<open>A tick\<close>

text \<open>
  What a tick does: look for workers whose process vanished, set the slice's \<open>memory.high\<close>, retire
  workers, park workers.
\<close>

datatype monitor_action =
    Relocate worker
  | MemoryHigh "int option"
  | Retire "worker list"
  | Park "worker list"

definition workers_of :: "(int \<times> gauge) list \<Rightarrow> worker list" where
  "workers_of wm = map (g_worker \<circ> snd) wm"

text \<open>The stall net of the kernel is on while more than one worker is left.\<close>

definition set_memory_high :: "int \<Rightarrow> readings \<Rightarrow> monitor \<Rightarrow> monitor \<times> monitor_action list" where
  "set_memory_high limit_bytes rd mo =
     (let want = length (worker_memory (rd_active rd)) > 1
      in if rd_slice rd = None \<or> want = mo_memory_high_active mo then (mo, [])
         else (mo\<lparr>mo_memory_high_active := want\<rparr>,
               [MemoryHigh (if want then Some \<lfloor>real_of_int limit_bytes * MEMORY_HIGH_WORKER_MEMORY_FRACTION\<rfloor>
                            else None)]))"

text \<open>The shed path: who is running, how many at least, kill or park.\<close>

definition shed_path ::
  "real \<Rightarrow> real option \<Rightarrow> readings \<Rightarrow> int \<Rightarrow> monitor \<Rightarrow> monitor \<times> monitor_action list" where
  "shed_path now rate rd limit_bytes mo =
     (if length (running_worker_memory (worker_memory (rd_active rd))) \<le> 1 then (mo, [])
      else
        (let recent = recent_shed_times now (mo_shed_times mo);
             (ks, ps) = shed_selection rate rd limit_bytes (length recent)
         in (mo\<lparr>mo_shed_times := if ks = [] \<and> ps = [] then recent else recent @ [now]\<rparr>,
             (if ks = [] then [] else [Retire (workers_of ks)])
             @ (if ps = [] then [] else [Park (workers_of ps)]))))"

definition pressure_path ::
  "real \<Rightarrow> real option \<Rightarrow> real \<Rightarrow> readings \<Rightarrow> int \<Rightarrow> monitor \<Rightarrow> monitor \<times> monitor_action list" where
  "pressure_path now rate last_pressure_retirement_at rd limit_bytes mo =
     (let wm = worker_memory (rd_active rd)
      in if \<not> over_byte_trigger limit_bytes rd \<and> \<not> stall_pressured now last_pressure_retirement_at rd
         then (mo\<lparr>mo_psi_thrashing_since := None\<rparr>, [])
         else if length wm \<le> 1 then (mo, [])
         else
           (let (since, reason) = kill_reason now rd (mo_psi_thrashing_since mo);
                mo1 = mo\<lparr>mo_psi_thrashing_since := since\<rparr>
            in if reason \<noteq> None then
                 (mo1, if kill_candidates wm = [] then []
                       else [Retire (workers_of (kill_selection (bytes_to_free limit_bytes rd) wm))])
               else shed_path now rate rd limit_bytes mo1))"

text \<open>A whole tick after its sleep; \<open>None\<close>: no worker is left and the loop ends.\<close>

definition monitor_tick ::
  "real \<Rightarrow> real option \<Rightarrow> real \<Rightarrow> readings \<Rightarrow> monitor \<Rightarrow> (monitor \<times> monitor_action list) option" where
  "monitor_tick now rate last_pressure_retirement_at rd mo0 =
     (if rd_active rd = [] then None
      else
        (let mo = (if mo_worker_memory_limit_bytes mo0 = None
                   then mo0\<lparr>mo_worker_memory_limit_bytes := rd_memory_limit rd\<rparr> else mo0);
             wm = worker_memory (rd_active rd);
             gone = map (Relocate \<circ> g_worker) (filter (\<lambda>g. g_rss_bytes g = None) (rd_active rd))
         in case mo_worker_memory_limit_bytes mo of
              None \<Rightarrow> Some (mo, [])
            | Some limit_bytes \<Rightarrow>
                if wm = [] then Some (mo, gone)
                else
                  (let (mo1, high) = set_memory_high limit_bytes rd mo;
                       (since, kill) = sustained PARKED_UNRESUMABLE_KILL_SECONDS now
                          (deadlocked limit_bytes rd) (mo_unresumable_since mo1);
                       mo2 = mo1\<lparr>mo_unresumable_since := since\<rparr>
                   in if kill then
                        Some (mo2, gone @ high
                          @ [Retire (workers_of (take 1 (sort_key (\<lambda>x. - fst x) (swap_parked_memory wm))))])
                      else
                        (let (mo3, acts) = pressure_path now rate last_pressure_retirement_at rd limit_bytes mo2
                         in Some (mo3, gone @ high @ acts)))))"

text \<open>What an action does to the node's state; \<open>vanished\<close> says which containers are gone too.\<close>

fun do_action :: "real \<Rightarrow> (string \<Rightarrow> bool) \<Rightarrow> monitor_action \<Rightarrow> self \<Rightarrow> self" where
  "do_action now vanished (Relocate w) s =
     (if vanished (w_name w) then retire_vanished_worker now (w_name w) s else s)"
| "do_action now vanished (MemoryHigh b) s = s"
| "do_action now vanished (Retire ws) s = retire_workers_for_pressure now ws s"
| "do_action now vanished (Park ws) s = park_workers_for_memory now ws s"

definition do_actions :: "real \<Rightarrow> (string \<Rightarrow> bool) \<Rightarrow> monitor_action list \<Rightarrow> self \<Rightarrow> self" where
  "do_actions now vanished acts s = foldl (\<lambda>s a. do_action now vanished a s) s acts"

end
