(* ===== verification/Recovery.thy ===== *)
theory Recovery
  imports Memory_Monitor
begin

text \<open>
  Measuring and recovering capacity (\<open>worker_client.py\<close>): the moving averages and samplers behind the
  gates, the room for another worker, reclaiming the memory of a parked worker, and the loop that
  resumes parked workers and boots new ones. Counters read from the kernel are arguments; a counter
  that cannot be read is \<open>None\<close>.
\<close>

section \<open>Averages and samplers\<close>

record ewma =
  ew_tau_seconds :: real
  ew_value :: real
  ew_last_update_at :: "real option"

definition new_ewma :: "real \<Rightarrow> ewma" where
  "new_ewma tau = \<lparr>ew_tau_seconds = tau, ew_value = 0, ew_last_update_at = None\<rparr>"

definition ewma_update :: "real \<Rightarrow> real \<Rightarrow> ewma \<Rightarrow> ewma" where
  "ewma_update now sample e =
     e\<lparr>ew_value := (case ew_last_update_at e of
          None \<Rightarrow> sample
        | Some t \<Rightarrow> ew_value e + (sample - ew_value e) * (1 - exp (- (now - t) / ew_tau_seconds e))),
       ew_last_update_at := Some now\<rparr>"

text \<open>\<open>WorkerStallTracker\<close>: the last reading of every container; a worker whose file is gone is skipped.\<close>

type_synonym stall_tracker = "(int \<times> real) dict"

fun max_stall_fraction ::
  "(string \<times> int option \<times> real) list \<Rightarrow> real \<Rightarrow> stall_tracker \<Rightarrow> stall_tracker \<times> real" where
  "max_stall_fraction [] acc t = (t, acc)"
| "max_stall_fraction ((container, stall, read_at) # ws) acc t =
     (case stall of
        None \<Rightarrow> max_stall_fraction ws acc t
      | Some usec \<Rightarrow>
          (case map_of t container of
             None \<Rightarrow> max_stall_fraction ws acc (dset container (usec, read_at) t)
           | Some (last_usec, last_read_at) \<Rightarrow>
               max_stall_fraction ws
                 (max acc (real_of_int (usec - last_usec) / ((read_at - last_read_at) * 1000000)))
                 (dset container (usec, read_at) t)))"

text \<open>
  \<open>AddGateSampler\<close>: the counters of disk, memory and network at the last sample; \<open>None\<close> stands for a
  signal this machine does not have. The capacity of the link is in bytes per second.
\<close>

record gate_sampler =
  gs_last_io_stall_usec :: "int option"
  gs_last_memory_stall_usec :: "int option"
  gs_nic_capacity :: "real option"
  gs_last_nic_bytes :: int
  gs_last_read_at :: real

definition gate_sample :: "real \<Rightarrow> int \<Rightarrow> int \<Rightarrow> int \<Rightarrow> gate_sampler \<Rightarrow> gate_sampler \<times> real \<times> real \<times> real" where
  "gate_sample read_at io_usec memory_usec nic_bytes g =
     (let elapsed = read_at - gs_last_read_at g;
          rate = (\<lambda>now last. case last of None \<Rightarrow> 0
                    | Some l \<Rightarrow> real_of_int (now - l) / (elapsed * 1000000))
      in (g\<lparr>gs_last_io_stall_usec := map_option (\<lambda>_. io_usec) (gs_last_io_stall_usec g),
            gs_last_memory_stall_usec := map_option (\<lambda>_. memory_usec) (gs_last_memory_stall_usec g),
            gs_last_nic_bytes := (if gs_nic_capacity g = None then gs_last_nic_bytes g else nic_bytes),
            gs_last_read_at := read_at\<rparr>,
          rate io_usec (gs_last_io_stall_usec g),
          (case gs_nic_capacity g of None \<Rightarrow> 0
             | Some c \<Rightarrow> real_of_int (nic_bytes - gs_last_nic_bytes g) / elapsed / c),
          rate memory_usec (gs_last_memory_stall_usec g)))"

text \<open>\<open>_primary_nic\<close>: the rows of the routing table (interface, destination) and the link speed.\<close>

definition primary_nic :: "(string \<times> string) list \<Rightarrow> (string \<Rightarrow> int option) \<Rightarrow> string option \<times> real option" where
  "primary_nic routes speed =
     (case List.find (\<lambda>(nic, dest). dest = ''00000000'') routes of
        None \<Rightarrow> (None, None)
      | Some (nic, dest) \<Rightarrow>
          (case speed nic of
             None \<Rightarrow> (Some nic, None)
           | Some mbps \<Rightarrow> (Some nic, if mbps \<le> 0 then None else Some (real_of_int mbps * 1000000 / 8))))"

text \<open>
  \<open>SliceCpuSampler\<close>: \<open>usage\<close> is the slice's counter, if it can be read, \<open>fallback\<close> what psutil says.
\<close>

definition slice_cpu_sample ::
  "real \<Rightarrow> int option \<Rightarrow> real \<Rightarrow> int \<Rightarrow> (int \<times> real) option \<Rightarrow> (int \<times> real) option \<times> real" where
  "slice_cpu_sample read_at usage fallback n_cpus last_sample =
     (case usage of
        None \<Rightarrow> (last_sample, fallback)
      | Some u \<Rightarrow>
          (Some (u, read_at),
           case last_sample of
             None \<Rightarrow> fallback
           | Some (u0, t0) \<Rightarrow>
               real_of_int (u - u0) / ((read_at - t0) * 1000000 * real_of_int (if n_cpus = 0 then 1 else n_cpus))))"

section \<open>The CPU monitor\<close>

definition CPU_WEIGHT_DEFAULT :: int where "CPU_WEIGHT_DEFAULT = 100"
definition CPU_WEIGHT_MAX :: int where "CPU_WEIGHT_MAX = 10000"

definition cpu_weight :: "real \<Rightarrow> int" where
  "cpu_weight cpu_seconds = min CPU_WEIGHT_MAX (CPU_WEIGHT_DEFAULT + \<lfloor>cpu_seconds\<rfloor>)"

text \<open>
  A tick of \<open>dynamic_cpu_loop\<close>: processes that vanished are looked for, every running worker gets its
  weight, the measured utilization is kept. \<open>None\<close>: no worker is left and the loop ends.
\<close>

definition cpu_tick ::
  "real \<Rightarrow> (string \<Rightarrow> bool) \<Rightarrow> real \<Rightarrow> self \<Rightarrow> (self \<times> (string \<times> int) list) option" where
  "cpu_tick now vanished utilization s =
     (if alive_workers s = [] then None
      else
        (let unthrottled = filter (\<lambda>w. \<not> w_throttled w) (alive_workers s);
             s1 = foldl (\<lambda>s w. if vanished (w_name w) then retire_vanished_worker now (w_name w) s else s) s unthrottled;
             weighted = filter (\<lambda>w. \<not> w_is_idle w \<and> w_current_input w \<noteq> None)
                          (List.map_filter (\<lambda>w. find_worker s1 (w_name w)) unthrottled)
         in Some (s1\<lparr>s_cpu_utilization := utilization\<rparr>,
                  map (\<lambda>w. (w_name w, cpu_weight (w_attempt_cpu_seconds w))) weighted)))"

section \<open>Attempts\<close>

definition SWAP_RATE_EWMA_ALPHA :: real where "SWAP_RATE_EWMA_ALPHA = 3 / 10"
definition ATTEMPT_PEAK_EWMA_ALPHA :: real where "ATTEMPT_PEAK_EWMA_ALPHA = 3 / 10"
definition SWAP_RATE_MIN_SAMPLE_BYTES :: int where "SWAP_RATE_MIN_SAMPLE_BYTES = 64 * 1024 ^ 2"
definition NETWORK_BOUND_WINDOW_SECONDS :: real where "NETWORK_BOUND_WINDOW_SECONDS = 3"
definition NETWORK_BOUND_MIN_RX_BYTES :: int where "NETWORK_BOUND_MIN_RX_BYTES = 1024 ^ 2"

definition observe_swap_rate :: "real \<Rightarrow> real option \<Rightarrow> real option" where
  "observe_swap_rate bytes_per_sec current =
     (case current of None \<Rightarrow> Some bytes_per_sec
      | Some c \<Rightarrow> Some (c + SWAP_RATE_EWMA_ALPHA * (bytes_per_sec - c)))"

definition observe_attempt_peak :: "real \<Rightarrow> real option \<Rightarrow> real option" where
  "observe_attempt_peak peak_rss_bytes current =
     (case current of None \<Rightarrow> Some peak_rss_bytes
      | Some c \<Rightarrow> Some (c + ATTEMPT_PEAK_EWMA_ALPHA * (peak_rss_bytes - c)))"

text \<open>\<open>sample_activity\<close>: the anchor of the current window and whether a download is in flight.\<close>

definition sample_activity ::
  "real \<Rightarrow> int option \<Rightarrow> (real \<times> int) option \<Rightarrow> bool \<Rightarrow> (real \<times> int) option \<times> bool" where
  "sample_activity now rx_bytes anchor network_bound =
     (case rx_bytes of
        None \<Rightarrow> (anchor, network_bound)
      | Some rx \<Rightarrow>
          (case anchor of
             None \<Rightarrow> (Some (now, rx), network_bound)
           | Some (at_time, rx0) \<Rightarrow>
               if now - at_time < NETWORK_BOUND_WINDOW_SECONDS then (anchor, network_bound)
               else (Some (now, rx), rx - rx0 \<ge> NETWORK_BOUND_MIN_RX_BYTES)))"

text \<open>
  \<open>_another_worker_fits\<close>: \<open>peaks\<close> are the peaks of the running attempts so far. Whether the slice stays
  under the trigger if each of them and one more reach a typical peak.
\<close>

definition expected_peak :: "real option \<Rightarrow> real list \<Rightarrow> real" where
  "expected_peak typical peaks =
     (case typical of Some p \<Rightarrow> p | None \<Rightarrow> if peaks = [] then 0 else Max (set peaks))"

definition another_worker_fits :: "real option \<Rightarrow> real \<Rightarrow> real \<Rightarrow> real list \<Rightarrow> bool" where
  "another_worker_fits typical used_bytes limit_bytes peaks =
     (let peak = expected_peak typical peaks
      in if peak = 0 then used_bytes / limit_bytes \<le> READD_MAX_WORKER_MEMORY_USED_FRACTION
         else (used_bytes + (\<Sum>p\<leftarrow>peaks. max 0 (peak - p)) + peak) / limit_bytes
                \<le> DYNAMIC_RAM_MAX_WORKER_MEMORY_USED_FRACTION)"

section \<open>Reclaiming the memory of a parked worker\<close>

definition MEMORY_RECLAIM_CHUNK_BYTES :: int where "MEMORY_RECLAIM_CHUNK_BYTES = 64 * 1024 ^ 2"

text \<open>
  One chunk: whether the worker was retired or resumed meanwhile, its memory before and after, and
  whether the write failed for good.
\<close>

record reclaim_chunk =
  rc_aborted :: bool
  rc_start_bytes :: int
  rc_end_bytes :: int
  rc_broken :: bool
  rc_time :: real

datatype reclaim_outcome = Reclaimed | Aborted | Stalled | Broken

text \<open>The loop of \<open>reclaim_memory_sync\<close>: the outcome, the chunks used and the time of the last progress.\<close>

definition chunk_progress :: "reclaim_chunk \<Rightarrow> bool" where
  "chunk_progress c \<longleftrightarrow> rc_start_bytes c - rc_end_bytes c \<ge> 1024 ^ 2"

function reclaim_loop ::
  "(nat \<Rightarrow> reclaim_chunk) \<Rightarrow> nat \<Rightarrow> int \<Rightarrow> nat \<Rightarrow> real \<Rightarrow> reclaim_outcome \<times> nat \<times> real" where
  "reclaim_loop chunk k remaining no_progress last_progress =
     (if remaining \<le> 0 then (Reclaimed, k, last_progress)
      else if rc_aborted (chunk k) then (Aborted, k, last_progress)
      else if rc_broken (chunk k) then (Broken, k, last_progress)
      else if \<not> chunk_progress (chunk k) then
        (if Suc no_progress \<ge> 2 then (Stalled, Suc k, last_progress)
         else reclaim_loop chunk (Suc k) (remaining - min MEMORY_RECLAIM_CHUNK_BYTES remaining)
                (Suc no_progress) last_progress)
      else reclaim_loop chunk (Suc k) (remaining - min MEMORY_RECLAIM_CHUNK_BYTES remaining) 0
             (rc_time (chunk k)))"
  by pat_completeness auto

termination
  by (relation "measure (\<lambda>(chunk, k, remaining, n, t). nat remaining)")
    (auto simp: MEMORY_RECLAIM_CHUNK_BYTES_def)

declare reclaim_loop.simps [simp del]

definition reclaim_memory :: "(nat \<Rightarrow> reclaim_chunk) \<Rightarrow> int \<Rightarrow> real \<Rightarrow> reclaim_outcome \<times> nat \<times> real" where
  "reclaim_memory chunk current_bytes now = reclaim_loop chunk 0 current_bytes 0 now"

text \<open>What the finished reclaim teaches about the swap: nothing when it was broken or too small.\<close>

definition reclaim_parked_worker_memory ::
  "reclaim_outcome \<Rightarrow> int \<Rightarrow> real \<Rightarrow> real option \<Rightarrow> real option" where
  "reclaim_parked_worker_memory outcome reclaimed_bytes duration rate =
     (if outcome \<noteq> Broken \<and> reclaimed_bytes \<ge> SWAP_RATE_MIN_SAMPLE_BYTES
      then observe_swap_rate (real_of_int reclaimed_bytes / duration) rate else rate)"

section \<open>The recovery loop\<close>

definition CPU_PRESSURE_RAW_RECOVER_SECONDS :: nat where "CPU_PRESSURE_RAW_RECOVER_SECONDS = 3"

text \<open>The averages of the loop and the streak of raw idle ticks.\<close>

record recovery =
  rv_stall :: ewma
  rv_utilization :: ewma
  rv_io :: ewma
  rv_network :: ewma
  rv_memory :: ewma
  rv_last_memory_readd_at :: real
  rv_raw_idle_streak :: nat

definition new_recovery :: recovery where
  "new_recovery =
     (let e = new_ewma GATE_EWMA_TAU_SECONDS
      in \<lparr>rv_stall = e, rv_utilization = e, rv_io = e, rv_network = e, rv_memory = e,
          rv_last_memory_readd_at = 0, rv_raw_idle_streak = 0\<rparr>)"

definition gates_of :: "recovery \<Rightarrow> gates" where
  "gates_of r = \<lparr>g_stall = ew_value (rv_stall r), g_io = ew_value (rv_io r), g_network = ew_value (rv_network r),
     g_memory = ew_value (rv_memory r), g_utilization = ew_value (rv_utilization r)\<rparr>"

definition resource_gates_green :: "gates \<Rightarrow> bool" where
  "resource_gates_green g \<longleftrightarrow> g_io g \<le> READD_MAX_IO_STALL_FRACTION
     \<and> g_network g \<le> READD_MAX_NETWORK_UTILIZATION_FRACTION \<and> g_memory g \<le> READD_MAX_MEMORY_STALL_FRACTION"

definition take_samples :: "real \<Rightarrow> gates \<Rightarrow> recovery \<Rightarrow> recovery" where
  "take_samples now raw r =
     r\<lparr>rv_stall := ewma_update now (g_stall raw) (rv_stall r),
       rv_utilization := ewma_update now (g_utilization raw) (rv_utilization r),
       rv_io := ewma_update now (g_io raw) (rv_io r),
       rv_network := ewma_update now (g_network raw) (rv_network r),
       rv_memory := ewma_update now (g_memory raw) (rv_memory r),
       rv_raw_idle_streak := (if g_utilization raw \<le> CPU_UTILIZATION_RECOVER_MAX
                              then Suc (rv_raw_idle_streak r) else 0)\<rparr>"

definition fast_recover :: "recovery \<Rightarrow> bool" where
  "fast_recover r \<longleftrightarrow> rv_raw_idle_streak r \<ge> CPU_PRESSURE_RAW_RECOVER_SECONDS \<and> resource_gates_green (gates_of r)"

text \<open>The room for another worker: a limit that cannot be read means none this tick.\<close>

definition room_for_worker :: "(string \<Rightarrow> real) \<Rightarrow> (real option \<times> real \<times> real) option \<Rightarrow> self \<Rightarrow> bool" where
  "room_for_worker peak_of memory s =
     (case memory of
        None \<Rightarrow> False
      | Some (typical, used_bytes, limit_bytes) \<Rightarrow>
          another_worker_fits typical used_bytes limit_bytes
            (map (peak_of \<circ> w_name) (filter (\<lambda>w. w_current_input w \<noteq> None \<and> \<not> w_throttled w) (alive_workers s))))"

text \<open>
  A tick of \<open>dynamic_worker_readd_loop\<close>: samples and gates, then \<open>readd_tick\<close>, then either one parked
  worker is resumed or new workers are to be booted, so many, each in place of one of the retired
  workers while there are any.
\<close>

definition recovery_tick ::
  "bool \<Rightarrow> int \<Rightarrow> real \<Rightarrow> gates \<Rightarrow> (string \<Rightarrow> real) \<Rightarrow> (real option \<times> real \<times> real) option \<Rightarrow> (worker \<Rightarrow> bool)
    \<Rightarrow> recovery \<Rightarrow> self \<Rightarrow> recovery \<times> self \<times> string list \<times> int" where
  "recovery_tick local_dev n_cpus now raw peak_of memory resumable r s =
     (let r1 = take_samples now raw r;
          (s1, last_readd, resume, templates, batch) =
            readd_tick local_dev n_cpus now (mint_gates_green (gates_of r1)) (fast_recover r1)
              (room_for_worker peak_of memory s) (rv_last_memory_readd_at r1) s
      in (r1\<lparr>rv_last_memory_readd_at := last_readd\<rparr>,
          if resume then unthrottle_one_parked_worker resumable s1 else s1, templates, batch))"

end
