(* ===== verification/Memory_Claims.thy ===== *)
theory Memory_Claims
  imports Recovery
begin

text \<open>
  What the memory monitor and the recovery loop promise: whom a tick retires or parks, how long a
  condition has to last before it kills, that the reclaim of a parked worker ends, and that parked
  workers are resumed.
\<close>

section \<open>The chosen workers\<close>

lemma worker_memory_simps [simp]:
  "worker_memory [] = []"
  "worker_memory (g # gs) = (case g_rss_bytes g of None \<Rightarrow> worker_memory gs | Some r \<Rightarrow> (r, g) # worker_memory gs)"
  by (auto simp: worker_memory_def map_filter_simps split: option.splits)

lemma workers_of_simps [simp]:
  "workers_of [] = []" "workers_of (x # xs) = g_worker (snd x) # workers_of xs"
  "workers_of (xs @ ys) = workers_of xs @ workers_of ys" "set (workers_of xs) = (g_worker \<circ> snd) ` set xs"
  by (simp_all add: workers_of_def)

lemma worker_memory_sub: "set (workers_of (worker_memory gs)) \<subseteq> set (map g_worker gs)"
  by (induction gs) (auto split: option.splits)

lemma worker_memory_distinct: "distinct (map g_worker gs) \<Longrightarrow> distinct (workers_of (worker_memory gs))"
proof (induction gs)
  case (Cons g gs)
  then show ?case using worker_memory_sub [of gs] by (auto split: option.splits)
qed simp

lemma workers_of_filter: "distinct (workers_of xs) \<Longrightarrow> distinct (workers_of (filter P xs))"
  by (simp add: workers_of_def distinct_map_filter)

lemma workers_of_sort: "distinct (workers_of (sort_key f xs)) = distinct (workers_of xs)"
  by (simp add: workers_of_def distinct_map)

lemma workers_of_take: "distinct (workers_of xs) \<Longrightarrow> distinct (workers_of (take n xs))"
  by (simp add: workers_of_def flip: take_map)

lemma kill_loop_take:
  "\<exists>m. kill_loop n target k b cs = take m cs"
proof (induction n target k b cs rule: kill_loop.induct)
  case (2 n target k b rss g cs)
  show ?case
  proof (cases "int n - int k \<le> 1")
    case True
    then show ?thesis by (intro exI [of _ 0]) simp
  next
    case False
    show ?thesis
    proof (cases "b + rss \<ge> target")
      case True
      with False show ?thesis by (intro exI [of _ 1]) simp
    next
      case more: False
      with False 2 obtain m where "kill_loop n target (Suc k) (b + rss) cs = take m cs" by auto
      then show ?thesis using False more by (intro exI [of _ "Suc m"]) simp
    qed
  qed
qed simp

lemma kill_candidates_sub: "set (kill_candidates wm) \<subseteq> set wm"
  by (auto simp: kill_candidates_def throttled_worker_memory_def running_worker_memory_def)

lemma kill_candidates_distinct: "distinct (workers_of wm) \<Longrightarrow> distinct (workers_of (kill_candidates wm))"
  unfolding kill_candidates_def workers_of_simps distinct_append throttled_worker_memory_def running_worker_memory_def
  by (auto simp: workers_of_sort workers_of_filter) (auto simp: is_running_def g_throttled_def)

lemma shed_loop_sub:
  "shed_loop rate fl target mc d b cs = (ks, ps) \<Longrightarrow>
     distinct (workers_of cs) \<Longrightarrow> set ks \<union> set ps \<subseteq> set cs \<and> distinct (workers_of ks) \<and> distinct (workers_of ps)"
proof (induction rate fl target mc d b cs arbitrary: ks ps rule: shed_loop.induct)
  case (2 rate fl target mc d b rss g cs)
  show ?case
  proof (cases "\<not> kill_instead_of_park rate (rss, g) \<and> fl")
    case True
    with 2 show ?thesis by fastforce
  next
    case False
    obtain ks1 ps1 where r: "(if b + rss \<ge> target \<and> Suc d \<ge> mc then ([], [])
        else shed_loop rate fl target mc (Suc d) (b + rss) cs) = (ks1, ps1)" by fastforce
    have "set ks1 \<union> set ps1 \<subseteq> set cs \<and> distinct (workers_of ks1) \<and> distinct (workers_of ps1)"
      using 2(2) [OF False] r "2.prems"(2) by (auto split: if_splits)
    moreover have "ks = (if kill_instead_of_park rate (rss, g) then (rss, g) # ks1 else ks1)"
      "ps = (if kill_instead_of_park rate (rss, g) then ps1 else (rss, g) # ps1)"
      using "2.prems"(1) False r by (auto split: if_splits)
    ultimately show ?thesis using "2.prems"(2) by (auto split: if_splits)
  qed
qed simp

section \<open>A tick loses nothing and leaves a worker running\<close>

lemma do_actions_simps [simp]:
  "do_actions now v [] s = s" "do_actions now v (a # as) s = do_actions now v as (do_action now v a s)"
  "do_actions now v (as @ bs) s = do_actions now v bs (do_actions now v as s)"
  by (simp_all add: do_actions_def)

lemma idle_relocate [simp]: "do_actions now (\<lambda>_. False) (map (Relocate \<circ> f) xs) s = s"
  by (induction xs) auto

lemma idle_memory_high [simp]: "do_actions now v (snd (set_memory_high limit rd mo)) s = s"
  by (auto simp: set_memory_high_def Let_def)

text \<open>The workers the slice of a tick can choose from: those of the node.\<close>

definition seen :: "readings \<Rightarrow> self \<Rightarrow> bool" where
  "seen rd s \<longleftrightarrow> node_ok s \<and> map g_worker (rd_active rd) = alive_workers s"

lemma seenD:
  assumes "seen rd s"
  shows "distinct (workers_of (worker_memory (rd_active rd)))"
    "set (workers_of (worker_memory (rd_active rd))) \<subseteq> set (alive_workers s)"
    "distinct (map w_name (s_workers s))" "node_ok s"
proof -
  have "distinct (s_workers s)" using assms by (simp add: seen_def node_ok_def distinct_map)
  then have "distinct (map g_worker (rd_active rd))" using assms by (simp add: seen_def alive_workers_def)
  then show "distinct (workers_of (worker_memory (rd_active rd)))" by (rule worker_memory_distinct)
  show "set (workers_of (worker_memory (rd_active rd))) \<subseteq> set (alive_workers s)"
    using worker_memory_sub [of "rd_active rd"] assms unfolding seen_def by (metis list.set_map)
qed (use assms in \<open>auto simp: seen_def node_ok_def\<close>)

lemma retire_spares:
  assumes "node_ok s" "set sel \<subseteq> set (s_workers s)" "w \<in> set (alive_workers s)" "w \<notin> set sel"
  shows "w \<in> set (alive_workers (retire_workers_for_pressure now sel s))"
proof -
  have "w_name w \<notin> set (map w_name (pressure_victims sel s))"
  proof
    assume "w_name w \<in> set (map w_name (pressure_victims sel s))"
    then obtain v where v: "v \<in> set sel" "w_name v = w_name w"
      by (auto simp: pressure_victims_def dest!: in_set_takeD)
    then have "v = w" using assms by (auto simp: node_ok_def distinct_map inj_on_def alive_workers_def)
    then show False using v assms(4) by simp
  qed
  then show ?thesis
    using assms(3) unfolding retire_workers_for_pressure_def Let_def
    by (auto simp: alive_workers_def record_park_event_def queue_inputs_def retire_and_clear_def
        intro!: image_eqI [of _ _ w])
qed

lemma park_spares:
  assumes "w \<in> set (alive_workers s)" "w_name w \<notin> w_name ` set sel"
  shows "w \<in> set (alive_workers (park_workers_for_memory now sel s))"
proof -
  have "w_name w \<notin> set (map w_name (park_victims sel s))"
    using assms(2) by (auto simp: park_victims_def dest!: in_set_takeD)
  then show ?thesis
    using assms(1) unfolding park_workers_for_memory_def Let_def
    by (auto simp: alive_workers_def record_park_event_def intro!: image_eqI [of _ _ w])
qed

lemma retire_leaves_one:
  assumes "node_ok s" "distinct sel" "set sel \<subseteq> set (s_workers s)" "alive_workers s \<noteq> []"
  shows "alive_workers (retire_workers_for_pressure now sel s) \<noteq> []"
proof -
  let ?vs = "pressure_victims sel s"
  have l: "length ?vs < length (alive_workers s)"
    using assms(4) by (cases "alive_workers s") (auto simp: pressure_victims_def)
  have "distinct (alive_workers s)" using assms(1) by (simp add: alive_workers_def node_ok_def distinct_map)
  then have "\<not> set (alive_workers s) \<subseteq> set ?vs"
    using l card_mono [of "set ?vs" "set (alive_workers s)"] card_length [of ?vs]
    by (auto simp: distinct_card)
  then obtain w where w: "w \<in> set (alive_workers s)" "w \<notin> set ?vs" by auto
  have "w_name w \<notin> set (map w_name ?vs)"
  proof
    assume "w_name w \<in> set (map w_name ?vs)"
    then obtain v where v: "v \<in> set ?vs" "w_name v = w_name w" by auto
    then have "v \<in> set (s_workers s)" using assms(3) by (auto simp: pressure_victims_def dest!: in_set_takeD)
    then have "v = w" using v(2) w(1) assms(1) by (auto simp: node_ok_def distinct_map inj_on_def alive_workers_def)
    then show False using v w by simp
  qed
  then have "w \<in> set (alive_workers (retire_workers_for_pressure now sel s))"
    using w(1) unfolding retire_workers_for_pressure_def Let_def
    by (auto simp: alive_workers_def record_park_event_def queue_inputs_def retire_and_clear_def
        intro!: image_eqI [of _ _ w])
  then show ?thesis by auto
qed

text \<open>
  The shed path leaves out the largest running worker, and after it the worker still runs its input.
\<close>

lemma running_sorted:
  assumes "running_worker_memory wm \<noteq> []" "x \<in> set (running_worker_memory wm)"
  shows "fst x \<le> fst (last (running_worker_memory wm))"
proof -
  have "sorted (map fst (running_worker_memory wm))" by (simp add: running_worker_memory_def)
  moreover from assms(2) obtain i where "i < length (running_worker_memory wm)" "x = running_worker_memory wm ! i"
    by (auto simp: in_set_conv_nth)
  ultimately show ?thesis
    using assms(1) sorted_nth_mono [of "map fst (running_worker_memory wm)" i "length (running_worker_memory wm) - 1"]
    by (simp add: last_conv_nth)
qed

lemma butlast_last_distinct: "xs \<noteq> [] \<Longrightarrow> distinct (workers_of xs) \<Longrightarrow>
    distinct (workers_of (butlast xs)) \<and> g_worker (snd (last xs)) \<notin> set (workers_of (butlast xs))"
  by (cases xs rule: rev_cases) auto

lemma shed_path_keeps_runner:
  assumes seen: "seen rd s" and shed: "shed_path now rate rd limit mo = (mo', acts)" and ne: "acts \<noteq> []"
  defines "run \<equiv> running_worker_memory (worker_memory (rd_active rd))"
  shows "run \<noteq> [] \<and> g_worker (snd (last run)) \<in> set (alive_workers (do_actions now v acts s))
    \<and> keeps s (do_actions now v acts s)"
proof -
  note seen = seenD [OF seen]
  obtain ks ps where sel: "shed_selection rate rd limit (length (recent_shed_times now (mo_shed_times mo))) = (ks, ps)"
    by fastforce
  have run: "length run > 1" and acts: "acts = (if ks = [] then [] else [Retire (workers_of ks)])
             @ (if ps = [] then [] else [Park (workers_of ps)])"
    using shed ne sel by (auto simp: shed_path_def Let_def run_def split: if_splits)
  then have ne: "run \<noteq> []" by auto
  have subrun: "set run \<subseteq> set (worker_memory (rd_active rd))" "distinct (workers_of run)"
    using seen(1) by (auto simp: run_def running_worker_memory_def workers_of_sort workers_of_filter)
  note bl = butlast_last_distinct [OF ne subrun(2)]
  from shed_loop_sub [of rate _ _ _ 0 0 "butlast run" ks ps] bl sel
  have sub: "set ks \<union> set ps \<subseteq> set (butlast run)" "distinct (workers_of ks)" "distinct (workers_of ps)"
    by (auto simp: shed_selection_def Let_def run_def)
  let ?w = "g_worker (snd (last run))"
  have w: "?w \<in> set (alive_workers s)" using seen(2) subrun(1) last_in_set [OF ne] by fastforce
  have in_w: "set (workers_of ks) \<union> set (workers_of ps) \<subseteq> set (workers_of (butlast run))" using sub(1) by auto
  have bl_w: "set (workers_of (butlast run)) \<subseteq> set (alive_workers s)"
    using seen(2) subrun(1) in_set_butlastD [of _ run] by fastforce
  have out: "?w \<notin> set (workers_of ks)" "?w \<notin> set (workers_of ps)" using in_w bl by auto
  have al: "set (alive_workers s) \<subseteq> set (s_workers s)" by (auto simp: alive_workers_def)
  have ks: "set (workers_of ks) \<subseteq> set (s_workers s)" using in_w bl_w al by blast
  have nm: "w_name ?w \<notin> w_name ` set (workers_of ps)"
  proof
    assume "w_name ?w \<in> w_name ` set (workers_of ps)"
    then obtain u where u: "u \<in> set (workers_of ps)" "w_name u = w_name ?w" by (metis imageE)
    have "u \<in> set (s_workers s)" using u(1) in_w bl_w al by blast
    then have "u = ?w" using u(2) w seen(3) by (auto simp: distinct_map inj_on_def alive_workers_def)
    then show False using u(1) out by simp
  qed
  let ?s1 = "if ks = [] then s else retire_workers_for_pressure now (workers_of ks) s"
  have s1: "keeps s ?s1" "?w \<in> set (alive_workers ?s1)"
    using retire_workers_keeps [OF seen(4) sub(2) ks] retire_spares [OF seen(4) ks w out(1)] keeps_refl [OF seen(4)] w
    by simp_all
  have "do_actions now v acts s = (if ps = [] then ?s1 else park_workers_for_memory now (workers_of ps) ?s1)"
    by (simp add: acts)
  then show ?thesis
    using s1 ne park_spares [OF s1(2) nm] keeps_trans [OF s1(1) park_workers_keeps [OF moved_ok [OF s1(1)]]]
    by simp
qed

text \<open>What a tick's actions are after the bookkeeping at its start.\<close>

lemma monitor_tick_cases:
  assumes "monitor_tick now rate lpr rd mo = Some (mo', acts)"
  obtains rest where "\<And>s. do_actions now (\<lambda>_. False) acts s = do_actions now (\<lambda>_. False) rest s"
    "\<And>ws. Park ws \<in> set acts \<Longrightarrow> Park ws \<in> set rest" "rd_active rd \<noteq> []"
    "rest = [] \<or> (\<exists>sel. rest = [Retire (workers_of sel)] \<and> set sel \<subseteq> set (worker_memory (rd_active rd))
        \<and> (distinct (workers_of (worker_memory (rd_active rd))) \<longrightarrow> distinct (workers_of sel)))
     \<or> (\<exists>limit mo1 mo2. shed_path now rate rd limit mo1 = (mo2, rest))"
proof -
  let ?wm = "worker_memory (rd_active rd)"
  let ?gone = "map (Relocate \<circ> g_worker) (filter (\<lambda>g. g_rss_bytes g = None) (rd_active rd))"
  let ?mo = "if mo_worker_memory_limit_bytes mo = None
             then mo\<lparr>mo_worker_memory_limit_bytes := rd_memory_limit rd\<rparr> else mo"
  have ne: "rd_active rd \<noteq> []" using assms by (auto simp: monitor_tick_def)
  define good where "good = (\<lambda>rest. rest = [] \<or> (\<exists>sel. rest = [Retire (workers_of sel)] \<and> set sel \<subseteq> set ?wm
        \<and> (distinct (workers_of ?wm) \<longrightarrow> distinct (workers_of sel)))
     \<or> (\<exists>limit mo1 mo2. shed_path now rate rd limit mo1 = (mo2, rest)))"
  have good1: "good [Retire (workers_of sel)]" if "set sel \<subseteq> set ?wm"
      "distinct (workers_of ?wm) \<Longrightarrow> distinct (workers_of sel)" for sel
    unfolding good_def using that by blast
  have nil: "good []" by (simp add: good_def)
  have kill: "good [Retire (workers_of (kill_selection t ?wm))]" for t
  proof -
    obtain m where "kill_selection t ?wm = take m (kill_candidates ?wm)"
      using kill_loop_take unfolding kill_selection_def by blast
    then show ?thesis
      using kill_candidates_sub [of ?wm] kill_candidates_distinct [of ?wm]
      by (intro good1) (auto intro: workers_of_take dest: in_set_takeD)
  qed
  have dead: "good [Retire (workers_of (take 1 (sort_key (\<lambda>x. - fst x) (swap_parked_memory ?wm))))]"
    by (intro good1) (auto simp: swap_parked_memory_def workers_of_sort intro!: workers_of_take workers_of_filter
        dest: in_set_takeD)
  have press: "good (snd (pressure_path now rate lpr rd limit m))" for limit m
  proof -
    have sp: "good (snd (shed_path now rate rd limit m'))" for m'
      unfolding good_def by (metis prod.collapse)
    obtain since reason where k: "kill_reason now rd (mo_psi_thrashing_since m) = (since, reason)" by fastforce
    show ?thesis
      unfolding pressure_path_def Let_def k prod.case
      using kill [of "bytes_to_free limit rd"] sp [of "m\<lparr>mo_psi_thrashing_since := since\<rparr>"] nil by simp
  qed
  have "\<exists>pre rest. acts = pre @ rest \<and> (\<forall>s. do_actions now (\<lambda>_. False) pre s = s)
      \<and> (\<forall>ws. Park ws \<notin> set pre) \<and> good rest"
  proof (cases "mo_worker_memory_limit_bytes ?mo")
    case None
    then have "acts = []" using assms ne by (simp add: monitor_tick_def Let_def split: if_splits)
    then show ?thesis using nil by simp
  next
    case (Some limit)
    show ?thesis
    proof (cases "?wm = []")
      case True
      then have "acts = ?gone" using assms ne Some by (simp add: monitor_tick_def Let_def split: if_splits)
      then show ?thesis using nil by (intro exI [of _ ?gone] exI [of _ "[]"]) auto
    next
      case False
      obtain mo1 high where h: "set_memory_high limit rd ?mo = (mo1, high)" by fastforce
      then have hi: "snd (set_memory_high limit rd ?mo) = high" by simp
      have noP: "Park ws \<notin> set (?gone @ high)" for ws
        using hi by (auto simp: set_memory_high_def Let_def split: if_splits)
      have id: "do_actions now (\<lambda>_. False) (?gone @ high) s = s" for s
        using idle_memory_high [of now "\<lambda>_. False" limit rd ?mo s] hi by simp
      obtain since kl where k: "sustained PARKED_UNRESUMABLE_KILL_SECONDS now (deadlocked limit rd)
          (mo_unresumable_since mo1) = (since, kl)" by fastforce
      obtain mo3 as where p: "pressure_path now rate lpr rd limit (mo1\<lparr>mo_unresumable_since := since\<rparr>) = (mo3, as)"
        by fastforce
      have "acts = ?gone @ high @ (if kl then [Retire (workers_of (take 1 (sort_key (\<lambda>x. - fst x) (swap_parked_memory ?wm))))]
                                   else as)"
        using assms ne Some False h k p unfolding monitor_tick_def Let_def by (simp split: if_splits)
      moreover have "good (if kl then [Retire (workers_of (take 1 (sort_key (\<lambda>x. - fst x) (swap_parked_memory ?wm))))]
                             else as)"
        using dead press [of limit "mo1\<lparr>mo_unresumable_since := since\<rparr>"] p by simp
      ultimately show ?thesis using noP id by (metis append.assoc)
    qed
  qed
  then obtain pre rest where r: "acts = pre @ rest" "\<And>s. do_actions now (\<lambda>_. False) pre s = s"
    "\<And>ws. Park ws \<notin> set pre" "good rest" by blast
  show ?thesis by (rule that [OF _ _ ne r(4) [unfolded good_def]]) (use r in auto)
qed


text \<open>Two parked and two running workers under pressure without swap.\<close>

definition demo_gauge :: "worker \<Rightarrow> int \<Rightarrow> gauge" where
  "demo_gauge w rss = \<lparr>g_worker = w, g_rss_bytes = Some rss, g_attempt_peak_rss_bytes = 0,
     g_attempt_elapsed_seconds = 50, g_network_bound = False, g_swap_parked = False,
     g_swap_current_bytes = None, g_reclaim_in_progress = False, g_last_reclaim_progress_at = 0\<rparr>"

definition demo_busy :: "string \<Rightarrow> int \<Rightarrow> worker" where
  "demo_busy k i = (new_worker k ''3.12'')\<lparr>w_is_idle := False, w_current_input := Some (i, ''x''), w_task := Running\<rparr>"

definition demo_workers :: "worker list" where
  "demo_workers = [demo_busy ''a'' 0, demo_busy ''b'' 1, demo_busy ''c'' 2, demo_busy ''d'' 3]"

definition demo_node :: self where
  "demo_node = (REINIT_SELF 0)\<lparr>s_workers := demo_workers\<rparr>"

definition demo_readings :: readings where
  "demo_readings = \<lparr>rd_active = map2 demo_gauge demo_workers [40, 10, 30, 17], rd_memory_limit = Some 100,
     rd_slice = None, rd_swap_total = 1000, rd_swap_percent = 0\<rparr>"

lemma demo_node_ok: "node_ok demo_node"
  by (auto simp: demo_node_def demo_workers_def demo_busy_def new_worker_def REINIT_SELF_def node_ok_def
      worker_ok_def sq_ok_def sq_empty_def)

lemmas demo_tick_simps = demo_readings_def demo_workers_def demo_gauge_def demo_busy_def new_worker_def
  new_monitor_def monitor_tick_def pressure_path_def shed_path_def shed_selection_def set_memory_high_def
  deadlocked_def swap_parked_memory_def sustained_def over_byte_trigger_def used_memory_bytes_def
  DYNAMIC_RAM_MAX_WORKER_MEMORY_USED_FRACTION_def kill_reason_def running_worker_memory_def is_running_def
  g_throttled_def g_idle_def g_input_def recent_shed_times_def min_shed_count_def reclaim_in_flight_def
  kill_instead_of_park_def bytes_to_free_def SWAP_NEARLY_FULL_FRACTION_def
  DYNAMIC_RAM_TARGET_WORKER_MEMORY_USED_FRACTION_def SHED_ESCALATION_MAX_FRACTION_def

lemma demo_tick:
  "\<exists>mo' ws. monitor_tick 100 None 0 demo_readings new_monitor = Some (mo', [Park ws])"
  by (simp add: demo_tick_simps Let_def)


section \<open>Kills are the cheapest that suffice\<close>

abbreviation rss_of :: "(int \<times> gauge) list \<Rightarrow> int" where
  "rss_of xs \<equiv> sum_list (map fst xs)"

lemma kill_loop_minimal:
  "kill_loop n target k b cs = take m cs \<Longrightarrow> m \<le> length cs \<Longrightarrow> k < n \<Longrightarrow>
     int m \<le> int n - int k - 1 \<and> (\<forall>i. 0 < i \<and> i < m \<longrightarrow> b + rss_of (take i cs) < target)
     \<and> (m = length cs \<or> int m = int n - int k - 1 \<or> b + rss_of (take m cs) \<ge> target)"
proof (induction n target k b cs arbitrary: m rule: kill_loop.induct)
  case (2 n target k b rss g cs)
  consider "int n - int k \<le> 1" | "\<not> int n - int k \<le> 1" "b + rss \<ge> target"
    | "\<not> int n - int k \<le> 1" "\<not> b + rss \<ge> target" by blast
  then show ?case
  proof cases
    case 1
    with 2 have "m = 0" by (cases m) auto
    with 1 2 show ?thesis by simp
  next
    case 2
    with "2.prems" have "m = 1" by (cases m) auto
    with 2 show ?thesis by auto
  next
    case 3
    then obtain m' where m: "m = Suc m'" "kill_loop n target (Suc k) (b + rss) cs = take m' cs" "m' \<le> length cs"
      using "2.prems" by (cases m) auto
    note ih = "2.IH" [OF 3 m(2,3)]
    have "b + rss_of (take i ((rss, g) # cs)) < target" if "0 < i" "i < m" for i
      using ih 3 that m(1) by (cases i; cases "i = 1") (auto simp: algebra_simps)
    then show ?thesis using ih 3 by (auto simp: m(1) algebra_simps)
  qed
qed simp

lemma top_sum:
  "sorted (map (\<lambda>x. - f x) xs) \<Longrightarrow> mset ys \<subseteq># mset xs \<Longrightarrow>
     sum_list (map f ys) \<le> (sum_list (map f (take (length ys) xs)) :: int)"
proof (induction xs arbitrary: ys)
  case (Cons a xs)
  show ?case
  proof (cases ys)
    case (Cons y zs)
    show ?thesis
    proof (cases "a \<in> set ys")
      case True
      then have m: "mset ys = add_mset a (mset (remove1 a ys))" by simp
      then have "mset (remove1 a ys) \<subseteq># mset xs" using Cons.prems(2) by (metis mset.simps(2) mset_subset_eq_add_mset_cancel)
      note ih = Cons.IH [OF _ this]
      have "sum_list (map f ys) = f a + sum_list (map f (remove1 a ys))"
        using m by (metis mset.simps(2) mset_map sum_mset.insert sum_mset_sum_list image_mset_add_mset)
      moreover have "length ys = Suc (length (remove1 a ys))" using m by (metis size_add_mset size_mset)
      ultimately show ?thesis using ih Cons.prems(1) by simp
    next
      case False
      have s: "mset ys \<subseteq># mset xs"
        unfolding subseteq_mset_def
      proof
        fix x
        show "count (mset ys) x \<le> count (mset xs) x"
          using False mset_subset_eq_count [OF Cons.prems(2), of x]
          by (cases "x = a") (simp_all add: count_eq_zero_iff [THEN iffD2])
      qed
      then have "mset zs \<subseteq># mset xs" using Cons by (metis mset.simps(2) mset_subset_eq_insertD subset_mset.less_le)
      then have "sum_list (map f zs) \<le> sum_list (map f (take (length zs) xs))" using Cons.IH Cons.prems(1) by simp
      moreover have "y \<in> set xs" using s Cons by (metis list.set_intros(1) mset_subset_eqD set_mset_mset)
      ultimately show ?thesis using Cons.prems(1) Cons by auto
    qed
  qed simp
qed simp

text \<open>
  C8. When workers have to be killed, the candidates are the parked ones from large to small and then the
  running ones from small to large, and the shortest front part of this list that frees the target
  is killed, one worker staying; when parked workers alone can free it, no choice of parked workers
  frees it with fewer kills.
\<close>

theorem kills_are_cheapest:
  assumes "sel = kill_selection target wm" "wm \<noteq> []"
  shows "sel = take (length sel) (throttled_worker_memory wm @ running_worker_memory wm)
    \<and> length sel \<le> length wm - 1
    \<and> (\<forall>i. 0 < i \<and> i < length sel \<longrightarrow> rss_of (take i sel) < target)
    \<and> (rss_of sel \<ge> target \<or> length sel = length wm - 1 \<or> sel = kill_candidates wm)
    \<and> (\<forall>ys. mset ys \<subseteq># mset (throttled_worker_memory wm) \<and> 0 < target \<and> rss_of ys \<ge> target
         \<longrightarrow> length sel \<le> length ys)"
proof -
  let ?c = "kill_candidates wm"
  obtain m0 where "sel = take m0 ?c" using kill_loop_take assms(1) unfolding kill_selection_def by metis
  then have sel: "sel = take (length sel) ?c" by (cases "m0 \<le> length ?c") auto
  have l: "length sel \<le> length ?c" by (subst sel) simp
  have "kill_loop (length wm) target 0 0 ?c = take (length sel) ?c"
    using sel assms(1) by (simp add: kill_selection_def)
  from kill_loop_minimal [OF this l] assms(2)
  have m: "int (length sel) \<le> int (length wm) - 1" "\<forall>i. 0 < i \<and> i < length sel \<longrightarrow> rss_of (take i ?c) < target"
    "length sel = length ?c \<or> int (length sel) = int (length wm) - 1 \<or> rss_of (take (length sel) ?c) \<ge> target"
    by auto
  have min: "length sel \<le> length ys"
    if "mset ys \<subseteq># mset (throttled_worker_memory wm)" "0 < target" "rss_of ys \<ge> target" for ys
  proof (rule ccontr)
    assume a: "\<not> length sel \<le> length ys"
    have "length ys \<le> length (throttled_worker_memory wm)"
      using size_mset_mono [OF that(1)] by simp
    then have "take (length ys) ?c = take (length ys) (throttled_worker_memory wm)"
      by (simp add: kill_candidates_def)
    moreover have "sorted (map (\<lambda>x. - fst x) (throttled_worker_memory wm))"
      unfolding throttled_worker_memory_def by (rule sorted_sort_key)
    ultimately have "rss_of ys \<le> rss_of (take (length ys) ?c)" using top_sum that(1) by metis
    moreover have "0 < length ys" using that(2,3) by (cases ys) auto
    ultimately show False using m(2) a that(3) by (meson not_le order_less_le_trans)
  qed
  have "rss_of (take i sel) < target" if "0 < i" "i < length sel" for i
    using m(2) that by (subst sel) (simp add: min_def)
  moreover have "rss_of sel \<ge> target \<or> length sel = length wm - 1 \<or> sel = ?c"
    using m(3) assms(2) by (metis sel take_all_iff l le_refl of_nat_1 of_nat_diff of_nat_eq_iff length_greater_0_conv One_nat_def Suc_leI)
  ultimately show ?thesis using sel m(1) assms(2) min by (auto simp: kill_candidates_def)
qed

definition demo_parked :: "(int \<times> gauge) list" where
  "demo_parked = [(40, (demo_gauge (demo_busy ''a'' 0) 40)), (10, demo_gauge ((demo_busy ''b'' 1)\<lparr>w_throttled := True\<rparr>) 10),
     (30, demo_gauge ((demo_busy ''c'' 2)\<lparr>w_throttled := True\<rparr>) 30)]"

theorem kills_are_cheapest_witness:
  "length (kill_selection 20 demo_parked) \<le> length (take 1 (throttled_worker_memory demo_parked))"
proof -
  let ?ys = "take 1 (throttled_worker_memory demo_parked)"
  have "mset ?ys \<subseteq># mset (throttled_worker_memory demo_parked)"
    by (metis append_take_drop_id mset_append mset_subset_eq_add_left)
  moreover have "demo_parked \<noteq> []" by (simp add: demo_parked_def)
  moreover have "rss_of ?ys \<ge> 20" by code_simp
  moreover have "(0::int) < 20" by simp
  ultimately show ?thesis using kills_are_cheapest [OF refl, of demo_parked 20] by blast
qed

section \<open>A deadlock ends\<close>

type_synonym tick = "real \<times> real option \<times> real \<times> readings"

fun monitor_run :: "tick list \<Rightarrow> monitor \<Rightarrow> monitor option" where
  "monitor_run [] mo = Some mo"
| "monitor_run ((now, rate, lpr, rd) # ts) mo =
     (case monitor_tick now rate lpr rd mo of None \<Rightarrow> None | Some (mo', acts) \<Rightarrow> monitor_run ts mo')"

lemma tick_runs: "rd_active rd \<noteq> [] \<Longrightarrow> \<exists>mo' acts. monitor_tick now rate lpr rd mo = Some (mo', acts)"
  by (auto simp: monitor_tick_def Let_def split: option.splits prod.splits)

lemma pressure_path_frame:
  "mo_unresumable_since (fst (pressure_path now rate lpr rd limit mo)) = mo_unresumable_since mo"
  "mo_worker_memory_limit_bytes (fst (pressure_path now rate lpr rd limit mo)) = mo_worker_memory_limit_bytes mo"
  by (auto simp: pressure_path_def shed_path_def Let_def split: prod.splits)

lemma set_memory_high_frame:
  "mo_unresumable_since (fst (set_memory_high limit rd mo)) = mo_unresumable_since mo"
  "mo_worker_memory_limit_bytes (fst (set_memory_high limit rd mo)) = mo_worker_memory_limit_bytes mo"
  by (auto simp: set_memory_high_def Let_def)

lemma deadlock_tick:
  assumes "monitor_tick now rate lpr rd mo = Some (mo', acts)" "mo_worker_memory_limit_bytes mo = Some L"
    "deadlocked L rd"
  shows "mo_worker_memory_limit_bytes mo' = Some L
    \<and> mo_unresumable_since mo' = fst (sustained PARKED_UNRESUMABLE_KILL_SECONDS now True (mo_unresumable_since mo))
    \<and> (snd (sustained PARKED_UNRESUMABLE_KILL_SECONDS now True (mo_unresumable_since mo)) \<longrightarrow>
         Retire (workers_of (take 1 (sort_key (\<lambda>x. - fst x) (swap_parked_memory (worker_memory (rd_active rd)))))) \<in> set acts)"
proof -
  let ?wm = "worker_memory (rd_active rd)"
  have ne: "rd_active rd \<noteq> []" using assms(1) by (auto simp: monitor_tick_def)
  have wm: "?wm \<noteq> []" using assms(3) by (auto simp: deadlocked_def swap_parked_memory_def)
  obtain mo1 high where h: "set_memory_high L rd mo = (mo1, high)" by fastforce
  have f: "mo_unresumable_since mo1 = mo_unresumable_since mo" "mo_worker_memory_limit_bytes mo1 = Some L"
    using set_memory_high_frame [of L rd mo] h assms(2) by simp_all
  obtain since kl where k: "sustained PARKED_UNRESUMABLE_KILL_SECONDS now True (mo_unresumable_since mo) = (since, kl)"
    by fastforce
  obtain mo3 as where p: "pressure_path now rate lpr rd L (mo1\<lparr>mo_unresumable_since := since\<rparr>) = (mo3, as)"
    by fastforce
  note g = pressure_path_frame [of now rate lpr rd L "mo1\<lparr>mo_unresumable_since := since\<rparr>", unfolded p]
  show ?thesis
    using assms ne wm h f k p g unfolding monitor_tick_def Let_def by (auto split: if_splits)
qed

lemma deadlock_run:
  assumes "monitor_run ts mo = Some mo'" "\<forall>(now, rate, lpr, rd) \<in> set ts. deadlocked L rd \<and> now - t0 \<le> PARKED_UNRESUMABLE_KILL_SECONDS"
    "mo_worker_memory_limit_bytes mo = Some L" "mo_unresumable_since mo = Some t0"
  shows "mo_worker_memory_limit_bytes mo' = Some L \<and> mo_unresumable_since mo' = Some t0"
  using assms
proof (induction ts mo rule: monitor_run.induct)
  case (2 now rate lpr rd ts mo)
  then obtain mo1 acts where t: "monitor_tick now rate lpr rd mo = Some (mo1, acts)"
    by (auto split: option.splits)
  have "deadlocked L rd" "now - t0 \<le> PARKED_UNRESUMABLE_KILL_SECONDS" using 2(3) by auto
  with deadlock_tick [OF t 2(4)] 2(5)
  have "mo_worker_memory_limit_bytes mo1 = Some L" "mo_unresumable_since mo1 = Some t0"
    by (auto simp: sustained_def)
  then show ?case using 2 t by (auto split: option.splits)
qed simp

lemma retire_one:
  assumes "node_ok s" "w \<in> set (alive_workers s)" "w_current_input w = Some x" "1 < length (alive_workers s)"
  shows "queued_ids (retire_workers_for_pressure now [w] s) = queued_ids s + {#fst x#}"
proof -
  have "pressure_victims [w] s = [w]"
    using assms(2-4) by (cases "length (alive_workers s) - 1") (auto simp: pressure_victims_def alive_workers_def)
  then show ?thesis
    using assms(1,3) sq.contents_put_all [of "s_inputs_queue s" pkl_len "[x]"]
    by (simp add: retire_workers_for_pressure_def Let_def record_park_event_def queue_inputs_def queued_ids_def
        retire_and_clear_def map_filter_simps node_ok_def)
qed

lemma first_parked:
  assumes "swap_parked_memory (worker_memory (rd_active rd)) \<noteq> []" "seen rd s"
  obtains w x where "workers_of (take 1 (sort_key (\<lambda>x. - fst x) (swap_parked_memory (worker_memory (rd_active rd))))) = [w]"
    "w \<in> set (alive_workers s)" "w_current_input w = Some x"
proof -
  let ?sp = "swap_parked_memory (worker_memory (rd_active rd))"
  obtain rss g rest where c: "sort_key (\<lambda>x. - fst x) ?sp = (rss, g) # rest"
    using assms(1) by (metis length_0_conv length_sort neq_Nil_conv surj_pair)
  then have "(rss, g) \<in> set ?sp" by (metis list.set_intros(1) set_sort)
  then have "(rss, g) \<in> set (worker_memory (rd_active rd))" "g_input g \<noteq> None"
    by (auto simp: swap_parked_memory_def)
  then have "g_worker g \<in> set (alive_workers s)" "\<exists>x. w_current_input (g_worker g) = Some x"
    using seenD(2) [OF assms(2)] by (force simp: g_input_def)+
  then show ?thesis using that c by auto
qed

text \<open>
  C9. Parked workers nobody can resume do not block a node for ever: when every tick since \<open>t0\<close> found
  the node deadlocked, the first tick more than thirty seconds later retires a parked worker and
  puts its input back into the queue, where the idle workers can take it.
\<close>

theorem deadlock_is_broken:
  assumes "mo_worker_memory_limit_bytes mo = Some L" "mo_unresumable_since mo = None"
    "monitor_run ((t0, rate0, lpr0, rd0) # ts) mo = Some mo1"
    "deadlocked L rd0"
    "\<forall>(now, rate, lpr, rd) \<in> set ts. deadlocked L rd \<and> now - t0 \<le> PARKED_UNRESUMABLE_KILL_SECONDS"
    "now - t0 > PARKED_UNRESUMABLE_KILL_SECONDS" "deadlocked L rd"
    "monitor_tick now rate lpr rd mo1 = Some (mo2, acts)"
    "node_ok s" "map g_worker (rd_active rd) = alive_workers s" "1 < length (alive_workers s)"
  shows "\<exists>w x. w \<in> set (alive_workers s) \<and> w_current_input w = Some x \<and> Retire [w] \<in> set acts
    \<and> queued_ids (do_action now (\<lambda>_. False) (Retire [w]) s) = queued_ids s + {#fst x#}
    \<and> mo_unresumable_since mo2 = None"
proof -
  obtain mo' acts' where t: "monitor_tick t0 rate0 lpr0 rd0 mo = Some (mo', acts')" "monitor_run ts mo' = Some mo1"
    using assms(3) by (auto split: option.splits)
  from deadlock_tick [OF t(1) assms(1,4)] assms(2)
  have "mo_worker_memory_limit_bytes mo' = Some L" "mo_unresumable_since mo' = Some t0" by (auto simp: sustained_def)
  from deadlock_run [OF t(2) assms(5) this]
  have m: "mo_worker_memory_limit_bytes mo1 = Some L" "mo_unresumable_since mo1 = Some t0" by simp_all
  have seen: "seen rd s" using assms(9,10) by (simp add: seen_def)
  have "swap_parked_memory (worker_memory (rd_active rd)) \<noteq> []" using assms(7) by (simp add: deadlocked_def)
  from first_parked [OF this seen] obtain w x where
    w: "workers_of (take 1 (sort_key (\<lambda>x. - fst x) (swap_parked_memory (worker_memory (rd_active rd))))) = [w]"
      "w \<in> set (alive_workers s)" "w_current_input w = Some x" .
  have "Retire [w] \<in> set acts" "mo_unresumable_since mo2 = None"
    using deadlock_tick [OF assms(8) m(1) assms(7)] m(2) assms(6) w(1) by (auto simp: sustained_def)
  then show ?thesis using w retire_one [OF assms(9) w(2,3) assms(11)] by (intro exI [of _ w] exI [of _ x]) simp
qed

text \<open>A parked worker whose pages fill the swap, and an idle one that waits for it.\<close>

definition stuck_workers :: "worker list" where
  "stuck_workers = [(demo_busy ''a'' 0)\<lparr>w_throttled := True\<rparr>, new_worker ''b'' ''3.12'']"

definition stuck_readings :: readings where
  "stuck_readings = demo_readings\<lparr>rd_active :=
     map2 (\<lambda>w rss. (demo_gauge w rss)\<lparr>g_swap_parked := w_throttled w, g_swap_current_bytes := Some 90\<rparr>) stuck_workers [40, 5]\<rparr>"

definition stuck_node :: self where
  "stuck_node = (REINIT_SELF 0)\<lparr>s_workers := stuck_workers\<rparr>"

lemma stuck_node_ok: "node_ok stuck_node"
  by (auto simp: stuck_node_def stuck_workers_def demo_busy_def new_worker_def REINIT_SELF_def node_ok_def
      worker_ok_def sq_ok_def sq_empty_def)

lemmas stuck_simps = stuck_readings_def stuck_workers_def demo_tick_simps any_parked_worker_resumable_def
  swap_parked_worker_resumable_def RESUME_MEMORY_HEADROOM_FRACTION_def PARKED_UNRESUMABLE_KILL_SECONDS_def

lemma stuck_deadlocked: "deadlocked 100 stuck_readings"
  by (simp add: stuck_simps)

theorem deadlock_is_broken_witness:
  "\<exists>w x. w \<in> set (alive_workers stuck_node) \<and> w_current_input w = Some x
    \<and> queued_ids (do_action 31 (\<lambda>_. False) (Retire [w]) stuck_node) = queued_ids stuck_node + {#fst x#}"
proof -
  let ?mo = "new_monitor\<lparr>mo_worker_memory_limit_bytes := Some 100\<rparr>"
  have ne: "rd_active stuck_readings \<noteq> []" by (simp add: stuck_readings_def stuck_workers_def)
  obtain mo1 where r: "monitor_run [(0, None, 0, stuck_readings)] ?mo = Some mo1"
    using tick_runs [OF ne, of 0 None 0 ?mo] by auto
  obtain mo2 acts where t: "monitor_tick 31 None 0 stuck_readings mo1 = Some (mo2, acts)"
    using tick_runs [OF ne, of 31 None 0 mo1] by auto
  have "map g_worker (rd_active stuck_readings) = alive_workers stuck_node" "1 < length (alive_workers stuck_node)"
    by (simp_all add: stuck_readings_def stuck_node_def stuck_workers_def demo_gauge_def alive_workers_def
        demo_busy_def new_worker_def)
  from deadlock_is_broken [OF _ _ r stuck_deadlocked _ _ stuck_deadlocked t stuck_node_ok this] show ?thesis
    by (auto simp: new_monitor_def PARKED_UNRESUMABLE_KILL_SECONDS_def)
qed

end
