(* ===== verification/Recovery_Claims.thy ===== *)
theory Recovery_Claims
  imports Recovery Memory_Claims
begin

text \<open>
  What measuring and recovering promise: averages stay between their samples, an admitted worker has
  room, the reclaim of a parked worker ends, and quiet times bring every parked worker back.
\<close>

section \<open>Averages\<close>

lemma ewma_convex:
  assumes "ew_tau_seconds e > 0" "ew_last_update_at e = Some t" "t \<le> now"
  obtains c where "0 \<le> c" "c \<le> 1" "ew_value (ewma_update now x e) = (1 - c) * ew_value e + c * x"
proof -
  let ?c = "1 - exp (- (now - t) / ew_tau_seconds e)"
  have "- (now - t) / ew_tau_seconds e \<le> 0" using assms by (simp add: divide_nonpos_pos)
  then have "0 \<le> ?c" "?c \<le> 1" by simp_all
  moreover have "ew_value (ewma_update now x e) = (1 - ?c) * ew_value e + ?c * x"
    using assms(2) by (simp add: ewma_update_def algebra_simps)
  ultimately show ?thesis using that by blast
qed

lemma ewma_le:
  assumes "ew_tau_seconds e > 0" "\<And>t. ew_last_update_at e = Some t \<Longrightarrow> t \<le> now \<and> ew_value e \<le> b" "x \<le> b"
  shows "ew_value (ewma_update now x e) \<le> b"
proof (cases "ew_last_update_at e")
  case (Some t)
  from ewma_convex [OF assms(1) Some] assms(2) [OF Some] obtain c where
    c: "0 \<le> c" "c \<le> 1" "ew_value (ewma_update now x e) = (1 - c) * ew_value e + c * x" by blast
  have "(1 - c) * ew_value e + c * x \<le> (1 - c) * b + c * b"
    using c assms(2) [OF Some] assms(3) by (intro add_mono mult_left_mono) auto
  then show ?thesis using c(3) by (simp add: algebra_simps)
qed (use assms(3) in \<open>simp add: ewma_update_def\<close>)

section \<open>Room for another worker\<close>

lemma growth_bound:
  "list_all2 (\<lambda>p q. q \<le> max p peak) peaks grown \<Longrightarrow>
     sum_list grown - sum_list peaks \<le> (\<Sum>p\<leftarrow>peaks. max 0 (peak - p :: real))"
  by (induction peaks grown rule: list_all2_induct) auto

text \<open>
  The check before adding a worker is safe: when the workers running then grow at most to the
  larger of their own peak and a typical one, and the new worker to a typical one, the memory in
  use stays under the fraction at which workers are parked or killed.
\<close>

theorem admitted_worker_fits:
  assumes "another_worker_fits typical used limit peaks" "0 < limit"
    "expected_peak typical peaks = peak" "peak \<noteq> 0"
    "list_all2 (\<lambda>p q. q \<le> max p peak) peaks grown" "new \<le> peak"
  shows "(used + (sum_list grown - sum_list peaks) + new) / limit \<le> DYNAMIC_RAM_MAX_WORKER_MEMORY_USED_FRACTION"
proof -
  have "(used + (\<Sum>p\<leftarrow>peaks. max 0 (peak - p)) + peak) / limit \<le> DYNAMIC_RAM_MAX_WORKER_MEMORY_USED_FRACTION"
    using assms(1,3,4) by (simp add: another_worker_fits_def Let_def)
  moreover have "(used + (sum_list grown - sum_list peaks) + new) / limit
      \<le> (used + (\<Sum>p\<leftarrow>peaks. max 0 (peak - p)) + peak) / limit"
    using growth_bound [OF assms(5)] assms(2,6) by (simp add: divide_right_mono)
  ultimately show ?thesis by linarith
qed

theorem admitted_worker_fits_witness:
  "(50 + (sum_list [20, 15] - sum_list [10, 15]) + 20) / 100 \<le> DYNAMIC_RAM_MAX_WORKER_MEMORY_USED_FRACTION"
  by (rule admitted_worker_fits [where typical = "Some 20" and peak = 20])
    (simp_all add: another_worker_fits_def expected_peak_def DYNAMIC_RAM_MAX_WORKER_MEMORY_USED_FRACTION_def)

section \<open>Reclaiming\<close>

definition chunks_of :: "int \<Rightarrow> nat" where
  "chunks_of n = nat ((n + MEMORY_RECLAIM_CHUNK_BYTES - 1) div MEMORY_RECLAIM_CHUNK_BYTES)"

lemma chunks_of_step:
  assumes "0 < n"
  shows "chunks_of n = Suc (chunks_of (n - min MEMORY_RECLAIM_CHUNK_BYTES n))"
proof (cases "n \<le> MEMORY_RECLAIM_CHUNK_BYTES")
  case True
  have "(n + MEMORY_RECLAIM_CHUNK_BYTES - 1) div MEMORY_RECLAIM_CHUNK_BYTES = 1"
    using True assms by (intro div_pos_geq [THEN trans]) (auto simp: MEMORY_RECLAIM_CHUNK_BYTES_def)
  then show ?thesis using True by (simp add: chunks_of_def min_def MEMORY_RECLAIM_CHUNK_BYTES_def)
next
  case False
  then show ?thesis
    by (simp add: chunks_of_def min_def MEMORY_RECLAIM_CHUNK_BYTES_def)
qed

text \<open>What a run of the loop from chunk \<open>k\<close> on with \<open>np\<close> fruitless chunks before says.\<close>

definition reclaim_ok :: "(nat \<Rightarrow> reclaim_chunk) \<Rightarrow> nat \<Rightarrow> int \<Rightarrow> nat \<Rightarrow> reclaim_outcome \<Rightarrow> nat \<Rightarrow> bool" where
  "reclaim_ok chunk k n np out k' \<longleftrightarrow>
     k \<le> k' \<and> k' \<le> k + chunks_of n \<and> (out = Reclaimed \<longrightarrow> k' = k + chunks_of n)
     \<and> (out = Stalled \<longrightarrow> k < k' \<and> 2 \<le> k' \<and> \<not> chunk_progress (chunk (k' - 1)) \<and> \<not> chunk_progress (chunk (k' - 2)))
     \<and> (\<forall>i. k \<le> i + np \<and> Suc i < (if out = Stalled then k' - 1 else k')
          \<longrightarrow> chunk_progress (chunk i) \<or> chunk_progress (chunk (Suc i)))
     \<and> (out = Aborted \<longrightarrow> rc_aborted (chunk k')) \<and> (out = Broken \<longrightarrow> rc_broken (chunk k'))"

lemma reclaim_ok_step:
  assumes "reclaim_ok chunk (Suc k) (n - min MEMORY_RECLAIM_CHUNK_BYTES n) np' out k'" "0 < n"
    "np' = (if chunk_progress (chunk k) then 0 else 1)"
    "np = 0 \<or> np = 1 \<and> 0 < k \<and> \<not> chunk_progress (chunk (k - 1)) \<and> chunk_progress (chunk k)"
  shows "reclaim_ok chunk k n np out k'"
proof -
  let ?e = "if out = Stalled then k' - 1 else k'"
  have "chunk_progress (chunk i) \<or> chunk_progress (chunk (Suc i))" if i: "k \<le> i + np" "Suc i < ?e" for i
  proof (cases "Suc k \<le> i + np'")
    case True
    then show ?thesis using assms(1) i(2) by (simp add: reclaim_ok_def)
  next
    case False
    show ?thesis
    proof (cases "chunk_progress (chunk k)")
      case True
      then have "i = k \<or> Suc i = k" using False i(1) assms(3,4) by auto
      then show ?thesis using True by auto
    next
      case np: False
      then have "Suc k \<le> i + np'" using i(1) assms(3,4) by auto
      then show ?thesis using False by simp
    qed
  qed
  then show ?thesis using assms(1) chunks_of_step [OF assms(2)] by (simp add: reclaim_ok_def)
qed

lemma reclaim_loop_spec:
  assumes "reclaim_loop chunk k n np lp = (out, k', lp')" "np = 0 \<or> np = 1 \<and> 0 < k \<and> \<not> chunk_progress (chunk (k - 1))"
  shows "reclaim_ok chunk k n np out k'"
  using assms
proof (induction chunk k n np lp arbitrary: out k' lp' rule: reclaim_loop.induct)
  case (1 chunk k n np lp)
  note eq = "1.prems"(1) [unfolded reclaim_loop.simps [of chunk k n np lp]]
  have none: "chunk_progress (chunk i) \<or> chunk_progress (chunk (Suc i))" if "k \<le> i + np" "Suc i < k" for i
    using that "1.prems"(2) by auto
  consider "n \<le> 0" | "0 < n" "rc_aborted (chunk k)" | "0 < n" "\<not> rc_aborted (chunk k)" "rc_broken (chunk k)"
    | "0 < n" "\<not> rc_aborted (chunk k)" "\<not> rc_broken (chunk k)" "\<not> chunk_progress (chunk k)" "np = 1"
    | "0 < n" "\<not> rc_aborted (chunk k)" "\<not> rc_broken (chunk k)" "\<not> chunk_progress (chunk k)" "np = 0"
    | "0 < n" "\<not> rc_aborted (chunk k)" "\<not> rc_broken (chunk k)" "chunk_progress (chunk k)"
    using "1.prems"(2) by linarith
  then show ?case
  proof cases
    case 1
    then have "chunks_of n = 0" by (simp add: chunks_of_def MEMORY_RECLAIM_CHUNK_BYTES_def)
    then show ?thesis using eq 1 none by (auto simp: reclaim_ok_def)
  next
    case 5
    from 5 eq have "reclaim_loop chunk (Suc k) (n - min MEMORY_RECLAIM_CHUNK_BYTES n) 1 lp = (out, k', lp')" by simp
    with "1.IH"(1) [of out k' lp'] 5 have "reclaim_ok chunk (Suc k) (n - min MEMORY_RECLAIM_CHUNK_BYTES n) 1 out k'" by simp
    then show ?thesis by (rule reclaim_ok_step) (use 5 in simp_all)
  next
    case 6
    from 6 eq have "reclaim_loop chunk (Suc k) (n - min MEMORY_RECLAIM_CHUNK_BYTES n) 0 (rc_time (chunk k)) = (out, k', lp')" by simp
    with "1.IH"(2) [of out k' lp'] 6 have "reclaim_ok chunk (Suc k) (n - min MEMORY_RECLAIM_CHUNK_BYTES n) 0 out k'" by simp
    then show ?thesis by (rule reclaim_ok_step) (use 6 "1.prems"(2) in auto)
  next
    case 4
    with eq have "out = Stalled" "k' = Suc k" by simp_all
    then show ?thesis using 4 "1.prems"(2) none chunks_of_step [OF 4(1)]
      by (auto simp: reclaim_ok_def numeral_2_eq_2)
  qed (use eq none in \<open>auto simp: reclaim_ok_def\<close>)
qed

text \<open>
  Reclaiming a parked worker's memory ends after at most one write for every started 64 MiB: it went
  through all of them, or the worker was resumed or died, or the last two writes freed less than a
  megabyte each, and then no earlier two in a row did.
\<close>

theorem reclaim_ends:
  "case reclaim_memory chunk current_bytes now of (out, k, t) \<Rightarrow>
     k \<le> chunks_of current_bytes
     \<and> (out = Reclaimed \<longrightarrow> k = chunks_of current_bytes)
     \<and> (out = Aborted \<longrightarrow> rc_aborted (chunk k)) \<and> (out = Broken \<longrightarrow> rc_broken (chunk k))
     \<and> (out = Stalled \<longrightarrow> 2 \<le> k \<and> \<not> chunk_progress (chunk (k - 1)) \<and> \<not> chunk_progress (chunk (k - 2)))
     \<and> (\<forall>i. Suc i < (if out = Stalled then k - 1 else k)
          \<longrightarrow> chunk_progress (chunk i) \<or> chunk_progress (chunk (Suc i)))"
proof -
  obtain out k t where r: "reclaim_memory chunk current_bytes now = (out, k, t)" using prod_cases3 by blast
  from reclaim_loop_spec [OF r [unfolded reclaim_memory_def]] show ?thesis by (simp add: r reclaim_ok_def)
qed

theorem reclaim_ends_witness:
  "\<exists>k t. reclaim_memory (\<lambda>_. \<lparr>rc_aborted = False, rc_start_bytes = 5, rc_end_bytes = 5, rc_broken = False, rc_time = 0\<rparr>)
     (MEMORY_RECLAIM_CHUNK_BYTES * 9) 0 = (Stalled, k, t) \<and> k \<le> chunks_of (MEMORY_RECLAIM_CHUNK_BYTES * 9)"
proof -
  let ?c = "\<lambda>_. \<lparr>rc_aborted = False, rc_start_bytes = 5, rc_end_bytes = 5, rc_broken = False, rc_time = 0\<rparr>"
  have "\<exists>k t. reclaim_memory ?c (MEMORY_RECLAIM_CHUNK_BYTES * 9) 0 = (Stalled, k, t)"
    by (simp add: reclaim_memory_def MEMORY_RECLAIM_CHUNK_BYTES_def reclaim_loop.simps chunk_progress_def)
  then obtain k t where r: "reclaim_memory ?c (MEMORY_RECLAIM_CHUNK_BYTES * 9) 0 = (Stalled, k, t)" by blast
  with reclaim_ends [where chunk = ?c and current_bytes = "MEMORY_RECLAIM_CHUNK_BYTES * 9" and now = 0] show ?thesis by auto
qed

section \<open>Resuming parked workers\<close>

definition parked_workers :: "self \<Rightarrow> worker list" where
  "parked_workers s = filter w_throttled (alive_workers s)"

lemma length_filter_update:
  assumes "distinct (map nm xs)" "x \<in> set xs" "P x" "\<not> P (f x)" "\<And>y. nm (f y) = nm y"
  shows "length (filter P (map (\<lambda>y. if nm y = nm x then f y else y) xs)) = length (filter P xs) - 1"
  using assms(1,2)
proof (induction xs)
  case (Cons y ys)
  show ?case
  proof (cases "y = x")
    case True
    then have "nm x \<notin> nm ` set ys" using Cons.prems by simp
    then have "map (\<lambda>y. if nm y = nm x then f y else y) ys = ys" by (intro map_idI) (metis imageI)
    then show ?thesis using True assms(3,4) by simp
  next
    case False
    then have x: "x \<in> set ys" "nm y \<noteq> nm x" using Cons.prems by (auto simp: rev_image_eqI)
    moreover have "0 < length (filter P ys)" using x(1) assms(3) by (auto simp: filter_empty_conv)
    ultimately show ?thesis using Cons by simp
  qed
qed simp

lemma unthrottle_one:
  assumes "distinct (map w_name (s_workers s))" "parked_workers s \<noteq> []" "\<And>w. w \<in> set (parked_workers s) \<Longrightarrow> resumable w"
  shows "length (parked_workers (unthrottle_one_parked_worker resumable s)) = length (parked_workers s) - 1"
    "map w_name (s_workers (unthrottle_one_parked_worker resumable s)) = map w_name (s_workers s)"
    "set (parked_workers (unthrottle_one_parked_worker resumable s)) \<subseteq> set (parked_workers s)"
proof -
  let ?l = "sort_key (\<lambda>w. - w_attempt_cpu_seconds w) (parked_workers s)"
  have "?l \<noteq> []" using assms(2) by (metis length_0_conv length_sort)
  then obtain w rest where l: "?l = w # rest" by (cases ?l) auto
  then have w: "w \<in> set (parked_workers s)" by (metis list.set_intros(1) set_sort)
  then have u: "unthrottle_one_parked_worker resumable s = on_worker (w_name w) (\<lambda>w. w\<lparr>w_throttled := False\<rparr>) s"
    using l assms(3) by (simp add: unthrottle_one_parked_worker_def unthrottle_choice_def flip: parked_workers_def)
  have p: "parked_workers t = filter (\<lambda>w. w_throttled w \<and> \<not> w_retired w) (s_workers t)" for t
    by (simp add: parked_workers_def alive_workers_def conj_commute)
  show "length (parked_workers (unthrottle_one_parked_worker resumable s)) = length (parked_workers s) - 1"
    unfolding u p on_worker_def using length_filter_update [OF assms(1)] w by (simp add: p)
  show "map w_name (s_workers (unthrottle_one_parked_worker resumable s)) = map w_name (s_workers s)"
    by (auto simp: u on_worker_def)
  show "set (parked_workers (unthrottle_one_parked_worker resumable s)) \<subseteq> set (parked_workers s)"
    unfolding u p by (auto simp: on_worker_def)
qed

type_synonym recovery_input = "real \<times> gates \<times> (real option \<times> real \<times> real) option"

text \<open>The loop alone on the node for a while; booting is left out while workers are parked.\<close>

fun recovery_run ::
  "bool \<Rightarrow> int \<Rightarrow> (string \<Rightarrow> real) \<Rightarrow> (worker \<Rightarrow> bool) \<Rightarrow> recovery_input list \<Rightarrow> recovery \<times> self \<Rightarrow> recovery \<times> self" where
  "recovery_run local_dev n peak_of resumable [] (r, s) = (r, s)"
| "recovery_run local_dev n peak_of resumable ((now, raw, memory) # xs) (r, s) =
     (case recovery_tick local_dev n now raw peak_of memory resumable r s of
        (r1, s1, templates, batch) \<Rightarrow> recovery_run local_dev n peak_of resumable xs (r1, s1))"

text \<open>Every average has only seen samples its gate lets through, none from the future.\<close>

definition calm_average :: "real \<Rightarrow> real \<Rightarrow> ewma \<Rightarrow> bool" where
  "calm_average now bound e \<longleftrightarrow> ew_tau_seconds e = GATE_EWMA_TAU_SECONDS
     \<and> (\<forall>t. ew_last_update_at e = Some t \<longrightarrow> t \<le> now \<and> ew_value e \<le> bound)"

definition calm_recovery :: "real \<Rightarrow> recovery \<Rightarrow> bool" where
  "calm_recovery now r \<longleftrightarrow> calm_average now READD_MAX_CPU_STALL_FRACTION (rv_stall r)
     \<and> calm_average now CPU_UTILIZATION_ADD_MAX (rv_utilization r)
     \<and> calm_average now READD_MAX_IO_STALL_FRACTION (rv_io r)
     \<and> calm_average now READD_MAX_NETWORK_UTILIZATION_FRACTION (rv_network r)
     \<and> calm_average now READD_MAX_MEMORY_STALL_FRACTION (rv_memory r)"

lemma calm_update:
  assumes "calm_average t0 b e" "t0 \<le> now" "x \<le> b"
  shows "calm_average now b (ewma_update now x e) \<and> ew_value (ewma_update now x e) \<le> b"
proof -
  have "ew_value (ewma_update now x e) \<le> b"
    by (rule ewma_le) (use assms in \<open>auto simp: calm_average_def GATE_EWMA_TAU_SECONDS_def intro: order_trans\<close>)
  then show ?thesis using assms(1) by (simp add: calm_average_def ewma_update_def)
qed

lemma calm_samples:
  assumes "calm_recovery t0 r" "t0 \<le> now" "mint_gates_green raw"
  shows "calm_recovery now (take_samples now raw r) \<and> mint_gates_green (gates_of (take_samples now raw r))"
proof -
  note up = calm_update [OF _ assms(2)]
  have "calm_average now READD_MAX_CPU_STALL_FRACTION (ewma_update now (g_stall raw) (rv_stall r))
      \<and> ew_value (ewma_update now (g_stall raw) (rv_stall r)) \<le> READD_MAX_CPU_STALL_FRACTION"
    by (rule up) (use assms in \<open>auto simp: calm_recovery_def mint_gates_green_def stall_gates_green_def\<close>)
  moreover have "calm_average now CPU_UTILIZATION_ADD_MAX (ewma_update now (g_utilization raw) (rv_utilization r))
      \<and> ew_value (ewma_update now (g_utilization raw) (rv_utilization r)) \<le> CPU_UTILIZATION_ADD_MAX"
    by (rule up) (use assms in \<open>auto simp: calm_recovery_def mint_gates_green_def stall_gates_green_def\<close>)
  moreover have "calm_average now READD_MAX_IO_STALL_FRACTION (ewma_update now (g_io raw) (rv_io r))
      \<and> ew_value (ewma_update now (g_io raw) (rv_io r)) \<le> READD_MAX_IO_STALL_FRACTION"
    by (rule up) (use assms in \<open>auto simp: calm_recovery_def mint_gates_green_def stall_gates_green_def\<close>)
  moreover have "calm_average now READD_MAX_NETWORK_UTILIZATION_FRACTION (ewma_update now (g_network raw) (rv_network r))
      \<and> ew_value (ewma_update now (g_network raw) (rv_network r)) \<le> READD_MAX_NETWORK_UTILIZATION_FRACTION"
    by (rule up) (use assms in \<open>auto simp: calm_recovery_def mint_gates_green_def stall_gates_green_def\<close>)
  moreover have "calm_average now READD_MAX_MEMORY_STALL_FRACTION (ewma_update now (g_memory raw) (rv_memory r))
      \<and> ew_value (ewma_update now (g_memory raw) (rv_memory r)) \<le> READD_MAX_MEMORY_STALL_FRACTION"
    by (rule up) (use assms in \<open>auto simp: calm_recovery_def mint_gates_green_def stall_gates_green_def\<close>)
  ultimately show ?thesis
    by (simp add: calm_recovery_def mint_gates_green_def stall_gates_green_def take_samples_def gates_of_def)
qed

lemma recovery_tick_quiet:
  assumes "calm_recovery t0 r" "t0 \<le> now" "mint_gates_green raw"
    "distinct (map w_name (s_workers s))" "\<And>w. w \<in> set (parked_workers s) \<Longrightarrow> resumable w"
    "recovery_tick local_dev n now raw peak_of memory resumable r s = (r', s', templates, batch)"
  shows "calm_recovery now r' \<and> length (parked_workers s') = length (parked_workers s) - 1
    \<and> distinct (map w_name (s_workers s')) \<and> set (parked_workers s') \<subseteq> set (parked_workers s)"
proof -
  let ?r1 = "take_samples now raw r"
  note c = calm_samples [OF assms(1-3)]
  have r': "calm_recovery now r'"
    using c assms(6) by (auto simp: recovery_tick_def Let_def calm_recovery_def split: prod.splits)
  show ?thesis
  proof (cases "parked_workers s = []")
    case True
    then have "s_workers s' = s_workers s"
      using assms(6) by (auto simp: recovery_tick_def readd_tick_def Let_def parked_workers_def split: prod.splits if_splits)
    then show ?thesis using r' assms(4) True by (simp add: parked_workers_def alive_workers_def)
  next
    case False
    let ?s1 = "s\<lparr>s_readd_gates_last_green_at := Some now\<rparr>"
    have p: "parked_workers ?s1 = parked_workers s" by (simp add: parked_workers_def alive_workers_def)
    have "s' = unthrottle_one_parked_worker resumable ?s1"
      using assms(6) False c by (auto simp: recovery_tick_def readd_tick_def Let_def parked_workers_def)
    then show ?thesis using unthrottle_one [of ?s1 resumable] assms(4,5) False p r' by simp
  qed
qed

lemma recovery_run_quiet:
  assumes "calm_recovery t0 r" "sorted (t0 # map fst xs)" "\<forall>x \<in> set xs. mint_gates_green (fst (snd x))"
    "distinct (map w_name (s_workers s))" "\<And>w. w \<in> set (parked_workers s) \<Longrightarrow> resumable w"
    "recovery_run local_dev n peak_of resumable xs (r, s) = (r', s')"
  shows "length (parked_workers s') = length (parked_workers s) - length xs"
  using assms
proof (induction xs arbitrary: t0 r s)
  case (Cons x xs)
  obtain now raw memory where x: "x = (now, raw, memory)" by (cases x)
  obtain r1 s1 tm b where t: "recovery_tick local_dev n now raw peak_of memory resumable r s = (r1, s1, tm, b)"
    by (metis prod_cases4)
  have q: "calm_recovery now r1 \<and> length (parked_workers s1) = length (parked_workers s) - 1
    \<and> distinct (map w_name (s_workers s1)) \<and> set (parked_workers s1) \<subseteq> set (parked_workers s)"
    by (rule recovery_tick_quiet [OF Cons.prems(1) _ _ Cons.prems(4,5) t]) (use Cons.prems(2,3) x in auto)
  have "length (parked_workers s') = length (parked_workers s1) - length xs"
    by (rule Cons.IH [of now r1]) (use q Cons.prems x t in \<open>auto simp: subset_iff\<close>)
  then show ?case using q by simp
qed simp

text \<open>
  In quiet times parked workers come back: when every reading lets its gate through, each tick of the
  recovery loop resumes one parked worker, so after as many ticks as there are parked workers whose
  memory fits none is left.
\<close>

theorem quiet_times_resume_everyone:
  assumes "recovery_run local_dev n peak_of resumable xs (new_recovery, s) = (r', s')"
    "\<forall>x \<in> set xs. mint_gates_green (fst (snd x))" "sorted (map fst xs)"
    "node_ok s" "\<forall>w \<in> set (parked_workers s). resumable w"
  shows "length (parked_workers s') = length (parked_workers s) - length xs"
proof (cases xs)
  case (Cons x ys)
  have "calm_recovery (fst x) new_recovery"
    by (simp add: calm_recovery_def calm_average_def new_recovery_def new_ewma_def Let_def)
  then show ?thesis
    using recovery_run_quiet [of "fst x" new_recovery xs s resumable local_dev n peak_of r' s'] assms Cons
    by (auto simp: node_ok_def)
qed (use assms in simp)

definition calm_gates :: gates where
  "calm_gates = \<lparr>g_stall = 0, g_io = 0, g_network = 0, g_memory = 0, g_utilization = 0\<rparr>"

theorem quiet_times_resume_everyone_witness:
  "\<exists>r' s'. recovery_run False 4 (\<lambda>_. 0) (\<lambda>_. True) [(1, calm_gates, None)] (new_recovery, stuck_node) = (r', s')
    \<and> length (parked_workers stuck_node) = 1 \<and> parked_workers s' = []"
proof -
  obtain r' s' where r: "recovery_run False 4 (\<lambda>_. 0) (\<lambda>_. True) [(1, calm_gates, None)] (new_recovery, stuck_node) = (r', s')"
    by fastforce
  have p: "length (parked_workers stuck_node) = 1"
    by (simp add: parked_workers_def alive_workers_def stuck_node_def stuck_workers_def demo_busy_def new_worker_def)
  have "length (parked_workers s') = length (parked_workers stuck_node) - length [(1::real, calm_gates, None :: (real option \<times> real \<times> real) option)]"
    by (rule quiet_times_resume_everyone [OF r _ _ stuck_node_ok])
      (auto simp: calm_gates_def mint_gates_green_def stall_gates_green_def READD_MAX_CPU_STALL_FRACTION_def
        READD_MAX_IO_STALL_FRACTION_def READD_MAX_NETWORK_UTILIZATION_FRACTION_def READD_MAX_MEMORY_STALL_FRACTION_def
        CPU_UTILIZATION_ADD_MAX_def)
  then show ?thesis using r p by auto
qed

end
