(* ===== verification/Node_Boot.thy ===== *)
theory Node_Boot
  imports Push_Properties
begin

text \<open>
  Booting a node on the head, \<open>Node.start\<close>, \<open>Node.status\<close> and \<open>Node.delete\<close> of \<open>node.py\<close>, with the
  loops over the zones in \<open>providers/gcp.py\<close> and \<open>providers/aws.py\<close>. The cloud's answers, the status
  the node itself serves and the random name are parameters. \<open>Node.start\<close> runs in a thread of its own,
  so its parts are the steps of a relation and everything else the head does may come between them.
\<close>

section \<open>The loops over the zones\<close>

datatype boot_error =
    InstanceDeletedMidBoot
  | NoCapacity "string list"
  | BootException string

text \<open>What one creation call comes back with; EC2 has no \<open>Conflict\<close>, there it is another error.\<close>

datatype zone_answer = ZoneCreated | ZoneFull | ZoneConflict | ZoneRaised string

fun gcp_zone_loop :: "(string \<Rightarrow> zone_answer) \<Rightarrow> string list \<Rightarrow> string list \<Rightarrow> boot_error + string" where
  "gcp_zone_loop ask exhausted [] = Inl (NoCapacity exhausted)"
| "gcp_zone_loop ask exhausted (zone # zones) =
     (case ask zone of
        ZoneCreated \<Rightarrow> Inr zone
      | ZoneFull \<Rightarrow> gcp_zone_loop ask (exhausted @ [zone]) zones
      | ZoneConflict \<Rightarrow> Inl InstanceDeletedMidBoot
      | ZoneRaised e \<Rightarrow> Inl (BootException e))"

definition gcp_provision :: "(string \<Rightarrow> zone_answer) \<Rightarrow> string list \<Rightarrow> boot_error + string" where
  "gcp_provision ask zones =
     (if zones = [] then Inl (BootException ''None of the zones support the machine type.'')
      else gcp_zone_loop ask [] zones)"

fun aws_zone_loop :: "(string \<Rightarrow> zone_answer) \<Rightarrow> string list \<Rightarrow> string list \<Rightarrow> boot_error + string" where
  "aws_zone_loop ask exhausted [] = Inl (NoCapacity exhausted)"
| "aws_zone_loop ask exhausted (az # azs) =
     (case ask az of
        ZoneCreated \<Rightarrow> Inr az
      | ZoneFull \<Rightarrow> aws_zone_loop ask (exhausted @ [az]) azs
      | ZoneConflict \<Rightarrow> Inl (BootException ''Conflict'')
      | ZoneRaised e \<Rightarrow> Inl (BootException e))"

definition aws_provision :: "(string \<Rightarrow> zone_answer) \<Rightarrow> string list \<Rightarrow> boot_error + string" where
  "aws_provision ask azs = aws_zone_loop ask [] (sort azs)"

text \<open>
  The 60 looks for a public address: the instance may still be invisible, or have none yet. \<open>None\<close>
  is a loop that ran out, which the caller raises on.
\<close>

datatype description = NotVisible | Described "string option" | DescribeRaised string

fun await_public_ip :: "nat \<Rightarrow> (nat \<Rightarrow> description) \<Rightarrow> nat \<Rightarrow> boot_error + string" where
  "await_public_ip 0 look i = Inl (BootException ''never got a public IP.'')"
| "await_public_ip (Suc left) look i =
     (case look i of
        NotVisible \<Rightarrow> await_public_ip left look (Suc i)
      | Described ip \<Rightarrow> if truthy ip then Inr (the ip) else await_public_ip left look (Suc i)
      | DescribeRaised e \<Rightarrow> Inl (BootException e))"

definition aws_public_ip :: "bool \<Rightarrow> (nat \<Rightarrow> description) \<Rightarrow> boot_error + string option" where
  "aws_public_ip associate_public_ip look =
     (if associate_public_ip
      then (case await_public_ip 60 look 0 of Inl e \<Rightarrow> Inl e | Inr ip \<Rightarrow> Inr (Some ip))
      else Inr None)"

text \<open>The zone chosen is the first that is not full, and \<open>NoCapacity\<close> names every zone in order.\<close>

lemma gcp_zone_loop_facts:
  "gcp_zone_loop ask ex zs = Inr z \<Longrightarrow>
     \<exists>pre post. zs = pre @ z # post \<and> (\<forall>y \<in> set pre. ask y = ZoneFull) \<and> ask z = ZoneCreated"
  "gcp_zone_loop ask ex zs = Inl (NoCapacity full) \<Longrightarrow> full = ex @ zs \<and> (\<forall>y \<in> set zs. ask y = ZoneFull)"
proof (induction ask ex zs rule: gcp_zone_loop.induct)
  case (2 ask ex y ys)
  case 1
  show ?case
  proof (cases "ask y")
    case ZoneCreated
    with 1 show ?thesis by (intro exI [of _ "[]"] exI [of _ ys]) simp
  next
    case ZoneFull
    with 1 have "gcp_zone_loop ask (ex @ [y]) ys = Inr z" by simp
    from "2.IH"(1) [OF ZoneFull this] obtain pre post where
      "ys = pre @ z # post" "\<forall>x \<in> set pre. ask x = ZoneFull" "ask z = ZoneCreated" by blast
    then show ?thesis using ZoneFull by (intro exI [of _ "y # pre"] exI [of _ post]) simp
  qed (use 1 in simp_all)
next
  case (2 ask ex y ys)
  case 2
  then show ?case using "2.IH"(2) by (auto split: zone_answer.splits)
qed simp_all

section \<open>Starting a node\<close>

record start_args =
  sa_machine_type :: string
  sa_region :: string
  sa_images :: "string list"
  sa_port :: int
  sa_sync_bucket_name :: "string option"
  sa_inactivity_shutdown_time_sec :: "int option"
  sa_disk_size :: "int option"
  sa_instance_name :: "string option"
  sa_reserved_for_job :: "string option"
  sa_target_parallelism :: "int option"

definition start_name :: "string \<Rightarrow> start_args \<Rightarrow> string" where
  "start_name uuid a =
     (if truthy (sa_instance_name a) then the (sa_instance_name a) else ''burla-node-'' @ take 8 uuid)"

definition start_disk :: "start_args \<Rightarrow> int" where
  "start_disk a = (if get_or 0 (sa_disk_size a) \<noteq> 0 then the (sa_disk_size a) else 20)"

text \<open>The disk of the VM holds a swap file as large as its memory beside the user's disk.\<close>

definition vm_disk :: "start_args \<Rightarrow> int result" where
  "vm_disk a = bind_err (machine_spec (sa_machine_type a)) (\<lambda>spec. Inr (start_disk a + ram_gb spec))"

definition relay_fqdn :: "string \<Rightarrow> string \<Rightarrow> string \<Rightarrow> string" where
  "relay_fqdn project_id relay_host name = name @ ''--'' @ project_id @ ''.'' @ relay_host"

definition filesystem_enabled :: "start_args \<Rightarrow> bool" where
  "filesystem_enabled a \<longleftrightarrow>
     truthy (sa_sync_bucket_name a) \<and> sa_sync_bucket_name a \<noteq> Some ''None''"

definition booting_record :: "real \<Rightarrow> start_args \<Rightarrow> node_field list" where
  "booting_record now a =
     [NStatus (Some BOOTING), NMachineType (Some (sa_machine_type a)), NRegion (Some (sa_region a)),
      NImages (sa_images a), NStartedBootingAt (Some now), NPort (Some (sa_port a)), NHost None,
      NPublicIp None, NPrivateIp None, NZone None, NCurrentJob None,
      NReservedForJob (sa_reserved_for_job a), NJobScope (sa_reserved_for_job a),
      NTargetParallelism (sa_target_parallelism a)]"

text \<open>
  Up to the first write: an unknown machine type raises before the head knows of the node. The
  number of GPUs is looked up only outside local development.
\<close>

definition begin_boot ::
  "head_env \<Rightarrow> real \<Rightarrow> string \<Rightarrow> start_args \<Rightarrow> head \<Rightarrow> (head \<times> string \<times> int) result" where
  "begin_boot env now uuid a h =
     bind_err (if IN_LOCAL_DEV_MODE env then Inr 0
               else bind_err (machine_spec (sa_machine_type a)) (\<lambda>spec. Inr (gpus spec))) (\<lambda>num_gpus.
       let name = start_name uuid a
       in Inr (fst (update_node h name (booting_record now a)), name, num_gpus))"

text \<open>What the provider hands back, and the write that lets the node become READY.\<close>

record placement =
  pm_host :: string
  pm_public_ip :: "string option"
  pm_private_ip :: "string option"
  pm_zone :: "string option"

definition vm_placement ::
  "string \<Rightarrow> string \<Rightarrow> string \<Rightarrow> string option \<Rightarrow> string option \<Rightarrow> string option \<Rightarrow> placement" where
  "vm_placement project_id relay_host name public_ip private_ip zone =
     \<lparr>pm_host = ''https://'' @ relay_fqdn project_id relay_host name, pm_public_ip = public_ip,
      pm_private_ip = private_ip, pm_zone = zone\<rparr>"

definition record_host :: "placement \<Rightarrow> string \<Rightarrow> head \<Rightarrow> head" where
  "record_host p name h =
     fst (update_node h name [NHost (Some (pm_host p)), NPublicIp (pm_public_ip p),
       NPrivateIp (pm_private_ip p), NZone (pm_zone p)])"

section \<open>Waiting for it\<close>

text \<open>
  \<open>status()\<close>: the node's own \<open>GET /\<close>. A refused connection, a timeout and an HTTP error are expected
  while it boots; anything else, an unreadable body included, propagates.
\<close>

datatype probe = Answered string | Unreachable | ProbeRaised string

definition node_poll :: "string option \<Rightarrow> bool \<Rightarrow> probe \<Rightarrow> boot_error + string" where
  "node_poll host is_booting p =
     (case host of
        Some _ \<Rightarrow>
          (case p of
             Answered s \<Rightarrow> Inr s
           | Unreachable \<Rightarrow> Inr (if is_booting then ''BOOTING'' else ''FAILED'')
           | ProbeRaised e \<Rightarrow> Inl (BootException e))
      | None \<Rightarrow>
          if is_booting then Inr ''BOOTING''
          else Inl (BootException ''Node not booting but also has no hostname?''))"

definition NODE_BOOT_TIMEOUT :: real where "NODE_BOOT_TIMEOUT = 60 * 10"

text \<open>One turn of the wait: the seconds since it began, what the node says, and its status here.\<close>

type_synonym boot_look = "real \<times> probe \<times> node_status option"

definition start_turn :: "boot_look \<Rightarrow> boot_error + string" where
  "start_turn t =
     (case t of (elapsed, p, head_status) \<Rightarrow>
        let booting_too_long = elapsed > NODE_BOOT_TIMEOUT
        in bind_err (node_poll (Some []) True p) (\<lambda>status.
             if head_status = Some DELETED then Inl InstanceDeletedMidBoot
             else let status' = (if status = ''BOOTING'' \<and> head_status = Some FAILED
                                 then ''FAILED'' else status)
                  in if status' = ''FAILED'' \<or> booting_too_long
                     then Inl (BootException ''Failed to start!'') else Inr status'))"

text \<open>The wait over a sequence of looks; \<open>None\<close> is a wait still going on.\<close>

fun boot_wait :: "string \<Rightarrow> boot_look list \<Rightarrow> (boot_error + unit) option" where
  "boot_wait status looks =
     (if status \<in> {''READY'', ''RUNNING''} then Some (Inr ())
      else case looks of
        [] \<Rightarrow> None
      | t # ts \<Rightarrow> (case start_turn t of Inl e \<Rightarrow> Some (Inl e) | Inr s \<Rightarrow> boot_wait s ts))"

declare boot_wait.simps [simp del]

text \<open>\<open>Node.delete\<close>: first the head's record, then the cloud call (a step of its own below).\<close>

definition mark_deleted :: "real \<Rightarrow> string \<Rightarrow> head \<Rightarrow> head" where
  "mark_deleted now name h = fst (update_node h name [NStatus (Some DELETED), NEndedAt (Some now)])"

definition mark_failed :: "string \<Rightarrow> head \<Rightarrow> head" where
  "mark_failed name h = fst (update_node h name [NStatus (Some FAILED)])"

end
