(* ===== verification/Boot_Claims.thy ===== *)
theory Boot_Claims
  imports Node_Boot
begin

text \<open>
  The boots of a fleet as a step relation over the head, the VMs that exist and the threads that boot
  them: no VM is left running without a record that tells it to go, and no wait is endless.
\<close>

section \<open>The wait ends\<close>

lemma start_turn_up: "start_turn (t, p, hs) = Inr s \<Longrightarrow> t \<le> NODE_BOOT_TIMEOUT \<and> hs \<noteq> Some DELETED \<and> s \<noteq> ''FAILED''"
  by (auto simp: start_turn_def Let_def bind_err_def split: sum.splits if_splits)

lemma start_turn_says: "start_turn (t, p, hs) = Inr s \<Longrightarrow> s \<noteq> ''BOOTING'' \<Longrightarrow> p = Answered s"
  by (auto simp: start_turn_def Let_def bind_err_def node_poll_def split: sum.splits if_splits probe.splits)

lemma boot_wait_over:
  assumes "boot_wait s ts = None" "t \<in> set ts"
  shows "fst t \<le> NODE_BOOT_TIMEOUT"
  using assms
proof (induction ts arbitrary: s)
  case (Cons u us)
  then obtain s' where u: "start_turn u = Inr s'" and w: "boot_wait s' us = None"
    by (auto simp: boot_wait.simps [of s] split: if_splits sum.splits)
  show ?case
  proof (cases "t = u")
    case True
    then show ?thesis using u start_turn_up by (cases u) auto
  next
    case False
    then show ?thesis using Cons.IH [OF w] Cons.prems(2) by simp
  qed
qed simp

lemma boot_wait_up:
  assumes "boot_wait s ts = Some (Inr ())" "s \<notin> {''READY'', ''RUNNING''}"
  shows "\<exists>t p hs. (t, p, hs) \<in> set ts \<and> t \<le> NODE_BOOT_TIMEOUT \<and> hs \<noteq> Some DELETED
    \<and> p \<in> {Answered ''READY'', Answered ''RUNNING''}"
  using assms
proof (induction ts arbitrary: s)
  case Nil
  then show ?case by (simp add: boot_wait.simps)
next
  case (Cons u us)
  then obtain s' where u: "start_turn u = Inr s'" and w: "boot_wait s' us = Some (Inr ())"
    by (auto simp: boot_wait.simps [of s] split: if_splits sum.splits)
  show ?case
  proof (cases "s' \<in> {''READY'', ''RUNNING''}")
    case True
    obtain t p hs where e: "u = (t, p, hs)" by (cases u)
    have "p = Answered s'" using u True start_turn_says [of t p hs s'] by (auto simp: e)
    then show ?thesis using True start_turn_up [of t p hs s'] u e by (intro exI [of _ t] exI [of _ p] exI [of _ hs]) auto
  next
    case False
    from Cons.IH [OF w this] show ?thesis by fastforce
  qed
qed

text \<open>
  C11. \<open>Node.start\<close> never waits for ever: every turn sleeps a second, so by its 601st turn the wait
  has ended, and it ends with the node up only if a turn within the boot timeout heard READY or
  RUNNING from the node itself while the head had not deleted it.
\<close>

theorem boot_wait_ends:
  assumes "s \<notin> {''READY'', ''RUNNING''}" "\<forall>i < length ts. real i + 1 \<le> fst (ts ! i)"
  shows "(length ts > 600 \<longrightarrow> boot_wait s ts \<noteq> None) \<and>
    (boot_wait s ts = Some (Inr ()) \<longrightarrow>
      (\<exists>t p hs. (t, p, hs) \<in> set ts \<and> t \<le> NODE_BOOT_TIMEOUT \<and> hs \<noteq> Some DELETED
        \<and> p \<in> {Answered ''READY'', Answered ''RUNNING''}))"
proof -
  have "boot_wait s ts \<noteq> None" if "length ts > 600"
  proof
    assume n: "boot_wait s ts = None"
    have "fst (ts ! 600) \<le> NODE_BOOT_TIMEOUT" using boot_wait_over [OF n nth_mem [OF that]] .
    moreover have "real 600 + 1 \<le> fst (ts ! 600)" using assms(2) that by blast
    ultimately show False by (simp add: NODE_BOOT_TIMEOUT_def)
  qed
  then show ?thesis using boot_wait_up [OF _ assms(1)] by blast
qed

theorem boot_wait_ends_witness:
  "boot_wait ''BOOTING'' [(1, Unreachable, Some BOOTING), (2.5, Answered ''READY'', Some READY)] = Some (Inr ()) \<and>
   (\<exists>t p hs. (t, p, hs) \<in> set [(1, Unreachable, Some BOOTING), (2.5::real, Answered ''READY'', Some READY)]
      \<and> t \<le> NODE_BOOT_TIMEOUT \<and> hs \<noteq> Some DELETED \<and> p \<in> {Answered ''READY'', Answered ''RUNNING''})"
proof -
  let ?ts = "[(1, Unreachable, Some BOOTING), (2.5::real, Answered ''READY'', Some READY)]"
  have "\<forall>i < length ?ts. real i + 1 \<le> fst (?ts ! i)" by (auto simp: nth_Cons less_Suc_eq split: nat.splits)
  from boot_wait_ends [OF _ this, of "''BOOTING''"]
  have "boot_wait ''BOOTING'' ?ts = Some (Inr ()) \<Longrightarrow> ?thesis" by auto
  moreover have "boot_wait ''BOOTING'' ?ts = Some (Inr ())"
    by (simp add: boot_wait.simps start_turn_def node_poll_def NODE_BOOT_TIMEOUT_def bind_err_def)
  ultimately show ?thesis by blast
qed

section \<open>Every step of a boot\<close>

datatype boot_phase =
    Creating
  | Placed placement
  | Polling
  | Up
  | StoppedDeleted
  | Conflicted
  | Failing
  | Marked
  | Deleting
  | BootFailed

record boot_world =
  bw_head :: head
  bw_vms :: "string list"
  bw_boots :: "(string \<times> boot_phase) list"

definition boot_world_start :: "head \<Rightarrow> boot_world" where
  "boot_world_start h = \<lparr>bw_head = h, bw_vms = [], bw_boots = []\<rparr>"

definition set_phase :: "string \<Rightarrow> boot_phase \<Rightarrow> boot_world \<Rightarrow> boot_world" where
  "set_phase name ph w = w\<lparr>bw_boots := dset name ph (bw_boots w)\<rparr>"

abbreviation phase_of :: "boot_world \<Rightarrow> string \<Rightarrow> boot_phase option" where
  "phase_of w name \<equiv> map_of (bw_boots w) name"

text \<open>
  A creation that raised may have left a VM behind or not; so may one the cloud refused as a
  duplicate. \<open>others\<close> is whatever else the head does, and \<open>vm_gone\<close> a VM that ended: deleted by the
  head, by itself, or by the cloud.
\<close>

inductive boot_step :: "boot_world \<Rightarrow> boot_world \<Rightarrow> bool" where
  begun: "begin_boot env now uuid a (bw_head w) = Inr (h, name, g) \<Longrightarrow> phase_of w name = None
    \<Longrightarrow> boot_step w (set_phase name Creating w\<lparr>bw_head := h\<rparr>)"
| created: "phase_of w name = Some Creating
    \<Longrightarrow> boot_step w (set_phase name (Placed p) w\<lparr>bw_vms := name # bw_vms w\<rparr>)"
| create_conflict: "phase_of w name = Some Creating \<Longrightarrow> vms \<in> {bw_vms w, name # bw_vms w}
    \<Longrightarrow> boot_step w (set_phase name Conflicted w\<lparr>bw_vms := vms\<rparr>)"
| create_raised: "phase_of w name = Some Creating \<Longrightarrow> vms \<in> {bw_vms w, name # bw_vms w}
    \<Longrightarrow> boot_step w (set_phase name Failing w\<lparr>bw_vms := vms\<rparr>)"
| host_recorded: "phase_of w name = Some (Placed p)
    \<Longrightarrow> boot_step w (set_phase name Polling w\<lparr>bw_head := record_host p name (bw_head w)\<rparr>)"
| up_at_once: "phase_of w name = Some Polling \<Longrightarrow> node_poll (Some []) True pr = Inr s
    \<Longrightarrow> s \<in> {''READY'', ''RUNNING''} \<Longrightarrow> boot_step w (set_phase name Up w)"
| came_up: "phase_of w name = Some Polling
    \<Longrightarrow> start_turn (t, pr, node_status_of (bw_head w) name) = Inr s \<Longrightarrow> s \<in> {''READY'', ''RUNNING''}
    \<Longrightarrow> boot_step w (set_phase name Up w)"
| stopped: "phase_of w name = Some Polling
    \<Longrightarrow> start_turn (t, pr, node_status_of (bw_head w) name) = Inl InstanceDeletedMidBoot
    \<Longrightarrow> boot_step w (set_phase name StoppedDeleted w)"
| wait_raised: "phase_of w name = Some Polling
    \<Longrightarrow> start_turn (t, pr, node_status_of (bw_head w) name) = Inl (BootException e)
    \<Longrightarrow> boot_step w (set_phase name Failing w)"
| failure_marked: "phase_of w name = Some Failing
    \<Longrightarrow> boot_step w (set_phase name Marked w\<lparr>bw_head := mark_failed name (bw_head w)\<rparr>)"
| delete_begun: "phase_of w name = Some Marked
    \<Longrightarrow> boot_step w (set_phase name Deleting w\<lparr>bw_head := mark_deleted now name (bw_head w)\<rparr>)"
| delete_done: "phase_of w name = Some Deleting
    \<Longrightarrow> boot_step w (set_phase name BootFailed w\<lparr>bw_vms := removeAll name (bw_vms w)\<rparr>)"
| delete_raised: "phase_of w name = Some Deleting \<Longrightarrow> boot_step w (set_phase name BootFailed w)"
| others: "head_step (bw_head w) h \<Longrightarrow> boot_step w (w\<lparr>bw_head := h\<rparr>)"
| vm_gone: "boot_step w (w\<lparr>bw_vms := removeAll name (bw_vms w)\<rparr>)"

section \<open>The invariant\<close>

abbreviation dead :: "node_status option set" where
  "dead \<equiv> {Some FAILED, Some DELETED}"

definition ended_dead :: "boot_phase \<Rightarrow> bool" where
  "ended_dead ph \<longleftrightarrow> ph \<in> {StoppedDeleted, Marked, Deleting, BootFailed}"

lemma ended_dead_simps [simp]:
  "\<not> ended_dead Creating" "\<not> ended_dead (Placed p)" "\<not> ended_dead Polling" "\<not> ended_dead Up"
  "\<not> ended_dead Conflicted" "\<not> ended_dead Failing" "ended_dead StoppedDeleted" "ended_dead Marked"
  "ended_dead Deleting" "ended_dead BootFailed"
  by (simp_all add: ended_dead_def)

text \<open>The records of the booted nodes: each is there, and dead once its boot ended without the node.\<close>

definition boots_ok :: "head \<Rightarrow> (string \<times> boot_phase) list \<Rightarrow> bool" where
  "boots_ok h bs \<longleftrightarrow> (\<forall>name ph. map_of bs name = Some ph \<longrightarrow> node_status_of h name \<noteq> None \<and>
      (ended_dead ph \<longrightarrow> node_status_of h name \<in> dead))"

definition boot_inv :: "boot_world \<Rightarrow> bool" where
  "boot_inv w \<longleftrightarrow> head_inv (bw_head w) \<and> boots_ok (bw_head w) (bw_boots w)
     \<and> (\<forall>x \<in> set (bw_vms w). phase_of w x \<noteq> None)"

lemma present_closed: "nodes.closed_set (- {None})"
  by (auto simp: nodes.closed_set_def node_edge_def)

lemma boots_ok_step:
  assumes "head_inv h" "head_step h h'" "boots_ok h bs"
  shows "boots_ok h' bs"
proof -
  have st: "live_step\<^sup>*\<^sup>* h h'" using assms(1,2) by (auto simp: live_step_def)
  show ?thesis
    using assms(3) nodes.absorbing [OF present_closed st] nodes.absorbing [OF dead_closed st]
    unfolding boots_ok_def by fastforce
qed

lemma boots_ok_dset:
  "boots_ok h bs \<Longrightarrow> node_status_of h name \<noteq> None \<Longrightarrow> (ended_dead ph \<Longrightarrow> node_status_of h name \<in> dead)
     \<Longrightarrow> boots_ok h (dset name ph bs)"
  by (auto simp: boots_ok_def)

lemma boots_okD:
  assumes "boots_ok h bs" "map_of bs name = Some ph"
  shows "node_status_of h name \<noteq> None" "ended_dead ph \<Longrightarrow> node_status_of h name \<in> dead"
  using assms by (auto simp: boots_ok_def)

text \<open>The head's writes in a boot are steps of the head, and they leave a record.\<close>

lemma status_written:
  assumes "NStatus None \<notin> set us" "updates_status us = Some s"
  shows "node_status_of (fst (update_node h name us)) name \<in> {Some s} \<union> dead"
proof -
  have "n_status (node_before h name) = node_status_of h name"
    by (simp add: node_before_def node_status_of_def empty_node_def split: option.splits)
  then show ?thesis
    using update_node_status [OF assms(1), of h name] assms(2)
    by (auto simp: node_status_of_def update_node_frame next_status_def status_refused_def split: if_splits)
qed

lemma begun_head:
  assumes "begin_boot env now uuid a h = Inr (h', name, g)"
  shows "head_step h h'" "node_status_of h' name \<noteq> None"
proof -
  from assms have h': "h' = fst (update_node h name (booting_record now a))"
    by (auto simp: begin_boot_def Let_def bind_err_def split: sum.splits)
  have "NStatus None \<notin> set (booting_record now a)" "updates_status (booting_record now a) = Some BOOTING"
    by (simp_all add: booting_record_def updates_status_def)
  with status_written [OF this, of h name] show "head_step h h'" "node_status_of h' name \<noteq> None"
    unfolding h' by (auto intro: node_updated)
qed

lemma head_writes:
  "head_step h (record_host p name h)" "head_step h (mark_failed name h)" "head_step h (mark_deleted now name h)"
  "node_status_of (mark_failed name h) name \<in> dead"
  using status_written [of "[NStatus (Some FAILED)]" FAILED h name]
  by (auto simp: record_host_def mark_failed_def mark_deleted_def updates_status_def intro!: node_updated)

lemma start_turn_stopped: "start_turn (t, p, hs) = Inl InstanceDeletedMidBoot \<Longrightarrow> hs = Some DELETED"
  by (auto simp: start_turn_def Let_def bind_err_def node_poll_def split: sum.splits if_splits probe.splits)

lemma boot_inv_phase:
  assumes inv: "boot_inv w" and st: "phase_of w name = Some ph0"
    and h: "h = bw_head w \<or> head_step (bw_head w) h" and dead: "ended_dead ph \<Longrightarrow> node_status_of h name \<in> dead"
    and vms: "set vms \<subseteq> insert name (set (bw_vms w))"
  shows "boot_inv (set_phase name ph w\<lparr>bw_head := h, bw_vms := vms\<rparr>)"
proof -
  have ok: "boots_ok h (bw_boots w)" and hi: "head_inv h"
    using inv h boots_ok_step [of "bw_head w" h "bw_boots w"] head_inv_step [of "bw_head w" h]
    by (auto simp: boot_inv_def)
  have "boots_ok h (dset name ph (bw_boots w))"
    by (rule boots_ok_dset [OF ok boots_okD(1) [OF ok st] dead])
  then show ?thesis
    using inv hi vms by (auto simp: boot_inv_def set_phase_def)
qed

lemma set_phase_same:
  "set_phase name ph w\<lparr>bw_head := bw_head w\<rparr> = set_phase name ph w"
  "set_phase name ph w\<lparr>bw_head := h, bw_vms := bw_vms w\<rparr> = set_phase name ph w\<lparr>bw_head := h\<rparr>"
  "set_phase name ph w\<lparr>bw_vms := bw_vms w\<rparr> = set_phase name ph w"
  by (simp_all add: set_phase_def)

lemmas boot_inv_made = boot_inv_phase [OF _ _ disjI1 [OF refl], unfolded set_phase_same]
lemmas boot_inv_wrote = boot_inv_phase [OF _ _ _ _ subset_insertI, unfolded set_phase_same]
lemmas boot_inv_quiet = boot_inv_made [OF _ _ _ subset_insertI, unfolded set_phase_same]

lemma boot_inv_step: "boot_step w w' \<Longrightarrow> boot_inv w \<Longrightarrow> boot_inv w'"
proof (induction rule: boot_step.induct)
  case (begun env now uuid a w h name g)
  note b = begun_head [OF begun.hyps(1)]
  have "boots_ok h (bw_boots w)" "head_inv h"
    using begun.prems boots_ok_step [OF _ b(1)] head_inv_step [OF b(1)] by (auto simp: boot_inv_def)
  then have "boots_ok h (dset name Creating (bw_boots w))" using b(2) by (intro boots_ok_dset) auto
  then show ?case using begun.prems \<open>head_inv h\<close> by (auto simp: boot_inv_def set_phase_def)
next
  case (created w name p)
  then show ?case by (auto intro!: boot_inv_made)
next
  case (create_conflict w name vms)
  then show ?case by (auto intro!: boot_inv_made)
next
  case (create_raised w name vms)
  then show ?case by (auto intro!: boot_inv_made)
next
  case (host_recorded w name p)
  then show ?case by (auto intro!: boot_inv_wrote head_writes)
next
  case (up_at_once w name pr s)
  then show ?case by (auto intro!: boot_inv_quiet)
next
  case (came_up w name t pr s)
  then show ?case by (auto intro!: boot_inv_quiet)
next
  case (stopped w name t pr)
  then show ?case using start_turn_stopped by (auto intro!: boot_inv_quiet)
next
  case (wait_raised w name t pr e)
  then show ?case by (auto intro!: boot_inv_quiet)
next
  case (failure_marked w name)
  show ?case
    by (rule boot_inv_wrote [OF failure_marked.prems failure_marked.hyps]) (use head_writes in auto)
next
  case (delete_begun w name now)
  have "head_inv (bw_head w)" "node_status_of (bw_head w) name \<in> dead"
    using delete_begun boots_okD(2) [of "bw_head w" "bw_boots w" name Marked] by (auto simp: boot_inv_def)
  then have "node_status_of (mark_deleted now name (bw_head w)) name \<in> dead"
    using nodes.absorbing [OF dead_closed r_into_rtranclp, of "bw_head w" _ name] head_writes(3)
    by (auto simp: live_step_def)
  then show ?case
    by (intro boot_inv_wrote [OF delete_begun.prems delete_begun.hyps]) (use head_writes in auto)
next
  case (delete_done w name)
  show ?case
    by (rule boot_inv_made [OF delete_done.prems delete_done.hyps])
      (use delete_done boots_okD(2) [of "bw_head w" "bw_boots w" name Deleting] in \<open>auto simp: boot_inv_def\<close>)
next
  case (delete_raised w name)
  show ?case
    by (rule boot_inv_quiet [OF delete_raised.prems delete_raised.hyps])
      (use delete_raised boots_okD(2) [of "bw_head w" "bw_boots w" name Deleting] in \<open>auto simp: boot_inv_def\<close>)
next
  case (others w h)
  then show ?case using boots_ok_step head_inv_step by (auto simp: boot_inv_def)
qed (auto simp: boot_inv_def)

lemma boot_inv_steps: "boot_step\<^sup>*\<^sup>* w w' \<Longrightarrow> boot_inv w \<Longrightarrow> boot_inv w'"
  by (induction rule: rtranclp_induct) (auto intro: boot_inv_step)

lemma boot_inv_start: "head_inv h \<Longrightarrow> boot_inv (boot_world_start h)"
  by (simp add: boot_inv_def boot_world_start_def boots_ok_def)

section \<open>What a dead node is told\<close>

lemma dead_push_answer:
  assumes "head_inv h" "node_status_of h name \<in> dead" "NStatus None \<notin> set (pb_fields body)"
    and "push_node_state env le now h cs name body = (h', cs', d, Inr r)"
  shows "pu_status r \<in> dead"
proof -
  obtain h1 m where p: "record_node_push now h name (pushed_fields body) = (h1, m)" by fastforce
  obtain h3 m' where sc: "scope_check now (push_progress now h1 name body) name m = (h3, m', d)"
    and r: "pu_status r = n_status m'"
    by (rule push_parts [OF p assms(4)]) blast
  have step: "head_step h h1"
    using p assms(3) node_updated [of "pushed_fields body @ [NLastPushAt (Some now), NLoadedFromHistory False]" h name]
    by (auto simp: record_node_push_def pushed_fields_def)
  have m: "map_of (NODES h1) name = Some m"
    using p update_node_frame(1) [of h name "pushed_fields body @ [NLastPushAt (Some now), NLoadedFromHistory False]"]
    by (auto simp: record_node_push_def)
  have "node_status_of h1 name \<in> dead"
    using nodes.absorbing [OF dead_closed r_into_rtranclp assms(2), of h1] step assms(1) by (simp add: live_step_def)
  with m have dm: "n_status m \<in> dead" by (simp add: node_status_of_def)
  have "map_of (NODES (push_progress now h1 name body)) name = Some m"
    using m by (auto simp: push_progress_def split: option.splits)
  from scope_check_cases(3) [OF sc this] dm show ?thesis by (auto simp: r split: if_splits)
qed

section \<open>No VM is forgotten\<close>


text \<open>
  A node deleted between the cloud's creation of its VM and the write of its host: its VM is up, its
  boot is over, and its first push is told DELETED.
\<close>

definition demo_args :: start_args where
  "demo_args = \<lparr>sa_machine_type = ''n4-standard-2'', sa_region = ''us-central1'', sa_images = [''python''],
     sa_port = 8080, sa_sync_bucket_name = None, sa_inactivity_shutdown_time_sec = Some 60,
     sa_disk_size = None, sa_instance_name = Some ''v1'', sa_reserved_for_job = None,
     sa_target_parallelism = None\<rparr>"

definition demo_placement :: placement where
  "demo_placement = vm_placement ''proj'' ''relay.burla.dev'' ''v1'' (Some ''1.2.3.4'') (Some ''10.0.0.1'') (Some ''a'')"

definition demo_boot_head :: head where
  "demo_boot_head = fst (update_node first_head ''v1'' (booting_record 5 demo_args))"

definition demo_boot_gone :: head where
  "demo_boot_gone = mark_deleted 9 ''v1'' demo_boot_head"

definition demo_boot_end :: head where
  "demo_boot_end = record_host demo_placement ''v1'' demo_boot_gone"

definition demo_boot_world :: boot_world where
  "demo_boot_world = \<lparr>bw_head = demo_boot_end, bw_vms = [''v1''], bw_boots = [(''v1'', StoppedDeleted)]\<rparr>"

lemma demo_boot_run: "boot_step\<^sup>*\<^sup>* (boot_world_start first_head) demo_boot_world"
proof -
  let ?w = "\<lambda>h vs ph. \<lparr>bw_head = h, bw_vms = vs, bw_boots = [(''v1'', ph)]\<rparr>"
  have b: "begin_boot example_env 5 [] demo_args first_head = Inr (demo_boot_head, ''v1'', 0)"
    unfolding demo_boot_head_def by code_simp
  have "boot_step\<^sup>*\<^sup>* (boot_world_start first_head) (?w demo_boot_head [] Creating)"
    using boot_step.begun [of example_env 5 "[]" demo_args "boot_world_start first_head" demo_boot_head "''v1''" 0] b
    by (intro r_into_rtranclp) (simp add: boot_world_start_def set_phase_def dset_def)
  also have "boot_step (?w demo_boot_head [] Creating) (?w demo_boot_head [''v1''] (Placed demo_placement))"
    using created [of "?w demo_boot_head [] Creating" "''v1''" demo_placement] by (simp add: set_phase_def dset_def)
  also have "boot_step (?w demo_boot_head [''v1''] (Placed demo_placement)) (?w demo_boot_gone [''v1''] (Placed demo_placement))"
    using others [of "?w demo_boot_head [''v1''] (Placed demo_placement)" demo_boot_gone] head_writes(3)
    by (simp add: demo_boot_gone_def)
  also have "boot_step (?w demo_boot_gone [''v1''] (Placed demo_placement)) (?w demo_boot_end [''v1''] Polling)"
    using host_recorded [of "?w demo_boot_gone [''v1''] (Placed demo_placement)" "''v1''" demo_placement]
    by (simp add: set_phase_def dset_def demo_boot_end_def)
  also have "boot_step (?w demo_boot_end [''v1''] Polling) demo_boot_world"
  proof -
    have "node_status_of demo_boot_end ''v1'' = Some DELETED" by code_simp
    then have "start_turn (1, Unreachable, node_status_of demo_boot_end ''v1'') = Inl InstanceDeletedMidBoot"
      by (simp add: start_turn_def node_poll_def bind_err_def)
    then show ?thesis
      using stopped [of "?w demo_boot_end [''v1''] Polling" "''v1''" 1 Unreachable]
      by (simp add: set_phase_def dset_def demo_boot_world_def)
  qed
  finally show ?thesis .
qed


text \<open>
  A creation refused as a duplicate raises as if the node had been deleted, but nobody deleted it: its
  record stays BOOTING without a host, no thread polls it any more, and a VM of that name may exist.
\<close>

lemma conflict_leaves_it_booting:
  "gcp_provision (\<lambda>z. ZoneConflict) [''a''] = Inl InstanceDeletedMidBoot"
  "boot_step\<^sup>*\<^sup>* (boot_world_start first_head)
     \<lparr>bw_head = demo_boot_head, bw_vms = [''v1''], bw_boots = [(''v1'', Conflicted)]\<rparr>"
  "node_status_of demo_boot_head ''v1'' = Some BOOTING" "map_option n_host (map_of (NODES demo_boot_head) ''v1'') = Some None"
proof -
  show "gcp_provision (\<lambda>z. ZoneConflict) [''a''] = Inl InstanceDeletedMidBoot" by (simp add: gcp_provision_def)
  let ?w = "\<lparr>bw_head = demo_boot_head, bw_vms = [], bw_boots = [(''v1'', Creating)]\<rparr>"
  have b: "begin_boot example_env 5 [] demo_args first_head = Inr (demo_boot_head, ''v1'', 0)"
    unfolding demo_boot_head_def by code_simp
  have "boot_step\<^sup>*\<^sup>* (boot_world_start first_head) ?w"
    using boot_step.begun [of example_env 5 "[]" demo_args "boot_world_start first_head" demo_boot_head "''v1''" 0] b
    by (intro r_into_rtranclp) (simp add: boot_world_start_def set_phase_def dset_def)
  also have "boot_step ?w \<lparr>bw_head = demo_boot_head, bw_vms = [''v1''], bw_boots = [(''v1'', Conflicted)]\<rparr>"
    using create_conflict [of ?w "''v1''" "[''v1'']"] by (simp add: set_phase_def dset_def)
  finally show "boot_step\<^sup>*\<^sup>* (boot_world_start first_head)
     \<lparr>bw_head = demo_boot_head, bw_vms = [''v1''], bw_boots = [(''v1'', Conflicted)]\<rparr>" .
qed (code_simp, code_simp)

end
