(* ===== verification/Node_Watch.thy ===== *)
theory Node_Watch
  imports Memory_Monitor Node_Boot
begin

text \<open>
  How a node ends itself, \<open>node_service/__init__.py\<close>: the watchdogs for a node that never becomes READY
  and for an idle one, the state push loop with its orphan clock, \<open>_shutdown_self\<close>, the status the node
  serves, and \<open>watch_reservation\<close> of \<open>lifecycle_endpoints.py\<close>. The environment's timeouts, the clock and
  the head's answers are parameters; what a watchdog asks of the outside is recorded.
\<close>

section \<open>Deleting itself\<close>

text \<open>
  \<open>_shutdown_self\<close>: the head is asked first, the cloud only if that raises; the marker is written and
  the machine powered off in every case but an Azure lease, which outlives the power-off.
\<close>

datatype exit_act = AskedHead | AskedCloud | MarkedDeleted | PoweredOff

definition shutdown_self :: "bool \<Rightarrow> bool \<Rightarrow> exit_act list" where
  "shutdown_self head_answers has_lease =
     AskedHead # (if head_answers then [] else [AskedCloud]) @ MarkedDeleted #
       (if has_lease then [] else [PoweredOff])"

section \<open>The served status\<close>

definition get_status :: "self \<Rightarrow> string" where
  "get_status s =
     (if s_failed s then ''FAILED'' else if s_booting s then ''BOOTING''
      else if s_running s then ''RUNNING'' else ''READY'')"

section \<open>The watchdogs\<close>

definition ORPHANED_SHUTDOWN_TIME_SEC :: int where "ORPHANED_SHUTDOWN_TIME_SEC = 3 * 60"
definition NEVER_READY_SHUTDOWN_TIME_SEC :: real where "NEVER_READY_SHUTDOWN_TIME_SEC = 20 * 60"

definition head_is_gone :: "int \<Rightarrow> bool" where
  "head_is_gone head_unreachable_sec \<longleftrightarrow> head_unreachable_sec \<ge> ORPHANED_SHUTDOWN_TIME_SEC"

text \<open>What both watchdogs do to the node before they log and call \<open>_shutdown_self\<close>.\<close>

definition leave_cluster :: "self \<Rightarrow> self" where
  "leave_cluster s =
     (let s1 = s\<lparr>s_shutting_down := True\<rparr>
      in if s_failed s then s1 else s1\<lparr>s_reported_status := DELETED\<rparr>)"

text \<open>
  \<open>shutdown_if_never_ready\<close> over the states it sees at each wake-up: it stops watching at the first
  READY or RUNNING, or once something else shuts the node down; \<open>None\<close> is a watch still on.
\<close>

datatype watch_end = StopsWatching | Leaves self

fun never_ready_watch :: "real \<Rightarrow> (real \<times> self) list \<Rightarrow> watch_end option" where
  "never_ready_watch deadline [] = None"
| "never_ready_watch deadline ((now, s) # looks) =
     (if now < deadline
      then if s_reported_status s \<in> {READY, RUNNING} \<or> s_shutting_down s then Some StopsWatching
           else never_ready_watch deadline looks
      else Some (Leaves (leave_cluster s)))"

text \<open>
  \<open>shutdown_if_idle_for_too_long\<close>: the condition of its loop, and the loop over its wake-ups: the idle
  seconds (0 at first, then counted from the last client activity), the seconds the head is gone, and
  the node.
\<close>

definition stays_open :: "real \<Rightarrow> real \<Rightarrow> int \<Rightarrow> self \<Rightarrow> bool" where
  "stays_open timeout idle head_unreachable_sec s \<longleftrightarrow>
     idle \<le> timeout \<or> s_active_client_request_count s > 0
     \<or> \<not> head_is_gone head_unreachable_sec \<and> (truthy (s_current_job s) \<or> truthy (s_reserved_for_job s))
     \<or> s_booting s"

definition idle_seconds :: "real \<Rightarrow> self \<Rightarrow> real" where
  "idle_seconds now s = now - s_last_client_activity_timestamp s"

fun idle_watch :: "real \<Rightarrow> (real \<times> int \<times> self) list \<Rightarrow> self option" where
  "idle_watch timeout [] = None"
| "idle_watch timeout ((idle, gone, s) # looks) =
     (if stays_open timeout idle gone s then idle_watch timeout looks else Some (leave_cluster s))"

section \<open>The state push loop\<close>

record push_clock =
  pc_consecutive_failures :: int
  pc_head_unreachable_since :: "real option"
  pc_head_unreachable_sec :: int
  pc_host :: "string option"

definition new_push_clock :: push_clock where
  "new_push_clock = \<lparr>pc_consecutive_failures = 0, pc_head_unreachable_since = None,
     pc_head_unreachable_sec = 0, pc_host = None\<rparr>"

datatype push_turn = TurnSkipped | TurnPushed | TurnDeleted | TurnFailed | TurnOrphaned

text \<open>
  One turn, after \<open>push_state\<close> returned or raised: \<open>started\<close> is the monotonic time before the push and \<open>failed_at\<close> after it raised. A reply
  hands down the host and the reservation, whose change also replaces the task that watches it
  (\<open>None\<close>, or the job a new one watches); DELETED ends the node.
\<close>

definition push_failed :: "bool \<Rightarrow> real \<Rightarrow> real \<Rightarrow> push_clock \<Rightarrow> self \<Rightarrow> push_clock \<times> self \<times> push_turn" where
  "push_failed local_dev started failed_at c s =
     (let since = get_or started (pc_head_unreachable_since c);
          gone = \<lfloor>failed_at - since\<rfloor>;
          c' = c\<lparr>pc_consecutive_failures := pc_consecutive_failures c + 1,
                 pc_head_unreachable_since := Some since, pc_head_unreachable_sec := gone\<rparr>
      in if head_is_gone gone \<and> \<not> local_dev
         then (c', s\<lparr>s_shutting_down := True\<rparr>, TurnOrphaned) else (c', s, TurnFailed))"

definition take_reservation :: "string option \<Rightarrow> self \<Rightarrow> self \<times> string option option" where
  "take_reservation reservation s =
     (if \<not> truthy (s_current_job s) \<and> reservation \<noteq> s_reserved_for_job s
      then (s\<lparr>s_reserved_for_job := reservation\<rparr>, Some (if truthy reservation then reservation else None))
      else (s, None))"

definition push_answered ::
  "push_reply \<Rightarrow> push_clock \<Rightarrow> self \<Rightarrow> push_clock \<times> self \<times> string option option \<times> push_turn" where
  "push_answered view c s =
     (let c' = c\<lparr>pc_consecutive_failures := 0, pc_head_unreachable_since := None,
                 pc_head_unreachable_sec := 0, pc_host := pu_host view\<rparr>;
          (s1, task) = take_reservation (pu_reserved_for_job view) s
      in if pu_status view = Some DELETED
         then (c', s1\<lparr>s_shutting_down := True, s_job_watcher_stop := True\<rparr>, task, TurnDeleted)
         else (c', if truthy (s_current_job s1) then apply_job_signals (pu_job view) s1 else s1,
               task, TurnPushed))"

text \<open>A run of turns that all fail, with the times each push began and gave up.\<close>

fun failing_turns :: "bool \<Rightarrow> (real \<times> real) list \<Rightarrow> push_clock \<Rightarrow> self \<Rightarrow> (self \<times> real) option" where
  "failing_turns local_dev [] c s = None"
| "failing_turns local_dev ((started, failed_at) # ts) c s =
     (if s_shutting_down s then None
      else case push_failed local_dev started failed_at c s of
        (c', s', turn) \<Rightarrow> if turn = TurnOrphaned then Some (s', failed_at) else failing_turns local_dev ts c' s')"

section \<open>Watching a reservation\<close>

definition RESERVATION_ASSIGNMENT_TIMEOUT_SEC :: real where "RESERVATION_ASSIGNMENT_TIMEOUT_SEC = 60"

text \<open>
  The job as \<open>GET /v1/jobs\<close> gave it at each look: \<open>None\<close> when the request raised, \<open>Some None\<close> for a job
  that does not exist. The answer is whether the wait is over, by the job or by the clock.
\<close>

fun reservation_wait :: "real \<Rightarrow> (real \<times> job_status option option option) list \<Rightarrow> bool" where
  "reservation_wait started_at [] = False"
| "reservation_wait started_at ((now, job) # looks) =
     (if now - started_at < RESERVATION_ASSIGNMENT_TIMEOUT_SEC
      then if reservation_over job then True else reservation_wait started_at looks
      else True)"

section \<open>Nobody is coming\<close>

lemma gone_iff: "head_is_gone \<lfloor>x\<rfloor> \<longleftrightarrow> x \<ge> 180"
  by (simp add: head_is_gone_def ORPHANED_SHUTDOWN_TIME_SEC_def le_floor_iff)

lemma failing_turns_since:
  assumes "\<not> s_shutting_down s" "pc_head_unreachable_since c = Some t"
  shows "failing_turns False ts c s =
     map_option (\<lambda>(a, f). (s\<lparr>s_shutting_down := True\<rparr>, f)) (find (\<lambda>(a, f). f - t \<ge> 180) ts)"
  using assms
proof (induction ts arbitrary: c)
  case (Cons x ts)
  obtain a f where x: "x = (a, f)" by force
  show ?case
    using Cons by (auto simp: x push_failed_def Let_def gone_iff)
qed simp

text \<open>
  C15. A node whose pushes all fail leaves on its own, job or no job: at the first push that gave up
  180 seconds or more after the first failing one began, and never before; a single answer from the
  head resets the count.
\<close>

theorem orphan_leaves_on_time:
  assumes "\<not> s_shutting_down s" "pc_head_unreachable_since c = None"
  shows "failing_turns False ((started, failed_at) # ts) c s =
      map_option (\<lambda>(a, f). (s\<lparr>s_shutting_down := True\<rparr>, f))
        (find (\<lambda>(a, f). f - started \<ge> 180) ((started, failed_at) # ts)) \<and>
    (\<forall>view c0 s0. pc_head_unreachable_since (fst (push_answered view c0 s0)) = None)"
proof -
  have "failing_turns False ((started, failed_at) # ts) c s =
      map_option (\<lambda>(a, f). (s\<lparr>s_shutting_down := True\<rparr>, f))
        (find (\<lambda>(a, f). f - started \<ge> 180) ((started, failed_at) # ts))"
    using assms by (auto simp: push_failed_def Let_def gone_iff failing_turns_since)
  moreover have "pc_head_unreachable_since (fst (push_answered view c0 s0)) = None" for view c0 s0
    by (simp add: push_answered_def Let_def split: prod.splits)
  ultimately show ?thesis by blast
qed

theorem orphan_leaves_on_time_witness:
  "failing_turns False [(0, 10), (11, 21), (170, 180.5), (181, 191)] new_push_clock (REINIT_SELF 0)
     = Some ((REINIT_SELF 0)\<lparr>s_shutting_down := True\<rparr>, 180.5)"
proof -
  have "\<not> s_shutting_down (REINIT_SELF 0)" "pc_head_unreachable_since new_push_clock = None"
    by (simp_all add: REINIT_SELF_def new_push_clock_def)
  from orphan_leaves_on_time [OF this, of 0 10 "[(11, 21), (170, 180.5), (181, 191)]"]
  show ?thesis by simp
qed

section \<open>Watchdogs that wait\<close>

text \<open>A node that never gets READY leaves at the first wake-up past the deadline.\<close>

lemma never_ready_leaves:
  assumes "\<forall>(t, s) \<in> set looks. s_reported_status s \<notin> {READY, RUNNING} \<and> \<not> s_shutting_down s"
    "\<exists>(t, s) \<in> set looks. t \<ge> deadline"
  shows "\<exists>s. never_ready_watch deadline looks = Some (Leaves s) \<and> s_shutting_down s"
  using assms
proof (induction looks)
  case (Cons x xs)
  then show ?case by (cases x) (auto simp: leave_cluster_def Let_def)
qed simp

text \<open>
  A reboot that fails leaves the node BOOTING as well as FAILED. The idle watchdog waits for a booting
  node, and the other one stopped watching at the node's first READY; so if its one request to be
  deleted is lost, nothing on the node ends it while the head is reachable.
\<close>

lemma failed_reboot_is_never_idle:
  assumes "reboot_reinit now hs s = Some s1"
  shows "get_status (reboot_failed s1) = ''FAILED''" "s_booting (reboot_failed s1)"
    "idle_watch timeout (replicate n (idle, gone, reboot_failed s1)) = None"
    "never_ready_watch deadline ((t, s) # looks) = Some StopsWatching \<or> \<not> (t < deadline \<and> s_reported_status s = READY)"
proof -
  have b: "s_booting (reboot_failed s1)"
    using assms by (auto simp: reboot_reinit_def reboot_failed_def split: if_splits)
  then show "get_status (reboot_failed s1) = ''FAILED''" "s_booting (reboot_failed s1)"
    by (simp_all add: get_status_def reboot_failed_def)
  show "idle_watch timeout (replicate n (idle, gone, reboot_failed s1)) = None"
    using b by (induction n) (simp_all add: stays_open_def)
qed simp

end
