(* ===== verification/Cluster_Lifecycle.thy ===== *)
theory Cluster_Lifecycle
  imports Node_Boot Reapers
begin

text \<open>
  Shutting down, restarting and starting a cluster, \<open>endpoints/cluster_lifecycle.py\<close>. The provider's
  calls, the containers of local development and the saved configuration are parameters. The deletions
  of a shutdown run in a thread pool but touch different nodes, so they are taken in order.
\<close>

section \<open>Telling the running jobs\<close>

definition lifecycle_updates :: "string \<Rightarrow> string \<Rightarrow> job_field list" where
  "lifecycle_updates event message =
     [JStatus (Some JOB_CANCELED), JTerminalReason (Some (Reason event ''cluster_lifecycle'' message)),
      if event = ''cluster_restarted'' then JClusterRestarted True else JClusterShutdown True]"

definition mark_job :: "real \<Rightarrow> string \<Rightarrow> string \<Rightarrow> head \<Rightarrow> string \<Rightarrow> head" where
  "mark_job now event message h job_id =
     fst (update_job now (h\<lparr>hist_job_logs := hist_job_logs h @ [(job_id, message)]\<rparr>) job_id
       (lifecycle_updates event message) None)"

definition mark_running_jobs :: "real \<Rightarrow> string \<Rightarrow> string \<Rightarrow> head \<Rightarrow> head" where
  "mark_running_jobs now event message h = foldl (mark_job now event message) h (running_job_ids h)"

section \<open>Shutting down\<close>

definition shutdown_reason :: reason where
  "shutdown_reason = Reason ''cluster_shutdown'' ''cluster_lifecycle'' ''The cluster was shut down.''"

definition restart_reason :: reason where
  "restart_reason = Reason ''cluster_restarted'' ''cluster_lifecycle'' ''The cluster was restarted.''"

definition active_nodes :: "head \<Rightarrow> node list" where
  "active_nodes h = filter is_live (list_nodes h)"

text \<open>
  One node: its reason, then \<open>Node.delete\<close>, whose cloud call may raise. The result of a deletion is
  asked for only after every one was submitted, so a raise does not stop the others; but the shutdown
  then ends there, before the failed nodes' records and the containers are removed.
\<close>

definition end_node :: "real \<Rightarrow> reason \<Rightarrow> head \<Rightarrow> node \<Rightarrow> head" where
  "end_node now r h n =
     mark_deleted now (n_instance_name n)
       (fst (update_node h (n_instance_name n) [NTerminalReason (Some r)]))"

definition drop_failed :: "head \<Rightarrow> head" where
  "drop_failed h =
     foldl remove_node h (map n_instance_name (filter (\<lambda>n. n_status n = Some FAILED) (list_nodes h)))"

definition shutdown_cluster :: "(string \<Rightarrow> bool) \<Rightarrow> real \<Rightarrow> reason option \<Rightarrow> head \<Rightarrow> head \<times> bool" where
  "shutdown_cluster delete_ok now terminal_reason h =
     (let r = get_or shutdown_reason terminal_reason;
          actives = active_nodes h;
          h1 = foldl (end_node now r) h actives
      in if list_all (\<lambda>n. delete_ok (n_instance_name n)) actives then (drop_failed h1, True)
         else (h1, False))"

section \<open>Starting nodes\<close>

text \<open>
  The ports this cluster uses: those of the recorded live nodes and those its containers publish.
  The loop looks for the lowest one free.
\<close>

definition taken_ports :: "int list \<Rightarrow> head \<Rightarrow> int list" where
  "taken_ports published_ports h =
     concat (map (\<lambda>n. case n_port n of Some p \<Rightarrow> if p \<noteq> 0 then [p] else [] | None \<Rightarrow> [])
       (active_nodes h)) @ filter (\<lambda>p. p \<noteq> 0) published_ports"

lemma free_port_terminates:
  fixes port :: int
  assumes "port \<in> set taken"
  shows "card {q \<in> set taken. port + 1 \<le> q} < card {q \<in> set taken. port \<le> q}"
proof (rule psubset_card_mono)
  show "{q \<in> set taken. port + 1 \<le> q} \<subset> {q \<in> set taken. port \<le> q}" using assms by force
qed simp

function free_port :: "int list \<Rightarrow> int \<Rightarrow> int" where
  "free_port taken port = (if port \<in> set taken then free_port taken (port + 1) else port)"
  by pat_completeness auto
termination
  by (relation "measure (\<lambda>(taken, port). card {q \<in> set taken. port \<le> q})") (use free_port_terminates in auto)

declare free_port.simps [simp del]

definition get_index :: "'a list \<Rightarrow> nat \<Rightarrow> 'a result" where
  "get_index xs i = (if i < length xs then Inr (xs ! i) else Inl IndexError)"

text \<open>The optional arguments of \<open>_start_nodes\<close>, and one node's \<open>node_start_kwargs\<close>.\<close>

record start_request =
  sq_n_nodes_to_add :: "nat option"
  sq_names :: "string list option"
  sq_reserved_for_job :: "string option"
  sq_machine_types :: "string list option"
  sq_images_override :: "string list"
  sq_inactivity_override :: "int option"
  sq_parallelisms :: "int list option"

definition plain_start :: start_request where
  "plain_start = \<lparr>sq_n_nodes_to_add = None, sq_names = None, sq_reserved_for_job = None,
     sq_machine_types = None, sq_images_override = [], sq_inactivity_override = None,
     sq_parallelisms = None\<rparr>"

definition opt_index :: "'a list option \<Rightarrow> nat \<Rightarrow> 'a option result" where
  "opt_index xs i = (case xs of None \<Rightarrow> Inr None | Some l \<Rightarrow> bind_err (get_index l i) (\<lambda>x. Inr (Some x)))"

definition node_args ::
  "string \<Rightarrow> string option \<Rightarrow> start_request \<Rightarrow> node_spec \<Rightarrow> int \<Rightarrow> nat \<Rightarrow> start_args result" where
  "node_args default_region bucket rq spec port i =
     bind_err (opt_index (sq_names rq) i) (\<lambda>name.
     bind_err (opt_index (sq_machine_types rq) i) (\<lambda>mt.
     bind_err (opt_index (sq_parallelisms rq) i) (\<lambda>p.
       Inr \<lparr>sa_machine_type = get_or (ns_machine_type spec) mt,
            sa_region = (if truthy (ns_gcp_region spec) then the (ns_gcp_region spec) else default_region),
            sa_images = (if sq_images_override rq \<noteq> [] then sq_images_override rq else ns_images spec),
            sa_port = port, sa_sync_bucket_name = bucket,
            sa_inactivity_shutdown_time_sec =
              (case sq_inactivity_override rq of Some t \<Rightarrow> Some t | None \<Rightarrow> ns_inactivity_shutdown_time_sec spec),
            sa_disk_size = ns_disk_size_gb spec, sa_instance_name = name,
            sa_reserved_for_job = sq_reserved_for_job rq, sa_target_parallelism = p\<rparr>)))"

text \<open>The loop over a specification's nodes hands on the ports taken; the first one is given.\<close>

fun start_spec ::
  "bool \<Rightarrow> int \<Rightarrow> string \<Rightarrow> string option \<Rightarrow> start_request \<Rightarrow> node_spec \<Rightarrow> nat \<Rightarrow> nat \<Rightarrow> int list
    \<Rightarrow> (start_args list \<times> int list) result" where
  "start_spec local_dev base region bucket rq spec i 0 taken = Inr ([], taken)"
| "start_spec local_dev base region bucket rq spec i (Suc k) taken =
     (let port = (if local_dev then free_port taken (base + 1) else base);
          taken' = (if local_dev then port # taken else taken)
      in bind_err (node_args region bucket rq spec port i) (\<lambda>a.
         bind_err (start_spec local_dev base region bucket rq spec (Suc i) k taken') (\<lambda>(as, ports).
           Inr (a # as, ports))))"

fun start_specs ::
  "bool \<Rightarrow> int \<Rightarrow> string \<Rightarrow> string option \<Rightarrow> start_request \<Rightarrow> node_spec list \<Rightarrow> int list
    \<Rightarrow> start_args list result" where
  "start_specs local_dev base region bucket rq [] taken = Inr []"
| "start_specs local_dev base region bucket rq (spec # specs) taken =
     (let quantity = (case sq_n_nodes_to_add rq of None \<Rightarrow> nat (ns_quantity spec) | Some n \<Rightarrow> n)
      in bind_err (start_spec local_dev base region bucket rq spec 0 quantity taken) (\<lambda>(as, taken').
           if sq_n_nodes_to_add rq \<noteq> None then Inr as
           else bind_err (start_specs local_dev base region bucket rq specs taken') (\<lambda>more.
             Inr (as @ more))))"

definition start_nodes ::
  "bool \<Rightarrow> int \<Rightarrow> string \<Rightarrow> string option \<Rightarrow> int list \<Rightarrow> head \<Rightarrow> cluster_config \<Rightarrow> start_request
    \<Rightarrow> start_args list result" where
  "start_nodes local_dev base region bucket published_ports h config rq =
     start_specs local_dev base region bucket rq (cfg_nodes config)
       (if local_dev then taken_ports published_ports h else [])"

end
