(* ===== verification/Cluster_Claims.thy ===== *)
theory Cluster_Claims
  imports Cluster_Lifecycle
begin

text \<open>
  What a shutdown or a restart promises: the running jobs are told, no node stays live, and the nodes
  started afterwards get ports of their own.
\<close>

section \<open>The jobs\<close>

lemma lifecycle_clean [simp]: "clean (lifecycle_updates event message)"
  by (simp add: clean_def lifecycle_updates_def)

definition told :: "string \<Rightarrow> string \<Rightarrow> job \<Rightarrow> bool" where
  "told event message j \<longleftrightarrow> j_status j = Some JOB_CANCELED
     \<and> j_terminal_reason j = Some (Reason event ''cluster_lifecycle'' message)
     \<and> (if event = ''cluster_restarted'' then j_cluster_restarted j else j_cluster_shutdown j)"

lemma told_terminal: "told event message j \<Longrightarrow> job_terminal j"
  by (simp add: told_def job_terminal_def TERMINAL_JOB_STATUSES_def)

lemma merged_told: "told event message (merged_job now j (lifecycle_updates event message) None)"
  by (simp add: told_def merged_job_def lifecycle_updates_def job_updates_status_def apply_job_updates_def Let_def)

lemma mark_job_inv: "head_inv h \<Longrightarrow> head_inv (mark_job now event message h k)"
  by (simp add: mark_job_def update_job_inv)

lemma mark_job_self:
  "head_inv h \<Longrightarrow> job_lookup h k \<noteq> None \<Longrightarrow>
     \<exists>j. job_lookup (mark_job now event message h k) k = Some j \<and> told event message j"
  using update_job_self [of "h\<lparr>hist_job_logs := hist_job_logs h @ [(k, message)]\<rparr>" "lifecycle_updates event message" k]
    merged_told by (auto simp: mark_job_def)

lemma mark_job_keeps:
  "head_inv h \<Longrightarrow> x \<noteq> k \<Longrightarrow> job_lookup h x = Some j \<Longrightarrow> job_terminal j \<Longrightarrow>
     job_lookup (mark_job now event message h k) x = Some j"
  unfolding mark_job_def by (rule update_job_other) simp_all

lemma mark_job_present:
  "head_inv h \<Longrightarrow> job_lookup h x \<noteq> None \<Longrightarrow> job_lookup (mark_job now event message h k) x \<noteq> None"
proof (cases "job_lookup h k")
  case (Some j)
  assume h: "head_inv h" "job_lookup h x \<noteq> None"
  let ?h = "h\<lparr>hist_job_logs := hist_job_logs h @ [(k, message)]\<rparr>"
  have "job_lookup ?h k = Some j" using Some by simp
  from update_job_cases [OF this, of now "lifecycle_updates event message" None] obtain h1 kids m
    where st: "update_job_step now ?h k (lifecycle_updates event message) None = Some (h1, m, kids)"
      and u: "update_job now ?h k (lifecycle_updates event message) None = (cascade now h1 (cancellations k m kids), True)"
    by metis
  have "job_lookup h1 x \<noteq> None" using st by (rule update_job_step_Some) (use h in \<open>auto split: if_splits\<close>)
  then show ?thesis by (simp add: mark_job_def u cascade_lookup_None)
qed (simp add: mark_job_def update_job_missing)

lemma mark_jobs_inv:
  "head_inv h \<Longrightarrow> head_inv (foldl (mark_job now event message) h ks)"
  "head_inv h \<Longrightarrow> job_lookup h x \<noteq> None \<Longrightarrow> job_lookup (foldl (mark_job now event message) h ks) x \<noteq> None"
proof -
  have "head_inv h \<Longrightarrow> head_inv (foldl (mark_job now event message) h ks) \<and>
      (job_lookup h x \<noteq> None \<longrightarrow> job_lookup (foldl (mark_job now event message) h ks) x \<noteq> None)" for x
  proof (induction ks rule: rev_induct)
    case (snoc k ks)
    then show ?case using mark_job_present mark_job_inv by simp
  qed simp
  then show "head_inv h \<Longrightarrow> head_inv (foldl (mark_job now event message) h ks)"
    "head_inv h \<Longrightarrow> job_lookup h x \<noteq> None \<Longrightarrow> job_lookup (foldl (mark_job now event message) h ks) x \<noteq> None"
    by blast+
qed

definition has_told :: "string \<Rightarrow> string \<Rightarrow> head \<Rightarrow> string \<Rightarrow> bool" where
  "has_told event message h k \<longleftrightarrow> (\<exists>j. job_lookup h k = Some j \<and> told event message j)"

lemma has_told_keeps:
  assumes "head_inv h" "has_told event message h x"
  shows "has_told event message (mark_job now event message h k) x"
proof (cases "x = k")
  case True
  then show ?thesis using assms mark_job_self [OF assms(1), of k] by (auto simp: has_told_def)
next
  case False
  then show ?thesis
    using assms mark_job_keeps [OF assms(1) False] told_terminal unfolding has_told_def by blast
qed

lemma mark_jobs_told:
  assumes "head_inv h" "job_lookup h x \<noteq> None" "x \<in> set ks"
  shows "has_told event message (foldl (mark_job now event message) h ks) x"
  using assms(3)
proof (induction ks rule: rev_induct)
  case (snoc k ks)
  let ?h = "foldl (mark_job now event message) h ks"
  have inv: "head_inv ?h" and p: "job_lookup ?h x \<noteq> None" using mark_jobs_inv assms by blast+
  show ?case
  proof (cases "x = k")
    case True
    then show ?thesis using mark_job_self [OF inv] p by (auto simp: has_told_def)
  next
    case False
    then have "has_told event message ?h x" using snoc by simp
    from has_told_keeps [OF inv this] show ?thesis by simp
  qed
qed simp

lemma mark_jobs_keep:
  assumes "head_inv h" "job_lookup h x = Some j" "job_terminal j" "x \<notin> set ks"
  shows "job_lookup (foldl (mark_job now event message) h ks) x = Some j"
  using assms(4)
proof (induction ks rule: rev_induct)
  case (snoc k ks)
  then show ?case
    using mark_job_keeps [OF mark_jobs_inv(1) [OF assms(1)], of x k] assms(3) by simp
qed (simp add: assms)

lemma running_ids_present: "head_inv h \<Longrightarrow> k \<in> set (running_job_ids h) \<longleftrightarrow>
   (\<exists>j. map_of (JOBS h) k = Some j \<and> j_status j = Some JOB_RUNNING)"
  using head_inv_distinct [of h] by (auto simp: running_job_ids_def map_of_eq_Some_iff image_iff)

text \<open>
  C12. A shutdown or restart tells every job running in the head, children cancelled through their
  parents included: it ends CANCELED with the event's flag and reason, and no finished job changes.
\<close>

theorem lifecycle_event_reaches_every_job:
  assumes "head_life h"
  shows "(\<forall>k j. map_of (JOBS h) k = Some j \<longrightarrow> j_status j = Some JOB_RUNNING \<longrightarrow>
      (\<exists>j'. job_lookup (mark_running_jobs now event message h) k = Some j' \<and> j_status j' = Some JOB_CANCELED
         \<and> j_terminal_reason j' = Some (Reason event ''cluster_lifecycle'' message)
         \<and> (if event = ''cluster_restarted'' then j_cluster_restarted j' else j_cluster_shutdown j')))
    \<and> (\<forall>k j. job_lookup h k = Some j \<longrightarrow> job_terminal j \<longrightarrow>
         job_lookup (mark_running_jobs now event message h) k = Some j)"
proof (intro conjI allI impI)
  note inv = head_life_inv [OF assms]
  fix k j
  assume k: "map_of (JOBS h) k = Some j" "j_status j = Some JOB_RUNNING"
  then have "k \<in> set (running_job_ids h)" "job_lookup h k \<noteq> None"
    using running_ids_present [OF inv] by (auto simp: job_lookup_def)
  from mark_jobs_told [OF inv this(2,1), of event message now]
  show "\<exists>j'. job_lookup (mark_running_jobs now event message h) k = Some j' \<and> j_status j' = Some JOB_CANCELED
         \<and> j_terminal_reason j' = Some (Reason event ''cluster_lifecycle'' message)
         \<and> (if event = ''cluster_restarted'' then j_cluster_restarted j' else j_cluster_shutdown j')"
    by (simp only: has_told_def told_def mark_running_jobs_def)
next
  note inv = head_life_inv [OF assms]
  fix k j
  assume k: "job_lookup h k = Some j" "job_terminal j"
  then have "k \<notin> set (running_job_ids h)"
    using running_ids_present [OF inv] by (auto simp: job_lookup_def job_terminal_iff)
  from mark_jobs_keep [OF inv k this]
  show "job_lookup (mark_running_jobs now event message h) k = Some j" by (simp add: mark_running_jobs_def)
qed

theorem lifecycle_event_reaches_every_job_witness:
  "\<exists>j'. job_lookup (mark_running_jobs 50 ''cluster_restarted'' ''The cluster was restarted.'' demo_running) ''j1'' = Some j'
     \<and> j_status j' = Some JOB_CANCELED \<and> j_cluster_restarted j'"
proof -
  have "map_option j_status (map_of (JOBS demo_running) ''j1'') = Some (Some JOB_RUNNING)" by code_simp
  then obtain j where "map_of (JOBS demo_running) ''j1'' = Some j" "j_status j = Some JOB_RUNNING" by auto
  with lifecycle_event_reaches_every_job [OF demo_running_life, of 50 "''cluster_restarted''" "''The cluster was restarted.''"]
  show ?thesis by force
qed

section \<open>The nodes\<close>

lemma end_node_step:
  "head_step (fst (update_node h (n_instance_name n) [NTerminalReason (Some r)])) (end_node now r h n)"
  "head_step h (fst (update_node h (n_instance_name n) [NTerminalReason (Some r)]))"
  by (auto simp: end_node_def mark_deleted_def intro!: node_updated)

lemma end_node_status:
  "node_status_of (end_node now r h n) x =
     (if x = n_instance_name n then
        (if node_status_of h x = Some FAILED then Some FAILED else Some DELETED)
      else node_status_of h x)"
proof -
  have b: "n_status (node_before h y) = node_status_of h y" for h y
    by (simp add: node_before_def node_status_of_def empty_node_def split: option.splits)
  have s: "node_status_of (fst (update_node h y us)) z =
      (if z = y then next_status (node_status_of h y) (updates_status us) else node_status_of h z)"
    if "NStatus None \<notin> set us" for h y us z
    using update_node_status [OF that, of h y] by (auto simp: node_status_of_def update_node_frame b)
  show ?thesis
    by (simp add: end_node_def mark_deleted_def s updates_status_def next_status_def status_refused_def)
qed

lemma end_nodes_status:
  "node_status_of (foldl (end_node now r) h ns) x =
     (if x \<in> n_instance_name ` set ns then
        (if node_status_of h x = Some FAILED then Some FAILED else Some DELETED)
      else node_status_of h x)"
  by (induction ns arbitrary: h) (auto simp: end_node_status)

lemma end_nodes_names:
  "head_inv h \<Longrightarrow> head_inv (foldl (end_node now r) h ns)"
proof (induction ns arbitrary: h)
  case (Cons n ns)
  have "head_inv (end_node now r h n)"
    using Cons.prems end_node_step head_inv_step by blast
  then show ?case using Cons.IH by simp
qed simp

lemma active_in: "head_inv h \<Longrightarrow>
   x \<in> n_instance_name ` set (active_nodes h) \<longleftrightarrow> node_status_of h x \<in> {Some BOOTING, Some READY, Some RUNNING}"
proof -
  assume inv: "head_inv h"
  have d: "distinct (dkeys (NODES h))" and n: "\<And>k m. map_of (NODES h) k = Some m \<Longrightarrow> n_instance_name m = k"
    using inv by (auto simp: head_inv_def nodes_ok_def)
  show ?thesis
  proof
    assume "x \<in> n_instance_name ` set (active_nodes h)"
    then obtain k m where m: "(k, m) \<in> set (NODES h)" "is_live m" "x = n_instance_name m"
      by (auto simp: active_nodes_def list_nodes_def)
    then have "map_of (NODES h) k = Some m" using d by simp
    then show "node_status_of h x \<in> {Some BOOTING, Some READY, Some RUNNING}"
      using m n [of k m] by (auto simp: node_status_of_def is_live_def)
  next
    assume "node_status_of h x \<in> {Some BOOTING, Some READY, Some RUNNING}"
    then obtain m where m: "map_of (NODES h) x = Some m" "is_live m"
      by (auto simp: node_status_of_def is_live_def split: option.splits)
    then have "m \<in> snd ` set (NODES h)" using map_of_SomeD by force
    then show "x \<in> n_instance_name ` set (active_nodes h)"
      using m n [OF m(1)] by (auto simp: active_nodes_def list_nodes_def is_live_def intro!: image_eqI [of x _ m])
  qed
qed

lemma NODES_remove: "NODES (remove_node h x) = ddel x (NODES h)"
  by (simp add: remove_node_def Let_def publish_def split: option.splits)

lemma NODES_removes: "map_of (NODES (foldl remove_node h xs)) x = (if x \<in> set xs then None else map_of (NODES h) x)"
  by (induction xs arbitrary: h) (auto simp: NODES_remove)

lemma drop_failed_status:
  assumes "head_inv h"
  shows "node_status_of (drop_failed h) x = (if node_status_of h x = Some FAILED then None else node_status_of h x)"
proof -
  have d: "distinct (dkeys (NODES h))" and n: "\<And>k m. map_of (NODES h) k = Some m \<Longrightarrow> n_instance_name m = k"
    using assms by (auto simp: head_inv_def nodes_ok_def)
  have "x \<in> n_instance_name ` {m \<in> set (list_nodes h). n_status m = Some FAILED} \<longleftrightarrow> node_status_of h x = Some FAILED"
  proof
    assume "x \<in> n_instance_name ` {m \<in> set (list_nodes h). n_status m = Some FAILED}"
    then obtain k m where m: "(k, m) \<in> set (NODES h)" "n_status m = Some FAILED" "x = n_instance_name m"
      by (auto simp: list_nodes_def)
    then have "map_of (NODES h) k = Some m" using d by simp
    then show "node_status_of h x = Some FAILED" using m n [of k m] by (simp add: node_status_of_def)
  next
    assume "node_status_of h x = Some FAILED"
    then obtain m where m: "map_of (NODES h) x = Some m" "n_status m = Some FAILED"
      by (auto simp: node_status_of_def split: option.splits)
    then have "m \<in> snd ` set (NODES h)" using map_of_SomeD by force
    then show "x \<in> n_instance_name ` {m \<in> set (list_nodes h). n_status m = Some FAILED}"
      using m n [OF m(1)] by (auto simp: list_nodes_def intro!: image_eqI [of x _ m])
  qed
  then show ?thesis by (simp add: drop_failed_def node_status_of_def NODES_removes)
qed

lemma remove_node_frame:
  "JOBS (remove_node h x) = JOBS h" "hist_jobs (remove_node h x) = hist_jobs h"
  "hist_nodes (remove_node h x) = hist_nodes h" "admission_paused (remove_node h x) = admission_paused h"
  by (simp_all add: remove_node_def Let_def publish_def split: option.splits)

lemma remove_node_inv: "head_inv h \<Longrightarrow> head_inv (remove_node h x)"
proof -
  assume h: "head_inv h"
  then have ok: "nodes_ok (NODES h) (hist_nodes h)" by (simp add: head_inv_def)
  have "nodes_ok (ddel x (NODES h)) (hist_nodes h)"
  proof (rule nodes_okI)
    fix k n assume k: "map_of (ddel x (NODES h)) k = Some n" "n_status n \<noteq> None"
    then have "map_of (NODES h) k = Some n" by (simp split: if_splits)
    then show "\<exists>m. map_of (hist_nodes h) k = Some m \<and> n_status m = n_status n \<and> durable_view m = durable_view n"
      using ok k(2) unfolding nodes_ok_def by blast
  qed (use ok nodes_ok_distinct [OF ok] nodes_ok_names [OF ok] nodes_ok_hist_names [OF ok] in \<open>auto split: if_splits\<close>)
  then show ?thesis using h by (simp add: head_inv_def remove_node_frame NODES_remove)
qed

lemma drop_failed_inv: "head_inv h \<Longrightarrow> head_inv (drop_failed h)"
proof -
  have "head_inv h \<Longrightarrow> head_inv (foldl remove_node h xs)" for xs
    by (induction xs arbitrary: h) (simp_all add: remove_node_inv)
  then show "head_inv h \<Longrightarrow> head_inv (drop_failed h)" by (simp add: drop_failed_def)
qed

lemma shutdown_facts:
  assumes "head_inv h" "shutdown_cluster delete_ok now reason h = (h', all_deleted)"
  shows "head_inv h'"
    and "node_status_of h' x =
      (if node_status_of h x \<in> {Some BOOTING, Some READY, Some RUNNING} then Some DELETED
       else if all_deleted \<and> node_status_of h x = Some FAILED then None else node_status_of h x)"
proof -
  define h1 where "h1 = foldl (end_node now (get_or shutdown_reason reason)) h (active_nodes h)"
  have i1: "head_inv h1" unfolding h1_def by (rule end_nodes_names [OF assms(1)])
  have s1: "node_status_of h1 y = (if node_status_of h y \<in> {Some BOOTING, Some READY, Some RUNNING}
      then Some DELETED else node_status_of h y)" for y
    by (auto simp: h1_def end_nodes_status active_in [OF assms(1)])
  have h': "h' = (if all_deleted then drop_failed h1 else h1)"
    using assms(2) by (auto simp: shutdown_cluster_def Let_def h1_def split: if_splits)
  show "head_inv h'" by (simp add: h' i1 drop_failed_inv)
  show "node_status_of h' x =
      (if node_status_of h x \<in> {Some BOOTING, Some READY, Some RUNNING} then Some DELETED
       else if all_deleted \<and> node_status_of h x = Some FAILED then None else node_status_of h x)"
    by (auto simp: h' drop_failed_status [OF i1] s1)
qed



text \<open>
  With its FAILED record dropped, a node whose VM is still there comes back: its next push is stored
  as it is, with no region and no machine type, and its machine takes jobs again.
\<close>

lemma shutdown_forgets_failures:
  defines "h \<equiv> fst (shutdown_cluster (\<lambda>x. True) 60 None (mark_failed ''n1'' demo_ready))"
  shows "node_status_of (mark_failed ''n1'' demo_ready) ''n1'' = Some FAILED" "map_of (NODES h) ''n1'' = None"
    "node_status_of (fst (record_node_push 61 h ''n1'' [NStatus (Some READY)])) ''n1'' = Some READY"
  unfolding h_def by code_simp+

text \<open>
  A job admitted after the running jobs were told and before its nodes go is told nothing: it stays
  RUNNING, with neither flag, over a cluster without nodes.
\<close>

lemma job_admitted_during_shutdown:
  defines "h \<equiv> mark_running_jobs 50 ''cluster_shutdown'' ''The cluster was shut down.'' demo_ready"
  defines "h' \<equiv> fst (shutdown_cluster (\<lambda>x. True) 51 None (fst (admit_job 50.5 (fst (record_node_push 50 h ''n1'' [])) ''j1'' demo_job [''n1''])))"
  shows "has_live_nodes h' = False"
    "map_option (\<lambda>j. (j_status j, j_cluster_shutdown j, j_terminal_reason j)) (job_lookup h' ''j1'')
     = Some (Some JOB_RUNNING, False, None)"
  unfolding h'_def h_def by code_simp+

section \<open>Ports\<close>

lemma free_port_facts:
  "port \<le> free_port taken port \<and> free_port taken port \<notin> set taken \<and> {port ..< free_port taken port} \<subseteq> set taken"
proof (induction taken port rule: free_port.induct)
  case (1 taken port)
  show ?case
  proof (cases "port \<in> set taken")
    case True
    with 1 have "{port + 1 ..< free_port taken (port + 1)} \<subseteq> set taken" "port + 1 \<le> free_port taken (port + 1)"
      "free_port taken (port + 1) \<notin> set taken" by blast+
    moreover have "{port ..< free_port taken (port + 1)} \<subseteq> insert port {port + 1 ..< free_port taken (port + 1)}" by auto
    ultimately show ?thesis using True by (auto simp: free_port.simps [of taken port])
  next
    case False
    then show ?thesis by (simp add: free_port.simps [of taken port])
  qed
qed

lemma node_args_port: "node_args region bucket rq spec port i = Inr a \<Longrightarrow> sa_port a = port"
  by (auto simp: node_args_def bind_err_def split: sum.splits)

text \<open>The ports of a run of nodes: each the lowest free one when its turn came.\<close>

fun ports_from :: "int \<Rightarrow> int list \<Rightarrow> nat \<Rightarrow> int list" where
  "ports_from base taken 0 = []"
| "ports_from base taken (Suc k) =
     (let p = free_port taken (base + 1) in p # ports_from base (p # taken) k)"

lemma start_spec_ports:
  "start_spec True base region bucket rq spec i k taken = Inr (as, taken') \<Longrightarrow>
     map sa_port as = ports_from base taken k \<and> taken' = rev (map sa_port as) @ taken"
proof (induction k arbitrary: i taken as taken')
  case (Suc k)
  from Suc.prems obtain a more where
    a: "node_args region bucket rq spec (free_port taken (base + 1)) i = Inr a" and as: "as = a # more"
    and m: "start_spec True base region bucket rq spec (Suc i) k (free_port taken (base + 1) # taken) = Inr (more, taken')"
    by (auto simp: Let_def bind_err_def split: sum.splits)
  from Suc.IH [OF m] node_args_port [OF a] show ?case by (simp add: as Let_def)
qed simp

lemma ports_from_append: "ports_from base taken (j + k) =
   ports_from base taken j @ ports_from base (rev (ports_from base taken j) @ taken) k"
  by (induction j arbitrary: taken) (simp_all add: Let_def)

lemma start_specs_ports:
  "start_specs True base region bucket rq specs taken = Inr as \<Longrightarrow>
     map sa_port as = ports_from base taken (length as)"
proof (induction specs arbitrary: taken as)
  case (Cons spec specs)
  from Cons.prems obtain q as1 t1 where s: "start_spec True base region bucket rq spec 0 q taken = Inr (as1, t1)"
    and r: "as = as1 \<or> (\<exists>more. start_specs True base region bucket rq specs t1 = Inr more \<and> as = as1 @ more)"
    by (auto simp: Let_def bind_err_def split: sum.splits if_splits)
  note p = start_spec_ports [OF s]
  have len: "length as1 = q"
  proof -
    have "length (ports_from b t k) = k" for b t k by (induction k arbitrary: t) (simp_all add: Let_def)
    then show ?thesis using p by (metis length_map)
  qed
  from r show ?case
  proof
    assume "as = as1"
    then show ?thesis using p len by simp
  next
    assume "\<exists>more. start_specs True base region bucket rq specs t1 = Inr more \<and> as = as1 @ more"
    then obtain more where m: "start_specs True base region bucket rq specs t1 = Inr more" "as = as1 @ more" by blast
    from Cons.IH [OF m(1)] show ?thesis using p len m(2) by (simp add: ports_from_append)
  qed
qed simp

lemma ports_from_facts:
  "distinct (ports_from base taken k) \<and> set (ports_from base taken k) \<inter> set taken = {}
   \<and> (\<forall>i < k. base < ports_from base taken k ! i \<and>
        {base <..< ports_from base taken k ! i} \<subseteq> set taken \<union> set (take i (ports_from base taken k)))"
proof (induction k arbitrary: taken)
  case (Suc k)
  let ?p = "free_port taken (base + 1)"
  note f = free_port_facts [of "base + 1" taken]
  have g: "{base <..< ?p} \<subseteq> set taken" using f by (auto simp: subset_iff)
  note ih = Suc.IH [of "?p # taken"]
  have "base < (?p # ports_from base (?p # taken) k) ! i \<and>
      {base <..< (?p # ports_from base (?p # taken) k) ! i} \<subseteq> set taken \<union> set (take i (?p # ports_from base (?p # taken) k))"
    if "i < Suc k" for i
  proof (cases i)
    case 0
    then show ?thesis using f g by auto
  next
    case (Suc j)
    then show ?thesis using ih that by auto
  qed
  then show ?case using ih f by (auto simp: Let_def)
qed simp

text \<open>
  The nodes a local cluster starts get ports that are distinct, above the base, free of every
  recorded live node and published container, and each the lowest such port: a port below it is taken
  or was given to an earlier node of the same start.
\<close>

theorem started_nodes_own_their_ports:
  assumes "start_nodes True base region bucket published_ports h config rq = Inr as"
  shows "distinct (map sa_port as) \<and>
    (\<forall>a \<in> set as. base < sa_port a \<and> sa_port a \<notin> set (taken_ports published_ports h)) \<and>
    (\<forall>i < length as. \<forall>q. base < q \<and> q < sa_port (as ! i) \<longrightarrow>
       q \<in> set (taken_ports published_ports h) \<or> (\<exists>j < i. sa_port (as ! j) = q))"
proof -
  let ?t = "taken_ports published_ports h"
  let ?p = "ports_from base ?t (length as)"
  have p: "map sa_port as = ?p" using assms start_specs_ports by (simp add: start_nodes_def)
  note f = ports_from_facts [of base ?t "length as"]
  have nth: "?p ! i = sa_port (as ! i)" if "i < length as" for i using p that by (metis nth_map)
  have "base < sa_port a \<and> sa_port a \<notin> set ?t" if a: "a \<in> set as" for a
  proof -
    obtain i where i: "i < length as" "a = as ! i" using a by (auto simp: in_set_conv_nth)
    have "sa_port a \<in> set ?p" using a p [symmetric] by simp
    then show ?thesis using f i nth [OF i(1)] by auto
  qed
  moreover have "q \<in> set ?t \<or> (\<exists>j < i. sa_port (as ! j) = q)"
    if "i < length as" "base < q" "q < sa_port (as ! i)" for i q
  proof -
    have "q \<in> set ?t \<union> set (take i ?p)" using f that nth [OF that(1)] by fastforce
    then consider "q \<in> set ?t" | j where "j < i" "j < length as" "q = ?p ! j"
      using that(1) p [symmetric] by (auto simp: in_set_conv_nth)
    then show ?thesis using nth by cases auto
  qed
  ultimately show ?thesis using f p by simp
qed

definition demo_config :: cluster_config where
  "demo_config = \<lparr>cfg_nodes = [\<lparr>ns_machine_type = ''n4-standard-2'', ns_gcp_region = None, ns_quantity = 2,
     ns_disk_size_gb = None, ns_inactivity_shutdown_time_sec = Some 60, ns_images = [''python'']\<rparr>],
     cfg_max_vcpus = None, cfg_max_gpus = None\<rparr>"

theorem started_nodes_own_their_ports_witness:
  "\<exists>as. start_nodes True 8000 ''us-central1'' None [8001, 8003] demo_ready demo_config plain_start = Inr as \<and>
     distinct (map sa_port as) \<and> map sa_port as = [8002, 8004]"
proof -
  obtain as where s: "start_nodes True 8000 ''us-central1'' None [8001, 8003] demo_ready demo_config plain_start = Inr as"
    and p: "map sa_port as = [8002, 8004]"
  proof -
    let ?r = "start_nodes True 8000 ''us-central1'' None [8001, 8003] demo_ready demo_config plain_start"
    have "isl ?r = False" "map_sum id (map sa_port) ?r = Inr [8002, 8004]" by code_simp+
    then show thesis using that by (cases ?r) auto
  qed
  from started_nodes_own_their_ports [OF s] show ?thesis using s p by auto
qed

text \<open>A shutdown leaves no port taken by a record, so a restart's nodes reuse the lowest ones.\<close>

lemma shutdown_frees_ports:
  assumes "head_life h" "shutdown_cluster ok now r h = (h', d)"
  shows "taken_ports [] h' = []"
proof -
  note facts = shutdown_facts [OF head_life_inv [OF assms(1)] assms(2)]
  have "active_nodes h' = []"
  proof (rule ccontr)
    assume "active_nodes h' \<noteq> []"
    then obtain n where "n \<in> set (active_nodes h')" by (cases "active_nodes h'") auto
    with active_in [OF facts(1), of "n_instance_name n"] facts(2) [of "n_instance_name n"] show False
      by (simp split: if_splits)
  qed
  then show ?thesis by (simp add: taken_ports_def)
qed

end
