(* ===== verification/Auth_Gate.thy ===== *)
theory Auth_Gate
  imports Prelude
begin

text \<open>
  Who may call the head: the middleware \<open>validate_requests\<close> of \<open>main_service/__init__.py\<close> and its cache
  of validated logins. A request waits for the backend in the middle, so the handler comes in two
  parts, before and after the backend's answer, and other requests run in between. The backend's
  status codes and the clock are parameters; the \<open>Origin\<close> header arrives parsed.
\<close>

section \<open>The cache\<close>

definition AUTH_CACHE_TTL_SEC :: real where "AUTH_CACHE_TTL_SEC = 60 * 60"

type_synonym login = "string \<times> string"
type_synonym auth_cache = "(login \<times> real) list"

definition cached_auth_ok :: "real \<Rightarrow> login \<Rightarrow> auth_cache \<Rightarrow> bool \<times> auth_cache" where
  "cached_auth_ok now key cache =
     (case map_of cache key of
        None \<Rightarrow> (False, cache)
      | Some expires_at \<Rightarrow> if now \<ge> expires_at then (False, ddel key cache) else (True, cache))"

text \<open>A cache past 500 entries drops the ones that have expired.\<close>

definition remember_auth_ok :: "real \<Rightarrow> login \<Rightarrow> auth_cache \<Rightarrow> auth_cache" where
  "remember_auth_ok now key cache =
     (let cache' = dset key (now + AUTH_CACHE_TTL_SEC) cache
      in if length cache' > 500 then filter (\<lambda>(k, expiry). expiry > now) cache' else cache')"

section \<open>Requests\<close>

record session =
  se_email :: "string option"
  se_authorization :: "string option"
  se_name :: "string option"
  se_profile_pic :: "string option"

text \<open>
  \<open>rq_origin\<close> is \<open>None\<close> without an \<open>Origin\<close> header, else its host name if it has one; \<open>rq_relayed\<close> is
  whether the connection is one of the TLS proxy's.
\<close>

record http_request =
  rq_path :: string
  rq_authorization :: "string option"
  rq_email :: "string option"
  rq_origin :: "string option option"
  rq_client_host :: string
  rq_relayed :: bool
  rq_client_id :: "string option"
  rq_session :: session

record gate_env =
  ge_cluster_token :: string
  ge_local_dev :: bool
  ge_client_hosted :: bool
  ge_local_user_email :: string
  ge_local_user_token :: string

definition bearer :: "string \<Rightarrow> string" where
  "bearer token = ''Bearer '' @ token"

definition management_request :: "http_request \<Rightarrow> bool" where
  "management_request rq \<longleftrightarrow> prefix ''/v1/management'' (rq_path rq)"

definition cluster_request :: "gate_env \<Rightarrow> http_request \<Rightarrow> bool" where
  "cluster_request env rq \<longleftrightarrow> rq_authorization rq = Some (bearer (ge_cluster_token env))"

definition is_machine_owner :: "http_request \<Rightarrow> bool" where
  "is_machine_owner rq \<longleftrightarrow> rq_client_host rq = ''127.0.0.1'' \<and> \<not> rq_relayed rq
     \<and> (case rq_origin rq of None \<Rightarrow> True | Some host \<Rightarrow> host \<in> {Some ''127.0.0.1'', Some ''localhost''})"

text \<open>\<open>path.rstrip("/").split("/")[-1]\<close> holds a dot.\<close>

definition last_segment :: "string \<Rightarrow> string" where
  "last_segment path = after_last CHR ''/'' (rev (dropWhile (\<lambda>c. c = CHR ''/'') (rev path)))"

definition open_path :: "string \<Rightarrow> bool" where
  "open_path path \<longleftrightarrow> prefix ''/api/sf/'' path \<or> path = ''/signed-resumable''
     \<or> path \<in> {''/v3/login/dashboard'', ''/v1/login/microsoft/dashboard''}
     \<or> CHR ''.'' \<in> set (last_segment path)"

text \<open>The session a request without one gets in local development and from the machine's owner.\<close>

definition local_dev_session :: "http_request \<Rightarrow> session" where
  "local_dev_session rq =
     (let s = rq_session rq
      in if truthy (se_email s) then s
         else if truthy (rq_email rq) \<and> truthy (rq_authorization rq)
         then s\<lparr>se_email := rq_email rq, se_authorization := rq_authorization rq,
                se_name := rq_email rq, se_profile_pic := Some []\<rparr>
         else s\<lparr>se_email := Some ''local-dev@burla.dev'', se_authorization := Some ''Bearer local-dev'',
                se_name := Some ''Local Dev'', se_profile_pic := Some []\<rparr>)"

definition owner_session :: "gate_env \<Rightarrow> http_request \<Rightarrow> session" where
  "owner_session env rq =
     (let s = rq_session rq
      in if truthy (se_email s) then s
         else (let s1 = (if truthy (rq_email rq) \<and> truthy (rq_authorization rq)
                         then s\<lparr>se_email := rq_email rq, se_authorization := rq_authorization rq\<rparr>
                         else s\<lparr>se_email := Some (ge_local_user_email env),
                                se_authorization := Some (bearer (ge_local_user_token env))\<rparr>)
               in s1\<lparr>se_name := se_email s1, se_profile_pic := Some []\<rparr>))"

text \<open>\<open>session.get(k) or headers.get(k)\<close>, and the pair of credentials when both are there.\<close>

definition or_else :: "string option \<Rightarrow> string option \<Rightarrow> string option" where
  "or_else a b = (if truthy a then a else b)"

definition credentials :: "http_request \<Rightarrow> login option" where
  "credentials rq =
     (let email = or_else (se_email (rq_session rq)) (rq_email rq);
          authorization = or_else (se_authorization (rq_session rq)) (rq_authorization rq)
      in if truthy email \<and> truthy authorization then Some (the email, the authorization) else None)"

section \<open>The gate\<close>

datatype gate_reply =
    CallNext session
  | RedirectTo string session
  | LoginPage int
  | AuthRequired
  | BackendError int

text \<open>Before the backend: an answer, or what to ask it.\<close>

datatype gate_step =
    Decided gate_reply
  | AskToken string
  | AskValidate login

text \<open>What is left when nothing let the request through.\<close>

definition ask_to_log_in :: "http_request \<Rightarrow> gate_reply" where
  "ask_to_log_in rq = (if management_request rq then AuthRequired else LoginPage 200)"

definition validate_requests :: "gate_env \<Rightarrow> real \<Rightarrow> http_request \<Rightarrow> auth_cache \<Rightarrow> gate_step \<times> auth_cache" where
  "validate_requests env now rq cache =
     (if cluster_request env rq then (Decided (CallNext (rq_session rq)), cache)
      else if ge_local_dev env then (Decided (CallNext (local_dev_session rq)), cache)
      else if ge_client_hosted env \<and> is_machine_owner rq
      then (Decided (CallNext (owner_session env rq)), cache)
      else if open_path (rq_path rq) then (Decided (CallNext (rq_session rq)), cache)
      else case credentials rq of
        Some login \<Rightarrow>
          if truthy (rq_client_id rq) then (AskToken (the (rq_client_id rq)), cache)
          else (case cached_auth_ok now login cache of
                  (True, cache') \<Rightarrow> (Decided (CallNext (rq_session rq)), cache')
                | (False, cache') \<Rightarrow> (AskValidate login, cache'))
      | None \<Rightarrow>
          if truthy (rq_client_id rq) then (AskToken (the (rq_client_id rq)), cache)
          else (Decided (ask_to_log_in rq), cache))"

text \<open>After it. A token answer that is neither 200 nor 403 falls through to the login page.\<close>

record user_info =
  ui_email :: string
  ui_token :: string
  ui_name :: string
  ui_profile_pic :: string

definition token_answered :: "http_request \<Rightarrow> int \<Rightarrow> user_info \<Rightarrow> string \<Rightarrow> gate_reply" where
  "token_answered rq status user base_url =
     (if status = 200
      then RedirectTo base_url (rq_session rq\<lparr>se_email := Some (ui_email user),
             se_authorization := Some (bearer (ui_token user)), se_name := Some (ui_name user),
             se_profile_pic := Some (ui_profile_pic user)\<rparr>)
      else if status = 403 then LoginPage 403 else ask_to_log_in rq)"

definition validate_answered ::
  "real \<Rightarrow> http_request \<Rightarrow> login \<Rightarrow> int \<Rightarrow> auth_cache \<Rightarrow> gate_reply \<times> auth_cache" where
  "validate_answered now rq login status cache =
     (if status = 200 then (CallNext (rq_session rq), remember_auth_ok now login cache)
      else if status = 401 then (ask_to_log_in rq, cache)
      else if status \<ge> 400 then (BackendError status, cache)
      else (ask_to_log_in rq, cache))"

end
