(* ===== verification/Gate_Claims.thy ===== *)
theory Gate_Claims
  imports Auth_Gate
begin

text \<open>
  Over any interleaving of requests and backend answers, the cache of validated logins lets in exactly
  the logins the backend confirmed within the last hour.
\<close>

section \<open>Runs of the middleware\<close>

datatype gate_event =
    Arrives (ev_time: real) http_request
  | Answered (ev_time: real) http_request login int

fun cache_step :: "gate_env \<Rightarrow> auth_cache \<Rightarrow> gate_event \<Rightarrow> auth_cache" where
  "cache_step env c (Arrives now rq) = snd (validate_requests env now rq c)"
| "cache_step env c (Answered now rq login status) = snd (validate_answered now rq login status c)"

definition cache_after :: "gate_env \<Rightarrow> gate_event list \<Rightarrow> auth_cache" where
  "cache_after env es = foldl (cache_step env) [] es"

text \<open>The requests that need no login.\<close>

definition let_in :: "gate_env \<Rightarrow> http_request \<Rightarrow> bool" where
  "let_in env rq \<longleftrightarrow> cluster_request env rq \<or> ge_local_dev env
     \<or> ge_client_hosted env \<and> is_machine_owner rq \<or> open_path (rq_path rq)"

section \<open>What the cache holds\<close>

lemma cached_auth_ok_cases:
  "cached_auth_ok now key c = (ok, c') \<Longrightarrow>
     (ok \<longleftrightarrow> (\<exists>e. map_of c key = Some e \<and> now < e)) \<and>
     (c' = c \<or> c' = ddel key c \<and> (\<exists>e. map_of c key = Some e \<and> e \<le> now))"
  by (auto simp: cached_auth_ok_def split: option.splits if_splits)

lemma validate_requests_cache:
  "snd (validate_requests env now rq c) = c \<or>
     (\<exists>key e. snd (validate_requests env now rq c) = ddel key c \<and> map_of c key = Some e \<and> e \<le> now)"
proof (cases "credentials rq")
  case (Some login)
  obtain ok c' where k: "cached_auth_ok now login c = (ok, c')" by force
  have "snd (validate_requests env now rq c) = c \<or> snd (validate_requests env now rq c) = c'"
    by (cases ok) (simp_all add: validate_requests_def Some k)
  then show ?thesis using cached_auth_ok_cases [OF k] by metis
qed (simp add: validate_requests_def)

lemma map_of_filter_distinct:
  "distinct (dkeys d) \<Longrightarrow> map_of (filter (\<lambda>(k, v). P v) d) k =
     (case map_of d k of None \<Rightarrow> None | Some v \<Rightarrow> if P v then Some v else None)"
proof (induction d)
  case (Cons x xs)
  obtain y w where x: "x = (y, w)" by force
  have "y \<notin> set (dkeys xs)" using Cons.prems by (simp add: x)
  then have "map_of xs y = None" by (simp add: map_of_eq_None_iff)
  then show ?case using Cons by (auto simp: x split: option.splits)
qed simp

definition sound :: "gate_event list \<Rightarrow> auth_cache \<Rightarrow> bool" where
  "sound es c \<longleftrightarrow> distinct (dkeys c) \<and>
     (\<forall>key e. map_of c key = Some e \<longrightarrow> (\<exists>t rq. Answered t rq key 200 \<in> set es \<and> e = t + AUTH_CACHE_TTL_SEC))"

definition complete :: "real \<Rightarrow> gate_event list \<Rightarrow> auth_cache \<Rightarrow> bool" where
  "complete now es c \<longleftrightarrow>
     (\<forall>t rq key. Answered t rq key 200 \<in> set es \<longrightarrow> now < t + AUTH_CACHE_TTL_SEC \<longrightarrow>
        (\<exists>e. map_of c key = Some e \<and> t + AUTH_CACHE_TTL_SEC \<le> e))"

lemma remember_lookup:
  assumes "distinct (dkeys c)"
  shows "distinct (dkeys (remember_auth_ok now key c))"
    and "map_of (remember_auth_ok now key c) k = Some e \<Longrightarrow> map_of c k = Some e \<or> k = key \<and> e = now + AUTH_CACHE_TTL_SEC"
    and "map_of (remember_auth_ok now key c) key = Some (now + AUTH_CACHE_TTL_SEC)"
    and "k \<noteq> key \<Longrightarrow> map_of c k = Some e \<Longrightarrow> now < e \<Longrightarrow> map_of (remember_auth_ok now key c) k = Some e"
proof -
  have d: "distinct (dkeys (dset key x c))" for x using assms by simp
  note f = map_of_filter_distinct [OF d, of "\<lambda>v. now < v"]
  have df: "distinct (dkeys (filter P (dset key x c)))" for P x
    using d [of x] by (simp add: distinct_map inj_on_def)
  show "distinct (dkeys (remember_auth_ok now key c))"
    using d df by (simp add: remember_auth_ok_def Let_def)
  show "map_of (remember_auth_ok now key c) k = Some e \<Longrightarrow> map_of c k = Some e \<or> k = key \<and> e = now + AUTH_CACHE_TTL_SEC"
    by (auto simp: remember_auth_ok_def Let_def f simp del: map_of_eq_Some_iff split: if_splits option.splits)
  show "map_of (remember_auth_ok now key c) key = Some (now + AUTH_CACHE_TTL_SEC)"
    by (simp add: remember_auth_ok_def Let_def f AUTH_CACHE_TTL_SEC_def)
  show "k \<noteq> key \<Longrightarrow> map_of c k = Some e \<Longrightarrow> now < e \<Longrightarrow> map_of (remember_auth_ok now key c) k = Some e"
    by (simp add: remember_auth_ok_def Let_def f)
qed

lemma sound_step:
  assumes "sound es c"
  shows "sound (es @ [ev]) (cache_step env c ev)"
proof (cases ev)
  case (Arrives now rq)
  from validate_requests_cache [of env now rq c] assms show ?thesis
    by (auto simp: Arrives sound_def simp del: map_of_eq_Some_iff split: if_splits)
next
  case (Answered now rq key status)
  show ?thesis
  proof (cases "status = 200")
    case True
    then show ?thesis
      using assms remember_lookup(1,2) [where c = c and now = now and key = key]
      by (fastforce simp: Answered sound_def validate_answered_def simp del: map_of_eq_Some_iff)
  next
    case False
    then show ?thesis using assms by (auto simp: Answered sound_def validate_answered_def)
  qed
qed

lemma complete_step:
  assumes "complete now es c" "distinct (dkeys c)" "ev_time ev \<le> now" "\<forall>x \<in> set es. ev_time x \<le> ev_time ev"
  shows "complete now (es @ [ev]) (cache_step env c ev)"
proof (cases ev)
  case (Arrives t rq)
  from validate_requests_cache [of env t rq c] assms show ?thesis
    unfolding complete_def Arrives by (fastforce simp del: map_of_eq_Some_iff)
next
  case (Answered t rq key status)
  show ?thesis
  proof (cases "status = 200")
    case True
    note r = remember_lookup [OF assms(2), where now = t and key = key]
    have "\<exists>e. map_of (remember_auth_ok t key c) k = Some e \<and> u + AUTH_CACHE_TTL_SEC \<le> e"
      if u: "Answered u rq' k 200 \<in> set es \<or> u = t \<and> k = key" "now < u + AUTH_CACHE_TTL_SEC" for u rq' k
    proof (cases "k = key")
      case True
      have "u \<le> t" using u(1) assms(4) by (auto simp: Answered)
      then show ?thesis using r(3) True by simp
    next
      case False
      then obtain e where "map_of c k = Some e" "u + AUTH_CACHE_TTL_SEC \<le> e"
        using u assms(1) unfolding complete_def by blast
      then show ?thesis using r(4) [OF False] u(2) assms(3) by (auto simp: Answered)
    qed
    note here = this
    have step: "cache_step env c ev = remember_auth_ok t key c" using True by (simp add: Answered validate_answered_def)
    show ?thesis
      unfolding complete_def step
    proof (intro allI impI)
      fix u rq' k
      assume "Answered u rq' k 200 \<in> set (es @ [ev])" "now < u + AUTH_CACHE_TTL_SEC"
      then show "\<exists>e. map_of (remember_auth_ok t key c) k = Some e \<and> u + AUTH_CACHE_TTL_SEC \<le> e"
        by (intro here [of u rq' k]) (auto simp: Answered)
    qed
  next
    case False
    then show ?thesis using assms(1) unfolding complete_def Answered by (auto simp: validate_answered_def)
  qed
qed

lemma cache_sound: "sound es (cache_after env es)"
  by (induction es rule: rev_induct) (auto simp: cache_after_def sound_step, simp add: sound_def)

lemma cache_complete:
  "sorted (map ev_time es) \<Longrightarrow> \<forall>x \<in> set es. ev_time x \<le> now \<Longrightarrow> complete now es (cache_after env es)"
proof (induction es rule: rev_induct)
  case (snoc e es)
  have "complete now es (cache_after env es)" using snoc by (simp add: sorted_append)
  moreover have "\<forall>x \<in> set es. ev_time x \<le> ev_time e" using snoc.prems by (simp add: sorted_append)
  moreover have "distinct (dkeys (cache_after env es))" using cache_sound [of es env] by (simp add: sound_def)
  ultimately show ?case using complete_step snoc.prems(2) by (simp add: cache_after_def)
qed (simp add: complete_def)

section \<open>Who gets in\<close>

lemma validate_requests_closed:
  assumes "\<not> let_in env rq"
  shows "fst (validate_requests env now rq c) =
    (if truthy (rq_client_id rq) then AskToken (the (rq_client_id rq))
     else case credentials rq of
       None \<Rightarrow> Decided (ask_to_log_in rq)
     | Some login \<Rightarrow> if fst (cached_auth_ok now login c) then Decided (CallNext (rq_session rq)) else AskValidate login)"
proof (cases "credentials rq")
  case (Some login)
  obtain ok c' where "cached_auth_ok now login c = (ok, c')" by force
  with assms show ?thesis by (cases ok) (auto simp: validate_requests_def let_in_def Some)
qed (use assms in \<open>auto simp: validate_requests_def let_in_def\<close>)

lemma ask_not_call [simp]: "ask_to_log_in rq \<noteq> CallNext s"
  by (simp add: ask_to_log_in_def)

text \<open>
  C14. Whatever requests and answers came before, in any order, a request passes the gate at once
  exactly when it needs no login at all, or when it carries a login, asks for no new token, and the
  backend confirmed that very login (e-mail and token) less than an hour ago. So a revoked login gets
  in for at most an hour, and a confirmed one is never asked about twice in it.
\<close>

theorem only_recent_logins_pass:
  assumes "sorted (map ev_time es @ [now])"
  shows "(\<exists>s. fst (validate_requests env now rq (cache_after env es)) = Decided (CallNext s)) \<longleftrightarrow>
    let_in env rq \<or>
    \<not> truthy (rq_client_id rq) \<and> (\<exists>login t rq'. credentials rq = Some login
       \<and> Answered t rq' login 200 \<in> set es \<and> now < t + AUTH_CACHE_TTL_SEC)"
proof -
  let ?c = "cache_after env es"
  have s: "sound es ?c" by (rule cache_sound)
  have c: "complete now es ?c" using assms by (intro cache_complete) (simp_all add: sorted_append)
  have k: "fst (cached_auth_ok now login ?c) \<longleftrightarrow> (\<exists>t rq'. Answered t rq' login 200 \<in> set es \<and> now < t + AUTH_CACHE_TTL_SEC)"
    for login
  proof
    assume "fst (cached_auth_ok now login ?c)"
    then obtain e where "map_of ?c login = Some e" "now < e"
      by (auto simp: cached_auth_ok_def simp del: map_of_eq_Some_iff split: option.splits if_splits)
    then show "\<exists>t rq'. Answered t rq' login 200 \<in> set es \<and> now < t + AUTH_CACHE_TTL_SEC"
      using s unfolding sound_def by blast
  next
    assume "\<exists>t rq'. Answered t rq' login 200 \<in> set es \<and> now < t + AUTH_CACHE_TTL_SEC"
    then obtain t rq' where "Answered t rq' login 200 \<in> set es" and t: "now < t + AUTH_CACHE_TTL_SEC" by blast
    then obtain e where "map_of ?c login = Some e" "t + AUTH_CACHE_TTL_SEC \<le> e"
      using c unfolding complete_def by blast
    with t show "fst (cached_auth_ok now login ?c)" by (simp add: cached_auth_ok_def)
  qed
  show ?thesis
  proof (cases "let_in env rq")
    case True
    then show ?thesis by (auto simp: validate_requests_def let_in_def)
  next
    case False
    show ?thesis
      using False k by (cases "credentials rq") (auto simp: validate_requests_closed [OF False])
  qed
qed

definition demo_gate :: gate_env where
  "demo_gate = \<lparr>ge_cluster_token = ''tok'', ge_local_dev = False, ge_client_hosted = False,
     ge_local_user_email = [], ge_local_user_token = []\<rparr>"

definition demo_visit :: "string \<Rightarrow> http_request" where
  "demo_visit path = \<lparr>rq_path = path, rq_authorization = Some ''Bearer u'', rq_email = Some ''a@b.c'',
     rq_origin = None, rq_client_host = ''10.0.0.9'', rq_relayed = False, rq_client_id = None,
     rq_session = \<lparr>se_email = None, se_authorization = None, se_name = None, se_profile_pic = None\<rparr>\<rparr>"

theorem only_recent_logins_pass_witness:
  "let es = [Arrives 10 (demo_visit ''/''), Answered 11 (demo_visit ''/'') (''a@b.c'', ''Bearer u'') 200]
   in (\<exists>s. fst (validate_requests demo_gate 3610 (demo_visit ''/jobs'') (cache_after demo_gate es)) = Decided (CallNext s)) \<and>
      \<not> (\<exists>s. fst (validate_requests demo_gate 3611 (demo_visit ''/jobs'') (cache_after demo_gate es)) = Decided (CallNext s))"
proof -
  let ?es = "[Arrives 10 (demo_visit ''/''), Answered 11 (demo_visit ''/'') (''a@b.c'', ''Bearer u'') 200]"
  have n: "\<not> let_in demo_gate (demo_visit ''/jobs'')" by code_simp
  have l: "credentials (demo_visit ''/jobs'') = Some (''a@b.c'', ''Bearer u'')"
    "\<not> truthy (rq_client_id (demo_visit ''/jobs''))" by code_simp+
  note eq = only_recent_logins_pass [of ?es, where env = demo_gate and rq = "demo_visit ''/jobs''"]
  show ?thesis
    using eq [of 3610] eq [of 3611] n l by (auto simp: AUTH_CACHE_TTL_SEC_def Let_def)
qed

text \<open>
  The open paths are meant for static files, but a dot in the last segment of any path opens it: an
  endpoint whose path ends in a name the caller chose takes a request without any login.
\<close>

lemma dotted_name_needs_no_login:
  "fst (validate_requests demo_gate now
     ((demo_visit ''/v1/jobs/f.x'')\<lparr>rq_authorization := None, rq_email := None\<rparr>) []) =
   Decided (CallNext (rq_session (demo_visit ''/'')))"
  "fst (validate_requests demo_gate now
     ((demo_visit ''/v1/jobs/fx'')\<lparr>rq_authorization := None, rq_email := None\<rparr>) []) = Decided (LoginPage 200)"
  by code_simp+

end
