(* ===== verification/Paging.thy ===== *)
theory Paging
  imports Prelude
begin

text \<open>
  Pages of a table by keyset: \<open>ORDER BY\<close> a key, start after the cursor's key, take one row more than
  the page to know whether there is another. The locale \<open>row_order\<close> is what the order of a table's keys
  has to be; inside it, the pages from no cursor on are the whole table in order, each row once.
\<close>

section \<open>Sorting and pages\<close>

fun insert_by :: "('a \<Rightarrow> 'a \<Rightarrow> bool) \<Rightarrow> 'a \<Rightarrow> 'a list \<Rightarrow> 'a list" where
  "insert_by lt x [] = [x]"
| "insert_by lt x (y # ys) = (if lt x y then x # y # ys else y # insert_by lt x ys)"

definition sort_by :: "('a \<Rightarrow> 'a \<Rightarrow> bool) \<Rightarrow> 'a list \<Rightarrow> 'a list" where
  "sort_by lt rows = foldr (insert_by lt) rows []"

lemma set_insert_by [simp]: "set (insert_by lt x ys) = insert x (set ys)"
  by (induction ys) auto

lemma set_sort_by [simp]: "set (sort_by lt rows) = set rows"
  by (induction rows) (auto simp: sort_by_def)

lemma length_insert_by [simp]: "length (insert_by lt x ys) = Suc (length ys)"
  by (induction ys) auto

lemma length_sort_by [simp]: "length (sort_by lt rows) = length rows"
  by (induction rows) (auto simp: sort_by_def)

definition order_by :: "('k \<Rightarrow> 'k \<Rightarrow> bool) \<Rightarrow> ('r \<Rightarrow> 'k) \<Rightarrow> 'r list \<Rightarrow> 'r list" where
  "order_by lt key rows = sort_by (\<lambda>a b. lt (key a) (key b)) rows"

lemma order_by_simps [simp]:
  "order_by lt key [] = []"
  "order_by lt key (x # xs) = insert_by (\<lambda>a b. lt (key a) (key b)) x (order_by lt key xs)"
  "set (order_by lt key rows) = set rows" "length (order_by lt key rows) = length rows"
  unfolding order_by_def by (simp_all add: sort_by_def flip: sort_by_def) (simp_all add: sort_by_def)

lemma order_by_map: "order_by lt key (map f rows) = map f (order_by lt (\<lambda>r. key (f r)) rows)"
proof -
  have ins: "insert_by c (f x) (map f ys) = map f (insert_by (\<lambda>a b. c (f a) (f b)) x ys)" for c x ys
    by (induction ys) auto
  show ?thesis by (induction rows) (simp_all add: ins)
qed

text \<open>A cursor is the key of the last row seen.\<close>

definition rows_after :: "('k \<Rightarrow> 'k \<Rightarrow> bool) \<Rightarrow> ('r \<Rightarrow> 'k) \<Rightarrow> 'k option \<Rightarrow> 'r list \<Rightarrow> 'r list" where
  "rows_after lt key cursor rows =
     (case cursor of None \<Rightarrow> rows | Some k \<Rightarrow> filter (\<lambda>r. lt k (key r)) rows)"

text \<open>What every endpoint makes of the \<open>limit + 1\<close> rows it asked for.\<close>

definition finish_page :: "('r \<Rightarrow> 'k) \<Rightarrow> nat \<Rightarrow> 'r list \<Rightarrow> 'r list \<times> 'k option" where
  "finish_page key limit got =
     (let page = take limit got
      in (page, if length got > limit \<and> page \<noteq> [] then Some (key (last page)) else None))"

definition fetch_page ::
  "('k \<Rightarrow> 'k \<Rightarrow> bool) \<Rightarrow> ('r \<Rightarrow> 'k) \<Rightarrow> nat \<Rightarrow> 'k option \<Rightarrow> 'r list \<Rightarrow> 'r list \<times> 'k option" where
  "fetch_page lt key limit cursor rows =
     finish_page key limit (take (limit + 1) (order_by lt key (rows_after lt key cursor rows)))"

text \<open>A reader who follows the cursors; the fuel bounds the pages.\<close>

fun walk :: "('k option \<Rightarrow> 'r list \<times> 'k option) \<Rightarrow> nat \<Rightarrow> 'k option \<Rightarrow> 'r list" where
  "walk page 0 cursor = []"
| "walk page (Suc n) cursor =
     (case page cursor of (items, next_cursor) \<Rightarrow>
        items @ (case next_cursor of None \<Rightarrow> [] | Some k \<Rightarrow> walk page n (Some k)))"

section \<open>What the order of the keys has to be\<close>

locale row_order =
  fixes lt :: "'k \<Rightarrow> 'k \<Rightarrow> bool"
  assumes lt_irrefl: "\<not> lt x x"
    and lt_trans: "lt x y \<Longrightarrow> lt y z \<Longrightarrow> lt x z"
    and lt_total: "lt x y \<or> x = y \<or> lt y x"
begin

abbreviation in_order :: "('r \<Rightarrow> 'k) \<Rightarrow> 'r list \<Rightarrow> bool" where
  "in_order key rows \<equiv> sorted_wrt (\<lambda>a b. lt (key a) (key b)) rows"

lemma in_order_insert:
  "in_order key ys \<Longrightarrow> key x \<notin> key ` set ys \<Longrightarrow> in_order key (insert_by (\<lambda>a b. lt (key a) (key b)) x ys)"
proof (induction ys)
  case (Cons y ys)
  show ?case
  proof (cases "lt (key x) (key y)")
    case True
    then show ?thesis using Cons.prems lt_trans [of "key x" "key y"] by auto
  next
    case False
    then have "lt (key y) (key x)" using Cons.prems(2) lt_total by (metis imageI list.set_intros(1))
    then show ?thesis using False Cons by auto
  qed
qed simp

lemma in_order_sort: "distinct (map key rows) \<Longrightarrow> in_order key (order_by lt key rows)"
proof (induction rows)
  case (Cons x xs)
  then have "in_order key (order_by lt key xs)" "key x \<notin> key ` set (order_by lt key xs)" by simp_all
  then show ?case by (simp add: in_order_insert)
qed simp

lemma insert_by_filter:
  "in_order key ys \<Longrightarrow> key x \<notin> key ` set ys \<Longrightarrow>
     filter P (insert_by (\<lambda>a b. lt (key a) (key b)) x ys) =
     (if P x then insert_by (\<lambda>a b. lt (key a) (key b)) x (filter P ys) else filter P ys)"
proof (induction ys)
  case (Cons y ys)
  show ?case
  proof (cases "lt (key x) (key y)")
    case True
    have "insert_by (\<lambda>a b. lt (key a) (key b)) x zs = x # zs" if "\<forall>z \<in> set zs. lt (key x) (key z)" for zs
      using that by (cases zs) auto
    moreover have "\<forall>z \<in> set (filter P ys). lt (key x) (key z)"
      using True Cons.prems(1) lt_trans by auto
    ultimately show ?thesis using True by auto
  next
    case False
    then show ?thesis using Cons by auto
  qed
qed simp

lemma order_by_filter:
  "distinct (map key rows) \<Longrightarrow> order_by lt key (filter P rows) = filter P (order_by lt key rows)"
proof (induction rows)
  case (Cons x xs)
  have "in_order key (order_by lt key xs)" using Cons.prems by (intro in_order_sort) simp
  from insert_by_filter [OF this, of x P] Cons show ?case by simp
qed simp

lemma order_by_id: "in_order key rows \<Longrightarrow> order_by lt key rows = rows"
proof (induction rows)
  case (Cons x xs)
  then show ?case by (cases xs) auto
qed simp

text \<open>The rows after the one at position \<open>i\<close> are the rest of the table.\<close>

lemma after_row:
  assumes "in_order key rows" "i < length rows"
  shows "filter (\<lambda>r. lt (key (rows ! i)) (key r)) rows = drop (Suc i) rows"
proof -
  let ?P = "\<lambda>r. lt (key (rows ! i)) (key r)"
  have s: "rows = take (Suc i) rows @ drop (Suc i) rows" by simp
  have "\<not> ?P (rows ! j)" if "j \<le> i" for j
  proof
    assume p: "?P (rows ! j)"
    show False
    proof (cases "j = i")
      case True
      then show ?thesis using p lt_irrefl by simp
    next
      case False
      then have "lt (key (rows ! j)) (key (rows ! i))"
        using that assms sorted_wrt_nth_less [OF assms(1), of j i] by simp
      then show ?thesis using p lt_trans lt_irrefl by blast
    qed
  qed
  then have a: "filter ?P (take (Suc i) rows) = []"
    by (auto simp: filter_empty_conv in_set_conv_nth)
  have "?P (rows ! j)" if "i < j" "j < length rows" for j
    using sorted_wrt_nth_less [OF assms(1) that] .
  then have b: "filter ?P (drop (Suc i) rows) = drop (Suc i) rows"
    by (intro filter_True) (auto simp: in_set_conv_nth)
  have "filter ?P rows = filter ?P (take (Suc i) rows) @ filter ?P (drop (Suc i) rows)"
    by (subst s) (simp only: filter_append)
  then show ?thesis by (simp add: a b)
qed

lemma walk_pages:
  assumes d: "distinct (map key rows)" and limit: "0 < limit"
  shows "walk (\<lambda>c. fetch_page lt key limit c rows) (Suc (length rows)) None = order_by lt key rows"
proof -
  let ?all = "order_by lt key rows"
  define cur where "cur = (\<lambda>j. if j = 0 then None else Some (key (?all ! (j - 1))))"
  have o: "in_order key ?all" by (rule in_order_sort [OF d])
  have len: "length ?all = length rows" by (simp add: order_by_def)
  have rest: "order_by lt key (rows_after lt key (cur j) rows) = drop j ?all" if "j \<le> length ?all" for j
  proof (cases j)
    case 0
    then show ?thesis by (simp add: cur_def rows_after_def)
  next
    case (Suc i)
    then show ?thesis
      using that order_by_filter [OF d] after_row [OF o, of i] by (simp add: cur_def rows_after_def)
  qed
  have "walk (\<lambda>c. fetch_page lt key limit c rows) n (cur j) = drop j ?all"
    if "j \<le> length ?all" "length ?all - j < n" for j n
    using that
  proof (induction n arbitrary: j)
    case (Suc n)
    let ?got = "take (limit + 1) (drop j ?all)"
    have f: "fetch_page lt key limit (cur j) rows = finish_page key limit ?got"
      using rest [OF Suc.prems(1)] by (simp add: fetch_page_def)
    show ?case
    proof (cases "length (drop j ?all) > limit")
      case False
      then show ?thesis using f by (simp add: finish_page_def)
    next
      case True
      have l: "last (take limit (drop j ?all)) = ?all ! (j + limit - 1)"
        using True limit by (subst last_conv_nth) (auto simp: nth_append)
      have fin: "finish_page key limit ?got = (take limit (drop j ?all), cur (j + limit))"
        using True limit l by (simp add: finish_page_def cur_def Let_def take_take min_def del: length_drop) auto
      have "walk (\<lambda>c. fetch_page lt key limit c rows) n (cur (j + limit)) = drop (j + limit) ?all"
        using Suc True limit by auto
      moreover have "cur (j + limit) = Some (key (?all ! (j + limit - 1)))" using limit by (simp add: cur_def)
      moreover have "take limit (drop j ?all) @ drop (j + limit) ?all = drop j ?all"
        by (metis append_take_drop_id drop_drop add.commute)
      ultimately show ?thesis using fin by (simp add: f)
    qed
  qed simp
  from this [of 0 "Suc (length rows)"] show ?thesis by (simp add: cur_def len)
qed

text \<open>
  The same for a reader of an endpoint that serves these pages for the cursors it hands out; for any
  other cursor it may do anything.
\<close>

lemma fetch_page_next:
  "fetch_page lt key limit c rows = (items, Some k) \<Longrightarrow> k \<in> key ` set rows"
proof -
  assume f: "fetch_page lt key limit c rows = (items, Some k)"
  define got where "got = take (limit + 1) (order_by lt key (rows_after lt key c rows))"
  have "set got \<subseteq> set (rows_after lt key c rows)" unfolding got_def by (metis order_by_simps(3) set_take_subset)
  then have "set got \<subseteq> set rows" by (auto simp: rows_after_def split: option.splits)
  moreover have "finish_page key limit got = (items, Some k)" using f unfolding fetch_page_def got_def .
  then have "take limit got \<noteq> []" "k = key (last (take limit got))"
    by (auto simp: finish_page_def Let_def split: if_splits)
  ultimately show ?thesis by (metis imageI last_in_set in_set_takeD subsetD)
qed

lemma walk_pages_of:
  assumes page: "page None = fetch_page lt key limit None rows"
      "\<And>k. k \<in> key ` set rows \<Longrightarrow> page (Some k) = fetch_page lt key limit (Some k) rows"
    and "distinct (map key rows)" "0 < limit"
  shows "walk page (Suc (length rows)) None = order_by lt key rows"
proof -
  have same: "walk page n c = walk (\<lambda>c. fetch_page lt key limit c rows) n c"
    if "c = None \<or> c \<in> Some ` key ` set rows" for n c
    using that
  proof (induction n arbitrary: c)
    case (Suc n)
    obtain items nxt where f: "fetch_page lt key limit c rows = (items, nxt)" by force
    have p: "page c = (items, nxt)" using Suc.prems page f by auto
    show ?case
    proof (cases nxt)
      case (Some k)
      then have "k \<in> key ` set rows" using f fetch_page_next by blast
      then show ?thesis using Suc.IH [of "Some k"] by (simp add: p f Some)
    qed (simp add: p f)
  qed simp
  show ?thesis using same [of None] walk_pages [OF assms(3,4)] by (simp del: walk.simps)
qed

end

text \<open>The contract holds of every linear order.\<close>

interpretation ascending: row_order "(<) :: 'a::linorder \<Rightarrow> 'a \<Rightarrow> bool"
  by unfold_locales auto

end
