(* ===== verification/History_Pages.thy ===== *)
theory History_Pages
  imports Job_Tracking Paging
begin

text \<open>
  The pages the management API reads from the history database: jobs, nodes and logs
  (\<open>management_jobs_page\<close> and its neighbours in \<open>history.py\<close>, their endpoints in \<open>management.py\<close>). A table is
  a list of rows, a SQL comparison with NULL is false. A cursor is its payload; base64, JSON and the
  hash over a query are the encoding, of which only the hash is kept, as a parameter. Timestamps in a
  query are read by a parameter. Rows are returned as they are: formatting them is not modelled.
\<close>

section \<open>SQL values\<close>

datatype sql_val = SqlNum real | SqlText string

text \<open>SQLite orders every number before every text.\<close>

instantiation sql_val :: linorder
begin

fun less_sql_val :: "sql_val \<Rightarrow> sql_val \<Rightarrow> bool" where
  "less_sql_val (SqlNum a) (SqlNum b) = (a < b)"
| "less_sql_val (SqlText a) (SqlText b) = (a < b)"
| "less_sql_val (SqlNum a) (SqlText b) = True"
| "less_sql_val (SqlText a) (SqlNum b) = False"

definition less_eq_sql_val :: "sql_val \<Rightarrow> sql_val \<Rightarrow> bool" where
  "less_eq_sql_val a b \<longleftrightarrow> a < b \<or> a = b"

instance
proof
  fix x y z :: sql_val
  show "(x < y) = (x \<le> y \<and> \<not> y \<le> x)" by (cases x; cases y) (auto simp: less_eq_sql_val_def)
  show "x \<le> x" by (simp add: less_eq_sql_val_def)
  show "x \<le> y \<Longrightarrow> y \<le> z \<Longrightarrow> x \<le> z" by (cases x; cases y; cases z) (auto simp: less_eq_sql_val_def)
  show "x \<le> y \<Longrightarrow> y \<le> x \<Longrightarrow> x = y" by (cases x; cases y) (auto simp: less_eq_sql_val_def)
  show "x \<le> y \<or> y \<le> x" by (cases x; cases y) (auto simp: less_eq_sql_val_def)
qed

end

definition sql_cmp :: "bool \<Rightarrow> 'a::linorder \<Rightarrow> 'a \<Rightarrow> bool" where
  "sql_cmp descending a b = (if descending then b < a else a < b)"

section \<open>The order of a page\<close>

text \<open>A row's cursor key: whether its sort value is NULL, the value, and the row's name.\<close>

type_synonym page_key = "int \<times> sql_val option \<times> string"

definition cursor_key :: "sql_val option \<times> string \<Rightarrow> page_key" where
  "cursor_key r = (if fst r = None then 1 else 0, fst r, snd r)"

text \<open>\<open>ORDER BY sort_value DIR NULLS LAST, name DIR\<close>, and the \<open>WHERE\<close> for the rows after a cursor.\<close>

definition row_before :: "bool \<Rightarrow> sql_val option \<times> string \<Rightarrow> sql_val option \<times> string \<Rightarrow> bool" where
  "row_before descending r s =
     (case (fst r, fst s) of
        (Some v, Some w) \<Rightarrow> sql_cmp descending v w \<or> v = w \<and> sql_cmp descending (snd r) (snd s)
      | (Some v, None) \<Rightarrow> True
      | (None, Some w) \<Rightarrow> False
      | (None, None) \<Rightarrow> sql_cmp descending (snd r) (snd s))"

definition sql_gt :: "bool \<Rightarrow> sql_val option \<Rightarrow> sql_val option \<Rightarrow> bool" where
  "sql_gt descending v w = (case (v, w) of (Some a, Some b) \<Rightarrow> sql_cmp descending b a | _ \<Rightarrow> False)"

definition sql_eq :: "sql_val option \<Rightarrow> sql_val option \<Rightarrow> bool" where
  "sql_eq v w = (case (v, w) of (Some a, Some b) \<Rightarrow> a = b | _ \<Rightarrow> False)"

definition after_cursor :: "bool \<Rightarrow> page_key \<Rightarrow> sql_val option \<times> string \<Rightarrow> bool" where
  "after_cursor descending c r =
     (case c of (null_rank, value_key, name) \<Rightarrow>
        let is_null = (if fst r = None then 1 else (0::int))
        in is_null > null_rank \<or>
           is_null = null_rank \<and>
             (null_rank = 0 \<and> (sql_gt descending (fst r) value_key
                \<or> sql_eq (fst r) value_key \<and> sql_cmp descending name (snd r))
              \<or> null_rank = 1 \<and> sql_cmp descending name (snd r)))"

definition keyset_rows ::
  "bool \<Rightarrow> ('r \<Rightarrow> sql_val option \<times> string) \<Rightarrow> page_key option \<Rightarrow> nat \<Rightarrow> 'r list \<Rightarrow> 'r list" where
  "keyset_rows descending rk after_key limit rows =
     take limit (sort_by (\<lambda>a b. row_before descending (rk a) (rk b))
       (case after_key of None \<Rightarrow> rows | Some c \<Rightarrow> filter (\<lambda>r. after_cursor descending c (rk r)) rows))"

section \<open>Job logs\<close>

record log_entry =
  le_timestamp :: "real option"
  le_message :: string
  le_is_error :: bool

record log_row =
  lr_id :: int
  lr_job_id :: string
  lr_input_index :: "int option"
  lr_is_error :: bool
  lr_logs :: "log_entry list"

definition add_job_logs :: "string \<Rightarrow> (int option \<times> bool \<times> log_entry list) list \<Rightarrow> log_row list \<Rightarrow> log_row list" where
  "add_job_logs job_id documents table =
     foldl (\<lambda>t (idx, err, entries).
       t @ [\<lparr>lr_id = int (length t) + 1, lr_job_id = job_id, lr_input_index = idx, lr_is_error = err,
             lr_logs = entries\<rparr>]) table documents"

definition contains :: "string \<Rightarrow> string \<Rightarrow> bool" where
  "contains pat s = list_ex (prefix pat) (suffixes s)"

definition lower_char :: "char \<Rightarrow> char" where
  "lower_char c = (if CHR ''A'' \<le> c \<and> c \<le> CHR ''Z'' then char_of (of_char c + 32 :: nat) else c)"

text \<open>SQL's \<open>LIKE '%pat%'\<close> ignores the case of letters.\<close>

definition sql_like :: "string \<Rightarrow> string \<Rightarrow> bool" where
  "sql_like pat s = contains (map lower_char pat) (map lower_char s)"

definition TEARDOWN_MESSAGES :: "string list" where
  "TEARDOWN_MESSAGES =
     [''Worker container stopped unexpectedly'',
      ''Worker process ended unexpectedly while the container was still healthy'']"

definition is_teardown_infrastructure_log :: "string \<Rightarrow> bool" where
  "is_teardown_infrastructure_log message = list_ex (\<lambda>p. contains p message) TEARDOWN_MESSAGES"

text \<open>The filter reads the whole document's text, so one such message hides the others.\<close>

definition real_input_error :: "log_row \<Rightarrow> bool" where
  "real_input_error r \<longleftrightarrow> lr_is_error r
     \<and> list_all (\<lambda>e. list_all (\<lambda>p. \<not> sql_like p (le_message e)) TEARDOWN_MESSAGES) (lr_logs r)"

definition job_error_count :: "log_row list \<Rightarrow> string \<Rightarrow> int" where
  "job_error_count table job_id =
     int (length (remdups (map lr_input_index
       (filter (\<lambda>r. lr_job_id r = job_id \<and> lr_input_index r \<noteq> None \<and> real_input_error r) table))))"

text \<open>The entries with a time, in order of time; and those of one input, in the order of the table.\<close>

definition job_notices :: "log_row list \<Rightarrow> string \<Rightarrow> (string \<times> real) list" where
  "job_notices table job_id =
     sort_key snd (concat (map (\<lambda>r. concat (map (\<lambda>e.
         case le_timestamp e of None \<Rightarrow> [] | Some t \<Rightarrow> [(le_message e, t)]) (lr_logs r)))
       (filter (\<lambda>r. lr_job_id r = job_id \<and> lr_input_index r = None) table)))"

definition job_logs_for_input :: "log_row list \<Rightarrow> string \<Rightarrow> int \<Rightarrow> (string \<times> real \<times> bool) list" where
  "job_logs_for_input table job_id idx =
     concat (map (\<lambda>r. concat (map (\<lambda>e.
         case le_timestamp e of None \<Rightarrow> []
         | Some t \<Rightarrow> [(le_message e, t,
             (le_is_error e \<or> lr_is_error r) \<and> \<not> is_teardown_infrastructure_log (le_message e))]) (lr_logs r)))
       (filter (\<lambda>r. lr_job_id r = job_id \<and> lr_input_index r = Some idx) table))"

section \<open>Errors, cursors and limits\<close>

datatype management_error = ManagementAPIError int string

type_synonym 'a managed = "management_error + 'a"

definition invalid_argument :: management_error where
  "invalid_argument = ManagementAPIError 422 ''INVALID_ARGUMENT''"

definition invalid_cursor :: management_error where
  "invalid_cursor = ManagementAPIError 422 ''INVALID_CURSOR''"

record 'k cursor =
  cu_v :: int
  cu_resource :: string
  cu_query :: string
  cu_direction :: "string option"
  cu_key :: 'k

text \<open>\<open>fp\<close> is the hash of the query, \<open>direction\<close> its \<open>order\<close> if it has one.\<close>

definition encode_cursor :: "string \<Rightarrow> string \<Rightarrow> string option \<Rightarrow> 'k \<Rightarrow> 'k cursor" where
  "encode_cursor resource fp direction key =
     \<lparr>cu_v = 1, cu_resource = resource, cu_query = fp, cu_direction = direction, cu_key = key\<rparr>"

definition decode_cursor ::
  "'k cursor option \<Rightarrow> string \<Rightarrow> string \<Rightarrow> string option \<Rightarrow> 'k option managed" where
  "decode_cursor c resource fp direction =
     (case c of
        None \<Rightarrow> Inr None
      | Some p \<Rightarrow>
          if cu_v p = 1 \<and> cu_resource p = resource \<and> cu_query p = fp \<and> cu_direction p = direction
          then Inr (Some (cu_key p)) else Inl invalid_cursor)"

lemma decode_encode [simp]:
  "decode_cursor (Some (encode_cursor resource fp direction key)) resource fp direction = Inr (Some key)"
  "decode_cursor None resource fp direction = Inr None"
  by (simp_all add: decode_cursor_def encode_cursor_def)

definition page_limit :: "int \<Rightarrow> int \<Rightarrow> nat" where
  "page_limit most limit = nat (min (max 1 limit) most)"

lemma page_limit_pos: "most \<ge> 1 \<Longrightarrow> 0 < page_limit most limit"
  by (simp add: page_limit_def)

record ('r, 'k) page_reply =
  pr_items :: "'r list"
  pr_next_cursor :: "'k cursor option"
  pr_has_more :: bool
  pr_total_count :: int

text \<open>A time in a query, by the parameter that reads ISO 8601.\<close>

definition parse_time :: "(string \<Rightarrow> real option) \<Rightarrow> string option \<Rightarrow> real option managed" where
  "parse_time read_time t =
     (case t of None \<Rightarrow> Inr None
      | Some s \<Rightarrow> (case read_time s of None \<Rightarrow> Inl invalid_argument | Some r \<Rightarrow> Inr (Some r)))"

section \<open>The jobs\<close>

record job_row =
  jr_job_id :: string
  jr_job :: job
  jr_n_results :: int

definition jobs_table :: "head \<Rightarrow> job_row list" where
  "jobs_table h = map (\<lambda>(k, j). \<lparr>jr_job_id = k, jr_job = j,
     jr_n_results = get_or 0 (map_of (hist_results h) k)\<rparr>) (hist_jobs h)"

text \<open>\<open>list_jobs\<close> of \<open>history.py\<close>: newest first, a job without a start time last.\<close>

definition newest_first :: "job_row list \<Rightarrow> job_row list" where
  "newest_first rows =
     filter (\<lambda>r. j_started_at (jr_job r) \<noteq> None)
       (sort_key (\<lambda>r. - get_or 0 (j_started_at (jr_job r))) rows)
     @ filter (\<lambda>r. j_started_at (jr_job r) = None) rows"

datatype job_sort = StartedAt | EndedAt | Duration | Status | InputCount | ResultCount | FailedCount

definition sql_real :: "real option \<Rightarrow> sql_val option" where
  "sql_real x = map_option SqlNum x"

definition job_sort_value :: "job_sort \<Rightarrow> real \<Rightarrow> log_row list \<Rightarrow> job_row \<Rightarrow> sql_val option" where
  "job_sort_value s now logs r =
     (let j = jr_job r
      in case s of
        StartedAt \<Rightarrow> sql_real (j_started_at j)
      | EndedAt \<Rightarrow> sql_real (j_ended_at j)
      | Duration \<Rightarrow> map_option (\<lambda>t. SqlNum (get_or now (j_ended_at j) - t)) (j_started_at j)
      | Status \<Rightarrow> map_option (\<lambda>x. SqlText (status_lower (Some x))) (j_status j)
      | InputCount \<Rightarrow> map_option (\<lambda>n. SqlNum (of_int n)) (j_n_inputs j)
      | ResultCount \<Rightarrow> Some (SqlNum (of_int (jr_n_results r)))
      | FailedCount \<Rightarrow> Some (SqlNum (of_int (job_error_count logs (jr_job_id r)))))"

record job_filter =
  jf_status :: "string option"
  jf_user :: "string option"
  jf_function_name :: "string option"
  jf_parent_job_id :: "string option"
  jf_started_after :: "real option"
  jf_started_before :: "real option"

definition opt_holds :: "'a option \<Rightarrow> ('a \<Rightarrow> bool) \<Rightarrow> bool" where
  "opt_holds x P = (case x of None \<Rightarrow> True | Some v \<Rightarrow> P v)"

text \<open>A missing column value fails every comparison; without a parent only top-level jobs are listed.\<close>

definition job_matches :: "job_filter \<Rightarrow> job_row \<Rightarrow> bool" where
  "job_matches f r \<longleftrightarrow>
     (let j = jr_job r
      in j_parent_job_id j = jf_parent_job_id f
         \<and> opt_holds (jf_status f) (\<lambda>s. j_status j \<noteq> None \<and> status_lower (j_status j) = s)
         \<and> opt_holds (jf_user f) (\<lambda>u. j_user j = Some u)
         \<and> opt_holds (jf_function_name f) (\<lambda>u. j_function_name j = Some u)
         \<and> opt_holds (jf_started_after f) (\<lambda>t. \<exists>x \<in> set_option (j_started_at j). x \<ge> t)
         \<and> opt_holds (jf_started_before f) (\<lambda>t. \<exists>x \<in> set_option (j_started_at j). x \<le> t))"

definition management_jobs_page ::
  "head \<Rightarrow> log_row list \<Rightarrow> real \<Rightarrow> job_filter \<Rightarrow> job_sort \<Rightarrow> bool \<Rightarrow> page_key option \<Rightarrow> nat \<Rightarrow> int \<times> job_row list" where
  "management_jobs_page h logs now f s descending after_key limit =
     (let rows = filter (job_matches f) (jobs_table h)
      in (int (length rows),
          keyset_rows descending (\<lambda>r. (job_sort_value s now logs r, jr_job_id r)) after_key limit rows))"

record jobs_query =
  jq_status :: "string option"
  jq_user :: "string option"
  jq_function_name :: "string option"
  jq_parent_job_id :: "string option"
  jq_started_after :: "string option"
  jq_started_before :: "string option"
  jq_sort :: string
  jq_order :: string

definition job_sort_of :: "string \<Rightarrow> job_sort option" where
  "job_sort_of s = map_of
     [(''started_at'', StartedAt), (''ended_at'', EndedAt), (''duration'', Duration), (''status'', Status),
      (''input_count'', InputCount), (''result_count'', ResultCount), (''failed_count'', FailedCount)] s"

definition list_jobs ::
  "(jobs_query \<Rightarrow> string) \<Rightarrow> (string \<Rightarrow> real option) \<Rightarrow> real \<Rightarrow> head \<Rightarrow> log_row list \<Rightarrow> jobs_query \<Rightarrow> int
    \<Rightarrow> page_key cursor option \<Rightarrow> (job_row, page_key) page_reply managed" where
  "list_jobs fp read_time now h logs q limit c =
     (if truthy (jq_status q) \<and> the (jq_status q) \<notin> {''running'', ''completed'', ''failed'', ''canceled''}
      then Inl invalid_argument
      else case job_sort_of (jq_sort q) of
        None \<Rightarrow> Inl invalid_argument
      | Some s \<Rightarrow>
          if jq_order q \<notin> {''asc'', ''desc''} then Inl invalid_argument
          else bind_err (parse_time read_time (jq_started_after q)) (\<lambda>after.
               bind_err (parse_time read_time (jq_started_before q)) (\<lambda>before.
               bind_err (decode_cursor c ''jobs'' (fp q) (Some (jq_order q))) (\<lambda>after_key.
                 let n = page_limit 1000 limit;
                     f = \<lparr>jf_status = jq_status q, jf_user = jq_user q, jf_function_name = jq_function_name q,
                          jf_parent_job_id = jq_parent_job_id q, jf_started_after = after,
                          jf_started_before = before\<rparr>;
                     (tot, rows) = management_jobs_page h logs now f s (jq_order q = ''desc'') after_key (n + 1);
                     (page, nxt) = finish_page (\<lambda>r. cursor_key (job_sort_value s now logs r, jr_job_id r)) n rows
                 in Inr \<lparr>pr_items = page,
                         pr_next_cursor = map_option (encode_cursor ''jobs'' (fp q) (Some (jq_order q))) nxt,
                         pr_has_more = length rows > n, pr_total_count = tot\<rparr>))))"

section \<open>The nodes\<close>

datatype node_sort = NodeStartedAt | NodeEndedAt | NodeStatus | NodeMachineType

fun node_status_lower :: "node_status \<Rightarrow> string" where
  "node_status_lower BOOTING = ''booting''"
| "node_status_lower READY = ''ready''"
| "node_status_lower RUNNING = ''running''"
| "node_status_lower FAILED = ''failed''"
| "node_status_lower DELETED = ''deleted''"

definition node_sort_value :: "node_sort \<Rightarrow> node \<Rightarrow> sql_val option" where
  "node_sort_value s n =
     (case s of
        NodeStartedAt \<Rightarrow> sql_real (n_started_booting_at n)
      | NodeEndedAt \<Rightarrow> sql_real (n_ended_at n)
      | NodeStatus \<Rightarrow> map_option (\<lambda>x. SqlText (node_status_lower x)) (n_status n)
      | NodeMachineType \<Rightarrow> map_option SqlText (n_machine_type n))"

record node_filter =
  nf_status :: string
  nf_region :: "string option"
  nf_job_id :: "string option"
  nf_started_after :: "real option"
  nf_ended_after :: "real option"

definition node_matches :: "node_filter \<Rightarrow> node \<Rightarrow> bool" where
  "node_matches f n \<longleftrightarrow>
     (if nf_status f = ''active'' then is_live n
      else nf_status f = ''all'' \<or> n_status n \<noteq> None \<and> node_status_lower (the (n_status n)) = nf_status f)
     \<and> opt_holds (nf_region f) (\<lambda>r. n_gcp_region n = Some r)
     \<and> opt_holds (nf_job_id f) (\<lambda>j. n_current_job n = Some j \<or> n_reserved_for_job n = Some j)
     \<and> opt_holds (nf_started_after f) (\<lambda>t. \<exists>x \<in> set_option (n_started_booting_at n). x \<ge> t)
     \<and> opt_holds (nf_ended_after f) (\<lambda>t. \<exists>x \<in> set_option (n_ended_at n). x \<ge> t)"

definition management_nodes_page ::
  "head \<Rightarrow> node_filter \<Rightarrow> node_sort \<Rightarrow> bool \<Rightarrow> page_key option \<Rightarrow> nat \<Rightarrow> int \<times> (string \<times> node) list" where
  "management_nodes_page h f s descending after_key limit =
     (let rows = filter (\<lambda>(k, n). node_matches f n) (hist_nodes h)
      in (int (length rows),
          keyset_rows descending (\<lambda>(k, n). (node_sort_value s n, k)) after_key limit rows))"

record nodes_query =
  nq_status :: string
  nq_region :: "string option"
  nq_job_id :: "string option"
  nq_started_after :: "string option"
  nq_ended_after :: "string option"
  nq_sort :: string
  nq_order :: string

definition node_sort_of :: "string \<Rightarrow> node_sort option" where
  "node_sort_of s = map_of
     [(''started_at'', NodeStartedAt), (''ended_at'', NodeEndedAt), (''status'', NodeStatus),
      (''machine_type'', NodeMachineType)] s"

text \<open>A listed row is shown as the live node of that name, if the head has one.\<close>

definition live_or_row :: "head \<Rightarrow> string \<times> node \<Rightarrow> string \<times> node" where
  "live_or_row h r = (fst r, get_or (snd r) (map_of (map (\<lambda>n. (n_instance_name n, n)) (rev (list_nodes h))) (fst r)))"

definition list_nodes_page ::
  "(nodes_query \<Rightarrow> string) \<Rightarrow> (string \<Rightarrow> real option) \<Rightarrow> head \<Rightarrow> nodes_query \<Rightarrow> int
    \<Rightarrow> page_key cursor option \<Rightarrow> (string \<times> node, page_key) page_reply managed" where
  "list_nodes_page fp read_time h q limit c =
     (if nq_status q \<notin> {''active'', ''booting'', ''ready'', ''running'', ''failed'', ''deleted'', ''all''}
      then Inl invalid_argument
      else case node_sort_of (nq_sort q) of
        None \<Rightarrow> Inl invalid_argument
      | Some s \<Rightarrow>
          if nq_order q \<notin> {''asc'', ''desc''} then Inl invalid_argument
          else bind_err (parse_time read_time (nq_started_after q)) (\<lambda>started.
               bind_err (parse_time read_time (nq_ended_after q)) (\<lambda>ended.
               bind_err (decode_cursor c ''nodes'' (fp q) (Some (nq_order q))) (\<lambda>after_key.
                 let n = page_limit 1000 limit;
                     f = \<lparr>nf_status = nq_status q, nf_region = nq_region q, nf_job_id = nq_job_id q,
                          nf_started_after = started, nf_ended_after = ended\<rparr>;
                     (tot, rows) = management_nodes_page h f s (nq_order q = ''desc'') after_key (n + 1);
                     (page, nxt) = finish_page (\<lambda>(k, m). cursor_key (node_sort_value s m, k)) n rows
                 in Inr \<lparr>pr_items = map (live_or_row h) page,
                         pr_next_cursor = map_option (encode_cursor ''nodes'' (fp q) (Some (nq_order q))) nxt,
                         pr_has_more = length rows > n, pr_total_count = tot\<rparr>))))"

section \<open>Log pages\<close>

text \<open>The key of a log entry is its row and its place in the row's document.\<close>

record shown_entry =
  sh_id :: int
  sh_offset :: int
  sh_timestamp :: "real option"
  sh_message :: string
  sh_is_error :: bool

definition entry_key :: "shown_entry \<Rightarrow> int \<times> int" where
  "entry_key e = (sh_id e, sh_offset e)"

text \<open>Tuples compare from the left.\<close>

definition key_less :: "int \<times> int \<Rightarrow> int \<times> int \<Rightarrow> bool" where
  "key_less a b \<longleftrightarrow> fst a < fst b \<or> fst a = fst b \<and> snd a < snd b"

text \<open>\<open>_log_page\<close>: \<open>before\<close> pages towards the oldest entry, but shows each page oldest first.\<close>

definition log_page ::
  "shown_entry list \<Rightarrow> string \<Rightarrow> string \<Rightarrow> (int \<times> int) cursor option \<Rightarrow> (int \<times> int) cursor option \<Rightarrow> int
    \<Rightarrow> (shown_entry, int \<times> int) page_reply managed" where
  "log_page entries resource fp before after limit =
     (if before \<noteq> None \<and> after \<noteq> None then Inl invalid_argument
      else bind_err (decode_cursor (if before \<noteq> None then before else after) resource fp None) (\<lambda>last.
        let n = page_limit 5000 limit;
            kept = (case last of None \<Rightarrow> entries
              | Some k \<Rightarrow> filter (\<lambda>e. if before \<noteq> None then key_less (entry_key e) k else key_less k (entry_key e)) entries);
            sorted_entries = (if before \<noteq> None then order_by (\<lambda>a b. key_less b a) entry_key kept
              else order_by key_less entry_key kept);
            (page, nxt) = finish_page entry_key n (take (n + 1) sorted_entries)
        in Inr \<lparr>pr_items = (if before \<noteq> None then rev page else page),
                pr_next_cursor = map_option (encode_cursor resource fp None) nxt,
                pr_has_more = length sorted_entries > n, pr_total_count = 0\<rparr>))"

record node_log_row =
  nl_id :: int
  nl_instance_name :: string
  nl_ts :: "real option"
  nl_msg :: string

text \<open>\<open>node_logs_after\<close>: what the live stream of a node's logs sends next.\<close>

definition node_logs_after :: "node_log_row list \<Rightarrow> string \<Rightarrow> int \<Rightarrow> nat \<Rightarrow> node_log_row list" where
  "node_logs_after table name after_id limit =
     take limit (sort_key nl_id (filter (\<lambda>r. nl_instance_name r = name \<and> nl_id r > after_id) table))"

definition management_node_logs ::
  "node_log_row list \<Rightarrow> string \<Rightarrow> int option \<Rightarrow> int option \<Rightarrow> nat \<Rightarrow> shown_entry list" where
  "management_node_logs table name before_id after_id limit =
     (let rows = filter (\<lambda>r. nl_instance_name r = name
            \<and> (case before_id of Some b \<Rightarrow> nl_id r < b
                | None \<Rightarrow> (case after_id of Some a \<Rightarrow> nl_id r > a | None \<Rightarrow> True))) table;
          got = (if before_id \<noteq> None then rev (take limit (order_by (\<lambda>a b. b < a) nl_id rows))
                 else take limit (order_by (<) nl_id rows))
      in map (\<lambda>r. \<lparr>sh_id = nl_id r, sh_offset = 0, sh_timestamp = nl_ts r, sh_message = nl_msg r,
                   sh_is_error = False\<rparr>) got)"

definition node_logs ::
  "node_log_row list \<Rightarrow> string \<Rightarrow> (int \<times> int) cursor option \<Rightarrow> (int \<times> int) cursor option \<Rightarrow> int
    \<Rightarrow> (shown_entry, int \<times> int) page_reply managed" where
  "node_logs table name before after limit =
     bind_err (decode_cursor (if before \<noteq> None then before else after) (''node_logs:'' @ name) [] None) (\<lambda>decoded.
       log_page
         (management_node_logs table name
            (if before \<noteq> None then map_option fst decoded else None)
            (if after \<noteq> None then map_option fst decoded else None) (page_limit 5000 limit + 1))
         (''node_logs:'' @ name) [] before after limit)"

section \<open>The logs of a call\<close>

text \<open>
  A row is read whole and gives one entry per message; the row of the cursor is read again, because
  the cursor may stand in the middle of it.
\<close>

definition row_entries :: "log_row \<Rightarrow> shown_entry list" where
  "row_entries r = concat (map (\<lambda>(offset, e).
       case le_timestamp e of None \<Rightarrow> []
       | Some t \<Rightarrow> [\<lparr>sh_id = lr_id r, sh_offset = int offset, sh_timestamp = Some t, sh_message = le_message e,
           sh_is_error = (le_is_error e \<or> lr_is_error r) \<and> \<not> is_teardown_infrastructure_log (le_message e)\<rparr>])
     (enumerate 0 (lr_logs r)))"

definition management_job_logs ::
  "log_row list \<Rightarrow> string \<Rightarrow> int option \<Rightarrow> bool \<Rightarrow> nat option \<Rightarrow> int option \<Rightarrow> int option \<Rightarrow> bool
    \<Rightarrow> shown_entry list" where
  "management_job_logs table job_id input_index include_notices row_limit before_row_id after_row_id errors_only =
     (let rows = filter (\<lambda>r. lr_job_id r = job_id
            \<and> (if include_notices then lr_input_index r = None
               else lr_input_index r \<noteq> None \<and> lr_input_index r = input_index)
            \<and> (errors_only \<longrightarrow> lr_is_error r)
            \<and> (case before_row_id of Some b \<Rightarrow> lr_id r \<le> b
                | None \<Rightarrow> (case after_row_id of Some a \<Rightarrow> lr_id r \<ge> a | None \<Rightarrow> True))) table;
          limited = (\<lambda>xs. case row_limit of None \<Rightarrow> xs | Some n \<Rightarrow> take n xs);
          got = (if before_row_id \<noteq> None then rev (limited (order_by (\<lambda>a b. b < a) lr_id rows))
                 else limited (order_by (<) lr_id rows))
      in concat (map row_entries got))"

definition call_logs ::
  "(bool \<Rightarrow> string) \<Rightarrow> log_row list \<Rightarrow> string \<Rightarrow> int \<Rightarrow> string \<Rightarrow> bool \<Rightarrow> (int \<times> int) cursor option
    \<Rightarrow> (int \<times> int) cursor option \<Rightarrow> int \<Rightarrow> (shown_entry, int \<times> int) page_reply managed" where
  "call_logs fp table job_id idx resource errors_only before after limit =
     bind_err (decode_cursor (if before \<noteq> None then before else after) resource (fp errors_only) None) (\<lambda>decoded.
       log_page
         (filter (\<lambda>e. errors_only \<longrightarrow> sh_is_error e)
           (management_job_logs table job_id (Some idx) False (Some (page_limit 5000 limit + 1))
             (if before \<noteq> None then map_option fst decoded else None)
             (if after \<noteq> None then map_option fst decoded else None) errors_only))
         resource (fp errors_only) before after limit)"

end
