(* ===== verification/Page_Claims.thy ===== *)
theory Page_Claims
  imports History_Pages Head_Properties
begin

text \<open>
  A reader who follows the cursors of the job and node lists, or of a node's logs, sees every row
  once, in order; a reader of a call's logs may not.
\<close>

section \<open>The order of a list is a linear one\<close>

definition opt_before :: "bool \<Rightarrow> sql_val option \<Rightarrow> sql_val option \<Rightarrow> bool" where
  "opt_before descending v w =
     (case (v, w) of (Some a, Some b) \<Rightarrow> sql_cmp descending a b | (Some a, None) \<Rightarrow> True | (None, _) \<Rightarrow> False)"

definition page_before :: "bool \<Rightarrow> page_key \<Rightarrow> page_key \<Rightarrow> bool" where
  "page_before descending a b \<longleftrightarrow> fst a < fst b \<or> fst a = fst b \<and>
     (opt_before descending (fst (snd a)) (fst (snd b))
      \<or> fst (snd a) = fst (snd b) \<and> sql_cmp descending (snd (snd a)) (snd (snd b)))"

lemma sql_cmp_order:
  "\<not> sql_cmp d x x" "sql_cmp d x y \<Longrightarrow> sql_cmp d y z \<Longrightarrow> sql_cmp d x z" "sql_cmp d x y \<or> x = y \<or> sql_cmp d y x"
  by (auto simp: sql_cmp_def)

lemma opt_before_order:
  "\<not> opt_before d x x" "opt_before d x y \<Longrightarrow> opt_before d y z \<Longrightarrow> opt_before d x z"
  "opt_before d x y \<or> x = y \<or> opt_before d y x"
  using sql_cmp_order [where 'a = sql_val] by (auto simp: opt_before_def split: option.splits)

interpretation pages: row_order "page_before descending" for descending
proof
  fix x y z :: page_key
  note o = opt_before_order sql_cmp_order [where 'a = "char list"]
  show "\<not> page_before descending x x" using o(1,4) by (simp add: page_before_def)
  show "page_before descending x y \<Longrightarrow> page_before descending y z \<Longrightarrow> page_before descending x z"
    using o(2) [of descending "fst (snd x)" "fst (snd y)" "fst (snd z)"] o(5) [of descending "snd (snd x)" "snd (snd y)" "snd (snd z)"]
    unfolding page_before_def by auto
  show "page_before descending x y \<or> x = y \<or> page_before descending y x"
    using o(3) [of descending "fst (snd x)" "fst (snd y)"] o(6) [of descending "snd (snd x)" "snd (snd y)"]
    unfolding page_before_def by (auto simp: prod_eq_iff)
qed

text \<open>Both clauses of the SQL are this order.\<close>

lemma row_before_key: "row_before d r s = page_before d (cursor_key r) (cursor_key s)"
  by (auto simp: row_before_def page_before_def cursor_key_def opt_before_def split: option.splits)

lemma after_cursor_key: "after_cursor d (cursor_key c) r = page_before d (cursor_key c) (cursor_key r)"
  by (auto simp: after_cursor_def page_before_def cursor_key_def opt_before_def sql_gt_def sql_eq_def Let_def
      split: option.splits)

lemma cursor_key_inj: "cursor_key r = cursor_key s \<longleftrightarrow> r = s"
  by (auto simp: cursor_key_def prod_eq_iff)

lemma keyset_fetch:
  "finish_page (\<lambda>r. cursor_key (rk r)) n (keyset_rows d rk (map_option cursor_key c) (n + 1) rows)
   = fetch_page (page_before d) (\<lambda>r. cursor_key (rk r)) n (map_option cursor_key c) rows"
  by (cases c) (simp_all add: keyset_rows_def fetch_page_def order_by_def rows_after_def
      row_before_key [abs_def] after_cursor_key)

section \<open>Following cursors\<close>

text \<open>An endpoint read without errors, as pages; a reader that gets an error stops.\<close>

definition served :: "('c option \<Rightarrow> ('r, 'k) page_reply managed) \<Rightarrow> 'c option \<Rightarrow> 'r list \<times> 'k cursor option" where
  "served endpoint c = (case endpoint c of Inl _ \<Rightarrow> ([], None) | Inr p \<Rightarrow> (pr_items p, pr_next_cursor p))"

lemma walk_encoded_on:
  assumes page': "\<And>c. ok c \<Longrightarrow> page' (map_option enc c) = (fst (page c), map_option enc (snd (page c)))"
    and ok: "\<And>c. ok c \<Longrightarrow> ok (snd (page c))"
  shows "ok c \<Longrightarrow> walk page' n (map_option enc c) = walk page n c"
proof (induction n arbitrary: c)
  case (Suc n)
  obtain items nxt where p: "page c = (items, nxt)" by force
  have "ok nxt" using ok [OF Suc.prems] by (simp add: p)
  then show ?case using page' [OF Suc.prems] Suc.IH [of nxt] by (cases nxt) (simp_all add: p)
qed simp

lemmas walk_encoded = walk_encoded_on [where ok = "\<lambda>_. True", simplified]

lemma order_by_facts:
  assumes "distinct (map rk rows)"
  shows "set (order_by (page_before d) (\<lambda>r. cursor_key (rk r)) rows) = set rows"
    "sorted_wrt (\<lambda>a b. row_before d (rk a) (rk b)) (order_by (page_before d) (\<lambda>r. cursor_key (rk r)) rows)"
    "length (order_by (page_before d) (\<lambda>r. cursor_key (rk r)) rows) = length rows"
proof -
  have "distinct (map (\<lambda>r. cursor_key (rk r)) rows)"
    using assms by (simp add: distinct_map inj_on_def cursor_key_inj)
  from pages.in_order_sort [OF this, of d]
  show "sorted_wrt (\<lambda>a b. row_before d (rk a) (rk b)) (order_by (page_before d) (\<lambda>r. cursor_key (rk r)) rows)"
    by (simp add: row_before_key)
qed simp_all

text \<open>The pages of any endpoint built on \<open>keyset_rows\<close> are its whole table.\<close>

lemma keyset_walk:
  assumes d: "distinct (map rk rows)" and n: "0 < n"
    and page: "\<And>c. page (map_option cursor_key c) = finish_page (\<lambda>r. cursor_key (rk r)) n
        (keyset_rows d rk (map_option cursor_key c) (n + 1) rows)"
  shows "walk page (Suc (length rows)) None = order_by (page_before d) (\<lambda>r. cursor_key (rk r)) rows"
proof (rule pages.walk_pages_of [OF _ _ _ n])
  show "page None = fetch_page (page_before d) (\<lambda>r. cursor_key (rk r)) n None rows"
    using page [of None] keyset_fetch [of rk n d None rows] by simp
  show "page (Some k) = fetch_page (page_before d) (\<lambda>r. cursor_key (rk r)) n (Some k) rows"
    if k: "k \<in> (\<lambda>r. cursor_key (rk r)) ` set rows" for k
  proof -
    obtain r where "k = cursor_key (rk r)" using k by blast
    then show ?thesis using page [of "Some (rk r)"] keyset_fetch [of rk n d "Some (rk r)" rows] by simp
  qed
  show "distinct (map (\<lambda>r. cursor_key (rk r)) rows)"
    using d by (simp add: distinct_map inj_on_def cursor_key_inj)
qed

section \<open>The job list\<close>

definition query_filter :: "(string \<Rightarrow> real option) \<Rightarrow> jobs_query \<Rightarrow> job_filter" where
  "query_filter read_time q =
     \<lparr>jf_status = jq_status q, jf_user = jq_user q, jf_function_name = jq_function_name q,
      jf_parent_job_id = jq_parent_job_id q,
      jf_started_after = Option.bind (jq_started_after q) read_time,
      jf_started_before = Option.bind (jq_started_before q) read_time\<rparr>"

lemma parse_time_ok: "parse_time read_time t = Inr x \<Longrightarrow> x = Option.bind t read_time"
  by (auto simp: parse_time_def split: option.splits)

lemma list_jobs_served:
  assumes "list_jobs fp read_time now h logs q limit None = Inr p" "job_sort_of (jq_sort q) = Some s"
  defines "rk \<equiv> \<lambda>r. (job_sort_value s now logs r, jr_job_id r)"
  defines "rows \<equiv> filter (job_matches (query_filter read_time q)) (jobs_table h)"
  shows "served (list_jobs fp read_time now h logs q limit)
      (map_option (encode_cursor ''jobs'' (fp q) (Some (jq_order q))) c) =
    (case finish_page (\<lambda>r. cursor_key (rk r)) (page_limit 1000 limit)
        (keyset_rows (jq_order q = ''desc'') rk c (page_limit 1000 limit + 1) rows) of (page, nxt) \<Rightarrow>
       (page, map_option (encode_cursor ''jobs'' (fp q) (Some (jq_order q))) nxt))"
    and "pr_total_count p = int (length rows)"
proof -
  note d = list_jobs_def management_jobs_page_def Let_def served_def rk_def rows_def query_filter_def
  obtain t1 t2 where t: "parse_time read_time (jq_started_after q) = Inr t1" "parse_time read_time (jq_started_before q) = Inr t2"
    using assms(1,2) by (auto simp: d bind_err_def split: if_splits sum.splits)
  note e = parse_time_ok [OF t(1)] parse_time_ok [OF t(2)]
  have ok: "\<not> (truthy (jq_status q) \<and> the (jq_status q) \<notin> {''running'', ''completed'', ''failed'', ''canceled''})"
    "jq_order q \<in> {''asc'', ''desc''}"
    using assms(1,2) by (auto simp: d split: if_splits)
  show "served (list_jobs fp read_time now h logs q limit)
      (map_option (encode_cursor ''jobs'' (fp q) (Some (jq_order q))) c) =
    (case finish_page (\<lambda>r. cursor_key (rk r)) (page_limit 1000 limit)
        (keyset_rows (jq_order q = ''desc'') rk c (page_limit 1000 limit + 1) rows) of (page, nxt) \<Rightarrow>
       (page, map_option (encode_cursor ''jobs'' (fp q) (Some (jq_order q))) nxt))"
    using ok assms(2) t by (cases c) (auto simp: d e bind_err_def split: prod.splits)
  show "pr_total_count p = int (length rows)"
    using ok assms(1,2) t by (auto simp: d e bind_err_def split: prod.splits if_splits)
qed

lemma jobs_table_ids: "map jr_job_id (jobs_table h) = dkeys (hist_jobs h)" "length (jobs_table h) = length (hist_jobs h)"
  by (auto simp: jobs_table_def)

lemma distinct_map_filter_pair: "distinct (map f rows) \<Longrightarrow> distinct (map (\<lambda>r. (g r, f r)) (filter P rows))"
  by (auto simp: distinct_map inj_on_def)

text \<open>
  C32. Over an unchanged history, a reader who asks for the jobs of a query with any page size and
  follows every cursor gets each matching job exactly once, in the query's order with missing values
  last, and as many as the first page's total says. (The clock is one of the query's inputs: it is the
  same for every page here.)
\<close>

theorem job_pages_are_complete:
  assumes "head_life h" "list_jobs fp read_time now h logs q limit None = Inr p"
    "job_sort_of (jq_sort q) = Some s"
  shows "let seen = walk (served (list_jobs fp read_time now h logs q limit)) (Suc (nat (pr_total_count p))) None
    in set seen = {r \<in> set (jobs_table h). job_matches (query_filter read_time q) r}
      \<and> distinct (map jr_job_id seen) \<and> int (length seen) = pr_total_count p
      \<and> sorted_wrt (\<lambda>a b. row_before (jq_order q = ''desc'') (job_sort_value s now logs a, jr_job_id a)
           (job_sort_value s now logs b, jr_job_id b)) seen"
proof -
  let ?rk = "\<lambda>r. (job_sort_value s now logs r, jr_job_id r)"
  let ?rows = "filter (job_matches (query_filter read_time q)) (jobs_table h)"
  let ?d = "jq_order q = ''desc''"
  let ?enc = "encode_cursor ''jobs'' (fp q) (Some (jq_order q))"
  let ?n = "page_limit 1000 limit"
  define seen where "seen = walk (served (list_jobs fp read_time now h logs q limit)) (Suc (nat (pr_total_count p))) None"
  define page where "page = (\<lambda>c. finish_page (\<lambda>r. cursor_key (?rk r)) ?n (keyset_rows ?d ?rk c (?n + 1) ?rows))"
  note sv = list_jobs_served [OF assms(2,3)]
  have "distinct (dkeys (hist_jobs h))"
    using head_life_inv [OF assms(1)] by (auto simp: head_inv_def jobs_ok_def)
  then have ids: "distinct (map jr_job_id (jobs_table h))" by (simp only: jobs_table_ids)
  then have d: "distinct (map ?rk ?rows)" by (rule distinct_map_filter_pair)
  have w: "walk (served (list_jobs fp read_time now h logs q limit)) m (map_option ?enc None) = walk page m None" for m
    by (rule walk_encoded) (use sv(1) in \<open>simp add: page_def split: prod.splits\<close>)
  have "seen = walk page (Suc (length ?rows)) None" using w by (simp add: seen_def sv(2) del: walk.simps)
  also have "\<dots> = order_by (page_before ?d) (\<lambda>r. cursor_key (?rk r)) ?rows"
    by (rule keyset_walk [OF d page_limit_pos]) (simp_all add: page_def)
  finally have e: "seen = order_by (page_before ?d) (\<lambda>r. cursor_key (?rk r)) ?rows" .
  note f = order_by_facts [OF d, of ?d, folded e]
  have "distinct (map jr_job_id seen)"
  proof -
    have "distinct ?rows" using ids distinct_filter distinct_map by blast
    then have "distinct seen" using f(1,3) by (metis card_distinct distinct_card)
    moreover have "inj_on jr_job_id (set seen)" using ids f(1) by (auto simp: distinct_map inj_on_def)
    ultimately show ?thesis by (simp add: distinct_map)
  qed
  then show ?thesis using f sv(2) unfolding seen_def [symmetric] Let_def by auto
qed

definition demo_jobs :: head where
  "demo_jobs = fst (admit_job 13 demo_running ''j2'' demo_job [])"

lemma demo_jobs_life: "head_life demo_jobs"
  unfolding demo_jobs_def
  by (intro life_step [OF demo_running_life] job_admitted) (simp add: demo_job_def)

definition demo_query :: jobs_query where
  "demo_query = \<lparr>jq_status = None, jq_user = None, jq_function_name = None, jq_parent_job_id = None,
     jq_started_after = None, jq_started_before = None, jq_sort = ''started_at'', jq_order = ''desc''\<rparr>"

theorem job_pages_are_complete_witness:
  "set (map jr_job_id (walk (served (list_jobs (\<lambda>q. []) (\<lambda>t. None) 20 demo_jobs [] demo_query 1)) 3 None))
   = {''j1'', ''j2''}"
proof -
  let ?l = "list_jobs (\<lambda>q. []) (\<lambda>t. None) 20 demo_jobs [] demo_query 1"
  have "isl (?l None) = False" "pr_total_count (projr (?l None)) = 2" by code_simp+
  then obtain p where p: "?l None = Inr p" "pr_total_count p = 2" by (cases "?l None") auto
  have s: "job_sort_of (jq_sort demo_query) = Some StartedAt" by code_simp
  have m: "jr_job_id ` set (filter (job_matches (query_filter (\<lambda>t. None) demo_query)) (jobs_table demo_jobs)) = {''j1'', ''j2''}"
    by code_simp
  show ?thesis
    using job_pages_are_complete [OF demo_jobs_life p(1) s] m
    by (simp add: p(2) Let_def eval_nat_numeral del: walk.simps)
qed

text \<open>
  The clock does move between two pages. Sorted by duration, a running job gets longer: in ascending
  order it is listed again on the next page.
\<close>

definition duration_query :: jobs_query where
  "duration_query = demo_query\<lparr>jq_sort := ''duration'', jq_order := ''asc''\<rparr>"

lemma running_job_is_listed_twice:
  defines "l \<equiv> \<lambda>now c. list_jobs (\<lambda>q. []) (\<lambda>t. None) now demo_jobs [] duration_query 1 c"
  shows "map jr_job_id (pr_items (projr (l 20 None))) = [''j1'']"
    "map jr_job_id (pr_items (projr (l 21 (pr_next_cursor (projr (l 20 None)))))) = [''j1'']"
  unfolding l_def by code_simp+

section \<open>The logs of a node\<close>

interpretation entries: row_order key_less
  by unfold_locales (auto simp: key_less_def prod_eq_iff)

definition show_node_log :: "node_log_row \<Rightarrow> shown_entry" where
  "show_node_log r = \<lparr>sh_id = nl_id r, sh_offset = 0, sh_timestamp = nl_ts r, sh_message = nl_msg r, sh_is_error = False\<rparr>"

definition node_rows :: "node_log_row list \<Rightarrow> string \<Rightarrow> node_log_row list" where
  "node_rows table name = filter (\<lambda>r. nl_instance_name r = name) table"

lemma entry_key_shown [simp]: "entry_key (show_node_log r) = (nl_id r, 0)"
  by (simp add: entry_key_def show_node_log_def)

lemma order_shown: "order_by key_less entry_key (map show_node_log rows) = map show_node_log (order_by (<) nl_id rows)"
proof -
  have "order_by key_less (\<lambda>r. (nl_id r, 0)) rs = order_by (<) nl_id rs" for rs :: "node_log_row list"
    by (simp add: order_by_def key_less_def)
  then show ?thesis by (simp add: order_by_map)
qed

lemma distinct_shown: "distinct (map nl_id rows) \<Longrightarrow> distinct (map entry_key (map show_node_log rows))"
  by (simp add: distinct_map inj_on_def)

text \<open>What the history hands over for a cursor is already the page the endpoint cuts.\<close>

lemma log_page_of_prefix:
  assumes d: "distinct (map entry_key all)" and c: "c = map_option (encode_cursor resource fp None) lk"
    and n: "n = page_limit 5000 limit"
  shows "served (\<lambda>c. log_page (take (n + 1) (order_by key_less entry_key (rows_after key_less entry_key lk all)))
            resource fp None c limit) c =
    (fst (fetch_page key_less entry_key n lk all),
     map_option (encode_cursor resource fp None) (snd (fetch_page key_less entry_key n lk all)))"
proof -
  let ?kept = "rows_after key_less entry_key lk all"
  let ?got = "take (n + 1) (order_by key_less entry_key ?kept)"
  have dk: "distinct (map entry_key ?kept)"
    using d by (auto simp: rows_after_def distinct_map_filter split: option.splits)
  have o: "entries.in_order entry_key ?got" using entries.in_order_sort [OF dk] by (rule sorted_wrt_take)
  have "rows_after key_less entry_key lk ?got = ?got"
  proof (cases lk)
    case (Some k)
    have "set ?got \<subseteq> set ?kept" by (metis order_by_simps(3) set_take_subset)
    then show ?thesis using Some by (auto simp: rows_after_def intro!: filter_True)
  qed (simp add: rows_after_def)
  then have "order_by key_less entry_key (rows_after key_less entry_key lk ?got) = ?got"
    using entries.order_by_id [OF o] by simp
  moreover have "(case lk of None \<Rightarrow> ?got | Some k \<Rightarrow> filter (\<lambda>e. key_less k (entry_key e)) ?got) =
      rows_after key_less entry_key lk ?got"
    unfolding rows_after_def ..
  ultimately show ?thesis
    using c by (cases lk) (simp_all add: served_def log_page_def bind_err_def Let_def fetch_page_def n
        split: prod.splits)
qed

lemma shown_rows_after:
  "map show_node_log (order_by (<) nl_id (filter (\<lambda>r. nl_instance_name r = name \<and>
       (case map_option fst lk of None \<Rightarrow> True | Some a \<Rightarrow> nl_id r > a)) table)) =
   order_by key_less entry_key (rows_after key_less entry_key (map_option (\<lambda>k. (fst k, 0)) lk)
     (map show_node_log (node_rows table name)))"
proof -
  have "filter (\<lambda>r. nl_instance_name r = name \<and> (case map_option fst lk of None \<Rightarrow> True | Some a \<Rightarrow> nl_id r > a)) table =
      (case lk of None \<Rightarrow> node_rows table name | Some k \<Rightarrow> filter (\<lambda>r. nl_id r > fst k) (node_rows table name))"
    by (auto simp: node_rows_def intro: filter_cong split: option.splits)
  moreover have "rows_after key_less entry_key (map_option (\<lambda>k. (fst k, 0)) lk) (map show_node_log (node_rows table name))
      = map show_node_log (case lk of None \<Rightarrow> node_rows table name | Some k \<Rightarrow> filter (\<lambda>r. nl_id r > fst k) (node_rows table name))"
    by (cases lk) (simp_all add: rows_after_def filter_map o_def key_less_def)
  ultimately show ?thesis by (simp add: order_shown)
qed

lemma node_logs_served:
  assumes d: "distinct (map nl_id table)" and lk: "\<forall>k. lk = Some k \<longrightarrow> snd k = 0"
    and all: "all = map show_node_log (node_rows table name)"
    and enc: "enc = encode_cursor (''node_logs:'' @ name) [] None" and n: "n = page_limit 5000 limit"
  shows "served (\<lambda>c. node_logs table name None c limit) (map_option enc lk) =
    (fst (fetch_page key_less entry_key n lk all), map_option enc (snd (fetch_page key_less entry_key n lk all)))"
proof -
  have z: "map_option (\<lambda>k. (fst k, 0)) lk = lk" using lk by (cases lk) (auto simp: prod_eq_iff)
  have dec: "decode_cursor (map_option enc lk) (''node_logs:'' @ name) [] None = Inr lk"
    by (cases lk) (simp_all add: enc)
  have c: "(if map_option enc lk \<noteq> None then map_option fst lk else None) = map_option fst lk" by (cases lk) auto
  have rows: "management_node_logs table name None (map_option fst lk) (n + 1) =
      take (n + 1) (order_by key_less entry_key (rows_after key_less entry_key lk all))"
    using shown_rows_after [of name lk table] unfolding management_node_logs_def Let_def all z
    by (simp only: option.case if_False simp_thms flip: show_node_log_def take_map)
  have "distinct (map entry_key all)"
    unfolding all node_rows_def by (intro distinct_shown distinct_map_filter d)
  from log_page_of_prefix [OF this, of "map_option enc lk" "''node_logs:'' @ name" "[]" lk n limit, OF _ n] show ?thesis
    using dec rows c by (simp add: served_def node_logs_def bind_err_def enc n)
qed

text \<open>
  A reader of a node's logs who starts without a cursor and follows every \<open>next_cursor\<close> gets every
  log line of that node once, in the order in which the head stored them, whatever the page size.
\<close>

theorem node_log_pages_are_complete:
  assumes "distinct (map nl_id table)"
  shows "walk (served (\<lambda>c. node_logs table name None c limit)) (Suc (length (node_rows table name))) None =
    map show_node_log (order_by (<) nl_id (node_rows table name))"
proof -
  let ?all = "map show_node_log (node_rows table name)"
  let ?n = "page_limit 5000 limit"
  have da: "distinct (map entry_key ?all)"
    unfolding node_rows_def by (intro distinct_shown distinct_map_filter assms)
  have ok: "\<forall>k. snd (fetch_page key_less entry_key ?n c ?all) = Some k \<longrightarrow> snd k = 0" for c
    using entries.fetch_page_next [of entry_key ?n c ?all] by (auto intro: prod_eqI simp: prod_eq_iff)
  have "walk (served (\<lambda>c. node_logs table name None c limit)) m (map_option (encode_cursor (''node_logs:'' @ name) [] None) None)
      = walk (\<lambda>c. fetch_page key_less entry_key ?n c ?all) m None" for m
    by (rule walk_encoded_on [where ok = "\<lambda>c. \<forall>k. c = Some k \<longrightarrow> snd k = 0"])
      (use node_logs_served [OF assms _ refl refl refl] ok in \<open>simp_all del: split_paired_All\<close>)
  moreover have "walk (\<lambda>c. fetch_page key_less entry_key ?n c ?all) (Suc (length ?all)) None = order_by key_less entry_key ?all"
    by (rule entries.walk_pages [OF da page_limit_pos]) simp
  ultimately show ?thesis by (simp add: order_shown del: walk.simps)
qed

theorem node_log_pages_are_complete_witness:
  "map sh_message (walk (served (\<lambda>c. node_logs
      [\<lparr>nl_id = 1, nl_instance_name = ''n1'', nl_ts = None, nl_msg = ''a''\<rparr>,
       \<lparr>nl_id = 2, nl_instance_name = ''n2'', nl_ts = None, nl_msg = ''b''\<rparr>,
       \<lparr>nl_id = 3, nl_instance_name = ''n1'', nl_ts = None, nl_msg = ''c''\<rparr>] ''n1'' None c 1)) 3 None)
   = [''a'', ''c'']"
  using node_log_pages_are_complete [of "[\<lparr>nl_id = 1, nl_instance_name = ''n1'', nl_ts = None, nl_msg = ''a''\<rparr>,
       \<lparr>nl_id = 2, nl_instance_name = ''n2'', nl_ts = None, nl_msg = ''b''\<rparr>,
       \<lparr>nl_id = 3, nl_instance_name = ''n1'', nl_ts = None, nl_msg = ''c''\<rparr>]" "''n1''" 1]
  by (simp add: node_rows_def show_node_log_def eval_nat_numeral del: walk.simps)

section \<open>The logs of a call\<close>

text \<open>
  The row of the cursor is read again and counts towards the rows asked for. When every row holds one
  line, a later page gets no line more than its size and says that there are no more.
\<close>

definition one_line_rows :: "log_row list" where
  "one_line_rows = add_job_logs ''j1''
     (replicate 5 (Some 0, False, [\<lparr>le_timestamp = Some 1, le_message = ''x'', le_is_error = False\<rparr>])) []"

lemma call_logs_stop_early:
  "length (walk (served (\<lambda>c. call_logs (\<lambda>b. []) one_line_rows ''j1'' 0 ''r'' False None c 2)) 6 None) = 4"
  by code_simp

end
