(* ===== verification/Shared_Files.thy ===== *)
theory Shared_Files
  imports Job_Start History_Pages
begin

text \<open>
  The dashboard's file manager over the shared bucket: \<open>endpoints/storage.py\<close> down to the file manager
  endpoint, and the operations of \<open>blobstore.py\<close> it calls. The cloud's object API is a parameter: a record
  of its calls over a state of its own, and \<open>bucket_laws\<close> says what its documentation promises. An action
  gives back the bucket and either an error or a reply, since what it did before an error stays done.
  Dates and the texts of errors are left out.
\<close>

section \<open>The object API\<close>

text \<open>
  The bytes of an object, the names with a prefix in order, a listing of one directory in pages
  (directories and files, with at most so many files if the cloud counts them), and the writes.
\<close>

record 's bucket_api =
  head_object :: "'s \<Rightarrow> string \<Rightarrow> string option"
  list_objects :: "'s \<Rightarrow> string \<Rightarrow> string list"
  list_pages :: "'s \<Rightarrow> string \<Rightarrow> nat \<Rightarrow> (string list \<times> string list) list"
  put_object :: "'s \<Rightarrow> string \<Rightarrow> string \<Rightarrow> 's"
  copy_object :: "'s \<Rightarrow> string \<Rightarrow> string \<Rightarrow> 's"
  delete_object :: "'s \<Rightarrow> string \<Rightarrow> 's"

definition bucket_laws :: "'s bucket_api \<Rightarrow> bool" where
  "bucket_laws api \<longleftrightarrow>
     (\<forall>b k d k'. head_object api (put_object api b k d) k' = (if k' = k then Some d else head_object api b k'))
     \<and> (\<forall>b k t k'. head_object api b k \<noteq> None \<longrightarrow>
          head_object api (copy_object api b k t) k' = (if k' = t then head_object api b k else head_object api b k'))
     \<and> (\<forall>b k k'. head_object api (delete_object api b k) k' = (if k' = k then None else head_object api b k'))
     \<and> (\<forall>b p. set (list_objects api b p) = {k. prefix p k \<and> head_object api b k \<noteq> None}
          \<and> distinct (list_objects api b p))"

datatype storage_error = BlobNotFound | BadRequest

type_synonym ('s, 'a) stored = "'s \<times> (storage_error + 'a)"

definition and_then :: "('s, 'a) stored \<Rightarrow> ('s \<Rightarrow> 'a \<Rightarrow> ('s, 'b) stored) \<Rightarrow> ('s, 'b) stored" where
  "and_then m f = (case m of (b, Inl e) \<Rightarrow> (b, Inl e) | (b, Inr x) \<Rightarrow> f b x)"

lemma and_then_simps [simp]: "and_then (b, Inl e) f = (b, Inl e)" "and_then (b, Inr x) f = f b x"
  by (simp_all add: and_then_def)

section \<open>The blob store\<close>

record blob_meta =
  bm_name :: string
  bm_size :: nat

definition get_blob_metadata :: "'s bucket_api \<Rightarrow> 's \<Rightarrow> string \<Rightarrow> blob_meta option" where
  "get_blob_metadata api b name =
     map_option (\<lambda>d. \<lparr>bm_name = name, bm_size = length d\<rparr>) (head_object api b name)"

definition list_prefix :: "'s bucket_api \<Rightarrow> 's \<Rightarrow> string \<Rightarrow> nat option \<Rightarrow> string list" where
  "list_prefix api b p max_results =
     (case max_results of None \<Rightarrow> list_objects api b p | Some n \<Rightarrow> take n (list_objects api b p))"

definition delete_batch :: "'s bucket_api \<Rightarrow> 's \<Rightarrow> string list \<Rightarrow> 's" where
  "delete_batch api b names = foldl (delete_object api) b names"

text \<open>A rename is a copy and a deletion.\<close>

definition rename_blob :: "'s bucket_api \<Rightarrow> 's \<Rightarrow> string \<Rightarrow> string \<Rightarrow> ('s, unit) stored" where
  "rename_blob api b source destination =
     (if head_object api b source = None then (b, Inl BlobNotFound)
      else (delete_object api (copy_object api b source destination) source, Inr ()))"

section \<open>Paths and names\<close>

definition path_segment :: "string list \<Rightarrow> string \<Rightarrow> string list" where
  "path_segment segments s =
     (if s = [] \<or> s = ''.'' then segments
      else if s = ''..'' then butlast segments
      else segments @ [s])"

definition backslashes :: "string \<Rightarrow> string" where
  "backslashes s = map (\<lambda>c. if c = CHR 0x5C then CHR ''/'' else c) s"

definition directory_of :: "string list \<Rightarrow> string" where
  "directory_of segments = (if segments = [] then [] else join_strings ''/'' segments @ ''/'')"

definition normalize_directory_path :: "string option \<Rightarrow> string" where
  "normalize_directory_path raw_path =
     (if \<not> truthy raw_path then []
      else directory_of (foldl path_segment [] (split_on CHR ''/'' (backslashes (the raw_path)))))"

definition validate_entry_name :: "string option \<Rightarrow> storage_error + string" where
  "validate_entry_name name =
     (if \<not> truthy name then Inl BadRequest
      else if CHR ''/'' \<in> set (the name) then Inl BadRequest
      else if the name = ''.'' \<or> the name = ''..'' then Inl BadRequest
      else Inr (the name))"

definition directory_path_for_response :: "string \<Rightarrow> string" where
  "directory_path_for_response directory_prefix =
     (if directory_prefix = [] then ''/'' else ''/'' @ directory_prefix)"

record fm_entry =
  fe_name :: string
  fe_size :: nat
  fe_is_file :: bool
  fe_has_child :: bool
  fe_path :: string

definition ends_with_slash :: "string \<Rightarrow> bool" where
  "ends_with_slash s = (s \<noteq> [] \<and> last s = CHR ''/'')"

definition build_directory_metadata :: "string \<Rightarrow> string \<Rightarrow> bool \<Rightarrow> fm_entry" where
  "build_directory_metadata prefix0 parent_prefix has_children =
     (let p = (if ends_with_slash prefix0 then prefix0 else prefix0 @ ''/'');
          name = (if parent_prefix \<noteq> [] then butlast (drop (length parent_prefix) p)
                  else if butlast p \<noteq> [] then butlast p else ''/workspace/shared'')
      in \<lparr>fe_name = name, fe_size = 0, fe_is_file = False, fe_has_child = has_children,
          fe_path = directory_path_for_response parent_prefix\<rparr>)"

definition build_file_metadata :: "blob_meta \<Rightarrow> string \<Rightarrow> fm_entry" where
  "build_file_metadata m directory_prefix =
     \<lparr>fe_name = drop (length directory_prefix) (bm_name m), fe_size = bm_size m, fe_is_file = True,
      fe_has_child = False, fe_path = directory_path_for_response directory_prefix\<rparr>"

definition rstrip_slash :: "string \<Rightarrow> string" where
  "rstrip_slash s = rev (dropWhile (\<lambda>c. c = CHR ''/'') (rev s))"

definition build_cwd_metadata :: "string \<Rightarrow> bool \<Rightarrow> fm_entry" where
  "build_cwd_metadata directory_prefix has_children =
     \<lparr>fe_name = (if directory_prefix = [] then ''/workspace/shared'' else after_last CHR ''/'' (rstrip_slash directory_prefix)),
      fe_size = 0, fe_is_file = False, fe_has_child = has_children,
      fe_path = directory_path_for_response directory_prefix\<rparr>"

section \<open>Requests\<close>

text \<open>
  \<open>data\<close> is a list of items or, when a directory is read, a dictionary with the paging: two fields here.
  A number that Python cannot read counts as absent.
\<close>

record fm_item =
  it_name :: "string option"
  it_is_file :: "bool option"
  it_type :: "string option"

record fm_payload =
  pl_action :: "string option"
  pl_path :: "string option"
  pl_name :: "string option"
  pl_new_name :: "string option"
  pl_target_path :: "string option"
  pl_data :: "fm_item list"
  pl_names :: "string list"
  pl_skip :: "int option"
  pl_take :: "int option"
  pl_data_skip :: "int option"
  pl_data_take :: "int option"

definition is_file_entry :: "fm_item \<Rightarrow> bool" where
  "is_file_entry i =
     (case it_is_file i of Some v \<Rightarrow> v | None \<Rightarrow> it_type i \<noteq> Some ''folder'')"

definition named_item :: "string \<Rightarrow> fm_item" where
  "named_item name = \<lparr>it_name = Some name, it_is_file = None, it_type = None\<rparr>"

definition data_items :: "fm_payload \<Rightarrow> fm_item list" where
  "data_items pl = (if pl_data pl \<noteq> [] then pl_data pl else map named_item (pl_names pl))"

definition or_opt :: "'a option \<Rightarrow> 'a option \<Rightarrow> 'a option" where
  "or_opt x y = (if x = None then y else x)"

definition extract_paging :: "fm_payload \<Rightarrow> nat \<times> nat" where
  "extract_paging pl =
     (let skip = max (get_or 0 (or_opt (pl_skip pl) (pl_data_skip pl))) 0;
          n = get_or 1000 (or_opt (pl_take pl) (pl_data_take pl));
          n = (if n \<le> 0 then 1000 else n);
          n = (if n > 5000 then 5000 else n)
      in (nat skip, nat n))"

datatype fm_reply =
    Files "fm_entry list"
  | Listing fm_entry "fm_entry list" nat bool
  | Details "fm_entry list"
  | BackgroundDelete nat string "(string \<times> bool) list"

section \<open>Reading a directory\<close>

definition folder_exists :: "'s bucket_api \<Rightarrow> 's \<Rightarrow> string \<Rightarrow> bool" where
  "folder_exists api b p =
     (get_blob_metadata api b p \<noteq> None \<or> list_ex (\<lambda>name. name \<noteq> p) (list_prefix api b p (Some 2)))"

text \<open>The loops over one listing page; the last component is \<open>has_more\<close>.\<close>

fun scan_folders ::
  "nat \<Rightarrow> nat \<Rightarrow> string \<Rightarrow> string list \<Rightarrow> fm_entry list \<Rightarrow> nat \<Rightarrow> fm_entry list \<times> nat \<times> bool" where
  "scan_folders skip needed dir [] entries seen = (entries, seen, False)"
| "scan_folders skip needed dir (p # ps) entries seen =
     (if seen \<ge> needed then (entries, seen, True)
      else scan_folders skip needed dir ps
        (if seen \<ge> skip then entries @ [build_directory_metadata p dir True] else entries) (seen + 1))"

fun scan_files ::
  "nat \<Rightarrow> nat \<Rightarrow> string \<Rightarrow> blob_meta list \<Rightarrow> fm_entry list \<Rightarrow> nat \<Rightarrow> fm_entry list \<times> nat \<times> bool" where
  "scan_files skip needed dir [] entries seen = (entries, seen, False)"
| "scan_files skip needed dir (m # ms) entries seen =
     (if bm_name m = dir \<or> ends_with_slash (bm_name m) then scan_files skip needed dir ms entries seen
      else if seen \<ge> needed then (entries, seen, True)
      else scan_files skip needed dir ms
        (if seen \<ge> skip then entries @ [build_file_metadata m dir] else entries) (seen + 1))"

fun scan_pages ::
  "nat \<Rightarrow> nat \<Rightarrow> string \<Rightarrow> (string list \<times> blob_meta list) list \<Rightarrow> fm_entry list \<Rightarrow> nat
    \<Rightarrow> fm_entry list \<times> nat \<times> bool" where
  "scan_pages skip needed dir [] entries seen = (entries, seen, False)"
| "scan_pages skip needed dir ((dirs, metas) # pages) entries seen =
     (case scan_folders skip needed dir dirs entries seen of (entries, seen, has_more) \<Rightarrow>
        if has_more then (entries, seen, True)
        else case scan_files skip needed dir metas entries seen of (entries, seen, has_more) \<Rightarrow>
          if has_more then (entries, seen, True)
          else scan_pages skip needed dir pages entries seen)"

definition iter_pages :: "'s bucket_api \<Rightarrow> 's \<Rightarrow> string \<Rightarrow> nat \<Rightarrow> (string list \<times> blob_meta list) list" where
  "iter_pages api b dir max_results =
     map (\<lambda>(dirs, names). (dirs,
       map (\<lambda>n. \<lparr>bm_name = n, bm_size = length (get_or [] (head_object api b n))\<rparr>) names))
     (list_pages api b dir max_results)"

definition get_directory_page ::
  "'s bucket_api \<Rightarrow> 's \<Rightarrow> string \<Rightarrow> nat \<Rightarrow> nat \<Rightarrow> fm_entry list \<times> nat \<times> bool" where
  "get_directory_page api b dir skip take_n =
     (case scan_pages skip (skip + take_n) dir (iter_pages api b dir (max (skip + take_n + 1) 1)) [] 0 of
        (entries, seen, has_more) \<Rightarrow> (entries, if has_more then skip + length entries + 1 else seen, has_more))"

definition read_action :: "'s bucket_api \<Rightarrow> 's \<Rightarrow> fm_payload \<Rightarrow> ('s, fm_reply) stored" where
  "read_action api b pl =
     (let dir = normalize_directory_path (pl_path pl);
          (skip, take_n) = extract_paging pl;
          (files, total_count, has_more) = get_directory_page api b dir skip take_n
      in (b, Inr (Listing (build_cwd_metadata dir (total_count > 0)) files total_count has_more)))"

section \<open>Creating folders\<close>

definition candidate_names :: "fm_payload \<Rightarrow> storage_error + string list" where
  "candidate_names pl =
     (if truthy (pl_name pl) then Inr [the (pl_name pl)]
      else if pl_data pl = [] then Inl BadRequest
      else let names = concat (map (\<lambda>i. if truthy (it_name i) \<and> CHR ''/'' \<notin> set (the (it_name i))
                 \<and> CHR 0x5C \<notin> set (the (it_name i)) then [the (it_name i)] else []) (pl_data pl))
           in if names = [] then Inl BadRequest else Inr names)"

text \<open>The first occurrence of each name, in order.\<close>

definition unique_names :: "string list \<Rightarrow> string list" where
  "unique_names names = foldl (\<lambda>seen n. if n \<in> set seen then seen else seen @ [n]) [] names"

fun create_folders :: "'s bucket_api \<Rightarrow> 's \<Rightarrow> string \<Rightarrow> string list \<Rightarrow> ('s, fm_entry list) stored" where
  "create_folders api b dir [] = (b, Inr [])"
| "create_folders api b dir (raw_name # rest) =
     (case validate_entry_name (Some raw_name) of
        Inl e \<Rightarrow> (b, Inl e)
      | Inr name \<Rightarrow>
          let folder_prefix = dir @ name @ ''/''
          in if get_blob_metadata api b (dir @ name) \<noteq> None then (b, Inl BadRequest)
             else if folder_exists api b folder_prefix
             then and_then (create_folders api b dir rest) (\<lambda>b es.
               (b, Inr (build_directory_metadata folder_prefix dir True # es)))
             else let b = (if get_blob_metadata api b folder_prefix = None
                           then put_object api b folder_prefix [] else b)
                  in and_then (create_folders api b dir rest) (\<lambda>b es.
                    (b, Inr (build_directory_metadata folder_prefix dir False # es))))"

definition create_action :: "'s bucket_api \<Rightarrow> 's \<Rightarrow> fm_payload \<Rightarrow> ('s, fm_reply) stored" where
  "create_action api b pl =
     (case candidate_names pl of
        Inl e \<Rightarrow> (b, Inl e)
      | Inr names \<Rightarrow>
          and_then (create_folders api b (normalize_directory_path (pl_path pl)) (unique_names names))
            (\<lambda>b es. (b, Inr (Files es))))"

section \<open>Deleting\<close>

text \<open>\<open>names\<close> is also the set of the names seen. With a limit the collection stops when it is reached.\<close>

definition reached :: "nat option \<Rightarrow> string list \<Rightarrow> bool" where
  "reached lim_n names = (case lim_n of None \<Rightarrow> False | Some n \<Rightarrow> length names \<ge> n)"

fun add_names :: "nat option \<Rightarrow> string list \<Rightarrow> string list \<Rightarrow> string list \<times> bool" where
  "add_names lim_n names [] = (names, False)"
| "add_names lim_n names (x # xs) =
     (if x \<in> set names then add_names lim_n names xs
      else if reached lim_n (names @ [x]) then (names @ [x], True)
      else add_names lim_n (names @ [x]) xs)"

fun collect_names ::
  "'s bucket_api \<Rightarrow> 's \<Rightarrow> string \<Rightarrow> (string \<times> bool) list \<Rightarrow> nat option \<Rightarrow> string list \<Rightarrow> string list \<times> bool" where
  "collect_names api b dir [] lim_n names = (names, False)"
| "collect_names api b dir ((name, is_file) # items) lim_n names =
     (let (names, truncated) =
            (if is_file
             then (if dir @ name \<in> set names then (names, False) else (names @ [dir @ name], False))
             else add_names lim_n names (list_prefix api b (dir @ name @ ''/'') None))
      in if truncated \<or> reached lim_n names then (names, True)
         else collect_names api b dir items lim_n names)"

definition collect_blob_names ::
  "'s bucket_api \<Rightarrow> 's \<Rightarrow> string \<Rightarrow> (string \<times> bool) list \<Rightarrow> nat option \<Rightarrow> string list \<times> bool" where
  "collect_blob_names api b dir items lim_n = collect_names api b dir items lim_n []"

function chunked :: "'a list \<Rightarrow> nat \<Rightarrow> 'a list list" where
  "chunked items n = (if items = [] \<or> n = 0 then [] else take n items # chunked (drop n items) n)"
  by pat_completeness auto
termination by (relation "measure (\<lambda>(items, n). length items)") auto

declare chunked.simps [simp del]

definition BATCH_DELETE_CHUNK_SIZE :: nat where "BATCH_DELETE_CHUNK_SIZE = 1000"

definition BATCH_DELETE_BACKGROUND_THRESHOLD :: nat where "BATCH_DELETE_BACKGROUND_THRESHOLD = 1000"

definition delete_blobs_in_batches :: "'s bucket_api \<Rightarrow> 's \<Rightarrow> string list \<Rightarrow> 's" where
  "delete_blobs_in_batches api b names =
     (if names = [] then b else foldl (delete_batch api) b (chunked names BATCH_DELETE_CHUNK_SIZE))"

definition schedule_background_delete :: "'s bucket_api \<Rightarrow> 's \<Rightarrow> string \<Rightarrow> (string \<times> bool) list \<Rightarrow> 's" where
  "schedule_background_delete api b dir items =
     delete_blobs_in_batches api b (fst (collect_blob_names api b dir items None))"

text \<open>The endpoint always gives \<open>delete_action\<close> a way to add a background task.\<close>

definition delete_action :: "'s bucket_api \<Rightarrow> 's \<Rightarrow> fm_payload \<Rightarrow> ('s, fm_reply) stored" where
  "delete_action api b pl =
     (let dir = normalize_directory_path (pl_path pl)
      in if data_items pl = [] then (b, Inl BadRequest)
         else case map_err (\<lambda>i. map_sum id (\<lambda>name. (name, is_file_entry i)) (validate_entry_name (it_name i)))
                (data_items pl) of
           Inl e \<Rightarrow> (b, Inl e)
         | Inr items \<Rightarrow>
             let (preview, truncated) =
                   collect_blob_names api b dir items (Some (BATCH_DELETE_BACKGROUND_THRESHOLD + 1))
             in if truncated \<or> length preview > BATCH_DELETE_BACKGROUND_THRESHOLD
                then (b, Inr (BackgroundDelete
                  (if truncated then BATCH_DELETE_BACKGROUND_THRESHOLD + 1 else length preview) dir items))
                else (delete_blobs_in_batches api b (fst (collect_blob_names api b dir items None)), Inr (Files [])))"

section \<open>Moving and renaming\<close>

fun rename_all :: "'s bucket_api \<Rightarrow> 's \<Rightarrow> string \<Rightarrow> string \<Rightarrow> string list \<Rightarrow> ('s, unit) stored" where
  "rename_all api b source destination [] = (b, Inr ())"
| "rename_all api b source destination (name # names) =
     and_then (rename_blob api b name (destination @ drop (length source) name))
       (\<lambda>b _. rename_all api b source destination names)"

definition move_prefix :: "'s bucket_api \<Rightarrow> 's \<Rightarrow> string \<Rightarrow> string \<Rightarrow> ('s, unit) stored" where
  "move_prefix api b source destination =
     rename_all api b source destination (list_prefix api b source None)"

definition move_item :: "'s bucket_api \<Rightarrow> 's \<Rightarrow> string \<Rightarrow> string \<Rightarrow> fm_item \<Rightarrow> ('s, fm_entry) stored" where
  "move_item api b source_dir target_dir item =
     (case validate_entry_name (it_name item) of
        Inl e \<Rightarrow> (b, Inl e)
      | Inr name \<Rightarrow>
          if is_file_entry item then
            let source_key = source_dir @ name; destination_key = target_dir @ name
            in if source_key = destination_key then
                 (case get_blob_metadata api b source_key of
                    None \<Rightarrow> (b, Inl BlobNotFound)
                  | Some m \<Rightarrow> (b, Inr (build_file_metadata m target_dir)))
               else if get_blob_metadata api b destination_key \<noteq> None then (b, Inl BadRequest)
               else and_then (rename_blob api b source_key destination_key) (\<lambda>b _.
                 case get_blob_metadata api b destination_key of
                   None \<Rightarrow> (b, Inl BlobNotFound)
                 | Some m \<Rightarrow> (b, Inr (build_file_metadata m target_dir)))
          else
            let source = source_dir @ name @ ''/''; destination = target_dir @ name @ ''/''
            in if source = destination then (b, Inr (build_directory_metadata destination target_dir True))
               else if prefix source destination then (b, Inl BadRequest)
               else if folder_exists api b destination then (b, Inl BadRequest)
               else and_then (move_prefix api b source destination) (\<lambda>b _.
                 (b, Inr (build_directory_metadata destination target_dir True))))"

fun move_items :: "'s bucket_api \<Rightarrow> 's \<Rightarrow> string \<Rightarrow> string \<Rightarrow> fm_item list \<Rightarrow> ('s, fm_entry list) stored" where
  "move_items api b source_dir target_dir [] = (b, Inr [])"
| "move_items api b source_dir target_dir (i # is) =
     and_then (move_item api b source_dir target_dir i) (\<lambda>b e.
       and_then (move_items api b source_dir target_dir is) (\<lambda>b es. (b, Inr (e # es))))"

definition move_action :: "'s bucket_api \<Rightarrow> 's \<Rightarrow> fm_payload \<Rightarrow> ('s, fm_reply) stored" where
  "move_action api b pl =
     (if pl_target_path pl = None then (b, Inl BadRequest)
      else if data_items pl = [] then (b, Inl BadRequest)
      else and_then (move_items api b (normalize_directory_path (pl_path pl))
             (normalize_directory_path (pl_target_path pl)) (data_items pl)) (\<lambda>b es. (b, Inr (Files es))))"

definition rename_action :: "'s bucket_api \<Rightarrow> 's \<Rightarrow> fm_payload \<Rightarrow> ('s, fm_reply) stored" where
  "rename_action api b pl =
     (let dir = normalize_directory_path (pl_path pl)
      in if pl_data pl = [] then (b, Inl BadRequest)
         else let item = hd (pl_data pl)
         in case (validate_entry_name (it_name item), validate_entry_name (pl_new_name pl)) of
           (Inl e, _) \<Rightarrow> (b, Inl e)
         | (Inr _, Inl e) \<Rightarrow> (b, Inl e)
         | (Inr current_name, Inr new_name) \<Rightarrow>
             if current_name = new_name then (b, Inl BadRequest)
             else if is_file_entry item then
               and_then (rename_blob api b (dir @ current_name) (dir @ new_name)) (\<lambda>b _.
                 case get_blob_metadata api b (dir @ new_name) of
                   None \<Rightarrow> (b, Inl BlobNotFound)
                 | Some m \<Rightarrow> (b, Inr (Files [build_file_metadata m dir])))
             else let source = dir @ current_name @ ''/''; destination = dir @ new_name @ ''/''
             in if folder_exists api b destination then (b, Inl BadRequest)
                else and_then (move_prefix api b source destination) (\<lambda>b _.
                  (b, Inr (Files [build_directory_metadata destination dir True]))))"

section \<open>Details and the endpoint\<close>

definition detail_names :: "fm_payload \<Rightarrow> storage_error + string list" where
  "detail_names pl =
     bind_err (map_err (\<lambda>i. validate_entry_name (it_name i)) (filter (\<lambda>i. truthy (it_name i)) (pl_data pl)))
       (\<lambda>names. Inr (names @ concat (map (\<lambda>n. case validate_entry_name (Some n) of Inl _ \<Rightarrow> [] | Inr m \<Rightarrow> [m])
          (pl_names pl))))"

definition details_action :: "'s bucket_api \<Rightarrow> 's \<Rightarrow> fm_payload \<Rightarrow> ('s, fm_reply) stored" where
  "details_action api b pl =
     (let dir = normalize_directory_path (pl_path pl)
      in case detail_names pl of
           Inl e \<Rightarrow> (b, Inl e)
         | Inr names \<Rightarrow> (b, Inr (Details (concat (map (\<lambda>name.
             case get_blob_metadata api b (dir @ name) of
               Some m \<Rightarrow> [build_file_metadata m dir]
             | None \<Rightarrow> if folder_exists api b (dir @ name @ ''/'')
                 then [build_directory_metadata (dir @ name @ ''/'') dir True] else []) names)))))"

datatype fm_response = Answer fm_reply | ErrorResponse int

definition filemanager_endpoint :: "'s bucket_api \<Rightarrow> 's \<Rightarrow> fm_payload \<Rightarrow> 's \<times> fm_response" where
  "filemanager_endpoint api b pl =
     (let action = map lower_char (get_or [] (pl_action pl));
          (b, r) = (if action = ''read'' then read_action api b pl
            else if action = ''create'' then create_action api b pl
            else if action = ''delete'' then delete_action api b pl
            else if action = ''move'' then move_action api b pl
            else if action = ''rename'' then rename_action api b pl
            else if action = ''details'' then details_action api b pl
            else (b, Inl BadRequest))
      in (b, case r of Inr x \<Rightarrow> Answer x | Inl BlobNotFound \<Rightarrow> ErrorResponse 404 | Inl BadRequest \<Rightarrow> ErrorResponse 400))"

end
