(* ===== verification/Storage_Transfers.thy ===== *)
theory Storage_Transfers
  imports Shared_Files
begin

text \<open>
  Uploads and downloads of the shared bucket, the second half of \<open>endpoints/storage.py\<close>: the chunked
  upload over a cloud's multipart calls (a parameter, like the object API), the tickets of a download and
  the archive it streams, as the list of its entries. Tokens and the clock are arguments, a
  \<open>Content-Range\<close> arrives parsed, and a request's field that is not a string counts as absent.
\<close>

section \<open>Chunked uploads\<close>

text \<open>\<open>part_body\<close> is what the cloud holds of an upload, by part number and tag.\<close>

record 's multipart_api =
  start_multipart :: "'s \<Rightarrow> string \<Rightarrow> 's \<times> string"
  upload_part :: "'s \<Rightarrow> string \<Rightarrow> string \<Rightarrow> nat \<Rightarrow> string \<Rightarrow> 's \<times> string"
  complete_multipart :: "'s \<Rightarrow> string \<Rightarrow> string \<Rightarrow> (nat \<times> string) list \<Rightarrow> 's"
  part_body :: "'s \<Rightarrow> string \<Rightarrow> nat \<times> string \<Rightarrow> string option"

definition multipart_laws :: "'s bucket_api \<Rightarrow> 's multipart_api \<Rightarrow> bool" where
  "multipart_laws api mp \<longleftrightarrow>
     (\<forall>b name u n body. let (b', tag) = upload_part mp b name u n body
        in part_body mp b' u (n, tag) = Some body
          \<and> (\<forall>p. fst p \<noteq> n \<longrightarrow> part_body mp b' u p = part_body mp b u p)
          \<and> head_object api b' = head_object api b)
     \<and> (\<forall>b name u parts k. (\<forall>p \<in> set parts. part_body mp b u p \<noteq> None) \<longrightarrow>
          head_object api (complete_multipart mp b name u parts) k =
            (if k = name then Some (concat (map (\<lambda>p. the (part_body mp b u p)) parts)) else head_object api b k))
     \<and> (\<forall>b name. head_object api (fst (start_multipart mp b name)) = head_object api b)"

definition S3_UPLOAD_SESSION_TTL_SECONDS :: real where "S3_UPLOAD_SESSION_TTL_SECONDS = 24 * 3600"

record upload_session =
  up_object_name :: string
  up_upload_id :: string
  up_parts :: "(nat \<times> string) list"
  up_bytes_received :: int
  up_expires_at :: real

definition prune_expired_upload_sessions :: "real \<Rightarrow> upload_session dict \<Rightarrow> upload_session dict" where
  "prune_expired_upload_sessions now sessions = filter (\<lambda>(t, s). \<not> up_expires_at s \<le> now) sessions"

definition start_s3_upload_session ::
  "'s multipart_api \<Rightarrow> real \<Rightarrow> string \<Rightarrow> string \<Rightarrow> 's \<times> upload_session dict \<Rightarrow> 's \<times> upload_session dict" where
  "start_s3_upload_session mp now token object_name st =
     (case start_multipart mp (fst st) object_name of (b, upload_id) \<Rightarrow>
        (b, dset token \<lparr>up_object_name = object_name, up_upload_id = upload_id, up_parts = [],
              up_bytes_received = 0, up_expires_at = now + S3_UPLOAD_SESSION_TTL_SECONDS\<rparr>
            (prune_expired_upload_sessions now (snd st))))"

text \<open>The status of the answer, and the last byte its \<open>Range\<close> header confirms.\<close>

datatype chunk_reply = Done | Resume int | BadRange | UnknownSession

definition s3_upload_chunk ::
  "'s multipart_api \<Rightarrow> string \<Rightarrow> (int \<times> int \<times> int) option \<Rightarrow> string \<Rightarrow> 's \<times> upload_session dict
    \<Rightarrow> ('s \<times> upload_session dict) \<times> chunk_reply" where
  "s3_upload_chunk mp token content_range body st =
     (case map_of (snd st) token of
        None \<Rightarrow> (st, UnknownSession)
      | Some session \<Rightarrow>
          (case content_range of
             None \<Rightarrow> (st, BadRange)
           | Some (start, end_byte, tot) \<Rightarrow>
               let part_number = length (up_parts session) + 1;
                   (b, tag) = upload_part mp (fst st) (up_object_name session) (up_upload_id session) part_number body;
                   session = session\<lparr>up_parts := up_parts session @ [(part_number, tag)],
                                     up_bytes_received := end_byte + 1\<rparr>
               in if end_byte + 1 \<ge> tot
                  then ((complete_multipart mp b (up_object_name session) (up_upload_id session) (up_parts session),
                         ddel token (snd st)), Done)
                  else ((b, dset token session (snd st)), Resume end_byte)))"

section \<open>Names in requests\<close>

fun drop_trailing :: "char \<Rightarrow> string \<Rightarrow> string" where
  "drop_trailing c s = rev (dropWhile (\<lambda>x. x = c) (rev s))"

definition drop_leading :: "char \<Rightarrow> string \<Rightarrow> string" where
  "drop_leading c s = dropWhile (\<lambda>x. x = c) s"

text \<open>The segments of a path that count; None if one of them leads up.\<close>

definition safe_segments :: "string \<Rightarrow> string list option" where
  "safe_segments path =
     (let segments = filter (\<lambda>s. s \<noteq> [] \<and> s \<noteq> ''.'') (split_on CHR ''/'' path)
      in if ''..'' \<in> set segments \<or> segments = [] then None else Some segments)"

definition sanitize_object_name :: "string \<Rightarrow> int + string" where
  "sanitize_object_name raw_name =
     (let normalized = drop_leading CHR ''/'' raw_name
      in if ends_with_slash normalized then Inl 400
         else case safe_segments normalized of None \<Rightarrow> Inl 400 | Some ss \<Rightarrow> Inr (join_strings ''/'' ss))"

text \<open>\<open>Path(s).name\<close> is the last part, not counting empty ones and dots.\<close>

definition path_name :: "string \<Rightarrow> string" where
  "path_name s =
     (let parts = filter (\<lambda>s. s \<noteq> [] \<and> s \<noteq> ''.'') (split_on CHR ''/'' s)
      in if parts = [] then [] else last parts)"

definition sanitize_archive_filename :: "string option \<Rightarrow> string" where
  "sanitize_archive_filename raw_name =
     (let candidate = strip_spaces (get_or [] raw_name);
          candidate = (if candidate = [] then ''files.zip'' else candidate);
          sanitized = (if path_name candidate = [] then ''files.zip'' else path_name candidate);
          sanitized = (if suffix ''.zip'' (map lower_char sanitized) then sanitized else sanitized @ ''.zip'')
      in filter (\<lambda>c. c \<noteq> CHR 0x22 \<and> c \<noteq> CHR 0x27) sanitized)"

definition sanitize_archive_item_path :: "string option \<Rightarrow> string \<Rightarrow> int + string" where
  "sanitize_archive_item_path raw_path fallback =
     (let candidate = strip_spaces (get_or [] raw_path);
          selected = (if candidate \<noteq> [] then candidate else fallback)
      in case safe_segments (backslashes selected) of
           None \<Rightarrow> Inl 400 | Some ss \<Rightarrow> Inr (join_strings ''/'' ss))"

definition sanitize_folder_prefix :: "string option \<Rightarrow> int + string" where
  "sanitize_folder_prefix raw_prefix =
     (case raw_prefix of
        None \<Rightarrow> Inl 400
      | Some p \<Rightarrow> (case safe_segments (backslashes (strip_spaces p)) of
          None \<Rightarrow> Inl 400 | Some ss \<Rightarrow> Inr (join_strings ''/'' ss @ ''/'')))"

section \<open>What a download asks for\<close>

record download_item =
  di_type :: "string option"
  di_prefix :: "string option"
  di_archive_path :: "string option"
  di_name :: "string option"
  di_object_name :: "string option"

type_synonym file_request = "string \<times> string"
type_synonym folder_request = "string \<times> string"

text \<open>The requests so far stand for the sets of names seen: an object and the path it gets, a prefix and its root.\<close>

definition parse_item ::
  "file_request list \<times> folder_request list \<Rightarrow> download_item \<Rightarrow> int + file_request list \<times> folder_request list" where
  "parse_item acc i =
     (case acc of (files, folders) \<Rightarrow>
        if di_type i = Some ''folder'' then
          let root_name = map_option strip_spaces (if truthy (di_archive_path i) then di_archive_path i else di_name i)
          in case sanitize_folder_prefix (di_prefix i) of
               Inl e \<Rightarrow> Inl e
             | Inr p \<Rightarrow>
                 if p \<in> fst ` set folders then Inr acc
                 else (case validate_entry_name root_name of
                    Inl _ \<Rightarrow> Inl 400
                  | Inr r \<Rightarrow> Inr (files, folders @ [(p, r)]))
        else case di_object_name i of
               None \<Rightarrow> Inr acc
             | Some object_name \<Rightarrow>
                 (case sanitize_object_name object_name of
                    Inl e \<Rightarrow> Inl e
                  | Inr name \<Rightarrow>
                      if name \<in> fst ` set files then Inr acc
                      else (case sanitize_archive_item_path (di_archive_path i) name of
                         Inl e \<Rightarrow> Inl e
                       | Inr path \<Rightarrow> Inr (files @ [(name, path)], folders))))"

definition parse_batch_download_payload ::
  "download_item list \<Rightarrow> string option \<Rightarrow> int + file_request list \<times> folder_request list \<times> string" where
  "parse_batch_download_payload items archive_name =
     (if items = [] then Inl 400
      else bind_err (fold_err parse_item ([], []) items) (\<lambda>(files, folders).
        if files = [] \<and> folders = [] then Inl 400
        else Inr (files, folders, sanitize_archive_filename archive_name)))"

section \<open>The archive\<close>

text \<open>The entries written, names with their bytes: their names are \<open>written_entries\<close>.\<close>

type_synonym archive = "(string \<times> string) list"

definition archive_path_for :: "string \<Rightarrow> string \<Rightarrow> string" where
  "archive_path_for root_name relative_path =
     (if root_name = [] then relative_path else if relative_path = [] then root_name else root_name @ ''/'' @ relative_path)"

definition ensure_directory_entry :: "archive \<Rightarrow> string \<Rightarrow> archive" where
  "ensure_directory_entry a path =
     (let normalized = drop_trailing CHR ''/'' (drop_leading CHR ''/'' path)
      in if normalized = [] \<or> normalized @ ''/'' \<in> set (dkeys a) then a else a @ [(normalized @ ''/'', [])])"

fun add_hierarchy :: "string \<Rightarrow> archive \<Rightarrow> string list \<Rightarrow> string list \<Rightarrow> archive" where
  "add_hierarchy root_name a accumulated [] = a"
| "add_hierarchy root_name a accumulated (s # ss) =
     add_hierarchy root_name (ensure_directory_entry a (archive_path_for root_name (join_strings ''/'' (accumulated @ [s]))))
       (accumulated @ [s]) ss"

definition ensure_directory_hierarchy :: "archive \<Rightarrow> string \<Rightarrow> string \<Rightarrow> archive" where
  "ensure_directory_hierarchy a root_name directory_path =
     (let segments = filter (\<lambda>s. s \<noteq> []) (split_on CHR ''/'' directory_path)
      in if segments = [] then ensure_directory_entry a root_name else add_hierarchy root_name a [] segments)"

definition ensure_parent_directories :: "archive \<Rightarrow> string \<Rightarrow> string \<Rightarrow> archive" where
  "ensure_parent_directories a root_name relative_file_path =
     (let parents = butlast (split_on CHR ''/'' relative_file_path)
      in if parents = [] then a else ensure_directory_hierarchy a root_name (join_strings ''/'' parents))"

definition archive_file :: "'s bucket_api \<Rightarrow> 's \<Rightarrow> archive \<Rightarrow> file_request \<Rightarrow> int + archive" where
  "archive_file api b a r =
     (if get_blob_metadata api b (fst r) = None then Inl 404
      else if snd r \<in> set (dkeys a) then Inr a
      else Inr (ensure_parent_directories a [] (snd r) @ [(snd r, the (head_object api b (fst r)))]))"

definition archive_member :: "'s bucket_api \<Rightarrow> 's \<Rightarrow> folder_request \<Rightarrow> archive \<Rightarrow> string \<Rightarrow> int + archive" where
  "archive_member api b r a name =
     (let relative_path = drop (length (fst r)) name
      in if name = fst r \<or> relative_path = [] then Inr a
         else bind_err (sanitize_archive_item_path (Some relative_path) relative_path) (\<lambda>relative.
           let path = archive_path_for (snd r) relative
           in if path \<in> set (dkeys a) then Inr a
              else case head_object api b name of
                None \<Rightarrow> Inl 404
              | Some data \<Rightarrow> Inr (ensure_parent_directories a (snd r) relative @ [(path, data)])))"

definition archive_folder :: "'s bucket_api \<Rightarrow> 's \<Rightarrow> archive \<Rightarrow> folder_request \<Rightarrow> int + archive" where
  "archive_folder api b a r =
     fold_err (archive_member api b r) (ensure_directory_entry a (snd r)) (list_prefix api b (fst r) None)"

text \<open>
  The thread that writes. The entry of an empty folder is there already when the code asks for it again.
\<close>

definition write_archive ::
  "'s bucket_api \<Rightarrow> 's \<Rightarrow> file_request list \<Rightarrow> folder_request list \<Rightarrow> int + archive" where
  "write_archive api b files folders =
     bind_err (fold_err (archive_file api b) [] files) (\<lambda>a. fold_err (archive_folder api b) a folders)"

section \<open>Tickets\<close>

definition BATCH_DOWNLOAD_TOKEN_TTL_SECONDS :: real where "BATCH_DOWNLOAD_TOKEN_TTL_SECONDS = 300"

record ticket =
  ti_files :: "file_request list"
  ti_folders :: "folder_request list"
  ti_archive_name :: string
  ti_expires_at :: real

definition prune_expired_batch_download_tokens :: "real \<Rightarrow> ticket dict \<Rightarrow> ticket dict" where
  "prune_expired_batch_download_tokens now tokens = filter (\<lambda>(t, e). \<not> ti_expires_at e \<le> now) tokens"

definition create_batch_download_ticket ::
  "real \<Rightarrow> string \<Rightarrow> download_item list \<Rightarrow> string option \<Rightarrow> ticket dict \<Rightarrow> ticket dict \<times> (int + string)" where
  "create_batch_download_ticket now token items archive_name tokens =
     (case parse_batch_download_payload items archive_name of
        Inl e \<Rightarrow> (tokens, Inl e)
      | Inr (files, folders, name) \<Rightarrow>
          (dset token \<lparr>ti_files = files, ti_folders = folders, ti_archive_name = name,
                       ti_expires_at = now + BATCH_DOWNLOAD_TOKEN_TTL_SECONDS\<rparr>
             (prune_expired_batch_download_tokens now tokens), Inr (''/batch-download/'' @ token)))"

definition batch_download_by_ticket ::
  "'s bucket_api \<Rightarrow> 's \<Rightarrow> real \<Rightarrow> string \<Rightarrow> ticket dict \<Rightarrow> ticket dict \<times> (int + archive)" where
  "batch_download_by_ticket api b now token tokens =
     (let tokens = prune_expired_batch_download_tokens now tokens
      in case map_of tokens token of
           None \<Rightarrow> (tokens, Inl 404)
         | Some t \<Rightarrow> (ddel token tokens, write_archive api b (ti_files t) (ti_folders t)))"

end
