(* ===== verification/Storage_Claims.thy ===== *)
theory Storage_Claims
  imports Shared_Files "HOL-Library.Multiset"
begin

text \<open>
  What the file manager does to the shared bucket: paths are normal forms of plain names, a listing is a
  window of the directory, deletions remove what was named and nothing else, and no other action but
  the renaming of a file loses a file.
\<close>

section \<open>Paths\<close>

definition plain_name :: "string \<Rightarrow> bool" where
  "plain_name s \<longleftrightarrow> s \<noteq> [] \<and> s \<noteq> ''.'' \<and> s \<noteq> ''..'' \<and> CHR ''/'' \<notin> set s \<and> CHR 0x5C \<notin> set s"

definition path_names :: "string option \<Rightarrow> string list" where
  "path_names p = (if truthy p then foldl path_segment [] (split_on CHR ''/'' (backslashes (the p))) else [])"

lemma normalize_path_names: "normalize_directory_path p = directory_of (path_names p)"
  by (simp add: normalize_directory_path_def path_names_def directory_of_def)

lemma split_on_ne [simp]: "split_on c s \<noteq> []"
  by (cases s) auto

lemma split_on_no_sep: "x \<in> set (split_on c s) \<Longrightarrow> c \<notin> set x \<and> set x \<subseteq> set s"
proof (induction s arbitrary: x)
  case (Cons a s)
  have "hd (split_on c s) \<in> set (split_on c s)" by simp
  then have h: "c \<notin> set (hd (split_on c s)) \<and> set (hd (split_on c s)) \<subseteq> set s" by (rule Cons.IH)
  have t: "c \<notin> set y \<and> set y \<subseteq> set s" if "y \<in> set (tl (split_on c s))" for y
    using that Cons.IH by (metis list.set_sel(2) split_on_ne)
  have "x = [] \<or> x \<in> set (split_on c s) \<or> a \<noteq> c \<and> x = a # hd (split_on c s) \<or> x \<in> set (tl (split_on c s))"
    using Cons.prems by (auto split: if_splits)
  then show ?case
  proof (elim disjE conjE)
    assume "a \<noteq> c" "x = a # hd (split_on c s)"
    then show ?thesis using h by auto
  qed (use Cons.IH [of x] t [of x] in auto)
qed simp

lemma backslashes_none: "CHR 0x5C \<notin> set (backslashes s)"
  by (auto simp: backslashes_def)

lemma path_segments_plain:
  "(\<And>s. s \<in> set ss \<Longrightarrow> CHR ''/'' \<notin> set s \<and> CHR 0x5C \<notin> set s) \<Longrightarrow> list_all plain_name acc \<Longrightarrow>
     list_all plain_name (foldl path_segment acc ss)"
proof (induction ss arbitrary: acc)
  case (Cons s ss)
  have "list_all plain_name (path_segment acc s)"
    using Cons.prems by (auto simp: path_segment_def plain_name_def list_all_iff dest: in_set_butlastD)
  then show ?case using Cons by simp
qed simp

lemma path_names_plain: "list_all plain_name (path_names p)"
  unfolding path_names_def
proof (auto intro!: path_segments_plain)
  fix s c assume s: "s \<in> set (split_on CHR ''/'' (backslashes (the p)))"
  show "CHR ''/'' \<in> set s \<Longrightarrow> False" "CHR 0x5C \<in> set s \<Longrightarrow> False"
    using split_on_no_sep [OF s] backslashes_none [of "the p"] by auto
qed

lemma split_on_sep: "c \<notin> set x \<Longrightarrow> split_on c (x @ c # s) = x # split_on c s"
  by (induction x) auto

lemma split_directory:
  "list_all plain_name ns \<Longrightarrow> split_on CHR ''/'' (directory_of ns) = ns @ [[]]"
proof (induction ns rule: join_strings.induct [of "\<lambda>_ ns. _ ns" "''/''"])
  case (3 n m ns)
  then show ?case by (auto simp: directory_of_def plain_name_def split_on_sep)
qed (auto simp: directory_of_def plain_name_def split_on_sep)

lemma backslashes_directory: "list_all plain_name ns \<Longrightarrow> backslashes (directory_of ns) = directory_of ns"
proof -
  assume "list_all plain_name ns"
  then have "CHR 0x5C \<notin> set (join_strings ''/'' ns)"
    by (induction ns rule: join_strings.induct [of "\<lambda>_ ns. _ ns" "''/''"]) (auto simp: plain_name_def)
  then show ?thesis by (auto simp: directory_of_def backslashes_def intro!: map_idI)
qed

lemma fold_plain: "list_all plain_name ns \<Longrightarrow> foldl path_segment acc (ns @ [[]]) = acc @ ns"
  by (induction ns arbitrary: acc) (auto simp: path_segment_def plain_name_def)

text \<open>
  Every directory the file manager works in is the path of plain names: none is empty, a dot or two
  dots, none has a separator in it, and normalizing it again changes nothing.
\<close>

theorem directory_paths_are_normal:
  "list_all plain_name (path_names p) \<and> normalize_directory_path p = directory_of (path_names p)
   \<and> normalize_directory_path (Some (normalize_directory_path p)) = normalize_directory_path p"
proof -
  note n = path_names_plain [of p]
  have "path_names (Some (directory_of (path_names p))) = path_names p"
  proof (cases "path_names p = []")
    case False
    then have "truthy (Some (directory_of (path_names p)))" by (simp add: directory_of_def)
    then show ?thesis
      using split_directory [OF n] backslashes_directory [OF n] fold_plain [OF n, of "[]"]
      by (simp add: path_names_def [of "Some _"])
  qed (simp add: directory_of_def path_names_def [of "Some _"])
  then show ?thesis using n by (simp add: normalize_path_names)
qed

section \<open>Buckets\<close>

text \<open>The files of a bucket, as a multiset of their bytes, and what the calls do to it.\<close>

definition contents :: "'s bucket_api \<Rightarrow> 's \<Rightarrow> string option multiset" where
  "contents api b = mset (map (head_object api b) (list_objects api b []))"

lemma bucket_simps:
  assumes "bucket_laws api"
  shows "head_object api (put_object api b k d) k' = (if k' = k then Some d else head_object api b k')"
    "head_object api b k \<noteq> None \<Longrightarrow>
       head_object api (copy_object api b k t) k' = (if k' = t then head_object api b k else head_object api b k')"
    "head_object api (delete_object api b k) k' = (if k' = k then None else head_object api b k')"
    "set (list_objects api b p) = {k. prefix p k \<and> head_object api b k \<noteq> None}"
    "distinct (list_objects api b p)"
  using assms unfolding bucket_laws_def by blast+

lemma contents_set:
  assumes "bucket_laws api"
  shows "contents api b = image_mset (head_object api b) (mset_set {k. head_object api b k \<noteq> None})"
    and "finite {k. head_object api b k \<noteq> None}"
proof -
  have s: "{k. head_object api b k \<noteq> None} = set (list_objects api b [])"
    by (simp add: bucket_simps [OF assms])
  show "contents api b = image_mset (head_object api b) (mset_set {k. head_object api b k \<noteq> None})"
    unfolding s contents_def by (simp add: mset_set_set bucket_simps(5) [OF assms])
  show "finite {k. head_object api b k \<noteq> None}" unfolding s by simp
qed

lemma files_put:
  assumes "bucket_laws api" "head_object api b k = None"
  shows "contents api (put_object api b k d) = add_mset (Some d) (contents api b)"
proof -
  let ?D = "{k. head_object api b k \<noteq> None}"
  have "{k'. head_object api (put_object api b k d) k' \<noteq> None} = insert k ?D"
    by (auto simp: bucket_simps [OF assms(1)])
  moreover have "k \<notin> ?D" using assms(2) by simp
  moreover have "image_mset (head_object api (put_object api b k d)) (mset_set ?D) = image_mset (head_object api b) (mset_set ?D)"
    using assms(2) contents_set(2) [OF assms(1), of b] by (intro image_mset_cong) (auto simp: bucket_simps [OF assms(1)])
  ultimately show ?thesis
    using contents_set(2) [OF assms(1), of b] by (simp add: contents_set(1) [OF assms(1)] bucket_simps [OF assms(1)])
qed

lemma rename_blob_ok:
  assumes L: "bucket_laws api" and s: "head_object api b s \<noteq> None" and t: "head_object api b t = None"
  shows "snd (rename_blob api b s t) = Inr ()"
    "head_object api (fst (rename_blob api b s t)) k =
       (if k = t then head_object api b s else if k = s then None else head_object api b k)"
    "contents api (fst (rename_blob api b s t)) = contents api b"
proof -
  let ?b = "fst (rename_blob api b s t)"
  let ?D = "{k. head_object api b k \<noteq> None}"
  have st: "s \<noteq> t" using s t by auto
  show "snd (rename_blob api b s t) = Inr ()" using s by (simp add: rename_blob_def)
  have h: "head_object api ?b k = (if k = t then head_object api b s else if k = s then None else head_object api b k)" for k
    using s st by (auto simp: rename_blob_def bucket_simps(3) [OF L] bucket_simps(2) [OF L s])
  then show "head_object api ?b k = (if k = t then head_object api b s else if k = s then None else head_object api b k)" .
  have D: "{k. head_object api ?b k \<noteq> None} = insert t (?D - {s})" using s st by (auto simp: h)
  have "image_mset (head_object api ?b) (mset_set (?D - {s})) = image_mset (head_object api b) (mset_set (?D - {s}))"
    using t by (intro image_mset_cong) (use contents_set(2) [OF L, of b] in \<open>auto simp: h\<close>)
  moreover have "mset_set ?D = add_mset s (mset_set (?D - {s}))"
    using s contents_set(2) [OF L, of b] by (intro mset_set.remove) auto
  moreover have "mset_set (insert t (?D - {s})) = add_mset t (mset_set (?D - {s}))"
    using t contents_set(2) [OF L, of b] by (intro mset_set.insert) auto
  ultimately show "contents api ?b = contents api b"
    unfolding contents_set(1) [OF L] D by (simp add: h del: not_None_eq)
qed

section \<open>Moving folders\<close>

lemma drop_prefix: "prefix p k \<Longrightarrow> p @ drop (length p) k = k"
  by (auto simp: prefix_def)

lemma rename_all_ok:
  assumes L: "bucket_laws api" and t: "t = (\<lambda>n. destination @ drop (length source) n)"
  shows "distinct names \<Longrightarrow> (\<And>n. n \<in> set names \<Longrightarrow> prefix source n \<and> head_object api b n \<noteq> None \<and> head_object api b (t n) = None) \<Longrightarrow>
     snd (rename_all api b source destination names) = Inr ()
     \<and> contents api (fst (rename_all api b source destination names)) = contents api b
     \<and> (\<forall>n \<in> set names. head_object api (fst (rename_all api b source destination names)) (t n) = head_object api b n)
     \<and> (\<forall>k. k \<notin> t ` set names \<longrightarrow> head_object api (fst (rename_all api b source destination names)) k =
          (if k \<in> set names then None else head_object api b k))"
proof (induction names arbitrary: b)
  case (Cons n names)
  have inj: "n = m" if "t n = t m" "m \<in> set (n # names)" for m
  proof -
    have "drop (length source) n = drop (length source) m" using that(1) by (simp add: t)
    moreover have "prefix source n" "prefix source m" using Cons.prems(2) [of n] Cons.prems(2) [OF that(2)] by simp_all
    ultimately show ?thesis using drop_prefix by metis
  qed
  note n = Cons.prems(2) [of n, simplified]
  note r = rename_blob_ok [OF L, of b n "t n"]
  define b' where "b' = fst (rename_blob api b n (t n))"
  have rb: "rename_blob api b n (t n) = (b', Inr ())" using r(1) n unfolding b'_def by (intro prod_eqI) auto
  have h: "head_object api b' k = (if k = t n then head_object api b n else if k = n then None else head_object api b k)" for k
    using r(2) n unfolding b'_def by auto
  have c: "contents api b' = contents api b" using r(3) n unfolding b'_def by auto
  have e: "rename_all api b source destination (n # names) = rename_all api b' source destination names"
    using rb by (simp add: t)
  have prems: "distinct names" "\<And>m. m \<in> set names \<Longrightarrow> prefix source m \<and> head_object api b' m \<noteq> None \<and> head_object api b' (t m) = None"
  proof -
    show "distinct names" using Cons.prems(1) by simp
    fix m assume m: "m \<in> set names"
    then have "m \<noteq> n" using Cons.prems(1) by auto
    then have "t m \<noteq> t n" using inj [of m] m by auto
    then show "prefix source m \<and> head_object api b' m \<noteq> None \<and> head_object api b' (t m) = None"
      using Cons.prems(2) [of m] m n \<open>m \<noteq> n\<close> by (auto simp: h)
  qed
  note ih = Cons.IH [OF prems]
  have dis: "t n \<notin> t ` set names" using inj Cons.prems(1) by auto
  have notin: "t n \<notin> set names" using n Cons.prems(2) [of "t n"] by auto
  show ?case unfolding e
  proof (intro conjI ballI allI impI)
    fix m assume m: "m \<in> set (n # names)"
    show "head_object api (fst (rename_all api b' source destination names)) (t m) = head_object api b m"
    proof (cases "m = n")
      case True
      then show ?thesis using ih dis notin by (simp add: h)
    next
      case False
      then have "m \<in> set names" "m \<noteq> t n" using m Cons.prems(2) [of m] n by auto
      then show ?thesis using ih False by (simp add: h)
    qed
  next
    fix k assume k: "k \<notin> t ` set (n # names)"
    then show "head_object api (fst (rename_all api b' source destination names)) k =
        (if k \<in> set (n # names) then None else head_object api b k)"
      using ih by (auto simp: h)
  qed (use ih c in simp_all)
qed simp

lemma no_folder:
  assumes L: "bucket_laws api" and f: "\<not> folder_exists api b p" and k: "prefix p k"
  shows "head_object api b k = None"
proof (rule ccontr)
  assume h: "head_object api b k \<noteq> None"
  let ?l = "list_objects api b p"
  have p: "head_object api b p = None" using f by (simp add: folder_exists_def get_blob_metadata_def)
  have k: "k \<in> set ?l" using h k by (simp add: bucket_simps [OF L])
  then obtain x xs where x: "?l = x # xs" by (cases ?l) auto
  then have "x \<in> {k. prefix p k \<and> head_object api b k \<noteq> None}" using bucket_simps(4) [OF L, of b p] by (metis list.set_intros(1))
  then have "x \<noteq> p" using p by auto
  then have "list_ex (\<lambda>name. name \<noteq> p) (take 2 ?l)" using x by (simp add: eval_nat_numeral)
  then show False using f by (simp add: folder_exists_def list_prefix_def)
qed

text \<open>Moving a folder to where nothing is.\<close>

lemma move_prefix_ok:
  assumes L: "bucket_laws api" and d: "\<And>k. prefix destination k \<Longrightarrow> head_object api b k = None"
  shows "snd (move_prefix api b source destination) = Inr ()"
    "contents api (fst (move_prefix api b source destination)) = contents api b"
    "head_object api (fst (move_prefix api b source destination)) (destination @ rel) = head_object api b (source @ rel)"
    "\<not> prefix destination k \<Longrightarrow> head_object api (fst (move_prefix api b source destination)) k =
       (if prefix source k then None else head_object api b k)"
proof -
  let ?names = "list_objects api b source"
  let ?b = "fst (move_prefix api b source destination)"
  have "\<And>n. n \<in> set ?names \<Longrightarrow> prefix source n \<and> head_object api b n \<noteq> None \<and>
      head_object api b (destination @ drop (length source) n) = None"
    using d by (auto simp: bucket_simps [OF L])
  note r = rename_all_ok [OF L refl bucket_simps(5) [OF L] this]
  have m: "move_prefix api b source destination = rename_all api b source destination ?names"
    by (simp add: move_prefix_def list_prefix_def)
  show "snd (move_prefix api b source destination) = Inr ()" "contents api ?b = contents api b" using r by (simp_all add: m)
  show "head_object api ?b (destination @ rel) = head_object api b (source @ rel)"
  proof (cases "head_object api b (source @ rel) = None")
    case False
    then have "source @ rel \<in> set ?names" by (simp add: bucket_simps [OF L])
    with r have "head_object api ?b (destination @ drop (length source) (source @ rel)) = head_object api b (source @ rel)"
      unfolding m by blast
    then show ?thesis by simp
  next
    case True
    have "destination @ rel \<notin> (\<lambda>n. destination @ drop (length source) n) ` set ?names"
      using True drop_prefix by (fastforce simp: bucket_simps [OF L])
    moreover have "head_object api b (destination @ rel) = None" by (rule d) simp
    ultimately show ?thesis using r True by (simp add: m)
  qed
  show "head_object api ?b k = (if prefix source k then None else head_object api b k)" if "\<not> prefix destination k"
  proof -
    have "k \<notin> (\<lambda>n. destination @ drop (length source) n) ` set ?names" using that by auto
    then show ?thesis using r by (auto simp: m bucket_simps [OF L])
  qed
qed

section \<open>Every action but two keeps every file\<close>

lemma contents_stays_rename: "bucket_laws api \<Longrightarrow> head_object api b t = None \<Longrightarrow>
    contents api (fst (rename_blob api b s t)) = contents api b"
  using rename_blob_ok(3) [of api b s t] by (cases "head_object api b s = None") (simp_all add: rename_blob_def)

lemma fst_and_then: "fst (and_then m f) = (case m of (b, Inl e) \<Rightarrow> b | (b, Inr x) \<Rightarrow> fst (f b x))"
  by (simp add: and_then_def split: prod.splits sum.splits)

lemma and_then_keeps:
  "contents api (fst m) = c \<Longrightarrow> (\<And>b x. contents api b = c \<Longrightarrow> contents api (fst (f b x)) = c) \<Longrightarrow>
     contents api (fst (and_then m f)) = c"
  by (cases m) (auto simp: fst_and_then split: sum.splits)

lemma move_item_keeps:
  assumes L: "bucket_laws api"
  shows "contents api (fst (move_item api b source_dir target_dir item)) = contents api b"
proof (cases "validate_entry_name (it_name item)")
  case (Inr name)
  have f: "contents api (fst (and_then (rename_blob api b (source_dir @ name) (target_dir @ name)) (\<lambda>b _.
        case get_blob_metadata api b (target_dir @ name) of
          None \<Rightarrow> (b, Inl BlobNotFound) | Some m \<Rightarrow> (b, Inr (build_file_metadata m target_dir))))) = contents api b"
    if "get_blob_metadata api b (target_dir @ name) = None"
    using that contents_stays_rename [OF L, of b "target_dir @ name"]
    by (intro and_then_keeps) (simp_all add: get_blob_metadata_def split: option.splits)
  have d: "contents api (fst (and_then (move_prefix api b (source_dir @ name @ ''/'') (target_dir @ name @ ''/'')) (\<lambda>b _.
        (b, Inr e)))) = contents api b"
    if "\<not> folder_exists api b (target_dir @ name @ ''/'')" for e :: fm_entry
    using move_prefix_ok(2) [OF L no_folder [OF L that]] by (intro and_then_keeps) simp_all
  show ?thesis
    using f d by (auto simp: move_item_def Inr Let_def split: option.splits)
qed (simp add: move_item_def)

lemma move_items_keep:
  "bucket_laws api \<Longrightarrow> contents api (fst (move_items api b source_dir target_dir items)) = contents api b"
proof (induction items arbitrary: b)
  case (Cons i items)
  show ?case
    unfolding move_items.simps
    by (intro and_then_keeps move_item_keeps Cons.prems) (simp_all add: Cons)
qed simp

lemma rename_folder_keeps:
  assumes L: "bucket_laws api" and f: "pl_data pl \<noteq> [] \<Longrightarrow> \<not> is_file_entry (hd (pl_data pl))"
  shows "contents api (fst (rename_action api b pl)) = contents api b"
proof -
  let ?dir = "normalize_directory_path (pl_path pl)"
  have d: "contents api (fst (and_then (move_prefix api b source (?dir @ n @ ''/'')) (\<lambda>b _. (b, Inr e)))) = contents api b"
    if "\<not> folder_exists api b (?dir @ n @ ''/'')" for e :: fm_reply and n source
    using move_prefix_ok(2) [OF L no_folder [OF L that]] by (intro and_then_keeps) simp_all
  show ?thesis using f d by (auto simp: rename_action_def Let_def split: sum.splits)
qed

lemma create_folders_keep:
  "bucket_laws api \<Longrightarrow> contents api b \<subseteq># contents api (fst (create_folders api b dir names))"
proof (induction names arbitrary: b)
  case (Cons raw_name names)
  have put: "contents api b \<subseteq># contents api (put_object api b p [])" if "get_blob_metadata api b p = None" for p
    using that files_put [OF Cons.prems, of b p] by (simp add: get_blob_metadata_def)
  have go: "contents api b \<subseteq># contents api (fst (and_then (create_folders api b0 dir names) (\<lambda>b es. (b, Inr (e # es)))))"
    if "contents api b \<subseteq># contents api b0" for e b0
    using subset_mset.order_trans [OF that Cons.IH [OF Cons.prems, of b0]]
    by (auto simp: fst_and_then split: prod.splits sum.splits)
  show ?case using put go by (auto simp: Let_def split: sum.splits)
qed simp

lemma create_action_keeps: "bucket_laws api \<Longrightarrow> contents api b \<subseteq># contents api (fst (create_action api b pl))"
  using create_folders_keep [of api b "normalize_directory_path (pl_path pl)"]
  by (auto simp: create_action_def fst_and_then split: sum.splits prod.splits) (metis fst_conv)+

text \<open>
  C33. No request to the file manager but a deletion or the renaming of a file loses or overwrites a
  file, whatever it contains and even when it fails half way: every file of the bucket is still there,
  with its bytes, under its old name or the one it was moved to.
\<close>

theorem only_deletes_lose_files:
  assumes "bucket_laws api" "map lower_char (get_or [] (pl_action pl)) = action" "action \<noteq> ''delete''"
    "action = ''rename'' \<Longrightarrow> pl_data pl \<noteq> [] \<Longrightarrow> \<not> is_file_entry (hd (pl_data pl))"
  shows "contents api b \<subseteq># contents api (fst (filemanager_endpoint api b pl))"
proof -
  have read: "fst (read_action api b pl) = b"
    by (simp add: read_action_def Let_def split: prod.splits)
  have details: "fst (details_action api b pl) = b"
    by (simp add: details_action_def Let_def split: sum.splits)
  have move: "contents api (fst (move_action api b pl)) = contents api b"
    using move_items_keep [OF assms(1)]
    by (auto simp: move_action_def intro!: and_then_keeps)
  have e: "fst (filemanager_endpoint api b pl) =
      (if action = ''read'' then fst (read_action api b pl)
       else if action = ''create'' then fst (create_action api b pl)
       else if action = ''delete'' then fst (delete_action api b pl)
       else if action = ''move'' then fst (move_action api b pl)
       else if action = ''rename'' then fst (rename_action api b pl)
       else if action = ''details'' then fst (details_action api b pl) else b)"
    unfolding filemanager_endpoint_def assms(2) Let_def by (simp split: prod.splits)
  show ?thesis
    unfolding e using assms(3,4) read details move create_action_keeps [OF assms(1), of b pl]
      rename_folder_keeps [OF assms(1,4), of b] by simp
qed

text \<open>A bucket held in a dictionary keeps the laws. It counts files against the limit of a listing, as GCS does.\<close>

definition dict_bucket :: "(string \<times> string) list bucket_api" where
  "dict_bucket =
     \<lparr>head_object = map_of,
      list_objects = (\<lambda>b p. sort (remdups (filter (prefix p) (dkeys b)))),
      list_pages = (\<lambda>b dir n.
        let names = sort (remdups (filter (prefix dir) (dkeys b)));
            rest = (\<lambda>k. drop (length dir) k)
        in [(remdups (map (\<lambda>k. dir @ takeWhile (\<lambda>c. c \<noteq> CHR ''/'') (rest k) @ ''/'')
               (filter (\<lambda>k. CHR ''/'' \<in> set (rest k)) names)),
             take n (filter (\<lambda>k. CHR ''/'' \<notin> set (rest k)) names))]),
      put_object = (\<lambda>b k d. dset k d b),
      copy_object = (\<lambda>b k t. case map_of b k of None \<Rightarrow> b | Some d \<Rightarrow> dset t d b),
      delete_object = (\<lambda>b k. ddel k b)\<rparr>"

lemma dict_bucket_laws: "bucket_laws dict_bucket"
proof -
  have "set (filter (prefix p) (dkeys b)) = {k. prefix p k \<and> map_of b k \<noteq> None}" for b :: "(string \<times> string) list" and p
    by (auto simp: map_of_eq_None_iff simp del: not_None_eq)
  then show ?thesis
    unfolding bucket_laws_def dict_bucket_def
    by (auto simp del: not_None_eq set_filter split: option.splits)
qed

definition demo_bucket :: "(string \<times> string) list" where
  "demo_bucket = [(''a/x'', ''1''), (''a/y'', ''2''), (''b'', ''3'')]"

definition demo_payload :: fm_payload where
  "demo_payload = \<lparr>pl_action = Some ''Move'', pl_path = Some ''/'', pl_name = None, pl_new_name = Some ''c'',
     pl_target_path = Some ''d'', pl_data = [\<lparr>it_name = Some ''a'', it_is_file = Some False, it_type = None\<rparr>],
     pl_names = [], pl_skip = None, pl_take = None, pl_data_skip = None, pl_data_take = None\<rparr>"

theorem only_deletes_lose_files_witness:
  "contents dict_bucket demo_bucket \<subseteq># contents dict_bucket (fst (filemanager_endpoint dict_bucket demo_bucket demo_payload))
   \<and> dkeys (fst (filemanager_endpoint dict_bucket demo_bucket demo_payload)) = [''b'', ''d/a/x'', ''d/a/y'']"
proof
  have "map lower_char (get_or [] (pl_action demo_payload)) = ''move''" by code_simp
  from only_deletes_lose_files [OF dict_bucket_laws this]
  show "contents dict_bucket demo_bucket \<subseteq># contents dict_bucket (fst (filemanager_endpoint dict_bucket demo_bucket demo_payload))"
    by simp
  show "dkeys (fst (filemanager_endpoint dict_bucket demo_bucket demo_payload)) = [''b'', ''d/a/x'', ''d/a/y'']"
    by code_simp
qed

text \<open>The renaming of a file does not look whether the new name is taken, though the move of one does.\<close>

lemma renamed_file_overwrites:
  "fst (rename_action dict_bucket [(''old'', ''1''), (''new'', ''2'')]
     (demo_payload\<lparr>pl_data := [named_item ''old''], pl_new_name := Some ''new''\<rparr>)) = [(''new'', ''1'')]"
  by code_simp

text \<open>A folder may be created under a name with a backslash, which no path leads to.\<close>

lemma folder_with_backslash:
  "fst (create_action dict_bucket [] (demo_payload\<lparr>pl_name := Some [CHR ''a'', CHR 0x5C, CHR ''b'']\<rparr>))
     = [([CHR ''a'', CHR 0x5C, CHR ''b'', CHR ''/''], [])]"
  "normalize_directory_path (Some [CHR ''a'', CHR 0x5C, CHR ''b'']) = ''a/b/''"
  by code_simp+

section \<open>Renaming a folder\<close>

lemma validate_ok: "validate_entry_name n = Inr name \<Longrightarrow> n = Some name \<and> CHR ''/'' \<notin> set name \<and> name \<noteq> []"
  by (cases n) (auto simp: validate_entry_name_def split: if_splits)

text \<open>Folders of different names in one directory share nothing.\<close>

lemma sibling_folders:
  assumes "prefix (dir @ m @ ''/'') (dir @ n @ ''/'' @ rel)" "CHR ''/'' \<notin> set m" "CHR ''/'' \<notin> set n"
  shows "m = n"
proof -
  obtain s where "n @ CHR ''/'' # rel = m @ CHR ''/'' # s" using assms(1) by (auto simp: prefix_def)
  then have "takeWhile (\<lambda>c. c \<noteq> CHR ''/'') (n @ CHR ''/'' # rel) = takeWhile (\<lambda>c. c \<noteq> CHR ''/'') (m @ CHR ''/'' # s)"
    by (rule arg_cong)
  moreover have "takeWhile (\<lambda>c. c \<noteq> CHR ''/'') (x @ CHR ''/'' # y) = x" if "CHR ''/'' \<notin> set x" for x y :: string
    using that by (subst takeWhile_append2) auto
  ultimately show ?thesis using assms(2,3) by metis
qed

text \<open>
  Renaming a folder moves all of it and nothing else: under the new name is exactly what was under
  the old one, nothing is left there, and every other file is as it was.
\<close>

theorem renamed_folder_is_complete:
  assumes L: "bucket_laws api" and r: "rename_action api b pl = (b', Inr r)"
    and item: "pl_data pl = item # rest" "\<not> is_file_entry item"
    and src: "source = normalize_directory_path (pl_path pl) @ the (it_name item) @ ''/''"
    and dst: "destination = normalize_directory_path (pl_path pl) @ the (pl_new_name pl) @ ''/''"
  shows "head_object api b' (destination @ rel) = head_object api b (source @ rel)
    \<and> head_object api b' (source @ rel) = None
    \<and> (prefix source k \<or> prefix destination k \<or> head_object api b' k = head_object api b k)"
proof -
  obtain m where m: "validate_entry_name (it_name item) = Inr m"
    using r item by (auto simp: rename_action_def Let_def split: sum.splits if_splits)
  obtain n where n: "validate_entry_name (pl_new_name pl) = Inr n"
    using r item m by (auto simp: rename_action_def Let_def split: sum.splits if_splits)
  note vm = validate_ok [OF m] and vn = validate_ok [OF n]
  have ne: "m \<noteq> n" using r item m n by (auto simp: rename_action_def Let_def)
  have fe: "\<not> folder_exists api b destination" using r item m n ne vn by (auto simp: rename_action_def Let_def dst)
  note mp = move_prefix_ok [where destination = destination, OF L no_folder [OF L fe], simplified]
  have b': "b' = fst (move_prefix api b source destination)"
  proof -
    have "rename_action api b pl = and_then (move_prefix api b source destination)
        (\<lambda>b _. (b, Inr (Files [build_directory_metadata destination (normalize_directory_path (pl_path pl)) True])))"
      using item m n ne fe vm vn by (simp add: rename_action_def Let_def src dst)
    then show ?thesis using r mp(1) [where source = source]
      by (cases "move_prefix api b source destination") (auto simp: and_then_def)
  qed
  have d: "\<not> prefix destination (source @ rel)"
    using sibling_folders [of "normalize_directory_path (pl_path pl)" n m rel] ne vm vn by (auto simp: src dst)
  show ?thesis using mp(3) [where source = source and rel = rel] mp(4) [OF d, where source = source] mp(4) [where k = k and source = source]
    by (cases "prefix destination k") (auto simp: b')
qed

theorem renamed_folder_is_complete_witness:
  "head_object dict_bucket (fst (rename_action dict_bucket demo_bucket demo_payload)) ''c/x'' = Some ''1''
   \<and> head_object dict_bucket (fst (rename_action dict_bucket demo_bucket demo_payload)) ''a/x'' = None"
proof -
  let ?r = "rename_action dict_bucket demo_bucket demo_payload"
  have "isl (snd ?r) = False" by code_simp
  then obtain b' r where r: "?r = (b', Inr r)" by (cases ?r; cases "snd ?r") auto
  have "\<not> is_file_entry (hd (pl_data demo_payload))" by code_simp
  moreover have "pl_data demo_payload = [hd (pl_data demo_payload)]" by (simp add: demo_payload_def)
  moreover have "''a/'' = normalize_directory_path (pl_path demo_payload) @ the (it_name (hd (pl_data demo_payload))) @ ''/''"
    "''c/'' = normalize_directory_path (pl_path demo_payload) @ the (pl_new_name demo_payload) @ ''/''" by code_simp+
  ultimately have "head_object dict_bucket b' (''c/'' @ ''x'') = head_object dict_bucket demo_bucket (''a/'' @ ''x'')"
    "head_object dict_bucket b' (''a/'' @ ''x'') = None"
    using renamed_folder_is_complete [OF dict_bucket_laws r, of _ "[]"] by metis+
  moreover have "head_object dict_bucket demo_bucket (''a/'' @ ''x'') = Some ''1''" by code_simp
  ultimately show ?thesis by (simp add: r)
qed

section \<open>Deleting\<close>

lemma add_names_set: "set (fst (add_names None names xs)) = set names \<union> set xs \<and> \<not> snd (add_names None names xs)"
  by (induction xs arbitrary: names) (auto simp: reached_def)

definition names_file :: "string \<Rightarrow> string \<times> bool \<Rightarrow> string \<Rightarrow> bool" where
  "names_file dir i k = (if snd i then k = dir @ fst i else prefix (dir @ fst i @ ''/'') k)"

lemma collect_names_set:
  assumes L: "bucket_laws api"
  shows "k \<in> set (fst (collect_names api b dir items None names)) \<longleftrightarrow>
    k \<in> set names \<or> (\<exists>i \<in> set items. names_file dir i k \<and> (snd i \<or> head_object api b k \<noteq> None))"
proof (induction items arbitrary: names)
  case (Cons i items)
  obtain name is_file where i: "i = (name, is_file)" by force
  show ?case
  proof (cases is_file)
    case True
    then show ?thesis by (auto simp: i Cons.IH names_file_def reached_def)
  next
    case False
    obtain ns t where a: "add_names None names (list_prefix api b (dir @ name @ ''/'') None) = (ns, t)" by force
    then have "\<not> t" "set ns = set names \<union> {k. prefix (dir @ name @ ''/'') k \<and> head_object api b k \<noteq> None}"
      using add_names_set [of names "list_prefix api b (dir @ name @ ''/'') None"]
      by (auto simp: list_prefix_def bucket_simps(4) [OF L])
    then show ?thesis using False by (auto simp: i a Cons.IH names_file_def reached_def Let_def)
  qed
qed simp

lemma delete_batch_ok:
  assumes L: "bucket_laws api"
  shows "head_object api (delete_batch api b names) k = (if k \<in> set names then None else head_object api b k)"
  unfolding delete_batch_def by (induction names arbitrary: b) (auto simp: bucket_simps(3) [OF L])

lemma chunked_concat: "0 < n \<Longrightarrow> concat (chunked items n) = items"
  by (induction items n rule: chunked.induct) (simp add: chunked.simps)

lemma delete_blobs_in_batches_ok:
  assumes L: "bucket_laws api"
  shows "head_object api (delete_blobs_in_batches api b names) k = (if k \<in> set names then None else head_object api b k)"
proof -
  have "head_object api (foldl (delete_batch api) b groups) k = (if k \<in> set (concat groups) then None else head_object api b k)" for groups
    by (induction groups arbitrary: b) (auto simp: delete_batch_ok [OF L])
  then show ?thesis
    using chunked_concat [of BATCH_DELETE_CHUNK_SIZE names]
    by (simp add: delete_blobs_in_batches_def BATCH_DELETE_CHUNK_SIZE_def del: set_concat)
qed

lemma schedule_background_delete_ok:
  assumes L: "bucket_laws api"
  shows "head_object api (schedule_background_delete api b dir items) k =
    (if \<exists>i \<in> set items. names_file dir i k then None else head_object api b k)"
  using collect_names_set [OF L, of k b dir items "[]"]
  by (auto simp: schedule_background_delete_def collect_blob_names_def delete_blobs_in_batches_ok [OF L])

text \<open>The items of a request, as the deletion reads them, and the bucket after the task it may add.\<close>

definition items_of :: "fm_payload \<Rightarrow> (string \<times> bool) list" where
  "items_of pl = map (\<lambda>i. (the (it_name i), is_file_entry i)) (data_items pl)"

fun after_background :: "'s bucket_api \<Rightarrow> 's \<Rightarrow> fm_reply \<Rightarrow> 's" where
  "after_background api b (BackgroundDelete n dir items) = schedule_background_delete api b dir items"
| "after_background api b _ = b"

lemma map_err_items:
  "map_err (\<lambda>i. map_sum id (\<lambda>name. (name, is_file_entry i)) (validate_entry_name (it_name i))) is = Inr items \<Longrightarrow>
     items = map (\<lambda>i. (the (it_name i), is_file_entry i)) is"
proof (induction "is" arbitrary: items)
  case (Cons i "is")
  then show ?case
    by (cases "validate_entry_name (it_name i)") (auto simp: bind_err_eq_Inr dest!: validate_ok)
qed simp

text \<open>
  C34. A deletion removes the files and folders it names, with all that is in the folders, and nothing
  else, at once or, past a thousand files, when its background task has run; until then and when it is
  refused the bucket is as it was.
\<close>

theorem delete_removes_what_was_named:
  assumes L: "bucket_laws api" and d: "delete_action api b pl = (b', reply)"
    and dir: "dir = normalize_directory_path (pl_path pl)"
  shows "case reply of
      Inl _ \<Rightarrow> b' = b
    | Inr r \<Rightarrow> (after_background api b' r = b' \<or> b' = b)
        \<and> head_object api (after_background api b' r) k =
            (if \<exists>i \<in> set (items_of pl). names_file dir i k then None else head_object api b k)"
proof (cases "data_items pl = []")
  case False
  let ?m = "map_err (\<lambda>i. map_sum id (\<lambda>name. (name, is_file_entry i)) (validate_entry_name (it_name i))) (data_items pl)"
  show ?thesis
  proof (cases ?m)
    case (Inl e)
    then show ?thesis using d False by (auto simp: delete_action_def Let_def)
  next
    case (Inr items)
    have it: "items_of pl = items" using map_err_items [OF Inr] by (simp add: items_of_def)
    obtain preview t where p: "collect_blob_names api b dir items (Some (BATCH_DELETE_BACKGROUND_THRESHOLD + 1)) = (preview, t)"
      by force
    show ?thesis
    proof (cases "t \<or> length preview > BATCH_DELETE_BACKGROUND_THRESHOLD")
      case True
      then have "b' = b \<and> (\<exists>n. reply = Inr (BackgroundDelete n dir items))"
        using d False Inr p by (auto simp: delete_action_def Let_def dir)
      then show ?thesis using schedule_background_delete_ok [OF L, of b dir items k] by (auto simp: it)
    next
      case f: False
      then have "b' = schedule_background_delete api b dir items \<and> reply = Inr (Files [])"
        using d False Inr p by (auto simp: delete_action_def Let_def dir schedule_background_delete_def)
      then show ?thesis using schedule_background_delete_ok [OF L, of b dir items k] by (auto simp: it)
    qed
  qed
qed (use d in \<open>auto simp: delete_action_def Let_def\<close>)

theorem delete_removes_what_was_named_witness:
  "dkeys (fst (delete_action dict_bucket demo_bucket demo_payload)) = [''b'']
   \<and> head_object dict_bucket (fst (delete_action dict_bucket demo_bucket demo_payload)) ''a/x'' = None"
proof -
  obtain b' reply where d: "delete_action dict_bucket demo_bucket demo_payload = (b', reply)" by force
  have r: "snd (delete_action dict_bucket demo_bucket demo_payload) = Inr (Files [])"
    and b: "dkeys (fst (delete_action dict_bucket demo_bucket demo_payload)) = [''b'']" by code_simp+
  have n: "list_ex (\<lambda>i. names_file (normalize_directory_path (pl_path demo_payload)) i ''a/x'') (items_of demo_payload)"
    by code_simp
  show ?thesis
    using delete_removes_what_was_named [OF dict_bucket_laws d refl, of "''a/x''"] r b n
    by (simp add: d list_ex_iff)
qed

section \<open>Listings\<close>

fun scan :: "nat \<Rightarrow> nat \<Rightarrow> 'a list \<Rightarrow> 'a list \<Rightarrow> nat \<Rightarrow> 'a list \<times> nat \<times> bool" where
  "scan skip needed [] entries seen = (entries, seen, False)"
| "scan skip needed (x # xs) entries seen =
     (if seen \<ge> needed then (entries, seen, True)
      else scan skip needed xs (if seen \<ge> skip then entries @ [x] else entries) (seen + 1))"

lemma scan_append:
  "scan skip needed (xs @ ys) entries seen =
     (case scan skip needed xs entries seen of (entries, seen, has_more) \<Rightarrow>
        if has_more then (entries, seen, True) else scan skip needed ys entries seen)"
  by (induction xs arbitrary: entries seen) auto

lemma scan_window:
  "seen \<le> needed \<Longrightarrow> scan skip needed xs entries seen =
     (entries @ drop (skip - seen) (take (needed - seen) xs), seen + min (length xs) (needed - seen), length xs > needed - seen)"
proof (induction xs arbitrary: entries seen)
  case (Cons x xs)
  show ?case
  proof (cases "seen = needed")
    case False
    then have "seen < needed" "needed - seen = Suc (needed - Suc seen)" using Cons.prems by auto
    then show ?thesis
      using Cons.IH [of "Suc seen"] by (cases "skip \<le> seen") (auto simp: Suc_diff_le min_def drop_Cons' diff_Suc split: nat.split)
  qed simp
qed simp

text \<open>What a directory shows: its folders and files, but not the markers of folders.\<close>

definition shown_files :: "string \<Rightarrow> blob_meta list \<Rightarrow> fm_entry list" where
  "shown_files dir metas =
     map (\<lambda>m. build_file_metadata m dir) (filter (\<lambda>m. bm_name m \<noteq> dir \<and> \<not> ends_with_slash (bm_name m)) metas)"

definition shown_page :: "string \<Rightarrow> string list \<times> blob_meta list \<Rightarrow> fm_entry list" where
  "shown_page dir p = map (\<lambda>d. build_directory_metadata d dir True) (fst p) @ shown_files dir (snd p)"

lemma scan_folders_scan:
  "scan_folders skip needed dir dirs entries seen =
     scan skip needed (map (\<lambda>d. build_directory_metadata d dir True) dirs) entries seen"
  by (induction dirs arbitrary: entries seen) auto

lemma scan_files_scan:
  "scan_files skip needed dir metas entries seen = scan skip needed (shown_files dir metas) entries seen"
  by (induction metas arbitrary: entries seen) (auto simp: shown_files_def)

lemma scan_pages_scan:
  "scan_pages skip needed dir ps entries seen = scan skip needed (concat (map (shown_page dir) ps)) entries seen"
proof (induction ps arbitrary: entries seen)
  case (Cons p ps)
  obtain dirs metas where p: "p = (dirs, metas)" by force
  show ?case
    by (simp add: p shown_page_def scan_append scan_folders_scan scan_files_scan Cons.IH split: prod.splits)
qed simp

text \<open>
  A listing is the window of the directory from \<open>skip\<close> on, of at most \<open>take\<close> entries: of all that the
  store's pages hold, folders before files in each page and no folder markers. It says that there is more
  exactly when an entry lies behind the window, and its count is then one past the window, else the
  number of entries.
\<close>

theorem listing_is_a_window:
  assumes "all = concat (map (shown_page dir) (iter_pages api b dir (max (skip + n + 1) 1)))"
  shows "get_directory_page api b dir skip n =
    (take n (drop skip all), if length all > skip + n then skip + n + 1 else length all, length all > skip + n)"
proof -
  have "drop skip (take (skip + n) all) = take n (drop skip all)" by (simp add: drop_take)
  then show ?thesis
    unfolding get_directory_page_def scan_pages_scan assms [symmetric] by (simp add: scan_window)
qed

theorem listing_is_a_window_witness:
  "get_directory_page dict_bucket demo_bucket [] 0 1 = ([build_directory_metadata ''a/'' [] True], 2, True)"
proof -
  define all where "all = concat (map (shown_page []) (iter_pages dict_bucket demo_bucket [] (max (0 + 1 + 1) 1)))"
  have "take 1 (drop 0 all) = [build_directory_metadata ''a/'' [] True]" "length all > 0 + 1"
    unfolding all_def by code_simp+
  then show ?thesis using listing_is_a_window [OF all_def] by simp
qed

text \<open>
  The store is asked for one file more than the window. A folder's own marker is one of the files it
  counts but is not shown: the last file of such a folder is cut off, and nobody is told.
\<close>

lemma marker_hides_a_file:
  "get_directory_page dict_bucket [(''a/'', []), (''a/x'', ''1''), (''a/y'', ''2'')] ''a/'' 0 1
     = ([build_file_metadata \<lparr>bm_name = ''a/x'', bm_size = 1\<rparr> ''a/''], 1, False)"
  by code_simp

end
