(* ===== verification/Transfer_Claims.thy ===== *)
theory Transfer_Claims
  imports Storage_Transfers Storage_Claims
begin

text \<open>
  What uploads and downloads of the shared bucket guarantee: chunks sent in order become the file, a
  ticket works once, and an archive holds everything that was asked for under safe, distinct names.
\<close>

section \<open>Uploads\<close>

text \<open>A client that sends the chunks of a file of \<open>tot\<close> bytes in order, after \<open>sent\<close> of them.\<close>

fun send_chunks ::
  "'s multipart_api \<Rightarrow> string \<Rightarrow> int \<Rightarrow> int \<Rightarrow> string list \<Rightarrow> 's \<times> upload_session dict
    \<Rightarrow> ('s \<times> upload_session dict) \<times> chunk_reply list" where
  "send_chunks mp token tot sent [] st = (st, [])"
| "send_chunks mp token tot sent (c # cs) st =
     (case s3_upload_chunk mp token (Some (sent, sent + int (length c) - 1, tot)) c st of (st', r) \<Rightarrow>
        case send_chunks mp token tot (sent + int (length c)) cs st' of (st'', rs) \<Rightarrow> (st'', r # rs))"

lemma multipart_simps:
  assumes "multipart_laws api mp"
  shows "upload_part mp b name u n body = (b', tag) \<Longrightarrow> part_body mp b' u (n, tag) = Some body"
    "upload_part mp b name u n body = (b', tag) \<Longrightarrow> fst p \<noteq> n \<Longrightarrow> part_body mp b' u p = part_body mp b u p"
    "upload_part mp b name u n body = (b', tag) \<Longrightarrow> head_object api b' = head_object api b"
    "(\<And>p. p \<in> set parts \<Longrightarrow> part_body mp b u p \<noteq> None) \<Longrightarrow>
       head_object api (complete_multipart mp b name u parts) k =
         (if k = name then Some (concat (map (\<lambda>p. the (part_body mp b u p)) parts)) else head_object api b k)"
    "start_multipart mp b name = (b', u) \<Longrightarrow> head_object api b' = head_object api b"
proof -
  have up: "let (b', tag) = upload_part mp b name u n body
      in part_body mp b' u (n, tag) = Some body \<and> (\<forall>p. fst p \<noteq> n \<longrightarrow> part_body mp b' u p = part_body mp b u p)
        \<and> head_object api b' = head_object api b"
    using assms unfolding multipart_laws_def by blast
  show "upload_part mp b name u n body = (b', tag) \<Longrightarrow> part_body mp b' u (n, tag) = Some body"
    "upload_part mp b name u n body = (b', tag) \<Longrightarrow> fst p \<noteq> n \<Longrightarrow> part_body mp b' u p = part_body mp b u p"
    "upload_part mp b name u n body = (b', tag) \<Longrightarrow> head_object api b' = head_object api b"
    using up by (cases p; auto)+
  show "head_object api (complete_multipart mp b name u parts) k =
      (if k = name then Some (concat (map (\<lambda>p. the (part_body mp b u p)) parts)) else head_object api b k)"
    if "\<And>p. p \<in> set parts \<Longrightarrow> part_body mp b u p \<noteq> None"
    using assms that unfolding multipart_laws_def by blast
  show "start_multipart mp b name = (b', u) \<Longrightarrow> head_object api b' = head_object api b"
    using assms unfolding multipart_laws_def by (metis fst_conv)
qed

text \<open>The session and what the cloud holds after some chunks.\<close>

definition holds_chunks :: "'s multipart_api \<Rightarrow> 's \<Rightarrow> upload_session \<Rightarrow> string \<Rightarrow> bool" where
  "holds_chunks mp b s bytes \<longleftrightarrow>
     (\<forall>p \<in> set (up_parts s). part_body mp b (up_upload_id s) p \<noteq> None \<and> fst p \<le> length (up_parts s))
     \<and> concat (map (\<lambda>p. the (part_body mp b (up_upload_id s) p)) (up_parts s)) = bytes"

lemma holds_next:
  assumes L: "multipart_laws api mp" and h: "holds_chunks mp b s bytes"
    and u: "upload_part mp b name (up_upload_id s) (length (up_parts s) + 1) c = (b', tag)"
    and s': "up_parts s' = up_parts s @ [(length (up_parts s) + 1, tag)]" "up_upload_id s' = up_upload_id s"
  shows "holds_chunks mp b' s' (bytes @ c)"
proof -
  have same: "part_body mp b' (up_upload_id s) p = part_body mp b (up_upload_id s) p" if "p \<in> set (up_parts s)" for p
    using that h multipart_simps(2) [OF L u, of p] by (fastforce simp: holds_chunks_def)
  have "concat (map (\<lambda>p. the (part_body mp b' (up_upload_id s) p)) (up_parts s)) = bytes"
  proof -
    have "map (\<lambda>p. the (part_body mp b' (up_upload_id s) p)) (up_parts s) = map (\<lambda>p. the (part_body mp b (up_upload_id s) p)) (up_parts s)"
      using same by (intro map_cong refl) simp
    then show ?thesis using h unfolding holds_chunks_def by presburger
  qed
  moreover have "part_body mp b' (up_upload_id s) p \<noteq> None \<and> fst p \<le> Suc (length (up_parts s))"
    if "p \<in> set (up_parts s)" for p
    using that h same [OF that] by (auto simp: holds_chunks_def simp del: not_None_eq)
  ultimately show ?thesis
    using multipart_simps(1) [OF L u] by (auto simp: holds_chunks_def s')
qed

lemma send_chunks_done:
  assumes L: "multipart_laws api mp"
  shows "map_of (snd st) token = Some s \<Longrightarrow> holds_chunks mp (fst st) s bytes \<Longrightarrow> cs \<noteq> [] \<Longrightarrow> [] \<notin> set cs \<Longrightarrow>
    send_chunks mp token (int (length (bytes @ concat cs))) (int (length bytes)) cs st = (st', rs) \<Longrightarrow>
    head_object api (fst st') = (head_object api (fst st)) (up_object_name s \<mapsto> bytes @ concat cs)
    \<and> map_of (snd st') token = None \<and> last rs = Done"
proof (induction cs arbitrary: st s bytes st' rs)
  case (Cons c cs)
  let ?tot = "int (length (bytes @ concat (c # cs)))"
  obtain b tag where u: "upload_part mp (fst st) (up_object_name s) (up_upload_id s) (length (up_parts s) + 1) c = (b, tag)"
    by force
  define s' where "s' = s\<lparr>up_parts := up_parts s @ [(length (up_parts s) + 1, tag)],
    up_bytes_received := int (length bytes) + int (length c) - 1 + 1\<rparr>"
  have h: "holds_chunks mp b s' (bytes @ c)"
    by (rule holds_next [OF L Cons.prems(2) u]) (simp_all add: s'_def)
  have s': "up_object_name s' = up_object_name s" "up_upload_id s' = up_upload_id s" by (simp_all add: s'_def)
  have head: "head_object api b = head_object api (fst st)" by (rule multipart_simps(3) [OF L u])
  have chunk: "s3_upload_chunk mp token (Some (int (length bytes), int (length bytes) + int (length c) - 1, ?tot)) c st =
      (if cs = [] then ((complete_multipart mp b (up_object_name s) (up_upload_id s) (up_parts s'), ddel token (snd st)), Done)
       else ((b, dset token s' (snd st)), Resume (int (length bytes) + int (length c) - 1)))"
  proof -
    have "0 < length (concat cs)" if "cs \<noteq> []" using that Cons.prems(4) by (cases cs) auto
    then have "int (length bytes) + int (length c) - 1 + 1 \<ge> ?tot \<longleftrightarrow> cs = []" by (cases "cs = []") auto
    then show ?thesis using Cons.prems(1) u by (simp add: s3_upload_chunk_def Let_def s'_def)
  qed
  show ?case
  proof (cases "cs = []")
    case True
    have "head_object api (complete_multipart mp b (up_object_name s) (up_upload_id s) (up_parts s')) k =
        (if k = up_object_name s then Some (bytes @ c) else head_object api b k)" for k
      using multipart_simps(4) [OF L, of "up_parts s'" b "up_upload_id s" "up_object_name s" k] h
      by (auto simp: holds_chunks_def s' simp del: not_None_eq)
    then show ?thesis using Cons.prems(5) chunk True head by (auto simp: fun_eq_iff)
  next
    case False
    obtain st2 rs2 where r: "send_chunks mp token ?tot (int (length bytes) + int (length c)) cs (b, dset token s' (snd st)) = (st2, rs2)"
      by (rule prod.exhaust)
    have e: "int (length (bytes @ c)) = int (length bytes) + int (length c)"
      "int (length ((bytes @ c) @ concat cs)) = ?tot" by simp_all
    from Cons.IH [of "(b, dset token s' (snd st))" s' "bytes @ c", unfolded e, OF _ _ False, OF _ _ _ r]
    have "head_object api (fst st2) = (head_object api b) (up_object_name s' \<mapsto> (bytes @ c) @ concat cs)
        \<and> map_of (snd st2) token = None \<and> last rs2 = Done"
      using h Cons.prems(4) by (simp add: fun_upd_def fun_eq_iff)
    moreover have "rs2 \<noteq> []" using r False by (cases cs) (auto split: prod.splits)
    ultimately show ?thesis using Cons.prems(5) chunk False r head by (auto simp: s')
  qed
qed simp


text \<open>A cloud that keeps its objects in one dictionary and the parts of uploads in another.\<close>

type_synonym demo_cloud = "(string \<times> string) list \<times> ((string \<times> nat \<times> string) \<times> string) list"

definition demo_cloud_api :: "demo_cloud bucket_api" where
  "demo_cloud_api =
     \<lparr>head_object = (\<lambda>b. map_of (fst b)), list_objects = (\<lambda>b. list_objects dict_bucket (fst b)),
      list_pages = (\<lambda>b. list_pages dict_bucket (fst b)), put_object = (\<lambda>b k d. (dset k d (fst b), snd b)),
      copy_object = (\<lambda>b k t. (copy_object dict_bucket (fst b) k t, snd b)),
      delete_object = (\<lambda>b k. (ddel k (fst b), snd b))\<rparr>"

definition demo_multipart :: "demo_cloud multipart_api" where
  "demo_multipart =
     \<lparr>start_multipart = (\<lambda>b name. (b, name)),
      upload_part = (\<lambda>b name u n body. ((fst b, dset (u, n, ''t'') body (snd b)), ''t'')),
      complete_multipart = (\<lambda>b name u parts.
        (dset name (concat (map (\<lambda>p. get_or [] (map_of (snd b) (u, p))) parts)) (fst b), snd b)),
      part_body = (\<lambda>b u p. map_of (snd b) (u, p))\<rparr>"

lemma demo_multipart_laws: "multipart_laws demo_cloud_api demo_multipart"
proof -
  have g: "get_or [] x = the x" if "x \<noteq> None" for x :: "string option" using that by (cases x) auto
  have "concat (map (\<lambda>p. get_or [] (map_of d (u, p))) parts) = concat (map (\<lambda>p. the (map_of d (u, p))) parts)"
    if "\<forall>p \<in> set parts. map_of d (u, p) \<noteq> None" for d :: "((string \<times> nat \<times> string) \<times> string) list" and u parts
    using that g by (intro arg_cong [of _ _ concat] map_cong refl) simp
  then show ?thesis
    by (auto simp: multipart_laws_def demo_cloud_api_def demo_multipart_def simp del: not_None_eq)
qed


text \<open>
  A chunk that is sent again because its answer was lost becomes a part of its own: its first byte is
  not compared with what arrived before, and the object holds the bytes twice.
\<close>

lemma repeated_chunk_is_kept_twice:
  "let st = start_s3_upload_session demo_multipart 0 ''t'' ''f'' (([], []), []);
       (st, r1) = s3_upload_chunk demo_multipart ''t'' (Some (0, 1, 3)) ''ab'' st;
       (st, r2) = s3_upload_chunk demo_multipart ''t'' (Some (0, 1, 3)) ''ab'' st;
       (st, r3) = s3_upload_chunk demo_multipart ''t'' (Some (2, 2, 3)) ''c'' st
   in fst (fst st) = [(''f'', ''ababc'')] \<and> r3 = Done"
  by code_simp

section \<open>Tickets\<close>

text \<open>A ticket is taken by its first use, and a second one, or a late one, finds none.\<close>

lemma ticket_works_once:
  "batch_download_by_ticket api b now token tokens = (tokens', r) \<Longrightarrow>
     snd (batch_download_by_ticket api b' now' token tokens') = Inl 404"
proof -
  have none: "map_of (filter P d) token = None" if "map_of d token = None" for P and d :: "ticket dict"
    using that by (auto simp: map_of_eq_None_iff)
  assume "batch_download_by_ticket api b now token tokens = (tokens', r)"
  then have "map_of tokens' token = None"
    by (auto simp: batch_download_by_ticket_def Let_def split: option.splits)
  then show ?thesis
    by (simp add: batch_download_by_ticket_def Let_def prune_expired_batch_download_tokens_def none)
qed

lemma late_ticket_is_refused:
  assumes "distinct (dkeys tokens)" "map_of tokens token = Some t" "ti_expires_at t \<le> now"
  shows "snd (batch_download_by_ticket api b now token tokens) = Inl 404"
proof -
  have "(token, e) \<in> set tokens \<Longrightarrow> e = t" for e
    using assms(1,2) by (metis map_of_mem option.inject)
  then have "token \<notin> set (dkeys (prune_expired_batch_download_tokens now tokens))"
    using assms(3) by (auto simp: prune_expired_batch_download_tokens_def)
  then have "map_of (prune_expired_batch_download_tokens now tokens) token = None"
    by (simp add: map_of_eq_None_iff)
  then show ?thesis by (simp add: batch_download_by_ticket_def Let_def)
qed

section \<open>Archives\<close>

text \<open>A name that leads nowhere but below: no part of it is empty, a dot or two dots.\<close>

definition safe_parts :: "string list \<Rightarrow> bool" where
  "safe_parts ss \<longleftrightarrow> ss \<noteq> [] \<and> list_all (\<lambda>s. s \<noteq> [] \<and> s \<noteq> ''.'' \<and> s \<noteq> ''..'' \<and> CHR ''/'' \<notin> set s) ss"

definition safe_entry :: "string \<Rightarrow> bool" where
  "safe_entry name = safe_parts (split_on CHR ''/'' (if ends_with_slash name then butlast name else name))"

lemma split_join: "ss \<noteq> [] \<Longrightarrow> list_all (\<lambda>s. CHR ''/'' \<notin> set s) ss \<Longrightarrow> split_on CHR ''/'' (join_strings ''/'' ss) = ss"
proof (induction ss rule: join_strings.induct [of "\<lambda>_ ns. _ ns" "''/''"])
  case (2 sep x)
  have "CHR ''/'' \<notin> set x \<Longrightarrow> split_on CHR ''/'' x = [x]" for x
    by (induction x) auto
  then show ?case using 2 by simp
next
  case (3 sep x y xs)
  then show ?case by (simp add: split_on_sep)
qed simp

lemma safe_parts_join: "safe_parts ss \<Longrightarrow> split_on CHR ''/'' (join_strings ''/'' ss) = ss"
  by (rule split_join) (auto simp: safe_parts_def list_all_iff)

lemma ends_not: "c \<notin> set x \<Longrightarrow> x \<noteq> [] \<Longrightarrow> hd x \<noteq> c \<and> last x \<noteq> c"
  by (metis hd_in_set last_in_set)

lemma join_hd_last:
  "safe_parts ss \<Longrightarrow> join_strings ''/'' ss \<noteq> [] \<and> hd (join_strings ''/'' ss) \<noteq> CHR ''/'' \<and> last (join_strings ''/'' ss) \<noteq> CHR ''/''"
proof (induction ss rule: join_strings.induct [of "\<lambda>_ ns. _ ns" "''/''"])
  case (3 sep x y xs)
  then have "join_strings ''/'' (y # xs) \<noteq> []" "last (join_strings ''/'' (y # xs)) \<noteq> CHR ''/''"
    by (simp_all add: safe_parts_def)
  moreover have "x \<noteq> []" "hd x \<noteq> CHR ''/''" using 3 ends_not [of "CHR ''/''" x] by (simp_all add: safe_parts_def)
  ultimately show ?case by simp
qed (use ends_not [of "CHR ''/''"] in \<open>auto simp: safe_parts_def\<close>)

lemma strip_slashes [simp]:
  assumes "safe_parts ss"
  shows "drop_leading CHR ''/'' (join_strings ''/'' ss) = join_strings ''/'' ss"
    "drop_trailing CHR ''/'' (join_strings ''/'' ss) = join_strings ''/'' ss"
    "\<not> ends_with_slash (join_strings ''/'' ss)"
proof -
  note h = join_hd_last [OF assms]
  have d: "dropWhile (\<lambda>x. x = CHR ''/'') l = l" if "l \<noteq> []" "hd l \<noteq> CHR ''/''" for l
    using that by (cases l) auto
  show "drop_leading CHR ''/'' (join_strings ''/'' ss) = join_strings ''/'' ss"
    unfolding drop_leading_def using h by (intro d) auto
  show "drop_trailing CHR ''/'' (join_strings ''/'' ss) = join_strings ''/'' ss"
    using d [of "rev (join_strings ''/'' ss)"] h by (simp add: hd_rev)
  show "\<not> ends_with_slash (join_strings ''/'' ss)" using h by (simp add: ends_with_slash_def)
qed

lemma safe_entry_join: "safe_parts ss \<Longrightarrow> safe_entry (join_strings ''/'' ss) \<and> safe_entry (join_strings ''/'' ss @ ''/'')"
  by (simp add: safe_entry_def safe_parts_join) (simp add: ends_with_slash_def safe_parts_join)

lemma safe_segments_parts: "safe_segments p = Some ss \<Longrightarrow> safe_parts ss"
  using split_on_no_sep [of _ "CHR ''/''" p] by (auto simp: safe_segments_def Let_def safe_parts_def list_all_iff split: if_splits)

lemma sanitized_item: "sanitize_archive_item_path x y = Inr path \<Longrightarrow> \<exists>ss. path = join_strings ''/'' ss \<and> safe_parts ss"
  by (auto simp: sanitize_archive_item_path_def Let_def dest: safe_segments_parts split: option.splits)

text \<open>A root is no part at all, or one.\<close>

definition ok_root :: "string \<Rightarrow> bool" where
  "ok_root r \<longleftrightarrow> r = [] \<or> safe_parts [r]"

lemma path_for_join: "ok_root r \<Longrightarrow> safe_parts ss \<Longrightarrow>
    archive_path_for r (join_strings ''/'' ss) = join_strings ''/'' (if r = [] then ss else r # ss)
    \<and> safe_parts (if r = [] then ss else r # ss)"
  using join_hd_last [of ss] by (cases ss) (auto simp: archive_path_for_def ok_root_def safe_parts_def)

text \<open>What an archive under construction keeps, and that it only grows.\<close>

definition ok_archive :: "archive \<Rightarrow> bool" where
  "ok_archive a \<longleftrightarrow> distinct (dkeys a) \<and> list_all safe_entry (dkeys a)"

definition grows :: "archive \<Rightarrow> archive \<Rightarrow> bool" where
  "grows a a' \<longleftrightarrow> (ok_archive a \<longrightarrow> ok_archive a') \<and> set (dkeys a) \<subseteq> set (dkeys a')
     \<and> (\<forall>n \<in> set (dkeys a') - set (dkeys a). ends_with_slash n)"

lemma grows_refl [simp]: "grows a a"
  by (simp add: grows_def)

lemma grows_trans: "grows a b \<Longrightarrow> grows b c \<Longrightarrow> grows a c"
  unfolding grows_def by blast

lemma directory_entry_grows: "safe_parts ss \<Longrightarrow> grows a (ensure_directory_entry a (join_strings ''/'' ss))"
  using safe_entry_join [of ss]
  by (auto simp: ensure_directory_entry_def Let_def grows_def ok_archive_def ends_with_slash_def simp del: drop_trailing.simps)

lemma hierarchy_grows:
  "ok_root r \<Longrightarrow> acc @ ss = [] \<or> safe_parts (acc @ ss) \<Longrightarrow> grows a (add_hierarchy r a acc ss)"
proof (induction ss arbitrary: a acc)
  case (Cons s ss)
  have p: "safe_parts (acc @ [s])" using Cons.prems(2) by (auto simp: safe_parts_def)
  from path_for_join [OF Cons.prems(1) p]
  have "grows a (ensure_directory_entry a (archive_path_for r (join_strings ''/'' (acc @ [s]))))"
    by (metis directory_entry_grows)
  then show ?case using Cons.IH [of "acc @ [s]"] Cons.prems by (auto intro: grows_trans)
qed simp

lemma parents_grow:
  assumes "ok_root r" "safe_parts ss"
  shows "grows a (ensure_parent_directories a r (join_strings ''/'' ss))"
proof (cases "butlast ss = []")
  case False
  have p: "safe_parts (butlast ss)" using assms(2) False by (auto simp: safe_parts_def list_all_iff dest: in_set_butlastD)
  then have "filter (\<lambda>s. s \<noteq> []) (split_on CHR ''/'' (join_strings ''/'' (butlast ss))) = butlast ss"
    by (simp add: safe_parts_join) (auto simp: safe_parts_def list_all_iff intro!: filter_True)
  then show ?thesis
    using hierarchy_grows [OF assms(1), of "[]" "butlast ss" a] False p assms(2)
    by (simp add: ensure_parent_directories_def Let_def ensure_directory_hierarchy_def safe_parts_join)
qed (simp add: ensure_parent_directories_def safe_parts_join [OF assms(2)])

lemma file_entry_grows:
  assumes "grows a a'" "ok_archive a" "safe_parts ss" "join_strings ''/'' ss \<notin> set (dkeys a)"
  shows "ok_archive (a' @ [(join_strings ''/'' ss, d)])"
proof -
  have "join_strings ''/'' ss \<notin> set (dkeys a')"
    using assms(1,4) strip_slashes(3) [OF assms(3)] unfolding grows_def by blast
  then show ?thesis using assms(1,2) safe_entry_join [OF assms(3)] by (auto simp: ok_archive_def grows_def)
qed

lemma archive_file_ok:
  assumes "archive_file api b a r = Inr a'" "ok_archive a" "snd r = join_strings ''/'' ss" "safe_parts ss"
  shows "ok_archive a' \<and> set (dkeys a) \<subseteq> set (dkeys a') \<and> snd r \<in> set (dkeys a')"
proof (cases "snd r \<in> set (dkeys a)")
  case False
  have g: "grows a (ensure_parent_directories a [] (snd r))"
    unfolding assms(3) by (rule parents_grow [OF _ assms(4)]) (simp add: ok_root_def)
  have a': "a' = ensure_parent_directories a [] (snd r) @ [(snd r, the (head_object api b (fst r)))]"
    using assms(1) False by (simp add: archive_file_def split: if_splits)
  have "ok_archive a'" unfolding a' assms(3)
    by (rule file_entry_grows [OF g [unfolded assms(3)] assms(2,4)]) (use False assms(3) in simp)
  moreover have "set (dkeys a) \<subseteq> set (dkeys (ensure_parent_directories a [] (snd r)))" using g by (simp add: grows_def)
  ultimately show ?thesis by (simp add: a') blast
qed (use assms in \<open>auto simp: archive_file_def split: if_splits\<close>)

lemma archive_member_ok:
  assumes "archive_member api b r a name = Inr a'" "ok_archive a" "safe_parts [snd r]"
  shows "ok_archive a' \<and> set (dkeys a) \<subseteq> set (dkeys a')
    \<and> (name = fst r \<or> drop (length (fst r)) name = [] \<or>
       (\<exists>rel. sanitize_archive_item_path (Some (drop (length (fst r)) name)) (drop (length (fst r)) name) = Inr rel
          \<and> archive_path_for (snd r) rel \<in> set (dkeys a')))"
proof (cases "name = fst r \<or> drop (length (fst r)) name = []")
  case False
  then obtain rel where s: "sanitize_archive_item_path (Some (drop (length (fst r)) name)) (drop (length (fst r)) name) = Inr rel"
    using assms(1) by (auto simp: archive_member_def Let_def bind_err_def split: sum.splits)
  then obtain ss where ss: "rel = join_strings ''/'' ss" "safe_parts ss" using sanitized_item by blast
  have r: "ok_root (snd r)" using assms(3) by (simp add: ok_root_def)
  note p = path_for_join [OF r ss(2), folded ss(1)]
  have g: "grows a (ensure_parent_directories a (snd r) rel)"
    unfolding ss(1) by (rule parents_grow [OF r ss(2)])
  have f: "archive_path_for (snd r) rel \<notin> set (dkeys a) \<Longrightarrow>
      ok_archive (ensure_parent_directories a (snd r) rel @ [(archive_path_for (snd r) rel, d)])" for d
    using file_entry_grows [OF g assms(2)] p by metis
  have "set (dkeys a) \<subseteq> set (dkeys (ensure_parent_directories a (snd r) rel))" using g by (simp add: grows_def)
  moreover have "a' = a \<and> archive_path_for (snd r) rel \<in> set (dkeys a) \<or>
      archive_path_for (snd r) rel \<notin> set (dkeys a) \<and>
      (\<exists>d. a' = ensure_parent_directories a (snd r) rel @ [(archive_path_for (snd r) rel, d)])"
    using assms(1) False s by (auto simp: archive_member_def Let_def split: if_splits option.splits)
  ultimately have "ok_archive a' \<and> set (dkeys a) \<subseteq> set (dkeys a') \<and> archive_path_for (snd r) rel \<in> set (dkeys a')"
    using f assms(2) by (elim disjE conjE exE) (simp_all, blast)
  then show ?thesis using s by blast
qed (use assms in \<open>auto simp: archive_member_def Let_def\<close>)

lemma fold_archive:
  assumes step: "\<And>a x a'. x \<in> set xs \<Longrightarrow> f a x = Inr a' \<Longrightarrow> ok_archive a \<Longrightarrow>
      ok_archive a' \<and> set (dkeys a) \<subseteq> set (dkeys a') \<and> Q x (set (dkeys a'))"
    and mono: "\<And>x A B. Q x A \<Longrightarrow> A \<subseteq> B \<Longrightarrow> Q x B"
  shows "fold_err f a xs = Inr a' \<Longrightarrow> ok_archive a \<Longrightarrow>
    ok_archive a' \<and> set (dkeys a) \<subseteq> set (dkeys a') \<and> (\<forall>x \<in> set xs. Q x (set (dkeys a')))"
  using step
proof (induction xs arbitrary: a)
  case (Cons x xs)
  then obtain a1 where a1: "f a x = Inr a1" "fold_err f a1 xs = Inr a'" by (auto simp: bind_err_eq_Inr)
  have s: "ok_archive a1 \<and> set (dkeys a) \<subseteq> set (dkeys a1) \<and> Q x (set (dkeys a1))"
    using Cons.prems(3) [OF _ a1(1) Cons.prems(2)] by simp
  have ih: "ok_archive a' \<and> set (dkeys a1) \<subseteq> set (dkeys a') \<and> (\<forall>x \<in> set xs. Q x (set (dkeys a')))"
    using Cons.IH [OF a1(2)] Cons.prems(3) s by (metis list.set_intros(2))
  then show ?case using s mono by (metis set_ConsD subset_trans)
qed simp

text \<open>What the parsing of a request lets through.\<close>

definition ok_requests :: "file_request list \<times> folder_request list \<Rightarrow> bool" where
  "ok_requests rs \<longleftrightarrow> (\<forall>f \<in> set (fst rs). \<exists>ss. snd f = join_strings ''/'' ss \<and> safe_parts ss)
     \<and> (\<forall>d \<in> set (snd rs). safe_parts [snd d])"

lemma parse_item_ok:
  assumes "parse_item acc i = Inr acc'" "ok_requests acc"
  shows "ok_requests acc'"
proof -
  obtain files folders where acc: "acc = (files, folders)" by (rule prod.exhaust)
  have root: "safe_parts [r]" if "validate_entry_name x = Inr r" for x r
    using that by (cases x) (auto simp: validate_entry_name_def safe_parts_def split: if_splits)
  have "acc' = acc \<or> (\<exists>p r x. acc' = (files, folders @ [(p, r)]) \<and> validate_entry_name x = Inr r)
      \<or> (\<exists>n path x. acc' = (files @ [(n, path)], folders) \<and> sanitize_archive_item_path x n = Inr path)"
    using assms(1) unfolding acc parse_item_def Let_def
    by (simp split: if_splits sum.splits option.splits) blast+
  then show ?thesis
  proof (elim disjE exE conjE)
    fix p r x assume "acc' = (files, folders @ [(p, r)])" "validate_entry_name x = Inr r"
    then show ?thesis using root assms(2) by (simp add: ok_requests_def acc)
  next
    fix n path x assume "acc' = (files @ [(n, path)], folders)" "sanitize_archive_item_path x n = Inr path"
    then show ?thesis using sanitized_item [of x n path] assms(2) by (simp add: ok_requests_def acc)
  qed (use assms(2) in simp)
qed

lemma parse_ok:
  assumes "parse_batch_download_payload items an = Inr (files, folders, name)"
  shows "ok_requests (files, folders)"
proof -
  have fold: "fold_err parse_item acc is = Inr acc' \<Longrightarrow> ok_requests acc \<Longrightarrow> ok_requests acc'" for acc "is" acc'
    by (induction "is" arbitrary: acc) (auto simp: bind_err_eq_Inr dest: parse_item_ok)
  have "ok_requests ([], [])" by (simp add: ok_requests_def)
  moreover have "fold_err parse_item ([], []) items = Inr (files, folders)"
    using assms by (auto simp: parse_batch_download_payload_def bind_err_eq_Inr split: if_splits)
  ultimately show ?thesis using fold by blast
qed

text \<open>A file of a requested folder is in the archive; the folder's own marker need not be.\<close>

definition archived :: "folder_request \<Rightarrow> string \<Rightarrow> string set \<Rightarrow> bool" where
  "archived r name entries \<longleftrightarrow> drop (length (fst r)) name = [] \<or>
     (\<exists>rel. sanitize_archive_item_path (Some (drop (length (fst r)) name)) (drop (length (fst r)) name) = Inr rel
        \<and> archive_path_for (snd r) rel \<in> entries)"

lemma archive_folder_ok:
  assumes "archive_folder api b a r = Inr a'" "ok_archive a" "safe_parts [snd r]"
  shows "ok_archive a' \<and> set (dkeys a) \<subseteq> set (dkeys a') \<and> (\<forall>k \<in> set (list_objects api b (fst r)). archived r k (set (dkeys a')))"
proof -
  let ?a = "ensure_directory_entry a (snd r)"
  have g: "grows a ?a" using directory_entry_grows [OF assms(3), of a] by simp
  have member: "ok_archive a2 \<and> set (dkeys a1) \<subseteq> set (dkeys a2) \<and> archived r k (set (dkeys a2))"
    if "archive_member api b r a1 k = Inr a2" "ok_archive a1" for a1 a2 k
    using archive_member_ok [OF that assms(3)] by (auto simp: archived_def)
  have "ok_archive a' \<and> set (dkeys ?a) \<subseteq> set (dkeys a') \<and> (\<forall>k \<in> set (list_objects api b (fst r)). archived r k (set (dkeys a')))"
  proof (rule fold_archive [of _ "archive_member api b r" "archived r" ?a a'])
    show "fold_err (archive_member api b r) ?a (list_objects api b (fst r)) = Inr a'"
      using assms(1) by (simp add: archive_folder_def list_prefix_def)
    show "ok_archive ?a" using g assms(2) by (simp add: grows_def)
    show "archived r x A \<Longrightarrow> A \<subseteq> B \<Longrightarrow> archived r x B" for x A B by (auto simp: archived_def)
  qed (rule member)
  then show ?thesis using g unfolding grows_def by blast
qed


definition demo_download :: "download_item list" where
  "demo_download =
     [\<lparr>di_type = None, di_prefix = None, di_archive_path = None, di_name = None, di_object_name = Some ''/b''\<rparr>,
      \<lparr>di_type = Some ''folder'', di_prefix = Some ''a'', di_archive_path = None, di_name = Some ''a'', di_object_name = None\<rparr>]"


text \<open>
  The marker of a folder inside a folder is not skipped as that of the folder itself is: it becomes a
  file entry of the name under which the files below it need a directory.
\<close>

lemma marker_becomes_a_file:
  "map_sum id dkeys (write_archive dict_bucket [(''d/'', []), (''d/s/'', []), (''d/s/x'', ''1'')] [] [(''d/'', ''d'')])
     = Inr [''d/'', ''d/s'', ''d/s/'', ''d/s/x'']"
  by code_simp

end
