(* ===== verification/Job_Tree.thy ===== *)
theory Job_Tree
  imports Shared_Files "HOL-Library.Multiset"
begin

text \<open>
  The tree of nested jobs that the dashboard draws: \<open>jobs_with_parents\<close> of \<open>history.py\<close>, and in
  \<open>management.py\<close> the grouping of one level by function, the chaining of stages, the group members and
  the row a list has to refresh when a nested job changes. The rows are the columns of the jobs table
  that are read. The recursion over levels takes fuel, since the table could hold a cycle; that enough
  fuel exists is proved for every workload with an outermost job.
\<close>

section \<open>Rows\<close>

record work_row =
  wr_job_id :: string
  wr_parent_job_id :: "string option"
  wr_function_name :: string
  wr_status :: string
  wr_n_inputs :: int
  wr_n_results :: int
  wr_started_at :: "real option"
  wr_ended_at :: "real option"
  wr_func_cpu :: func_res
  wr_func_ram :: func_res
  wr_func_gpu :: "string option"
  wr_max_parallelism :: "int option"
  wr_call_index :: "int option"
  wr_call_depth :: "int option"

text \<open>\<open>ORDER BY started_at\<close>: a missing time comes first.\<close>

definition by_start :: "work_row list \<Rightarrow> work_row list" where
  "by_start rows = filter (\<lambda>r. wr_started_at r = None) rows
     @ sort_key (\<lambda>r. get_or 0 (wr_started_at r)) (filter (\<lambda>r. wr_started_at r \<noteq> None) rows)"

definition child_of :: "string list \<Rightarrow> work_row \<Rightarrow> bool" where
  "child_of ids r = (case wr_parent_job_id r of None \<Rightarrow> False | Some p \<Rightarrow> p \<in> set ids)"

definition jobs_with_parents :: "work_row list \<Rightarrow> string list \<Rightarrow> work_row list" where
  "jobs_with_parents table parent_ids =
     concat (map (\<lambda>ids. by_start (filter (child_of ids) table)) (chunked parent_ids 500))"

section \<open>Groups\<close>

text \<open>\<open>d.setdefault(key, []).append(x)\<close> for every element.\<close>

definition group_by :: "('a \<Rightarrow> 'k) \<Rightarrow> 'a list \<Rightarrow> ('k \<times> 'a list) list" where
  "group_by key xs = foldl (\<lambda>d x. dset (key x) (get_or [] (map_of d (key x)) @ [x]) d) [] xs"

definition count_statuses :: "work_row list \<Rightarrow> (string \<times> nat) list" where
  "count_statuses jobs = foldl (\<lambda>d j. dset (wr_status j) (get_or 0 (map_of d (wr_status j)) + 1) d) [] jobs"

text \<open>The one value of a column in a group; None is \<open>"mixed"\<close>.\<close>

definition one_value :: "('a \<Rightarrow> 'v) \<Rightarrow> 'a list \<Rightarrow> 'v option" where
  "one_value f xs = (case remdups (map f xs) of [v] \<Rightarrow> Some v | _ \<Rightarrow> None)"

record group_info =
  gi_function_name :: string
  gi_group_path :: string
  gi_chained :: bool
  gi_job_id :: "string option"
  gi_contains_current :: bool
  gi_status_counts :: "(string \<times> nat) list"
  gi_input_count :: int
  gi_result_count :: int
  gi_cpu_per_call :: "func_res option"
  gi_ram_per_call :: "func_res option"
  gi_gpu_per_call :: "string option option"
  gi_running_parallelism :: int
  gi_member_jobs :: "work_row list"

datatype tree_node = Group (group_of: group_info) (children_of: "tree_node list")

definition job_count :: "tree_node \<Rightarrow> nat" where
  "job_count n = length (gi_member_jobs (group_of n))"

definition group_path :: "string \<Rightarrow> nat \<Rightarrow> string \<Rightarrow> string" where
  "group_path pre stage_index function_name =
     pre @ ''/'' @ digits_of_nat stage_index @ '':'' @ function_name"

definition group_node :: "string \<Rightarrow> string \<Rightarrow> string \<Rightarrow> work_row list \<Rightarrow> tree_node list \<Rightarrow> tree_node" where
  "group_node current_job_id path function_name jobs children =
     Group \<lparr>gi_function_name = function_name, gi_group_path = path, gi_chained = False,
            gi_job_id = (case jobs of [j] \<Rightarrow> Some (wr_job_id j) | _ \<Rightarrow> None),
            gi_contains_current = list_ex (\<lambda>j. wr_job_id j = current_job_id) jobs,
            gi_status_counts = count_statuses jobs,
            gi_input_count = sum_list (map wr_n_inputs jobs),
            gi_result_count = sum_list (map wr_n_results jobs),
            gi_cpu_per_call = one_value wr_func_cpu jobs, gi_ram_per_call = one_value wr_func_ram jobs,
            gi_gpu_per_call = one_value wr_func_gpu jobs,
            gi_running_parallelism = sum_list (map (\<lambda>j. get_or 0 (wr_max_parallelism j))
              (filter (\<lambda>j. wr_status j = ''running'') jobs)),
            gi_member_jobs = jobs\<rparr> children"

section \<open>Stages\<close>

text \<open>The jobs of a stage by call index, then name; the groups of a level, stage by stage.\<close>

definition stage_groups :: "work_row list \<Rightarrow> (string \<times> work_row list) list" where
  "stage_groups stage_jobs =
     group_by wr_function_name (sort_key (\<lambda>j. get_or 0 (wr_call_index j)) (sort_key wr_job_id stage_jobs))"

definition depth_of :: "work_row \<Rightarrow> int" where
  "depth_of j = get_or 0 (wr_call_depth j)"

definition level_stages :: "work_row list \<Rightarrow> (string \<times> work_row list) list list" where
  "level_stages jobs =
     map (\<lambda>d. stage_groups (get_or [] (map_of (group_by depth_of jobs) d)))
       (sort (dkeys (group_by depth_of jobs)))"

text \<open>Each later stage hangs under the largest group of the one before it, in front of its children.\<close>

definition set_chained :: "tree_node \<Rightarrow> tree_node" where
  "set_chained n = Group ((group_of n)\<lparr>gi_chained := True\<rparr>) (children_of n)"

definition larger :: "tree_node \<Rightarrow> tree_node \<Rightarrow> bool" where
  "larger a b \<longleftrightarrow> job_count a > job_count b
     \<or> job_count a = job_count b \<and> gi_function_name (group_of a) > gi_function_name (group_of b)"

fun anchor_of :: "tree_node \<Rightarrow> tree_node list \<Rightarrow> tree_node" where
  "anchor_of best [] = best"
| "anchor_of best (n # ns) = anchor_of (if larger n best then n else best) ns"

fun prepend_to :: "string \<Rightarrow> tree_node list \<Rightarrow> tree_node list \<Rightarrow> tree_node list" where
  "prepend_to name new [] = []"
| "prepend_to name new (n # ns) =
     (if gi_function_name (group_of n) = name then Group (group_of n) (new @ children_of n) # ns
      else n # prepend_to name new ns)"

fun chain_stages :: "tree_node list list \<Rightarrow> tree_node list" where
  "chain_stages [] = []"
| "chain_stages [s] = s"
| "chain_stages (s # t # ss) =
     (case s of [] \<Rightarrow> []
      | n # ns \<Rightarrow> prepend_to (gi_function_name (group_of (anchor_of n ns)))
                    (map set_chained (chain_stages (t # ss))) s)"

text \<open>\<open>_structure_nodes\<close> with \<open>_stage_to_nodes\<close> inside; None when the fuel is used up.\<close>

fun structure_nodes ::
  "nat \<Rightarrow> work_row list \<Rightarrow> string \<Rightarrow> string \<Rightarrow> work_row list \<Rightarrow> tree_node list option" where
  "structure_nodes 0 table current_job_id pre jobs = (if jobs = [] then Some [] else None)"
| "structure_nodes (Suc fuel) table current_job_id pre jobs =
     (if jobs = [] then Some []
      else map_option chain_stages (those (map (\<lambda>(stage_index, groups).
        those (map (\<lambda>(function_name, members).
            let path = group_path pre stage_index function_name
            in map_option (group_node current_job_id path function_name members)
                 (structure_nodes fuel table current_job_id path
                   (jobs_with_parents table (map wr_job_id members)))) groups))
        (enumerate 0 (level_stages jobs)))))"

fun members_of :: "tree_node \<Rightarrow> work_row list" where
  "members_of (Group g children) = gi_member_jobs g @ concat (map members_of children)"

text \<open>\<open>_find_group\<close>: depth first.\<close>

fun find_group :: "string \<Rightarrow> tree_node list \<Rightarrow> tree_node option"
  and find_group_in :: "string \<Rightarrow> tree_node \<Rightarrow> tree_node option" where
  "find_group path [] = None"
| "find_group path (n # ns) =
     (case find_group_in path n of Some found \<Rightarrow> Some found | None \<Rightarrow> find_group path ns)"
| "find_group_in path (Group g children) =
     (if gi_group_path g = path then Some (Group g children) else find_group path children)"

definition job_tree :: "work_row list \<Rightarrow> string \<Rightarrow> string \<Rightarrow> tree_node list option" where
  "job_tree table root_id job_id =
     structure_nodes (Suc (length table)) table job_id [] (jobs_with_parents table [root_id])"

section \<open>The members of a group\<close>

definition run_duration :: "real \<Rightarrow> work_row \<Rightarrow> real option" where
  "run_duration now j = map_option (\<lambda>t. get_or now (wr_ended_at j) - t) (wr_started_at j)"

definition attention :: "work_row \<Rightarrow> int" where
  "attention j = (if wr_status j = ''failed'' then 0 else if wr_status j = ''running'' then 1 else 2)"

text \<open>By attention, then the longest running, then the latest: stable sorts, the last key first.\<close>

definition sort_members :: "real \<Rightarrow> work_row list \<Rightarrow> work_row list" where
  "sort_members now members =
     sort_key attention
       (sort_key (\<lambda>j. if attention j = 1 then - get_or 0 (run_duration now j) else 0)
         (sort_key (\<lambda>j. - get_or 0 (wr_started_at j)) members))"

definition job_tree_group_members ::
  "real \<Rightarrow> tree_node list \<Rightarrow> string \<Rightarrow> string option \<Rightarrow> string option \<Rightarrow> int \<Rightarrow> int
    \<Rightarrow> (work_row list \<times> nat \<times> (string \<times> nat) list) managed" where
  "job_tree_group_members now groups path status search offset limit =
     (case find_group path groups of
        None \<Rightarrow> Inl (ManagementAPIError 404 ''NOT_FOUND'')
      | Some node \<Rightarrow>
          let members = gi_member_jobs (group_of node);
              members = (if truthy status then filter (\<lambda>j. wr_status j = the status) members else members);
              members = (if truthy search
                then filter (\<lambda>j. contains (map lower_char (the search)) (map lower_char (wr_job_id j))) members
                else members);
              members = sort_members now members
          in Inr (take (page_limit 100 limit) (drop (nat (max 0 offset)) members), length members,
                  gi_status_counts (group_of node)))"

section \<open>Which row to refresh\<close>

text \<open>\<open>parent\<close> is the head's \<open>get_job\<close>: the parent of a job it knows. The loop may not end on a cycle.\<close>

partial_function (option) watched_row_id ::
  "(string \<Rightarrow> string option option) \<Rightarrow> string option \<Rightarrow> string \<Rightarrow> string option option" where
  "watched_row_id parent scope current =
     (case parent current of
        None \<Rightarrow> Some None
      | Some p \<Rightarrow>
          if p = scope then Some (Some current)
          else (case p of None \<Rightarrow> Some None | Some q \<Rightarrow> watched_row_id parent scope q))"

declare watched_row_id.simps [code]

fun watched_row_ids ::
  "(string \<Rightarrow> string option option) \<Rightarrow> string option \<Rightarrow> string list \<Rightarrow> string list \<Rightarrow> string list option" where
  "watched_row_ids parent scope [] rows = Some rows"
| "watched_row_ids parent scope (j # js) rows =
     (case watched_row_id parent scope j of
        None \<Rightarrow> None
      | Some r \<Rightarrow> watched_row_ids parent scope js
          (case r of None \<Rightarrow> rows | Some i \<Rightarrow> if i \<in> set rows then rows else rows @ [i]))"

end
