(* ===== verification/Tree_Claims.thy ===== *)
theory Tree_Claims
  imports Job_Tree Storage_Claims
begin

text \<open>
  The tree of a workload holds each of its jobs exactly once, whatever the grouping and chaining do, and
  its construction ends; the row a list refreshes is the one above the changed job.
\<close>

section \<open>Grouping and chaining keep every job\<close>

lemma dset_append_mset:
  "mset (concat (map snd (dset k (get_or [] (map_of d k) @ [x]) d))) = add_mset x (mset (concat (map snd d)))"
  by (induction d) auto

lemma group_by_parts:
  "mset (concat (map snd (group_by key xs))) = mset xs \<and> distinct (dkeys (group_by key xs))
   \<and> [] \<notin> snd ` set (group_by key xs)"
proof -
  define step where "step = (\<lambda>d x. dset (key x) (get_or [] (map_of d (key x)) @ [x]) d)"
  have "distinct (dkeys d) \<Longrightarrow> [] \<notin> snd ` set d \<Longrightarrow>
      mset (concat (map snd (foldl step d xs))) = mset (concat (map snd d)) + mset xs
      \<and> distinct (dkeys (foldl step d xs)) \<and> [] \<notin> snd ` set (foldl step d xs)" for d
  proof (induction xs arbitrary: d)
    case (Cons x xs)
    have "distinct (dkeys (step d x))" using Cons.prems by (simp add: step_def)
    moreover have "[] \<notin> snd ` set (step d x)" using Cons.prems(2) in_dset by (fastforce simp: step_def)
    moreover have "mset (concat (map snd (step d x))) = add_mset x (mset (concat (map snd d)))"
      unfolding step_def by (rule dset_append_mset)
    ultimately show ?case using Cons.IH [of "step d x"] by simp
  qed simp
  from this [of "[]"] show ?thesis by (simp add: group_by_def step_def)
qed

lemma group_by_sorted:
  fixes key :: "'a \<Rightarrow> 'k::linorder"
  shows "mset (concat (map (\<lambda>k. get_or [] (map_of (group_by key xs) k)) (sort (dkeys (group_by key xs))))) = mset xs"
    and "[] \<notin> set (map (\<lambda>k. get_or [] (map_of (group_by key xs) k)) (sort (dkeys (group_by key xs))))"
proof -
  let ?g = "group_by key xs"
  let ?v = "\<lambda>k. get_or [] (map_of ?g k)"
  note g = group_by_parts [of key xs]
  have v: "map ?v (dkeys ?g) = map snd ?g"
    using g by (auto simp: map_of_mem [symmetric] intro!: map_cong)
  have sum: "mset (concat (map w ks)) = (\<Sum>k\<in>#mset ks. mset (w k))" for w :: "'k \<Rightarrow> 'a list" and ks
    by (induction ks) auto
  have "mset (concat (map ?v (sort (dkeys ?g)))) = mset (concat (map ?v (dkeys ?g)))"
    unfolding sum mset_sort ..
  then show "mset (concat (map ?v (sort (dkeys ?g)))) = mset xs" using g by (simp only: v)
  have "set (map ?v (sort (dkeys ?g))) = set (map ?v (dkeys ?g))" by (simp only: set_map set_sort)
  then show "[] \<notin> set (map ?v (sort (dkeys ?g)))" using g unfolding v by auto
qed

lemma stage_groups_parts:
  "mset (concat (map snd (stage_groups jobs))) = mset jobs" "jobs \<noteq> [] \<Longrightarrow> stage_groups jobs \<noteq> []"
proof -
  show m: "mset (concat (map snd (stage_groups jobs))) = mset jobs"
    by (simp only: stage_groups_def group_by_parts mset_sort)
  show "stage_groups jobs \<noteq> []" if "jobs \<noteq> []" using m that by force
qed

lemma level_stages_parts:
  "mset (concat (map snd (concat (level_stages jobs)))) = mset jobs" "[] \<notin> set (level_stages jobs)"
proof -
  let ?parts = "map (\<lambda>d. get_or [] (map_of (group_by depth_of jobs) d)) (sort (dkeys (group_by depth_of jobs)))"
  have l: "level_stages jobs = map stage_groups ?parts" by (simp add: level_stages_def)
  have "mset (concat (map snd (concat (map stage_groups ps)))) = mset (concat ps)" for ps
    by (induction ps) (simp_all add: stage_groups_parts(1))
  then show "mset (concat (map snd (concat (level_stages jobs)))) = mset jobs"
    unfolding l using group_by_sorted(1) [of depth_of jobs] by (simp only:)
  show "[] \<notin> set (level_stages jobs)"
  proof
    assume "[] \<in> set (level_stages jobs)"
    then obtain p where "p \<in> set ?parts" "stage_groups p = []" unfolding l by (metis (no_types, lifting) imageE set_map)
    then show False using stage_groups_parts(2) [of p] group_by_sorted(2) [of depth_of jobs] by metis
  qed
qed

text \<open>The jobs in a list of trees.\<close>

definition mem :: "tree_node list \<Rightarrow> work_row multiset" where
  "mem ns = mset (concat (map members_of ns))"

lemma mem_simps [simp]: "mem [] = {#}" "mem (n # ns) = mset (members_of n) + mem ns" "mem (a @ b) = mem a + mem b"
  by (simp_all add: mem_def)

lemma members_chained [simp]: "members_of (set_chained n) = members_of n"
  by (cases n) (simp add: set_chained_def)

lemma mem_chained: "mem (map set_chained ns) = mem ns"
  by (induction ns) simp_all

lemma mem_prepend:
  "name \<in> (\<lambda>n. gi_function_name (group_of n)) ` set ns \<Longrightarrow> mem (prepend_to name new ns) = mem new + mem ns"
proof (induction ns)
  case (Cons n ns)
  then show ?case by (cases n) (auto simp: mem_def)
qed simp

lemma anchor_in: "anchor_of n ns \<in> set (n # ns)"
proof (induction ns arbitrary: n)
  case (Cons a ns)
  then show ?case using Cons [of a] Cons [of n] by auto
qed simp

lemma chain_members: "[] \<notin> set ss \<Longrightarrow> mem (chain_stages ss) = sum_list (map mem ss)"
proof (induction ss rule: chain_stages.induct)
  case (3 s t ss)
  obtain n ns where s: "s = n # ns" using 3(2) by (cases s) auto
  have "gi_function_name (group_of (anchor_of n ns)) \<in> (\<lambda>n. gi_function_name (group_of n)) ` set s"
    using anchor_in [of n ns] unfolding s by blast
  then have "mem (chain_stages (s # t # ss)) = mem (chain_stages (t # ss)) + mem s"
    using mem_prepend mem_chained by (simp add: s del: prepend_to.simps mem_simps(2) list.map)
  then show ?case using 3 s by (simp add: add.commute)
qed simp_all

section \<open>Generations\<close>

text \<open>The rows of \<open>n\<close> generations below a set of jobs.\<close>

definition sons :: "work_row list \<Rightarrow> string set \<Rightarrow> work_row multiset" where
  "sons table ids = filter_mset (\<lambda>r. wr_parent_job_id r \<in> Some ` ids) (mset table)"

fun gen :: "nat \<Rightarrow> work_row list \<Rightarrow> string set \<Rightarrow> work_row multiset" where
  "gen 0 table ids = {#}"
| "gen (Suc n) table ids = sons table ids + gen n table (wr_job_id ` set_mset (sons table ids))"

lemma jobs_with_parents_sons:
  assumes "distinct ids"
  shows "mset (jobs_with_parents table ids) = sons table (set ids)"
proof -
  have start: "mset (by_start rows) = mset rows" for rows
    by (simp add: by_start_def)
  have child: "filter_mset (child_of c) (mset table) = sons table (set c)" for c
    unfolding sons_def by (rule filter_mset_cong) (auto simp: child_of_def split: option.splits)
  have un: "sons table (A \<union> B) = sons table A + sons table B" if "A \<inter> B = {}" for A B
    unfolding sons_def using that
    by (auto simp: multiset_eq_iff)
  have "distinct (concat cs) \<Longrightarrow> mset (concat (map (\<lambda>c. by_start (filter (child_of c) table)) cs)) = sons table (set (concat cs))" for cs
  proof (induction cs)
    case (Cons c cs)
    then show ?case using un [of "set c" "set (concat cs)"] by (simp add: start child)
  qed (simp add: sons_def)
  from this [of "chunked ids 500"] show ?thesis
    using assms chunked_concat [of 500 ids] by (simp add: jobs_with_parents_def)
qed

lemma distinct_sons:
  assumes "distinct (map wr_job_id table)" "distinct ids"
  shows "distinct (map wr_job_id (jobs_with_parents table ids))"
proof -
  have "mset (map wr_job_id (jobs_with_parents table ids)) \<subseteq># mset (map wr_job_id table)"
    by (simp add: jobs_with_parents_sons [OF assms(2)] sons_def image_mset_subseteq_mono)
  then show ?thesis by (metis assms(1) distinct_append mset_subset_eq_exists_conv mset_append mset_eq_imp_distinct_iff ex_mset)
qed

lemma gen_disjoint:
  assumes d: "distinct (map wr_job_id table)"
  shows "A \<inter> B = {} \<Longrightarrow> gen n table (A \<union> B) = gen n table A + gen n table B"
proof (induction n arbitrary: A B)
  case (Suc n)
  let ?c = "\<lambda>I. wr_job_id ` set_mset (sons table I)"
  have s: "sons table (A \<union> B) = sons table A + sons table B"
    unfolding sons_def using Suc.prems by (auto simp: multiset_eq_iff)
  have "?c A \<inter> ?c B = {}"
  proof (rule ccontr)
    assume "?c A \<inter> ?c B \<noteq> {}"
    then obtain r q where rq: "r \<in># sons table A" "q \<in># sons table B" "wr_job_id r = wr_job_id q" by blast
    then have "r \<in> set table" "q \<in> set table" by (auto simp: sons_def)
    then have "r = q" using rq(3) d by (auto simp: distinct_map inj_on_def)
    then show False using rq Suc.prems by (auto simp: sons_def)
  qed
  from Suc.IH [OF this] show ?case by (simp add: s image_Un)
qed simp

lemma gen_empty [simp]: "gen n table {} = {#}"
  by (induction n) (simp_all add: sons_def)

lemma gen_concat:
  assumes d: "distinct (map wr_job_id table)"
  shows "distinct (map wr_job_id (concat ms)) \<Longrightarrow>
    sum_list (map (\<lambda>m. gen n table (wr_job_id ` set m)) ms) = gen n table (wr_job_id ` set (concat ms))"
proof (induction ms)
  case (Cons m ms)
  then have "wr_job_id ` set m \<inter> wr_job_id ` set (concat ms) = {}" by auto
  from gen_disjoint [OF d this, of n] show ?case using Cons by (simp add: image_Un)
qed simp

lemma those_Some: "those xs = Some ys \<longleftrightarrow> xs = map Some ys"
  by (induction xs arbitrary: ys) (auto split: option.splits)

text \<open>The groups of a level with their subtrees hold the level and the generations below it.\<close>

lemma structure_members:
  assumes d: "distinct (map wr_job_id table)"
  shows "structure_nodes n table cur pre jobs = Some nodes \<Longrightarrow> distinct (map wr_job_id jobs) \<Longrightarrow>
    mem nodes = mset jobs + gen n table (wr_job_id ` set jobs)"
proof (induction n arbitrary: pre jobs nodes)
  case 0
  then show ?case by (simp split: if_splits)
next
  case (Suc n)
  show ?case
  proof (cases "jobs = []")
    case False
    let ?path = "\<lambda>i f. group_path pre i f"
    define sub where "sub = (\<lambda>i (f, m). map_option (group_node cur (?path i f) f m)
      (structure_nodes n table cur (?path i f) (jobs_with_parents table (map wr_job_id m))))"
    define stages where "stages = level_stages jobs"
    obtain nss where nss: "those (map (\<lambda>(i, gs). those (map (sub i) gs)) (enumerate 0 stages)) = Some nss"
      and nodes: "nodes = chain_stages nss"
      using Suc.prems(1) False by (auto simp: sub_def stages_def case_prod_beta' Let_def)
    have parts: "mset (concat (map snd (concat stages))) = mset jobs" "[] \<notin> set stages"
      using level_stages_parts [of jobs] by (simp_all add: stages_def)
    have dp: "distinct (map wr_job_id (concat (map snd (concat stages))))"
      using Suc.prems(2) parts(1) by (metis mset_map mset_eq_imp_distinct_iff)
    have one: "mset (members_of nd) = mset (snd g) + gen (Suc n) table (wr_job_id ` set (snd g))"
      if g: "sub i g = Some nd" "distinct (map wr_job_id (snd g))" for i g nd
    proof -
      obtain f m where fm: "g = (f, m)" by (rule prod.exhaust)
      obtain ch where ch: "structure_nodes n table cur (?path i f) (jobs_with_parents table (map wr_job_id m)) = Some ch"
        and nd: "nd = group_node cur (?path i f) f m ch"
        using g(1) by (auto simp: sub_def fm)
      have dm: "distinct (map wr_job_id m)" using g(2) fm by simp
      have "mem ch = gen (Suc n) table (wr_job_id ` set m)"
        using Suc.IH [OF ch distinct_sons [OF d dm]] jobs_with_parents_sons [OF dm, of table]
        by (metis gen.simps(2) list.set_map set_mset_mset)
      then show ?thesis by (simp add: nd fm group_node_def mem_def)
    qed
    have stage: "mem ns = mset (concat (map snd gs)) + sum_list (map (\<lambda>g. gen (Suc n) table (wr_job_id ` set (snd g))) gs)"
      if "map (sub i) gs = map Some ns" "distinct (map wr_job_id (concat (map snd gs)))" for i gs ns
      using that
    proof (induction gs arbitrary: ns)
      case (Cons g gs)
      then obtain nd ns' where "ns = nd # ns'" "sub i g = Some nd" "map (sub i) gs = map Some ns'" by (cases ns) auto
      then show ?case using Cons one [of i g nd] by (simp del: gen.simps)
    qed simp
    have all: "sum_list (map mem nss) = mset (concat (map snd (concat ss)))
        + sum_list (map (\<lambda>g. gen (Suc n) table (wr_job_id ` set (snd g))) (concat ss)) \<and> ([] \<notin> set ss \<longrightarrow> [] \<notin> set nss)"
      if "map (\<lambda>(i, gs). those (map (sub i) gs)) (enumerate k ss) = map Some nss"
        "distinct (map wr_job_id (concat (map snd (concat ss))))" for k ss nss
      using that
    proof (induction ss arbitrary: k nss)
      case (Cons gs ss)
      then obtain ns nss' where n: "nss = ns # nss'" "map (sub k) gs = map Some ns"
        "map (\<lambda>(i, gs). those (map (sub i) gs)) (enumerate (Suc k) ss) = map Some nss'"
        by (cases nss) (auto simp: those_Some)
      then show ?case using Cons.IH [OF n(3)] Cons.prems(2) stage [OF n(2)] by (auto simp del: gen.simps)
    qed simp
    have "map (\<lambda>(i, gs). those (map (sub i) gs)) (enumerate 0 stages) = map Some nss"
      using nss by (simp only: those_Some)
    note a = all [OF this dp]
    have "mem nodes = sum_list (map mem nss)" unfolding nodes using a parts(2) by (intro chain_members) simp
    also have "\<dots> = mset jobs + sum_list (map (\<lambda>m. gen (Suc n) table (wr_job_id ` set m)) (map snd (concat stages)))"
      using a parts(1) by (simp add: o_def del: gen.simps)
    also have "sum_list (map (\<lambda>m. gen (Suc n) table (wr_job_id ` set m)) (map snd (concat stages))) =
        gen (Suc n) table (wr_job_id ` set jobs)"
      using gen_concat [OF d dp, of "Suc n"] parts(1) by (metis set_mset_mset)
    finally show ?thesis .
  qed (use Suc.prems in simp)
qed

section \<open>Ancestors\<close>

definition parent_of :: "work_row list \<Rightarrow> string \<Rightarrow> string option" where
  "parent_of table i = Option.bind (find (\<lambda>r. wr_job_id r = i) table) wr_parent_job_id"

fun anc :: "work_row list \<Rightarrow> nat \<Rightarrow> string \<Rightarrow> string option" where
  "anc table 0 i = Some i"
| "anc table (Suc k) i = Option.bind (parent_of table i) (anc table k)"

lemma anc_add: "anc table (a + b) i = Option.bind (anc table a i) (anc table b)"
proof (induction a arbitrary: i)
  case (Suc a)
  then show ?case by (cases "parent_of table i") simp_all
qed simp

lemma anc_Suc: "anc table (Suc k) i = Option.bind (anc table k i) (parent_of table)"
proof -
  have "anc table 1 x = parent_of table x" for x by (cases "parent_of table x") simp_all
  then have "anc table 1 = parent_of table" by (rule ext)
  then show ?thesis using anc_add [of table k 1 i] by simp
qed

lemma parent_of_row:
  assumes "distinct (map wr_job_id table)" "r \<in> set table"
  shows "parent_of table (wr_job_id r) = wr_parent_job_id r"
proof -
  have "find (\<lambda>q. wr_job_id q = wr_job_id r) table = Some r"
    using assms by (induction table) auto
  then show ?thesis by (simp add: parent_of_def)
qed

lemma parent_of_Some: "parent_of table i = Some p \<Longrightarrow> \<exists>r \<in> set table. wr_job_id r = i \<and> wr_parent_job_id r = Some p"
  by (auto simp: parent_of_def bind_eq_Some_conv find_Some_iff)

lemma in_sons_ids:
  assumes "distinct (map wr_job_id table)"
  shows "x \<in> wr_job_id ` set_mset (sons table ids) \<longleftrightarrow> parent_of table x \<in> Some ` ids"
proof
  assume "x \<in> wr_job_id ` set_mset (sons table ids)"
  then obtain r where "r \<in> set table" "wr_job_id r = x" "wr_parent_job_id r \<in> Some ` ids" by (auto simp: sons_def)
  then show "parent_of table x \<in> Some ` ids" using parent_of_row [OF assms, of r] by simp
next
  assume "parent_of table x \<in> Some ` ids"
  then obtain p where p: "parent_of table x = Some p" "p \<in> ids" by auto
  then obtain r where "r \<in> set table" "wr_job_id r = x" "wr_parent_job_id r = Some p" using parent_of_Some by blast
  then show "x \<in> wr_job_id ` set_mset (sons table ids)" using p(2) by (auto simp: sons_def)
qed

text \<open>A row is counted once for every one of its \<open>n\<close> next ancestors that is in the set.\<close>

lemma count_gen:
  assumes d: "distinct (map wr_job_id table)" and r: "r \<in> set table"
  shows "count (gen n table ids) r = card {k \<in> {1..n}. anc table k (wr_job_id r) \<in> Some ` ids}"
proof (induction n arbitrary: ids)
  case (Suc n)
  let ?P = "\<lambda>k. anc table k (wr_job_id r) \<in> Some ` ids"
  have "distinct table" using d by (simp add: distinct_map)
  then have "count (mset table) r = 1" using r by (simp add: distinct_count_atmost_1)
  then have c: "count (sons table ids) r = (if ?P 1 then 1 else 0)"
    using parent_of_row [OF d r] by (cases "wr_parent_job_id r") (auto simp: sons_def)
  have "anc table k (wr_job_id r) \<in> Some ` wr_job_id ` set_mset (sons table ids) \<longleftrightarrow> ?P (Suc k)" for k
    using in_sons_ids [OF d, of _ ids] unfolding anc_Suc
    by (cases "anc table k (wr_job_id r)") (auto simp del: anc.simps)
  then have "count (gen n table (wr_job_id ` set_mset (sons table ids))) r = card {k \<in> {1..n}. ?P (Suc k)}"
    unfolding Suc.IH by simp
  moreover have "{k \<in> {1..Suc n}. ?P k} = {k \<in> {1}. ?P k} \<union> Suc ` {k \<in> {1..n}. ?P (Suc k)}"
  proof -
    have "k \<in> {k \<in> {1..Suc n}. ?P k} \<longleftrightarrow> k \<in> {k \<in> {1}. ?P k} \<or> (\<exists>m \<in> {k \<in> {1..n}. ?P (Suc k)}. k = Suc m)" for k
    proof (cases k)
      case (Suc m)
      then show ?thesis by (cases m) (auto simp del: anc.simps)
    qed simp
    then show ?thesis by blast
  qed
  moreover have "card ({k \<in> {1}. ?P k} \<union> Suc ` {k \<in> {1..n}. ?P (Suc k)}) = card {k \<in> {1::nat}. ?P k} + card {k \<in> {1..n}. ?P (Suc k)}"
    by (subst card_Un_disjoint) (auto simp: card_image simp del: anc.simps)
  moreover have "card {k \<in> {1::nat}. ?P k} = (if ?P 1 then 1 else 0)" by (auto simp del: anc.simps intro: card_1_singleton_iff [THEN iffD2])
  ultimately show ?case using c by (simp del: anc.simps)
qed simp

text \<open>An outermost job is at most at one distance, and not farther than there are rows.\<close>

lemma one_distance:
  assumes root: "parent_of table top_id = None" "anc table k i = Some top_id" "anc table m i = Some top_id"
  shows "k = m"
proof -
  have "\<not> a < b" if "anc table a i = Some top_id" "anc table b i = Some top_id" for a b
  proof
    assume "a < b"
    then obtain e where "b = a + Suc e" using less_imp_Suc_add by auto
    then show False using that root(1) by (simp add: anc_add del: add_Suc_right)
  qed
  then show ?thesis using root by (metis linorder_neqE_nat)
qed

lemma distance_bound:
  assumes root: "parent_of table top_id = None" and k: "anc table k i = Some top_id"
  shows "k \<le> length table"
proof -
  have ids: "the (anc table j i) \<in> wr_job_id ` set table \<and> anc table j i \<noteq> None" if "j < k" for j
  proof -
    have "anc table (Suc j + (k - Suc j)) i = Some top_id" using that k by simp
    then have "anc table (Suc j) i \<noteq> None" unfolding anc_add by (auto simp: bind_eq_Some_conv)
    then show ?thesis using parent_of_Some unfolding anc_Suc by (force simp: bind_eq_Some_conv)
  qed
  have "inj_on (\<lambda>j. the (anc table j i)) {..<k}"
  proof (rule inj_onI, rule ccontr)
    fix a b assume ab: "a \<in> {..<k}" "b \<in> {..<k}" "the (anc table a i) = the (anc table b i)" "a \<noteq> b"
    have same: "anc table a i = anc table b i" using ids ab by (metis lessThan_iff option.expand)
    have "anc table (a + (k - b)) i = Some top_id" "anc table (b + (k - a)) i = Some top_id"
      using same k ab(1,2) anc_add [of table a "k - b" i] anc_add [of table b "k - b" i]
        anc_add [of table b "k - a" i] anc_add [of table a "k - a" i] by simp_all
    then have "a + (k - b) = k" using one_distance [OF root _ k] by blast
    then show False using ab by auto
  qed
  then have "k = card ((\<lambda>j. the (anc table j i)) ` {..<k})" by (simp add: card_image)
  also have "\<dots> \<le> card (wr_job_id ` set table)" using ids by (intro card_mono) auto
  also have "\<dots> \<le> length table" using card_length card_image_le by (metis List.finite_set le_trans)
  finally show ?thesis .
qed

lemma structure_returns:
  assumes d: "distinct (map wr_job_id table)"
  shows "set jobs \<subseteq> set table \<Longrightarrow> distinct (map wr_job_id jobs) \<Longrightarrow>
    (\<And>r. r \<in> set table \<Longrightarrow> anc table n (wr_job_id r) \<notin> Some ` wr_job_id ` set jobs) \<Longrightarrow>
    structure_nodes n table cur pre jobs \<noteq> None"
proof (induction n arbitrary: pre jobs)
  case 0
  then have "jobs = []" by (cases jobs) force+
  then show ?case by simp
next
  case (Suc n)
  have group: "structure_nodes n table cur path (jobs_with_parents table (map wr_job_id m)) \<noteq> None"
    if m: "(f, m) \<in> set (concat (level_stages jobs))" for path f m
  proof (rule Suc.IH)
    have p: "mset (concat (map snd (concat (level_stages jobs)))) = mset jobs" by (rule level_stages_parts(1))
    obtain us vs where "concat (level_stages jobs) = us @ (f, m) # vs" using m by (meson split_list)
    then have sub: "mset m \<subseteq># mset jobs" unfolding p [symmetric] by simp
    then have dm: "distinct (map wr_job_id m)"
      using Suc.prems(2) by (metis distinct_append mset_eq_imp_distinct_iff mset_map mset_append mset_subset_eq_exists_conv ex_mset image_mset_union)
    have s: "set m \<subseteq> set jobs" using sub by (metis set_mset_mono set_mset_mset)
    note j = jobs_with_parents_sons [OF dm, of table]
    show "set (jobs_with_parents table (map wr_job_id m)) \<subseteq> set table"
      using arg_cong [OF j, of set_mset] by (auto simp: sons_def)
    show "distinct (map wr_job_id (jobs_with_parents table (map wr_job_id m)))" by (rule distinct_sons [OF d dm])
    fix r assume r: "r \<in> set table"
    show "anc table n (wr_job_id r) \<notin> Some ` wr_job_id ` set (jobs_with_parents table (map wr_job_id m))"
    proof
      assume "anc table n (wr_job_id r) \<in> Some ` wr_job_id ` set (jobs_with_parents table (map wr_job_id m))"
      then obtain x where x: "anc table n (wr_job_id r) = Some x" "x \<in> wr_job_id ` set_mset (sons table (wr_job_id ` set m))"
        using arg_cong [OF j, of set_mset] by auto
      then have "anc table (Suc n) (wr_job_id r) \<in> Some ` wr_job_id ` set m"
        using in_sons_ids [OF d] unfolding anc_Suc by simp
      then show False using Suc.prems(3) [OF r] s by blast
    qed
  qed
  have those: "those xs \<noteq> None" if "\<And>x. x \<in> set xs \<Longrightarrow> x \<noteq> None" for xs :: "'x option list"
    using that by (induction xs) (auto split: option.splits)
  let ?sub = "\<lambda>i (f, m). let path = group_path pre i f in map_option (group_node cur path f m)
      (structure_nodes n table cur path (jobs_with_parents table (map wr_job_id m)))"
  have stage: "those (map (?sub i) gs) \<noteq> None" if "gs \<in> set (level_stages jobs)" for i gs
  proof (rule those)
    fix x assume "x \<in> set (map (?sub i) gs)"
    then obtain f m where "(f, m) \<in> set gs" "x = ?sub i (f, m)" by auto
    then show "x \<noteq> None" using group [of f m] that by (auto simp: Let_def)
  qed
  have "those (map (\<lambda>(i, gs). those (map (?sub i) gs)) (enumerate 0 (level_stages jobs))) \<noteq> None"
  proof (rule those)
    fix x assume "x \<in> set (map (\<lambda>(i, gs). those (map (?sub i) gs)) (enumerate 0 (level_stages jobs)))"
    then obtain i gs where ig: "(i, gs) \<in> set (enumerate 0 (level_stages jobs))" "x = those (map (?sub i) gs)" by auto
    then have "gs \<in> set (level_stages jobs)" by (auto simp: in_set_enumerate_eq)
    then show "x \<noteq> None" using stage ig(2) by blast
  qed
  then show ?case by simp
qed

section \<open>The tree\<close>

text \<open>The jobs nested inside a job, at any depth.\<close>

definition nested_in :: "work_row list \<Rightarrow> string \<Rightarrow> work_row \<Rightarrow> bool" where
  "nested_in table top_id r \<longleftrightarrow> (\<exists>k \<ge> 1. anc table k (wr_job_id r) = Some top_id)"

lemma count_nested:
  assumes d: "distinct (map wr_job_id table)" and root: "parent_of table top_id = None" and n: "length table \<le> n"
  shows "count (gen n table {top_id}) r = (if r \<in> set table \<and> nested_in table top_id r then 1 else 0)"
proof (cases "r \<in> set table")
  case True
  let ?K = "{k \<in> {1..n}. anc table k (wr_job_id r) \<in> Some ` {top_id}}"
  have K: "k \<in> ?K \<longleftrightarrow> 1 \<le> k \<and> anc table k (wr_job_id r) = Some top_id" for k
    using distance_bound [OF root, of k "wr_job_id r"] n by auto
  show ?thesis
  proof (cases "nested_in table top_id r")
    case nested: True
    then obtain k where k: "1 \<le> k" "anc table k (wr_job_id r) = Some top_id" by (auto simp: nested_in_def)
    have "?K = {k}" using K k one_distance [OF root k(2)] by blast
    then show ?thesis using count_gen [OF d True, of n "{top_id}"] True nested by simp
  next
    case False
    then have "?K = {}" using K by (auto simp: nested_in_def)
    then show ?thesis using count_gen [OF d True, of n "{top_id}"] False by simp
  qed
next
  case False
  have "set_mset (gen n table ids) \<subseteq> set table" for ids
    by (induction n arbitrary: ids) (auto simp: sons_def)
  then show ?thesis using False by (auto simp: count_eq_zero_iff)
qed

text \<open>
  C37. The tree of a workload is built without going in circles, and holds every job nested in its
  outermost job, at whatever depth, in exactly one group, and no other job: grouping by function and
  stage and the hanging of later stages under earlier ones lose and repeat none.
\<close>

theorem job_tree_holds_every_job_once:
  assumes d: "distinct (map wr_job_id table)" and root: "parent_of table top_id = None"
  shows "\<exists>nodes. job_tree table top_id job_id = Some nodes
    \<and> distinct (concat (map members_of nodes))
    \<and> set (concat (map members_of nodes)) = {r \<in> set table. nested_in table top_id r}"
proof -
  let ?n = "length table"
  let ?jobs = "jobs_with_parents table [top_id]"
  have sons: "mset ?jobs = sons table {top_id}" using jobs_with_parents_sons [of "[top_id]" table] by simp
  have dj: "distinct (map wr_job_id ?jobs)" by (rule distinct_sons [OF d]) simp
  have "structure_nodes (Suc ?n) table job_id [] ?jobs \<noteq> None"
  proof (rule structure_returns [OF d _ dj])
    show "set ?jobs \<subseteq> set table" using arg_cong [OF sons, of set_mset] by (auto simp: sons_def)
    fix r assume r: "r \<in> set table"
    show "anc table (Suc ?n) (wr_job_id r) \<notin> Some ` wr_job_id ` set ?jobs"
    proof
      assume "anc table (Suc ?n) (wr_job_id r) \<in> Some ` wr_job_id ` set ?jobs"
      then obtain x where x: "anc table (Suc ?n) (wr_job_id r) = Some x" "x \<in> wr_job_id ` set_mset (sons table {top_id})"
        using arg_cong [OF sons, of set_mset] by auto
      then have "parent_of table x = Some top_id" using in_sons_ids [OF d, of x "{top_id}"] by simp
      then have "anc table (Suc (Suc ?n)) (wr_job_id r) = Some top_id"
        unfolding anc_Suc [of _ "Suc ?n"] x(1) by simp
      then show False using distance_bound [OF root] by fastforce
    qed
  qed
  then obtain nodes where nodes: "job_tree table top_id job_id = Some nodes" by (auto simp: job_tree_def)
  have "mem nodes = gen (Suc (Suc ?n)) table {top_id}"
    using structure_members [OF d nodes [unfolded job_tree_def] dj] sons by (metis gen.simps(2) set_mset_mset)
  then have c: "count (mset (concat (map members_of nodes))) r = (if r \<in> set table \<and> nested_in table top_id r then 1 else 0)" for r
    using count_nested [OF d root, of "Suc (Suc ?n)" r] by (simp add: mem_def)
  have m: "r \<in> set (concat (map members_of nodes)) \<longleftrightarrow> r \<in> set table \<and> nested_in table top_id r" for r
    using c [of r] count_greater_zero_iff [of "mset (concat (map members_of nodes))" r]
    unfolding set_mset_mset by (metis less_numeral_extra(1) less_numeral_extra(3))
  have "distinct (concat (map members_of nodes))"
    unfolding distinct_count_atmost_1 using c m by presburger
  moreover have "set (concat (map members_of nodes)) = {r \<in> set table. nested_in table top_id r}"
    using m by blast
  ultimately show ?thesis using nodes by blast
qed

definition demo_row :: "string \<Rightarrow> string option \<Rightarrow> string \<Rightarrow> int \<Rightarrow> work_row" where
  "demo_row i p f depth = \<lparr>wr_job_id = i, wr_parent_job_id = p, wr_function_name = f, wr_status = ''running'',
     wr_n_inputs = 1, wr_n_results = 0, wr_started_at = Some 1, wr_ended_at = None, wr_func_cpu = Fixed 1,
     wr_func_ram = Fixed 1, wr_func_gpu = None, wr_max_parallelism = Some 1, wr_call_index = Some 0,
     wr_call_depth = Some depth\<rparr>"

definition demo_work :: "work_row list" where
  "demo_work = [demo_row ''r'' None ''main'' 0, demo_row ''a'' (Some ''r'') ''f'' 0, demo_row ''b'' (Some ''r'') ''f'' 0,
     demo_row ''c'' (Some ''r'') ''g'' 1, demo_row ''d'' (Some ''c'') ''h'' 0]"

theorem job_tree_holds_every_job_once_witness:
  "\<exists>nodes. job_tree demo_work ''r'' ''a'' = Some nodes \<and> distinct (concat (map members_of nodes))
     \<and> map gi_group_path (map group_of nodes) = [''/0:f'']"
proof -
  have "distinct (map wr_job_id demo_work)" "parent_of demo_work ''r'' = None"
    by (simp_all add: demo_work_def demo_row_def parent_of_def)
  from job_tree_holds_every_job_once [OF this]
  obtain nodes where n: "job_tree demo_work ''r'' ''a'' = Some nodes" "distinct (concat (map members_of nodes))" by blast
  have "map_option (\<lambda>ns. map gi_group_path (map group_of ns)) (job_tree demo_work ''r'' ''a'') = Some [''/0:f'']"
    by code_simp
  then show ?thesis using n by auto
qed

section \<open>Refreshed rows\<close>

text \<open>Where the parents lead up to an outermost job, the loop ends, and at a job right below the list's scope.\<close>

lemma watched_row_ends:
  assumes "\<And>i q. parent i = Some (Some q) \<Longrightarrow> (rank q :: nat) < rank i"
  shows "\<exists>r. watched_row_id parent scope current = Some r
    \<and> (\<forall>i. r = Some i \<longrightarrow> parent i = Some scope)"
proof (induction "rank current" arbitrary: current rule: less_induct)
  case less
  show ?case
  proof (cases "parent current")
    case None
    then show ?thesis by (simp add: watched_row_id.simps)
  next
    case (Some p)
    show ?thesis
    proof (cases "p = scope")
      case True
      then show ?thesis using Some by (simp add: watched_row_id.simps [of _ _ current])
    next
      case False
      show ?thesis
      proof (cases p)
        case None
        then show ?thesis using Some False by (simp add: watched_row_id.simps [of _ _ current])
      next
        case q: (Some q)
        have "watched_row_id parent scope current = watched_row_id parent scope q"
          using Some False q by (simp add: watched_row_id.simps [of _ _ current])
        then show ?thesis using less [of q] assms [of current q] Some q by simp
      qed
    qed
  qed
qed

end
