(* ===== verification/Settings.thy ===== *)
theory Settings
  imports Shared_Files
begin

text \<open>
  The settings form of \<open>endpoints/management.py\<close>: what it shows, how an update is validated against the
  catalog and how it is written into the cluster configuration. The state is the saved configuration
  and, in local development, the one the head was started with. What an image's Python is called is not
  part of the configuration here.
\<close>

section \<open>What is shown\<close>

datatype settings_error = Refused management_error | Crash py_error | StopIteration

record settings_dto =
  sd_image :: string
  sd_machine_type :: string
  sd_quantity :: int
  sd_region :: "string option"
  sd_disk_gb :: int
  sd_timeout :: int
  sd_max_vcpus :: int
  sd_max_gpus :: "(string option \<times> int) list"
  sd_options :: settings_options_t

definition crash :: "'a result \<Rightarrow> settings_error + 'a" where
  "crash m = map_sum Crash id m"

definition shown_config :: "head_env \<Rightarrow> cluster_config \<times> cluster_config \<Rightarrow> cluster_config" where
  "shown_config env st = (if IN_LOCAL_DEV_MODE env then snd st else fst st)"

definition settings_dto_of :: "head_env \<Rightarrow> cluster_config \<Rightarrow> settings_error + settings_dto" where
  "settings_dto_of env config =
     (case cfg_nodes config of
        [] \<Rightarrow> Inl (Crash IndexError)
      | node # _ \<Rightarrow>
          (case ns_images node of
             [] \<Rightarrow> Inl (Crash IndexError)
           | img # _ \<Rightarrow>
               bind_err (crash (resource_caps env config)) (\<lambda>(max_vcpus, max_gpus).
               bind_err (crash (settings_options (CLOUD_PROVIDER env))) (\<lambda>options.
                 Inr \<lparr>sd_image = img, sd_machine_type = ns_machine_type node, sd_quantity = ns_quantity node,
                      sd_region = ns_gcp_region node, sd_disk_gb = get_or 50 (ns_disk_size_gb node),
                      sd_timeout = get_or 600 (ns_inactivity_shutdown_time_sec node),
                      sd_max_vcpus = max_vcpus, sd_max_gpus = max_gpus, sd_options = options\<rparr>))))"

section \<open>Validation\<close>

record settings_patch =
  sp_image :: "string option"
  sp_machine_type :: "string option"
  sp_quantity :: "int option"
  sp_region :: "string option"
  sp_disk_gb :: "int option"
  sp_timeout :: "int option"
  sp_max_vcpus :: "int option"
  sp_max_gpus :: "int dict option"

definition invalid_setting :: settings_error where
  "invalid_setting = Refused invalid_argument"

definition in_bounds :: "settings_options_t \<Rightarrow> string \<Rightarrow> int \<Rightarrow> bool" where
  "in_bounds options field n =
     (case map_of (so_constraints options) field of
        None \<Rightarrow> False | Some (lo, hi) \<Rightarrow> lo \<le> n \<and> n \<le> hi)"

definition patched_numbers :: "settings_patch \<Rightarrow> (string \<times> int) list" where
  "patched_numbers p = concat (map (\<lambda>(field, v). case v of None \<Rightarrow> [] | Some n \<Rightarrow> [(field, n)])
     [(''quantity'', sp_quantity p), (''disk_gb'', sp_disk_gb p),
      (''inactivity_timeout_seconds'', sp_timeout p), (''max_vcpus'', sp_max_vcpus p)])"

definition validate_settings ::
  "head_env \<Rightarrow> cluster_config \<Rightarrow> settings_patch \<Rightarrow> settings_error + unit" where
  "validate_settings env config p =
     bind_err (crash (settings_options (CLOUD_PROVIDER env))) (\<lambda>options.
       if sp_machine_type p \<noteq> None \<and> the (sp_machine_type p) \<notin> mo_machine_type ` set (so_machine_types options)
       then Inl invalid_setting
       else bind_err (settings_dto_of env config) (\<lambda>current.
         let target_machine = get_or (sd_machine_type current) (sp_machine_type p);
             target_region = (if sp_region p = None then sd_region current else sp_region p)
         in case find (\<lambda>m. mo_machine_type m = target_machine) (so_machine_types options) of
              None \<Rightarrow> Inl StopIteration
            | Some machine \<Rightarrow>
                if target_region \<notin> Some ` set (mo_regions machine) then Inl invalid_setting
                else if \<not> list_all (\<lambda>(field, n). in_bounds options field n) (patched_numbers p) then Inl invalid_setting
                else if \<not> list_all (\<lambda>(model, cap). Some model \<in> set (so_gpu_models options)
                            \<and> in_bounds options ''max_gpus'' cap) (get_or [] (sp_max_gpus p)) then Inl invalid_setting
                else bind_err (crash (machine_spec target_machine)) (\<lambda>spec.
                  if gpus spec \<noteq> 0 \<and> \<not> image_is_gpu_compatible (get_or (sd_image current) (sp_image p))
                  then Inl invalid_setting else Inr ())))"

section \<open>Updating\<close>

definition empty_patch :: "settings_patch \<Rightarrow> bool" where
  "empty_patch p \<longleftrightarrow> sp_image p = None \<and> sp_machine_type p = None \<and> sp_quantity p = None \<and> sp_region p = None
     \<and> sp_disk_gb p = None \<and> sp_timeout p = None \<and> sp_max_vcpus p = None \<and> sp_max_gpus p = None"

definition patched :: "'a option \<Rightarrow> 'a option \<Rightarrow> 'a option" where
  "patched x y = (case x of None \<Rightarrow> y | Some _ \<Rightarrow> x)"

definition patch_node :: "settings_patch \<Rightarrow> node_spec \<Rightarrow> node_spec" where
  "patch_node p n = n\<lparr>
     ns_images := (case sp_image p of None \<Rightarrow> ns_images n | Some i \<Rightarrow> i # tl (ns_images n)),
     ns_machine_type := get_or (ns_machine_type n) (sp_machine_type p),
     ns_quantity := get_or (ns_quantity n) (sp_quantity p),
     ns_gcp_region := patched (sp_region p) (ns_gcp_region n),
     ns_disk_size_gb := patched (sp_disk_gb p) (ns_disk_size_gb n),
     ns_inactivity_shutdown_time_sec := patched (sp_timeout p) (ns_inactivity_shutdown_time_sec n)\<rparr>"

text \<open>GPU caps are merged model by model.\<close>

definition merge_caps :: "int dict \<Rightarrow> int dict \<Rightarrow> int dict" where
  "merge_caps caps updates = foldl (\<lambda>d (k, v). dset k v d) caps updates"

definition patch_config :: "settings_patch \<Rightarrow> cluster_config \<Rightarrow> cluster_config" where
  "patch_config p config = config\<lparr>
     cfg_nodes := patch_node p (hd (cfg_nodes config)) # tl (cfg_nodes config),
     cfg_max_vcpus := patched (sp_max_vcpus p) (cfg_max_vcpus config),
     cfg_max_gpus := (case sp_max_gpus p of None \<Rightarrow> cfg_max_gpus config
       | Some u \<Rightarrow> Some (merge_caps (get_or [] (cfg_max_gpus config)) u))\<rparr>"

definition LOCAL_DEV_MACHINES :: "string dict" where
  "LOCAL_DEV_MACHINES = [(''gcp'', ''n4-standard-2''), (''aws'', ''m7i.large''), (''azure'', ''Standard_D2as_v5'')]"

definition local_config :: "head_env \<Rightarrow> cluster_config \<Rightarrow> cluster_config" where
  "local_config env config = config\<lparr>cfg_nodes :=
     (hd (cfg_nodes config))\<lparr>ns_machine_type := get_or [] (map_of LOCAL_DEV_MACHINES (CLOUD_PROVIDER env)),
                             ns_quantity := 1\<rparr> # tl (cfg_nodes config)\<rparr>"

definition update_settings ::
  "head_env \<Rightarrow> settings_patch \<Rightarrow> cluster_config \<times> cluster_config
    \<Rightarrow> settings_error + (cluster_config \<times> cluster_config) \<times> settings_dto" where
  "update_settings env p st =
     (if empty_patch p then Inl invalid_setting
      else bind_err (validate_settings env (shown_config env st) p) (\<lambda>_.
        if cfg_nodes (fst st) = [] \<or> ns_images (hd (cfg_nodes (fst st))) = [] then Inl (Crash IndexError)
        else let config = patch_config p (fst st);
                 st = (config, if IN_LOCAL_DEV_MODE env then local_config env config else snd st)
             in bind_err (settings_dto_of env (shown_config env st)) (\<lambda>dto. Inr (st, dto))))"

section \<open>What holds of accepted settings\<close>

text \<open>The first node fits: an offered machine in one of its regions, with an image its GPUs can use.\<close>

definition node_fits :: "string \<Rightarrow> node_spec \<Rightarrow> bool" where
  "node_fits cloud n \<longleftrightarrow>
     (case settings_options cloud of Inl _ \<Rightarrow> False | Inr options \<Rightarrow>
        list_ex (\<lambda>m. mo_machine_type m = ns_machine_type n \<and> ns_gcp_region n \<in> Some ` set (mo_regions m)) (so_machine_types options))
     \<and> (case machine_spec (ns_machine_type n) of Inl _ \<Rightarrow> False | Inr spec \<Rightarrow>
          gpus spec = 0 \<or> image_is_gpu_compatible (hd (ns_images n)))"

definition opt_within :: "string \<Rightarrow> int option \<Rightarrow> bool" where
  "opt_within field v =
     (case v of None \<Rightarrow> True | Some n \<Rightarrow>
        (case map_of SETTINGS_CONSTRAINTS field of None \<Rightarrow> False | Some (lo, hi) \<Rightarrow> lo \<le> n \<and> n \<le> hi))"

definition config_within :: "cluster_config \<Rightarrow> bool" where
  "config_within c \<longleftrightarrow>
     (let n = hd (cfg_nodes c)
      in opt_within ''quantity'' (Some (ns_quantity n)) \<and> opt_within ''disk_gb'' (ns_disk_size_gb n)
         \<and> opt_within ''inactivity_timeout_seconds'' (ns_inactivity_shutdown_time_sec n)
         \<and> opt_within ''max_vcpus'' (cfg_max_vcpus c)
         \<and> list_all (\<lambda>(_, cap). opt_within ''max_gpus'' (Some cap)) (get_or [] (cfg_max_gpus c)))"

lemma settings_options_constraints: "settings_options cloud = Inr o' \<Longrightarrow> so_constraints o' = SETTINGS_CONSTRAINTS"
  by (auto simp: settings_options_def bind_err_eq_Inr split: option.splits)

lemma dto_of_config:
  "settings_dto_of env config = Inr d \<Longrightarrow> \<exists>n ns img imgs. cfg_nodes config = n # ns \<and> ns_images n = img # imgs
     \<and> sd_image d = img \<and> sd_machine_type d = ns_machine_type n \<and> sd_region d = ns_gcp_region n"
  by (auto simp: settings_dto_of_def bind_err_eq_Inr split: list.splits)

lemma crash_Inr [simp]: "crash m = Inr x \<longleftrightarrow> m = Inr x"
  by (cases m) (auto simp: crash_def)

lemma settings_validate_ok:
  assumes "validate_settings env config p = Inr ()"
  obtains options current machine spec where "settings_options (CLOUD_PROVIDER env) = Inr options"
    "settings_dto_of env config = Inr current" "machine \<in> set (so_machine_types options)"
    "mo_machine_type machine = get_or (sd_machine_type current) (sp_machine_type p)"
    "patched (sp_region p) (sd_region current) \<in> Some ` set (mo_regions machine)"
    "list_all (\<lambda>(field, n). in_bounds options field n) (patched_numbers p)"
    "list_all (\<lambda>(model, cap). in_bounds options ''max_gpus'' cap) (get_or [] (sp_max_gpus p))"
    "machine_spec (mo_machine_type machine) = Inr spec"
    "gpus spec = 0 \<or> image_is_gpu_compatible (get_or (sd_image current) (sp_image p))"
proof -
  obtain options where o: "settings_options (CLOUD_PROVIDER env) = Inr options"
    using assms by (auto simp: validate_settings_def bind_err_eq_Inr)
  obtain current where c: "settings_dto_of env config = Inr current"
    using assms by (auto simp: validate_settings_def o crash_def bind_err_eq_Inr split: if_splits)
  let ?mt = "get_or (sd_machine_type current) (sp_machine_type p)"
  have v: "validate_settings env config p = Inr () \<Longrightarrow>
      (case find (\<lambda>m. mo_machine_type m = ?mt) (so_machine_types options) of None \<Rightarrow> False | Some machine \<Rightarrow>
        patched (sp_region p) (sd_region current) \<in> Some ` set (mo_regions machine)
        \<and> list_all (\<lambda>(field, n). in_bounds options field n) (patched_numbers p)
        \<and> list_all (\<lambda>(model, cap). Some model \<in> set (so_gpu_models options) \<and> in_bounds options ''max_gpus'' cap) (get_or [] (sp_max_gpus p))
        \<and> (\<exists>spec. machine_spec ?mt = Inr spec \<and> (gpus spec = 0 \<or> image_is_gpu_compatible (get_or (sd_image current) (sp_image p)))))"
    unfolding validate_settings_def Let_def o c
    by (cases "machine_spec ?mt"; cases "sp_region p"; cases "find (\<lambda>m. mo_machine_type m = ?mt) (so_machine_types options)")
      (simp_all add: crash_def patched_def split: if_splits)
  obtain machine spec where m: "find (\<lambda>m. mo_machine_type m = ?mt) (so_machine_types options) = Some machine"
    and r: "patched (sp_region p) (sd_region current) \<in> Some ` set (mo_regions machine)"
      "list_all (\<lambda>(field, n). in_bounds options field n) (patched_numbers p)"
      "list_all (\<lambda>(model, cap). Some model \<in> set (so_gpu_models options) \<and> in_bounds options ''max_gpus'' cap) (get_or [] (sp_max_gpus p))"
      "machine_spec ?mt = Inr spec" "gpus spec = 0 \<or> image_is_gpu_compatible (get_or (sd_image current) (sp_image p))"
    using v [OF assms] by (cases "find (\<lambda>m. mo_machine_type m = ?mt) (so_machine_types options)") auto
  have mm: "machine \<in> set (so_machine_types options)" "mo_machine_type machine = ?mt"
    using m by (auto simp: find_Some_iff)
  have g: "list_all (\<lambda>(model, cap). in_bounds options ''max_gpus'' cap) (get_or [] (sp_max_gpus p))"
    using r(3) by (rule list.pred_mono_strong) auto
  show ?thesis by (rule that [OF o c mm r(1,2) g]) (use r mm in auto)
qed

lemma in_bounds_within: "so_constraints options = SETTINGS_CONSTRAINTS \<Longrightarrow> in_bounds options field n = opt_within field (Some n)"
  by (simp add: in_bounds_def opt_within_def)

lemma within_patched: "opt_within f v \<Longrightarrow> (\<And>n. u = Some n \<Longrightarrow> opt_within f (Some n)) \<Longrightarrow> opt_within f (patched u v)"
  by (cases u) (simp_all add: patched_def)

lemma merged_caps: "set (merge_caps caps updates) \<subseteq> set caps \<union> set updates"
  unfolding merge_caps_def
proof (induction updates arbitrary: caps)
  case (Cons u us)
  obtain k v where u: "u = (k, v)" by (rule prod.exhaust)
  have "set (foldl (\<lambda>d (k, v). dset k v d) caps (u # us)) \<subseteq> set (dset k v caps) \<union> set us"
    using Cons.IH [of "dset k v caps"] by (simp add: u)
  also have "\<dots> \<subseteq> set caps \<union> set (u # us)" using in_dset [of _ k v caps] by (auto simp: u)
  finally show ?case .
qed simp

lemma patch_config_within:
  assumes o: "settings_options cloud = Inr options" and w: "config_within config" and n: "cfg_nodes config = n # ns"
    and nums: "list_all (\<lambda>(field, n). in_bounds options field n) (patched_numbers p)"
    and caps: "list_all (\<lambda>(model, cap). in_bounds options ''max_gpus'' cap) (get_or [] (sp_max_gpus p))"
  shows "config_within (patch_config p config)"
proof -
  note b = in_bounds_within [OF settings_options_constraints [OF o]]
  have num: "sp_quantity p = Some k \<Longrightarrow> opt_within ''quantity'' (Some k)"
    "sp_disk_gb p = Some k \<Longrightarrow> opt_within ''disk_gb'' (Some k)"
    "sp_timeout p = Some k \<Longrightarrow> opt_within ''inactivity_timeout_seconds'' (Some k)"
    "sp_max_vcpus p = Some k \<Longrightarrow> opt_within ''max_vcpus'' (Some k)" for k
    using nums by (simp_all add: patched_numbers_def b)
  have q: "opt_within ''quantity'' (Some (get_or (ns_quantity n) (sp_quantity p)))"
    using w num(1) by (cases "sp_quantity p") (simp_all add: config_within_def Let_def n)
  have c': "list_all (\<lambda>(_, cap). opt_within ''max_gpus'' (Some cap)) (get_or [] (cfg_max_gpus (patch_config p config)))"
  proof (cases "sp_max_gpus p")
    case None
    then show ?thesis using w by (simp add: patch_config_def config_within_def Let_def)
  next
    case (Some us)
    have "list_all (\<lambda>(_, cap). opt_within ''max_gpus'' (Some cap)) (get_or [] (cfg_max_gpus config))"
      "list_all (\<lambda>(_, cap). opt_within ''max_gpus'' (Some cap)) us"
      using w caps by (simp_all add: config_within_def Let_def b Some)
    then show ?thesis
      using merged_caps [of "get_or [] (cfg_max_gpus config)" us] by (fastforce simp: patch_config_def Some list_all_iff)
  qed
  show ?thesis
    unfolding config_within_def Let_def
    using w q c' num by (simp add: patch_node_def config_within_def Let_def n patch_config_def within_patched)
qed


definition demo_settings :: cluster_config where
  "demo_settings = \<lparr>cfg_nodes = [\<lparr>ns_machine_type = ''n4-standard-2'', ns_gcp_region = Some ''us-central1'', ns_quantity = 1,
      ns_disk_size_gb = None, ns_inactivity_shutdown_time_sec = Some 600, ns_images = [''python:3.12'']\<rparr>],
    cfg_max_vcpus = None, cfg_max_gpus = None\<rparr>"

definition demo_patch :: settings_patch where
  "demo_patch = \<lparr>sp_image = None, sp_machine_type = Some ''n4-standard-4'', sp_quantity = Some 3, sp_region = None,
     sp_disk_gb = Some 100, sp_timeout = None, sp_max_vcpus = None, sp_max_gpus = Some [(''A100'', 2)]\<rparr>"


text \<open>
  A saved machine that the catalog no longer offers makes every later change of settings fail with an
  exception, unless it also names a machine.
\<close>

lemma unlisted_machine_blocks_settings:
  "update_settings \<lparr>CLOUD_PROVIDER = ''gcp'', IN_LOCAL_DEV_MODE = False\<rparr> (demo_patch\<lparr>sp_machine_type := None\<rparr>)
     (demo_settings\<lparr>cfg_nodes := [(hd (cfg_nodes demo_settings))\<lparr>ns_machine_type := ''n1-standard-1''\<rparr>]\<rparr>, demo_settings)
   = Inl StopIteration"
  by code_simp

end
