(* ===== verification/Management_Jobs.thy ===== *)
theory Management_Jobs
  imports History_Pages Job_Cascade
begin

text \<open>
  One job in \<open>endpoints/management.py\<close>: its ancestors, the status and counts it is shown with, its
  cancellation by a user, the status of one of its calls, and its errors in groups
  (\<open>management_error_groups\<close> of \<open>history.py\<close>). The hash of an error's text is a parameter, and so is
  whether a job's calls return their exceptions (\<open>raise_errors=False\<close>), which the head only stores.
\<close>

section \<open>A job\<close>

text \<open>The chain of enclosing jobs, outermost first. A parent the head does not know raises; a cycle does not end.\<close>

partial_function (option) ancestors ::
  "head \<Rightarrow> string option \<Rightarrow> (string \<times> string) list \<Rightarrow> (head \<times> (py_error + (string \<times> string) list)) option" where
  "ancestors h current chain =
     (case current of
        None \<Rightarrow> Some (h, Inr chain)
      | Some job_id \<Rightarrow>
          (case get_job h job_id of
             (h, None) \<Rightarrow> Some (h, Inl (TypeError job_id))
           | (h, Some (j, _)) \<Rightarrow>
               ancestors h (j_parent_job_id j) ((job_id, get_or ''Unknown'' (j_function_name j)) # chain)))"

declare ancestors.simps [code]

record job_dto =
  jd_job_id :: string
  jd_status :: string
  jd_parent_job_id :: "string option"
  jd_ancestors :: "(string \<times> string) list"
  jd_nested_job_count :: int
  jd_input_count :: int
  jd_result_count :: int
  jd_success_count :: int
  jd_failed_count :: int
  jd_remaining_count :: int
  jd_duration_seconds :: "real option"

definition job_child_count :: "head \<Rightarrow> string \<Rightarrow> int" where
  "job_child_count h job_id = int (length (filter (\<lambda>(k, j). j_parent_job_id j = Some job_id) (hist_jobs h)))"

text \<open>\<open>canceled\<close> is final; a job whose results are in is completed, or failed if calls of it failed.\<close>

definition shown_status :: "bool \<Rightarrow> job_status option \<Rightarrow> int \<Rightarrow> int \<Rightarrow> int \<Rightarrow> string" where
  "shown_status udf_errors_ignored s input_count result_count failed_count =
     (let status = (if s = None then ''unknown'' else status_lower s)
      in if status \<noteq> ''canceled'' \<and> input_count \<noteq> 0 \<and> result_count \<ge> input_count
         then if failed_count \<noteq> 0 \<and> \<not> udf_errors_ignored then ''failed'' else ''completed''
         else status)"

definition stored_results :: "head \<Rightarrow> string \<Rightarrow> int" where
  "stored_results h job_id =
     (if map_of (hist_jobs h) job_id = None then 0 else get_or 0 (map_of (hist_results h) job_id))"

text \<open>\<open>raw\<close> is a row with its count; what the head knows of the job has precedence.\<close>

definition job_dto_of ::
  "(string \<Rightarrow> bool) \<Rightarrow> log_row list \<Rightarrow> real \<Rightarrow> head \<Rightarrow> string \<Rightarrow> job \<Rightarrow> int \<Rightarrow> (head \<times> (py_error + job_dto)) option" where
  "job_dto_of ignores logs now h job_id raw n_raw =
     (case get_job h job_id of (h, live) \<Rightarrow>
        let j = (case live of None \<Rightarrow> raw | Some (l, _) \<Rightarrow> l);
            result_count = max (stored_results h job_id) (max (case live of None \<Rightarrow> 0 | Some (_, n) \<Rightarrow> n) n_raw);
            input_count = get_or 0 (j_n_inputs j);
            failed_count = job_error_count logs job_id
        in case ancestors h (j_parent_job_id j) [] of
             None \<Rightarrow> None
           | Some (h, Inl e) \<Rightarrow> Some (h, Inl e)
           | Some (h, Inr chain) \<Rightarrow> Some (h, Inr
               \<lparr>jd_job_id = job_id,
                jd_status = shown_status (ignores job_id) (j_status j) input_count result_count failed_count,
                jd_parent_job_id = j_parent_job_id j, jd_ancestors = chain,
                jd_nested_job_count = job_child_count h job_id,
                jd_input_count = input_count, jd_result_count = result_count,
                jd_success_count = max 0 (result_count - failed_count), jd_failed_count = failed_count,
                jd_remaining_count = max 0 (input_count - result_count),
                jd_duration_seconds = map_option (\<lambda>t. max 0 (get_or now (j_ended_at j) - t)) (j_started_at j)\<rparr>))"

datatype management_fault = Answered management_error | Unhandled py_error

definition not_found :: management_fault where
  "not_found = Answered (ManagementAPIError 404 ''NOT_FOUND'')"

definition job_or_404 ::
  "(string \<Rightarrow> bool) \<Rightarrow> log_row list \<Rightarrow> real \<Rightarrow> head \<Rightarrow> string \<Rightarrow> (head \<times> (management_fault + job_dto)) option" where
  "job_or_404 ignores logs now h job_id =
     (case get_job h job_id of (h, live) \<Rightarrow>
        let raw = (case live of
              Some (l, n) \<Rightarrow> Some (l, n)
            | None \<Rightarrow> map_option (\<lambda>j. (j, stored_results h job_id)) (map_of (hist_jobs h) job_id))
        in case raw of
             None \<Rightarrow> Some (h, Inl not_found)
           | Some (j, n) \<Rightarrow> map_option (\<lambda>(h, r). (h, map_sum Unhandled id r)) (job_dto_of ignores logs now h job_id j n))"

section \<open>Cancelling\<close>

definition canceled_by :: "string \<Rightarrow> string" where
  "canceled_by email = ''Job canceled by user: '' @ email"

definition cancel_updates :: "string \<Rightarrow> job_field list" where
  "cancel_updates email =
     [JStatus (Some JOB_CANCELED), JDashboardCanceled True,
      JTerminalReason (Some (Reason ''user_canceled'' ''user'' (canceled_by email)))]"

text \<open>The reply's flag says whether anything changed. The job is shown again for the reply.\<close>

definition cancel_job ::
  "(string \<Rightarrow> bool) \<Rightarrow> log_row list \<Rightarrow> real \<Rightarrow> string \<Rightarrow> head \<Rightarrow> string
    \<Rightarrow> (head \<times> (management_fault + bool \<times> job_dto)) option" where
  "cancel_job ignores logs now email h job_id =
     (case job_or_404 ignores logs now h job_id of
        None \<Rightarrow> None
      | Some (h, Inl e) \<Rightarrow> Some (h, Inl e)
      | Some (h, Inr item) \<Rightarrow>
          if jd_status item \<in> {''completed'', ''failed'', ''canceled''} then Some (h, Inr (False, item))
          else let h = h\<lparr>hist_job_logs := hist_job_logs h @ [(job_id, canceled_by email)]\<rparr>;
                   h = fst (update_job now h job_id (cancel_updates email) None)
               in map_option (\<lambda>(h, r). (h, map_sum id (Pair True) r)) (job_or_404 ignores logs now h job_id))"

section \<open>Calls\<close>

record call_task =
  ct_status :: string
  ct_started_at :: "real option"
  ct_duration_sec :: "real option"

definition call_status :: "call_task \<Rightarrow> string \<Rightarrow> string" where
  "call_status t job_status =
     (if ct_status t = ''failed'' then ''failed''
      else if ct_status t = ''running'' then ''running''
      else if ct_started_at t \<noteq> None then (if job_status = ''canceled'' then ''canceled'' else ''succeeded'')
      else if job_status = ''running'' \<or> job_status = ''pending'' then ''pending''
      else if job_status = ''canceled'' then ''not_run''
      else ''unknown'')"

definition call_ended_at :: "call_task \<Rightarrow> string \<Rightarrow> real option" where
  "call_ended_at t job_status =
     (case (ct_started_at t, ct_duration_sec t) of
        (Some s, Some d) \<Rightarrow> if call_status t job_status \<noteq> ''running'' then Some (s + d) else None
      | _ \<Rightarrow> None)"

section \<open>Errors in groups\<close>

record error_group =
  eg_signature :: string
  eg_count :: int
  eg_representative :: string
  eg_sample_input :: int

text \<open>The messages of a job's error documents that have a time and are not from a teardown.\<close>

definition error_entries :: "log_row list \<Rightarrow> string \<Rightarrow> (int \<times> string) list" where
  "error_entries table job_id = concat (map (\<lambda>r.
     case lr_input_index r of
       None \<Rightarrow> []
     | Some i \<Rightarrow> map (\<lambda>e. (i, le_message e))
         (filter (\<lambda>e. le_timestamp e \<noteq> None \<and> list_all (\<lambda>p. \<not> sql_like p (le_message e)) TEARDOWN_MESSAGES) (lr_logs r)))
     (filter (\<lambda>r. lr_job_id r = job_id \<and> lr_is_error r) table))"

definition error_groups :: "(string \<Rightarrow> string) \<Rightarrow> (int \<times> string) list \<Rightarrow> error_group list" where
  "error_groups signature entries =
     map (\<lambda>s. let es = filter (\<lambda>e. signature (snd e) = s) entries
              in \<lparr>eg_signature = s, eg_count = int (length es), eg_representative = Min (set (map snd es)),
                  eg_sample_input = Min (set (map fst es))\<rparr>)
       (remdups (map (\<lambda>e. signature (snd e)) entries))"

text \<open>\<open>ORDER BY count DESC, signature DESC\<close>, and the \<open>WHERE\<close> for the groups after a cursor.\<close>

definition group_before :: "int \<times> string \<Rightarrow> int \<times> string \<Rightarrow> bool" where
  "group_before a b \<longleftrightarrow> fst b < fst a \<or> fst b = fst a \<and> snd b < snd a"

definition group_key :: "error_group \<Rightarrow> int \<times> string" where
  "group_key g = (eg_count g, eg_signature g)"

definition management_error_groups ::
  "(string \<Rightarrow> string) \<Rightarrow> log_row list \<Rightarrow> string \<Rightarrow> (int \<times> string) option \<Rightarrow> nat \<Rightarrow> int \<times> error_group list" where
  "management_error_groups signature table job_id after_key limit =
     (let groups = error_groups signature (error_entries table job_id)
      in (int (length groups),
          take limit (order_by group_before group_key
            (case after_key of None \<Rightarrow> groups | Some k \<Rightarrow> filter (\<lambda>g. group_before k (group_key g)) groups))))"

definition job_error_page ::
  "(string \<Rightarrow> string) \<Rightarrow> log_row list \<Rightarrow> string \<Rightarrow> int \<Rightarrow> (int \<times> string) cursor option
    \<Rightarrow> (error_group, int \<times> string) page_reply managed" where
  "job_error_page signature table job_id limit c =
     bind_err (decode_cursor c (''job_errors:'' @ job_id) [] None) (\<lambda>after_key.
       let n = page_limit 1000 limit;
           (tot, rows) = management_error_groups signature table job_id after_key (n + 1);
           (page, nxt) = finish_page group_key n rows
       in Inr \<lparr>pr_items = page, pr_next_cursor = map_option (encode_cursor (''job_errors:'' @ job_id) [] None) nxt,
               pr_has_more = length rows > n, pr_total_count = tot\<rparr>)"

definition job_errors ::
  "(string \<Rightarrow> bool) \<Rightarrow> (string \<Rightarrow> string) \<Rightarrow> log_row list \<Rightarrow> real \<Rightarrow> head \<Rightarrow> string \<Rightarrow> int
    \<Rightarrow> (int \<times> string) cursor option
    \<Rightarrow> (head \<times> (management_fault + (error_group, int \<times> string) page_reply)) option" where
  "job_errors ignores signature table now h job_id limit c =
     map_option (\<lambda>(h, found). (h, bind_err found (\<lambda>_.
       map_sum Answered id (job_error_page signature table job_id limit c)))) (job_or_404 ignores table now h job_id)"

end
