(* ===== verification/Management_Claims.thy ===== *)
theory Management_Claims
  imports Management_Jobs Page_Claims "HOL-Library.Multiset"
begin

text \<open>
  A user's cancellation of a job, and the groups of a job's errors page by page.
\<close>

section \<open>Reading a job changes nothing\<close>

definition only_reads :: "head \<Rightarrow> head \<Rightarrow> bool" where
  "only_reads h h' \<longleftrightarrow> (\<forall>k. job_lookup h' k = job_lookup h k) \<and> hist_jobs h' = hist_jobs h
     \<and> NODES h' = NODES h \<and> (head_life h \<longrightarrow> head_life h')"

lemma only_reads_refl [simp]: "only_reads h h"
  by (simp add: only_reads_def)

lemma only_reads_trans: "only_reads a b \<Longrightarrow> only_reads b c \<Longrightarrow> only_reads a c"
  by (simp add: only_reads_def)

lemma get_job_reads: "only_reads h (fst (get_job h k))"
proof -
  have "fst (get_job h k) = fst (get_or_load_job h k)"
    by (simp add: get_job_def split: prod.splits option.splits)
  moreover have "head_life h \<Longrightarrow> head_life (fst (get_or_load_job h k))" by (intro life_step [OF _ job_read])
  ultimately show ?thesis by (simp add: only_reads_def get_or_load_job_lookup)
qed

lemma get_job_value: "snd (get_job h k) = None \<longleftrightarrow> job_lookup h k = None"
  "snd (get_job h k) = Some (j, n) \<Longrightarrow> \<exists>j0. job_lookup h k = Some j0 \<and> j_status j = j_status j0"
  using get_or_load_job_lookup(1) [of h k]
  by (cases "get_or_load_job h k"; cases "job_lookup h k"; auto simp: get_job_def)+

lemma ancestors_reads:
  assumes "ancestors h current chain = Some (h', r)"
  shows "only_reads h h'"
proof -
  have "only_reads h (fst y)" if a: "ancestors h current chain = Some y" for y
  proof (rule ancestors.raw_induct [where P = "\<lambda>h c ch y. only_reads h (fst y)", OF _ a])
    fix f :: "head \<Rightarrow> string option \<Rightarrow> (string \<times> string) list \<Rightarrow> (head \<times> (py_error + (string \<times> string) list)) option"
      and h current chain y
    assume 1: "\<And>h c ch y. f h c ch = Some y \<Longrightarrow> only_reads h (fst y)"
      "(case current of
        None \<Rightarrow> Some (h, Inr chain)
      | Some job_id \<Rightarrow>
          (case get_job h job_id of
             (h, None) \<Rightarrow> Some (h, Inl (TypeError job_id))
           | (h, Some (j, _)) \<Rightarrow> f h (j_parent_job_id j) ((job_id, get_or ''Unknown'' (j_function_name j)) # chain))) = Some y"
    show "only_reads h (fst y)"
    proof (cases current)
      case None
      then show ?thesis using 1(2) by auto
    next
      case (Some k)
      obtain h1 l where g: "get_job h k = (h1, l)" by (rule prod.exhaust)
      have h1: "only_reads h h1" using get_job_reads [of h k] by (simp add: g)
      show ?thesis
      proof (cases l)
        case None
        then show ?thesis using 1(2) Some g h1 by auto
      next
        case l: (Some jn)
        obtain j n where "jn = (j, n)" by (rule prod.exhaust)
        then have "f h1 (j_parent_job_id j) ((k, get_or ''Unknown'' (j_function_name j)) # chain) = Some y"
          using 1(2) Some g l by simp
        then show ?thesis using only_reads_trans [OF h1] 1(1) by blast
      qed
    qed
  qed
  then show ?thesis using assms by fastforce
qed

lemma job_or_404_reads:
  assumes "job_or_404 ignores logs now h k = Some (h', r)"
  shows "only_reads h h'"
proof -
  have dto: "only_reads h h'" if "job_dto_of ignores logs now h k raw n = Some (h', r)" for h h' raw n r
  proof -
    obtain h1 l where g: "get_job h k = (h1, l)" by (rule prod.exhaust)
    have "only_reads h h1" using get_job_reads [of h k] by (simp add: g)
    moreover have "only_reads h1 h'"
      using that ancestors_reads by (auto simp: job_dto_of_def g Let_def split: option.splits sum.splits)
    ultimately show ?thesis by (rule only_reads_trans)
  qed
  obtain h1 l where g: "get_job h k = (h1, l)" by (rule prod.exhaust)
  have "only_reads h h1" using get_job_reads [of h k] by (simp add: g)
  moreover have "only_reads h1 h'"
    using assms dto by (auto simp: job_or_404_def g Let_def split: option.splits)
  ultimately show ?thesis by (rule only_reads_trans)
qed

text \<open>The status a job of the head is shown with.\<close>

lemma dto_status:
  assumes "job_dto_of ignores logs now h k raw n = Some (h', Inr d)" "get_job h k = (h2, Some (j, m))"
  shows "\<exists>i n f. jd_status d = shown_status (ignores k) (j_status j) i n f"
proof (cases "ancestors h2 (j_parent_job_id j) []")
  case None
  then show ?thesis using assms by (simp add: job_dto_of_def)
next
  case (Some y)
  obtain h3 c where y: "y = (h3, c)" by (rule prod.exhaust)
  show ?thesis
  proof (cases c)
    case (Inl e)
    then show ?thesis using assms Some y by (simp add: job_dto_of_def Let_def)
  next
    case (Inr chain)
    note shown = assms(1) [unfolded job_dto_of_def assms(2) Let_def prod.case option.case Some y Inr sum.case
        option.inject prod.inject sum.inject, THEN conjunct2, symmetric]
    have "jd_status d = shown_status (ignores k) (j_status j) (get_or 0 (j_n_inputs j))
        (max (stored_results h2 k) (max m n)) (job_error_count logs k)"
      by (simp only: shown job_dto.simps)
    then show ?thesis by blast
  qed
qed

lemma job_or_404_status:
  assumes "job_or_404 ignores logs now h k = Some (h', Inr d)" "job_lookup h k = Some j"
  shows "\<exists>i n f. jd_status d = shown_status (ignores k) (j_status j) i n f"
proof -
  obtain h1 l where g: "get_job h k = (h1, l)" by (rule prod.exhaust)
  have r1: "only_reads h h1" using get_job_reads [of h k] by (simp add: g)
  obtain jl nl where l: "l = Some (jl, nl)" using get_job_value(1) [of h k] assms(2) by (cases l) (auto simp: g)
  obtain h2 l2 where g2: "get_job h1 k = (h2, l2)" by (rule prod.exhaust)
  have h1: "job_lookup h1 k = Some j" using r1 assms(2) by (simp add: only_reads_def)
  then have "l2 \<noteq> None" using get_job_value(1) [of h1 k] by (simp add: g2 del: not_None_eq)
  then obtain j2 n2 where l2: "l2 = Some (j2, n2)" by (cases l2) auto
  have st: "j_status j2 = j_status j" using get_job_value(2) [of h1 k j2 n2] h1 by (simp add: g2 l2)
  note shown = assms(1) [unfolded job_or_404_def g l Let_def prod.case option.case]
  then obtain b where b: "job_dto_of ignores logs now h1 k jl nl = Some (h', b)" "map_sum Unhandled id b = Inr d"
    by (cases "job_dto_of ignores logs now h1 k jl nl") (simp_all split: prod.splits)
  then have bd: "b = Inr d" by (cases b) simp_all
  show ?thesis
    using dto_status [OF b(1) [unfolded bd] g2 [unfolded l2]] by (simp only: st)
qed



section \<open>The groups of a job's errors\<close>

interpretation groups: row_order group_before
  by unfold_locales (auto simp: group_before_def prod_eq_iff)

lemma job_errors_served:
  "served (job_error_page signature table job limit) (map_option (encode_cursor (''job_errors:'' @ job) [] None) k) =
    (fst (fetch_page group_before group_key (page_limit 1000 limit) k (error_groups signature (error_entries table job))),
     map_option (encode_cursor (''job_errors:'' @ job) [] None)
       (snd (fetch_page group_before group_key (page_limit 1000 limit) k (error_groups signature (error_entries table job)))))"
  by (cases k) (simp_all add: served_def job_error_page_def bind_err_def management_error_groups_def Let_def fetch_page_def
      rows_after_def split: prod.splits)

lemma group_signatures: "map eg_signature (error_groups signature es) = remdups (map (\<lambda>e. signature (snd e)) es)"
  by (simp add: error_groups_def Let_def o_def)

lemma group_counts: "sum_list (map eg_count (error_groups signature es)) = int (length es)"
proof -
  let ?s = "map (\<lambda>e. signature (snd e)) es"
  have n: "length (filter (\<lambda>e. signature (snd e) = s) es) = count_list ?s s" for s
    by (induction es) auto
  have "sum_list (map eg_count (error_groups signature es)) = (\<Sum>s\<leftarrow>remdups ?s. int (count_list ?s s))"
    by (simp add: error_groups_def Let_def o_def n)
  also have "\<dots> = int (\<Sum>s\<in>set ?s. count_list ?s s)"
    by (simp add: sum_list_distinct_conv_sum_set)
  also have "\<dots> = int (length es)" by (simp only: sum_count_set [OF order.refl finite_set] length_map)
  finally show ?thesis .
qed

lemma mset_order_by [simp]: "mset (order_by lt key rows) = mset rows"
proof -
  have "mset (insert_by c x ys) = add_mset x (mset ys)" for c x and ys :: "'a list"
    by (induction ys) auto
  then show ?thesis by (induction rows) simp_all
qed

lemma order_by_sum: "sum_list (map (f :: 'a \<Rightarrow> int) (order_by lt key rows)) = sum_list (map f rows)"
  by (metis mset_order_by sum_mset_sum_list mset_map)

lemma order_by_distinct: "distinct (map f (order_by lt key rows)) = distinct (map f rows)"
  by (metis mset_order_by mset_map mset_eq_imp_distinct_iff)

lemma job_errors_total:
  "\<exists>p. job_error_page signature table job limit None = Inr p
     \<and> pr_total_count p = int (length (error_groups signature (error_entries table job)))"
  by (simp add: job_error_page_def bind_err_def management_error_groups_def Let_def split: prod.splits)

text \<open>
  A reader who follows the cursors of a job's errors sees every group once, the largest first, as
  many as the first page's total says, and the groups' counts add up to the job's errors: each error
  is counted in one group.
\<close>

theorem error_pages_are_complete:
  "case job_error_page signature table job limit None of
     Inl _ \<Rightarrow> False
   | Inr p \<Rightarrow>
       let seen = walk (served (job_error_page signature table job limit)) (Suc (nat (pr_total_count p))) None
       in sum_list (map eg_count seen) = int (length (error_entries table job))
         \<and> distinct (map eg_signature seen) \<and> sorted_wrt (\<lambda>a b. eg_count b \<le> eg_count a) seen
         \<and> int (length seen) = pr_total_count p"
proof -
  let ?es = "error_entries table job" and ?enc = "encode_cursor (''job_errors:'' @ job) [] None"
  let ?gs = "error_groups signature ?es" and ?n = "page_limit 1000 limit"
  let ?page = "served (job_error_page signature table job limit)"
  have sigs: "distinct (map eg_signature ?gs)" by (simp add: group_signatures)
  then have d: "distinct (map group_key ?gs)" by (auto simp: distinct_map inj_on_def group_key_def)
  have "walk ?page (Suc (length ?gs)) (map_option ?enc None)
      = walk (\<lambda>c. fetch_page group_before group_key ?n c ?gs) (Suc (length ?gs)) None"
    by (rule walk_encoded) (rule job_errors_served)
  also have "\<dots> = order_by group_before group_key ?gs"
    by (rule groups.walk_pages [OF d page_limit_pos]) simp
  finally have e: "walk ?page (Suc (length ?gs)) None = order_by group_before group_key ?gs" by simp
  have "sorted_wrt (\<lambda>a b. group_before (group_key a) (group_key b)) (order_by group_before group_key ?gs)"
    by (rule groups.in_order_sort [OF d])
  then have "sorted_wrt (\<lambda>a b. eg_count b \<le> eg_count a) (order_by group_before group_key ?gs)"
    by (rule sorted_wrt_mono_rel [rotated]) (auto simp: group_before_def group_key_def)
  moreover obtain p where "job_error_page signature table job limit None = Inr p" "pr_total_count p = int (length ?gs)"
    using job_errors_total by blast
  ultimately show ?thesis
    using group_counts [of signature ?es] sigs
    by (simp add: e Let_def order_by_sum order_by_distinct del: walk.simps)
qed

end
