(* ===== verification/Usage.thy ===== *)
theory Usage
  imports Job_Start Paging
begin

text \<open>
  The usage report of \<open>endpoints/usage.py\<close>, with its estimated spend in \<open>get_usage\<close> of
  \<open>endpoints/management.py\<close>: the hours of the ended nodes in a month, by day and kind of machine, and the
  nodes of a month page by page. A datetime, always in UTC, is its seconds since 1970; the label
  YYYY-MM-DD of a day is the number of the day since 1970. The month of the clock is an argument.
\<close>

section \<open>Dates\<close>

definition is_leap :: "int \<Rightarrow> bool" where
  "is_leap y \<longleftrightarrow> 4 dvd y \<and> (\<not> 100 dvd y \<or> 400 dvd y)"

definition days_in_month :: "int \<Rightarrow> int \<Rightarrow> int" where
  "days_in_month y m = (if m = 2 then (if is_leap y then 29 else 28) else if m \<in> {4, 6, 9, 11} then 30 else 31)"

definition days_before_month :: "int \<Rightarrow> int \<Rightarrow> int" where
  "days_before_month y m = sum_list (map (days_in_month y) [1..m - 1])"

definition days_before_year :: "int \<Rightarrow> int" where
  "days_before_year y = (let p = y - 1 in p * 365 + p div 4 - p div 100 + p div 400)"

definition day_seconds :: "int \<Rightarrow> real" where
  "day_seconds n = 86400 * of_int n"

text \<open>\<open>datetime(year, month, 1)\<close>.\<close>

definition month_datetime :: "int \<times> int \<Rightarrow> real result" where
  "month_datetime ym = (case ym of (y, m) \<Rightarrow>
     if 1 \<le> y \<and> y \<le> 9999 \<and> 1 \<le> m \<and> m \<le> 12
     then Inr (day_seconds (days_before_year y + days_before_month y m - 719162))
     else Inl (ValueError ''year or month is out of range''))"

datatype usage_error = HTTPException int | Raised py_error

definition raised :: "'a result \<Rightarrow> usage_error + 'a" where
  "raised m = map_sum Raised id m"

definition day_of :: "real \<Rightarrow> int" where
  "day_of t = \<lfloor>t / 86400\<rfloor>"

definition day_start :: "real \<Rightarrow> real" where
  "day_start t = day_seconds (day_of t)"

definition add_days :: "real \<Rightarrow> int \<Rightarrow> real" where
  "add_days t n = t + day_seconds n"

text \<open>The loops of \<open>_add_months\<close>.\<close>

function months_down :: "int \<Rightarrow> int \<Rightarrow> int \<times> int" where
  "months_down year month = (if month > 12 then months_down (year + 1) (month - 12) else (year, month))"
  by pat_completeness auto
termination by (relation "measure (\<lambda>(_, m). nat m)") auto

function months_up :: "int \<Rightarrow> int \<Rightarrow> int \<times> int" where
  "months_up year month = (if month < 1 then months_up (year - 1) (month + 12) else (year, month))"
  by pat_completeness auto
termination by (relation "measure (\<lambda>(_, m). nat (1 - m))") auto

definition add_months :: "int \<times> int \<Rightarrow> int \<Rightarrow> int \<times> int" where
  "add_months ym months = (case months_down (fst ym) (snd ym + months) of (y, m) \<Rightarrow> months_up y m)"

definition parse_yyyy_mm :: "string \<Rightarrow> usage_error + int \<times> int" where
  "parse_yyyy_mm v =
     (case split_on CHR ''-'' v of
        [year, month] \<Rightarrow>
          (case (py_int year, py_int month) of
             (Inr y, Inr m) \<Rightarrow> (case month_datetime (y, m) of Inr _ \<Rightarrow> Inr (y, m) | Inl _ \<Rightarrow> Inl (HTTPException 400))
           | _ \<Rightarrow> Inl (HTTPException 400))
      | _ \<Rightarrow> Inl (HTTPException 400))"

definition the_month :: "int \<times> int \<Rightarrow> string option \<Rightarrow> usage_error + int \<times> int" where
  "the_month now_month month = (if truthy month then parse_yyyy_mm (the month) else Inr now_month)"

text \<open>A stored time is in seconds, or in milliseconds when it is too large for that.\<close>

definition as_utc_datetime :: "real \<Rightarrow> real result" where
  "as_utc_datetime v =
     (let t = (if v > 2000000000000 then v / 1000 else v)
      in if - 62135596800 \<le> t \<and> t < 253402300800 then Inr t else Inl (ValueError ''year is out of range''))"

section \<open>Nodes\<close>

record usage_row =
  ur_instance_name :: string
  ur_started_at :: "real option"
  ur_started_booting_at :: "real option"
  ur_ended_at :: "real option"
  ur_machine_type :: "string option"
  ur_gcp_region :: "string option"
  ur_spot :: "bool option"

definition nodes_ended_after :: "usage_row list \<Rightarrow> real \<Rightarrow> usage_row list" where
  "nodes_ended_after table cutoff =
     sort_key (\<lambda>r. - get_or 0 (ur_ended_at r))
       (filter (\<lambda>r. case ur_ended_at r of None \<Rightarrow> False | Some e \<Rightarrow> e \<ge> cutoff) table)"

definition started_raw :: "usage_row \<Rightarrow> real option" where
  "started_raw r = (if ur_started_at r \<in> {None, Some 0} then ur_started_booting_at r else ur_started_at r)"

text \<open>The part of a node's life that lies in the month; None for a row that is skipped.\<close>

definition usage_window :: "real \<Rightarrow> real \<Rightarrow> usage_row \<Rightarrow> (real \<times> real) option result" where
  "usage_window month_begin month_end r =
     (case (ur_ended_at r, started_raw r) of
        (Some ended, Some started) \<Rightarrow>
          bind_err (as_utc_datetime started) (\<lambda>start.
          bind_err (as_utc_datetime ended) (\<lambda>finish.
            let window_start = max start month_begin; window_end = min finish month_end
            in Inr (if finish \<le> start \<or> window_end \<le> window_start then None else Some (window_start, window_end))))
      | _ \<Rightarrow> Inr None)"

definition quantize_hours :: "real \<Rightarrow> real" where
  "quantize_hours hours = (if hours \<le> 0 then 0 else of_int (py_round (hours * 1000000)) / 1000000)"

definition cpu_hour_multiplier :: "string option \<Rightarrow> int result" where
  "cpu_hour_multiplier machine_type = machine_type_cpu_count (get_or [] machine_type)"

declare months_down.simps [simp del] months_up.simps [simp del]

section \<open>Hours by day\<close>

lemma next_day_nearer [simp]: "d < e \<Longrightarrow> \<lceil>(e - add_days d 1) / 86400\<rceil> < \<lceil>(e - d) / 86400\<rceil>"
proof -
  have "(e - add_days d 1) / 86400 = (e - d) / 86400 - 1"
    by (simp only: add_days_def day_seconds_def) (simp add: diff_divide_distrib add_divide_distrib)
  then have "\<lceil>(e - add_days d 1) / 86400\<rceil> = \<lceil>(e - d) / 86400\<rceil> - 1" by (simp only: ceiling_diff_one)
  then show ?thesis by simp
qed

text \<open>The days of the month, and the pieces of a window that each of its days gets.\<close>

function days_until :: "real \<Rightarrow> real \<Rightarrow> int list" where
  "days_until day_cursor month_end =
     (if day_cursor < month_end then day_of day_cursor # days_until (add_days day_cursor 1) month_end else [])"
  by pat_completeness auto
termination by (relation "measure (\<lambda>(d, e). nat \<lceil>(e - d) / 86400\<rceil>)") auto

function day_pieces :: "real \<Rightarrow> real \<times> real \<Rightarrow> (int \<times> real) list" where
  "day_pieces day w =
     (if day < snd w
      then let next_day = add_days day 1;
               seg_start = max (fst w) day;
               seg_end = min (snd w) next_day
           in (if seg_end > seg_start then [(day_of day, (seg_end - seg_start) / 3600)] else [])
              @ day_pieces next_day w
      else [])"
  by pat_completeness auto
termination by (relation "measure (\<lambda>(d, w). nat \<lceil>(snd w - d) / 86400\<rceil>)") auto

declare days_until.simps [simp del] day_pieces.simps [simp del]

type_synonym hour_buckets = "(int \<times> (string \<times> real) list) list"

definition add_hours :: "string \<Rightarrow> real \<Rightarrow> (string \<times> real) list \<Rightarrow> (string \<times> real) list" where
  "add_hours key hours d = dset key (get_or 0 (map_of d key) + hours) d"

definition add_to_day :: "int \<Rightarrow> string \<Rightarrow> real \<Rightarrow> hour_buckets \<Rightarrow> hour_buckets" where
  "add_to_day day key hours b = (case map_of b day of None \<Rightarrow> b | Some d \<Rightarrow> dset day (add_hours key hours d) b)"

definition group_key_of :: "string \<Rightarrow> string \<Rightarrow> bool \<Rightarrow> string" where
  "group_key_of machine_type gcp_region spot = machine_type @ ''|'' @ gcp_region @ ''|'' @ (if spot then ''1'' else ''0'')"

definition book_node ::
  "real \<Rightarrow> real \<Rightarrow> hour_buckets \<times> hour_buckets \<Rightarrow> usage_row \<Rightarrow> (hour_buckets \<times> hour_buckets) result" where
  "book_node month_begin month_end bc r =
     bind_err (usage_window month_begin month_end r) (\<lambda>w.
       case w of
         None \<Rightarrow> Inr bc
       | Some w \<Rightarrow>
           if \<not> truthy (ur_machine_type r) \<or> \<not> truthy (ur_gcp_region r) then Inr bc
           else bind_err (cpu_hour_multiplier (ur_machine_type r)) (\<lambda>mult.
             let key = group_key_of (the (ur_machine_type r)) (the (ur_gcp_region r)) (get_or False (ur_spot r))
             in Inr (foldl (\<lambda>(b, c) (day, hours).
                  (add_to_day day key hours b, add_to_day day key (hours * of_int mult) c)) bc
                  (day_pieces (day_start (fst w)) w))))"

record usage_group =
  ug_machine_type :: string
  ug_gcp_region :: string
  ug_spot :: bool
  ug_node_hours :: real
  ug_compute_hours :: real

record usage_day =
  ud_date :: int
  ud_node_hours :: real
  ud_compute_hours :: real
  ud_groups :: "usage_group list"

record usage_report =
  us_month :: "int \<times> int"
  us_days :: "usage_day list"
  us_node_hours :: real
  us_compute_hours :: real
  us_scanned :: nat

text \<open>The first two bars of a key separate its parts.\<close>

definition after_first :: "char \<Rightarrow> string \<Rightarrow> string" where
  "after_first c s = tl (dropWhile (\<lambda>x. x \<noteq> c) s)"

definition group_row :: "string \<Rightarrow> real \<Rightarrow> real \<Rightarrow> usage_group" where
  "group_row key hours compute =
     (let rest = after_first CHR ''|'' key
      in \<lparr>ug_machine_type = before_first CHR ''|'' key, ug_gcp_region = before_first CHR ''|'' rest,
          ug_spot = (after_first CHR ''|'' rest = ''1''),
          ug_node_hours = quantize_hours hours, ug_compute_hours = quantize_hours compute\<rparr>)"

text \<open>A day of the report with the unrounded totals that the month adds up.\<close>

definition report_day :: "(string \<times> real) list \<Rightarrow> (string \<times> real) list \<Rightarrow> int \<Rightarrow> usage_day \<times> real \<times> real" where
  "report_day raw compute day =
     (let used = filter (\<lambda>(_, hours). hours > 0) raw;
          total_raw = sum_list (map snd used);
          total_compute = sum_list (map (\<lambda>(key, _). get_or 0 (map_of compute key)) used)
      in (\<lparr>ud_date = day, ud_node_hours = quantize_hours total_raw, ud_compute_hours = quantize_hours total_compute,
           ud_groups = sort_key (\<lambda>g. - ug_node_hours g)
             (map (\<lambda>(key, hours). group_row key hours (get_or 0 (map_of compute key))) used)\<rparr>,
          total_raw, total_compute))"

definition build_nodes_daily_hours ::
  "int \<times> int \<Rightarrow> usage_row list \<Rightarrow> string option \<Rightarrow> usage_error + usage_report" where
  "build_nodes_daily_hours now_month table month =
     bind_err (the_month now_month month) (\<lambda>ym.
     bind_err (raised (month_datetime ym)) (\<lambda>month_begin.
     bind_err (raised (month_datetime (add_months ym 1))) (\<lambda>month_end.
       let day_keys = days_until (day_start month_begin) month_end;
           empty = map (\<lambda>d. (d, [])) day_keys;
           ended_nodes = nodes_ended_after table month_begin
       in bind_err (raised (fold_err (book_node month_begin month_end) (empty, empty) ended_nodes)) (\<lambda>(b, c).
            let days = map (\<lambda>d. report_day (get_or [] (map_of b d)) (get_or [] (map_of c d)) d) day_keys
            in Inr \<lparr>us_month = ym, us_days = map fst days,
                    us_node_hours = quantize_hours (sum_list (map (fst \<circ> snd) days)),
                    us_compute_hours = quantize_hours (sum_list (map (snd \<circ> snd) days)),
                    us_scanned = length ended_nodes\<rparr>))))"

section \<open>Spend\<close>

definition round6 :: "real \<Rightarrow> real" where
  "round6 x = of_int (py_round (x * 1000000)) / 1000000"

record compute_type =
  ct_compute_hours :: real
  ct_spend_usd :: real
  ct_rate_missing :: bool

type_synonym type_buckets = "(string \<times> compute_type) list"

text \<open>None is a machine without a price.\<close>

definition group_spend :: "usage_group \<Rightarrow> real option" where
  "group_spend g = map_option (\<lambda>price. round6 (ug_node_hours g * price)) (on_demand_hourly_usd (ug_machine_type g))"

definition category_of :: "usage_group \<Rightarrow> string result" where
  "category_of g =
     bind_err (gpu_display (ug_machine_type g)) (\<lambda>display.
       Inr (if truthy display then split_on CHR '' '' (the display) ! 1 else ''CPU''))"

definition add_to_type :: "type_buckets \<Rightarrow> usage_group \<Rightarrow> type_buckets result" where
  "add_to_type types g =
     bind_err (category_of g) (\<lambda>category.
       let t = get_or \<lparr>ct_compute_hours = 0, ct_spend_usd = 0, ct_rate_missing = False\<rparr> (map_of types category);
           t = t\<lparr>ct_compute_hours := ct_compute_hours t + ug_compute_hours g\<rparr>
       in Inr (dset category
            (case group_spend g of
               None \<Rightarrow> t\<lparr>ct_rate_missing := True\<rparr>
             | Some usd \<Rightarrow> t\<lparr>ct_spend_usd := ct_spend_usd t + usd\<rparr>) types))"

record usage_spend =
  sp_report :: usage_report
  sp_days :: "(real \<times> real) list"
  sp_spend_usd :: real
  sp_unpriced_hours :: real
  sp_types :: type_buckets

text \<open>What the groups of a day cost, and the hours of those without a price.\<close>

definition day_cost :: "usage_day \<Rightarrow> real" where
  "day_cost d = sum_list (map (\<lambda>g. get_or 0 (group_spend g)) (ud_groups d))"

definition day_unpriced :: "usage_day \<Rightarrow> real" where
  "day_unpriced d = sum_list (map ug_node_hours (filter (\<lambda>g. group_spend g = None) (ud_groups d)))"

definition get_usage :: "int \<times> int \<Rightarrow> usage_row list \<Rightarrow> string option \<Rightarrow> usage_error + usage_spend" where
  "get_usage now_month table month =
     bind_err (build_nodes_daily_hours now_month table month) (\<lambda>report.
     bind_err (raised (fold_err add_to_type [] (concat (map ud_groups (us_days report))))) (\<lambda>types.
       Inr \<lparr>sp_report = report,
            sp_days = map (\<lambda>d. (round6 (day_cost d), round6 (day_unpriced d))) (us_days report),
            sp_spend_usd = round6 (sum_list (map day_cost (us_days report))),
            sp_unpriced_hours = round6 (sum_list (map day_unpriced (us_days report))),
            sp_types = map (\<lambda>(category, t). (category, t\<lparr>ct_compute_hours := round6 (ct_compute_hours t),
                                                     ct_spend_usd := round6 (ct_spend_usd t)\<rparr>)) types\<rparr>))"

section \<open>The nodes of a month\<close>

type_synonym usage_key = "real \<times> string"

definition usage_key :: "usage_row \<Rightarrow> usage_key" where
  "usage_key r = (get_or 0 (ur_ended_at r), ur_instance_name r)"

definition usage_before :: "usage_key \<Rightarrow> usage_key \<Rightarrow> bool" where
  "usage_before a b \<longleftrightarrow> fst b < fst a \<or> fst b = fst a \<and> snd b < snd a"

record shown_node =
  sn_instance_name :: string
  sn_machine_type :: "string option"
  sn_gcp_region :: "string option"
  sn_spot :: bool
  sn_started_at_ms :: int
  sn_ended_at_ms :: int
  sn_duration_hours :: real
  sn_duration_compute_hours :: real

text \<open>\<open>int(ts.timestamp() * 1000)\<close> cuts towards zero.\<close>

definition to_epoch_ms :: "real \<Rightarrow> int" where
  "to_epoch_ms t = (if 0 \<le> t then \<lfloor>t * 1000\<rfloor> else \<lceil>t * 1000\<rceil>)"

definition show_month_node :: "real \<Rightarrow> real \<Rightarrow> usage_row \<Rightarrow> shown_node option result" where
  "show_month_node month_begin month_end r =
     bind_err (usage_window month_begin month_end r) (\<lambda>w.
       case w of
         None \<Rightarrow> Inr None
       | Some (window_start, window_end) \<Rightarrow>
           let hours = (window_end - window_start) / 3600
           in bind_err (cpu_hour_multiplier (ur_machine_type r)) (\<lambda>mult. Inr (Some
                \<lparr>sn_instance_name = ur_instance_name r, sn_machine_type = ur_machine_type r,
                 sn_gcp_region = ur_gcp_region r, sn_spot = get_or False (ur_spot r),
                 sn_started_at_ms = to_epoch_ms window_start, sn_ended_at_ms = to_epoch_ms window_end,
                 sn_duration_hours = quantize_hours hours,
                 sn_duration_compute_hours = quantize_hours (hours * of_int mult)\<rparr>)))"

text \<open>A page is full when there may be more; the cursor is then its last row.\<close>

definition nodes_month_nodes ::
  "int \<times> int \<Rightarrow> usage_row list \<Rightarrow> string option \<Rightarrow> int \<Rightarrow> usage_key option
    \<Rightarrow> usage_error + shown_node list \<times> usage_key option" where
  "nodes_month_nodes now_month table month limit cursor =
     bind_err (the_month now_month month) (\<lambda>ym.
     bind_err (raised (month_datetime ym)) (\<lambda>month_begin.
     bind_err (raised (month_datetime (add_months ym 1))) (\<lambda>month_end.
       let limit = nat (max 1 (min limit 5000));
           ended_nodes = order_by usage_before usage_key (nodes_ended_after table month_begin);
           ended_nodes = (case cursor of None \<Rightarrow> ended_nodes | Some c \<Rightarrow> filter (\<lambda>r. usage_before c (usage_key r)) ended_nodes);
           page = take limit ended_nodes
       in bind_err (raised (map_err (show_month_node month_begin month_end) page)) (\<lambda>shown.
            Inr (concat (map (\<lambda>n. case n of None \<Rightarrow> [] | Some n \<Rightarrow> [n]) shown),
                 if length page = limit \<and> page \<noteq> [] then map_option (\<lambda>e. (e, snd (usage_key (last page)))) (ur_ended_at (last page))
                 else None)))))"

end
