(* ===== verification/Usage_Claims.thy ===== *)
theory Usage_Claims
  imports Usage "HOL-Library.Multiset"
begin

text \<open>
  The usage report counts every second of a node in the month once: the pieces of its days add up to
  its window, and the totals of the month to all windows.
\<close>

section \<open>Days and pieces\<close>

lemma day_of_seconds [simp]: "day_of (day_seconds i) = i"
  by (simp add: day_of_def day_seconds_def)

lemma add_days_seconds [simp]: "add_days (day_seconds i) n = day_seconds (i + n)"
  by (simp add: add_days_def day_seconds_def algebra_simps)

lemma day_start_le: "day_start t \<le> t" "t < add_days (day_start t) 1"
proof -
  have "of_int \<lfloor>t / 86400\<rfloor> \<le> t / 86400" "t / 86400 < of_int \<lfloor>t / 86400\<rfloor> + 1" by linarith+
  then show "day_start t \<le> t" "t < add_days (day_start t) 1"
    by (simp_all add: day_start_def day_of_def add_days_def day_seconds_def field_simps)
qed

lemma days_until_set: "d = day_seconds i \<Longrightarrow> set (days_until d e) = {j. i \<le> j \<and> day_seconds j < e} \<and> distinct (days_until d e)"
proof (induction d e arbitrary: i rule: days_until.induct)
  case (1 d e)
  show ?case
  proof (cases "d < e")
    case True
    have IH: "set (days_until (add_days d 1) e) = {j. i + 1 \<le> j \<and> day_seconds j < e}" "distinct (days_until (add_days d 1) e)"
      using "1.IH" [OF True, of "i + 1"] "1.prems" by simp_all
    have "{j. i \<le> j \<and> day_seconds j < e} = insert i {j. i + 1 \<le> j \<and> day_seconds j < e}"
      using True "1.prems" by (auto simp: order_less_le)
    then show ?thesis using True IH "1.prems" by (simp add: days_until.simps [of "day_seconds i" e])
  next
    case False
    have "e \<le> day_seconds j" if "i \<le> j" for j
      using that False "1.prems" of_int_le_iff [of i j, where 'a = real] by (simp add: day_seconds_def)
    then show ?thesis using False by (force simp: days_until.simps [of d e])
  qed
qed

lemma day_pieces_facts:
  assumes "d = day_seconds i" "d \<le> fst w" "x \<in> set (day_pieces d w)"
  shows "i \<le> fst x \<and> day_seconds (fst x) < snd w \<and> 0 < snd x"
proof -
  have "d = day_seconds i \<Longrightarrow> x \<in> set (day_pieces d w) \<Longrightarrow> i \<le> fst x \<and> day_seconds (fst x) < snd w \<and> 0 < snd x"
  proof (induction d w arbitrary: i rule: day_pieces.induct)
    case (1 d w)
    show ?case
    proof (cases "d < snd w")
      case True
      then show ?thesis
        using "1.IH" [OF True refl refl refl, of "i + 1"] "1.prems"
        by (auto simp: day_pieces.simps [of "day_seconds i" w] Let_def split: if_splits)
    next
      case False
      then show ?thesis using "1.prems" by (auto simp: day_pieces.simps [of "day_seconds i" w])
    qed
  qed
  then show ?thesis using assms by simp
qed

lemma day_pieces_sum: "sum_list (map snd (day_pieces d w)) = max 0 (snd w - max (fst w) d) / 3600"
proof (induction d w rule: day_pieces.induct)
  case (1 d w)
  show ?case
  proof (cases "d < snd w")
    case True
    have next_day: "add_days d 1 = d + 86400" by (simp add: add_days_def day_seconds_def)
    show ?thesis
      using "1.IH" [OF True refl refl refl] True
      by (auto simp: day_pieces.simps [of d w] Let_def next_day max_def min_def field_simps)
  next
    case False
    then show ?thesis by (simp add: day_pieces.simps [of d w] max_def)
  qed
qed

section \<open>Adding up buckets\<close>

abbreviation bucket_sum :: "(string \<times> real) list \<Rightarrow> real" where
  "bucket_sum d \<equiv> sum_list (map snd d)"

lemma bucket_sum_add: "bucket_sum (add_hours k a d) = bucket_sum d + a"
proof -
  have "bucket_sum (dset k v d) = bucket_sum d - get_or 0 (map_of d k) + v" for v
    by (induction d) (auto simp: dset_Cons)
  then show ?thesis by (simp add: add_hours_def)
qed

definition day_bucket :: "hour_buckets \<Rightarrow> int \<Rightarrow> (string \<times> real) list" where
  "day_bucket b day = get_or [] (map_of b day)"

definition all_hours :: "int list \<Rightarrow> hour_buckets \<Rightarrow> real" where
  "all_hours days b = sum_list (map (\<lambda>d. bucket_sum (day_bucket b d)) days)"

text \<open>Both tables have the days of the month, the same kinds of machines in a day, and hours that count.\<close>

definition tables_ok :: "int list \<Rightarrow> hour_buckets \<Rightarrow> hour_buckets \<Rightarrow> bool" where
  "tables_ok days b c \<longleftrightarrow> set (dkeys b) = set days \<and> set (dkeys c) = set days \<and>
     (\<forall>d \<in> set days. dkeys (day_bucket c d) = dkeys (day_bucket b d) \<and> distinct (dkeys (day_bucket b d))
        \<and> (\<forall>x \<in> set (day_bucket b d). 0 < snd x))"

lemma day_bucket_add:
  "day \<in> set (dkeys b) \<Longrightarrow>
     day_bucket (add_to_day day k a b) d = (if d = day then add_hours k a (day_bucket b day) else day_bucket b d)"
  by (auto simp: add_to_day_def day_bucket_def split: option.splits dest: weak_map_of_SomeI)

lemma keys_add_to_day: "set (dkeys (add_to_day day k a b)) = set (dkeys b)"
proof (cases "map_of b day")
  case (Some d)
  then have "day \<in> set (dkeys b)" by (force dest: map_of_SomeD)
  then show ?thesis using keys_dset [of day "add_hours k a d" b] Some by (simp add: add_to_day_def insert_absorb)
qed (simp add: add_to_day_def)

lemma all_hours_add:
  assumes "distinct days" "day \<in> set days" "day \<in> set (dkeys b)"
  shows "all_hours days (add_to_day day k a b) = all_hours days b + a"
proof -
  have "sum_list (map (\<lambda>d. f d + (if d = day then a else 0)) days) = sum_list (map f days) + a" for f :: "int \<Rightarrow> real"
    using assms(1,2) by (simp add: sum_list_addf sum_list_distinct_conv_sum_set sum.delta)
  moreover have "bucket_sum (day_bucket (add_to_day day k a b) d) = bucket_sum (day_bucket b d) + (if d = day then a else 0)" for d
    using assms(3) by (simp add: day_bucket_add bucket_sum_add)
  ultimately show ?thesis by (simp add: all_hours_def)
qed

lemma dkeys_add_hours: "dkeys (add_hours k a d) = (if k \<in> set (dkeys d) then dkeys d else dkeys d @ [k])"
  unfolding add_hours_def by (induction d) (auto simp: dset_Cons)

lemma tables_ok_add:
  assumes ok: "tables_ok days b c" and day: "day \<in> set days" and a: "0 < a"
  shows "tables_ok days (add_to_day day k a b) (add_to_day day k e c)"
proof -
  have pos: "0 < snd x" if "x \<in> set (add_hours k a (day_bucket b day))" for x
  proof -
    have old: "\<forall>x \<in> set (day_bucket b day). 0 < snd x" using ok day by (simp add: tables_ok_def)
    have "0 \<le> get_or 0 (map_of (day_bucket b day) k)"
      using old by (cases "map_of (day_bucket b day) k") (auto dest!: map_of_SomeD)
    then show ?thesis using that old a in_dset by (fastforce simp: add_hours_def)
  qed
  have k: "day \<in> set (dkeys b)" "day \<in> set (dkeys c)" "dkeys (day_bucket c day) = dkeys (day_bucket b day)"
    "distinct (dkeys (day_bucket b day))"
    using ok day by (auto simp: tables_ok_def)
  have "dkeys (day_bucket (add_to_day day k e c) d) = dkeys (day_bucket (add_to_day day k a b) d)
      \<and> distinct (dkeys (day_bucket (add_to_day day k a b) d))
      \<and> (\<forall>x \<in> set (day_bucket (add_to_day day k a b) d). 0 < snd x)" if d: "d \<in> set days" for d
  proof (cases "d = day")
    case True
    then show ?thesis
      using k pos by (simp add: day_bucket_add [OF k(1)] day_bucket_add [OF k(2)] dkeys_add_hours)
  next
    case False
    then show ?thesis
      using ok d by (simp add: day_bucket_add [OF k(1)] day_bucket_add [OF k(2)] tables_ok_def)
  qed
  then show ?thesis using ok by (simp add: tables_ok_def keys_add_to_day del: set_map)
qed

section \<open>Booking the nodes\<close>

text \<open>What a node contributes to a month: the hours of its window, and its CPU hours.\<close>

definition counted_hours :: "real \<Rightarrow> real \<Rightarrow> usage_row \<Rightarrow> real" where
  "counted_hours month_begin month_end r =
     (case usage_window month_begin month_end r of
        Inr (Some (s, e)) \<Rightarrow> if truthy (ur_machine_type r) \<and> truthy (ur_gcp_region r) then (e - s) / 3600 else 0
      | _ \<Rightarrow> 0)"

definition counted_compute :: "real \<Rightarrow> real \<Rightarrow> usage_row \<Rightarrow> real" where
  "counted_compute month_begin month_end r =
     counted_hours month_begin month_end r * (case cpu_hour_multiplier (ur_machine_type r) of Inr n \<Rightarrow> of_int n | _ \<Rightarrow> 0)"

lemma book_pieces:
  assumes "distinct days" "tables_ok days b c" "\<forall>x \<in> set ps. fst x \<in> set days \<and> 0 < snd x"
    "foldl (\<lambda>(b, c) (day, hours). (add_to_day day key hours b, add_to_day day key (hours * m) c)) (b, c) ps = (b', c')"
  shows "tables_ok days b' c' \<and> all_hours days b' = all_hours days b + sum_list (map snd ps)
    \<and> all_hours days c' = all_hours days c + sum_list (map snd ps) * m"
  using assms
proof (induction ps arbitrary: b c)
  case (Cons p ps)
  obtain day hours where p: "p = (day, hours)" by (rule prod.exhaust)
  have day: "day \<in> set days" "0 < hours" using Cons.prems(3) by (simp_all add: p)
  have keys: "day \<in> set (dkeys b)" "day \<in> set (dkeys c)" using day Cons.prems(2) by (simp_all add: tables_ok_def del: set_map)
  have ok: "tables_ok days (add_to_day day key hours b) (add_to_day day key (hours * m) c)"
    by (rule tables_ok_add [OF Cons.prems(2) day])
  show ?case
    using Cons.IH [OF Cons.prems(1) ok] Cons.prems(3,4)
    by (simp add: p all_hours_add [OF Cons.prems(1) day(1) keys(1)] all_hours_add [OF Cons.prems(1) day(1) keys(2)] algebra_simps)
qed simp

lemma usage_window_in_month:
  "usage_window ms me r = Inr (Some (s, e)) \<Longrightarrow> ms \<le> s \<and> s < e \<and> e \<le> me"
  by (auto simp: usage_window_def bind_err_eq_Inr Let_def split: option.splits if_splits)

lemma day_pieces_in_month:
  assumes "ms = day_seconds i" "ms \<le> s" "s < e" "e \<le> me"
  shows "\<forall>x \<in> set (day_pieces (day_start s) (s, e)). fst x \<in> set (days_until ms me) \<and> 0 < snd x"
    "sum_list (map snd (day_pieces (day_start s) (s, e))) = (e - s) / 3600"
proof -
  have "s / 86400 \<ge> of_int i" using assms(1,2) by (simp add: day_seconds_def)
  then have i: "i \<le> day_of s" by (simp add: day_of_def le_floor_iff)
  show "\<forall>x \<in> set (day_pieces (day_start s) (s, e)). fst x \<in> set (days_until ms me) \<and> 0 < snd x"
    using day_pieces_facts [of "day_start s" "day_of s" "(s, e)"] day_start_le(1) [of s] i assms(4)
    by (fastforce simp: day_start_def days_until_set [OF assms(1)])
  show "sum_list (map snd (day_pieces (day_start s) (s, e))) = (e - s) / 3600"
    using assms(3) day_start_le(1) [of s] by (simp add: day_pieces_sum max_def)
qed

lemma book_node_adds:
  assumes ms: "ms = day_seconds i" and ok: "tables_ok (days_until ms me) b c"
    and b: "book_node ms me (b, c) r = Inr (b', c')"
  shows "tables_ok (days_until ms me) b' c'
    \<and> all_hours (days_until ms me) b' = all_hours (days_until ms me) b + counted_hours ms me r
    \<and> all_hours (days_until ms me) c' = all_hours (days_until ms me) c + counted_compute ms me r"
proof -
  obtain w where w: "usage_window ms me r = Inr w" using b by (auto simp: book_node_def bind_err_eq_Inr)
  show ?thesis
  proof (cases "w = None \<or> \<not> truthy (ur_machine_type r) \<or> \<not> truthy (ur_gcp_region r)")
    case True
    then show ?thesis using b ok by (auto simp: book_node_def w counted_hours_def counted_compute_def split: option.splits)
  next
    case False
    then obtain s e where se: "w = Some (s, e)" "truthy (ur_machine_type r)" "truthy (ur_gcp_region r)" by (cases w) auto
    obtain n where n: "cpu_hour_multiplier (ur_machine_type r) = Inr n"
      using b se by (auto simp: book_node_def w bind_err_eq_Inr)
    have "ms \<le> s" "s < e" "e \<le> me" using usage_window_in_month w se(1) by blast+
    note p = day_pieces_in_month [OF ms this]
    have "distinct (days_until ms me)" using days_until_set [OF ms] by blast
    from book_pieces [OF this ok p(1)] b
    have "tables_ok (days_until ms me) b' c'
      \<and> all_hours (days_until ms me) b' = all_hours (days_until ms me) b + (e - s) / 3600
      \<and> all_hours (days_until ms me) c' = all_hours (days_until ms me) c + (e - s) / 3600 * of_int n"
      by (simp add: book_node_def w se n Let_def p(2))
    then show ?thesis using se by (simp add: counted_hours_def counted_compute_def w n)
  qed
qed

lemma book_nodes_add:
  assumes ms: "ms = day_seconds i" and "tables_ok (days_until ms me) (fst bc) (snd bc)"
    and "fold_err (book_node ms me) bc rows = Inr bc'"
  shows "tables_ok (days_until ms me) (fst bc') (snd bc')
    \<and> all_hours (days_until ms me) (fst bc') = all_hours (days_until ms me) (fst bc) + sum_list (map (counted_hours ms me) rows)
    \<and> all_hours (days_until ms me) (snd bc') = all_hours (days_until ms me) (snd bc) + sum_list (map (counted_compute ms me) rows)"
  using assms(2,3)
proof (induction rows arbitrary: bc)
  case (Cons r rows)
  obtain bc1 where 1: "book_node ms me bc r = Inr bc1" "fold_err (book_node ms me) bc1 rows = Inr bc'"
    using Cons.prems(2) by (auto simp: bind_err_eq_Inr)
  then show ?case
    using book_node_adds [OF ms, of me "fst bc" "snd bc" r "fst bc1" "snd bc1"] Cons.prems(1) Cons.IH [of bc1] by simp
qed simp

section \<open>The report\<close>

lemma month_datetime_day:
  assumes "month_datetime ym = Inr t"
  obtains i where "t = day_seconds i" "t < 2000000000000"
proof -
  obtain y m where ym: "ym = (y, m)" by (rule prod.exhaust)
  have ok: "1 \<le> y" "y \<le> 9999" "1 \<le> m" "m \<le> 12"
    and t: "t = day_seconds (days_before_year y + days_before_month y m - 719162)"
    using assms by (auto simp: month_datetime_def ym split: if_splits)
  have "days_before_month y m \<le> (\<Sum>x\<leftarrow>[1..m - 1]. 31)"
    unfolding days_before_month_def by (rule sum_list_mono) (simp add: days_in_month_def)
  also have "\<dots> \<le> 31 * 12" using ok by (simp add: sum_list_triv)
  finally have "days_before_month y m \<le> 372" by simp
  moreover have "days_before_year y \<le> 9999 * 367"
  proof -
    have "(y - 1) div 4 \<le> y - 1" "(y - 1) div 400 \<le> y - 1" "0 \<le> (y - 1) div 100"
      using ok(1) by (auto simp: pos_imp_zdiv_nonneg_iff)
    then show ?thesis using ok by (simp add: days_before_year_def Let_def)
  qed
  ultimately have "days_before_year y + days_before_month y m - 719162 \<le> 20000000" by simp
  then have "t \<le> 86400 * 20000000" unfolding t day_seconds_def by simp
  then show ?thesis using that t by simp
qed

text \<open>A node that ended before the month counts nothing, so the rows the query leaves out do not matter.\<close>

lemma counted_only_ended:
  assumes "ms < 2000000000000" "counted_hours ms me r \<noteq> 0"
  shows "case ur_ended_at r of None \<Rightarrow> False | Some e \<Rightarrow> e \<ge> ms"
proof -
  obtain s e where w: "usage_window ms me r = Inr (Some (s, e))"
    using assms(2) by (auto simp: counted_hours_def split: sum.splits option.splits)
  then obtain ended started t where "ur_ended_at r = Some ended" "as_utc_datetime ended = Inr t" "e \<le> t"
    by (auto simp: usage_window_def bind_err_eq_Inr Let_def split: option.splits if_splits)
  moreover have "ms < e" using usage_window_in_month [OF w] by linarith
  ultimately show ?thesis using assms(1) by (auto simp: as_utc_datetime_def Let_def split: if_splits)
qed

lemma nodes_ended_sum:
  assumes "\<And>r. f r \<noteq> (0 :: real) \<Longrightarrow> (case ur_ended_at r of None \<Rightarrow> False | Some e \<Rightarrow> e \<ge> ms)"
  shows "sum_list (map f (nodes_ended_after table ms)) = sum_list (map f table)"
proof -
  have "sum_list (map f (nodes_ended_after table ms)) =
      sum_list (map f (filter (\<lambda>r. case ur_ended_at r of None \<Rightarrow> False | Some e \<Rightarrow> e \<ge> ms) table))"
    unfolding nodes_ended_after_def
    by (simp only: sum_mset_sum_list [symmetric] mset_map mset_sort)
  also have "\<dots> = sum_list (map f table)" using assms by (induction table) auto
  finally show ?thesis .
qed

lemma report_day_totals:
  assumes "dkeys c = dkeys b" "distinct (dkeys b)" "\<forall>x \<in> set b. 0 < snd x"
  shows "snd (report_day b c d) = (bucket_sum b, bucket_sum c)"
proof -
  have f: "filter (\<lambda>(_, hours). 0 < hours) b = b" by (rule filter_True) (use assms(3) in auto)
  have "map (\<lambda>(key, _). get_or 0 (map_of c key)) b = map (\<lambda>key. get_or 0 (map_of c key)) (dkeys c)"
    by (simp add: assms(1) split_def)
  also have "\<dots> = map snd c"
  proof -
    have "get_or 0 (map_of c k) = v" if "(k, v) \<in> set c" for k v
      using that assms(1,2) by (simp add: map_of_mem [symmetric])
    then show ?thesis by (auto simp: o_def)
  qed
  finally show ?thesis by (simp add: report_day_def f Let_def)
qed

lemma usage_totals:
  assumes "build_nodes_daily_hours now_month table month = Inr rep"
  obtains ms me where "month_datetime (us_month rep) = Inr ms" "month_datetime (add_months (us_month rep) 1) = Inr me"
    "us_node_hours rep = quantize_hours (sum_list (map (counted_hours ms me) table))"
    "us_compute_hours rep = quantize_hours (sum_list (map (counted_compute ms me) table))"
proof -
  obtain ym ms me where m: "the_month now_month month = Inr ym" "month_datetime ym = Inr ms"
      "month_datetime (add_months ym 1) = Inr me"
    using assms by (auto simp: build_nodes_daily_hours_def bind_err_eq_Inr raised_def map_sum_Inr_iff)
  obtain i where i: "ms = day_seconds i" "ms < 2000000000000" using month_datetime_day [OF m(2)] .
  have start: "day_start ms = ms" by (simp add: day_start_def i(1))
  let ?days = "days_until ms me"
  let ?e = "map (\<lambda>d. (d, [])) ?days"
  let ?rows = "nodes_ended_after table ms"
  obtain b c where bc: "fold_err (book_node ms me) (?e, ?e) ?rows = Inr (b, c)"
    using assms by (auto simp: build_nodes_daily_hours_def m raised_def start Let_def bind_err_eq_Inr map_sum_Inr_iff)
  have empty: "day_bucket ?e d = []" for d by (auto simp: day_bucket_def map_of_map_restrict restrict_map_def)
  have "tables_ok ?days ?e ?e" by (simp add: tables_ok_def empty o_def)
  from book_nodes_add [OF i(1), of me "(?e, ?e)", simplified, OF this bc]
  have t: "tables_ok ?days b c" "all_hours ?days b = sum_list (map (counted_hours ms me) ?rows)"
    "all_hours ?days c = sum_list (map (counted_compute ms me) ?rows)"
    by (simp_all add: all_hours_def empty)
  have day: "snd (report_day (day_bucket b d) (day_bucket c d) d) = (bucket_sum (day_bucket b d), bucket_sum (day_bucket c d))"
    if "d \<in> set ?days" for d
    by (rule report_day_totals) (use t(1) that in \<open>auto simp: tables_ok_def\<close>)
  have sums: "sum_list (map (counted_hours ms me) ?rows) = sum_list (map (counted_hours ms me) table)"
    "sum_list (map (counted_compute ms me) ?rows) = sum_list (map (counted_compute ms me) table)"
    by (rule nodes_ended_sum, rule counted_only_ended [where me = me, OF i(2)], simp add: counted_compute_def)+
  have "us_month rep = ym"
    "us_node_hours rep = quantize_hours (sum_list (map (\<lambda>d. fst (snd (report_day (day_bucket b d) (day_bucket c d) d))) ?days))"
    "us_compute_hours rep = quantize_hours (sum_list (map (\<lambda>d. snd (snd (report_day (day_bucket b d) (day_bucket c d) d))) ?days))"
    using assms by (auto simp: build_nodes_daily_hours_def m raised_def start Let_def bc o_def day_bucket_def [symmetric])
  then show ?thesis
    using that m(2,3) t sums day by (simp add: all_hours_def cong: map_cong)
qed


text \<open>One node over the turn of a month: from an hour before to two hours after midnight.\<close>

definition demo_usage :: "usage_row list" where
  "demo_usage = [\<lparr>ur_instance_name = ''n1'', ur_started_at = None, ur_started_booting_at = Some (1709247600),
     ur_ended_at = Some 1709258400, ur_machine_type = Some ''n4-standard-4'', ur_gcp_region = Some ''us-central1'', ur_spot = None\<rparr>]"


section \<open>The nodes of a month, page by page\<close>

text \<open>Pages that are full promise another, which may be empty.\<close>

definition full_page :: "('r \<Rightarrow> 'k) \<Rightarrow> nat \<Rightarrow> 'r list \<Rightarrow> 'r list \<times> 'k option" where
  "full_page key limit rows =
     (let page = take limit rows in (page, if length page = limit \<and> page \<noteq> [] then Some (key (last page)) else None))"

context row_order begin

lemma walk_full_pages:
  assumes d: "distinct (map key rows)" and limit: "0 < limit"
  shows "walk (\<lambda>c. full_page key limit (rows_after lt key c (order_by lt key rows))) (Suc (length rows)) None
    = order_by lt key rows"
proof -
  let ?all = "order_by lt key rows"
  let ?page = "\<lambda>c. full_page key limit (rows_after lt key c ?all)"
  define cur where "cur = (\<lambda>j. if j = 0 then None else Some (key (?all ! (j - 1))))"
  have o: "in_order key ?all" by (rule in_order_sort [OF d])
  have rest: "rows_after lt key (cur j) ?all = drop j ?all" if "j \<le> length ?all" for j
  proof (cases j)
    case (Suc i)
    then show ?thesis using that after_row [OF o, of i] by (simp add: cur_def rows_after_def)
  qed (simp add: cur_def rows_after_def)
  have "walk ?page n (cur j) = drop j ?all" if "j \<le> length ?all" "length ?all - j < n" for j n
    using that
  proof (induction n arbitrary: j)
    case (Suc n)
    show ?case
    proof (cases "limit \<le> length ?all - j")
      case False
      then show ?thesis using rest [OF Suc.prems(1)] by (simp add: full_page_def Let_def)
    next
      case True
      then have "last (take limit (drop j ?all)) = ?all ! (j + limit - 1)"
        using limit by (subst last_conv_nth) (auto simp: nth_append)
      then have "full_page key limit (drop j ?all) = (take limit (drop j ?all), cur (j + limit))"
        using True limit by (simp add: full_page_def cur_def Let_def)
      then have "?page (cur j) = (take limit (drop j ?all), cur (j + limit))"
        unfolding rest [OF Suc.prems(1)] .
      moreover have "walk ?page n (cur (j + limit)) = drop (j + limit) ?all"
        using Suc True limit by auto
      moreover have "cur (j + limit) = Some (key (?all ! (j + limit - 1)))" using limit by (simp add: cur_def)
      moreover have "take limit (drop j ?all) @ drop (j + limit) ?all = drop j ?all"
        by (metis append_take_drop_id drop_drop add.commute)
      ultimately show ?thesis by simp
    qed
  qed simp
  from this [of 0 "Suc (length rows)"] show ?thesis by (simp add: cur_def)
qed

end

interpretation usages: row_order usage_before
  by unfold_locales (auto simp: usage_before_def prod_eq_iff)

lemma walk_shown:
  assumes "\<And>c. page' c = (concat (map f (fst (page c))), snd (page c))"
  shows "walk page' n c = concat (map f (walk page n c))"
proof (induction n arbitrary: c)
  case (Suc n)
  obtain items nxt where p: "page c = (items, nxt)" by (rule prod.exhaust)
  then have "page' c = (concat (map f items), nxt)" using assms [of c] by simp
  then show ?case using p Suc.IH by (simp split: option.splits)
qed simp

definition readable_pages :: "('k option \<Rightarrow> 'e + 'r list \<times> 'k option) \<Rightarrow> 'k option \<Rightarrow> 'r list \<times> 'k option" where
  "readable_pages endpoint c = (case endpoint c of Inl _ \<Rightarrow> ([], None) | Inr p \<Rightarrow> p)"

text \<open>
  Following the cursors of a month's nodes shows every node of the month once, the latest first, as long as
  every row can be shown.
\<close>

lemma month_pages_are_complete:
  assumes m: "the_month now_month month = Inr ym" "month_datetime ym = Inr ms" "month_datetime (add_months ym 1) = Inr me"
    and ids: "distinct (map ur_instance_name table)"
    and vis: "\<And>r. r \<in> set table \<Longrightarrow> show_month_node ms me r = Inr (f r)"
  shows "walk (readable_pages (nodes_month_nodes now_month table month limit)) (Suc (length (nodes_ended_after table ms))) None
    = concat (map (\<lambda>r. case f r of None \<Rightarrow> [] | Some n \<Rightarrow> [n])
        (order_by usage_before usage_key (nodes_ended_after table ms)))"
proof -
  let ?rows = "nodes_ended_after table ms"
  let ?all = "order_by usage_before usage_key ?rows"
  let ?n = "nat (max 1 (min limit 5000))"
  let ?page = "\<lambda>c. full_page usage_key ?n (rows_after usage_before usage_key c ?all)"
  have rows: "set ?rows = {r \<in> set table. case ur_ended_at r of None \<Rightarrow> False | Some e \<Rightarrow> e \<ge> ms}"
    by (auto simp: nodes_ended_after_def)
  have "distinct (map ur_instance_name ?rows)"
    using ids unfolding nodes_ended_after_def
    by (metis distinct_map_filter mset_eq_imp_distinct_iff mset_map mset_sort)
  then have d: "distinct (map usage_key ?rows)" by (auto simp: distinct_map inj_on_def usage_key_def)
  have "readable_pages (nodes_month_nodes now_month table month limit) c =
      (concat (map (\<lambda>r. case f r of None \<Rightarrow> [] | Some n \<Rightarrow> [n]) (fst (?page c))), snd (?page c))" for c
  proof -
    let ?got = "take ?n (rows_after usage_before usage_key c ?all)"
    have "set ?got \<subseteq> set (rows_after usage_before usage_key c ?all)" by (rule set_take_subset)
    also have "\<dots> \<subseteq> set ?rows" by (auto simp: rows_after_def split: option.splits)
    finally have sub: "set ?got \<subseteq> set ?rows" .
    then have shown: "map_err (show_month_node ms me) ?got = Inr (map f ?got)"
      by (intro map_err_total vis) (auto simp: rows)
    have "?got \<noteq> [] \<Longrightarrow> last ?got \<in> set ?rows" using sub last_in_set by blast
    then have key: "?got \<noteq> [] \<Longrightarrow> map_option (\<lambda>e. (e, snd (usage_key (last ?got)))) (ur_ended_at (last ?got)) = Some (usage_key (last ?got))"
      by (auto simp: rows usage_key_def split: option.splits)
    show ?thesis
      using shown key unfolding readable_pages_def nodes_month_nodes_def m raised_def full_page_def Let_def
        rows_after_def [of _ _ c, symmetric]
      by (simp add: m o_def map_map)
  qed
  from walk_shown [OF this] show ?thesis
    using usages.walk_full_pages [OF d, of ?n] by (simp del: walk.simps)
qed

end
