(* ===== verification/Spec2Isabelle.thy ===== *)
theory Spec2Isabelle
  imports Reapers Mint_Claims Push_Properties Input_Claims Node_Claims Node_Batches
    Client_Claims Nested_Calls Log_Claims Memory_Claims Recovery_Claims Boot_Claims Node_Watch
    Cluster_Claims Gate_Claims Page_Claims Transfer_Claims Tree_Claims Settings Management_Claims Usage_Claims
begin

text \<open>
  A verification library for Burla: a Python cluster that runs one function over many inputs. A client
  hands a function to the head (main_service); the head keeps the state of the cluster, plans and boots
  machines, and hands jobs to nodes; every node (node_service) runs a set of worker containers, steals
  inputs from its neighbours, and gives results back to the client. Every definition below is
  translated from a Python function and executable; every error Python raises is a value.

  Parts and theories.

  The prelude (theory Prelude) has the errors, an error monad, dictionaries in insertion order
  (association lists, read with map_of, written with dset and ddel) and the lemmas on them that the
  components share.

  The head.
  Catalog: providers/catalog.py, the machine tables, parsing of machine type names, how many calls fit
    a machine, and packing CPUs into machines. The locale size_table holds for each cloud's table.
  Scaling: scaling.py, from missing slots to a list of machines.
  Cluster_State, Job_Tracking: cluster_state.py. The record head is the live state (NODES, JOBS and
    the rest) with the two history tables of history.py that it writes through; Cluster_State has the
    node and job updates, admission and the failure cascade, Job_Tracking the progress that nodes
    report, the views and both reapers.
  Head_Steps, Head_Invariants, Lifecycles: the head as a step relation (one locked section per step,
    restart included), its invariant, and the locale lifecycle, which says along which edges a status
    may move; it is interpreted for node statuses, job statuses and recorded start responses.
  Head_Properties, Job_Cascade, Reapers: what follows for nodes, jobs, admission, restart, the cascade
    and the reapers.
  Mint_Controller, Mint_Properties, Mint_Claims: mint_controller.py, growth of a job in epochs that
    have to raise goodput.
  Job_Start, Start_Properties: endpoints/client.py, starting a job and the other client handlers.
  Node_Endpoints, Push_Properties: endpoints/nodes.py, the state push, minting and replacement nodes.
  Node_Boot, Boot_Claims: node.py and the zone loops of providers/gcp.py and providers/aws.py: booting a
    node in a thread of its own, as a step relation (boot_step) over the head, the VMs that exist and
    the threads; no VM is forgotten and no wait is endless.
  Cluster_Lifecycle, Cluster_Claims: endpoints/cluster_lifecycle.py: telling the running jobs, shutting
    the cluster down, and the arguments and ports of the nodes a restart starts.
  Auth_Gate, Gate_Claims: validate_requests and its cache in main_service/__init__.py, over any
    interleaving of requests and backend answers.

  Paging, History_Pages, Page_Claims: the lists and logs that endpoints/management.py reads from history.py
    page by page. The locale row_order says what the order of a table's keys has to be for the pages that
    follow the cursors to be the whole table; it holds of the SQL the code writes and of the log keys.
  Job_Tree, Tree_Claims: the tree of nested jobs in endpoints/management.py: rows grouped by function,
    stages chained, the members of a group. The recursion takes one unit of fuel per level; the number of
    rows is enough for every root (Tree_Claims), since the jobs below a root without a parent form no
    cycle.
  Management_Jobs, Management_Claims: one job in endpoints/management.py: its ancestors, the status it is
    shown with, its cancellation, its calls and its errors in groups.
  Settings: the settings form of endpoints/management.py, validated against the catalog and written
    into the saved configuration.
  Usage, Usage_Claims: endpoints/usage.py, the hours of the nodes in a month by day and machine, and their
    estimated spend; the totals are the time of the nodes within the month, no second twice.
  Shared_Files, Storage_Claims, Storage_Transfers, Transfer_Claims: endpoints/storage.py over
    blobstore.py: the file manager, chunked uploads, tickets and archives. The cloud's object and
    multipart calls are parameters (bucket_api, multipart_api) whose documented behaviour is a
    hypothesis (bucket_laws, multipart_laws); a dictionary satisfies it.

  The node.
  Sized_Queue: node_service/helpers.py, the queue that also pops from its back and knows its bytes; the
    locale sized_queue is the contract its users rely on, interpreted on the code's queue.
  Node_State: node_service/__init__.py and worker_client.py, the state SELF and the workers: the worker
    loop section by section, retirement under memory pressure, parking, revoking and unparking.
  Job_Endpoints: job_endpoints.py, every handler: assignment, uploads, both halves of the steal
    transaction, the slot trade, results.
  Head_Client: head_client.py, the body of a push and what the node makes of the answer; composed with
    the head's endpoint, an exchange over a connection that may lose the answer.
  Job_Watcher: job_watcher.py and lifecycle_endpoints.py, stealing, trading, minting, replacing,
    finishing, leaving, rebooting.
  Memory_Monitor, Memory_Claims: dynamic_ram_monitor_loop of worker_client.py, one tick over the
    readings of the cgroups: when it parks, kills or waits, whom, and that this is safe, cheapest, and
    breaks a deadlock of parked workers.
  Recovery, Recovery_Claims: the rest of the adaptive loops: averages and samplers, CPU weights,
    reclaiming the memory of parked workers (at most one write per 64 MiB), the headroom check, and the
    tick that resumes parked workers or adds new ones.
  Node_Watch: the watchdogs, the state push loop with its orphan clock, and watch_reservation.
  Node_Inputs: where the inputs of one node are, and that every operation only moves them.
  Job_Logs, Log_Claims: the class JobLogWriter of worker_client.py, from container output to documents,
    and that every line of an input arrives once, in order, in documents of bounded size.

  The whole job.
  Input_Protocol, Input_Net: the nodes of one job and its client as a step relation, net_step: local
    work, uploads, steal requests, their late or lost answers, repeated acknowledgements, result polls
    and leaving. Input_Invariants and Input_Safety prove its invariant, Input_Claims what it means: no
    input is lost or duplicated, the network refines one pool of inputs, and a job that every node has
    left is delivered.
  Node_Claims, Node_Batches: the ring, trading slots over lost answers, pressure, batches, minting,
    assignment, replacements.

  The client.
  Client_Node: client/src/burla/_node.py, one node as the client sees it: waiting for its boot, the
    assignment with its retries, cutting and uploading chunks, polling results and every way this fails.
  Client_Job: _remote_parallel_map.py and _cluster_client.py: starting the job, dealing the inputs out,
    the tasks of all nodes with their barrier, and the loop that watches them; client_step is one step.
  Client_Inputs: where the client's inputs are, and the invariant of client_step.
  Client_Net: the client's real polling loop over the network of nodes.
  Client_Claims: what follows: no input is lost in the client, chunks are bounded, the barrier opens,
    the return queue is complete.
  Nested_Calls: the happens-before depths of nested calls in _remote_parallel_map.py.

  Conventions. A coroutine runs without interruption between two awaits, and the head's operations hold
  its locks, so one operation or one such section is one step; what happens between the sections is
  what the step relations leave open. Python ints are int, floats are real, so rounding is not
  modelled; time is an argument. Strings are char lists and the sizes of pickled payloads are lengths
  of strings; text is ASCII, so bytes and characters are the same, and the reader of timestamps is a
  parameter. Random identifiers (uuid4) are arguments; where uniqueness matters it is a hypothesis of
  the step. The cloud, the containers and user code are arguments or free choices of a step. Loops that
  drain a queue take its length as fuel, which is enough because every round removes an element; loops
  that collect inputs up to a target take the target, because every round adds one.

  Assumptions of the network model: a steal request is sent once per transfer identifier, while
  acknowledgements and polls may be repeated and served at any later time; uploads go to nodes that have
  not left the job; a worker process that disappears while it runs an input is no step of the network,
  since the code loses that input (lemma vanished_worker_loses_input); nodes do not fail.

  Not modelled: the client's user interface, pickling, deployment and terminal output; the SDK calls
  of the clouds and the scripts that run on a VM; the rest of the dashboard: formatted views, event
  streams; call summaries and metrics, in the head's SQL and in the node's
  batches; the process inside a worker container; the containers themselves and the reading of
  cgroup files, whose values are parameters of the monitor; package installation. They are input and
  output around the state modelled here.
\<close>

end
